(* ===== verification/Prelude.thy ===== *)
theory Prelude
  imports Main "HOL-Library.Sublist" "HOL-Library.Char_ord" "HOL-Library.List_Lexorder"
    "HOL-Library.Product_Lexorder" "HOL-Library.AList" "HOL-Library.Multiset"
begin

text \<open>
  What the components share: byte strings and the few \<open>str\<close> methods the program calls
  (prefix test, substring search, split at a separator, ASCII classes, decimal printing and
  reading), laws of the error sum \<open>'e + 'a\<close> that stands for \<open>Result<T, E>\<close>, and the
  interface \<open>codec\<close> of an encoder with its decoder.

  A Rust \<open>String\<close> is the list of its UTF-8 bytes, a \<open>string\<close> of HOL: \<open>len()\<close> is
  \<open>length\<close>, comparison is lexicographic on bytes, and a byte outside ASCII never equals
  an ASCII character.
\<close>

named_theorems show_simps \<open>printing and reading of decimal numbers\<close>

section \<open>Results\<close>

type_synonym ('e, 'a) result = "'e + 'a"

abbreviation Ok :: "'a \<Rightarrow> ('e, 'a) result" where "Ok \<equiv> Inr"
abbreviation Err :: "'e \<Rightarrow> ('e, 'a) result" where "Err \<equiv> Inl"

definition res_bind :: "('e, 'a) result \<Rightarrow> ('a \<Rightarrow> ('e, 'b) result) \<Rightarrow> ('e, 'b) result" where
  "res_bind r f = (case r of Inl e \<Rightarrow> Inl e | Inr a \<Rightarrow> f a)"

definition map_err :: "('e \<Rightarrow> 'f) \<Rightarrow> ('e, 'a) result \<Rightarrow> ('f, 'a) result" where
  "map_err g r = (case r of Inl e \<Rightarrow> Inl (g e) | Inr a \<Rightarrow> Inr a)"

definition ok_or :: "'e \<Rightarrow> 'a option \<Rightarrow> ('e, 'a) result" where
  "ok_or e x = (case x of None \<Rightarrow> Inl e | Some a \<Rightarrow> Inr a)"

lemma res_bind_simps [simp]:
  "res_bind (Inl e) f = Inl e" "res_bind (Inr a) f = f a"
  by (simp_all add: res_bind_def)

lemma map_err_simps [simp]:
  "map_err g (Inl e) = Inl (g e)" "map_err g (Inr a) = Inr a"
  by (simp_all add: map_err_def)

lemma ok_or_simps [simp]:
  "ok_or e None = Inl e" "ok_or e (Some a) = Inr a"
  by (simp_all add: ok_or_def)

lemma res_bind_Ok_iff: "res_bind r f = Inr b \<longleftrightarrow> (\<exists>a. r = Inr a \<and> f a = Inr b)"
  by (cases r) simp_all

lemma res_bind_Err_iff: "res_bind r f = Inl e \<longleftrightarrow> r = Inl e \<or> (\<exists>a. r = Inr a \<and> f a = Inl e)"
  by (cases r) simp_all

lemma map_err_Ok_iff [simp]:
  "map_err g r = Inr a \<longleftrightarrow> r = Inr a" "Inr a = map_err g r \<longleftrightarrow> r = Inr a"
  by (cases r; auto)+

section \<open>ASCII classes\<close>

abbreviation byte_of :: "char \<Rightarrow> nat" where "byte_of c \<equiv> of_char c"

definition is_digit :: "char \<Rightarrow> bool" where
  "is_digit c \<longleftrightarrow> 48 \<le> byte_of c \<and> byte_of c \<le> 57"

definition is_lower :: "char \<Rightarrow> bool" where
  "is_lower c \<longleftrightarrow> 97 \<le> byte_of c \<and> byte_of c \<le> 122"

definition is_upper :: "char \<Rightarrow> bool" where
  "is_upper c \<longleftrightarrow> 65 \<le> byte_of c \<and> byte_of c \<le> 90"

definition is_alpha :: "char \<Rightarrow> bool" where
  "is_alpha c \<longleftrightarrow> is_lower c \<or> is_upper c"

definition is_alnum :: "char \<Rightarrow> bool" where
  "is_alnum c \<longleftrightarrow> is_alpha c \<or> is_digit c"

lemma digit_not_lower [simp]: "is_digit c \<Longrightarrow> \<not> is_lower c"
  by (simp add: is_digit_def is_lower_def)

lemma lower_not_digit [simp]: "is_lower c \<Longrightarrow> \<not> is_digit c"
  by (simp add: is_digit_def is_lower_def)

text \<open>The UTF-8 bytes of the dash the messages of the program use.\<close>

definition em_dash :: string where
  "em_dash = [CHR 0xE2, CHR 0x80, CHR 0x94]"

section \<open>Decimal numbers\<close>

definition digit_char :: "nat \<Rightarrow> char" where
  "digit_char n = char_of (48 + n)"

definition digit_val :: "char \<Rightarrow> nat" where
  "digit_val c = byte_of c - 48"

fun show_nat :: "nat \<Rightarrow> string" where
  "show_nat n = (if n < 10 then [digit_char n] else show_nat (n div 10) @ [digit_char (n mod 10)])"

declare show_nat.simps [simp del]

definition nat_of_digits :: "string \<Rightarrow> nat" where
  "nat_of_digits s = foldl (\<lambda>a c. 10 * a + digit_val c) 0 s"

definition show_int :: "int \<Rightarrow> string" where
  "show_int i = (if i < 0 then ''-'' @ show_nat (nat (- i)) else show_nat (nat i))"

lemma of_char_digit: "n < 10 \<Longrightarrow> byte_of (digit_char n) = 48 + n"
  by (simp add: digit_char_def)

lemma digit_chars:
  "digit_char 0 = CHR ''0''" "digit_char (Suc 0) = CHR ''1''" "digit_char 1 = CHR ''1''"
  "digit_char 2 = CHR ''2''" "digit_char 3 = CHR ''3''" "digit_char 4 = CHR ''4''"
  "digit_char 5 = CHR ''5''" "digit_char 6 = CHR ''6''" "digit_char 7 = CHR ''7''"
  "digit_char 8 = CHR ''8''" "digit_char 9 = CHR ''9''"
  by code_simp+

lemma digit_char_is_digit [show_simps]: "n < 10 \<Longrightarrow> is_digit (digit_char n)"
  by (simp add: of_char_digit is_digit_def)

lemma digit_val_char [show_simps]: "n < 10 \<Longrightarrow> digit_val (digit_char n) = n"
  by (simp add: of_char_digit digit_val_def)

lemma show_nat_digits: "\<forall>c \<in> set (show_nat n). is_digit c"
proof (induction n rule: show_nat.induct)
  case (1 n)
  then show ?case
    by (subst show_nat.simps) (auto simp: digit_char_is_digit)
qed

lemma show_nat_nonempty [simp]: "show_nat n \<noteq> []"
  by (subst show_nat.simps) simp

lemma nat_of_digits_snoc [simp]: "nat_of_digits (s @ [c]) = 10 * nat_of_digits s + digit_val c"
  by (simp add: nat_of_digits_def)

lemma nat_of_show_nat [show_simps]: "nat_of_digits (show_nat n) = n"
proof (induction n rule: show_nat.induct)
  case (1 n)
  show ?case
  proof (cases "n < 10")
    case True
    then show ?thesis
      by (subst show_nat.simps) (simp add: nat_of_digits_def digit_val_char)
  next
    case False
    then show ?thesis
      by (subst show_nat.simps) (simp add: 1 digit_val_char)
  qed
qed

lemma show_nat_inject [simp]: "show_nat m = show_nat n \<longleftrightarrow> m = n"
  by (metis nat_of_show_nat)

lemma length_dropWhile_less: "takeWhile P xs \<noteq> [] \<Longrightarrow> length (dropWhile P xs) < length xs"
  by (cases xs) (auto simp: length_dropWhile_le le_imp_less_Suc split: if_splits)

section \<open>Searching byte strings\<close>

definition starts_with :: "string \<Rightarrow> string \<Rightarrow> bool" where
  "starts_with s p \<longleftrightarrow> take (length p) s = p"

fun find_sub :: "string \<Rightarrow> string \<Rightarrow> nat option" where
  "find_sub pat [] = (if pat = [] then Some 0 else None)"
| "find_sub pat (c # s) =
    (if starts_with (c # s) pat then Some 0 else map_option Suc (find_sub pat s))"

definition str_contains :: "string \<Rightarrow> string \<Rightarrow> bool" where
  "str_contains s pat \<longleftrightarrow> find_sub pat s \<noteq> None"

definition ends_with :: "string \<Rightarrow> string \<Rightarrow> bool" where
  "ends_with s p \<longleftrightarrow> starts_with (rev s) (rev p)"

lemma starts_with_append [simp]: "starts_with (p @ s) p"
  by (simp add: starts_with_def)

lemma starts_withD: "starts_with s p \<Longrightarrow> s = p @ drop (length p) s"
  unfolding starts_with_def by (metis append_take_drop_id)

lemma starts_with_prefix: "starts_with s p \<longleftrightarrow> prefix p s"
  by (metis prefix_def starts_withD starts_with_append)

lemma find_sub_SomeD:
  "find_sub pat s = Some i \<Longrightarrow> starts_with (drop i s) pat \<and> i + length pat \<le> length s"
proof (induction s arbitrary: i)
  case Nil
  then show ?case by (auto simp: starts_with_def split: if_splits)
next
  case (Cons c s)
  show ?case
  proof (cases "starts_with (c # s) pat")
    case True
    then have "length pat \<le> length (c # s)"
      unfolding starts_with_prefix by (rule prefix_length_le)
    with True Cons.prems show ?thesis by auto
  next
    case False
    with Cons show ?thesis by auto
  qed
qed

lemma find_sub_first:
  "find_sub pat s = Some i \<Longrightarrow> j < i \<Longrightarrow> \<not> starts_with (drop j s) pat"
proof (induction s arbitrary: i j)
  case Nil
  then show ?case by (auto split: if_splits)
next
  case (Cons c s)
  then show ?case by (cases j) (auto split: if_splits)
qed

lemma find_sub_None_iff: "find_sub pat s = None \<longleftrightarrow> (\<forall>j \<le> length s. \<not> starts_with (drop j s) pat)"
proof (induction s)
  case Nil
  then show ?case by (simp add: starts_with_def)
next
  case (Cons c s)
  have "(\<forall>j \<le> length (c # s). \<not> starts_with (drop j (c # s)) pat) \<longleftrightarrow>
        \<not> starts_with (c # s) pat \<and> (\<forall>j \<le> length s. \<not> starts_with (drop j s) pat)"
    by (metis Suc_le_mono drop0 drop_Suc_Cons le0 length_Cons not0_implies_Suc)
  with Cons.IH show ?case by simp
qed

lemma find_sub_Some_iff: "find_sub pat s = Some i \<longleftrightarrow>
    i + length pat \<le> length s \<and> starts_with (drop i s) pat \<and> (\<forall>j < i. \<not> starts_with (drop j s) pat)"
    (is "?l \<longleftrightarrow> ?r")
proof
  assume ?l
  then show ?r using find_sub_SomeD find_sub_first by blast
next
  assume r: ?r
  then have "find_sub pat s \<noteq> None"
    using find_sub_None_iff [of pat s] by auto
  then obtain k where k: "find_sub pat s = Some k" by blast
  then have "k = i"
    using r find_sub_SomeD [OF k] find_sub_first [OF k] by (metis linorder_neqE_nat)
  with k show ?l by simp
qed

text \<open>A separator of two bytes: where it is found first does not depend on what follows it.\<close>

lemma find_sub_append:
  assumes "find_sub [a, b] (l @ [a, b]) = Some (length l)"
  shows "find_sub [a, b] (l @ a # b # r) = Some (length l)"
  unfolding find_sub_Some_iff
proof (intro conjI allI impI)
  fix j assume j: "j < length l"
  have "take 2 (drop j (l @ a # b # r)) = take 2 (drop j (l @ [a, b]))"
  proof -
    have "drop j (l @ a # b # r) = (drop j l @ [a]) @ b # r" "drop j (l @ [a, b]) = (drop j l @ [a]) @ [b]"
        "2 \<le> length (drop j l @ [a])"
      using j by auto
    then show ?thesis by (metis take_append diff_is_0_eq take0 append_Nil2)
  qed
  moreover have "\<not> starts_with (drop j (l @ [a, b])) [a, b]"
    using assms j unfolding find_sub_Some_iff by blast
  ultimately show "\<not> starts_with (drop j (l @ a # b # r)) [a, b]"
    by (simp add: starts_with_def numeral_2_eq_2)
qed (simp_all add: starts_with_def)

lemma find_sub_split:
  assumes "find_sub [a, b] s = Some i"
  shows "s = take i s @ a # b # drop (i + 2) s"
    and "find_sub [a, b] (take i s @ [a, b]) = Some (length (take i s))"
proof -
  have *: "i + 2 \<le> length s" "take 2 (drop i s) = [a, b]"
    using find_sub_SomeD [OF assms] by (auto simp: starts_with_def numeral_2_eq_2)
  then have "drop i s = [a, b] @ drop 2 (drop i s)"
    by (metis append_take_drop_id)
  then show s: "s = take i s @ a # b # drop (i + 2) s"
    by (metis append_Cons append_Nil append_take_drop_id drop_drop add.commute)
  have "take (i + 2) s = take i s @ [a, b]"
    using * by (metis take_add)
  moreover have "\<not> starts_with (drop j (take (i + 2) s)) [a, b]" if "j < i" for j
    using find_sub_first [OF assms that] that
    by (auto simp: starts_with_def drop_take min_def split: if_splits)
  ultimately show "find_sub [a, b] (take i s @ [a, b]) = Some (length (take i s))"
    using * unfolding find_sub_Some_iff by (auto simp: starts_with_def)
qed

section \<open>Trimming and lower case\<close>

text \<open>
  \<open>str::trim\<close> removes characters of Unicode's \<open>White_Space\<close>, here by their UTF-8 bytes:
  U+0009 to U+000D, U+0020, U+0085, U+00A0, U+1680, U+2000 to U+200A, U+2028, U+2029, U+202F,
  U+205F and U+3000.
\<close>

definition ws1 :: "char \<Rightarrow> bool" where
  "ws1 c \<longleftrightarrow> c = CHR '' '' \<or> 9 \<le> byte_of c \<and> byte_of c \<le> 13"

definition ws2 :: "char \<Rightarrow> char \<Rightarrow> bool" where
  "ws2 a b \<longleftrightarrow> a = CHR 0xC2 \<and> (b = CHR 0x85 \<or> b = CHR 0xA0)"

definition ws3 :: "char \<Rightarrow> char \<Rightarrow> char \<Rightarrow> bool" where
  "ws3 a b c \<longleftrightarrow> a = CHR 0xE1 \<and> b = CHR 0x9A \<and> c = CHR 0x80 \<or>
     a = CHR 0xE2 \<and> b = CHR 0x80 \<and>
       (128 \<le> byte_of c \<and> byte_of c \<le> 138 \<or> c = CHR 0xA8 \<or> c = CHR 0xA9 \<or> c = CHR 0xAF) \<or>
     a = CHR 0xE2 \<and> b = CHR 0x81 \<and> c = CHR 0x9F \<or>
     a = CHR 0xE3 \<and> b = CHR 0x80 \<and> c = CHR 0x80"

fun trim_start :: "string \<Rightarrow> string" where
  "trim_start (a # b # c # s) =
    (if ws1 a then trim_start (b # c # s)
     else if ws2 a b then trim_start (c # s)
     else if ws3 a b c then trim_start s
     else a # b # c # s)"
| "trim_start [a, b] = (if ws1 a then trim_start [b] else if ws2 a b then [] else [a, b])"
| "trim_start [a] = (if ws1 a then [] else [a])"
| "trim_start [] = []"

text \<open>The same from the end, on the reversed bytes.\<close>

fun trim_rev :: "string \<Rightarrow> string" where
  "trim_rev (c # b # a # s) =
    (if ws1 c then trim_rev (b # a # s)
     else if ws2 b c then trim_rev (a # s)
     else if ws3 a b c then trim_rev s
     else c # b # a # s)"
| "trim_rev [c, b] = (if ws1 c then trim_rev [b] else if ws2 b c then [] else [c, b])"
| "trim_rev [c] = (if ws1 c then [] else [c])"
| "trim_rev [] = []"

definition trim :: "string \<Rightarrow> string" where
  "trim s = rev (trim_rev (rev (trim_start s)))"

definition to_lower :: "char \<Rightarrow> char" where
  "to_lower c = (if is_upper c then char_of (byte_of c + 32 :: nat) else c)"

definition to_ascii_lowercase :: "string \<Rightarrow> string" where
  "to_ascii_lowercase s = map to_lower s"

text \<open>\<open>slice::join\<close>\<close>

fun join :: "string \<Rightarrow> string list \<Rightarrow> string" where
  "join sep [] = []"
| "join sep [x] = x"
| "join sep (x # y # xs) = x @ sep @ join sep (y # xs)"

section \<open>Codecs\<close>

text \<open>
  An encoder with its decoder: the contract behind every name that is written to a log, a
  database row or a JSON field and read back.
\<close>

locale codec =
  fixes enc :: "'a \<Rightarrow> 'b" and dec :: "'b \<Rightarrow> 'a option" and good :: "'a \<Rightarrow> bool"
  assumes dec_enc: "good x \<Longrightarrow> dec (enc x) = Some x"
begin

lemma enc_inj: "good x \<Longrightarrow> good y \<Longrightarrow> enc x = enc y \<longleftrightarrow> x = y"
  by (metis dec_enc option.inject)

lemma dec_map: "list_all good xs \<Longrightarrow> those (map (dec \<circ> enc) xs) = Some xs"
  by (induction xs) (auto simp: dec_enc)

end

end
