(* ===== verification/Template.thy ===== *)
theory Template
  imports Prelude
begin

text \<open>
  \<open>crates/stepyard-core/src/template.rs\<close>: substitution of \<open>{{KEY}}\<close> placeholders in the
  workflow text, in its strict form and in the loader's compatibility form. The encoder
  \<open>serde_yaml::to_string\<close> is third-party code: it is the parameter \<open>yaml\<close>.
\<close>

section \<open>Operations\<close>

datatype TemplateError =
    Unresolved string string
  | InvalidPlaceholder string nat
  | YamlEncoding string

type_synonym yaml_encoder = "string \<Rightarrow> (string, string) result"
type_synonym vars = "(string \<times> string) list"

definition slice :: "string \<Rightarrow> nat \<Rightarrow> nat \<Rightarrow> string" where
  "slice s a b = take (b - a) (drop a s)"

definition key_byte :: "char \<Rightarrow> bool" where
  "key_byte c \<longleftrightarrow> is_upper c \<or> is_digit c \<or> c = CHR ''_''"

fun is_valid_key :: "string \<Rightarrow> bool" where
  "is_valid_key [] = False"
| "is_valid_key (c # cs) = ((is_upper c \<or> c = CHR ''_'') \<and> list_all key_byte cs)"

text \<open>\<open>trim_end_matches\<close> of the newlines the encoder ends its document with.\<close>

definition trim_newlines :: "string \<Rightarrow> string" where
  "trim_newlines s = rev (dropWhile (\<lambda>c. c = CHR 0x0A) (rev s))"

definition yaml_scalar :: "yaml_encoder \<Rightarrow> string \<Rightarrow> (TemplateError, string) result" where
  "yaml_scalar yaml value = res_bind (map_err YamlEncoding (yaml value)) (\<lambda>e. Inr (trim_newlines e))"

text \<open>
  Line and column of a byte offset. The source walks the characters of the prefix; in UTF-8 a
  character is one byte that is not a continuation byte (\<open>10xxxxxx\<close>).
\<close>

definition is_char_start :: "char \<Rightarrow> bool" where
  "is_char_start c \<longleftrightarrow> byte_of c < (128 :: nat) \<or> 192 \<le> (byte_of c :: nat)"

fun location_step :: "nat \<times> nat \<Rightarrow> char \<Rightarrow> nat \<times> nat" where
  "location_step (line, col) c =
    (if c = CHR 0x0A then (line + 1, 1)
     else if is_char_start c then (line, col + 1) else (line, col))"

definition location_for :: "string \<Rightarrow> nat \<Rightarrow> string \<Rightarrow> string" where
  "location_for text byte_index source_name =
    (case foldl location_step (1, 1) (take byte_index text) of
       (line, col) \<Rightarrow> source_name @ '':'' @ show_nat line @ '':'' @ show_nat col)"

definition default_found_at :: string where
  "default_found_at = ''<workflow-yaml>''"

lemma find_sub_progress:
  "find_sub pat (drop i s) = Some j \<Longrightarrow> pat \<noteq> [] \<Longrightarrow> i + j < length s"
  by (drule find_sub_SomeD) (cases pat; auto)

function substitute_loop ::
  "yaml_encoder \<Rightarrow> string \<Rightarrow> vars \<Rightarrow> string \<Rightarrow> nat \<Rightarrow> string \<Rightarrow> (TemplateError, string) result" where
  "substitute_loop yaml text vars source_name cursor out =
    (case find_sub ''{{'' (drop cursor text) of
       None \<Rightarrow> Inr (out @ drop cursor text)
     | Some open_rel \<Rightarrow>
       (let opn = cursor + open_rel; out1 = out @ slice text cursor opn; key_start = opn + 2 in
        (case find_sub ''}}'' (drop key_start text) of
           None \<Rightarrow> Inl (InvalidPlaceholder (drop opn text) opn)
         | Some close_rel \<Rightarrow>
           (let close = key_start + close_rel; key = slice text key_start close in
            if \<not> is_valid_key key then Inl (InvalidPlaceholder (slice text opn (close + 2)) opn)
            else
              (case map_of vars key of
                 None \<Rightarrow> Inl (Unresolved key (location_for text opn source_name))
               | Some value \<Rightarrow>
                 (case yaml_scalar yaml value of
                    Inl e \<Rightarrow> Inl e
                  | Inr enc \<Rightarrow>
                    substitute_loop yaml text vars source_name (close + 2) (out1 @ enc)))))))"
  by pat_completeness auto
termination
  by (relation "measure (\<lambda>(y, t, v, n, c, out). length t - c)")
    (auto dest: find_sub_progress)

declare substitute_loop.simps [simp del]

definition substitute_with_source ::
  "yaml_encoder \<Rightarrow> string \<Rightarrow> vars \<Rightarrow> string \<Rightarrow> (TemplateError, string) result" where
  "substitute_with_source yaml text vars source_name =
    substitute_loop yaml text vars source_name 0 []"

definition substitute :: "yaml_encoder \<Rightarrow> string \<Rightarrow> vars \<Rightarrow> (TemplateError, string) result" where
  "substitute yaml text vars = substitute_with_source yaml text vars default_found_at"

text \<open>The compatibility mode leaves every other \<open>{{ ... }}\<close> token as it stands.\<close>

function workflow_loop ::
  "yaml_encoder \<Rightarrow> string \<Rightarrow> vars \<Rightarrow> string \<Rightarrow> nat \<Rightarrow> string \<Rightarrow> (TemplateError, string) result" where
  "workflow_loop yaml text vars source_name cursor out =
    (case find_sub ''{{'' (drop cursor text) of
       None \<Rightarrow> Inr (out @ drop cursor text)
     | Some open_rel \<Rightarrow>
       (let opn = cursor + open_rel; out1 = out @ slice text cursor opn; key_start = opn + 2 in
        (case find_sub ''}}'' (drop key_start text) of
           None \<Rightarrow> Inr (out1 @ drop opn text)
         | Some close_rel \<Rightarrow>
           (let close = key_start + close_rel; token_end = close + 2;
                key = slice text key_start close in
            if \<not> is_valid_key key then
              workflow_loop yaml text vars source_name token_end (out1 @ slice text opn token_end)
            else
              (case map_of vars key of
                 None \<Rightarrow> Inl (Unresolved key (location_for text opn source_name))
               | Some value \<Rightarrow>
                 (case yaml_scalar yaml value of
                    Inl e \<Rightarrow> Inl e
                  | Inr enc \<Rightarrow>
                    workflow_loop yaml text vars source_name token_end (out1 @ enc)))))))"
  by pat_completeness auto
termination
  by (relation "measure (\<lambda>(y, t, v, n, c, out). length t - c)")
    (auto dest: find_sub_progress)

declare workflow_loop.simps [simp del]

definition substitute_workflow_vars ::
  "yaml_encoder \<Rightarrow> string \<Rightarrow> vars \<Rightarrow> string \<Rightarrow> (TemplateError, string) result" where
  "substitute_workflow_vars yaml text vars source_name =
    workflow_loop yaml text vars source_name 0 []"

section \<open>What a substitution is\<close>

text \<open>
  A text is read as pieces, each a literal stretch followed by a token \<open>{{key}}\<close>, and a tail.
  The literal holds no earlier opening, the key no earlier closing.
\<close>

type_synonym piece = "string \<times> string"

fun piece_ok :: "piece \<Rightarrow> bool" where
  "piece_ok (l, k) \<longleftrightarrow> find_sub ''{{'' (l @ ''{{'') = Some (length l) \<and>
     find_sub ''}}'' (k @ ''}}'') = Some (length k)"

fun unparse :: "piece list \<Rightarrow> string \<Rightarrow> string" where
  "unparse [] tail = tail"
| "unparse ((l, k) # ps) tail = l @ ''{{'' @ k @ ''}}'' @ unparse ps tail"

definition encode_key :: "yaml_encoder \<Rightarrow> vars \<Rightarrow> string \<Rightarrow> string option" where
  "encode_key yaml vars k =
    (if \<not> is_valid_key k then None
     else (case map_of vars k of None \<Rightarrow> None
       | Some v \<Rightarrow> (case yaml_scalar yaml v of Inl e \<Rightarrow> None | Inr enc \<Rightarrow> Some enc)))"

definition keep_token :: "(string \<Rightarrow> string option) \<Rightarrow> string \<Rightarrow> string option" where
  "keep_token f k = (if is_valid_key k then f k else Some (''{{'' @ k @ ''}}''))"

fun render_pieces :: "(string \<Rightarrow> string option) \<Rightarrow> piece list \<Rightarrow> string option" where
  "render_pieces f [] = Some []"
| "render_pieces f ((l, k) # ps) =
    (case f k of None \<Rightarrow> None
     | Some v \<Rightarrow> map_option (\<lambda>r. l @ v @ r) (render_pieces f ps))"

definition no_open :: "string \<Rightarrow> bool" where
  "no_open s \<longleftrightarrow> find_sub ''{{'' s = None"

definition dangling :: "string \<Rightarrow> bool" where
  "dangling s \<longleftrightarrow> (case find_sub ''{{'' s of None \<Rightarrow> True
     | Some i \<Rightarrow> find_sub ''}}'' (drop (i + 2) s) = None)"

lemma slice_find: "drop c s = l @ r \<Longrightarrow> slice s c (c + length l) = l"
  by (simp add: slice_def)

lemma drop_find: "drop c s = l @ r \<Longrightarrow> drop (c + length l) s = r"
  by (metis append_eq_conv_conj drop_drop add.commute)

lemma piece_at:
  assumes "piece_ok (l, k)" "drop c s = l @ ''{{'' @ k @ ''}}'' @ rest"
  shows "find_sub ''{{'' (drop c s) = Some (length l)"
    and "slice s c (c + length l) = l"
    and "find_sub ''}}'' (drop (c + length l + 2) s) = Some (length k)"
    and "slice s (c + length l + 2) (c + length l + 2 + length k) = k"
    and "slice s (c + length l) (c + length l + 2 + length k + 2) = ''{{'' @ k @ ''}}''"
    and "drop (c + length l + 2 + length k + 2) s = rest"
proof -
  have d1: "drop (c + length l) s = ''{{'' @ k @ ''}}'' @ rest"
    by (rule drop_find [OF assms(2)])
  have d2: "drop (c + length l + 2) s = k @ ''}}'' @ rest"
    using drop_find [OF d1] by simp
  show "find_sub ''{{'' (drop c s) = Some (length l)"
    using assms by (simp add: find_sub_append)
  show "find_sub ''}}'' (drop (c + length l + 2) s) = Some (length k)"
    unfolding d2 using assms(1) by (simp add: find_sub_append)
  show "slice s c (c + length l) = l" by (rule slice_find [OF assms(2)])
  show "slice s (c + length l + 2) (c + length l + 2 + length k) = k" by (rule slice_find [OF d2])
  show "slice s (c + length l) (c + length l + 2 + length k + 2) = ''{{'' @ k @ ''}}''"
    using slice_find [of "c + length l" s "''{{'' @ k @ ''}}''" rest] d1
    by (simp add: numeral_2_eq_2 add.commute add.left_commute)
  show "drop (c + length l + 2 + length k + 2) s = rest"
    using drop_find [of "c + length l + 2 + length k" s "''}}''" rest] drop_find [OF d2] by simp
qed

text \<open>Conversely, where the loop finds a token the text has a piece.\<close>

lemma token_found:
  assumes "find_sub ''{{'' (drop c s) = Some i" "find_sub ''}}'' (drop (c + i + 2) s) = Some j"
  defines "l \<equiv> slice s c (c + i)" and "k \<equiv> slice s (c + i + 2) (c + i + 2 + j)"
  shows "piece_ok (l, k)" "drop c s = l @ ''{{'' @ k @ ''}}'' @ drop (c + i + 2 + j + 2) s"
    "length l = i" "length k = j"
proof -
  note a = find_sub_split [OF assms(1)] and b = find_sub_split [OF assms(2)]
  have lk: "l = take i (drop c s)" "k = take j (drop (c + i + 2) s)"
    by (simp_all add: l_def k_def slice_def)
  show "length l = i" "length k = j"
    using find_sub_SomeD [OF assms(1)] find_sub_SomeD [OF assms(2)] by (auto simp: lk)
  show "piece_ok (l, k)"
    using a(2) b(2) by (simp add: lk)
  show "drop c s = l @ ''{{'' @ k @ ''}}'' @ drop (c + i + 2 + j + 2) s"
    using a(1) b(1) by (simp add: lk add.commute add.left_commute add.assoc)
qed

lemma valid_key_closed: "is_valid_key k \<Longrightarrow> find_sub ''}}'' (k @ ''}}'') = Some (length k)"
proof -
  assume k: "is_valid_key k"
  have "c \<noteq> CHR ''}''" if "c \<in> set k" for c
  proof -
    have "key_byte c" using k that by (cases k) (auto simp: list_all_iff key_byte_def)
    then show ?thesis by (auto simp: key_byte_def is_upper_def is_digit_def)
  qed
  then have "\<forall>j < length k. k ! j \<noteq> CHR ''}''" by auto
  then show ?thesis
    unfolding find_sub_Some_iff
    by (auto simp: starts_with_def Cons_nth_drop_Suc [symmetric] nth_append)
qed

text \<open>The two loops read the same pieces; they differ in what they accept as a token and as a tail.\<close>

lemma substitute_loop_pieces:
  "drop c text = unparse ps tail \<Longrightarrow> list_all piece_ok ps \<Longrightarrow> no_open tail \<Longrightarrow>
    render_pieces (encode_key yaml vars) ps = Some r \<Longrightarrow>
    substitute_loop yaml text vars src c out = Inr (out @ r @ tail)"
proof (induction ps arbitrary: c out r)
  case Nil
  then show ?case by (subst substitute_loop.simps) (simp add: no_open_def)
next
  case (Cons p ps)
  obtain l k where p: "p = (l, k)" by (cases p)
  have ok: "piece_ok (l, k)" using Cons.prems(2) p by simp
  have tx': "drop c text = l @ ''{{'' @ k @ ''}}'' @ unparse ps tail"
    using Cons.prems(1) p by simp
  note pa = piece_at [OF ok tx']
  from Cons.prems(4) obtain v r' where v: "encode_key yaml vars k = Some v" "r = l @ v @ r'"
      "render_pieces (encode_key yaml vars) ps = Some r'"
    by (auto simp: p split: option.splits)
  then obtain val where "is_valid_key k" "map_of vars k = Some val" "yaml_scalar yaml val = Inr v"
    by (auto simp: encode_key_def split: if_splits option.splits sum.splits)
  moreover have "substitute_loop yaml text vars src (c + length l + 2 + length k + 2) (out @ l @ v)
      = Inr ((out @ l @ v) @ r' @ tail)"
    using Cons.IH pa(6) Cons.prems(2,3) v(3) by simp
  ultimately show ?case
    by (subst substitute_loop.simps) (simp only: pa Let_def option.case sum.case not_True_eq_False
        if_False append.assoc v(2))
qed

lemma substitute_loop_sound:
  "substitute_loop yaml text vars src c out = Inr res \<Longrightarrow>
    \<exists>ps tail r. drop c text = unparse ps tail \<and> list_all piece_ok ps \<and> no_open tail \<and>
      render_pieces (encode_key yaml vars) ps = Some r \<and> res = out @ r @ tail"
proof (induction yaml "text" vars src c out rule: substitute_loop.induct)
  case (1 yaml s vars src c out)
  show ?case
  proof (cases "find_sub ''{{'' (drop c s)")
    case None
    with 1(2) have "res = out @ drop c s"
      by (subst (asm) substitute_loop.simps) simp
    moreover have "no_open (drop c s)" using None by (simp add: no_open_def)
    ultimately show ?thesis
      by (metis append_Nil list.pred_inject(1) render_pieces.simps(1) unparse.simps(1))
  next
    case (Some i)
    define l where "l = slice s c (c + i)"
    from 1(2) Some obtain j where j: "find_sub ''}}'' (drop (c + i + 2) s) = Some j"
      by (subst (asm) substitute_loop.simps) (auto simp: Let_def split: option.splits)
    define k where "k = slice s (c + i + 2) (c + i + 2 + j)"
    from 1(2) Some j obtain val v where kv: "is_valid_key k" "map_of vars k = Some val"
        "yaml_scalar yaml val = Inr v"
        "substitute_loop yaml s vars src (c + i + 2 + j + 2) (out @ l @ v) = Inr res"
      by (subst (asm) substitute_loop.simps)
        (auto simp: Let_def k_def [symmetric] l_def [symmetric] simp del: add_2_eq_Suc'
          split: option.splits if_splits sum.splits)
    note tf = token_found [OF Some j, folded l_def k_def]
    obtain ps tail r where ps: "drop (c + i + 2 + j + 2) s = unparse ps tail"
        "list_all piece_ok ps" "no_open tail" "render_pieces (encode_key yaml vars) ps = Some r"
        "res = (out @ l @ v) @ r @ tail"
      using 1(1) [OF Some refl refl refl j refl k_def _ kv(2,3)] kv(1,4) by (auto simp: l_def)
    have "encode_key yaml vars k = Some v" using kv(1-3) by (simp add: encode_key_def)
    then show ?thesis
      using tf(1,2) ps
      by - (rule exI [of _ "(l, k) # ps"], rule exI [of _ tail], rule exI [of _ "l @ v @ r"], simp)
  qed
qed

lemma workflow_loop_pieces:
  "drop c text = unparse ps tail \<Longrightarrow> list_all piece_ok ps \<Longrightarrow> dangling tail \<Longrightarrow>
    render_pieces (keep_token (encode_key yaml vars)) ps = Some r \<Longrightarrow>
    workflow_loop yaml text vars src c out = Inr (out @ r @ tail)"
proof (induction ps arbitrary: c out r)
  case Nil
  show ?case
  proof (cases "find_sub ''{{'' tail")
    case (Some i)
    have d: "drop (c + i + 2) text = drop (i + 2) tail" "drop (c + i) text = drop i tail"
        "slice text c (c + i) = take i tail"
      using Nil(1) by (auto simp: slice_def add.commute add.left_commute)
    have z: "find_sub ''}}'' (drop (c + i + 2) text) = None" "find_sub ''{{'' (drop c text) = Some i"
      unfolding d using Nil Some by (simp_all add: dangling_def)
    have "r = []" using Nil(4) by simp
    then show ?thesis
      by (subst workflow_loop.simps) (simp only: z Let_def option.case, simp add: d append_take_drop_id)
  qed (use Nil in \<open>subst workflow_loop.simps, simp\<close>)
next
  case (Cons p ps)
  obtain l k where p: "p = (l, k)" by (cases p)
  have ok: "piece_ok (l, k)" using Cons.prems(2) p by simp
  have tx': "drop c text = l @ ''{{'' @ k @ ''}}'' @ unparse ps tail"
    using Cons.prems(1) p by simp
  note pa = piece_at [OF ok tx']
  from Cons.prems(4) obtain v r' where v: "keep_token (encode_key yaml vars) k = Some v" "r = l @ v @ r'"
      "render_pieces (keep_token (encode_key yaml vars)) ps = Some r'"
    by (auto simp: p split: option.splits)
  have IH: "workflow_loop yaml text vars src (c + length l + 2 + length k + 2) (out @ l @ v)
      = Inr ((out @ l @ v) @ r' @ tail)"
    using Cons.IH pa(6) Cons.prems(2,3) v(3) by simp
  show ?case
  proof (cases "is_valid_key k")
    case True
    then obtain val where "map_of vars k = Some val" "yaml_scalar yaml val = Inr v"
      using v(1) by (auto simp: keep_token_def encode_key_def split: option.splits sum.splits)
    with True IH show ?thesis
      by (subst workflow_loop.simps) (simp only: pa Let_def option.case sum.case not_True_eq_False
          if_False append.assoc v(2))
  next
    case False
    then have "v = ''{{'' @ k @ ''}}''" using v(1) by (simp add: keep_token_def)
    with False IH show ?thesis
      by (subst workflow_loop.simps) (simp only: pa Let_def option.case sum.case not_False_eq_True
          if_True append.assoc v(2))
  qed
qed

lemma no_open_dangling: "no_open s \<Longrightarrow> dangling s"
  by (simp add: no_open_def dangling_def)

lemma render_keep_token:
  "render_pieces (encode_key yaml vars) ps = Some r \<Longrightarrow>
    render_pieces (keep_token (encode_key yaml vars)) ps = Some r"
proof (induction ps arbitrary: r)
  case (Cons p ps)
  then show ?case
    by (cases p) (auto simp: keep_token_def encode_key_def split: option.splits if_splits)
qed simp

lemma render_closed: "list_all (\<lambda>p. \<not> is_valid_key (snd p)) ps \<Longrightarrow>
    render_pieces (keep_token f) ps = Some r \<Longrightarrow> unparse ps tail = r @ tail"
  by (induction ps arbitrary: r) (auto simp: keep_token_def split: option.splits)

section \<open>Properties\<close>

text \<open>
  C13: strict substitution succeeds exactly on texts that are literals and well-formed \<open>{{KEY}}\<close>
  tokens with a value each, and returns the text with every token replaced by its encoded value
  once: literals are copied, and braces inside a value are never read as a placeholder again.
\<close>

theorem substitute_spec:
  "substitute_with_source yaml text vars src = Inr res \<longleftrightarrow>
    (\<exists>ps tail r. text = unparse ps tail \<and> list_all piece_ok ps \<and> no_open tail \<and>
      render_pieces (encode_key yaml vars) ps = Some r \<and> res = r @ tail)"
  unfolding substitute_with_source_def
  using substitute_loop_pieces [of 0 "text"] substitute_loop_sound [of yaml "text" vars src 0 "[]" res]
  by auto

text \<open>
  The loader's compatibility mode agrees with the strict mode wherever the strict mode
  succeeds, and leaves a text whose tokens are no valid keys (the runtime's own
  \<open>{{ steps.x.stdout }}\<close> expressions) unchanged, whatever the variables are.
\<close>

theorem workflow_vars_conservative:
  "(substitute_with_source yaml text vars src = Inr res \<longrightarrow>
      substitute_workflow_vars yaml text vars src' = Inr res) \<and>
    (list_all piece_ok ps \<and> list_all (\<lambda>p. \<not> is_valid_key (snd p)) ps \<and> dangling tail \<longrightarrow>
      substitute_workflow_vars yaml (unparse ps tail) vars src = Inr (unparse ps tail))"
proof (intro conjI impI)
  assume "substitute_with_source yaml text vars src = Inr res"
  then show "substitute_workflow_vars yaml text vars src' = Inr res"
    unfolding substitute_with_source_def substitute_workflow_vars_def
    using workflow_loop_pieces [of 0 "text"] render_keep_token no_open_dangling
    by (auto dest!: substitute_loop_sound)
next
  assume *: "list_all piece_ok ps \<and> list_all (\<lambda>p. \<not> is_valid_key (snd p)) ps \<and> dangling tail"
  have "\<exists>r. render_pieces (keep_token (encode_key yaml vars)) ps = Some r"
    using * by (induction ps) (auto simp: keep_token_def)
  then obtain r where r: "render_pieces (keep_token (encode_key yaml vars)) ps = Some r" by blast
  then have "unparse ps tail = r @ tail" using * render_closed by blast
  then show "substitute_workflow_vars yaml (unparse ps tail) vars src = Inr (unparse ps tail)"
    using workflow_loop_pieces [of 0 "unparse ps tail" ps tail yaml vars r src "[]"] * r
    by (simp add: substitute_workflow_vars_def)
qed

theorem workflow_vars_conservative_witness:
  "substitute_workflow_vars Inr ''a {{KEY}} b'' [(''KEY'', ''{{X}}'')] ''f'' = Inr ''a {{X}} b'' \<and>
    substitute_workflow_vars Inr ''{{ s.x }}!'' [] ''f'' = Inr ''{{ s.x }}!''"
proof
  have "substitute_with_source Inr ''a {{KEY}} b'' [(''KEY'', ''{{X}}'')] ''f'' = Inr ''a {{X}} b''"
    unfolding substitute_spec
    by (rule exI [of _ "[(''a '', ''KEY'')]"], rule exI [of _ "'' b''"], rule exI [of _ "''a {{X}}''"])
      code_simp
  then show "substitute_workflow_vars Inr ''a {{KEY}} b'' [(''KEY'', ''{{X}}'')] ''f'' = Inr ''a {{X}} b''"
    using workflow_vars_conservative [of Inr "''a {{KEY}} b''" "[(''KEY'', ''{{X}}'')]" "''f''" _ "''f''"
        "[]" "[]"] by blast
  have "list_all piece_ok [([], '' s.x '')] \<and> list_all (\<lambda>p. \<not> is_valid_key (snd p)) [([], '' s.x '')] \<and>
      dangling ''!''"
    by code_simp
  then show "substitute_workflow_vars Inr ''{{ s.x }}!'' [] ''f'' = Inr ''{{ s.x }}!''"
    using workflow_vars_conservative [of Inr "[]" "[]" "''f''" "[]" "''f''" "[([], '' s.x '')]" "''!''"] by simp
qed

end
