(* ===== verification/Duration.thy ===== *)
theory Duration
  imports Prelude
begin

text \<open>
  \<open>crates/stepyard-core/src/duration.rs\<close>: the workflow duration grammar
  (\<open>1h30m\<close>, \<open>500ms\<close>), its parser, its canonical printer and the serde hooks. A Rust
  \<open>Duration\<close> is its number of nanoseconds; the parser's \<open>u128\<close> and \<open>u64\<close>
  accumulators are naturals with the checked operations written out.
\<close>

section \<open>The parser\<close>

datatype DurationParseError =
    Empty
  | InvalidCharacter string
  | MissingDigits string
  | MissingUnit string
  | UnknownUnit string string
  | OrderViolation string string
  | Overflow string

type_synonym duration = nat

definition from_millis :: "nat \<Rightarrow> duration" where
  "from_millis ms = ms * 1000000"

definition as_millis :: "duration \<Rightarrow> nat" where
  "as_millis d = d div 1000000"

definition u128_ok :: "nat \<Rightarrow> nat option" where
  "u128_ok n = (if n < 2 ^ 128 then Some n else None)"

definition u64_ok :: "nat \<Rightarrow> nat option" where
  "u64_ok n = (if n < 2 ^ 64 then Some n else None)"

definition unit_of :: "string \<Rightarrow> (nat \<times> nat) option" where
  "unit_of u =
    (if u = ''ms'' then Some (1, 1)
     else if u = ''s'' then Some (2, 1000)
     else if u = ''m'' then Some (3, 60000)
     else if u = ''h'' then Some (4, 3600000)
     else None)"

text \<open>
  The \<open>while\<close> loop: \<open>s\<close> is the whole input (quoted in the errors), \<open>rest\<close> the
  bytes from the index \<open>i\<close> on, \<open>last_rank\<close> starts at \<open>i32::MAX\<close>.
\<close>

function parse_loop :: "string \<Rightarrow> string \<Rightarrow> nat \<Rightarrow> nat \<Rightarrow> (DurationParseError, nat) result" where
  "parse_loop s rest total_ms last_rank =
    (if rest = [] then Inr total_ms
     else
       (let digits = takeWhile is_digit rest; rest1 = dropWhile is_digit rest in
        if digits = [] then Inl (MissingDigits s)
        else
          (case u128_ok (nat_of_digits digits) of
             None \<Rightarrow> Inl (Overflow s)
           | Some number \<Rightarrow>
             (let unit = takeWhile is_lower rest1; rest2 = dropWhile is_lower rest1 in
              if unit = [] then Inl (MissingUnit s)
              else
                (case unit_of unit of
                   None \<Rightarrow> Inl (UnknownUnit s unit)
                 | Some (rank, mult_ms) \<Rightarrow>
                   if rank \<ge> last_rank then Inl (OrderViolation s unit)
                   else
                     (case u128_ok (number * mult_ms) of
                        None \<Rightarrow> Inl (Overflow s)
                      | Some product \<Rightarrow>
                        (case u128_ok (total_ms + product) of
                           None \<Rightarrow> Inl (Overflow s)
                         | Some total' \<Rightarrow> parse_loop s rest2 total' rank)))))))"
  by pat_completeness auto
termination
  by (relation "measure (\<lambda>(s, rest, t, l). length rest)")
    (auto intro: le_less_trans [OF length_dropWhile_le length_dropWhile_less])

declare parse_loop.simps [simp del]

definition parse_duration :: "string \<Rightarrow> (DurationParseError, duration) result" where
  "parse_duration s =
    (if s = [] then Inl Empty
     else if \<not> list_all (\<lambda>b. is_digit b \<or> is_lower b) s then Inl (InvalidCharacter s)
     else
       (case parse_loop s s 0 (2 ^ 31 - 1) of
          Inl e \<Rightarrow> Inl e
        | Inr total_ms \<Rightarrow>
          (case u64_ok total_ms of
             None \<Rightarrow> Inl (Overflow s)
           | Some ms \<Rightarrow> Inr (from_millis ms))))"

section \<open>The canonical printer\<close>

definition canonical :: "duration \<Rightarrow> string" where
  "canonical d =
    (let total_ms = as_millis d in
     if total_ms = 0 then ''0s''
     else
       (let hours = total_ms div 3600000; r1 = total_ms mod 3600000;
            minutes = r1 div 60000; r2 = r1 mod 60000;
            seconds = r2 div 1000; ms = r2 mod 1000 in
        (if hours > 0 then show_nat hours @ ''h'' else []) @
        (if minutes > 0 then show_nat minutes @ ''m'' else []) @
        (if seconds > 0 then show_nat seconds @ ''s'' else []) @
        (if ms > 0 then show_nat ms @ ''ms'' else [])))"

section \<open>The grammar\<close>

text \<open>
  \<open>duration := segment+\<close>, \<open>segment := integer unit\<close>, each unit at most once and from
  high to low. A segment is its digits and its unit.
\<close>

datatype unit_name = Hour | Minute | Second | Milli

fun unit_text :: "unit_name \<Rightarrow> string" where
  "unit_text Hour = ''h''" | "unit_text Minute = ''m''" | "unit_text Second = ''s''" | "unit_text Milli = ''ms''"

fun unit_rank :: "unit_name \<Rightarrow> nat" where
  "unit_rank Hour = 4" | "unit_rank Minute = 3" | "unit_rank Second = 2" | "unit_rank Milli = 1"

fun unit_millis :: "unit_name \<Rightarrow> nat" where
  "unit_millis Hour = 3600000" | "unit_millis Minute = 60000" | "unit_millis Second = 1000" | "unit_millis Milli = 1"

type_synonym segment = "string \<times> unit_name"

definition seg_text :: "segment \<Rightarrow> string" where
  "seg_text g = fst g @ unit_text (snd g)"

definition seg_millis :: "segment \<Rightarrow> nat" where
  "seg_millis g = nat_of_digits (fst g) * unit_millis (snd g)"

definition segs_text :: "segment list \<Rightarrow> string" where
  "segs_text gs = concat (map seg_text gs)"

definition segs_millis :: "segment list \<Rightarrow> nat" where
  "segs_millis gs = sum_list (map seg_millis gs)"

definition seg_ok :: "segment \<Rightarrow> bool" where
  "seg_ok g \<longleftrightarrow> fst g \<noteq> [] \<and> list_all is_digit (fst g)"

definition segs_ok :: "segment list \<Rightarrow> bool" where
  "segs_ok gs \<longleftrightarrow> list_all seg_ok gs \<and> sorted_wrt (\<lambda>a b. unit_rank (snd a) > unit_rank (snd b)) gs"

lemma segs_simps [simp]:
  "segs_text [] = []" "segs_text (g # gs) = seg_text g @ segs_text gs"
  "segs_millis [] = 0" "segs_millis (g # gs) = seg_millis g + segs_millis gs"
  by (simp_all add: segs_text_def segs_millis_def)

lemma u128_ok_iff: "u128_ok n = Some m \<longleftrightarrow> m = n \<and> n < 2 ^ 128"
  by (auto simp: u128_ok_def)

lemma u64_ok_iff: "u64_ok n = Some m \<longleftrightarrow> m = n \<and> n < 2 ^ 64"
  by (auto simp: u64_ok_def)

lemma unit_of_iff: "unit_of u = Some (r, m) \<longleftrightarrow>
    (\<exists>n. u = unit_text n \<and> r = unit_rank n \<and> m = unit_millis n)" (is "?l \<longleftrightarrow> ?r")
proof
  assume ?l
  then show ?r
    by (auto simp: unit_of_def split: if_splits)
      (metis unit_text.simps unit_rank.simps unit_millis.simps One_nat_def)+
next
  assume ?r
  then obtain n where "u = unit_text n" "r = unit_rank n" "m = unit_millis n" by blast
  then show ?l by (cases n) (simp_all add: unit_of_def)
qed

lemma unit_of_text [simp]: "unit_of (unit_text n) = Some (unit_rank n, unit_millis n)"
  using unit_of_iff by blast

lemma unit_text_lower: "list_all is_lower (unit_text n)" "unit_text n \<noteq> []"
  by (cases n; simp add: is_lower_def)+

lemma takeWhile_unit_append:
  "rest = [] \<or> is_digit (hd rest) \<Longrightarrow> takeWhile is_lower (unit_text n @ rest) = unit_text n"
  "rest = [] \<or> is_digit (hd rest) \<Longrightarrow> dropWhile is_lower (unit_text n @ rest) = rest"
  using unit_text_lower(1) [of n]
  by (cases rest; simp add: list_all_iff takeWhile_append dropWhile_append)+

lemma takeWhile_digits_append:
  "list_all is_digit ds \<Longrightarrow> takeWhile is_digit (ds @ unit_text n @ rest) = ds"
  "list_all is_digit ds \<Longrightarrow> dropWhile is_digit (ds @ unit_text n @ rest) = unit_text n @ rest"
  by (cases n; simp add: list_all_iff takeWhile_append dropWhile_append is_digit_def)+

lemma segs_text_hd: "segs_ok gs \<Longrightarrow> segs_text gs = [] \<or> is_digit (hd (segs_text gs))"
  by (cases gs) (auto simp: segs_ok_def seg_ok_def seg_text_def list_all_iff)

lemma segs_ok_Cons [simp]: "segs_ok (g # gs) \<longleftrightarrow>
    seg_ok g \<and> (\<forall>h \<in> set gs. unit_rank (snd h) < unit_rank (snd g)) \<and> segs_ok gs"
  by (auto simp: segs_ok_def)

lemma segs_ok_Nil [simp]: "segs_ok []"
  by (simp add: segs_ok_def)

text \<open>The loop accepts exactly the segment lists below the rank it stands at, and adds their value.\<close>

lemma parse_loop_complete:
  assumes "segs_ok gs" "\<forall>g \<in> set gs. unit_rank (snd g) < lst" "t + segs_millis gs < 2 ^ 128"
  shows "parse_loop s (segs_text gs) t lst = Inr (t + segs_millis gs)"
  using assms
proof (induction gs arbitrary: t lst)
  case Nil
  then show ?case by (simp add: parse_loop.simps)
next
  case (Cons g gs)
  obtain ds n where g: "g = (ds, n)" by (cases g)
  have ds: "ds \<noteq> []" "list_all is_digit ds"
    using Cons.prems(1) by (simp_all add: g seg_ok_def)
  have tx: "segs_text (g # gs) = ds @ unit_text n @ segs_text gs"
    by (simp add: g seg_text_def)
  have val: "nat_of_digits ds * unit_millis n + t + segs_millis gs < 2 ^ 128"
    using Cons.prems(3) by (simp add: g seg_millis_def)
  then have dom: "u128_ok (nat_of_digits ds) = Some (nat_of_digits ds)"
      "u128_ok (nat_of_digits ds * unit_millis n) = Some (nat_of_digits ds * unit_millis n)"
      "u128_ok (t + nat_of_digits ds * unit_millis n) = Some (t + nat_of_digits ds * unit_millis n)"
    by (cases n; simp add: u128_ok_iff)+
  have IH: "parse_loop s (segs_text gs) (t + nat_of_digits ds * unit_millis n) (unit_rank n)
      = Inr (t + segs_millis (g # gs))"
    using Cons.IH [of "unit_rank n" "t + nat_of_digits ds * unit_millis n"] Cons.prems
    by (simp add: g seg_millis_def add.assoc)
  have hd: "segs_text gs = [] \<or> is_digit (hd (segs_text gs))"
    using Cons.prems(1) by (simp add: segs_text_hd)
  have rank: "unit_rank n < lst" using Cons.prems(2) by (simp add: g)
  show ?case
    unfolding tx using ds hd rank dom IH unit_text_lower(2) [of n]
    by (subst parse_loop.simps)
      (simp add: takeWhile_digits_append takeWhile_unit_append del: segs_simps)
qed

lemma parse_loop_sound:
  "parse_loop s rest t lst = Inr r \<Longrightarrow>
    \<exists>gs. rest = segs_text gs \<and> segs_ok gs \<and> (\<forall>g \<in> set gs. unit_rank (snd g) < lst) \<and>
      r = t + segs_millis gs"
proof (induction s rest t lst rule: parse_loop.induct)
  case (1 s rest t lst)
  show ?case
  proof (cases "rest = []")
    case True
    with 1 show ?thesis by (intro exI [of _ "[]"]) (simp add: parse_loop.simps)
  next
    case False
    define ds where "ds = takeWhile is_digit rest"
    define rest1 where "rest1 = dropWhile is_digit rest"
    define u where "u = takeWhile is_lower rest1"
    define rest2 where "rest2 = dropWhile is_lower rest1"
    note abbrs = ds_def [symmetric] rest1_def [symmetric] u_def [symmetric] rest2_def [symmetric]
    from 1(2) False obtain rk m where *: "ds \<noteq> []" "u \<noteq> []" "unit_of u = Some (rk, m)" "rk < lst"
        "nat_of_digits ds < 2 ^ 128"
        "parse_loop s rest2 (t + nat_of_digits ds * m) rk = Inr r"
        "nat_of_digits ds * m < 2 ^ 128" "t + nat_of_digits ds * m < 2 ^ 128"
      by (subst (asm) parse_loop.simps)
        (auto simp: abbrs Let_def u128_ok_iff split: if_splits option.splits)
    then have "\<exists>gs. rest2 = segs_text gs \<and> segs_ok gs \<and> (\<forall>g \<in> set gs. unit_rank (snd g) < rk) \<and>
        r = t + nat_of_digits ds * m + segs_millis gs"
      using 1(1) [OF False ds_def rest1_def _ _ u_def rest2_def _ _ refl] by (simp add: u128_ok_def)
    then obtain gs where gs: "rest2 = segs_text gs" "segs_ok gs" "\<forall>g \<in> set gs. unit_rank (snd g) < rk"
        "r = t + nat_of_digits ds * m + segs_millis gs"
      by blast
    obtain n where n: "u = unit_text n" "rk = unit_rank n" "m = unit_millis n"
      using *(3) unit_of_iff by blast
    have "rest = ds @ u @ rest2"
      by (simp add: ds_def u_def rest1_def rest2_def)
    moreover have "list_all is_digit ds"
      by (simp add: ds_def list_all_iff) (meson set_takeWhileD)
    ultimately show ?thesis
      using gs n * by (intro exI [of _ "(ds, n) # gs"])
        (auto simp: seg_text_def seg_ok_def seg_millis_def)
  qed
qed

text \<open>A grammatical input that does not fit is refused as an overflow, whichever step notices it.\<close>

lemma parse_loop_overflow:
  assumes "segs_ok gs" "\<forall>g \<in> set gs. unit_rank (snd g) < lst" "2 ^ 128 \<le> t + segs_millis gs" "t < 2 ^ 128"
  shows "parse_loop s (segs_text gs) t lst = Inl (Overflow s)"
  using assms
proof (induction gs arbitrary: t lst)
  case Nil
  then show ?case by simp
next
  case (Cons g gs)
  obtain ds n where g: "g = (ds, n)" by (cases g)
  have ds: "ds \<noteq> []" "list_all is_digit ds"
    using Cons.prems(1) by (simp_all add: g seg_ok_def)
  have tx: "segs_text (g # gs) = ds @ unit_text n @ segs_text gs"
    by (simp add: g seg_text_def)
  have rank: "unit_rank n < lst" using Cons.prems(2) by (simp add: g)
  have hd: "segs_text gs = [] \<or> is_digit (hd (segs_text gs))"
    using Cons.prems(1) by (simp add: segs_text_hd)
  have IH: "t + nat_of_digits ds * unit_millis n < 2 ^ 128 \<Longrightarrow>
      parse_loop s (segs_text gs) (t + nat_of_digits ds * unit_millis n) (unit_rank n) = Inl (Overflow s)"
    using Cons.IH [of "unit_rank n" "t + nat_of_digits ds * unit_millis n"] Cons.prems
    by (simp add: g seg_millis_def add.assoc)
  show ?case
    unfolding tx using ds hd rank IH unit_text_lower(2) [of n]
    by (subst parse_loop.simps)
      (simp add: takeWhile_digits_append takeWhile_unit_append u128_ok_def del: segs_simps)
qed

lemma segs_text_chars: "segs_ok gs \<Longrightarrow> list_all (\<lambda>b. is_digit b \<or> is_lower b) (segs_text gs)"
proof (induction gs)
  case (Cons g gs)
  have "list_all (\<lambda>b. is_digit b \<or> is_lower b) (unit_text (snd g))"
    using unit_text_lower(1) [of "snd g"] by (auto simp: list_all_iff)
  with Cons show ?case by (auto simp: seg_text_def seg_ok_def list_all_iff)
qed simp

lemma segs_text_nonempty: "segs_text gs = [] \<longleftrightarrow> gs = []" if "segs_ok gs"
  using that by (cases gs) (auto simp: seg_text_def seg_ok_def)

lemma rank_bound: "unit_rank n < 2 ^ 31 - 1"
  by (cases n) simp_all

lemma parse_duration_segs:
  assumes "segs_ok gs" "gs \<noteq> []"
  shows "parse_duration (segs_text gs) =
    (if segs_millis gs < 2 ^ 64 then Inr (from_millis (segs_millis gs)) else Inl (Overflow (segs_text gs)))"
proof (cases "segs_millis gs < 2 ^ 128")
  case True
  then have "parse_loop (segs_text gs) (segs_text gs) 0 (2 ^ 31 - 1) = Inr (segs_millis gs)"
    using parse_loop_complete [OF assms(1), of "2 ^ 31 - 1" 0] rank_bound by simp
  then show ?thesis
    using assms by (simp add: parse_duration_def segs_text_nonempty segs_text_chars u64_ok_def)
next
  case False
  then have "parse_loop (segs_text gs) (segs_text gs) 0 (2 ^ 31 - 1) = Inl (Overflow (segs_text gs))"
    using parse_loop_overflow [OF assms(1), of "2 ^ 31 - 1" 0] rank_bound by simp
  with False show ?thesis
    using assms by (simp add: parse_duration_def segs_text_nonempty segs_text_chars)
qed

lemma parse_duration_accepted:
  assumes "parse_duration s = Inr d"
  obtains gs where "gs \<noteq> []" "segs_ok gs" "s = segs_text gs"
    "d = from_millis (segs_millis gs)" "segs_millis gs < 2 ^ 64"
proof -
  from assms obtain t where t: "s \<noteq> []" "parse_loop s s 0 (2 ^ 31 - 1) = Inr t" "t < 2 ^ 64" "d = from_millis t"
    by (auto simp: parse_duration_def u64_ok_iff split: if_splits sum.splits option.splits)
  from parse_loop_sound [OF t(2)] obtain gs where "s = segs_text gs" "segs_ok gs" "t = segs_millis gs"
    by auto
  with t show ?thesis by (intro that [of gs]) auto
qed

section \<open>The canonical form\<close>

definition nonzero_segs :: "nat \<Rightarrow> nat \<Rightarrow> nat \<Rightarrow> nat \<Rightarrow> segment list" where
  "nonzero_segs h m s l =
    (if h > 0 then [(show_nat h, Hour)] else []) @ (if m > 0 then [(show_nat m, Minute)] else []) @
    (if s > 0 then [(show_nat s, Second)] else []) @ (if l > 0 then [(show_nat l, Milli)] else [])"

definition canonical_segs :: "nat \<Rightarrow> segment list" where
  "canonical_segs ms =
    (if ms = 0 then [(show_nat 0, Second)]
     else nonzero_segs (ms div 3600000) (ms mod 3600000 div 60000)
       (ms mod 3600000 mod 60000 div 1000) (ms mod 3600000 mod 60000 mod 1000))"

lemma seg_ok_show [simp]: "seg_ok (show_nat n, u)"
  using show_nat_digits [of n] by (simp add: seg_ok_def list_all_iff)

lemma nonzero_segs_ok: "segs_ok (nonzero_segs h m s l)"
  by (simp add: nonzero_segs_def)

lemma nonzero_segs_text:
  "segs_text (nonzero_segs h m s l) =
    (if h > 0 then show_nat h @ ''h'' else []) @ (if m > 0 then show_nat m @ ''m'' else []) @
    (if s > 0 then show_nat s @ ''s'' else []) @ (if l > 0 then show_nat l @ ''ms'' else [])"
  by (simp add: nonzero_segs_def seg_text_def)

lemma nonzero_segs_millis:
  "segs_millis (nonzero_segs h m s l) = h * 3600000 + (m * 60000 + (s * 1000 + l))"
  by (simp add: nonzero_segs_def seg_millis_def show_simps)

lemma canonical_segs_ok: "segs_ok (canonical_segs ms)"
  by (simp add: canonical_segs_def nonzero_segs_ok)

lemma show_nat_zero: "show_nat 0 = ''0''"
  by code_simp

lemma canonical_segs_text: "segs_text (canonical_segs (as_millis d)) = canonical d"
  unfolding canonical_segs_def canonical_def Let_def
  by (cases "as_millis d = 0") (simp_all only: nonzero_segs_text if_True if_False segs_simps
      seg_text_def fst_conv snd_conv show_nat_zero unit_text.simps append.simps append_Nil2 simp_thms)

lemma div_mod_parts:
  "ms div 3600000 * 3600000 + (ms mod 3600000 div 60000 * 60000 +
    (ms mod 3600000 mod 60000 div 1000 * 1000 + ms mod 3600000 mod 60000 mod 1000)) = (ms :: nat)"
  by (metis div_mult_mod_eq)

lemma canonical_segs_millis: "segs_millis (canonical_segs ms) = ms"
proof (cases "ms = 0")
  case True
  then show ?thesis by (simp add: canonical_segs_def seg_millis_def show_simps)
next
  case False
  then show ?thesis
    unfolding canonical_segs_def by (simp only: if_False nonzero_segs_millis div_mod_parts)
qed

lemma canonical_segs_nonempty: "canonical_segs ms \<noteq> []"
proof (cases "ms = 0")
  case False
  then show ?thesis using canonical_segs_millis [of ms] by auto
qed (simp add: canonical_segs_def)

lemma parse_canonical:
  "parse_duration (canonical d) =
    (if as_millis d < 2 ^ 64 then Inr (from_millis (as_millis d)) else Inl (Overflow (canonical d)))"
  using parse_duration_segs [OF canonical_segs_ok canonical_segs_nonempty, of "as_millis d"]
  by (simp add: canonical_segs_text canonical_segs_millis)

lemma as_from_millis [simp]: "as_millis (from_millis ms) = ms"
  by (simp add: as_millis_def from_millis_def)

section \<open>The serde hooks\<close>

text \<open>
  What a deserializer hands to a visitor, one constructor per \<open>visit_*\<close> method the
  source implements; every other kind of value takes serde's default, an invalid type.
\<close>

datatype serde_value =
    SvNone | SvUnit | SvSome serde_value | SvStr string | SvU64 nat | SvI64 int | SvF64 | SvBool bool | SvOther

datatype serde_error = InvalidType | Custom DurationParseError

fun visit_string_only :: "serde_value \<Rightarrow> (serde_error, duration) result" where
  "visit_string_only (SvStr v) = map_err Custom (parse_duration v)"
| "visit_string_only (SvU64 v) = Inl InvalidType"
| "visit_string_only (SvI64 v) = Inl InvalidType"
| "visit_string_only SvF64 = Inl InvalidType"
| "visit_string_only (SvBool v) = Inl InvalidType"
| "visit_string_only _ = Inl InvalidType"

fun visit_optional :: "serde_value \<Rightarrow> (serde_error, duration option) result" where
  "visit_optional SvNone = Inr None"
| "visit_optional SvUnit = Inr None"
| "visit_optional (SvSome v) = res_bind (visit_string_only v) (\<lambda>d. Inr (Some d))"
| "visit_optional (SvStr v) = res_bind (map_err Custom (parse_duration v)) (\<lambda>d. Inr (Some d))"
| "visit_optional (SvU64 v) = Inl InvalidType"
| "visit_optional (SvI64 v) = Inl InvalidType"
| "visit_optional SvF64 = Inl InvalidType"
| "visit_optional (SvBool v) = Inl InvalidType"
| "visit_optional SvOther = Inl InvalidType"

fun serialize_optional :: "duration option \<Rightarrow> serde_value" where
  "serialize_optional None = SvNone"
| "serialize_optional (Some d) = SvStr (canonical d)"

definition whole_millis :: "duration \<Rightarrow> bool" where
  "whole_millis d \<longleftrightarrow> d = from_millis (as_millis d) \<and> as_millis d < 2 ^ 64"

interpretation duration_codec: codec serialize_optional
  "\<lambda>v. case visit_optional v of Inl _ \<Rightarrow> None | Inr x \<Rightarrow> Some x"
  "\<lambda>x. case x of None \<Rightarrow> True | Some d \<Rightarrow> whole_millis d"
  by unfold_locales (auto simp: parse_canonical whole_millis_def split: option.splits)

lemma parsed_whole_millis: "parse_duration s = Inr d \<Longrightarrow> whole_millis d"
  by (erule parse_duration_accepted) (simp add: whole_millis_def)

lemma visited_whole_millis: "visit_optional v = Inr (Some d) \<Longrightarrow> whole_millis d"
  by (cases v rule: visit_optional.cases)
    (auto simp: res_bind_Ok_iff parsed_whole_millis elim!: visit_string_only.elims)

section \<open>Properties\<close>

text \<open>
  C11: \<open>parse_duration\<close> accepts exactly the words of the documented grammar (a non-empty list of
  \<open>digits unit\<close> segments in strictly descending unit order) whose value fits in 64 bits of
  milliseconds, and returns that value.
\<close>

theorem parse_duration_grammar:
  "parse_duration s = Inr d \<longleftrightarrow>
    (\<exists>gs. gs \<noteq> [] \<and> segs_ok gs \<and> s = segs_text gs \<and> segs_millis gs < 2 ^ 64 \<and>
      d = from_millis (segs_millis gs))"
  by (metis parse_duration_segs parse_duration_accepted)

text \<open>
  C12: a duration read by the serde hook, whatever form the document gave it, is written back in a
  canonical form that the hook reads as the same duration.
\<close>

theorem duration_reserialize:
  assumes "visit_optional v = Inr x"
  shows "visit_optional (serialize_optional x) = Inr x"
  using duration_codec.dec_enc [of x] visited_whole_millis [of v] assms
  by (cases x) (auto split: sum.splits)

theorem duration_reserialize_witness:
  "visit_optional (serialize_optional (Some (from_millis 90000))) = Inr (Some (from_millis 90000)) \<and>
    canonical (from_millis 90000) = ''1m30s''"
proof
  have "visit_optional (SvSome (SvStr ''90s'')) = Inr (Some (from_millis 90000))"
    using parse_duration_segs [of "[(''90'', Second)]"]
    by (simp add: seg_text_def seg_ok_def is_digit_def seg_millis_def nat_of_digits_def digit_val_def)
  then show "visit_optional (serialize_optional (Some (from_millis 90000))) = Inr (Some (from_millis 90000))"
    by (rule duration_reserialize)
  show "canonical (from_millis 90000) = ''1m30s''"
    by (simp add: canonical_def show_nat.simps digit_chars)
qed

end
