(* ===== verification/Core.thy ===== *)
theory Core
  imports Prelude Template
begin

text \<open>
  The shared vocabulary of \<open>crates/stepyard-core\<close>: the typed signal names
  (\<open>signal.rs\<close>), the step termination taxonomy and the domain errors (\<open>error.rs\<close>), and
  the error types of the crates the harness stands on (\<open>stepyard-session/src/store.rs\<close>,
  \<open>stepyard-sandbox-orchestrator/src/sandbox.rs\<close>, \<open>workspace.rs\<close>) up to the harness'
  own \<open>EngineError\<close>. \<open>sqlx\<close>, \<open>serde_json\<close> and IO errors are their messages.
\<close>

section \<open>Signals\<close>

datatype Signal = Sigint | Sigterm | CrashRecovery | OtherSignal string

fun as_wire :: "Signal \<Rightarrow> string" where
  "as_wire Sigint = ''sigint''"
| "as_wire Sigterm = ''sigterm''"
| "as_wire CrashRecovery = ''crash_recovery''"
| "as_wire (OtherSignal s) = s"

definition signal_from :: "string \<Rightarrow> Signal" where
  "signal_from s =
    (if s = ''sigint'' then Sigint
     else if s = ''sigterm'' then Sigterm
     else if s = ''crash_recovery'' then CrashRecovery
     else OtherSignal s)"

text \<open>A value the program itself builds: \<open>OtherSignal\<close> never holds a known name.\<close>

definition signal_canonical :: "Signal \<Rightarrow> bool" where
  "signal_canonical x \<longleftrightarrow> signal_from (as_wire x) = x"

lemma as_wire_signal_from [simp]: "as_wire (signal_from s) = s"
  by (simp add: signal_from_def)

lemma signal_from_canonical [simp]: "signal_canonical (signal_from s)"
  by (simp add: signal_canonical_def)

interpretation signal_codec: codec as_wire "\<lambda>s. Some (signal_from s)" signal_canonical
  by unfold_locales (simp add: signal_canonical_def)

section \<open>How a step ends\<close>

datatype TerminationReason =
    StepTimeout nat
  | IdleTimeout nat
  | ReasonCancelled
  | ReasonSignal Signal
  | ReasonOther string

fun show_reason :: "TerminationReason \<Rightarrow> string" where
  "show_reason (StepTimeout ms) = ''step timeout after '' @ show_nat ms @ ''ms''"
| "show_reason (IdleTimeout ms) = ''idle timeout after '' @ show_nat ms @ ''ms with no output''"
| "show_reason ReasonCancelled = ''cancelled''"
| "show_reason (ReasonSignal s) = ''signal received: '' @ as_wire s"
| "show_reason (ReasonOther s) = s"

section \<open>Errors of stepyard-core\<close>

datatype CoreError =
    InvalidWorkflow string
  | InvalidWorkflowField string string string
  | PlaceholderUnresolved string string
  | Persistence string
  | CoreSandbox string
  | CoreStepFailed nat TerminationReason
  | CoreCancelled
  | Config string
  | Internal string

fun show_core_error :: "CoreError \<Rightarrow> string" where
  "show_core_error (InvalidWorkflow m) = ''invalid workflow: '' @ m"
| "show_core_error (InvalidWorkflowField path got expected) =
    ''invalid workflow field at `'' @ path @ ''`: got `'' @ got @ ''`, expected '' @ expected"
| "show_core_error (PlaceholderUnresolved key found_at) =
    ''placeholder {{'' @ key @ ''}} unresolved at '' @ found_at"
| "show_core_error (Persistence m) = ''persistence error: '' @ m"
| "show_core_error (CoreSandbox m) = ''sandbox error: '' @ m"
| "show_core_error (CoreStepFailed i r) = ''step '' @ show_nat i @ '' failed: '' @ show_reason r"
| "show_core_error CoreCancelled = ''cancelled''"
| "show_core_error (Config m) = ''config error: '' @ m"
| "show_core_error (Internal m) = ''internal error: '' @ m"

fun core_error_from_template :: "TemplateError \<Rightarrow> CoreError" where
  "core_error_from_template (Unresolved key found_at) = PlaceholderUnresolved key found_at"
| "core_error_from_template (InvalidPlaceholder token position) =
    InvalidWorkflow (''invalid placeholder `'' @ token @ ''` at byte '' @ show_nat position)"
| "core_error_from_template (YamlEncoding source) =
    InvalidWorkflow (''yaml placeholder encoding failed: '' @ source)"

section \<open>Errors of the session store, the sandbox and the workspace\<close>

type_synonym uuid = string

datatype SessionError =
    NotFound uuid
  | Database string
  | SessionInvalidState string
  | Payload string

fun show_session_error :: "SessionError \<Rightarrow> string" where
  "show_session_error (NotFound i) = ''session not found: '' @ i"
| "show_session_error (Database m) = ''database error: '' @ m"
| "show_session_error (SessionInvalidState m) = ''invalid state: '' @ m"
| "show_session_error (Payload m) = ''payload encoding error: '' @ m"

datatype SandboxError =
    Destroyed string
  | BackendUnavailable string
  | CreateFailed string
  | DestroyFailed string
  | ExecFailed string
  | SandboxIdleTimeout nat
  | InteractiveNotSupported
  | SandboxInvalidState string
  | SandboxOther string

fun show_sandbox_error :: "SandboxError \<Rightarrow> string" where
  "show_sandbox_error (Destroyed i) = ''sandbox '' @ i @ '' is destroyed''"
| "show_sandbox_error (BackendUnavailable m) = ''backend unavailable: '' @ m"
| "show_sandbox_error (CreateFailed m) = ''failed to create sandbox: '' @ m"
| "show_sandbox_error (DestroyFailed m) = ''failed to destroy sandbox: '' @ m"
| "show_sandbox_error (ExecFailed m) = ''exec failure: '' @ m"
| "show_sandbox_error (SandboxIdleTimeout ms) =
    ''sandbox idle for '' @ show_nat ms @ ''ms '' @ em_dash @ '' terminated by orchestrator''"
| "show_sandbox_error InteractiveNotSupported =
    ''interactive exec is not supported by this sandbox backend''"
| "show_sandbox_error (SandboxInvalidState m) = ''invalid state: '' @ m"
| "show_sandbox_error (SandboxOther m) = ''unclassified sandbox error: '' @ m"

datatype WorkspaceError =
    GitCommand string string
  | WorktreeExists string
  | UncommittedChanges string
  | TargetBranchNotFound string
  | WorkspaceMergeConflict "string list"
  | WorkspaceIo string

section \<open>Errors of the harness\<close>

text \<open>
  \<open>crates/stepyard-harness/src/engine.rs\<close>. The last constructor is no error of the source: it
  stands for a panic (a failed \<open>expect\<close> or an index out of range), so that reaching one is a
  branch of the model.
\<close>

datatype EngineError =
    Session SessionError
  | Sandbox SandboxError
  | WorkspaceErr WorkspaceError
  | InvalidState string
  | StepFailedErr nat TerminationReason
  | Panic string

end
