(* ===== verification/EnvKeys.thy ===== *)
theory EnvKeys
  imports Core
begin

text \<open>
  Environment maps: the validation of \<open>crates/stepyard-core/src/env.rs\<close>, the cascade
  \<open>resolve_env\<close> and the proxy routing of \<open>crates/stepyard-harness/src/engine.rs\<close>. A
  \<open>HashMap\<close> is an association list with distinct keys; the order of the list is the
  iteration order of that run.
\<close>

type_synonym env = "(string \<times> string) list"

abbreviation env_ok :: "env \<Rightarrow> bool" where
  "env_ok e \<equiv> distinct (map fst e)"

section \<open>Validation\<close>

definition EXPECTED_KEY :: string where
  "EXPECTED_KEY = ''env key matching ^[A-Za-z_][A-Za-z0-9_]*$''"

definition EXPECTED_VALUE :: string where
  "EXPECTED_VALUE = ''env value (UTF-8 without NUL)''"

definition REDACTED_NUL_VALUE :: string where
  "REDACTED_NUL_VALUE = ''<redacted: contains NUL byte>''"

fun is_valid_env_key :: "string \<Rightarrow> bool" where
  "is_valid_env_key [] = False"
| "is_valid_env_key (first # rest) =
    (if \<not> (is_alpha first \<or> first = CHR ''_'') then False
     else list_all (\<lambda>c. is_alnum c \<or> c = CHR ''_'') rest)"

definition is_valid_env_value :: "string \<Rightarrow> bool" where
  "is_valid_env_value value \<longleftrightarrow> CHR 0x00 \<notin> set value"

fun validate_entries :: "string \<Rightarrow> env \<Rightarrow> (CoreError, unit) result" where
  "validate_entries path_prefix [] = Inr ()"
| "validate_entries path_prefix ((key, value) # rest) =
    (if \<not> is_valid_env_key key then
       Inl (InvalidWorkflowField (path_prefix @ ''.'' @ key) (''`'' @ key @ ''`'') EXPECTED_KEY)
     else if \<not> is_valid_env_value value then
       Inl (InvalidWorkflowField (path_prefix @ ''.'' @ key) REDACTED_NUL_VALUE EXPECTED_VALUE)
     else validate_entries path_prefix rest)"

text \<open>The keys are sorted; \<open>env[key]\<close> of a key of the map is the value listed with it.\<close>

definition validate_env_map :: "string \<Rightarrow> env \<Rightarrow> (CoreError, unit) result" where
  "validate_env_map path_prefix env = validate_entries path_prefix (sort_key fst env)"

section \<open>The cascade\<close>

definition env_extend :: "env \<Rightarrow> env \<Rightarrow> env" where
  "env_extend base over = foldl (\<lambda>e (k, v). AList.update k v e) base over"

definition parse_host_var :: "string \<Rightarrow> string option" where
  "parse_host_var value =
    (if starts_with value ''${'' \<and> ends_with (drop 2 value) ''}'' then
       (let inner = butlast (drop 2 value) in
        if inner = [] then None
        else if list_all (\<lambda>c. is_upper c \<or> is_digit c \<or> c = CHR ''_'') inner then Some inner
        else None)
     else None)"

fun expand_values :: "(string \<Rightarrow> string option) \<Rightarrow> env \<Rightarrow> (EngineError, env) result" where
  "expand_values host [] = Inr []"
| "expand_values host ((k, v) # rest) =
    (case parse_host_var v of
       None \<Rightarrow> res_bind (expand_values host rest) (\<lambda>r. Inr ((k, v) # r))
     | Some var_name \<Rightarrow>
       (case host var_name of
          None \<Rightarrow> Inl (InvalidState (''host env variable not set: '' @ var_name))
        | Some resolved \<Rightarrow> res_bind (expand_values host rest) (\<lambda>r. Inr ((k, resolved) # r))))"

definition resolve_env ::
  "(string \<Rightarrow> string option) \<Rightarrow> env \<Rightarrow> env \<Rightarrow> env \<Rightarrow> (EngineError, env) result" where
  "resolve_env host defaults_env workflow_env step_env =
    expand_values host (env_extend (env_extend defaults_env workflow_env) step_env)"

section \<open>Proxy routing\<close>

record AnthropicProxyEnv =
  port :: nat
  auth_token :: string

definition apply_anthropic_proxy_env :: "env \<Rightarrow> AnthropicProxyEnv \<Rightarrow> env" where
  "apply_anthropic_proxy_env env proxy =
    (let env1 = AList.delete ''ANTHROPIC_API_KEY'' env;
         env2 = AList.update ''ANTHROPIC_BASE_URL''
           (''http://host.docker.internal:'' @ show_nat (port proxy)) env1 in
     AList.update ''ANTHROPIC_API_KEY'' (auth_token proxy) env2)"

section \<open>Lemmas\<close>

definition entry_ok :: "string \<times> string \<Rightarrow> bool" where
  "entry_ok kv \<longleftrightarrow> is_valid_env_key (fst kv) \<and> is_valid_env_value (snd kv)"

text \<open>What is reported about a bad entry: never anything of its value.\<close>

definition entry_error :: "string \<Rightarrow> string \<Rightarrow> CoreError" where
  "entry_error p k =
    (if is_valid_env_key k then InvalidWorkflowField (p @ ''.'' @ k) REDACTED_NUL_VALUE EXPECTED_VALUE
     else InvalidWorkflowField (p @ ''.'' @ k) (''`'' @ k @ ''`'') EXPECTED_KEY)"

lemma validate_entries_first_bad:
  "list_all entry_ok good \<Longrightarrow> validate_entries p (good @ es) = validate_entries p es"
  by (induction good) (auto simp: entry_ok_def)

lemma validate_entries_bad:
  "\<not> entry_ok kv \<Longrightarrow> validate_entries p (kv # rest) = Inl (entry_error p (fst kv))"
  by (cases kv) (auto simp: entry_ok_def entry_error_def)

lemma first_bad_split:
  "\<not> list_all entry_ok es \<Longrightarrow> \<exists>good kv rest. es = good @ kv # rest \<and> list_all entry_ok good \<and> \<not> entry_ok kv"
  using split_list_first_prop [of es "\<lambda>kv. \<not> entry_ok kv"] by (auto simp: list_all_iff)

lemma validate_entries_all_ok: "list_all entry_ok es \<Longrightarrow> validate_entries p es = Inr ()"
  using validate_entries_first_bad [of es p "[]"] by simp

lemma sorted_prefix_least:
  assumes "sort_key fst es = good @ kv # rest" "x \<in> set es" "\<not> entry_ok x" "list_all entry_ok good"
  shows "fst kv \<le> fst x"
proof -
  have "x \<in> set (kv # rest)"
    using assms(2-4) arg_cong [OF assms(1), of set] by (auto simp: list_all_iff)
  moreover have "sorted (map fst (good @ kv # rest))"
    by (metis assms(1) sorted_sort_key)
  ultimately show ?thesis by (auto simp: sorted_append)
qed

lemma map_of_extend: "map_of (env_extend base over) =
    foldl (\<lambda>m (k, v). m(k \<mapsto> v)) (map_of base) over"
  unfolding env_extend_def
  by (induction over arbitrary: base) (auto simp: update_conv' split: prod.splits)

lemma foldl_map_upd: "distinct (map fst over) \<Longrightarrow>
    foldl (\<lambda>m (k, v). m(k \<mapsto> v)) m0 over = m0 ++ map_of over"
proof (induction over arbitrary: m0)
  case (Cons kv over)
  obtain k v where kv: "kv = (k, v)" by (cases kv)
  then have "map_of over k = None" using Cons.prems by (simp add: map_of_eq_None_iff)
  then show ?case
    using Cons by (auto simp: kv map_add_def fun_eq_iff split: option.splits)
qed simp

lemma extend_overlay: "env_ok over \<Longrightarrow> map_of (env_extend base over) = map_of base ++ map_of over"
  by (simp add: map_of_extend foldl_map_upd)

lemma extend_distinct: "env_ok base \<Longrightarrow> env_ok (env_extend base over)"
  unfolding env_extend_def
  by (induction over arbitrary: base) (auto simp: distinct_update split: prod.splits)

lemma expand_values_Ok: "expand_values host e = Inr e' \<Longrightarrow>
    map_of e' k = (case map_of e k of None \<Rightarrow> None
      | Some v \<Rightarrow> (case parse_host_var v of None \<Rightarrow> Some v | Some x \<Rightarrow> host x))"
proof (induction host e arbitrary: e' rule: expand_values.induct)
  case (2 host k' v rest)
  then show ?case by (auto simp: res_bind_Ok_iff split: option.splits if_splits)
qed simp

lemma expand_values_Err_iff: "(\<exists>err. expand_values host e = Inl err) \<longleftrightarrow>
    (\<exists>(k, v) \<in> set e. \<exists>x. parse_host_var v = Some x \<and> host x = None)"
proof (induction host e rule: expand_values.induct)
  case (2 host k v rest)
  then show ?case
    by (cases "expand_values host rest") (auto split: option.splits)
qed simp

lemma sort_key_entries_perm:
  "env_ok e \<Longrightarrow> mset e = mset e' \<Longrightarrow> sort_key fst e = sort_key fst e'"
  by (rule sort_key_eq_sort_key) (simp_all add: distinct_map)

section \<open>Properties\<close>

text \<open>
  \<open>validate_env_map\<close> accepts a map exactly when every key is a POSIX identifier and every
  value is free of NUL; otherwise it reports the least offending key, whatever the iteration
  order of the \<open>HashMap\<close>, in an error that is a function of that key alone: no value leaks.
\<close>

theorem validate_env_map_reports:
  assumes "env_ok e" "mset e = mset e'"
  shows "validate_env_map p e = validate_env_map p e' \<and>
    (if list_all entry_ok e then validate_env_map p e = Inr ()
     else \<exists>k v. (k, v) \<in> set e \<and> \<not> entry_ok (k, v) \<and>
       (\<forall>kv \<in> set e. entry_ok kv \<or> k \<le> fst kv) \<and> validate_env_map p e = Inl (entry_error p k))"
proof (intro conjI)
  show "validate_env_map p e = validate_env_map p e'"
    using assms by (simp add: validate_env_map_def sort_key_entries_perm)
  show "if list_all entry_ok e then validate_env_map p e = Inr ()
     else \<exists>k v. (k, v) \<in> set e \<and> \<not> entry_ok (k, v) \<and>
       (\<forall>kv \<in> set e. entry_ok kv \<or> k \<le> fst kv) \<and> validate_env_map p e = Inl (entry_error p k)"
  proof (cases "list_all entry_ok e")
    case True
    then show ?thesis by (simp add: validate_env_map_def validate_entries_all_ok list_all_iff)
  next
    case False
    then have "\<not> list_all entry_ok (sort_key fst e)" by (simp add: list_all_iff)
    then obtain good kv rest where s: "sort_key fst e = good @ kv # rest" "list_all entry_ok good"
        "\<not> entry_ok kv"
      using first_bad_split by blast
    have kv: "kv \<in> set e" using arg_cong [OF s(1), of set] by auto
    have "validate_env_map p e = Inl (entry_error p (fst kv))"
      using s by (simp add: validate_env_map_def validate_entries_first_bad validate_entries_bad
          del: validate_entries.simps)
    moreover have "\<forall>x \<in> set e. entry_ok x \<or> fst kv \<le> fst x"
      using sorted_prefix_least [OF s(1)] s by blast
    ultimately show ?thesis
      using False s(3) kv by (metis prod.collapse)
  qed
qed

theorem validate_env_map_reports_witness:
  "\<exists>k v. (k, v) \<in> set [(''b-'', []), (''A'', ''secret'' @ [CHR 0x00])] \<and>
    validate_env_map ''env'' [(''b-'', []), (''A'', ''secret'' @ [CHR 0x00])] = Inl (entry_error ''env'' k)"
  using validate_env_map_reports [of "[(''b-'', []), (''A'', ''secret'' @ [CHR 0x00])]"
      "[(''b-'', []), (''A'', ''secret'' @ [CHR 0x00])]" "''env''"]
  by (auto simp: entry_ok_def is_valid_env_value_def)

text \<open>
  The cascade. A variable of a step takes its value from the step, else from the workflow,
  else from the defaults; a value that is exactly \<open>${VAR}\<close> is replaced by the host's variable,
  every other value is passed through, and the resolution fails exactly when a value that is in
  effect names a host variable that is not set.
\<close>

theorem resolve_env_cascade:
  assumes "env_ok d" "env_ok w" "env_ok s"
  shows "case resolve_env host d w s of
      Inr r \<Rightarrow> \<forall>k. map_of r k = (case (map_of d ++ map_of w ++ map_of s) k of None \<Rightarrow> None
        | Some v \<Rightarrow> (case parse_host_var v of None \<Rightarrow> Some v | Some x \<Rightarrow> host x))
    | Inl err \<Rightarrow> \<exists>k v x. (map_of d ++ map_of w ++ map_of s) k = Some v \<and>
        parse_host_var v = Some x \<and> host x = None"
proof -
  let ?e = "env_extend (env_extend d w) s"
  have eff: "map_of d ++ map_of w ++ map_of s = map_of ?e"
    using assms by (simp add: extend_overlay)
  have dist: "env_ok ?e" using assms(1) by (simp add: extend_distinct)
  show ?thesis
  proof (cases "resolve_env host d w s")
    case (Inr r)
    then show ?thesis
      unfolding eff using expand_values_Ok [of host ?e r] by (simp add: resolve_env_def)
  next
    case (Inl err)
    then obtain k v x where "(k, v) \<in> set ?e" "parse_host_var v = Some x" "host x = None"
      using expand_values_Err_iff [of host ?e] by (auto simp: resolve_env_def)
    then show ?thesis
      unfolding eff using Inl map_of_is_SomeI [OF dist] by auto
  qed
qed

theorem resolve_env_cascade_witness:
  "\<forall>k. map_of [(''A'', ''3''), (''B'', ''h'')] k = (case (map_of [(''A'', ''1'')] ++
      map_of [(''A'', ''2''), (''B'', ''${H}'')] ++ map_of [(''A'', ''3'')]) k of None \<Rightarrow> None
    | Some v \<Rightarrow> (case parse_host_var v of None \<Rightarrow> Some v | Some x \<Rightarrow> [''H'' \<mapsto> ''h''] x))"
proof -
  have "resolve_env [''H'' \<mapsto> ''h''] [(''A'', ''1'')] [(''A'', ''2''), (''B'', ''${H}'')] [(''A'', ''3'')]
      = Inr [(''A'', ''3''), (''B'', ''h'')]"
    by (simp add: resolve_env_def env_extend_def parse_host_var_def starts_with_def ends_with_def
        is_upper_def is_digit_def)
  then show ?thesis
    using resolve_env_cascade [of "[(''A'', ''1'')]" "[(''A'', ''2''), (''B'', ''${H}'')]"
        "[(''A'', ''3'')]" "[''H'' \<mapsto> ''h'']"] by simp
qed

text \<open>
  proxy routing replaces \<open>ANTHROPIC_API_KEY\<close> by the session token and sets the base URL, and
  leaves every other variable as it is; so a variable of another name whose value is
  \<open>${ANTHROPIC_API_KEY}\<close> still carries the host's real key into the environment of a sandboxed
  step.
\<close>

theorem proxy_env_by_name_only:
  "map_of (apply_anthropic_proxy_env env proxy) =
      (map_of env)(''ANTHROPIC_BASE_URL'' \<mapsto> ''http://host.docker.internal:'' @ show_nat (port proxy),
        ''ANTHROPIC_API_KEY'' \<mapsto> auth_token proxy) \<and>
    (\<exists>r. resolve_env [''ANTHROPIC_API_KEY'' \<mapsto> key] [] [(''FOO'', ''${ANTHROPIC_API_KEY}'')] [] = Inr r \<and>
      map_of (apply_anthropic_proxy_env r proxy) ''FOO'' = Some key)"
  by (simp add: apply_anthropic_proxy_env_def Let_def update_conv' delete_conv' fun_upd_twist
      resolve_env_def env_extend_def parse_host_var_def starts_with_def ends_with_def
      is_upper_def is_digit_def fun_eq_iff)

end
