(* ===== verification/Json.thy ===== *)
theory Json
  imports Prelude "HOL-Library.Word"
begin

text \<open>
  JSON values as \<open>serde_json::Value\<close> holds them and the accessors the program reads its
  event log with. An integer number is an \<open>int\<close>; a floating number is its 64 bits; the keys
  of an object are distinct. The text \<open>serde_json\<close> puts into its own error messages is not
  modelled: a failed \<open>from_value\<close> is \<open>None\<close>.
\<close>

datatype json =
    JNull
  | JBool bool
  | JInt int
  | JFloat "64 word"
  | JStr string
  | JArr "json list"
  | JObj "(string \<times> json) list"

fun jget :: "json \<Rightarrow> string \<Rightarrow> json option" where
  "jget (JObj fs) k = map_of fs k"
| "jget _ k = None"

fun as_str :: "json \<Rightarrow> string option" where
  "as_str (JStr s) = Some s"
| "as_str _ = None"

fun as_u64 :: "json \<Rightarrow> nat option" where
  "as_u64 (JInt i) = (if 0 \<le> i \<and> i < 2 ^ 64 then Some (nat i) else None)"
| "as_u64 _ = None"

fun is_null :: "json \<Rightarrow> bool" where
  "is_null JNull = True"
| "is_null _ = False"

definition jget_str :: "json \<Rightarrow> string \<Rightarrow> string option" where
  "jget_str v k = Option.bind (jget v k) as_str"

definition jget_u64 :: "json \<Rightarrow> string \<Rightarrow> nat option" where
  "jget_u64 v k = Option.bind (jget v k) as_u64"

text \<open>\<open>get(k).filter(|v| !v.is_null())\<close>\<close>

definition jget_some :: "json \<Rightarrow> string \<Rightarrow> json option" where
  "jget_some v k = (case jget v k of None \<Rightarrow> None | Some x \<Rightarrow> if is_null x then None else Some x)"

text \<open>The cast \<open>as u32\<close> of a \<open>u64\<close>.\<close>

definition as_u32 :: "nat \<Rightarrow> nat" where
  "as_u32 n = n mod 2 ^ 32"

definition json_u :: "nat \<Rightarrow> json" where
  "json_u n = JInt (int n)"

text \<open>A non-finite float becomes \<open>null\<close>.\<close>

definition f64_finite :: "64 word \<Rightarrow> bool" where
  "f64_finite b \<longleftrightarrow> and (drop_bit 52 b) 0x7FF \<noteq> 0x7FF"

definition json_f64 :: "64 word \<Rightarrow> json" where
  "json_f64 b = (if f64_finite b then JFloat b else JNull)"

text \<open>A struct field written only when it is \<open>Some\<close>.\<close>

definition opt_field :: "string \<Rightarrow> ('a \<Rightarrow> json) \<Rightarrow> 'a option \<Rightarrow> (string \<times> json) list" where
  "opt_field k f x = (case x of None \<Rightarrow> [] | Some a \<Rightarrow> [(k, f a)])"

lemma map_of_opt_field [simp]:
  "map_of (opt_field k f x) k' = (if k' = k then map_option f x else None)"
  by (simp add: opt_field_def split: option.split)

lemma as_str_Some [simp]: "as_str v = Some s \<longleftrightarrow> v = JStr s"
  by (cases v) auto

lemma as_u64_json_u [simp]: "as_u64 (json_u n) = (if n < 2 ^ 64 then Some n else None)"
  by (simp add: json_u_def)

lemma is_null_iff [simp]: "is_null v \<longleftrightarrow> v = JNull"
  by (cases v) auto

end
