(* ===== verification/Workflow.thy ===== *)
theory Workflow
  imports EnvKeys Duration Json
begin

text \<open>
  \<open>crates/stepyard-harness/src/workflow.rs\<close>: the workflow, its scopes and steps, the
  constructors, the validation and the branch strategy. A record field is the source's field with
  the prefix \<open>s_\<close> (step), \<open>sc_\<close> (scope) or \<open>w_\<close> (workflow). The YAML deserializer is
  third-party code: \<open>try_from_yaml\<close> takes its answer.
\<close>

section \<open>Data\<close>

datatype StepKind = KCmd | KAgent | KChat | KGate | KRepeat | KMap | KParallel | KCall | KTemplate | KScript

fun step_type_label :: "StepKind \<Rightarrow> string" where
  "step_type_label KCmd = ''cmd''"
| "step_type_label KAgent = ''agent''"
| "step_type_label KChat = ''chat''"
| "step_type_label KGate = ''gate''"
| "step_type_label KRepeat = ''repeat''"
| "step_type_label KMap = ''map''"
| "step_type_label KParallel = ''parallel''"
| "step_type_label KCall = ''call''"
| "step_type_label KTemplate = ''template''"
| "step_type_label KScript = ''script''"

datatype BranchStrategyYaml = YHead | YMergeToHead | YNamedBranch

datatype BranchStrategy = BHead | BMergeToHead string | BNamedBranch string

fun strategy_str :: "BranchStrategy \<Rightarrow> string" where
  "strategy_str BHead = ''head''"
| "strategy_str (BMergeToHead target) = ''merge_to_head''"
| "strategy_str (BNamedBranch n) = ''named_branch''"

datatype AgentPermissions = PermDefault | PermSkip

datatype AgentSessionMode = Shared | Isolated

datatype ChatProvider =
    Anthropic | OpenAi | Ollama | Groq | DeepSeek | Gemini | Cohere | Perplexity | Xai | Mistral
  | OpenAiCompatible

fun default_model :: "ChatProvider \<Rightarrow> string" where
  "default_model OpenAi = ''gpt-4o-mini''"
| "default_model Ollama = ''llama3.2''"
| "default_model Groq = ''llama-3.3-70b-versatile''"
| "default_model DeepSeek = ''deepseek-chat''"
| "default_model Gemini = ''gemini-2.0-flash''"
| "default_model _ = ''claude-3-haiku-20240307''"

fun default_api_key_env :: "ChatProvider \<Rightarrow> string option" where
  "default_api_key_env Ollama = None"
| "default_api_key_env OpenAi = Some ''OPENAI_API_KEY''"
| "default_api_key_env Groq = Some ''GROQ_API_KEY''"
| "default_api_key_env DeepSeek = Some ''DEEPSEEK_API_KEY''"
| "default_api_key_env Gemini = Some ''GEMINI_API_KEY''"
| "default_api_key_env Cohere = Some ''COHERE_API_KEY''"
| "default_api_key_env Perplexity = Some ''PERPLEXITY_API_KEY''"
| "default_api_key_env Xai = Some ''XAI_API_KEY''"
| "default_api_key_env Mistral = Some ''MISTRAL_API_KEY''"
| "default_api_key_env Anthropic = Some ''ANTHROPIC_API_KEY''"
| "default_api_key_env OpenAiCompatible = Some ''ANTHROPIC_API_KEY''"

datatype ChatTruncation = TLast nat | TFirst nat | TFirstLast nat nat | TSlidingWindow nat

record Step =
  s_name :: string
  s_kind :: StepKind
  s_command :: string
  s_timeout :: "duration option"
  s_idle_timeout :: "duration option"
  s_env :: env
  s_condition :: "string option"
  s_on_pass :: "string option"
  s_on_fail :: "string option"
  s_message :: "string option"
  s_scope :: "string option"
  s_max_iterations :: "nat option"
  s_initial_value :: "json option"
  s_items :: "string option"
  s_parallel :: "nat option"
  s_outputs :: "string option"
  s_prompt :: "string option"
  s_model :: "string option"
  s_system_prompt_append :: "string option"
  s_permissions :: "AgentPermissions option"
  s_resume :: "string option"
  s_fork_session :: "string option"
  s_agent_session :: "AgentSessionMode option"
  s_agent_command :: "string option"
  s_chat_provider :: "ChatProvider option"
  s_max_tokens :: "nat option"
  s_temperature :: "64 word option"
  s_api_key_env :: "string option"
  s_base_url :: "string option"
  s_chat_session :: "string option"
  s_truncation :: "ChatTruncation option"

record Scope =
  sc_steps :: "Step list"
  sc_outputs :: "string option"

record Workflow =
  w_name :: string
  w_steps :: "Step list"
  w_env :: env
  w_scopes :: "(string \<times> Scope) list"
  w_prompts_dir :: "string option"
  w_branch_strategy :: BranchStrategyYaml
  w_branch_name :: "string option"
  w_base_branch :: "string option"
  w_completion_signal :: "string option"

section \<open>Constructors\<close>

definition empty_step :: "string \<Rightarrow> StepKind \<Rightarrow> Step" where
  "empty_step n k = \<lparr>s_name = n, s_kind = k, s_command = [], s_timeout = None, s_idle_timeout = None,
    s_env = [], s_condition = None, s_on_pass = None, s_on_fail = None, s_message = None,
    s_scope = None, s_max_iterations = None, s_initial_value = None, s_items = None,
    s_parallel = None, s_outputs = None, s_prompt = None, s_model = None,
    s_system_prompt_append = None, s_permissions = None, s_resume = None, s_fork_session = None,
    s_agent_session = None, s_agent_command = None, s_chat_provider = None, s_max_tokens = None,
    s_temperature = None, s_api_key_env = None, s_base_url = None, s_chat_session = None,
    s_truncation = None\<rparr>"

definition step_cmd :: "string \<Rightarrow> string \<Rightarrow> Step" where
  "step_cmd n c = (empty_step n KCmd)\<lparr>s_command := c\<rparr>"

definition step_gate :: "string \<Rightarrow> string \<Rightarrow> Step" where
  "step_gate n c = (empty_step n KGate)\<lparr>s_condition := Some c\<rparr>"

definition step_call :: "string \<Rightarrow> string \<Rightarrow> Step" where
  "step_call n s = (empty_step n KCall)\<lparr>s_scope := Some s\<rparr>"

definition step_repeat :: "string \<Rightarrow> string \<Rightarrow> Step" where
  "step_repeat n s = (empty_step n KRepeat)\<lparr>s_scope := Some s\<rparr>"

definition step_map :: "string \<Rightarrow> string \<Rightarrow> string \<Rightarrow> Step" where
  "step_map n s is = (empty_step n KMap)\<lparr>s_scope := Some s, s_items := Some is\<rparr>"

definition step_agent :: "string \<Rightarrow> string \<Rightarrow> Step" where
  "step_agent n p = (empty_step n KAgent)\<lparr>s_prompt := Some p\<rparr>"

definition step_chat :: "string \<Rightarrow> string \<Rightarrow> Step" where
  "step_chat n p = (empty_step n KChat)\<lparr>s_prompt := Some p\<rparr>"

definition step_parallel :: "string \<Rightarrow> string \<Rightarrow> Step" where
  "step_parallel n s = (empty_step n KParallel)\<lparr>s_scope := Some s\<rparr>"

definition step_template :: "string \<Rightarrow> string option \<Rightarrow> Step" where
  "step_template n p = (empty_step n KTemplate)\<lparr>s_prompt := p\<rparr>"

definition step_script :: "string \<Rightarrow> string \<Rightarrow> Step" where
  "step_script n source = (empty_step n KScript)\<lparr>s_command := source\<rparr>"

definition with_env :: "Step \<Rightarrow> env \<Rightarrow> Step" where
  "with_env s e = s\<lparr>s_env := e\<rparr>"

definition new_workflow :: "string \<Rightarrow> Step list \<Rightarrow> Workflow" where
  "new_workflow n ss = \<lparr>w_name = n, w_steps = ss, w_env = [], w_scopes = [], w_prompts_dir = None,
    w_branch_strategy = YHead, w_branch_name = None, w_base_branch = None, w_completion_signal = None\<rparr>"

section \<open>Branch strategy\<close>

definition resolve_branch_strategy :: "Workflow \<Rightarrow> (CoreError, BranchStrategy) result" where
  "resolve_branch_strategy w =
    (case w_branch_strategy w of
       YHead \<Rightarrow> Inr BHead
     | YMergeToHead \<Rightarrow> Inr (BMergeToHead
         (case w_base_branch w of None \<Rightarrow> ''main'' | Some b \<Rightarrow> b))
     | YNamedBranch \<Rightarrow>
       (case w_branch_name w of
          None \<Rightarrow> Inl (PlaceholderUnresolved ''branch_name'' ''<workflow-file>'')
        | Some n \<Rightarrow> if n = [] then Inl (PlaceholderUnresolved ''branch_name'' ''<workflow-file>'')
            else Inr (BNamedBranch n)))"

fun set_branch_strategy :: "Workflow \<Rightarrow> BranchStrategy \<Rightarrow> Workflow" where
  "set_branch_strategy w BHead =
    w\<lparr>w_branch_strategy := YHead, w_branch_name := None, w_base_branch := None\<rparr>"
| "set_branch_strategy w (BMergeToHead target) =
    w\<lparr>w_branch_strategy := YMergeToHead, w_branch_name := None, w_base_branch := Some target\<rparr>"
| "set_branch_strategy w (BNamedBranch n) =
    w\<lparr>w_branch_strategy := YNamedBranch, w_branch_name := Some n, w_base_branch := None\<rparr>"

section \<open>Validation\<close>

text \<open>The loop \<open>for (idx, step) in steps.iter().enumerate()\<close>.\<close>

fun validate_step_envs :: "string \<Rightarrow> nat \<Rightarrow> Step list \<Rightarrow> (CoreError, unit) result" where
  "validate_step_envs path idx [] = Inr ()"
| "validate_step_envs path idx (s # ss) =
    res_bind (validate_env_map (path @ ''['' @ show_nat idx @ ''].env'') (s_env s))
      (\<lambda>_. validate_step_envs path (idx + 1) ss)"

fun validate_scopes :: "(string \<times> Scope) list \<Rightarrow> (CoreError, unit) result" where
  "validate_scopes [] = Inr ()"
| "validate_scopes ((n, sc) # rest) =
    res_bind (validate_step_envs (''scopes.'' @ n @ ''.steps'') 0 (sc_steps sc))
      (\<lambda>_. validate_scopes rest)"

definition validate :: "Workflow \<Rightarrow> (CoreError, unit) result" where
  "validate w =
    res_bind (resolve_branch_strategy w) (\<lambda>_.
    res_bind (validate_env_map ''env'' (w_env w)) (\<lambda>_.
    res_bind (validate_step_envs ''steps'' 0 (w_steps w)) (\<lambda>_.
    validate_scopes (sort_key fst (w_scopes w)))))"

definition path_points_at_duration_field :: "string \<Rightarrow> bool" where
  "path_points_at_duration_field p \<longleftrightarrow>
     ends_with p ''.timeout'' \<or> p = ''timeout'' \<or> ends_with p ''.idle_timeout'' \<or> p = ''idle_timeout''"

definition extract_got :: "string \<Rightarrow> string" where
  "extract_got msg =
    (case find_sub ''`'' msg of
       None \<Rightarrow> msg
     | Some start \<Rightarrow>
       (case find_sub ''`'' (drop (start + 1) msg) of
          None \<Rightarrow> msg
        | Some e \<Rightarrow> take e (drop (start + 1) msg)))"

definition DURATION_EXPECTED :: string where
  "DURATION_EXPECTED = ''duration string (e.g. 30s, 500ms, 1h30m)''"

text \<open>A deserialization error is the path \<open>serde_path_to_error\<close> found and the inner message.\<close>

definition map_path_error :: "string \<times> string \<Rightarrow> CoreError" where
  "map_path_error err =
    (case err of (path, inner) \<Rightarrow>
       if path_points_at_duration_field path
       then InvalidWorkflowField path (extract_got inner) DURATION_EXPECTED
       else InvalidWorkflow (path @ '': '' @ inner))"

definition try_from_yaml ::
  "(string \<Rightarrow> (string \<times> string, Workflow) result) \<Rightarrow> string \<Rightarrow> (CoreError, Workflow) result" where
  "try_from_yaml deserialize yaml =
    (case deserialize yaml of
       Inr w \<Rightarrow> res_bind (validate w) (\<lambda>_. Inr w)
     | Inl err \<Rightarrow> Inl (map_path_error err))"

section \<open>Lemmas\<close>

lemma validate_env_map_Ok_iff: "validate_env_map p e = Inr u \<longleftrightarrow> list_all entry_ok e"
proof (cases "list_all entry_ok e")
  case True
  then show ?thesis by (simp add: validate_env_map_def validate_entries_all_ok list_all_iff)
next
  case False
  then have "\<not> list_all entry_ok (sort_key fst e)" by (simp add: list_all_iff)
  then obtain good kv rest where "sort_key fst e = good @ kv # rest" "list_all entry_ok good" "\<not> entry_ok kv"
    using first_bad_split by blast
  with False show ?thesis
    by (simp add: validate_env_map_def validate_entries_first_bad validate_entries_bad
        del: validate_entries.simps)
qed

definition envs_ok :: "Step list \<Rightarrow> bool" where
  "envs_ok ss \<longleftrightarrow> (\<forall>s \<in> set ss. list_all entry_ok (s_env s))"

lemma validate_step_envs_Ok_iff: "validate_step_envs p i ss = Inr u \<longleftrightarrow> envs_ok ss"
  by (induction p i ss rule: validate_step_envs.induct)
    (auto simp: res_bind_Ok_iff validate_env_map_Ok_iff envs_ok_def)

lemma validate_scopes_Ok_iff: "validate_scopes scs = Inr u \<longleftrightarrow> (\<forall>x \<in> set scs. envs_ok (sc_steps (snd x)))"
  by (induction scs rule: validate_scopes.induct)
    (auto simp: res_bind_Ok_iff validate_step_envs_Ok_iff)

section \<open>Properties\<close>

text \<open>
  A loaded workflow is well-formed. \<open>try_from_yaml\<close> returns a workflow only when its branch
  strategy resolves and every environment entry, of the workflow, of each step and of each step of
  each scope, has a valid name and a value without NUL; and it accepts every such workflow.
\<close>

theorem loaded_workflow_well_formed:
  "try_from_yaml deserialize yaml = Inr w \<longleftrightarrow>
    deserialize yaml = Inr w \<and> (\<exists>b. resolve_branch_strategy w = Inr b) \<and>
    list_all entry_ok (w_env w) \<and> envs_ok (w_steps w) \<and>
    (\<forall>x \<in> set (w_scopes w). envs_ok (sc_steps (snd x)))"
  by (auto simp: try_from_yaml_def validate_def res_bind_Ok_iff validate_env_map_Ok_iff
      validate_step_envs_Ok_iff validate_scopes_Ok_iff split: sum.splits)

theorem loaded_workflow_well_formed_witness:
  "try_from_yaml (\<lambda>_. Inr (new_workflow ''w'' [step_cmd ''a'' ''true''])) [] =
    Inr (new_workflow ''w'' [step_cmd ''a'' ''true''])"
  unfolding loaded_workflow_well_formed
  by (simp add: new_workflow_def step_cmd_def empty_step_def resolve_branch_strategy_def envs_ok_def)

text \<open>
  setting a branch strategy and resolving it gives that strategy back, whatever the workflow
  said before; the one exception is a named branch with the empty name, which is refused.
\<close>

theorem branch_strategy_roundtrip:
  "resolve_branch_strategy (set_branch_strategy w b) =
    (if b = BNamedBranch [] then Inl (PlaceholderUnresolved ''branch_name'' ''<workflow-file>'') else Inr b)"
  by (cases b) (simp_all add: resolve_branch_strategy_def)

end
