(* ===== verification/Events.thy ===== *)
theory Events
  imports Json Core
begin

text \<open>
  \<open>crates/stepyard-core/src/event.rs\<close>: the event log's vocabulary, its wire form (serde's
  internally tagged, snake case JSON with absent optional fields) and the typed reads of the
  parts the replay decodes again. A timestamp is the text \<open>chrono\<close> serialises it to.
\<close>

type_synonym timestamp = string

record StepOutputSnapshot =
  stdout :: string
  stderr :: string
  exit_code :: "32 word"

record ScopeContext =
  container :: string
  iteration :: nat
  position :: nat

datatype GateOutcome = Continue | Skip | Break

datatype ChatRole = User | Assistant

record ChatMessage =
  role :: ChatRole
  content :: string

text \<open>
  The fields of a constructor are in the order of the source. \<open>StepCompleted\<close>: name, type,
  duration, timestamp, input and output tokens, cost, sandboxed, output, scope, gate outcome,
  agent session id.
\<close>

datatype Event =
    WorkflowStarted timestamp
  | WorkflowCompleted nat timestamp
  | WorkflowCancelled nat timestamp
  | StepStarted string string timestamp "ScopeContext option"
  | StepCompleted string string nat timestamp "nat option" "nat option" "64 word option" bool
      "StepOutputSnapshot option" "ScopeContext option" "GateOutcome option" "string option"
  | StepFailed string string string nat timestamp bool
  | SandboxCreated string timestamp
  | SandboxDestroyed string timestamp
  | StepTimeoutFired nat nat
  | IdleTimeoutFired nat nat
  | SignalReceived Signal
  | CompletionSignaled nat string
  | WorkspacePrepared string string
  | BranchCreated string string
  | WorkspacePruned string string
  | MergeAttempted string string
  | MergeConflict string string "string list"
  | ChatMessageAppended string string ChatRole string timestamp
  | FileLogWriteFailed string timestamp

section \<open>The wire form\<close>

definition snapshot_json :: "StepOutputSnapshot \<Rightarrow> json" where
  "snapshot_json s = JObj
    ((if stdout s = [] then [] else [(''stdout'', JStr (stdout s))]) @
     (if stderr s = [] then [] else [(''stderr'', JStr (stderr s))]) @
     [(''exit_code'', JInt (sint (exit_code s)))])"

definition scope_json :: "ScopeContext \<Rightarrow> json" where
  "scope_json c = JObj [(''container'', JStr (container c)), (''iteration'', json_u (iteration c)),
    (''position'', json_u (position c))]"

fun gate_str :: "GateOutcome \<Rightarrow> string" where
  "gate_str Continue = ''continue''" | "gate_str Skip = ''skip''" | "gate_str Break = ''break''"

fun role_str :: "ChatRole \<Rightarrow> string" where
  "role_str User = ''user''" | "role_str Assistant = ''assistant''"

definition tagged :: "string \<Rightarrow> (string \<times> json) list \<Rightarrow> json" where
  "tagged tag fs = JObj ((''event'', JStr tag) # fs)"

fun event_json :: "Event \<Rightarrow> json" where
  "event_json (WorkflowStarted ts) = tagged ''workflow_started'' [(''timestamp'', JStr ts)]"
| "event_json (WorkflowCompleted d ts) =
    tagged ''workflow_completed'' [(''duration_ms'', json_u d), (''timestamp'', JStr ts)]"
| "event_json (WorkflowCancelled d ts) =
    tagged ''workflow_cancelled'' [(''duration_ms'', json_u d), (''timestamp'', JStr ts)]"
| "event_json (StepStarted n t ts sc) =
    tagged ''step_started'' ([(''step_name'', JStr n), (''step_type'', JStr t), (''timestamp'', JStr ts)] @
      opt_field ''scope_context'' scope_json sc)"
| "event_json (StepCompleted n t d ts it ot c sb out sc go sid) =
    tagged ''step_completed'' ([(''step_name'', JStr n), (''step_type'', JStr t),
      (''duration_ms'', json_u d), (''timestamp'', JStr ts)] @
      opt_field ''input_tokens'' json_u it @ opt_field ''output_tokens'' json_u ot @
      opt_field ''cost_usd'' json_f64 c @ [(''sandboxed'', JBool sb)] @
      opt_field ''output'' snapshot_json out @ opt_field ''scope_context'' scope_json sc @
      opt_field ''gate_outcome'' (\<lambda>g. JStr (gate_str g)) go @ opt_field ''agent_session_id'' JStr sid)"
| "event_json (StepFailed n t e d ts sb) =
    tagged ''step_failed'' [(''step_name'', JStr n), (''step_type'', JStr t), (''error'', JStr e),
      (''duration_ms'', json_u d), (''timestamp'', JStr ts), (''sandboxed'', JBool sb)]"
| "event_json (SandboxCreated i ts) =
    tagged ''sandbox_created'' [(''sandbox_id'', JStr i), (''timestamp'', JStr ts)]"
| "event_json (SandboxDestroyed i ts) =
    tagged ''sandbox_destroyed'' [(''sandbox_id'', JStr i), (''timestamp'', JStr ts)]"
| "event_json (StepTimeoutFired i ms) =
    tagged ''step_timeout_fired'' [(''step_index'', json_u i), (''configured_ms'', json_u ms)]"
| "event_json (IdleTimeoutFired i ms) =
    tagged ''idle_timeout_fired'' [(''step_index'', json_u i), (''idle_threshold_ms'', json_u ms)]"
| "event_json (SignalReceived s) = tagged ''signal_received'' [(''signal'', JStr (as_wire s))]"
| "event_json (CompletionSignaled i s) =
    tagged ''completion_signaled'' [(''step_index'', json_u i), (''signal'', JStr s)]"
| "event_json (WorkspacePrepared p s) =
    tagged ''workspace_prepared'' [(''path'', JStr p), (''strategy'', JStr s)]"
| "event_json (BranchCreated b base) =
    tagged ''branch_created'' [(''branch'', JStr b), (''base'', JStr base)]"
| "event_json (WorkspacePruned p r) =
    tagged ''workspace_pruned'' [(''path'', JStr p), (''reason'', JStr r)]"
| "event_json (MergeAttempted s t) =
    tagged ''merge_attempted'' [(''source'', JStr s), (''target'', JStr t)]"
| "event_json (MergeConflict s t fs) =
    tagged ''merge_conflict'' [(''source'', JStr s), (''target'', JStr t), (''files'', JArr (map JStr fs))]"
| "event_json (ChatMessageAppended n s r c ts) =
    tagged ''chat_message_appended'' [(''step_name'', JStr n), (''session'', JStr s),
      (''role'', JStr (role_str r)), (''content'', JStr c), (''timestamp'', JStr ts)]"
| "event_json (FileLogWriteFailed c ts) =
    tagged ''file_log_write_failed'' [(''error_class'', JStr c), (''timestamp'', JStr ts)]"

section \<open>Typed reads\<close>

text \<open>
  \<open>serde_json::from_value::<StepOutputSnapshot>\<close>: an object with a default for the two
  strings and an \<open>i32\<close> exit code, or the sequence form serde derives as well.
\<close>

fun read_i32 :: "json \<Rightarrow> 32 word option" where
  "read_i32 (JInt i) = (if - (2 ^ 31) \<le> i \<and> i < 2 ^ 31 then Some (word_of_int i) else None)"
| "read_i32 _ = None"

definition str_or_default :: "json option \<Rightarrow> string option" where
  "str_or_default x = (case x of None \<Rightarrow> Some [] | Some v \<Rightarrow> as_str v)"

definition make_snapshot :: "string option \<Rightarrow> string option \<Rightarrow> 32 word option \<Rightarrow> StepOutputSnapshot option" where
  "make_snapshot o' e' x' = (case (o', e', x') of
     (Some out, Some err, Some x) \<Rightarrow> Some \<lparr>stdout = out, stderr = err, exit_code = x\<rparr>
   | _ \<Rightarrow> None)"

fun snapshot_from :: "json \<Rightarrow> StepOutputSnapshot option" where
  "snapshot_from (JObj fs) =
    make_snapshot (str_or_default (map_of fs ''stdout'')) (str_or_default (map_of fs ''stderr''))
      (Option.bind (map_of fs ''exit_code'') read_i32)"
| "snapshot_from (JArr [a, b, c]) = make_snapshot (as_str a) (as_str b) (read_i32 c)"
| "snapshot_from _ = None"

definition role_named :: "string \<Rightarrow> ChatRole option" where
  "role_named s = (if s = ''user'' then Some User else if s = ''assistant'' then Some Assistant else None)"

text \<open>A unit variant is read from its name, or from an object with that name and \<open>null\<close>.\<close>

fun role_from :: "json \<Rightarrow> ChatRole option" where
  "role_from (JStr s) = role_named s"
| "role_from (JObj [(s, JNull)]) = role_named s"
| "role_from _ = None"

definition message_from :: "json \<Rightarrow> json \<Rightarrow> ChatMessage option" where
  "message_from role_raw content_raw =
    (case (role_from role_raw, as_str content_raw) of
       (Some r, Some c) \<Rightarrow> Some \<lparr>role = r, content = c\<rparr>
     | _ \<Rightarrow> None)"

definition gate_named :: "string \<Rightarrow> GateOutcome option" where
  "gate_named s = (if s = ''continue'' then Some Continue else if s = ''skip'' then Some Skip
    else if s = ''break'' then Some Break else None)"

lemma sint32_bounds [simp]: "- 2147483648 \<le> sint (x :: 32 word)" "sint (x :: 32 word) < 2147483648"
  using sint_greater_eq [of x] sint_less [of x] by simp_all

interpretation snapshot_codec: codec snapshot_json snapshot_from "\<lambda>s. True"
  by unfold_locales (simp add: snapshot_json_def str_or_default_def make_snapshot_def)

interpretation role_codec: codec role_str role_named "\<lambda>r. True"
  by unfold_locales (case_tac x; simp add: role_named_def)

interpretation gate_codec: codec gate_str gate_named "\<lambda>g. True"
  by unfold_locales (case_tac x; simp add: gate_named_def)

section \<open>Reading an event back\<close>

definition tag_of :: "json \<Rightarrow> string option" where
  "tag_of v = jget_str v ''event''"

lemma tag_of_tagged [simp]: "tag_of (tagged t fs) = Some t"
  by (simp add: tag_of_def tagged_def jget_str_def)

lemma jget_tagged [simp]: "k \<noteq> ''event'' \<Longrightarrow> jget (tagged t fs) k = map_of fs k"
  by (simp add: tagged_def)

lemma jget_scope_json [simp]:
  "jget (scope_json c) ''container'' = Some (JStr (container c))"
  "jget (scope_json c) ''iteration'' = Some (json_u (iteration c))"
  "jget (scope_json c) ''position'' = Some (json_u (position c))"
  by (simp_all add: scope_json_def)

lemma json_not_null [simp]: "scope_json c \<noteq> JNull" "snapshot_json s \<noteq> JNull" "tagged t fs \<noteq> JNull"
  by (simp_all add: scope_json_def snapshot_json_def tagged_def)

lemma message_from_wire [simp]:
  "message_from (JStr (role_str r)) (JStr c) = Some \<lparr>role = r, content = c\<rparr>"
  by (simp add: message_from_def role_codec.dec_enc)

section \<open>Pruning reasons\<close>

datatype WorkspacePruneReason = OrphanNoGitEntry | StalePastRetention | GitPruneDangling

fun prune_reason_str :: "WorkspacePruneReason \<Rightarrow> string" where
  "prune_reason_str OrphanNoGitEntry = ''orphan_no_git_entry''"
| "prune_reason_str StalePastRetention = ''stale_past_retention''"
| "prune_reason_str GitPruneDangling = ''git_prune_dangling''"

definition workspace_pruned :: "string \<Rightarrow> WorkspacePruneReason \<Rightarrow> Event" where
  "workspace_pruned path reason = WorkspacePruned path (prune_reason_str reason)"

end
