(* ===== verification/SessionLog.thy ===== *)
theory SessionLog
  imports Events
begin

text \<open>
  \<open>crates/stepyard-session\<close>: the session handle (\<open>session.rs\<close>), the \<open>EventStore\<close> interface
  (\<open>store_trait.rs\<close>) as a locale, and its Postgres implementation (\<open>pg_store.rs\<close>) over the
  two tables \<open>sessions\<close> and \<open>session_events\<close>, statement by statement as its SQL says. The
  abstract store a session's client sees is one log of payloads and one status.

  The database itself is outside the repository. A call is told what it does with it: it commits,
  it fails before the commit, or it fails after it (the reply is lost), which is also what a
  client that dies between the commit and the reply leaves behind.
\<close>

section \<open>Status\<close>

datatype SessionStatus = Running | Completed | Failed | Cancelled

fun status_str :: "SessionStatus \<Rightarrow> string" where
  "status_str Running = ''running''"
| "status_str Completed = ''completed''"
| "status_str Failed = ''failed''"
| "status_str Cancelled = ''cancelled''"

definition status_from_db :: "string \<Rightarrow> (SessionError, SessionStatus) result" where
  "status_from_db s =
    (if s = ''running'' then Inr Running
     else if s = ''completed'' then Inr Completed
     else if s = ''failed'' then Inr Failed
     else if s = ''cancelled'' then Inr Cancelled
     else Inl (SessionInvalidState (''unknown session status `'' @ s @ ''`'')))"

lemma status_from_str [simp]: "status_from_db (status_str s) = Inr s"
  by (cases s) (simp_all add: status_from_db_def)

interpretation status_codec: codec status_str
  "\<lambda>s. case status_from_db s of Inl e \<Rightarrow> None | Inr x \<Rightarrow> Some x" "\<lambda>s. True"
  by unfold_locales simp

lemma status_str_running [simp]:
  "status_str s = ''running'' \<longleftrightarrow> s = Running" "''running'' = status_str s \<longleftrightarrow> s = Running"
  by (cases s; simp)+

section \<open>Tables\<close>

record SessionRow =
  row_id :: uuid
  row_workflow_id :: uuid
  row_tenant_id :: string
  row_status :: string
  row_started_at :: timestamp
  row_ended_at :: "timestamp option"

record EventRow =
  ev_id :: uuid
  ev_session :: uuid
  ev_seq :: int
  ev_created_at :: timestamp
  ev_payload :: json

text \<open>
  The database: its two tables, and what is PostgreSQL's own and not in the repository: what a
  payload becomes in the \<open>JSONB\<close> column (a string with \<open>\u0000\<close> is refused, a number may be written
  another way), and its messages.
\<close>

datatype Violation = ForeignKey | DuplicateId | SeqOutOfRange

record Db =
  sessions :: "SessionRow list"
  session_events :: "EventRow list"
  jsonb :: "json \<Rightarrow> (string, json) result"
  violation :: "Violation \<Rightarrow> string"

text \<open>The value an accepted payload reads back as.\<close>

definition column_value :: "Db \<Rightarrow> json \<Rightarrow> json" where
  "column_value db p = (case jsonb db p of Inl m \<Rightarrow> p | Inr v \<Rightarrow> v)"

text \<open>Rows in a column that keeps every payload as it is.\<close>

abbreviation tables :: "SessionRow list \<Rightarrow> EventRow list \<Rightarrow> Db" where
  "tables ss es \<equiv> \<lparr>sessions = ss, session_events = es, jsonb = Inr, violation = (\<lambda>v. [])\<rparr>"

record SessionMeta =
  meta_id :: uuid
  meta_workflow_id :: uuid
  meta_tenant_id :: string
  meta_status :: SessionStatus
  meta_started_at :: timestamp
  meta_ended_at :: "timestamp option"

record SessionEvent =
  se_id :: uuid
  se_session :: uuid
  seq :: int
  created_at :: timestamp
  payload :: json

datatype db_reply = Commits | FailsBefore string | FailsAfter string

text \<open>What a statement of a transaction answers, and the tables it leaves.\<close>

fun commit :: "db_reply \<Rightarrow> 'a \<Rightarrow> 'd \<Rightarrow> 'd \<Rightarrow> (SessionError, 'a) result \<times> 'd" where
  "commit Commits a old new = (Inr a, new)"
| "commit (FailsBefore m) a old new = (Inl (Database m), old)"
| "commit (FailsAfter m) a old new = (Inl (Database m), new)"

section \<open>The Postgres store\<close>

definition meta_from_row :: "SessionRow \<Rightarrow> (SessionError, SessionMeta) result" where
  "meta_from_row r =
    res_bind (status_from_db (row_status r)) (\<lambda>st. Inr
      \<lparr>meta_id = row_id r, meta_workflow_id = row_workflow_id r, meta_tenant_id = row_tenant_id r,
       meta_status = st, meta_started_at = row_started_at r, meta_ended_at = row_ended_at r\<rparr>)"

definition event_from_row :: "EventRow \<Rightarrow> SessionEvent" where
  "event_from_row r = \<lparr>se_id = ev_id r, se_session = ev_session r, seq = ev_seq r,
    created_at = ev_created_at r, payload = ev_payload r\<rparr>"

text \<open>\<open>INSERT INTO sessions ... RETURNING\<close>; the primary key refuses an id that exists.\<close>

definition pg_create_session ::
  "Db \<Rightarrow> uuid \<Rightarrow> uuid \<Rightarrow> string \<Rightarrow> timestamp \<Rightarrow> db_reply \<Rightarrow> (SessionError, SessionMeta) result \<times> Db" where
  "pg_create_session db new_id workflow tenant now reply =
    (if new_id \<in> row_id ` set (sessions db) then (Inl (Database (violation db DuplicateId)), db)
     else
       (let row = \<lparr>row_id = new_id, row_workflow_id = workflow, row_tenant_id = tenant,
                   row_status = ''running'', row_started_at = now, row_ended_at = None\<rparr> in
        (case commit reply row db (db\<lparr>sessions := sessions db @ [row]\<rparr>) of
           (Inl e, db') \<Rightarrow> (Inl e, db')
         | (Inr r, db') \<Rightarrow> (meta_from_row r, db'))))"

definition find_session :: "Db \<Rightarrow> uuid \<Rightarrow> SessionRow option" where
  "find_session db sid = find (\<lambda>r. row_id r = sid) (sessions db)"

definition pg_load_session_meta :: "Db \<Rightarrow> uuid \<Rightarrow> db_reply \<Rightarrow> (SessionError, SessionMeta) result" where
  "pg_load_session_meta db sid reply =
    (case fst (commit reply (find_session db sid) db db) of
       Inl e \<Rightarrow> Inl e
     | Inr None \<Rightarrow> Inl (NotFound sid)
     | Inr (Some r) \<Rightarrow> meta_from_row r)"

definition events_of :: "Db \<Rightarrow> uuid \<Rightarrow> EventRow list" where
  "events_of db sid = filter (\<lambda>r. ev_session r = sid) (session_events db)"

text \<open>\<open>COALESCE((SELECT MAX(seq) ...), 0) + 1\<close>, out of range beyond \<open>BIGINT\<close>.\<close>

definition next_seq :: "Db \<Rightarrow> uuid \<Rightarrow> int" where
  "next_seq db sid = (if events_of db sid = [] then 0 else Max (ev_seq ` set (events_of db sid))) + 1"

text \<open>
  The payload goes through the column on its way in; the row, the \<open>RETURNING\<close> clause and every later
  \<open>SELECT\<close> have what the column made of it.
\<close>

definition pg_append ::
  "Db \<Rightarrow> uuid \<Rightarrow> json \<Rightarrow> uuid \<Rightarrow> timestamp \<Rightarrow> db_reply \<Rightarrow> (SessionError, SessionEvent) result \<times> Db" where
  "pg_append db sid p new_id now reply =
    (case jsonb db p of
       Inl m \<Rightarrow> (Inl (Database m), db)
     | Inr v \<Rightarrow>
       if find_session db sid = None then (Inl (Database (violation db ForeignKey)), db)
       else if new_id \<in> ev_id ` set (session_events db) then (Inl (Database (violation db DuplicateId)), db)
       else if next_seq db sid \<ge> 2 ^ 63 then (Inl (Database (violation db SeqOutOfRange)), db)
       else
         (let row = \<lparr>ev_id = new_id, ev_session = sid, ev_seq = next_seq db sid,
                     ev_created_at = now, ev_payload = v\<rparr> in
          commit reply (event_from_row row) db (db\<lparr>session_events := session_events db @ [row]\<rparr>)))"

definition pg_replay :: "Db \<Rightarrow> uuid \<Rightarrow> db_reply \<Rightarrow> (SessionError, SessionEvent list) result" where
  "pg_replay db sid reply =
    (case fst (commit reply (sort_key ev_seq (events_of db sid)) db db) of
       Inl e \<Rightarrow> Inl e
     | Inr rows \<Rightarrow> Inr (map event_from_row rows))"

text \<open>\<open>UPDATE sessions SET ... WHERE id = $1 AND status = 'running' RETURNING status, ended_at\<close>\<close>

definition pg_finish_session ::
  "Db \<Rightarrow> uuid \<Rightarrow> SessionStatus \<Rightarrow> timestamp \<Rightarrow> db_reply \<Rightarrow>
    (SessionError, (SessionStatus \<times> timestamp option) option) result \<times> Db" where
  "pg_finish_session db sid st now reply =
    (let hit = (\<lambda>r. row_id r = sid \<and> row_status r = ''running'');
         upd = (\<lambda>r. r\<lparr>row_status := status_str st, row_ended_at := Some now\<rparr>);
         returned = find hit (sessions db);
         db2 = db\<lparr>sessions := map (\<lambda>r. if hit r then upd r else r) (sessions db)\<rparr> in
     (case commit reply (map_option upd returned) db db2 of
        (Inl e, db') \<Rightarrow> (Inl e, db')
      | (Inr None, db') \<Rightarrow> (Inr None, db')
      | (Inr (Some r), db') \<Rightarrow>
        (res_bind (status_from_db (row_status r)) (\<lambda>s. Inr (Some (s, row_ended_at r))), db')))"

section \<open>The session handle\<close>

record Session =
  session_id :: uuid
  session_workflow_id :: uuid
  session_tenant_id :: string
  status :: SessionStatus
  session_started_at :: timestamp
  ended_at :: "timestamp option"

definition session_from_meta :: "SessionMeta \<Rightarrow> Session" where
  "session_from_meta m = \<lparr>session_id = meta_id m, session_workflow_id = meta_workflow_id m,
    session_tenant_id = meta_tenant_id m, status = meta_status m,
    session_started_at = meta_started_at m, ended_at = meta_ended_at m\<rparr>"

definition session_finish ::
  "Db \<Rightarrow> Session \<Rightarrow> SessionStatus \<Rightarrow> timestamp \<Rightarrow> db_reply \<Rightarrow> (SessionError, unit) result \<times> Session \<times> Db" where
  "session_finish db s st now reply =
    (case pg_finish_session db (session_id s) st now reply of
       (Inl e, db') \<Rightarrow> (Inl e, s, db')
     | (Inr None, db') \<Rightarrow> (Inr (), s, db')
     | (Inr (Some (db_status, e)), db') \<Rightarrow> (Inr (), s\<lparr>status := db_status, ended_at := e\<rparr>, db'))"

section \<open>The interface\<close>

text \<open>
  What a client of an \<open>EventStore\<close> relies on. \<open>'k\<close> is what the environment decides of a call (fresh
  id, clock, fate of the transaction); \<open>col\<close> is what the store makes of a payload it accepts.
\<close>

locale event_store =
  fixes wf :: "'db \<Rightarrow> bool"
    and log :: "'db \<Rightarrow> uuid \<Rightarrow> json list"
    and stat :: "'db \<Rightarrow> uuid \<Rightarrow> SessionStatus option"
    and col :: "'db \<Rightarrow> json \<Rightarrow> json"
    and app :: "'db \<Rightarrow> uuid \<Rightarrow> json \<Rightarrow> 'k \<Rightarrow> (SessionError, SessionEvent) result \<times> 'db"
    and fin :: "'db \<Rightarrow> uuid \<Rightarrow> SessionStatus \<Rightarrow> 'k \<Rightarrow>
      (SessionError, (SessionStatus \<times> timestamp option) option) result \<times> 'db"
  assumes wf_app: "wf db \<Longrightarrow> wf (snd (app db s p k))"
    and wf_fin: "wf db \<Longrightarrow> wf (snd (fin db s st k))"
    and col_app: "wf db \<Longrightarrow> col (snd (app db s p k)) = col db"
    and col_fin: "wf db \<Longrightarrow> col (snd (fin db s st k)) = col db"
    and log_app: "wf db \<Longrightarrow> log (snd (app db s p k)) = log db \<or>
      log (snd (app db s p k)) = (log db)(s := log db s @ [col db p])"
    and log_app_ok: "wf db \<Longrightarrow> app db s p k = (Inr e, db') \<Longrightarrow>
      log db' = (log db)(s := log db s @ [col db p]) \<and> payload e = col db p \<and> seq e = int (length (log db s)) + 1"
    and log_fin: "wf db \<Longrightarrow> log (snd (fin db s st k)) = log db"
    and stat_app: "wf db \<Longrightarrow> stat (snd (app db s p k)) = stat db"
    and stat_fin: "wf db \<Longrightarrow> stat (snd (fin db s st k)) = stat db \<or>
      stat db s = Some Running \<and> stat (snd (fin db s st k)) = (stat db)(s \<mapsto> st)"
    and fin_ok: "wf db \<Longrightarrow> fin db s st k = (Inr r, db') \<Longrightarrow>
      (if stat db s = Some Running then stat db' s = Some st \<and> map_option fst r = Some st
       else r = None \<and> db' = db)"

definition store_step ::
  "('db \<Rightarrow> uuid \<Rightarrow> json \<Rightarrow> 'k \<Rightarrow> 'a \<times> 'db) \<Rightarrow> ('db \<Rightarrow> uuid \<Rightarrow> SessionStatus \<Rightarrow> 'k \<Rightarrow> 'b \<times> 'db) \<Rightarrow>
    'db \<Rightarrow> 'db \<Rightarrow> bool" where
  "store_step app fin db db' \<longleftrightarrow>
    (\<exists>s p k. db' = snd (app db s p k)) \<or> (\<exists>s st k. db' = snd (fin db s st k))"

context event_store
begin

lemma step_mono:
  assumes "store_step app fin db db'" "wf db"
  shows "wf db' \<and> prefix (log db s) (log db' s) \<and>
    (\<forall>st. stat db s = Some st \<and> st \<noteq> Running \<longrightarrow> stat db' s = Some st)"
  using assms(1) unfolding store_step_def
proof (elim disjE exE)
  fix s' p k assume "db' = snd (app db s' p k)"
  then show ?thesis
    using assms(2) log_app [of db s' p k] by (auto simp: wf_app stat_app)
next
  fix s' st k assume "db' = snd (fin db s' st k)"
  then show ?thesis
    using assms(2) stat_fin [of db s' st k] by (auto simp: wf_fin log_fin)
qed

lemma run_mono:
  assumes "(store_step app fin)\<^sup>*\<^sup>* db db'" "wf db"
  shows "wf db' \<and> prefix (log db s) (log db' s) \<and>
    (\<forall>st. stat db s = Some st \<and> st \<noteq> Running \<longrightarrow> stat db' s = Some st)"
  using assms
proof (induction rule: rtranclp_induct)
  case (step db1 db2)
  then show ?case
    using step_mono [OF step(2), of s] by (auto intro: prefix_order.trans)
qed simp

end

text \<open>A store that can also be read back; the engine's replay is this operation.\<close>

locale replayable_store = event_store +
  fixes rep :: "'a \<Rightarrow> uuid \<Rightarrow> (SessionError, SessionEvent list) result"
  assumes rep_log: "wf db \<Longrightarrow> rep db s = Inr evs \<Longrightarrow> map payload evs = log db s"
    and rep_seq: "wf db \<Longrightarrow> rep db s = Inr evs \<Longrightarrow> map seq evs = [1..int (length evs)]"
begin

lemma replay_after_append:
  assumes "wf db" "app db s p k = (Inr e, db')" "rep db s = Inr evs" "rep db' s = Inr evs'"
  shows "map payload evs' = map payload evs @ [col db p] \<and> seq e = seq (last evs')"
proof -
  have l: "log db' s = log db s @ [col db p]" "seq e = int (length (log db s)) + 1" "wf db'"
    using log_app_ok [OF assms(1,2)] wf_app [OF assms(1), of s p k] assms(2) by auto
  have p: "map payload evs' = map payload evs @ [col db p]"
    using rep_log [OF assms(1,3)] rep_log [OF l(3) assms(4)] l(1) by simp
  then have ne: "evs' \<noteq> []" "length evs' = length evs + 1"
    by (auto dest: arg_cong [of _ _ length])
  then have "seq (last evs') = last [1..int (length evs')]"
    using rep_seq [OF l(3) assms(4)] by (metis last_map)
  moreover have "length evs = length (log db s)"
    using rep_log [OF assms(1,3)] by (metis length_map)
  ultimately show ?thesis using p l(2) ne by (simp add: upto_rec2)
qed

end

section \<open>The Postgres store provides it\<close>

definition pg_log :: "Db \<Rightarrow> uuid \<Rightarrow> json list" where
  "pg_log db s = map ev_payload (events_of db s)"

definition row_stat :: "SessionRow \<Rightarrow> SessionStatus option" where
  "row_stat r = (case status_from_db (row_status r) of Inl e \<Rightarrow> None | Inr st \<Rightarrow> Some st)"

definition pg_stat :: "Db \<Rightarrow> uuid \<Rightarrow> SessionStatus option" where
  "pg_stat db s = Option.bind (find_session db s) row_stat"

text \<open>
  The tables' constraints and what the statements keep of them: ids are unique, the status column
  holds one of the four words, and the rows of a session, in insertion order, are numbered 1, 2, ...
\<close>

definition pg_ok :: "Db \<Rightarrow> bool" where
  "pg_ok db \<longleftrightarrow> distinct (map row_id (sessions db)) \<and>
    (\<forall>r \<in> set (sessions db). \<exists>st. row_status r = status_str st) \<and>
    (\<forall>s. map ev_seq (events_of db s) = [1..int (length (events_of db s))])"

lemma next_seq_ok: "pg_ok db \<Longrightarrow> next_seq db s = int (length (events_of db s)) + 1"
proof -
  assume ok: "pg_ok db"
  have "ev_seq ` set (events_of db s) = set [1..int (length (events_of db s))]"
    using ok unfolding pg_ok_def by (metis list.set_map)
  then have *: "ev_seq ` set (events_of db s) = {1..int (length (events_of db s))}" by simp
  have "Max {1..int (length (events_of db s))} = int (length (events_of db s))"
    if "events_of db s \<noteq> []"
    using that by (intro Max_eqI) (auto simp: Suc_le_eq)
  then show ?thesis by (simp add: next_seq_def *)
qed

lemma row_stat_upd [simp]:
  "row_stat (r\<lparr>row_status := status_str st, row_ended_at := e\<rparr>) = Some st"
  by (simp add: row_stat_def)

lemma find_upd: "distinct (map row_id rs) \<Longrightarrow> (\<And>r. row_id (f r) = row_id r) \<Longrightarrow>
    find (\<lambda>r. row_id r = s) (map f rs) = map_option f (find (\<lambda>r. row_id r = s) rs)"
  by (induction rs) auto

lemma find_hit: "distinct (map row_id rs) \<Longrightarrow>
    find (\<lambda>r. row_id r = s \<and> Q r) rs =
      (case find (\<lambda>r. row_id r = s) rs of None \<Rightarrow> None | Some r \<Rightarrow> if Q r then Some r else None)"
proof (induction rs)
  case (Cons r rs)
  have "find (\<lambda>r. row_id r = row_id r0 \<and> Q r) rs = None" "find (\<lambda>r. row_id r = row_id r0) rs = None"
    if "row_id r0 \<notin> row_id ` set rs" for r0
    using that by (auto simp: find_None_iff) (metis image_eqI)+
  from this [of r] Cons show ?case by (auto split: option.splits)
qed simp

lemma commit_snd: "snd (commit reply a old new) = old \<or> snd (commit reply a old new) = new"
  by (cases reply) simp_all

lemma commit_Ok: "commit reply a old new = (Inr b, d) \<longleftrightarrow> reply = Commits \<and> b = a \<and> d = new"
  by (cases reply) auto

lemma pg_append_cases:
  assumes "pg_append db s p i now reply = (r, db')"
  obtains (refused) m where "r = Inl m" "db' = db"
  | (stored) row where "ev_session row = s" "ev_payload row = column_value db p" "ev_seq row = next_seq db s"
      "db' = db\<lparr>session_events := session_events db @ [row]\<rparr>"
      "r = Inr (event_from_row row) \<or> (\<exists>m. r = Inl m)"
proof -
  define row where "row = \<lparr>ev_id = i, ev_session = s, ev_seq = next_seq db s, ev_created_at = now,
    ev_payload = column_value db p\<rparr>"
  have "(\<exists>m. r = Inl m \<and> db' = db) \<or>
      db' = db\<lparr>session_events := session_events db @ [row]\<rparr> \<and> (r = Inr (event_from_row row) \<or> (\<exists>m. r = Inl m))"
    using assms unfolding pg_append_def Let_def row_def column_value_def
    by (cases "jsonb db p"; cases reply) (auto split: if_splits)
  then show thesis
    using refused stored [of row] by (auto simp: row_def)
qed

lemma pg_append_ok:
  assumes "pg_ok db" "pg_append db s p i now reply = (r, db')"
  shows "pg_ok db' \<and> pg_stat db' = pg_stat db \<and> jsonb db' = jsonb db \<and>
    (pg_log db' = pg_log db \<or> pg_log db' = (pg_log db)(s := pg_log db s @ [column_value db p])) \<and>
    (\<forall>e. r = Inr e \<longrightarrow> pg_log db' = (pg_log db)(s := pg_log db s @ [column_value db p]) \<and> payload e = column_value db p \<and>
      seq e = int (length (pg_log db s)) + 1)"
  using assms(2)
proof (cases rule: pg_append_cases)
  case (refused m)
  then show ?thesis using assms(1) by auto
next
  case (stored row)
  have ev: "events_of db' s' = (if s' = s then events_of db s @ [row] else events_of db s')" for s'
    using stored(1,4) by (simp add: events_of_def)
  have len: "[1..int (length (events_of db s)) + 1] =
      [1..int (length (events_of db s))] @ [int (length (events_of db s)) + 1]"
    by (simp add: upto_rec2)
  have "pg_ok db'"
  proof -
    have "sessions db' = sessions db" using stored(4) by simp
    then show ?thesis
      using assms(1) stored(3) len by (simp add: pg_ok_def ev next_seq_ok [OF assms(1)] add.commute)
  qed
  moreover have "pg_stat db' = pg_stat db"
    using stored(4) by (simp add: pg_stat_def find_session_def fun_eq_iff)
  moreover have "pg_log db' = (pg_log db)(s := pg_log db s @ [column_value db p])"
    using stored(2) by (auto simp: pg_log_def ev fun_eq_iff)
  ultimately show ?thesis
    using stored by (auto simp: event_from_row_def next_seq_ok [OF assms(1)] pg_log_def)
qed

definition pg_close :: "SessionStatus \<Rightarrow> timestamp \<Rightarrow> uuid \<Rightarrow> SessionRow \<Rightarrow> SessionRow" where
  "pg_close st now s r = (if row_id r = s \<and> row_status r = ''running''
     then r\<lparr>row_status := status_str st, row_ended_at := Some now\<rparr> else r)"

lemma pg_close_id [simp]: "row_id (pg_close st now s r) = row_id r"
  by (simp add: pg_close_def)

lemma pg_finish_eq:
  "pg_finish_session db s st now reply =
    (case commit reply (map_option (\<lambda>r. r\<lparr>row_status := status_str st, row_ended_at := Some now\<rparr>)
        (find (\<lambda>r. row_id r = s \<and> row_status r = ''running'') (sessions db))) db
        (db\<lparr>sessions := map (pg_close st now s) (sessions db)\<rparr>) of
       (Inl e, db') \<Rightarrow> (Inl e, db')
     | (Inr None, db') \<Rightarrow> (Inr None, db')
     | (Inr (Some r), db') \<Rightarrow>
       (res_bind (status_from_db (row_status r)) (\<lambda>s. Inr (Some (s, row_ended_at r))), db'))"
  unfolding pg_finish_session_def Let_def pg_close_def by simp

lemma row_stat_running: "\<exists>st. row_status r = status_str st \<Longrightarrow>
    row_stat r = Some Running \<longleftrightarrow> row_status r = ''running''"
  by (auto simp: row_stat_def) (simp add: status_from_db_def)

lemma pg_finish_snd: "snd (pg_finish_session db s st now reply) = db \<or>
    snd (pg_finish_session db s st now reply) = db\<lparr>sessions := map (pg_close st now s) (sessions db)\<rparr>"
  by (cases reply) (auto simp: pg_finish_eq split: option.splits)

lemma pg_close_stat:
  assumes "pg_ok db"
  shows "pg_stat (db\<lparr>sessions := map (pg_close st now s) (sessions db)\<rparr>) =
    (if pg_stat db s = Some Running then (pg_stat db)(s \<mapsto> st) else pg_stat db)"
proof
  fix s'
  have d: "distinct (map row_id (sessions db))" using assms by (simp add: pg_ok_def)
  have f: "find_session (db\<lparr>sessions := map (pg_close st now s) (sessions db)\<rparr>) s' =
      map_option (pg_close st now s) (find_session db s')"
    by (simp add: find_session_def find_upd [OF d])
  show "pg_stat (db\<lparr>sessions := map (pg_close st now s) (sessions db)\<rparr>) s' =
    (if pg_stat db s = Some Running then (pg_stat db)(s \<mapsto> st) else pg_stat db) s'"
  proof (cases "find_session db s'")
    case None
    then show ?thesis by (auto simp: pg_stat_def f)
  next
    case (Some r)
    then have r: "row_id r = s'" "\<exists>st. row_status r = status_str st"
      using assms by (auto simp: find_session_def find_Some_iff pg_ok_def)
    then show ?thesis
      using Some row_stat_running [of r] by (auto simp: pg_stat_def f pg_close_def)
  qed
qed

lemma pg_finish_ok:
  assumes "pg_ok db" "pg_finish_session db s st now reply = (r, db')"
  shows "pg_ok db'" "pg_log db' = pg_log db"
    "pg_stat db' = pg_stat db \<or> pg_stat db s = Some Running \<and> pg_stat db' = (pg_stat db)(s \<mapsto> st)"
    "r = Inr x \<Longrightarrow> (if pg_stat db s = Some Running then pg_stat db' s = Some st \<and> map_option fst x = Some st
       else x = None \<and> db' = db)"
proof -
  let ?db2 = "db\<lparr>sessions := map (pg_close st now s) (sessions db)\<rparr>"
  have d: "distinct (map row_id (sessions db))" using assms by (simp add: pg_ok_def)
  have ok2: "pg_ok ?db2"
  proof -
    have "map row_id (map (pg_close st now s) (sessions db)) = map row_id (sessions db)" by simp
    moreover have "\<exists>st'. row_status (pg_close st now s r) = status_str st'" if "r \<in> set (sessions db)" for r
      using assms(1) that by (auto simp: pg_ok_def pg_close_def)
    ultimately show ?thesis using assms(1) d by (simp add: pg_ok_def events_of_def comp_def)
  qed
  have cases: "db' = db \<or> db' = ?db2"
    using pg_finish_snd [of db s st now reply] assms(2) by simp
  show "pg_ok db'" using cases ok2 assms(1) by blast
  show "pg_log db' = pg_log db" using cases by (auto simp: pg_log_def events_of_def fun_eq_iff)
  show "pg_stat db' = pg_stat db \<or> pg_stat db s = Some Running \<and> pg_stat db' = (pg_stat db)(s \<mapsto> st)"
    using cases pg_close_stat [OF assms(1)] by auto
  assume r: "r = Inr x"
  have hit: "find (\<lambda>r. row_id r = s \<and> row_status r = ''running'') (sessions db) =
      (case find_session db s of None \<Rightarrow> None | Some r \<Rightarrow> if row_status r = ''running'' then Some r else None)"
    unfolding find_session_def by (rule find_hit [OF d])
  have run: "pg_stat db s = Some Running \<longleftrightarrow>
      find (\<lambda>r. row_id r = s \<and> row_status r = ''running'') (sessions db) \<noteq> None"
  proof (cases "find_session db s")
    case (Some q)
    then have "\<exists>st. row_status q = status_str st"
      using assms(1) by (auto simp: find_session_def find_Some_iff pg_ok_def)
    then show ?thesis using Some row_stat_running [of q] by (simp add: hit pg_stat_def)
  qed (simp add: hit pg_stat_def)
  have same: "?db2 = db" if "pg_stat db s \<noteq> Some Running"
  proof -
    have "pg_close st now s r = r" if "r \<in> set (sessions db)" for r
      using \<open>pg_stat db s \<noteq> Some Running\<close> run that by (auto simp: pg_close_def find_None_iff)
    then have "map (pg_close st now s) (sessions db) = sessions db" by (simp add: map_idI)
    then show ?thesis by simp
  qed
  have rep: "reply = Commits" "db' = ?db2"
    using assms(2) r by (cases reply; simp add: pg_finish_eq split: option.splits)+
  show "if pg_stat db s = Some Running then pg_stat db' s = Some st \<and> map_option fst x = Some st
       else x = None \<and> db' = db"
  proof (cases "pg_stat db s = Some Running")
    case True
    then obtain q where "find (\<lambda>r. row_id r = s \<and> row_status r = ''running'') (sessions db) = Some q"
      using run by blast
    then show ?thesis
      using True assms(2) r rep pg_close_stat [OF assms(1), of st now s] by (auto simp: pg_finish_eq)
  next
    case False
    then have "find (\<lambda>r. row_id r = s \<and> row_status r = ''running'') (sessions db) = None"
      using run by blast
    then show ?thesis
      using False assms(2) r rep same by (auto simp: pg_finish_eq)
  qed
qed

lemma pg_replay_ok:
  assumes "pg_ok db" "pg_replay db s reply = Inr evs"
  shows "map payload evs = pg_log db s" "map seq evs = [1..int (length evs)]"
proof -
  have e: "evs = map event_from_row (sort_key ev_seq (events_of db s))"
    using assms(2) by (cases reply) (auto simp: pg_replay_def)
  have "sorted (map ev_seq (events_of db s))"
    using assms(1) by (simp add: pg_ok_def)
  then have "sort_key ev_seq (events_of db s) = events_of db s"
    by (simp add: sort_key_id_if_sorted)
  then show "map payload evs = pg_log db s" "map seq evs = [1..int (length evs)]"
    using e assms(1) by (simp_all add: pg_log_def event_from_row_def comp_def pg_ok_def)
qed

type_synonym pg_env = "uuid \<times> timestamp \<times> db_reply"

definition pg_app :: "Db \<Rightarrow> uuid \<Rightarrow> json \<Rightarrow> pg_env \<Rightarrow> (SessionError, SessionEvent) result \<times> Db" where
  "pg_app db s p k = (case k of (i, now, reply) \<Rightarrow> pg_append db s p i now reply)"

definition pg_fin :: "Db \<Rightarrow> uuid \<Rightarrow> SessionStatus \<Rightarrow> pg_env \<Rightarrow>
    (SessionError, (SessionStatus \<times> timestamp option) option) result \<times> Db" where
  "pg_fin db s st k = (case k of (i, now, reply) \<Rightarrow> pg_finish_session db s st now reply)"

definition pg_rep :: "Db \<Rightarrow> uuid \<Rightarrow> (SessionError, SessionEvent list) result" where
  "pg_rep db s = pg_replay db s Commits"

interpretation pg: replayable_store pg_ok pg_log pg_stat column_value pg_app pg_fin pg_rep
proof unfold_locales
  fix db s p k e db' st r evs
  assume ok: "pg_ok db"
  obtain r1 db1 where a: "pg_app db s p k = (r1, db1)" by fastforce
  have A: "pg_ok db1 \<and> pg_stat db1 = pg_stat db \<and> jsonb db1 = jsonb db \<and>
      (pg_log db1 = pg_log db \<or> pg_log db1 = (pg_log db)(s := pg_log db s @ [column_value db p])) \<and>
      (\<forall>e. r1 = Inr e \<longrightarrow> pg_log db1 = (pg_log db)(s := pg_log db s @ [column_value db p]) \<and> payload e = column_value db p \<and>
        seq e = int (length (pg_log db s)) + 1)"
    using a by (cases k) (auto simp: pg_app_def dest!: pg_append_ok [OF ok])
  show "pg_ok (snd (pg_app db s p k))" "pg_stat (snd (pg_app db s p k)) = pg_stat db"
    "pg_log (snd (pg_app db s p k)) = pg_log db \<or>
      pg_log (snd (pg_app db s p k)) = (pg_log db)(s := pg_log db s @ [column_value db p])"
    using A a by auto
  show "column_value (snd (pg_app db s p k)) = column_value db"
    using A a by (simp add: column_value_def fun_eq_iff)
  show "pg_app db s p k = (Inr e, db') \<Longrightarrow>
      pg_log db' = (pg_log db)(s := pg_log db s @ [column_value db p]) \<and> payload e = column_value db p \<and>
      seq e = int (length (pg_log db s)) + 1"
    using A a by auto
  obtain r2 db2 i now reply where f: "k = (i, now, reply)" "pg_finish_session db s st now reply = (r2, db2)"
    by (metis prod.exhaust)
  note F = pg_finish_ok [OF ok f(2)]
  have "db2 = db \<or> db2 = db\<lparr>sessions := map (pg_close st now s) (sessions db)\<rparr>"
    using pg_finish_snd [of db s st now reply] f by simp
  then show "column_value (snd (pg_fin db s st k)) = column_value db"
    using f by (auto simp: pg_fin_def column_value_def fun_eq_iff)
  show "pg_ok (snd (pg_fin db s st k))" "pg_log (snd (pg_fin db s st k)) = pg_log db"
    "pg_stat (snd (pg_fin db s st k)) = pg_stat db \<or>
      pg_stat db s = Some Running \<and> pg_stat (snd (pg_fin db s st k)) = (pg_stat db)(s \<mapsto> st)"
    using F(1-3) f by (simp_all add: pg_fin_def)
  show "pg_fin db s st k = (Inr r, db') \<Longrightarrow>
      if pg_stat db s = Some Running then pg_stat db' s = Some st \<and> map_option fst r = Some st
      else r = None \<and> db' = db"
    using F(4) [of r] f by (auto simp: pg_fin_def)
  show "pg_rep db s = Inr evs \<Longrightarrow> map payload evs = pg_log db s"
    "pg_rep db s = Inr evs \<Longrightarrow> map seq evs = [1..int (length evs)]"
    unfolding pg_rep_def using pg_replay_ok [OF ok] by auto
qed

section \<open>Properties\<close>

text \<open>
  C8: whatever appends and finishes any clients issue on the Postgres store, and whether each
  commits, fails or loses its reply, every session's log only grows at its end, is replayed with the
  sequence numbers 1, 2, ... without a gap, and a terminal status is never left.
\<close>

theorem pg_log_append_only:
  assumes "(store_step pg_app pg_fin)\<^sup>*\<^sup>* db db'" "pg_ok db"
  shows "prefix (pg_log db s) (pg_log db' s) \<and>
    (\<forall>st. pg_stat db s = Some st \<and> st \<noteq> Running \<longrightarrow> pg_stat db' s = Some st) \<and>
    (\<exists>evs. pg_replay db' s Commits = Inr evs \<and> map payload evs = pg_log db' s \<and>
      map seq evs = [1..int (length (pg_log db' s))])"
proof -
  have ok: "pg_ok db'" using pg.run_mono [OF assms] by blast
  obtain evs where evs: "pg_replay db' s Commits = Inr evs"
    by (simp add: pg_replay_def)
  then have "map payload evs = pg_log db' s" "map seq evs = [1..int (length evs)]"
    using pg.rep_log [OF ok, of s evs] pg.rep_seq [OF ok, of s evs] by (simp_all add: pg_rep_def)
  then show ?thesis
    using pg.run_mono [OF assms, of s] evs by (metis length_map)
qed

theorem pg_log_append_only_witness:
  "prefix (pg_log (tables [\<lparr>row_id = ''s'', row_workflow_id = [], row_tenant_id = [],
      row_status = ''running'', row_started_at = [], row_ended_at = None\<rparr>] []) ''s'')
    (pg_log (snd (pg_app (tables [\<lparr>row_id = ''s'', row_workflow_id = [], row_tenant_id = [],
      row_status = ''running'', row_started_at = [], row_ended_at = None\<rparr>] []) ''s''
      JNull (''e'', [], Commits))) ''s'')"
proof -
  let ?db = "(tables [\<lparr>row_id = ''s'', row_workflow_id = [], row_tenant_id = [],
      row_status = ''running'', row_started_at = [], row_ended_at = None\<rparr>] [])"
  have "(store_step pg_app pg_fin)\<^sup>*\<^sup>* ?db (snd (pg_app ?db ''s'' JNull (''e'', [], Commits)))"
    by (rule r_into_rtranclp) (unfold store_step_def, blast)
  moreover have "pg_ok ?db"
    by (simp add: pg_ok_def events_of_def)
  ultimately show ?thesis
    using pg_log_append_only by blast
qed

text \<open>
  finishing a session moves a running session to the status asked for, in the row and in the
  handle, and is a no-op on one that is already terminal: the first terminal status wins.
\<close>

theorem session_finish_once:
  assumes "pg_ok db" "session_finish db s st now reply = (Inr (), s', db')"
  shows "if pg_stat db (session_id s) = Some Running
    then pg_stat db' (session_id s) = Some st \<and> status s' = st
    else s' = s \<and> db' = db"
proof (cases "pg_finish_session db (session_id s) st now reply")
  case (Pair r db2)
  then have "pg_fin db (session_id s) st ([], now, reply) = (r, db2)" by (simp add: pg_fin_def)
  with Pair assms show ?thesis
    using pg.fin_ok [OF assms(1), of "session_id s" st "([], now, reply)"]
    by (auto simp: session_finish_def split: sum.splits option.splits if_splits)
qed

theorem session_finish_once_witness:
  "pg_stat (snd (snd (session_finish (tables [\<lparr>row_id = ''s'', row_workflow_id = [],
      row_tenant_id = [], row_status = ''failed'', row_started_at = [], row_ended_at = None\<rparr>] []) \<lparr>session_id = ''s'', session_workflow_id = [], session_tenant_id = [],
      status = Running, session_started_at = [], ended_at = None\<rparr> Completed [] Commits))) ''s'' = Some Failed"
proof -
  let ?db = "(tables [\<lparr>row_id = ''s'', row_workflow_id = [],
      row_tenant_id = [], row_status = ''failed'', row_started_at = [], row_ended_at = None\<rparr>] [])"
  let ?s = "\<lparr>session_id = ''s'', session_workflow_id = [], session_tenant_id = [],
      status = Running, session_started_at = [], ended_at = None\<rparr>"
  have ok: "pg_ok ?db"
    by (simp add: pg_ok_def events_of_def) (metis status_str.simps(3))
  have st: "pg_stat ?db ''s'' = Some Failed"
    by (simp add: pg_stat_def find_session_def row_stat_def status_from_db_def)
  obtain s' db' where r: "session_finish ?db ?s Completed [] Commits = (Inr (), s', db')"
    by (simp add: session_finish_def pg_finish_session_def)
  then show ?thesis using session_finish_once [OF ok r] st by simp
qed

end
