(* ===== verification/Progress.thy ===== *)
theory Progress
  imports SessionLog
begin

text \<open>
  \<open>compute_progress\<close> of \<open>crates/stepyard-harness/src/engine.rs\<close>: the scan that rebuilds
  everything the engine knows between two steps from the payloads of the session log. A
  \<open>HashMap\<close> it fills is a map; a payload that cannot be decoded is an \<open>InvalidState\<close>
  (without the text \<open>serde_json\<close> appends to the message).
\<close>

section \<open>The scan\<close>

record Progress =
  completed_steps :: nat
  has_failure :: bool
  last_failed_step :: "string option"
  workflow_completed :: bool
  outputs :: "string \<rightharpoonup> StepOutputSnapshot"
  agent_session_ids :: "string \<rightharpoonup> string"
  first_agent_session_id :: "string option"
  chat_sessions :: "string \<rightharpoonup> ChatMessage list"

text \<open>The accumulator of the loop: the result under construction and the staged chat turns.\<close>

record Scan = Progress +
  pending_chat_turns :: "string \<rightharpoonup> (string \<times> ChatMessage) list"

definition scan0 :: Scan where
  "scan0 = \<lparr>completed_steps = 0, has_failure = False, last_failed_step = None,
    workflow_completed = False, outputs = Map.empty, agent_session_ids = Map.empty,
    first_agent_session_id = None, chat_sessions = Map.empty, pending_chat_turns = Map.empty\<rparr>"

definition map_remove :: "('k \<rightharpoonup> 'v) \<Rightarrow> 'k \<Rightarrow> ('k \<rightharpoonup> 'v)" where
  "map_remove m k = m(k := None)"

text \<open>\<open>entry(k).or_default().push(x)\<close>\<close>

definition push_turn :: "('k \<rightharpoonup> 'a list) \<Rightarrow> 'k \<Rightarrow> 'a \<Rightarrow> ('k \<rightharpoonup> 'a list)" where
  "push_turn m k x = m(k \<mapsto> (case m k of None \<Rightarrow> [] | Some xs \<Rightarrow> xs) @ [x])"

definition drain_turns ::
  "(string \<times> ChatMessage) list \<Rightarrow> (string \<rightharpoonup> ChatMessage list) \<Rightarrow> (string \<rightharpoonup> ChatMessage list)" where
  "drain_turns turns m = foldl (\<lambda>m (session, msg). push_turn m session msg) m turns"

definition read_snapshot :: "string \<Rightarrow> json \<Rightarrow> (EngineError, StepOutputSnapshot option) result" where
  "read_snapshot msg p =
    (case jget p ''output'' of
       None \<Rightarrow> Inr None
     | Some JNull \<Rightarrow> Inr None
     | Some raw \<Rightarrow>
       (case snapshot_from raw of
          None \<Rightarrow> Inl (InvalidState msg)
        | Some s \<Rightarrow> Inr (Some s)))"

definition read_session_id :: "json \<Rightarrow> (EngineError, string option) result" where
  "read_session_id p =
    (case jget p ''agent_session_id'' of
       None \<Rightarrow> Inr None
     | Some JNull \<Rightarrow> Inr None
     | Some raw \<Rightarrow>
       (case as_str raw of
          None \<Rightarrow> Inl (InvalidState
            ''step_completed log entry has malformed `agent_session_id` payload'')
        | Some s \<Rightarrow> Inr (Some s)))"

definition is_scoped :: "json \<Rightarrow> bool" where
  "is_scoped p = (case jget p ''scope_context'' of None \<Rightarrow> False | Some v \<Rightarrow> \<not> is_null v)"

definition scan_output :: "string \<Rightarrow> StepOutputSnapshot option \<Rightarrow> Scan \<Rightarrow> Scan" where
  "scan_output name snapshot a =
    (case snapshot of None \<Rightarrow> a | Some s \<Rightarrow> a\<lparr>outputs := (outputs a)(name \<mapsto> s)\<rparr>)"

definition scan_commit_chat :: "string \<Rightarrow> string option \<Rightarrow> Scan \<Rightarrow> Scan" where
  "scan_commit_chat name step_type a =
    (if step_type = Some ''chat'' then
       (case pending_chat_turns a name of
          None \<Rightarrow> a
        | Some turns \<Rightarrow> a\<lparr>pending_chat_turns := map_remove (pending_chat_turns a) name,
            chat_sessions := drain_turns turns (chat_sessions a)\<rparr>)
     else a)"

definition scan_session_id :: "string \<Rightarrow> string option \<Rightarrow> Scan \<Rightarrow> Scan" where
  "scan_session_id name captured a =
    (case captured of
       None \<Rightarrow> a
     | Some i \<Rightarrow> a\<lparr>first_agent_session_id :=
           (case first_agent_session_id a of None \<Rightarrow> Some i | Some j \<Rightarrow> Some j),
         agent_session_ids := (agent_session_ids a)(name \<mapsto> i)\<rparr>)"

text \<open>The arm \<open>"step_completed"\<close>.\<close>

definition scan_completed :: "json \<Rightarrow> Scan \<Rightarrow> (EngineError, Scan) result" where
  "scan_completed p a =
    (if is_scoped p then Inr a
     else
       (let a1 = a\<lparr>completed_steps := completed_steps a + 1\<rparr> in
        res_bind (read_snapshot ''step_completed log entry has malformed `output` payload'' p)
          (\<lambda>snapshot. res_bind (read_session_id p) (\<lambda>captured.
             (case jget_str p ''step_name'' of
                None \<Rightarrow> Inr a1
              | Some name \<Rightarrow> Inr (scan_session_id name captured
                  (scan_commit_chat name (jget_str p ''step_type'') (scan_output name snapshot a1))))))))"

text \<open>The arm \<open>"chat_message_appended"\<close>.\<close>

definition scan_chat :: "json \<Rightarrow> Scan \<Rightarrow> (EngineError, Scan) result" where
  "scan_chat p a =
    (case jget_str p ''step_name'' of
       None \<Rightarrow> Inl (InvalidState
         ''chat_message_appended log entry is missing or has malformed `step_name`'')
     | Some step_name \<Rightarrow>
       (case jget_str p ''session'' of
          None \<Rightarrow> Inl (InvalidState
            ''chat_message_appended log entry is missing or has malformed `session`'')
        | Some session \<Rightarrow>
          (case jget p ''role'' of
             None \<Rightarrow> Inl (InvalidState ''chat_message_appended log entry is missing `role`'')
           | Some role_raw \<Rightarrow>
             (case jget p ''content'' of
                None \<Rightarrow> Inl (InvalidState ''chat_message_appended log entry is missing `content`'')
              | Some content_raw \<Rightarrow>
                (case message_from role_raw content_raw of
                   None \<Rightarrow> Inl (InvalidState
                     ''chat_message_appended log entry has malformed `role`/`content` payload'')
                 | Some m \<Rightarrow> Inr (a\<lparr>pending_chat_turns :=
                     push_turn (pending_chat_turns a) step_name (session, m)\<rparr>))))))"

text \<open>One iteration of the loop.\<close>

definition scan_event :: "json \<Rightarrow> Scan \<Rightarrow> (EngineError, Scan) result" where
  "scan_event p a =
    (case tag_of p of
       None \<Rightarrow> Inr a
     | Some tag \<Rightarrow>
       if tag = ''workflow_completed'' \<or> tag = ''completion_signaled'' then
         Inr (a\<lparr>workflow_completed := True\<rparr>)
       else if tag = ''step_started'' then
         (case jget_str p ''step_name'' of
            None \<Rightarrow> Inr a
          | Some name \<Rightarrow> Inr (a\<lparr>pending_chat_turns := map_remove (pending_chat_turns a) name\<rparr>))
       else if tag = ''step_completed'' then scan_completed p a
       else if tag = ''step_failed'' then
         (let name = jget_str p ''step_name'' in
          Inr (a\<lparr>has_failure := True, last_failed_step := name,
            pending_chat_turns := (case name of None \<Rightarrow> pending_chat_turns a
              | Some n \<Rightarrow> map_remove (pending_chat_turns a) n)\<rparr>))
       else if tag = ''chat_message_appended'' then scan_chat p a
       else Inr a)"

fun scan_events :: "json list \<Rightarrow> Scan \<Rightarrow> (EngineError, Scan) result" where
  "scan_events [] a = Inr a"
| "scan_events (p # ps) a = res_bind (scan_event p a) (scan_events ps)"

definition progress_of :: "Scan \<Rightarrow> Progress" where
  "progress_of a = \<lparr>completed_steps = completed_steps a, has_failure = has_failure a,
    last_failed_step = last_failed_step a, workflow_completed = workflow_completed a,
    outputs = outputs a, agent_session_ids = agent_session_ids a,
    first_agent_session_id = first_agent_session_id a, chat_sessions = chat_sessions a\<rparr>"

definition compute_progress :: "json list \<Rightarrow> (EngineError, Progress) result" where
  "compute_progress evs = res_bind (scan_events evs scan0) (\<lambda>a. Inr (progress_of a))"

lemma scan_events_append:
  "scan_events (xs @ ys) a = res_bind (scan_events xs a) (scan_events ys)"
proof (induction xs arbitrary: a)
  case (Cons x xs)
  then show ?case by (cases "scan_event x a") simp_all
qed simp

lemma scan_events_snoc:
  "scan_events (xs @ [y]) a = res_bind (scan_events xs a) (scan_event y)"
  by (cases "scan_events xs a"; cases "scan_event y (projr (scan_events xs a))")
    (simp_all add: scan_events_append)

section \<open>What the scan means\<close>

text \<open>
  The reading of a typed log: what each event the engine writes means for the next step. It
  mentions no JSON, and no event of it can fail.
\<close>

fun note_event :: "Event \<Rightarrow> Scan \<Rightarrow> Scan" where
  "note_event (WorkflowCompleted d ts) a = a\<lparr>workflow_completed := True\<rparr>"
| "note_event (CompletionSignaled i s) a = a\<lparr>workflow_completed := True\<rparr>"
| "note_event (StepStarted n t ts sc) a =
    a\<lparr>pending_chat_turns := map_remove (pending_chat_turns a) n\<rparr>"
| "note_event (StepCompleted n t d ts it ot c sb out None go sid) a =
    scan_session_id n sid (scan_commit_chat n (Some t) (scan_output n out
      (a\<lparr>completed_steps := completed_steps a + 1\<rparr>)))"
| "note_event (StepCompleted n t d ts it ot c sb out (Some sc) go sid) a = a"
| "note_event (StepFailed n t e d ts sb) a =
    a\<lparr>has_failure := True, last_failed_step := Some n,
      pending_chat_turns := map_remove (pending_chat_turns a) n\<rparr>"
| "note_event (ChatMessageAppended n s r c ts) a =
    a\<lparr>pending_chat_turns := push_turn (pending_chat_turns a) n (s, \<lparr>role = r, content = c\<rparr>)\<rparr>"
| "note_event _ a = a"

lemma snapshot_json_obj: "\<exists>fs. snapshot_json s = JObj fs"
  by (simp add: snapshot_json_def)

lemma read_snapshot_wire:
  "jget p ''output'' = map_option snapshot_json out \<Longrightarrow> read_snapshot m p = Inr out"
proof (cases out)
  case (Some s)
  moreover obtain fs where "snapshot_json s = JObj fs" using snapshot_json_obj by blast
  moreover assume "jget p ''output'' = map_option snapshot_json out"
  ultimately show ?thesis
    using snapshot_codec.dec_enc [of s] by (simp add: read_snapshot_def del: snapshot_from.simps)
qed (simp add: read_snapshot_def)

lemma scan_event_wire: "scan_event (event_json ev) a = Inr (note_event ev a)"
proof (cases ev)
  case (StepCompleted n t d ts it ot c sb out sc go sd)
  have "read_snapshot m (event_json ev) = Inr out" for m
    by (rule read_snapshot_wire) (simp add: StepCompleted map_add_def split: option.split)
  moreover have "read_session_id (event_json ev) = Inr sd"
    by (cases sd) (simp_all add: StepCompleted read_session_id_def map_add_def split: option.split)
  moreover have "is_scoped (event_json ev) = (sc \<noteq> None)"
    by (cases sc) (simp_all add: StepCompleted is_scoped_def map_add_def)
  moreover have "jget_str (event_json ev) ''step_name'' = Some n"
      "jget_str (event_json ev) ''step_type'' = Some t" "tag_of (event_json ev) = Some ''step_completed''"
    by (simp_all add: StepCompleted jget_str_def map_add_def)
  ultimately have "scan_event (event_json ev) a = (if sc \<noteq> None then Inr a else
      Inr (scan_session_id n sd (scan_commit_chat n (Some t) (scan_output n out
      (a\<lparr>completed_steps := completed_steps a + 1\<rparr>)))))"
    by (simp add: scan_event_def scan_completed_def del: event_json.simps)
  then show ?thesis by (cases sc) (simp_all add: StepCompleted)
qed (simp_all add: scan_event_def jget_str_def scan_chat_def)

lemma scan_events_wire:
  "scan_events (map event_json evs) a = Inr (fold note_event evs a)"
  by (induction evs arbitrary: a) (simp_all add: scan_event_wire)

section \<open>Facts the engine's proofs use\<close>

definition n_completed :: "json list \<Rightarrow> nat" where
  "n_completed ps = length (filter (\<lambda>p. tag_of p = Some ''step_completed'' \<and> \<not> is_scoped p) ps)"

definition any_failed :: "json list \<Rightarrow> bool" where
  "any_failed ps \<longleftrightarrow> (\<exists>p \<in> set ps. tag_of p = Some ''step_failed'')"

definition any_done :: "json list \<Rightarrow> bool" where
  "any_done ps \<longleftrightarrow> (\<exists>p \<in> set ps. tag_of p = Some ''workflow_completed'' \<or> tag_of p = Some ''completion_signaled'')"

text \<open>A payload on which no state of the scan fails.\<close>

definition scan_ok :: "json \<Rightarrow> bool" where
  "scan_ok p \<longleftrightarrow> (\<forall>a. \<exists>a'. scan_event p a = Inr a')"

lemma scan_ok_wire: "scan_ok (event_json ev)"
  by (simp add: scan_ok_def scan_event_wire)

lemma scan_sub_simps [simp]:
  "completed_steps (scan_output n s a) = completed_steps a"
  "has_failure (scan_output n s a) = has_failure a"
  "workflow_completed (scan_output n s a) = workflow_completed a"
  "completed_steps (scan_commit_chat n t a) = completed_steps a"
  "has_failure (scan_commit_chat n t a) = has_failure a"
  "workflow_completed (scan_commit_chat n t a) = workflow_completed a"
  "completed_steps (scan_session_id n i a) = completed_steps a"
  "has_failure (scan_session_id n i a) = has_failure a"
  "workflow_completed (scan_session_id n i a) = workflow_completed a"
  by (simp_all add: scan_output_def scan_commit_chat_def scan_session_id_def split: option.split)

lemma scan_event_counts:
  assumes "scan_event p a = Inr a'"
  shows "completed_steps a' = completed_steps a + n_completed [p]"
    and "has_failure a' \<longleftrightarrow> has_failure a \<or> any_failed [p]"
    and "workflow_completed a' \<longleftrightarrow> workflow_completed a \<or> any_done [p]"
  using assms
  by (auto simp: scan_event_def scan_completed_def scan_chat_def n_completed_def any_failed_def
      any_done_def Let_def res_bind_Ok_iff split: option.splits if_splits)

lemma n_completed_simps [simp]:
  "n_completed [] = 0" "n_completed (ps @ qs) = n_completed ps + n_completed qs"
  by (simp_all add: n_completed_def)

lemma any_failed_simps [simp]:
  "\<not> any_failed []" "any_failed (ps @ qs) \<longleftrightarrow> any_failed ps \<or> any_failed qs"
  by (auto simp: any_failed_def)

lemma any_done_simps [simp]:
  "\<not> any_done []" "any_done (ps @ qs) \<longleftrightarrow> any_done ps \<or> any_done qs"
  by (auto simp: any_done_def)

lemma scan_events_counts:
  "scan_events ps a = Inr a' \<Longrightarrow> completed_steps a' = completed_steps a + n_completed ps \<and>
    (has_failure a' \<longleftrightarrow> has_failure a \<or> any_failed ps) \<and>
    (workflow_completed a' \<longleftrightarrow> workflow_completed a \<or> any_done ps)"
proof (induction ps arbitrary: a)
  case (Cons p ps)
  then obtain b where b: "scan_event p a = Inr b" "scan_events ps b = Inr a'"
    by (auto simp: res_bind_Ok_iff)
  note c = scan_event_counts [OF b(1)] Cons.IH [OF b(2)]
  show ?case
    using c n_completed_simps(2) [of "[p]" ps] any_failed_simps(2) [of "[p]" ps] any_done_simps(2) [of "[p]" ps]
    by simp
qed simp

lemma compute_progress_counts:
  "compute_progress ps = Inr P \<Longrightarrow> completed_steps P = n_completed ps \<and>
    (has_failure P \<longleftrightarrow> any_failed ps) \<and> (workflow_completed P \<longleftrightarrow> any_done ps)"
  by (auto simp: compute_progress_def res_bind_Ok_iff progress_of_def scan0_def dest!: scan_events_counts)

lemma scan_ok_list: "list_all scan_ok ps \<Longrightarrow> \<exists>a'. scan_events ps a = Inr a'"
proof (induction ps arbitrary: a)
  case (Cons p ps)
  then obtain b where "scan_event p a = Inr b" by (auto simp: scan_ok_def)
  with Cons show ?case by simp
qed simp

lemma compute_progress_total: "list_all scan_ok ps \<Longrightarrow> \<exists>P. compute_progress ps = Inr P"
  using scan_ok_list [of ps scan0] by (auto simp: compute_progress_def)

text \<open>An attempt of a chat step, as it stands in the log: its start and the turns it staged.\<close>

definition chat_attempt :: "string \<Rightarrow> timestamp \<Rightarrow> (string \<times> ChatMessage) list \<Rightarrow> Event list" where
  "chat_attempt n ts turns = StepStarted n ''chat'' ts None #
    map (\<lambda>(s, m). ChatMessageAppended n s (role m) (content m) ts) turns"

lemma message_eta [simp]: "\<lparr>role = role m, content = content m\<rparr> = (m :: ChatMessage)"
  by simp

definition stage_turns :: "('k \<rightharpoonup> 'a list) \<Rightarrow> 'k \<Rightarrow> 'a list \<Rightarrow> ('k \<rightharpoonup> 'a list)" where
  "stage_turns m n turns = (if turns = [] then m
     else m(n \<mapsto> (case m n of None \<Rightarrow> [] | Some xs \<Rightarrow> xs) @ turns))"

lemma stage_push: "stage_turns (push_turn m n t) n turns = stage_turns m n (t # turns)"
  by (simp add: stage_turns_def push_turn_def)

lemma fold_turns:
  "fold note_event (map (\<lambda>(s, m). ChatMessageAppended n s (role m) (content m) ts) turns) a =
    a\<lparr>pending_chat_turns := stage_turns (pending_chat_turns a) n turns\<rparr>"
proof (induction turns arbitrary: a)
  case (Cons t turns)
  obtain s m where t: "t = (s, m)" by (cases t)
  show ?case
    using Cons.IH [of "a\<lparr>pending_chat_turns := push_turn (pending_chat_turns a) n (s, m)\<rparr>"]
    by (simp add: t stage_push)
qed (simp add: stage_turns_def)

lemma fold_attempt:
  "fold note_event (chat_attempt n ts turns) a =
    a\<lparr>pending_chat_turns := stage_turns (map_remove (pending_chat_turns a) n) n turns\<rparr>"
  by (simp add: chat_attempt_def fold_turns)

lemma stage_removed: "stage_turns (map_remove m n) n turns n = (if turns = [] then None else Some turns)"
  by (simp add: stage_turns_def map_remove_def)

section \<open>Properties\<close>

text \<open>
  C9: replay is a refinement of the typed log. On a log of events the engine itself writes, reading
  the JSON back never fails and yields exactly the state the typed events mean: scoped completions
  do not count, and outputs, session ids and chat turns are those of the events.
\<close>

theorem compute_progress_refines:
  "compute_progress (map event_json evs) = Inr (progress_of (fold note_event evs scan0))"
  by (simp add: compute_progress_def scan_events_wire)

text \<open>
  Chat history is committed by the step's completion and by nothing else. The turns of an
  attempt enter the history, in order, exactly when the attempt's completion is logged; after a
  failure, or after a crash and the next start of the step, the history is what it was before.
\<close>

theorem chat_history_atomic:
  assumes "compute_progress (map event_json evs) = Inr P"
  shows "map_option chat_sessions (case compute_progress (map event_json (evs @ chat_attempt n ts turns @
        [StepCompleted n ''chat'' d ts it ot c sb None None None None])) of Inl _ \<Rightarrow> None | Inr Q \<Rightarrow> Some Q) =
      Some (drain_turns turns (chat_sessions P)) \<and>
    (\<forall>ev \<in> {StepFailed n ''chat'' e d ts sb, StepStarted n ''chat'' ts None}.
      map_option chat_sessions (case compute_progress (map event_json (evs @ chat_attempt n ts turns @ [ev]))
        of Inl _ \<Rightarrow> None | Inr Q \<Rightarrow> Some Q) = Some (chat_sessions P))"
proof -
  have P: "P = progress_of (fold note_event evs scan0)"
    using assms by (simp add: compute_progress_def scan_events_wire)
  have run: "compute_progress (map event_json (evs @ chat_attempt n ts turns @ [ev])) =
      Inr (progress_of (note_event ev (fold note_event (chat_attempt n ts turns) (fold note_event evs scan0))))"
    for ev
    by (simp only: compute_progress_def scan_events_wire fold_append comp_apply res_bind_simps) simp
  show ?thesis
    by (simp add: run fold_attempt P progress_of_def scan_session_id_def scan_commit_chat_def
        scan_output_def drain_turns_def stage_removed del: event_json.simps map_append)
qed

theorem chat_history_atomic_witness:
  "map_option chat_sessions (case compute_progress (map event_json
      (chat_attempt ''c'' ''t'' [(''main'', \<lparr>role = User, content = ''hi''\<rparr>)] @
        [StepCompleted ''c'' ''chat'' 1 ''t'' None None None False None None None None]))
      of Inl _ \<Rightarrow> None | Inr Q \<Rightarrow> Some Q) =
    Some [''main'' \<mapsto> [\<lparr>role = User, content = ''hi''\<rparr>]]"
  using chat_history_atomic [of "[]" "progress_of scan0" "''c''" "''t''"
      "[(''main'', \<lparr>role = User, content = ''hi''\<rparr>)]" 1 None None None False "[]"]
  by (simp add: compute_progress_def drain_turns_def push_turn_def progress_of_def scan0_def)

end
