(* ===== verification/Render.thy ===== *)
theory Render
  imports Events
begin

text \<open>
  Rendering in \<open>crates/stepyard-harness/src\<close>: the context a template sees (\<open>render.rs\<close>), the
  file a template step reads (\<open>template_exec.rs\<close>) and the snapshot a script step reads
  (\<open>script_exec.rs\<close>). Tera, Rhai and the file system are parameters.
\<close>

section \<open>render.rs\<close>

record ScopeView =
  sv_value :: json
  sv_index :: nat

record StepView =
  v_stdout :: string
  v_stderr :: string
  v_exit_code :: "32 word"
  v_response :: string

record RenderContext =
  rc_steps :: "string \<rightharpoonup> StepOutputSnapshot"
  rc_target :: string
  rc_vars :: "(string \<times> string) list"
  rc_scope :: "ScopeView option"

record TeraContext =
  t_steps :: "string \<rightharpoonup> StepView"
  t_target :: string
  t_vars :: "(string \<times> string) list"
  t_args :: "(string \<times> string) list"
  t_scope :: "ScopeView option"

text \<open>A Tera failure is its message followed by the messages of its sources.\<close>

type_synonym tera = "string \<Rightarrow> TeraContext \<Rightarrow> (string list, string) result"

definition contains_template_markers :: "string \<Rightarrow> bool" where
  "contains_template_markers s \<longleftrightarrow>
     str_contains s ''{{'' \<or> str_contains s ''{%'' \<or> str_contains s ''{#''"

definition error_chain :: "string list \<Rightarrow> string" where
  "error_chain es = join '': '' es"

datatype RenderError = Tera string

fun show_render_error :: "RenderError \<Rightarrow> string" where
  "show_render_error (Tera m) = ''template render failed: '' @ m"

definition step_view :: "StepOutputSnapshot \<Rightarrow> StepView" where
  "step_view s = \<lparr>v_stdout = stdout s, v_stderr = stderr s, v_exit_code = exit_code s,
    v_response = stdout s\<rparr>"

definition render :: "tera \<Rightarrow> string \<Rightarrow> RenderContext \<Rightarrow> (RenderError, string) result" where
  "render tera template ctx =
    map_err (\<lambda>es. Tera (error_chain es))
      (tera template \<lparr>t_steps = (\<lambda>n. map_option step_view (rc_steps ctx n)), t_target = rc_target ctx,
        t_vars = rc_vars ctx, t_args = rc_vars ctx, t_scope = rc_scope ctx\<rparr>)"

section \<open>template_exec.rs\<close>

datatype TemplateExecError =
    PromptRender string
  | UnsafePath string
  | FileNotFound string string
  | ContentRender string

fun show_template_exec_error :: "TemplateExecError \<Rightarrow> string" where
  "show_template_exec_error (PromptRender m) = ''template prompt render failed: '' @ m"
| "show_template_exec_error (UnsafePath p) = ''template prompt `'' @ p @
    ''` rejected: must be a relative path (no absolute paths, no `..` components)''"
| "show_template_exec_error (FileNotFound p e) = ''template file `'' @ p @ ''` not found: '' @ e"
| "show_template_exec_error (ContentRender m) = ''template content render failed: '' @ m"

definition DEFAULT_PROMPTS_DIR :: string where
  "DEFAULT_PROMPTS_DIR = ''prompts''"

text \<open>\<open>Path::components\<close> of a relative Unix path: empty and inner \<open>.\<close> components vanish.\<close>

fun split_slash :: "string \<Rightarrow> string list" where
  "split_slash [] = [[]]"
| "split_slash (c # s) =
    (if c = CHR ''/'' then [] # split_slash s
     else (case split_slash s of [] \<Rightarrow> [[c]] | w # ws \<Rightarrow> (c # w) # ws))"

definition components :: "string \<Rightarrow> string list" where
  "components p = filter (\<lambda>w. w \<noteq> [] \<and> w \<noteq> ''.'') (split_slash p)"

definition is_absolute :: "string \<Rightarrow> bool" where
  "is_absolute p \<longleftrightarrow> starts_with p ''/''"

text \<open>\<open>Path::join\<close> with a relative path.\<close>

definition path_join :: "string \<Rightarrow> string \<Rightarrow> string" where
  "path_join base p = (if base \<noteq> [] \<and> last base \<noteq> CHR ''/'' then base @ ''/'' @ p else base @ p)"

text \<open>The same with any path: an absolute one replaces the base.\<close>

definition join_path :: "string \<Rightarrow> string \<Rightarrow> string" where
  "join_path base p = (if is_absolute p then p else path_join base p)"

definition resolve_template_path :: "string \<Rightarrow> string \<Rightarrow> (TemplateExecError, string) result" where
  "resolve_template_path prompts_dir rendered_prompt =
    (if is_absolute rendered_prompt then Inl (UnsafePath rendered_prompt)
     else if ''..'' \<in> set (components rendered_prompt) then Inl (UnsafePath rendered_prompt)
     else Inr (path_join prompts_dir (rendered_prompt @ ''.md.tera'')))"

text \<open>
  A canonical path is its list of components. \<open>canon\<close> is \<open>fs::canonicalize\<close>, \<open>read\<close> is
  \<open>fs::read_to_string\<close>, each as it answers at that moment.
\<close>

type_synonym canon = "string \<Rightarrow> (string, string list) result"
type_synonym reader = "string list \<Rightarrow> (string, string) result"

definition display_path :: "string list \<Rightarrow> string" where
  "display_path ws = concat (map (\<lambda>w. ''/'' @ w) ws)"

definition canonicalize_template_path ::
  "canon \<Rightarrow> canon \<Rightarrow> string \<Rightarrow> string \<Rightarrow> (TemplateExecError, string list) result" where
  "canonicalize_template_path canon_path canon_base prompts_dir path =
    res_bind (map_err (FileNotFound path) (canon_path path)) (\<lambda>resolved.
    res_bind (map_err (FileNotFound prompts_dir) (canon_base prompts_dir)) (\<lambda>base.
    if \<not> prefix base resolved then Inl (UnsafePath path) else Inr resolved))"

definition render_template ::
  "tera \<Rightarrow> canon \<Rightarrow> canon \<Rightarrow> reader \<Rightarrow> string \<Rightarrow> string option \<Rightarrow> string \<Rightarrow> RenderContext \<Rightarrow>
    (TemplateExecError, string) result" where
  "render_template tera canon_path canon_base rd prompts_dir prompt_field fallback_name ctx =
    res_bind (case prompt_field of
        Some p \<Rightarrow> map_err (\<lambda>e. PromptRender (show_render_error e)) (render tera p ctx)
      | None \<Rightarrow> Inr fallback_name) (\<lambda>basename.
    res_bind (resolve_template_path prompts_dir basename) (\<lambda>path.
    res_bind (canonicalize_template_path canon_path canon_base prompts_dir path) (\<lambda>safe_path.
    res_bind (map_err (FileNotFound (display_path safe_path)) (rd safe_path)) (\<lambda>contents.
    map_err (\<lambda>e. ContentRender (show_render_error e)) (render tera contents ctx)))))"

section \<open>script_exec.rs\<close>

datatype ScriptExecError = MissingSource string | Eval string

fun show_script_exec_error :: "ScriptExecError \<Rightarrow> string" where
  "show_script_exec_error (MissingSource n) = ''script step `'' @ n @ ''` is missing its `run:` source''"
| "show_script_exec_error (Eval m) = ''script error: '' @ m"

text \<open>What a script evaluates to: unit, a string, or another value by its \<open>to_string\<close>.\<close>

datatype Dynamic = DUnit | DStr string | DOther string

type_synonym rhai = "(string \<rightharpoonup> json) \<Rightarrow> string \<Rightarrow> (string, Dynamic) result"

fun dynamic_to_string :: "Dynamic \<Rightarrow> string" where
  "dynamic_to_string DUnit = []"
| "dynamic_to_string (DStr s) = s"
| "dynamic_to_string (DOther s) = s"

text \<open>
  The map \<open>ctx_get\<close> reads: \<open>name.stdout\<close>, \<open>name.stderr\<close>, \<open>name.exit_code\<close> and \<open>target\<close>.
  Two insertions under one key cannot meet: a key fixes its step name and its field, and
  \<open>target\<close> is inserted last and holds no dot.
\<close>

definition suffixed :: "string \<Rightarrow> string \<Rightarrow> string option" where
  "suffixed key suf = (if ends_with key suf then Some (take (length key - length suf) key) else None)"

definition build_ctx_snapshot :: "(string \<rightharpoonup> StepOutputSnapshot) \<Rightarrow> string \<Rightarrow> (string \<rightharpoonup> json)" where
  "build_ctx_snapshot outs target key =
    (if key = ''target'' then Some (JStr target)
     else
       (case suffixed key ''.stdout'' of
          Some n \<Rightarrow> map_option (\<lambda>s. JStr (stdout s)) (outs n)
        | None \<Rightarrow>
          (case suffixed key ''.stderr'' of
             Some n \<Rightarrow> map_option (\<lambda>s. JStr (stderr s)) (outs n)
           | None \<Rightarrow>
             (case suffixed key ''.exit_code'' of
                Some n \<Rightarrow> map_option (\<lambda>s. JInt (sint (exit_code s))) (outs n)
              | None \<Rightarrow> None))))"

definition execute_script ::
  "rhai \<Rightarrow> string \<Rightarrow> string \<Rightarrow> (string \<rightharpoonup> StepOutputSnapshot) \<Rightarrow> string \<Rightarrow>
    (ScriptExecError, string) result" where
  "execute_script rhai step_name source outs target =
    (if trim source = [] then Inl (MissingSource step_name)
     else
       (case rhai (build_ctx_snapshot outs target) source of
          Inr v \<Rightarrow> Inr (dynamic_to_string v)
        | Inl e \<Rightarrow> Inl (Eval (''Script error: '' @ e))))"

section \<open>Properties\<close>

text \<open>
  C10: a template step never reads a file outside its prompts directory. Whatever the prompt renders
  to and wherever symbolic links lead, the path handed to the file system for reading lies, as a
  canonical path, below the canonical prompts directory; an absolute prompt or one with a \<open>..\<close>
  component is refused before the file system is asked at all.
\<close>

theorem template_reads_inside_prompts_dir:
  "(\<forall>rd'. (\<forall>p. \<not> (\<exists>base. canon_base dir = Inr base \<and> prefix base p) \<or> rd' p = rd p) \<longrightarrow>
      render_template tera canon_path canon_base rd' dir prompt name ctx =
      render_template tera canon_path canon_base rd dir prompt name ctx) \<and>
    (prompt = None \<and> (is_absolute name \<or> ''..'' \<in> set (components name)) \<longrightarrow>
      render_template tera canon_path canon_base rd dir prompt name ctx = Inl (UnsafePath name))"
proof (intro conjI allI impI)
  fix rd' assume same: "\<forall>p. \<not> (\<exists>base. canon_base dir = Inr base \<and> prefix base p) \<or> rd' p = rd p"
  have inside: "rd' r = rd r"
    if "canonicalize_template_path canon_path canon_base dir path = Inr r" for path r
    using that same by (auto simp: canonicalize_template_path_def res_bind_Ok_iff split: if_splits)
  show "render_template tera canon_path canon_base rd' dir prompt name ctx =
      render_template tera canon_path canon_base rd dir prompt name ctx"
    unfolding render_template_def
    by (rule arg_cong2 [of _ _ _ _ res_bind, OF refl], rule ext,
        rule arg_cong2 [of _ _ _ _ res_bind, OF refl], rule ext)
      (simp add: res_bind_def inside split: sum.split)
qed (auto simp: render_template_def resolve_template_path_def)

theorem template_reads_inside_prompts_dir_witness:
  "render_template (\<lambda>t c. Inr t) (\<lambda>p. Inr [p]) (\<lambda>p. Inr [p]) (\<lambda>p. Inr []) ''d'' None ''../x''
      \<lparr>rc_steps = Map.empty, rc_target = [], rc_vars = [], rc_scope = None\<rparr> = Inl (UnsafePath ''../x'')"
  using template_reads_inside_prompts_dir [of "\<lambda>p. Inr [p]" "''d''" "\<lambda>p. Inr []" "\<lambda>t c. Inr t"
      "\<lambda>p. Inr [p]" None "''../x''" "\<lparr>rc_steps = Map.empty, rc_target = [], rc_vars = [], rc_scope = None\<rparr>"]
  by (simp add: components_def)

end
