(* ===== verification/Replay.thy ===== *)
theory Replay
  imports Progress Render
begin

text \<open>
  What a container step reads from the session log, in \<open>crates/stepyard-harness/src/scope.rs\<close>:
  \<open>ContainerReplayState::rebuild\<close>, the outputs visible inside an iteration and at the top level,
  the completed positions of a \<open>parallel\<close>, a recovered output; and \<open>parse_items\<close>. Each is a
  function of the payloads of the log. A \<open>u64\<close> of the log is cast to \<open>u32\<close> as the source does.
\<close>

section \<open>Scoped completions\<close>

text \<open>
  The guards every scan starts with: a \<open>step_completed\<close> whose \<open>scope_context\<close> names the
  container gives its iteration and position; anything else is skipped.
\<close>

definition scoped_at :: "string \<Rightarrow> json \<Rightarrow> (nat \<times> nat) option" where
  "scoped_at cname p =
    (if tag_of p \<noteq> Some ''step_completed'' then None
     else
       (case jget_some p ''scope_context'' of
          None \<Rightarrow> None
        | Some sc \<Rightarrow>
          if jget_str sc ''container'' \<noteq> Some cname then None
          else
            (case (jget_u64 sc ''iteration'', jget_u64 sc ''position'') of
               (Some it, Some pos) \<Rightarrow> Some (as_u32 it, as_u32 pos)
             | _ \<Rightarrow> None)))"

text \<open>The output of a payload: absent, malformed, or a snapshot.\<close>

definition logged_output :: "string \<Rightarrow> json \<Rightarrow> (EngineError, StepOutputSnapshot option) result" where
  "logged_output msg p =
    (case jget_some p ''output'' of
       None \<Rightarrow> Inr None
     | Some raw \<Rightarrow>
       (case snapshot_from raw of None \<Rightarrow> Inl (InvalidState msg) | Some s \<Rightarrow> Inr (Some s)))"

definition malformed_output :: string where
  "malformed_output = ''scope replay: step_completed log entry has malformed `output` payload''"

section \<open>ContainerReplayState\<close>

record ContainerReplayState =
  next_iteration :: nat
  last_completed :: "(nat \<times> nat) option"
  broke :: bool
  last_output_per_iteration :: "nat \<rightharpoonup> StepOutputSnapshot"
  iteration_terminated_by_gate :: "nat set"

text \<open>The locals of \<open>rebuild\<close> beside the state: the positions seen and the lowest break.\<close>

record RebuildAcc = ContainerReplayState +
  iteration_positions :: "(nat \<times> bool list) list"
  break_iteration :: "nat option"

definition rebuild0 :: RebuildAcc where
  "rebuild0 = \<lparr>next_iteration = 0, last_completed = None, broke = False,
    last_output_per_iteration = Map.empty, iteration_terminated_by_gate = {},
    iteration_positions = [], break_iteration = None\<rparr>"

definition pair_less :: "nat \<times> nat \<Rightarrow> nat \<times> nat \<Rightarrow> bool" where
  "pair_less a b \<longleftrightarrow> fst a < fst b \<or> (fst a = fst b \<and> snd a < snd b)"

definition see_position :: "nat \<Rightarrow> nat \<Rightarrow> nat \<Rightarrow> RebuildAcc \<Rightarrow> RebuildAcc" where
  "see_position scope_len it pos a =
    (let seen = (case map_of (iteration_positions a) it of
           None \<Rightarrow> replicate scope_len False | Some v \<Rightarrow> v) in
     a\<lparr>iteration_positions := AList.update it
         (if pos < length seen then seen[pos := True] else seen) (iteration_positions a)\<rparr>)"

definition see_output :: "nat \<Rightarrow> StepOutputSnapshot option \<Rightarrow> RebuildAcc \<Rightarrow> RebuildAcc" where
  "see_output it out a =
    (case out of None \<Rightarrow> a
     | Some s \<Rightarrow> a\<lparr>last_output_per_iteration := (last_output_per_iteration a)(it \<mapsto> s)\<rparr>)"

definition see_furthest :: "nat \<Rightarrow> nat \<Rightarrow> RebuildAcc \<Rightarrow> RebuildAcc" where
  "see_furthest it pos a = a\<lparr>last_completed := Some
    (case last_completed a of
       None \<Rightarrow> (it, pos)
     | Some prev \<Rightarrow> if pair_less prev (it, pos) then (it, pos) else prev)\<rparr>"

definition see_gate :: "nat \<Rightarrow> string option \<Rightarrow> RebuildAcc \<Rightarrow> RebuildAcc" where
  "see_gate it go a =
    (if go = Some ''skip'' then
       a\<lparr>iteration_terminated_by_gate := insert it (iteration_terminated_by_gate a)\<rparr>
     else if go = Some ''break'' then
       a\<lparr>broke := True, break_iteration := Some
         (case break_iteration a of None \<Rightarrow> it | Some b \<Rightarrow> min b it)\<rparr>
     else a)"

text \<open>One iteration of the scan.\<close>

definition rebuild_event :: "string \<Rightarrow> nat \<Rightarrow> json \<Rightarrow> RebuildAcc \<Rightarrow> (EngineError, RebuildAcc) result" where
  "rebuild_event cname scope_len p a =
    (case scoped_at cname p of
       None \<Rightarrow> Inr a
     | Some (it, pos) \<Rightarrow>
       res_bind (logged_output malformed_output p) (\<lambda>out.
         Inr (see_gate it (jget_str p ''gate_outcome'')
           (see_furthest it pos (see_output it out (see_position scope_len it pos a))))))"

fun rebuild_scan :: "string \<Rightarrow> nat \<Rightarrow> json list \<Rightarrow> RebuildAcc \<Rightarrow> (EngineError, RebuildAcc) result" where
  "rebuild_scan cname n [] a = Inr a"
| "rebuild_scan cname n (p # ps) a = res_bind (rebuild_event cname n p a) (rebuild_scan cname n ps)"

text \<open>
  The walk over the iterations seen, in order. The counter is a \<open>u32\<close>: its increment panics at \<open>2 ^ 32\<close>,
  as a build with overflow checks does (a build without them wraps).
\<close>

definition overflow_panic :: string where
  "overflow_panic = ''attempt to add with overflow''"

primrec walk_iterations ::
  "nat option \<Rightarrow> (nat \<rightharpoonup> bool list) \<Rightarrow> nat set \<Rightarrow> nat list \<Rightarrow> nat \<Rightarrow> (EngineError, nat) result" where
  "walk_iterations brk seen skipped [] next = Inr next"
| "walk_iterations brk seen skipped (it # its) next =
    (if brk = Some it then Inr it
     else
       (case seen it of
          None \<Rightarrow> walk_iterations brk seen skipped its next
        | Some v \<Rightarrow>
          if list_all id v \<or> it \<in> skipped then
            (if it + 1 = 2 ^ 32 then Inl (Panic overflow_panic) else walk_iterations brk seen skipped its (it + 1))
          else Inr it))"

definition settle :: "RebuildAcc \<Rightarrow> (EngineError, ContainerReplayState) result" where
  "settle a =
    res_bind (walk_iterations (break_iteration a) (map_of (iteration_positions a))
        (iteration_terminated_by_gate a) (sort (map fst (iteration_positions a))) 0) (\<lambda>next. Inr
     \<lparr>next_iteration = (case break_iteration a of None \<Rightarrow> next | Some b \<Rightarrow> min next b),
      last_completed = last_completed a, broke = broke a,
      last_output_per_iteration = last_output_per_iteration a,
      iteration_terminated_by_gate = iteration_terminated_by_gate a\<rparr>)"

definition rebuild :: "string \<Rightarrow> nat \<Rightarrow> json list \<Rightarrow> (EngineError, ContainerReplayState) result" where
  "rebuild cname scope_len evs = res_bind (rebuild_scan cname scope_len evs rebuild0) settle"

section \<open>Outputs a container sees\<close>

fun in_iteration_scan ::
  "string \<Rightarrow> nat \<Rightarrow> nat \<Rightarrow> json list \<Rightarrow> (string \<rightharpoonup> StepOutputSnapshot) \<Rightarrow>
    (EngineError, string \<rightharpoonup> StepOutputSnapshot) result" where
  "in_iteration_scan cname it before [] outs = Inr outs"
| "in_iteration_scan cname it before (p # ps) outs =
    (case scoped_at cname p of
       None \<Rightarrow> in_iteration_scan cname it before ps outs
     | Some (i, pos) \<Rightarrow>
       if i \<noteq> it \<or> before \<le> pos then in_iteration_scan cname it before ps outs
       else
         (case jget_str p ''step_name'' of
            None \<Rightarrow> in_iteration_scan cname it before ps outs
          | Some n \<Rightarrow>
            res_bind (logged_output malformed_output p) (\<lambda>out.
              in_iteration_scan cname it before ps
                (case out of None \<Rightarrow> outs | Some s \<Rightarrow> outs(n \<mapsto> s)))))"

definition in_iteration_outputs ::
  "string \<Rightarrow> nat \<Rightarrow> nat \<Rightarrow> json list \<Rightarrow> (EngineError, string \<rightharpoonup> StepOutputSnapshot) result" where
  "in_iteration_outputs cname it before evs = in_iteration_scan cname it before evs Map.empty"

fun top_level_scan ::
  "json list \<Rightarrow> (string \<rightharpoonup> StepOutputSnapshot) \<Rightarrow> (EngineError, string \<rightharpoonup> StepOutputSnapshot) result" where
  "top_level_scan [] outs = Inr outs"
| "top_level_scan (p # ps) outs =
    (if tag_of p \<noteq> Some ''step_completed'' \<or> is_scoped p then top_level_scan ps outs
     else
       (case jget_str p ''step_name'' of
          None \<Rightarrow> top_level_scan ps outs
        | Some n \<Rightarrow>
          res_bind (logged_output malformed_output p) (\<lambda>out.
            top_level_scan ps (case out of None \<Rightarrow> outs | Some s \<Rightarrow> outs(n \<mapsto> s)))))"

definition top_level_outputs :: "json list \<Rightarrow> (EngineError, string \<rightharpoonup> StepOutputSnapshot) result" where
  "top_level_outputs evs = top_level_scan evs Map.empty"

definition parallel_completed_positions :: "string \<Rightarrow> json list \<Rightarrow> nat set" where
  "parallel_completed_positions cname evs =
    set (map snd (filter (\<lambda>x. fst x = 0) (List.map_filter (scoped_at cname) evs)))"

fun recover_logged_output ::
  "string \<Rightarrow> nat \<Rightarrow> nat \<Rightarrow> json list \<Rightarrow> (EngineError, StepOutputSnapshot option) result" where
  "recover_logged_output cname it pos [] = Inr None"
| "recover_logged_output cname it pos (p # ps) =
    (if scoped_at cname p \<noteq> Some (it, pos) then recover_logged_output cname it pos ps
     else res_bind (logged_output malformed_output p) (\<lambda>out.
       case out of None \<Rightarrow> recover_logged_output cname it pos ps | Some s \<Rightarrow> Inr (Some s)))"

section \<open>Items of a map\<close>

text \<open>\<open>str::lines\<close>: a line ends at a newline, which takes a carriage return before it along.\<close>

definition newline :: char where "newline = CHR 0x0A"
definition carriage_return :: char where "carriage_return = CHR 0x0D"

fun lines_from :: "string \<Rightarrow> string \<Rightarrow> string list" where
  "lines_from acc [] = (if acc = [] then [] else [rev acc])"
| "lines_from acc (c # s) =
    (if c = newline then
       rev (case acc of [] \<Rightarrow> [] | x # xs \<Rightarrow> if x = carriage_return then xs else x # xs) # lines_from [] s
     else lines_from (c # acc) s)"

definition str_lines :: "string \<Rightarrow> string list" where
  "str_lines s = lines_from [] s"

text \<open>\<open>parse\<close> and \<open>to_text\<close> are \<open>serde_json\<close>: the parser and \<open>Value::to_string\<close>.\<close>

definition item_text :: "(json \<Rightarrow> string) \<Rightarrow> json \<Rightarrow> string" where
  "item_text to_text v = (case v of JStr s \<Rightarrow> s | _ \<Rightarrow> to_text v)"

definition line_items :: "string \<Rightarrow> string list" where
  "line_items s = filter (\<lambda>l. trim l \<noteq> []) (str_lines s)"

definition parse_items :: "(string \<Rightarrow> json option) \<Rightarrow> (json \<Rightarrow> string) \<Rightarrow> string \<Rightarrow> string list" where
  "parse_items parse to_text rendered =
    (if starts_with (trim_start rendered) ''['' then
       (case parse rendered of
          Some (JArr vs) \<Rightarrow> map (item_text to_text) vs
        | _ \<Rightarrow> line_items rendered)
     else line_items rendered)"

end
