(* ===== verification/Gate.thy ===== *)
theory Gate
  imports Events
begin

text \<open>
  \<open>crates/stepyard-harness/src/gate.rs\<close>: the actions a gate step may name, the reading of its
  rendered condition and the branch it takes.
\<close>

datatype GateAction = ActContinue | ActFail | ActSkip | ActBreak

datatype GateError =
    MissingCondition string
  | UnsupportedAction string "string list"
  | NonBooleanCondition string string
  | GateFailed string string

definition ALLOWED_TOP_LEVEL :: "string list" where
  "ALLOWED_TOP_LEVEL = [''continue'', ''fail'']"

definition ALLOWED_SCOPED :: "string list" where
  "ALLOWED_SCOPED = [''continue'', ''fail'', ''skip'', ''break'']"

fun show_gate_error :: "GateError \<Rightarrow> string" where
  "show_gate_error (MissingCondition step) = ''gate step `'' @ step @ ''` is missing `condition:`''"
| "show_gate_error (UnsupportedAction got allowed) =
    ''gate action `'' @ got @ ''` not supported (allowed: '' @ join '', '' allowed @ '')''"
| "show_gate_error (NonBooleanCondition step val) =
    ''gate step `'' @ step @ ''` condition evaluated to `'' @ val @ ''` '' @ em_dash @
    '' expected a truthy/falsy token (true|false|1|0|yes|no|ok|fail)''"
| "show_gate_error (GateFailed step msg) = ''gate step `'' @ step @ ''` failed: '' @ msg"

definition parse_action :: "string option \<Rightarrow> (GateError, GateAction) result" where
  "parse_action raw =
    (case map_option trim raw of
       None \<Rightarrow> Inr ActContinue
     | Some s \<Rightarrow>
       if s = [] \<or> s = ''continue'' then Inr ActContinue
       else if s = ''fail'' then Inr ActFail
       else Inl (UnsupportedAction s ALLOWED_TOP_LEVEL))"

definition parse_scoped :: "string option \<Rightarrow> (GateError, GateAction) result" where
  "parse_scoped raw =
    (case map_option trim raw of
       None \<Rightarrow> Inr ActContinue
     | Some s \<Rightarrow>
       if s = [] \<or> s = ''continue'' then Inr ActContinue
       else if s = ''fail'' then Inr ActFail
       else if s = ''skip'' then Inr ActSkip
       else if s = ''break'' then Inr ActBreak
       else Inl (UnsupportedAction s ALLOWED_SCOPED))"

definition evaluate_bool :: "string \<Rightarrow> string \<Rightarrow> (GateError, bool) result" where
  "evaluate_bool step rendered =
    (let s = to_ascii_lowercase (trim rendered) in
     if s = ''true'' \<or> s = ''1'' \<or> s = ''yes'' \<or> s = ''ok'' then Inr True
     else if s = ''false'' \<or> s = ''0'' \<or> s = ''no'' \<or> s = ''fail'' then Inr False
     else Inl (NonBooleanCondition step s))"

datatype GateVerdict = VContinue | VSkip | VBreak | VFail string

definition outcome_for :: "bool \<Rightarrow> GateAction \<Rightarrow> GateAction \<Rightarrow> string option \<Rightarrow> GateVerdict" where
  "outcome_for passed on_pass on_fail msg =
    (case (if passed then on_pass else on_fail) of
       ActContinue \<Rightarrow> VContinue
     | ActSkip \<Rightarrow> VSkip
     | ActBreak \<Rightarrow> VBreak
     | ActFail \<Rightarrow> VFail (case msg of Some m \<Rightarrow> m
         | None \<Rightarrow> if passed then ''gate passed but on_pass=fail'' else ''gate failed''))"

section \<open>Lemmas\<close>

lemma parse_action_top: "parse_action raw = Inr a \<Longrightarrow> a = ActContinue \<or> a = ActFail"
  by (auto simp: parse_action_def split: option.splits if_splits)

lemma parse_scoped_extends: "parse_action raw = Inr a \<Longrightarrow> parse_scoped raw = Inr a"
  by (auto simp: parse_action_def parse_scoped_def split: option.splits if_splits)

text \<open>A top-level gate cannot skip or break: those words are refused when its actions are parsed.\<close>

lemma top_level_verdict:
  "parse_action p = Inr on_pass \<Longrightarrow> parse_action f = Inr on_fail \<Longrightarrow>
    outcome_for passed on_pass on_fail msg \<noteq> VSkip \<and> outcome_for passed on_pass on_fail msg \<noteq> VBreak"
  by (auto simp: outcome_for_def dest!: parse_action_top)

section \<open>Properties\<close>

text \<open>
  the two gate vocabularies agree where they overlap. What a top-level gate accepts a scoped
  gate accepts with the same meaning; the words only the scoped gate knows are \<open>skip\<close> and
  \<open>break\<close>; so a top-level gate either continues or fails, and it fails only when the branch its
  condition selects says \<open>fail\<close>.
\<close>

theorem gate_top_level_continue_or_fail:
  assumes "parse_action p = Inr on_pass" "parse_action f = Inr on_fail"
  shows "parse_scoped p = Inr on_pass \<and> parse_scoped f = Inr on_fail \<and>
    (outcome_for passed on_pass on_fail msg = VContinue \<or>
      (\<exists>m. outcome_for passed on_pass on_fail msg = VFail m)) \<and>
    ((\<exists>m. outcome_for passed on_pass on_fail msg = VFail m) \<longleftrightarrow>
      map_option trim (if passed then p else f) = Some ''fail'')"
  using assms parse_scoped_extends
  by (auto simp: outcome_for_def parse_action_def split: option.splits if_splits)

theorem gate_top_level_continue_or_fail_witness:
  "outcome_for False ActContinue ActFail (Some ''m'') = VFail ''m'' \<and> parse_scoped (Some '' fail '') = Inr ActFail"
proof -
  have "trim '' fail '' = ''fail''" by code_simp
  then have "parse_action None = Inr ActContinue" "parse_action (Some '' fail '') = Inr ActFail"
    by (simp_all add: parse_action_def)
  from gate_top_level_continue_or_fail [OF this, of False "Some ''m''"]
  show ?thesis by (simp add: outcome_for_def)
qed

end
