(* ===== verification/AgentExec.thy ===== *)
theory AgentExec
  imports Workflow Events
begin

text \<open>
  \<open>crates/stepyard-harness/src/agent_exec.rs\<close>: the command line of the agent CLI and its session
  rules, the reading of its \<open>stream-json\<close> output and the rule for its exit status; with
  \<open>ContainerHandle::exec_argv\<close> of \<open>stepyard-sandbox-orchestrator/src/container.rs\<close>. The child
  process and the JSON parser are parameters.
\<close>

section \<open>The command line\<close>

datatype BuildArgvError =
    ResumeTargetNotFound string string
  | ForkSessionTargetNotFound string string

fun show_build_argv_error :: "BuildArgvError \<Rightarrow> string" where
  "show_build_argv_error (ResumeTargetNotFound step target) =
    ''agent step `'' @ step @ ''` names `resume: '' @ target @
    ''` but no captured session_id for `'' @ target @ ''` was found in the session log''"
| "show_build_argv_error (ForkSessionTargetNotFound step target) =
    ''agent step `'' @ step @ ''` names `fork_session: '' @ target @
    ''` but no captured session_id for `'' @ target @ ''` was found in the session log''"

record AgentSessionState =
  as_ids :: "string \<rightharpoonup> string"
  as_first :: "string option"

definition agent_base_args :: "Step \<Rightarrow> string list" where
  "agent_base_args s =
    [''-p'', ''--verbose'', ''--output-format'', ''stream-json''] @
    (case s_model s of None \<Rightarrow> [] | Some m \<Rightarrow> [''--model'', m]) @
    (case s_system_prompt_append s of None \<Rightarrow> [] | Some sp \<Rightarrow> [''--append-system-prompt'', sp]) @
    (if s_permissions s = Some PermSkip then [''--dangerously-skip-permissions''] else [])"

definition build_agent_argv :: "Step \<Rightarrow> AgentSessionState \<Rightarrow> (BuildArgvError, string list) result" where
  "build_agent_argv s st =
    (let args = agent_base_args s in
     (case s_resume s of
        Some target \<Rightarrow>
          (case as_ids st target of
             None \<Rightarrow> Inl (ResumeTargetNotFound (s_name s) target)
           | Some i \<Rightarrow> Inr (args @ [''--resume'', i]))
      | None \<Rightarrow>
        (case s_fork_session s of
           Some target \<Rightarrow>
             (case as_ids st target of
                None \<Rightarrow> Inl (ForkSessionTargetNotFound (s_name s) target)
              | Some i \<Rightarrow> Inr (args @ [''--fork-session'', ''--resume'', i]))
         | None \<Rightarrow>
           if s_agent_session s \<noteq> Some Isolated then
             (case as_first st of
                Some first \<Rightarrow> Inr (args @ [''--fork-session'', ''--resume'', first])
              | None \<Rightarrow> Inr args)
           else Inr args)))"

record ContainerHandle =
  ch_binary :: string
  ch_name :: string

definition exec_argv ::
  "ContainerHandle \<Rightarrow> string option \<Rightarrow> string \<Rightarrow> string list \<Rightarrow> string \<Rightarrow> string list \<Rightarrow> string list" where
  "exec_argv h user workdir env_keys program args =
    [''exec'', ''-i''] @
    (case user of None \<Rightarrow> [] | Some u \<Rightarrow> [''--user'', u]) @
    [''-w'', workdir] @
    (case user of None \<Rightarrow> [] | Some u \<Rightarrow> [''-e'', ''HOME=/home/'' @ u]) @
    concat (map (\<lambda>k. [''-e'', k]) (sort (filter (\<lambda>k. user = None \<or> k \<noteq> ''HOME'') env_keys))) @
    [ch_name h, program] @ args"

section \<open>The output stream\<close>

text \<open>\<open>as_f64\<close> of a number: an integer rounds to the nearest double, ties to even.\<close>

fun log2 :: "nat \<Rightarrow> nat" where
  "log2 n = (if n < 2 then 0 else Suc (log2 (n div 2)))"

declare log2.simps [simp del]

definition f64_of_nat :: "nat \<Rightarrow> nat" where
  "f64_of_nat n =
    (if n = 0 then 0
     else
       (let e = log2 n in
        if e \<le> 52 then (1023 + e) * 2 ^ 52 + (n * 2 ^ (52 - e) - 2 ^ 52)
        else
          (let w = 2 ^ (e - 52); q = n div w; r = n mod w;
               q' = (if 2 * r > w \<or> 2 * r = w \<and> odd q then q + 1 else q) in
           (1023 + e) * 2 ^ 52 + (q' - 2 ^ 52))))"

definition f64_of_int :: "int \<Rightarrow> 64 word" where
  "f64_of_int i = (if i < 0 then word_of_nat (2 ^ 63 + f64_of_nat (nat (- i))) else word_of_nat (f64_of_nat (nat i)))"

fun as_f64 :: "json \<Rightarrow> 64 word option" where
  "as_f64 (JFloat b) = Some b"
| "as_f64 (JInt i) = Some (f64_of_int i)"
| "as_f64 _ = None"

fun as_bool :: "json \<Rightarrow> bool option" where
  "as_bool (JBool b) = Some b"
| "as_bool _ = None"

record AgentExecOutput =
  ao_response :: string
  ao_session_id :: "string option"
  ao_input_tokens :: "nat option"
  ao_output_tokens :: "nat option"
  ao_cost_usd :: "64 word option"
  ao_completion_signaled :: bool
  ao_is_error :: bool

definition agent_output0 :: AgentExecOutput where
  "agent_output0 = \<lparr>ao_response = [], ao_session_id = None, ao_input_tokens = None,
    ao_output_tokens = None, ao_cost_usd = None, ao_completion_signaled = False, ao_is_error = False\<rparr>"

type_synonym json_parser = "string \<Rightarrow> json option"

definition or_keep :: "'a option \<Rightarrow> 'a option \<Rightarrow> 'a option" where
  "or_keep new old = (case new of None \<Rightarrow> old | Some x \<Rightarrow> Some x)"

definition parse_stream_json_line :: "json_parser \<Rightarrow> string \<Rightarrow> AgentExecOutput \<Rightarrow> AgentExecOutput" where
  "parse_stream_json_line parse line out =
    (case parse line of
       None \<Rightarrow> out
     | Some msg \<Rightarrow>
       if jget_str msg ''type'' \<noteq> Some ''result'' then out
       else
         (let usage = jget msg ''usage'' in
          out\<lparr>ao_response := (case jget_str msg ''result'' of None \<Rightarrow> ao_response out | Some r \<Rightarrow> r),
            ao_session_id := or_keep (jget_str msg ''session_id'') (ao_session_id out),
            ao_input_tokens := or_keep (Option.bind usage (\<lambda>u. jget_u64 u ''input_tokens'')) (ao_input_tokens out),
            ao_output_tokens := or_keep (Option.bind usage (\<lambda>u. jget_u64 u ''output_tokens'')) (ao_output_tokens out),
            ao_cost_usd := or_keep (Option.bind (jget msg ''cost_usd'') as_f64) (ao_cost_usd out),
            ao_is_error := (case Option.bind (jget msg ''is_error'') as_bool of None \<Rightarrow> False | Some b \<Rightarrow> b)\<rparr>))"

text \<open>The loop over the lines; it returns at once on a line that contains the completion signal.\<close>

fun read_lines ::
  "json_parser \<Rightarrow> string option \<Rightarrow> string list \<Rightarrow> AgentExecOutput \<Rightarrow> AgentExecOutput" where
  "read_lines parse completion_signal [] out = out"
| "read_lines parse completion_signal (line # lines) out =
    (let out1 = parse_stream_json_line parse line out in
     if (case completion_signal of None \<Rightarrow> False | Some sg \<Rightarrow> str_contains line sg)
     then out1\<lparr>ao_completion_signaled := True\<rparr>
     else read_lines parse completion_signal lines out1)"

section \<open>The run\<close>

datatype AgentExecError =
    BuildArgv BuildArgvError
  | Spawn string string
  | StdinWrite string
  | WaitFailed string
  | NonZeroExit int
  | ReportedError string

fun show_agent_exec_error :: "AgentExecError \<Rightarrow> string" where
  "show_agent_exec_error (BuildArgv e) = show_build_argv_error e"
| "show_agent_exec_error (Spawn command e) = ''failed to spawn agent binary `'' @ command @ ''`: '' @ e"
| "show_agent_exec_error (StdinWrite e) = ''failed to write prompt to agent stdin: '' @ e"
| "show_agent_exec_error (WaitFailed e) = ''failed to wait for agent process: '' @ e"
| "show_agent_exec_error (NonZeroExit code) =
    ''agent process exited with status '' @ show_int code @ '' and no response was captured on stdout''"
| "show_agent_exec_error (ReportedError m) = ''agent reported an error: '' @ m"

text \<open>
  What the child does: whether it spawns, whether its standard input takes the prompt, the lines it
  prints until the end of its output, and how it is waited for (success, exit code).
\<close>

record ChildRun =
  cr_spawn :: "string option"
  cr_stdin :: "string option"
  cr_lines :: "string list"
  cr_wait :: "(string, bool \<times> int option) result"

record AgentContainer =
  ac_handle :: ContainerHandle
  ac_user :: "string option"
  ac_workdir :: string

type_synonym spawner = "string \<Rightarrow> string list \<Rightarrow> env \<Rightarrow> string \<Rightarrow> ChildRun"

definition agent_command :: "Step \<Rightarrow> AgentSessionState \<Rightarrow> env \<Rightarrow> AgentContainer option \<Rightarrow>
    (BuildArgvError, string \<times> string list) result" where
  "agent_command s st e ctr =
    res_bind (build_agent_argv s st) (\<lambda>argv.
      let bin = (case s_agent_command s of None \<Rightarrow> ''claude'' | Some c \<Rightarrow> c) in
      Inr (case ctr of
        Some c \<Rightarrow> (ch_binary (ac_handle c),
          exec_argv (ac_handle c) (ac_user c) (ac_workdir c) (map fst e) bin argv)
      | None \<Rightarrow> (bin, argv)))"

definition finish_agent ::
  "AgentExecOutput \<Rightarrow> (string, bool \<times> int option) result \<Rightarrow> (AgentExecError, AgentExecOutput) result" where
  "finish_agent out waited =
    (case waited of
       Inl e \<Rightarrow> Inl (WaitFailed e)
     | Inr (success, code) \<Rightarrow>
       if ao_is_error out then Inl (ReportedError (ao_response out))
       else if \<not> success \<and> ao_response out = [] then
         Inl (NonZeroExit (case code of None \<Rightarrow> - 1 | Some c \<Rightarrow> c))
       else Inr out)"

definition agent_run ::
  "json_parser \<Rightarrow> spawner \<Rightarrow> Step \<Rightarrow> string \<Rightarrow> AgentSessionState \<Rightarrow> env \<Rightarrow> string option \<Rightarrow>
    AgentContainer option \<Rightarrow> (AgentExecError, AgentExecOutput) result" where
  "agent_run parse spawn s rendered_prompt st e completion_signal ctr =
    res_bind (map_err BuildArgv (agent_command s st e ctr)) (\<lambda>(command, argv).
      let child = spawn command argv e rendered_prompt in
      (case cr_spawn child of
         Some err \<Rightarrow> Inl (Spawn command err)
       | None \<Rightarrow>
         (case cr_stdin child of
            Some err \<Rightarrow> Inl (StdinWrite err)
          | None \<Rightarrow>
            (let out = read_lines parse completion_signal (cr_lines child) agent_output0 in
             if ao_completion_signaled out then Inr out else finish_agent out (cr_wait child)))))"

section \<open>Lemmas\<close>

lemma parse_line_signaled [simp]:
  "ao_completion_signaled (parse_stream_json_line parse line out) = ao_completion_signaled out"
  by (simp add: parse_stream_json_line_def Let_def split: option.split)

lemma read_lines_signaled:
  "ao_completion_signaled (read_lines parse sg lines out) \<longleftrightarrow> ao_completion_signaled out \<or>
    (\<exists>s. sg = Some s \<and> (\<exists>line \<in> set lines. str_contains line s))"
  by (induction parse sg lines out rule: read_lines.induct) (auto simp: Let_def split: option.splits)

lemma read_lines_no_signal:
  "sg = None \<or> (\<forall>line \<in> set lines. \<not> str_contains line (the sg)) \<Longrightarrow>
    read_lines parse sg lines out = fold (parse_stream_json_line parse) lines out"
  by (induction parse sg lines out rule: read_lines.induct) (auto simp: Let_def split: option.splits)

lemma agent_run_signaled:
  assumes "agent_run parse spawn s p st e sg ctr = Inr out" "ao_completion_signaled out"
  shows "sg \<noteq> None"
  using assms
  by (auto simp: agent_run_def finish_agent_def res_bind_Ok_iff Let_def read_lines_signaled agent_output0_def
      split: option.splits if_splits sum.splits prod.splits)

section \<open>Properties\<close>

text \<open>
  The exit rule of the agent, on a child that was started, fed and whose output carried no
  completion signal. The step succeeds exactly when the last result was not reported as an error and
  the process either exited with success or left a response; the response is then that of the folded
  lines. A completion signal in any line succeeds at once, whatever the status.
\<close>

theorem agent_exit_rule:
  fixes parse :: json_parser
  assumes "agent_command s st e ctr = Inr (command, argv)"
    and "cr_spawn (spawn command argv e p) = None" "cr_stdin (spawn command argv e p) = None"
    and "cr_wait (spawn command argv e p) = Inr (success, code)"
  defines "lines \<equiv> cr_lines (spawn command argv e p)"
  defines "out \<equiv> fold (parse_stream_json_line parse) lines agent_output0"
  shows "if \<exists>g. sg = Some g \<and> (\<exists>line \<in> set lines. str_contains line g)
    then \<exists>o'. agent_run parse spawn s p st e sg ctr = Inr o' \<and> ao_completion_signaled o'
    else agent_run parse spawn s p st e sg ctr =
      (if ao_is_error out then Inl (ReportedError (ao_response out))
       else if success \<or> ao_response out \<noteq> [] then Inr out
       else Inl (NonZeroExit (case code of None \<Rightarrow> - 1 | Some c \<Rightarrow> c)))"
proof (cases "\<exists>g. sg = Some g \<and> (\<exists>line \<in> set lines. str_contains line g)")
  case True
  then have "ao_completion_signaled (read_lines parse sg lines agent_output0)"
    by (simp add: read_lines_signaled)
  with True assms show ?thesis by (simp add: agent_run_def Let_def)
next
  case False
  then have "read_lines parse sg lines agent_output0 = out"
    unfolding out_def by (intro read_lines_no_signal) (cases sg; auto)
  moreover have "\<not> ao_completion_signaled (read_lines parse sg lines agent_output0)"
    using False by (auto simp: read_lines_signaled agent_output0_def)
  ultimately show ?thesis
    using False assms by (auto simp: agent_run_def Let_def finish_agent_def)
qed

theorem agent_exit_rule_witness:
  "agent_run (\<lambda>l. Some (JObj [(''type'', JStr ''result''), (''result'', JStr ''ok'')]))
      (\<lambda>c a e p. \<lparr>cr_spawn = None, cr_stdin = None, cr_lines = [''x''], cr_wait = Inr (False, Some 3)\<rparr>)
      (step_agent ''a'' ''p'') ''p'' \<lparr>as_ids = Map.empty, as_first = None\<rparr> [] None None =
    Inr (agent_output0\<lparr>ao_response := ''ok''\<rparr>)"
proof -
  let ?spawn = "\<lambda>c a e p. \<lparr>cr_spawn = None, cr_stdin = None, cr_lines = [''x''], cr_wait = Inr (False, Some 3)\<rparr>"
  have "agent_command (step_agent ''a'' ''p'') \<lparr>as_ids = Map.empty, as_first = None\<rparr> [] None =
      Inr (''claude'', agent_base_args (step_agent ''a'' ''p''))"
    by (simp add: agent_command_def build_agent_argv_def step_agent_def empty_step_def)
  from agent_exit_rule [OF this, of ?spawn "''p''" False "Some 3" None
      "\<lambda>l. Some (JObj [(''type'', JStr ''result''), (''result'', JStr ''ok'')])"]
  show ?thesis
    by (simp add: parse_stream_json_line_def jget_str_def agent_output0_def or_keep_def)
qed

end
