(* ===== verification/ChatExec.thy ===== *)
theory ChatExec
  imports Workflow Events
begin

text \<open>
  \<open>crates/stepyard-harness/src/chat_exec.rs\<close>: the request a chat step hands to the injected
  chat client, the resolution of its API key and the call. The client is a trait object: it is a
  parameter.
\<close>

record ChatCompletionRequest =
  cq_provider :: "ChatProvider option"
  cq_model :: "string option"
  cq_max_tokens :: "nat option"
  cq_temperature :: "64 word option"
  cq_base_url :: "string option"
  cq_api_key :: "string option"
  cq_history :: "ChatMessage list"
  cq_user_message :: string
  cq_truncation :: "ChatTruncation option"

record ChatCompletionResponse =
  cp_content :: string
  cp_input_tokens :: "nat option"
  cp_output_tokens :: "nat option"
  cp_cost_usd :: "64 word option"

datatype ChatClientError = EmptyResponse string | ProviderFailure string

fun show_client_error :: "ChatClientError \<Rightarrow> string" where
  "show_client_error (EmptyResponse m) = ''provider returned an empty or malformed response: '' @ m"
| "show_client_error (ProviderFailure m) = ''chat provider call failed: '' @ m"

datatype ChatExecError =
    NoClientConfigured string
  | MissingPrompt string
  | ClientErr ChatClientError
  | ChatTimeout string nat
  | ChatCancelled string
  | ChatSignalReceived string Signal

fun show_chat_exec_error :: "ChatExecError \<Rightarrow> string" where
  "show_chat_exec_error (NoClientConfigured step) = ''chat step `'' @ step @
    ''` reached dispatch with no chat client configured; inject `HarnessConfig::chat_client` (commit 3 wires the production default)''"
| "show_chat_exec_error (MissingPrompt step) = ''chat step `'' @ step @ ''` has no prompt '' @ em_dash @
    '' the adapter should have rejected this at load time''"
| "show_chat_exec_error (ClientErr e) = show_client_error e"
| "show_chat_exec_error (ChatTimeout step ms) =
    ''chat step `'' @ step @ ''` timed out after '' @ show_nat ms @ ''ms''"
| "show_chat_exec_error (ChatCancelled step) = ''chat step `'' @ step @ ''` cancelled''"
| "show_chat_exec_error (ChatSignalReceived step sg) =
    ''chat step `'' @ step @ ''` received signal: '' @ as_wire sg"

datatype ChatApiKeyError = NotSet string string | NotUnicode string string

fun show_api_key_error :: "ChatApiKeyError \<Rightarrow> string" where
  "show_api_key_error (NotSet step key) = ''chat step `'' @ step @ ''` api_key_env `'' @ key @
    ''` is not set in workflow env or host env''"
| "show_api_key_error (NotUnicode step key) = ''chat step `'' @ step @ ''` api_key_env `'' @ key @
    ''` holds non-UTF-8 data''"

text \<open>\<open>std::env::var\<close>: not present, not Unicode, or a value.\<close>

datatype host_var = VarAbsent | VarNotUnicode | VarSet string

fun host_var_ok :: "host_var \<Rightarrow> string option" where
  "host_var_ok (VarSet v) = Some v"
| "host_var_ok _ = None"

definition resolve_api_key ::
  "(string \<Rightarrow> host_var) \<Rightarrow> string \<Rightarrow> string option \<Rightarrow> env \<Rightarrow> (ChatApiKeyError, string option) result" where
  "resolve_api_key host step_name api_key_env resolved =
    (case api_key_env of
       None \<Rightarrow> Inr None
     | Some key \<Rightarrow>
       (case map_of resolved key of
          Some v \<Rightarrow> Inr (Some v)
        | None \<Rightarrow>
          (case host key of
             VarSet v \<Rightarrow> Inr (Some v)
           | VarAbsent \<Rightarrow> Inl (NotSet step_name key)
           | VarNotUnicode \<Rightarrow> Inl (NotUnicode step_name key))))"

record ChatExecOutput =
  co_response :: string
  co_input_tokens :: "nat option"
  co_output_tokens :: "nat option"
  co_cost_usd :: "64 word option"

definition build_chat_request ::
  "Step \<Rightarrow> string \<Rightarrow> ChatMessage list \<Rightarrow> string option \<Rightarrow> ChatCompletionRequest" where
  "build_chat_request s rendered_prompt history key =
    \<lparr>cq_provider = s_chat_provider s, cq_model = s_model s, cq_max_tokens = s_max_tokens s,
     cq_temperature = s_temperature s, cq_base_url = s_base_url s, cq_api_key = key,
     cq_history = history, cq_user_message = rendered_prompt, cq_truncation = s_truncation s\<rparr>"

type_synonym chat_client = "ChatCompletionRequest \<Rightarrow> (ChatClientError, ChatCompletionResponse) result"

definition chat_run :: "Step \<Rightarrow> ChatCompletionRequest \<Rightarrow> chat_client \<Rightarrow> (ChatExecError, ChatExecOutput) result" where
  "chat_run s req client =
    (if s_prompt s = None \<or> s_prompt s = Some [] then Inl (MissingPrompt (s_name s))
     else res_bind (map_err ClientErr (client req)) (\<lambda>resp. Inr
       \<lparr>co_response = cp_content resp, co_input_tokens = cp_input_tokens resp,
        co_output_tokens = cp_output_tokens resp, co_cost_usd = cp_cost_usd resp\<rparr>))"

end
