(* ===== verification/Runtime.thy ===== *)
theory Runtime
  imports Replay Gate Render AgentExec ChatExec
begin

text \<open>
  What the engine runs on: the host around it, its own mutable state, and the operations as state
  transformers that return a result and the state they leave (errors are values, \<open>?\<close> is
  \<open>ebind\<close>).

  Everything the engine only calls is a function of the host: the clocks, the database's fate, the
  step executor, the sandbox lifecycle, the workspace manager, the child processes, the file system,
  Tera, Rhai, the chat client. A call is answered by the function at the current tick, and every call
  advances the tick, so that no two calls need agree. The race of a \<open>tokio::select!\<close> is won by the
  arm the host names.
\<close>

section \<open>The host\<close>

record ExecOutput =
  xo_stdout :: string
  xo_stderr :: string
  xo_exit :: "32 word"

definition is_success :: "ExecOutput \<Rightarrow> bool" where
  "is_success o' \<longleftrightarrow> xo_exit o' = 0"

record ShOutput =
  sh_success :: bool
  sh_stderr :: string

record Workspace =
  ws_path :: string
  ws_branch :: "string option"
  ws_merge_target :: "string option"

record CopyOutReport =
  co_copied :: "string list"
  co_deleted :: "string list"
  co_skipped :: "string list"

datatype ChangedPath = Modified string | Deleted string

datatype Arm = ArmDone | ArmCancelled | ArmTimedOut | ArmSignal

text \<open>
  What a wait on a \<open>JoinSet\<close> gives: the task with an index among those left, a task that
  panicked, or the cancel or shutdown arm.
\<close>

datatype JoinEvent = JoinTask nat | JoinPanic nat string | JoinCancel | JoinSignal

record Host =
  h_clock :: "nat \<Rightarrow> nat"
  h_utc :: "nat \<Rightarrow> timestamp"
  h_cancel_at :: "nat option"
  h_signal :: "string option"
  h_db :: "nat \<Rightarrow> db_reply"
  h_env :: "string \<Rightarrow> host_var"
  h_tera :: tera
  h_rhai :: rhai
  h_exec :: "nat \<Rightarrow> Step \<Rightarrow> env \<Rightarrow> (SandboxError, ExecOutput) result"
  h_first :: "nat \<Rightarrow> Arm"
  h_handle :: "ContainerHandle option"
  h_create :: "nat \<Rightarrow> (SandboxError, unit) result"
  h_sh :: "nat \<Rightarrow> string \<Rightarrow> (SandboxError, ShOutput) result"
  h_copy_in :: "nat \<Rightarrow> (SandboxError, unit) result"
  h_changed :: "nat \<Rightarrow> (SandboxError, ChangedPath list) result"
  h_copy_out :: "nat \<Rightarrow> ChangedPath list \<Rightarrow> (SandboxError, CopyOutReport) result"
  h_prepare :: "nat \<Rightarrow> BranchStrategy \<Rightarrow> (WorkspaceError, Workspace) result"
  h_finalize :: "nat \<Rightarrow> Workspace \<Rightarrow> (WorkspaceError, unit) result"
  h_canon :: "nat \<Rightarrow> canon"
  h_read :: "nat \<Rightarrow> reader"
  h_json :: json_parser
  h_json_text :: "json \<Rightarrow> string"
  h_joins :: "nat \<Rightarrow> JoinEvent list"
  h_late :: "nat \<Rightarrow> nat \<Rightarrow> bool"
  h_spawn :: "nat \<Rightarrow> spawner"
  h_chat :: "nat \<Rightarrow> chat_client"

section \<open>The engine\<close>

record ContainerWorkspace =
  cw_host_dir :: string
  cw_container_dir :: string
  cw_agent_user :: "string option"
  cw_exclude :: "string list"

datatype WorkspaceSync = Synced CopyOutReport | SyncFailed string

text \<open>The fields of \<open>Engine\<close> that no operation changes.\<close>

record Engine =
  e_host :: Host
  e_session :: uuid
  e_workflow :: Workflow
  e_defaults :: env
  e_target :: string
  e_vars :: env
  e_proxy :: "AnthropicProxyEnv option"
  e_container_workspace :: "ContainerWorkspace option"
  e_chat_client :: bool
  e_manager :: bool
  e_strategy :: BranchStrategy
  e_workspace_path :: "string option"

text \<open>An external effect, with the log as it stood when the call was made.\<close>

datatype Effect =
    FxExec Step env
  | FxDestroy
  | FxCreate
  | FxSh string
  | FxCopyIn
  | FxChanged
  | FxCopyOut
  | FxPrepare BranchStrategy
  | FxFinalize
  | FxAgent Step string env "AgentContainer option"
  | FxChat ChatCompletionRequest

text \<open>
  The state: the session's log and row, the handle's own idea of the status, the mutable fields of
  \<open>Engine\<close>, the tick, and the trace of external effects.
\<close>

record World =
  wlog :: "json list"
  wdb :: SessionStatus
  wstatus :: SessionStatus
  wstarted :: "nat option"
  wspace :: "Workspace option"
  wprepared :: bool
  wcontainer :: "AgentContainer option"
  wsync :: "WorkspaceSync option"
  wtrace :: "(Effect \<times> json list) list"
  wtick :: nat

type_synonym 'a eng = "World \<Rightarrow> (EngineError, 'a) result \<times> World"

datatype StepOutcome =
    StepCompletedO string
  | StepFailedO string string
  | WorkflowCompletedO
  | CancelledO

definition ret :: "'a \<Rightarrow> 'a eng" where
  "ret a w = (Inr a, w)"

definition throw :: "EngineError \<Rightarrow> 'a eng" where
  "throw e w = (Inl e, w)"

definition ebind :: "'a eng \<Rightarrow> ('a \<Rightarrow> 'b eng) \<Rightarrow> 'b eng" where
  "ebind m f w = (case m w of (Inl e, w') \<Rightarrow> (Inl e, w') | (Inr a, w') \<Rightarrow> f a w')"

definition eseq :: "'a eng \<Rightarrow> 'b eng \<Rightarrow> 'b eng" where
  "eseq m k = ebind m (\<lambda>_. k)"

text \<open>A pure result in the state: its error is thrown.\<close>

definition lift_result :: "(EngineError, 'a) result \<Rightarrow> 'a eng" where
  "lift_result r w = (r, w)"

text \<open>A call whose error is handled by the caller.\<close>

definition attempt :: "'a eng \<Rightarrow> ((EngineError, 'a) result) eng" where
  "attempt m w = (case m w of (r, w') \<Rightarrow> (Inr r, w'))"

text \<open>A call whose answer is a function of the tick, without and with an entry in the trace.\<close>

definition ask :: "(nat \<Rightarrow> 'a) \<Rightarrow> 'a eng" where
  "ask f w = (Inr (f (wtick w)), w\<lparr>wtick := Suc (wtick w)\<rparr>)"

definition call :: "Effect \<Rightarrow> (nat \<Rightarrow> 'a) \<Rightarrow> 'a eng" where
  "call fx f w = (Inr (f (wtick w)), w\<lparr>wtick := Suc (wtick w), wtrace := wtrace w @ [(fx, wlog w)]\<rparr>)"

definition get :: "(World \<Rightarrow> 'a) \<Rightarrow> 'a eng" where
  "get f w = (Inr (f w), w)"

definition modify :: "(World \<Rightarrow> World) \<Rightarrow> unit eng" where
  "modify f w = (Inr (), f w)"

text \<open>The error a call answered with, given by the tick the call was made at.\<close>

definition replied :: "(nat \<Rightarrow> db_reply) \<Rightarrow> nat \<Rightarrow> string option" where
  "replied db t = (case db t of Commits \<Rightarrow> None | FailsBefore m \<Rightarrow> Some m | FailsAfter m \<Rightarrow> Some m)"

section \<open>The session, as the engine uses it\<close>

definition append_event :: "Engine \<Rightarrow> json \<Rightarrow> unit eng" where
  "append_event E p w =
    (case h_db (e_host E) (wtick w) of
       Commits \<Rightarrow> (Inr (), w\<lparr>wlog := wlog w @ [p], wtick := Suc (wtick w)\<rparr>)
     | FailsBefore m \<Rightarrow> (Inl (Session (Database m)), w\<lparr>wtick := Suc (wtick w)\<rparr>)
     | FailsAfter m \<Rightarrow> (Inl (Session (Database m)), w\<lparr>wlog := wlog w @ [p], wtick := Suc (wtick w)\<rparr>))"

definition emit :: "Engine \<Rightarrow> Event \<Rightarrow> unit eng" where
  "emit E ev = append_event E (event_json ev)"

definition replay :: "Engine \<Rightarrow> (json list) eng" where
  "replay E = ebind (ask (replied (h_db (e_host E)))) (\<lambda>r.
     case r of None \<Rightarrow> get wlog | Some m \<Rightarrow> throw (Session (Database m)))"

text \<open>A function of the replayed log.\<close>

definition from_log :: "Engine \<Rightarrow> (json list \<Rightarrow> (EngineError, 'a) result) \<Rightarrow> 'a eng" where
  "from_log E f = ebind (replay E) (\<lambda>evs. lift_result (f evs))"

definition progress_from_log :: "Engine \<Rightarrow> Progress eng" where
  "progress_from_log E = from_log E compute_progress"

text \<open>\<open>Session::finish\<close> on the row and on the handle.\<close>

definition finish_session :: "Engine \<Rightarrow> SessionStatus \<Rightarrow> unit eng" where
  "finish_session E st w =
    (let hit = (wdb w = Running); w' = w\<lparr>wtick := Suc (wtick w)\<rparr> in
     (case h_db (e_host E) (wtick w) of
        Commits \<Rightarrow> (Inr (), if hit then w'\<lparr>wdb := st, wstatus := st\<rparr> else w')
      | FailsBefore m \<Rightarrow> (Inl (Session (Database m)), w')
      | FailsAfter m \<Rightarrow> (Inl (Session (Database m)), if hit then w'\<lparr>wdb := st\<rparr> else w')))"

section \<open>Clocks and flags\<close>

definition now :: "Engine \<Rightarrow> nat eng" where
  "now E = ask (h_clock (e_host E))"

text \<open>\<open>start.elapsed().as_millis() as u64\<close>; an \<open>Instant\<close> is its milliseconds.\<close>

definition elapsed :: "Engine \<Rightarrow> nat \<Rightarrow> nat eng" where
  "elapsed E start = ebind (now E) (\<lambda>t. ret ((t - start) mod 2 ^ 64))"

definition is_cancelled :: "Engine \<Rightarrow> bool eng" where
  "is_cancelled E = ask (\<lambda>t. case h_cancel_at (e_host E) of None \<Rightarrow> False | Some n \<Rightarrow> n \<le> t)"

text \<open>Emit an event that carries \<open>Utc::now()\<close>.\<close>

definition emit_now :: "Engine \<Rightarrow> (timestamp \<Rightarrow> Event) \<Rightarrow> unit eng" where
  "emit_now E f = ebind (ask (h_utc (e_host E))) (\<lambda>ts. emit E (f ts))"

text \<open>
  The race of a step against cancel, timeout and shutdown. The timeout arm never fires without a
  timeout, the cancel arm only once the flag is set; an arm that cannot fire leaves the race to the
  step.
\<close>

datatype 'a StepSelection = Done 'a | SelCancelled | SelTimedOut | SelSignal string

definition race :: "Engine \<Rightarrow> duration option \<Rightarrow> Effect \<Rightarrow> (nat \<Rightarrow> 'a) \<Rightarrow> ('a StepSelection) eng" where
  "race E timeout fx f =
    ebind (ask (h_first (e_host E))) (\<lambda>arm.
    ebind (is_cancelled E) (\<lambda>c.
    call fx (\<lambda>t.
      case arm of
        ArmDone \<Rightarrow> Done (f t)
      | ArmCancelled \<Rightarrow> if c then SelCancelled else Done (f t)
      | ArmTimedOut \<Rightarrow> if timeout \<noteq> None then SelTimedOut else Done (f t)
      | ArmSignal \<Rightarrow> SelSignal (case h_signal (e_host E) of None \<Rightarrow> ''unknown'' | Some s \<Rightarrow> s))))"

end
