(* ===== verification/EngineBase.thy ===== *)
theory EngineBase
  imports Runtime
begin

text \<open>
  The operations of \<open>crates/stepyard-harness/src/engine.rs\<close> that every kind of step uses: the
  container workspace (with \<open>container_workspace.rs\<close>), the git workspace, the three
  \<open>finalise_*\<close> operations and the command execution that races cancel, timeout and shutdown.
\<close>

section \<open>container\_workspace.rs\<close>

definition READY_MARKER :: string where
  "READY_MARKER = ''/tmp/.stepyard-workspace-ready''"

definition quote_char :: char where
  "quote_char = CHR 0x27"

definition shell_quote :: "string \<Rightarrow> string" where
  "shell_quote s = [quote_char] @
    concat (map (\<lambda>c. if c = quote_char then [quote_char, CHR 0x5C, quote_char, quote_char] else [c]) s) @
    [quote_char]"

definition setup_script :: "string \<Rightarrow> string option \<Rightarrow> string" where
  "setup_script container_dir agent_user =
    (let dir = shell_quote container_dir in
     ''set -e; cd '' @ dir @
     ''; if [ -f .git ]; then rm -f .git; fi; if [ ! -d .git ]; then git init -q && git add -A && '' @
     ''git -c user.name=stepyard -c user.email=stepyard@localhost commit -q --allow-empty -m '' @
     shell_quote ''stepyard: workspace baseline'' @ ''; fi; '' @
     (case agent_user of
        None \<Rightarrow> []
      | Some u \<Rightarrow> ''if id -u '' @ shell_quote u @ '' >/dev/null 2>&1; then chown -R '' @ shell_quote u @
          '': '' @ dir @ ''; fi; '') @
     ''touch '' @ READY_MARKER)"

section \<open>The container workspace\<close>

text \<open>The errors here are strings: the result is a sum inside the engine's monad.\<close>

definition host_sh :: "Engine \<Rightarrow> string \<Rightarrow> ((SandboxError, ShOutput) result) eng" where
  "host_sh E script = call (FxSh script) (\<lambda>t. h_sh (e_host E) t script)"

definition copy_project_in :: "Engine \<Rightarrow> ContainerWorkspace \<Rightarrow> ((string, unit) result) eng" where
  "copy_project_in E ws =
    ebind (call FxCopyIn (h_copy_in (e_host E))) (\<lambda>r.
      case r of
        Inl e \<Rightarrow> ret (Inl (show_sandbox_error e))
      | Inr _ \<Rightarrow>
        ebind (host_sh E (setup_script (cw_container_dir ws) (cw_agent_user ws))) (\<lambda>o'.
          case o' of
            Inl e \<Rightarrow> ret (Inl (show_sandbox_error e))
          | Inr out \<Rightarrow>
            if \<not> sh_success out then
              ret (Inl (''prepare /workspace in the container (the image needs `git`): '' @ trim (sh_stderr out)))
            else ret (Inr ())))"

definition find_agent_user :: "Engine \<Rightarrow> string option \<Rightarrow> (string option) eng" where
  "find_agent_user E u' =
    (case u' of
       None \<Rightarrow> ret None
     | Some u \<Rightarrow>
       ebind (host_sh E (''id -u '' @ shell_quote u @ '' >/dev/null 2>&1'')) (\<lambda>r.
         ret (case r of Inl _ \<Rightarrow> None | Inr out \<Rightarrow> if sh_success out then Some u else None)))"

definition ensure_container_workspace :: "Engine \<Rightarrow> ((string, unit) result) eng" where
  "ensure_container_workspace E =
    ebind (get wcontainer) (\<lambda>c.
    if c \<noteq> None then ret (Inr ())
    else
      (case e_container_workspace E of
         None \<Rightarrow> ret (Inr ())
       | Some ws \<Rightarrow>
         (case h_handle (e_host E) of
            None \<Rightarrow> ret (Inr ())
          | Some handle \<Rightarrow>
            ebind (call FxCreate (h_create (e_host E))) (\<lambda>r.
              case r of
                Inl e \<Rightarrow> ret (Inl (''start session container: '' @ show_sandbox_error e))
              | Inr _ \<Rightarrow>
                ebind (host_sh E (''test -f '' @ READY_MARKER)) (\<lambda>m.
                ebind (if (case m of Inl _ \<Rightarrow> False | Inr out \<Rightarrow> sh_success out) then ret (Inr ())
                       else copy_project_in E ws) (\<lambda>copied.
                  case copied of
                    Inl e \<Rightarrow> ret (Inl e)
                  | Inr _ \<Rightarrow>
                    ebind (find_agent_user E (cw_agent_user ws)) (\<lambda>user.
                    eseq (modify (\<lambda>w. w\<lparr>wcontainer := Some \<lparr>ac_handle = handle, ac_user = user,
                        ac_workdir = cw_container_dir ws\<rparr>\<rparr>))
                      (ret (Inr ())))))))))"

definition sandbox_env_for_exec :: "Engine \<Rightarrow> env \<Rightarrow> env" where
  "sandbox_env_for_exec E env =
    (case e_proxy E of None \<Rightarrow> env | Some p \<Rightarrow> apply_anthropic_proxy_env env p)"

definition agent_exec_target :: "Engine \<Rightarrow> env \<Rightarrow> (env \<times> AgentContainer option) eng" where
  "agent_exec_target E env = ebind (get wcontainer) (\<lambda>c.
     ret (case c of Some x \<Rightarrow> (sandbox_env_for_exec E env, Some x) | None \<Rightarrow> (env, None)))"

definition destroy_by_session :: "Engine \<Rightarrow> unit eng" where
  "destroy_by_session E = call FxDestroy (\<lambda>_. ())"

text \<open>\<open>Option::take\<close> of the agent container, then copy back, record the outcome, destroy.\<close>

definition sync_container_workspace_back :: "Engine \<Rightarrow> unit eng" where
  "sync_container_workspace_back E =
    ebind (get wcontainer) (\<lambda>c.
    eseq (modify (\<lambda>w. w\<lparr>wcontainer := None\<rparr>))
    (case c of
       None \<Rightarrow> ret ()
     | Some _ \<Rightarrow>
       (case e_container_workspace E of
          None \<Rightarrow> ret ()
        | Some ws \<Rightarrow>
          ebind (call FxChanged (h_changed (e_host E))) (\<lambda>r.
          ebind (case r of
              Inl e \<Rightarrow> ret (SyncFailed (show_sandbox_error e))
            | Inr changes \<Rightarrow>
              ebind (call FxCopyOut (\<lambda>t. h_copy_out (e_host E) t changes)) (\<lambda>o'.
                ret (case o' of Inl e \<Rightarrow> SyncFailed (show_sandbox_error e) | Inr rep \<Rightarrow> Synced rep)))
            (\<lambda>sync.
          eseq (modify (\<lambda>w. w\<lparr>wsync := Some sync\<rparr>))
            (destroy_by_session E))))))"

section \<open>The git workspace\<close>

definition prepare_workspace_if_configured :: "Engine \<Rightarrow> unit eng" where
  "prepare_workspace_if_configured E =
    ebind (get wprepared) (\<lambda>prepared.
    if prepared \<or> \<not> e_manager E then ret ()
    else
      (let path = (case e_workspace_path E of Some p \<Rightarrow> p
             | None \<Rightarrow> ''.stepyard/workspaces/stepyard-session-'' @ e_session E);
           strategy = e_strategy E in
       eseq (emit E (WorkspacePrepared path (strategy_str strategy)))
       (eseq (case strategy of
            BHead \<Rightarrow> ret ()
          | BMergeToHead target \<Rightarrow>
            emit E (BranchCreated (''stepyard/session-'' @ e_session E) target)
          | BNamedBranch n \<Rightarrow> emit E (BranchCreated n ''HEAD''))
       (ebind (call (FxPrepare strategy) (\<lambda>t. h_prepare (e_host E) t strategy)) (\<lambda>r.
          case r of
            Inl e \<Rightarrow> throw (WorkspaceErr e)
          | Inr ws \<Rightarrow> modify (\<lambda>w. w\<lparr>wspace := Some ws, wprepared := True\<rparr>))))))"

definition merge_pair :: "Workspace \<Rightarrow> (string \<times> string) option" where
  "merge_pair ws = (case (ws_branch ws, ws_merge_target ws) of
     (Some s, Some t) \<Rightarrow> Some (s, t) | _ \<Rightarrow> None)"

definition finalize_workspace_success_if_configured :: "Engine \<Rightarrow> unit eng" where
  "finalize_workspace_success_if_configured E =
    ebind (get wspace) (\<lambda>sp.
    if \<not> e_manager E then ret ()
    else
      (case sp of
         None \<Rightarrow> ret ()
       | Some ws \<Rightarrow>
         eseq (case merge_pair ws of None \<Rightarrow> ret () | Some (s, t) \<Rightarrow> emit E (MergeAttempted s t))
         (ebind (call FxFinalize (\<lambda>t. h_finalize (e_host E) t ws)) (\<lambda>r.
           case r of
             Inr _ \<Rightarrow> ret ()
           | Inl e \<Rightarrow>
             (case e of
                WorkspaceMergeConflict files \<Rightarrow>
                  eseq (case merge_pair ws of None \<Rightarrow> ret ()
                      | Some (s, t) \<Rightarrow> emit E (MergeConflict s t files))
                    (throw (WorkspaceErr e))
              | _ \<Rightarrow> throw (WorkspaceErr e))))))"

section \<open>Ending a session\<close>

definition workflow_duration :: "Engine \<Rightarrow> nat eng" where
  "workflow_duration E = ebind (get wstarted) (\<lambda>s. case s of None \<Rightarrow> ret 0 | Some t \<Rightarrow> elapsed E t)"

definition finalise_success :: "Engine \<Rightarrow> unit eng" where
  "finalise_success E =
    ebind (get wstatus) (\<lambda>st.
    if st = Running then
      eseq (sync_container_workspace_back E)
      (eseq (finalize_workspace_success_if_configured E)
      (ebind (workflow_duration E) (\<lambda>d.
       eseq (emit_now E (WorkflowCompleted d))
        (finish_session E Completed))))
    else ret ())"

definition finalise_cancel :: "Engine \<Rightarrow> unit eng" where
  "finalise_cancel E =
    ebind (get wstatus) (\<lambda>st.
    if st = Running then
      ebind (workflow_duration E) (\<lambda>d.
      eseq (emit_now E (WorkflowCancelled d))
      (eseq (destroy_by_session E)
       (finish_session E Cancelled)))
    else ret ())"

definition finalise_fail :: "Engine \<Rightarrow> unit eng" where
  "finalise_fail E =
    ebind (get wstatus) (\<lambda>st.
    if st = Running then eseq (sync_container_workspace_back E) (finish_session E Failed)
    else ret ())"

section \<open>Running a command\<close>

definition prepare_step :: "Engine \<Rightarrow> Step \<Rightarrow> (EngineError, env) result" where
  "prepare_step E s =
    resolve_env (\<lambda>k. host_var_ok (h_env (e_host E) k)) (e_defaults E) (w_env (e_workflow E)) (s_env s)"

text \<open>
  \<open>emit(StepFailed { .. })\<close> with the step's name and a timestamp, and the variant that reads the
  elapsed time first.
\<close>

definition emit_failed :: "Engine \<Rightarrow> Step \<Rightarrow> string \<Rightarrow> string \<Rightarrow> nat \<Rightarrow> bool \<Rightarrow> unit eng" where
  "emit_failed E s step_type err d sandboxed =
    emit_now E (\<lambda>ts. StepFailed (s_name s) step_type err d ts sandboxed)"

definition emit_failed_at :: "Engine \<Rightarrow> Step \<Rightarrow> string \<Rightarrow> string \<Rightarrow> nat \<Rightarrow> bool \<Rightarrow> unit eng" where
  "emit_failed_at E s step_type err start sandboxed =
    ebind (elapsed E start) (\<lambda>d. emit_failed E s step_type err d sandboxed)"

datatype CmdOutcome =
    CmdSuccess StepOutputSnapshot
  | CmdFailed string
  | CmdCancelled
  | CmdSignal string
  | CmdTimedOut nat
  | CmdIdleTimedOut nat

text \<open>\<open>timeout.as_millis() as u64\<close>\<close>

definition millis_u64 :: "duration \<Rightarrow> nat" where
  "millis_u64 d = as_millis d mod 2 ^ 64"

definition show_i32 :: "32 word \<Rightarrow> string" where
  "show_i32 x = show_int (sint x)"

text \<open>The last part of \<open>execute_cmd_with_select\<close>: the executor has answered.\<close>

definition cmd_exec_result ::
  "Engine \<Rightarrow> Step \<Rightarrow> nat \<Rightarrow> ScopeContext option \<Rightarrow> nat \<Rightarrow> (SandboxError, ExecOutput) result \<Rightarrow> CmdOutcome eng" where
  "cmd_exec_result E s step_index scope_context duration_ms exec_result =
    (case exec_result of
       Inr out \<Rightarrow>
         if is_success out then
           (let snapshot = \<lparr>stdout = xo_stdout out, stderr = xo_stderr out, exit_code = xo_exit out\<rparr> in
            eseq (emit_now E (\<lambda>ts. StepCompleted (s_name s) ''cmd'' duration_ms ts None None None True
                (Some snapshot) scope_context None None))
              (ret (CmdSuccess snapshot)))
         else
           (let err = ''step exited with code '' @ show_i32 (xo_exit out) @ '': '' @ trim (xo_stderr out) in
            eseq (emit_failed E s ''cmd'' err duration_ms True)
            (eseq (finalise_fail E) (ret (CmdFailed err))))
     | Inl e \<Rightarrow>
         (case e of
            SandboxIdleTimeout idle_ms \<Rightarrow>
              eseq (emit E (IdleTimeoutFired step_index idle_ms))
              (eseq (emit_failed E s ''cmd'' (show_reason (IdleTimeout idle_ms)) duration_ms True)
              (eseq (destroy_by_session E)
              (eseq (finalise_fail E) (ret (CmdIdleTimedOut idle_ms)))))
          | _ \<Rightarrow>
              eseq (emit_failed E s ''cmd'' (show_sandbox_error e) duration_ms True)
              (eseq (finalise_fail E) (ret (CmdFailed (show_sandbox_error e))))))"

definition execute_cmd_with_select ::
  "Engine \<Rightarrow> Step \<Rightarrow> env \<Rightarrow> nat \<Rightarrow> ScopeContext option \<Rightarrow> nat \<Rightarrow> CmdOutcome eng" where
  "execute_cmd_with_select E s resolved_env step_index scope_context start =
    (let sandbox_env = sandbox_env_for_exec E resolved_env in
     ebind (race E (s_timeout s) (FxExec s sandbox_env) (\<lambda>t. h_exec (e_host E) t s sandbox_env)) (\<lambda>selection.
     ebind (elapsed E start) (\<lambda>duration_ms.
       case selection of
         SelSignal sg \<Rightarrow>
           eseq (emit E (SignalReceived (signal_from sg)))
           (eseq (emit_failed E s ''cmd'' (''Signal: '' @ sg) duration_ms True)
           (eseq (finalise_cancel E) (ret (CmdSignal sg))))
       | SelTimedOut \<Rightarrow>
           (case s_timeout s of
              None \<Rightarrow> throw (Panic ''TimedOut requires step.timeout.is_some()'')
            | Some d \<Rightarrow>
              (let configured_ms = millis_u64 d in
               eseq (emit E (StepTimeoutFired step_index configured_ms))
               (eseq (emit_failed E s ''cmd''
                   (''step timed out after '' @ show_nat configured_ms @ ''ms'') duration_ms True)
               (eseq (destroy_by_session E)
               (eseq (finalise_fail E) (ret (CmdTimedOut configured_ms)))))))
       | SelCancelled \<Rightarrow>
           eseq (emit_failed E s ''cmd'' ''Cancelled'' duration_ms True)
           (eseq (finalise_cancel E) (ret CmdCancelled))
       | Done r \<Rightarrow> cmd_exec_result E s step_index scope_context duration_ms r)))"

end
