(* ===== verification/EngineLaws.thy ===== *)
theory EngineLaws
  imports EngineBase "HOL-Library.Sublist"
begin

text \<open>
  Rules for reasoning about the engine's operations: what an operation may leave, for every clock,
  every database fate and every race (\<open>wpv\<close>, a weakest precondition that forgets the tick), and the
  frame every operation keeps (\<open>grows\<close>: the log only grows, by events of the engine's own, and a
  terminal session row stays).
\<close>

named_theorems wpv_rules \<open>introduction rules of the weakest precondition\<close>
named_theorems grows_rules \<open>introduction rules of the frame\<close>

section \<open>Weakest preconditions\<close>

definition view :: "World \<Rightarrow> World" where
  "view w = w\<lparr>wtick := 0\<rparr>"

definition wpv :: "'a eng \<Rightarrow> ('a \<Rightarrow> World \<Rightarrow> bool) \<Rightarrow> (EngineError \<Rightarrow> World \<Rightarrow> bool) \<Rightarrow> World \<Rightarrow> bool" where
  "wpv m Q R v \<longleftrightarrow> (\<forall>w. view w = v \<longrightarrow>
     (case m w of (Inl e, w') \<Rightarrow> R e (view w') | (Inr a, w') \<Rightarrow> Q a (view w')))"

lemma view_simps [simp]:
  "wlog (view w) = wlog w" "wdb (view w) = wdb w" "wstatus (view w) = wstatus w"
  "wstarted (view w) = wstarted w" "wspace (view w) = wspace w" "wprepared (view w) = wprepared w"
  "wcontainer (view w) = wcontainer w" "wsync (view w) = wsync w" "wtrace (view w) = wtrace w"
  "wtick (view w) = 0" "view (view w) = view w"
  by (simp_all add: view_def)

text \<open>The tick is written last by every call; the view forgets it.\<close>

lemma view_updates:
  "view (w\<lparr>wtick := t\<rparr>) = view w"
  "view (w\<lparr>wtick := t, wtrace := x\<rparr>) = (view w)\<lparr>wtrace := x\<rparr>"
  "view (w\<lparr>wlog := y, wtick := t\<rparr>) = (view w)\<lparr>wlog := y\<rparr>"
  "view (w\<lparr>wlog := y\<rparr>) = (view w)\<lparr>wlog := y\<rparr>"
  "view (w\<lparr>wdb := st\<rparr>) = (view w)\<lparr>wdb := st\<rparr>"
  "view (w\<lparr>wdb := st, wstatus := st\<rparr>) = (view w)\<lparr>wdb := st, wstatus := st\<rparr>"
  "view (w\<lparr>wtick := t, wdb := st\<rparr>) = (view w)\<lparr>wdb := st\<rparr>"
  "view (w\<lparr>wtick := t, wdb := st, wstatus := st\<rparr>) = (view w)\<lparr>wdb := st, wstatus := st\<rparr>"
  by (simp_all add: view_def)

lemma wpvD: "wpv m Q R (view w) \<Longrightarrow> m w = (Inr a, w') \<Longrightarrow> Q a (view w')"
  "wpv m Q R (view w) \<Longrightarrow> m w = (Inl e, w') \<Longrightarrow> R e (view w')"
  by (auto simp: wpv_def split: prod.splits)

lemma wpv_mono:
  assumes "wpv m Q R v" "\<And>a v'. Q a v' \<Longrightarrow> Q' a v'" "\<And>e v'. R e v' \<Longrightarrow> R' e v'"
  shows "wpv m Q' R' v"
  using assms by (fastforce simp: wpv_def split: prod.splits sum.splits)

lemma wpv_ret [wpv_rules]: "Q a v \<Longrightarrow> wpv (ret a) Q R v"
  by (simp add: wpv_def ret_def)

lemma wpv_throw [wpv_rules]: "R e v \<Longrightarrow> wpv (throw e) Q R v"
  by (simp add: wpv_def throw_def)

lemma wpv_ebind [wpv_rules]: "wpv m (\<lambda>a. wpv (f a) Q R) R v \<Longrightarrow> wpv (ebind m f) Q R v"
  by (fastforce simp: wpv_def ebind_def split: prod.splits sum.splits)

lemma wpv_eseq [wpv_rules]: "wpv m (\<lambda>_. wpv k Q R) R v \<Longrightarrow> wpv (eseq m k) Q R v"
  by (simp add: eseq_def wpv_ebind)

lemma wpv_lift [wpv_rules]:
  "(\<And>a. r = Inr a \<Longrightarrow> Q a v) \<Longrightarrow> (\<And>e. r = Inl e \<Longrightarrow> R e v) \<Longrightarrow> wpv (lift_result r) Q R v"
  by (auto simp: wpv_def lift_result_def split: sum.split)

lemma wpv_ask [wpv_rules]: "(\<And>t. Q (f t) v) \<Longrightarrow> wpv (ask f) Q R v"
  by (auto simp: wpv_def ask_def view_def)

lemma wpv_call [wpv_rules]:
  "(\<And>t. Q (f t) (v\<lparr>wtrace := wtrace v @ [(fx, wlog v)]\<rparr>)) \<Longrightarrow> wpv (call fx f) Q R v"
  by (auto simp: wpv_def call_def view_updates)

lemma wpv_get [wpv_rules]: "(\<And>t. Q (f (v\<lparr>wtick := t\<rparr>)) v) \<Longrightarrow> wpv (get f) Q R v"
  unfolding wpv_def
proof (intro allI impI)
  fix w assume q: "\<And>t. Q (f (v\<lparr>wtick := t\<rparr>)) v" and v: "view w = v"
  then have "v\<lparr>wtick := wtick w\<rparr> = w" by (auto simp: view_def)
  with q [of "wtick w"] v show "case get f w of (Inl e, w') \<Rightarrow> R e (view w') | (Inr a, w') \<Rightarrow> Q a (view w')"
    by (simp add: get_def)
qed

lemma wpv_modify [wpv_rules]:
  "(\<And>t. Q () ((f (v\<lparr>wtick := t\<rparr>))\<lparr>wtick := 0\<rparr>)) \<Longrightarrow> wpv (modify f) Q R v"
  unfolding wpv_def
proof (intro allI impI)
  fix w assume q: "\<And>t. Q () ((f (v\<lparr>wtick := t\<rparr>))\<lparr>wtick := 0\<rparr>)" and v: "view w = v"
  then have "v\<lparr>wtick := wtick w\<rparr> = w" by (auto simp: view_def)
  with q [of "wtick w"] show "case modify f w of (Inl e, w') \<Rightarrow> R e (view w') | (Inr a, w') \<Rightarrow> Q a (view w')"
    by (simp add: modify_def view_def)
qed

lemma wpv_append [wpv_rules]:
  assumes "Q () (v\<lparr>wlog := wlog v @ [p]\<rparr>)"
    and "\<And>m. R (Session (Database m)) v" "\<And>m. R (Session (Database m)) (v\<lparr>wlog := wlog v @ [p]\<rparr>)"
  shows "wpv (append_event E p) Q R v"
  using assms by (auto simp: wpv_def append_event_def view_updates split: db_reply.split)

lemma wpv_emit [wpv_rules]:
  assumes "Q () (v\<lparr>wlog := wlog v @ [event_json ev]\<rparr>)"
    and "\<And>m. R (Session (Database m)) v" "\<And>m. R (Session (Database m)) (v\<lparr>wlog := wlog v @ [event_json ev]\<rparr>)"
  shows "wpv (emit E ev) Q R v"
  unfolding emit_def using assms by (rule wpv_append)

lemma wpv_replay [wpv_rules]:
  "Q (wlog v) v \<Longrightarrow> (\<And>m. R (Session (Database m)) v) \<Longrightarrow> wpv (replay E) Q R v"
  unfolding replay_def by (intro wpv_rules) (auto intro!: wpv_get wpv_throw split: option.split)

lemma wpv_attempt [wpv_rules]:
  "wpv m (\<lambda>a. Q (Inr a)) (\<lambda>e. Q (Inl e)) v \<Longrightarrow> wpv (attempt m) Q R v"
  unfolding wpv_def attempt_def by (intro allI impI, case_tac "m w"; case_tac "fst (m w)") auto

lemma wpv_from_log [wpv_rules]:
  "(\<And>x. f (wlog v) = Inr x \<Longrightarrow> Q x v) \<Longrightarrow> (\<And>e. f (wlog v) = Inl e \<Longrightarrow> R e v) \<Longrightarrow>
    (\<And>m. R (Session (Database m)) v) \<Longrightarrow> wpv (from_log E f) Q R v"
  unfolding from_log_def by (intro wpv_rules) auto

lemma wpv_progress [wpv_rules]:
  "(\<And>P. compute_progress (wlog v) = Inr P \<Longrightarrow> Q P v) \<Longrightarrow>
    (\<And>e. compute_progress (wlog v) = Inl e \<Longrightarrow> R e v) \<Longrightarrow> (\<And>m. R (Session (Database m)) v) \<Longrightarrow>
    wpv (progress_from_log E) Q R v"
  unfolding progress_from_log_def by (intro wpv_rules) auto

definition closed_as :: "SessionStatus \<Rightarrow> World \<Rightarrow> World" where
  "closed_as st v = (if wdb v = Running then v\<lparr>wdb := st, wstatus := st\<rparr> else v)"

lemma wpv_finish [wpv_rules]:
  assumes "Q () (closed_as st v)"
    and "\<And>m. R (Session (Database m)) v"
    and "\<And>m. wdb v = Running \<Longrightarrow> R (Session (Database m)) (v\<lparr>wdb := st\<rparr>)"
  shows "wpv (finish_session E st) Q R v"
  using assms by (auto simp: wpv_def finish_session_def closed_as_def view_updates Let_def split: db_reply.splits)

lemma wpv_now [wpv_rules]: "(\<And>t. Q t v) \<Longrightarrow> wpv (now E) Q R v"
  unfolding now_def by (intro wpv_rules)

lemma wpv_elapsed [wpv_rules]: "(\<And>d. Q d v) \<Longrightarrow> wpv (elapsed E start) Q R v"
  unfolding elapsed_def by (intro wpv_rules)

lemma wpv_is_cancelled [wpv_rules]: "(\<And>b. Q b v) \<Longrightarrow> wpv (is_cancelled E) Q R v"
  unfolding is_cancelled_def by (intro wpv_rules)

lemma wpv_emit_now [wpv_rules]:
  assumes "\<And>ts. Q () (v\<lparr>wlog := wlog v @ [event_json (f ts)]\<rparr>)"
    and "\<And>m. R (Session (Database m)) v"
    and "\<And>m ts. R (Session (Database m)) (v\<lparr>wlog := wlog v @ [event_json (f ts)]\<rparr>)"
  shows "wpv (emit_now E f) Q R v"
  unfolding emit_now_def by (intro wpv_rules assms)

text \<open>The race: the timeout arm is only seen with a timeout.\<close>

lemma wpv_race [wpv_rules]:
  assumes "\<And>t. Q (Done (f t)) (v\<lparr>wtrace := wtrace v @ [(fx, wlog v)]\<rparr>)"
    and "Q SelCancelled (v\<lparr>wtrace := wtrace v @ [(fx, wlog v)]\<rparr>)"
    and "\<And>d. timeout = Some d \<Longrightarrow> Q SelTimedOut (v\<lparr>wtrace := wtrace v @ [(fx, wlog v)]\<rparr>)"
    and "\<And>s. Q (SelSignal s) (v\<lparr>wtrace := wtrace v @ [(fx, wlog v)]\<rparr>)"
  shows "wpv (race E timeout fx f) Q R v"
  unfolding race_def using assms by (intro wpv_rules) (auto split: Arm.split)

lemma wpv_if [wpv_rules]:
  "(b \<Longrightarrow> wpv m Q R v) \<Longrightarrow> (\<not> b \<Longrightarrow> wpv k Q R v) \<Longrightarrow> wpv (if b then m else k) Q R v"
  by simp

lemma wpv_option [wpv_rules]:
  "(x = None \<Longrightarrow> wpv m Q R v) \<Longrightarrow> (\<And>y. x = Some y \<Longrightarrow> wpv (f y) Q R v) \<Longrightarrow>
    wpv (case x of None \<Rightarrow> m | Some y \<Rightarrow> f y) Q R v"
  by (simp split: option.split)

lemma wpv_sum [wpv_rules]:
  "(\<And>e. x = Inl e \<Longrightarrow> wpv (f e) Q R v) \<Longrightarrow> (\<And>a. x = Inr a \<Longrightarrow> wpv (g a) Q R v) \<Longrightarrow>
    wpv (case x of Inl e \<Rightarrow> f e | Inr a \<Rightarrow> g a) Q R v"
  by (simp split: sum.split)

lemma wpv_prod [wpv_rules]:
  "(\<And>a b. x = (a, b) \<Longrightarrow> wpv (f a b) Q R v) \<Longrightarrow> wpv (case x of (a, b) \<Rightarrow> f a b) Q R v"
  by (simp split: prod.split)

lemma wpv_strategy [wpv_rules]:
  "(x = BHead \<Longrightarrow> wpv m Q R v) \<Longrightarrow> (\<And>t. x = BMergeToHead t \<Longrightarrow> wpv (f t) Q R v) \<Longrightarrow>
    (\<And>n. x = BNamedBranch n \<Longrightarrow> wpv (g n) Q R v) \<Longrightarrow>
    wpv (case x of BHead \<Rightarrow> m | BMergeToHead t \<Rightarrow> f t | BNamedBranch n \<Rightarrow> g n) Q R v"
  by (simp split: BranchStrategy.split)

lemma wpv_selection [wpv_rules]:
  "(\<And>a. x = Done a \<Longrightarrow> wpv (f a) Q R v) \<Longrightarrow> (x = SelCancelled \<Longrightarrow> wpv c Q R v) \<Longrightarrow>
    (x = SelTimedOut \<Longrightarrow> wpv t Q R v) \<Longrightarrow> (\<And>s. x = SelSignal s \<Longrightarrow> wpv (g s) Q R v) \<Longrightarrow>
    wpv (case x of Done a \<Rightarrow> f a | SelCancelled \<Rightarrow> c | SelTimedOut \<Rightarrow> t | SelSignal s \<Rightarrow> g s) Q R v"
  by (simp split: StepSelection.split)

section \<open>The frame\<close>

text \<open>
  What any operation leaves of the world: the log is extended by events of the engine that satisfy
  \<open>P\<close>, the trace by effects that satisfy \<open>A\<close>, each called on a log that extends the old one, and a
  terminal session row stays.
\<close>

definition grown :: "(Event \<Rightarrow> bool) \<Rightarrow> (Effect \<Rightarrow> bool) \<Rightarrow> World \<Rightarrow> World \<Rightarrow> bool" where
  "grown P A w w' \<longleftrightarrow>
    (\<exists>es tr. wlog w' = wlog w @ map event_json es \<and> list_all P es \<and>
      wtrace w' = wtrace w @ tr \<and> (\<forall>(fx, L) \<in> set tr. A fx \<and> prefix (wlog w) L)) \<and>
    (wdb w \<noteq> Running \<longrightarrow> wdb w' = wdb w)"

definition adds :: "(Event \<Rightarrow> bool) \<Rightarrow> (Effect \<Rightarrow> bool) \<Rightarrow> 'a eng \<Rightarrow> bool" where
  "adds P A m \<longleftrightarrow> (\<forall>w. grown P A w (snd (m w)))"

lemma grown_refl [simp]: "grown P A w w"
  unfolding grown_def by (intro conjI exI [of _ "[]"]) auto

lemma grown_trans:
  assumes "grown P A w w'" "grown P A w' w''"
  shows "grown P A w w''"
proof -
  obtain es tr where 1: "wlog w' = wlog w @ map event_json es" "list_all P es"
      "wtrace w' = wtrace w @ tr" "\<forall>(fx, L) \<in> set tr. A fx \<and> prefix (wlog w) L"
    using assms(1) unfolding grown_def by blast
  obtain es' tr' where 2: "wlog w'' = wlog w' @ map event_json es'" "list_all P es'"
      "wtrace w'' = wtrace w' @ tr'" "\<forall>(fx, L) \<in> set tr'. A fx \<and> prefix (wlog w') L"
    using assms(2) unfolding grown_def by blast
  have "\<forall>(fx, L) \<in> set (tr @ tr'). A fx \<and> prefix (wlog w) L"
    using 1 2(4) by (auto simp: prefix_def)
  moreover have "wdb w \<noteq> Running \<longrightarrow> wdb w'' = wdb w" using assms by (auto simp: grown_def)
  ultimately show ?thesis
    unfolding grown_def using 1 2 by (intro conjI exI [of _ "es @ es'"] exI [of _ "tr @ tr'"]) auto
qed

lemma grown_tick [simp]: "grown P A w (w\<lparr>wtick := t\<rparr>)"
  unfolding grown_def by (intro conjI exI [of _ "[]"]) auto

lemma addsI: "(\<And>w r w'. m w = (r, w') \<Longrightarrow> grown P A w w') \<Longrightarrow> adds P A m"
  unfolding adds_def by (metis prod.collapse)

lemma addsD: "adds P A m \<Longrightarrow> m w = (r, w') \<Longrightarrow> grown P A w w'"
  unfolding adds_def by (metis snd_conv)

lemma grown_mono:
  assumes "grown P A w w'" "\<And>ev. P ev \<Longrightarrow> P' ev" "\<And>fx. A fx \<Longrightarrow> A' fx"
  shows "grown P' A' w w'"
proof -
  obtain es tr where 1: "wlog w' = wlog w @ map event_json es" "list_all P es"
      "wtrace w' = wtrace w @ tr" "\<forall>x \<in> set tr. A (fst x) \<and> prefix (wlog w) (snd x)"
    using assms(1) unfolding grown_def by (auto simp: case_prod_beta)
  moreover have "list_all P' es" using 1(2) assms(2) by (auto simp: list_all_iff)
  moreover have "\<forall>x \<in> set tr. A' (fst x) \<and> prefix (wlog w) (snd x)" using 1(4) assms(3) by blast
  ultimately show ?thesis using assms(1) unfolding grown_def by (auto simp: case_prod_beta)
qed

lemma adds_mono:
  "adds P A m \<Longrightarrow> (\<And>ev. P ev \<Longrightarrow> P' ev) \<Longrightarrow> (\<And>fx. A fx \<Longrightarrow> A' fx) \<Longrightarrow> adds P' A' m"
  unfolding adds_def by (blast intro: grown_mono)

lemma adds_ret [grows_rules]: "adds P A (ret a)"
  by (simp add: adds_def ret_def)

lemma adds_throw [grows_rules]: "adds P A (throw e)"
  by (simp add: adds_def throw_def)

lemma adds_ebind [grows_rules]: "adds P A m \<Longrightarrow> (\<And>a. adds P A (f a)) \<Longrightarrow> adds P A (ebind m f)"
  by (rule addsI) (auto simp: ebind_def split: prod.splits sum.splits dest: addsD intro: grown_trans)

lemma adds_eseq [grows_rules]: "adds P A m \<Longrightarrow> adds P A k \<Longrightarrow> adds P A (eseq m k)"
  by (simp add: eseq_def adds_ebind)

lemma adds_lift [grows_rules]: "adds P A (lift_result r)"
  by (simp add: adds_def lift_result_def)

lemma adds_ask [grows_rules]: "adds P A (ask f)"
  by (simp add: adds_def ask_def)

lemma adds_get [grows_rules]: "adds P A (get f)"
  by (simp add: adds_def get_def)

lemma adds_attempt [grows_rules]: "adds P A m \<Longrightarrow> adds P A (attempt m)"
  by (rule addsI) (auto simp: attempt_def split: prod.splits dest: addsD)

lemma adds_call [grows_rules]: "A fx \<Longrightarrow> adds P A (call fx f)"
  unfolding adds_def call_def grown_def
  by (intro allI conjI exI [of _ "[]"] exI) auto

lemma adds_modify [grows_rules]:
  "(\<And>w. wlog (f w) = wlog w \<and> wtrace (f w) = wtrace w \<and> wdb (f w) = wdb w) \<Longrightarrow> adds P A (modify f)"
  unfolding adds_def modify_def grown_def by (intro allI conjI exI [of _ "[]"]) auto

lemma adds_append: "P ev \<Longrightarrow> adds P A (append_event E (event_json ev))"
proof -
  assume "P ev"
  then have "grown P A w (w\<lparr>wlog := wlog w @ [event_json ev], wtick := t\<rparr>)" for w t
    unfolding grown_def by (intro conjI exI [of _ "[ev]"] exI [of _ "[]"]) auto
  then show ?thesis by (auto simp: adds_def append_event_def split: db_reply.split)
qed

lemma adds_emit [grows_rules]: "P ev \<Longrightarrow> adds P A (emit E ev)"
  unfolding emit_def by (rule adds_append)

lemma adds_emit_now [grows_rules]: "(\<And>ts. P (f ts)) \<Longrightarrow> adds P A (emit_now E f)"
  unfolding emit_now_def by (intro grows_rules)

lemma adds_finish [grows_rules]: "adds P A (finish_session E st)"
proof -
  have "grown P A w (w\<lparr>wtick := t, wdb := st\<rparr>)" "grown P A w (w\<lparr>wtick := t, wdb := st, wstatus := st\<rparr>)"
    if "wdb w = Running" for w t
    using that unfolding grown_def by (intro conjI exI [of _ "[]"]; simp)+
  then show ?thesis by (auto simp: adds_def finish_session_def Let_def split: db_reply.split)
qed

lemma adds_option [grows_rules]:
  "adds P A m \<Longrightarrow> (\<And>y. x = Some y \<Longrightarrow> adds P A (f y)) \<Longrightarrow> adds P A (case x of None \<Rightarrow> m | Some y \<Rightarrow> f y)"
  by (simp split: option.split)

lemma adds_sum [grows_rules]:
  "(\<And>e. x = Inl e \<Longrightarrow> adds P A (f e)) \<Longrightarrow> (\<And>a. x = Inr a \<Longrightarrow> adds P A (g a)) \<Longrightarrow>
    adds P A (case x of Inl e \<Rightarrow> f e | Inr a \<Rightarrow> g a)"
  by (simp split: sum.split)

lemma adds_prod [grows_rules]:
  "(\<And>a b. x = (a, b) \<Longrightarrow> adds P A (f a b)) \<Longrightarrow> adds P A (case x of (a, b) \<Rightarrow> f a b)"
  by (simp split: prod.split)

lemma adds_if [grows_rules]:
  "(b \<Longrightarrow> adds P A m) \<Longrightarrow> (\<not> b \<Longrightarrow> adds P A k) \<Longrightarrow> adds P A (if b then m else k)"
  by simp

lemma adds_selection [grows_rules]:
  "(\<And>a. adds P A (f a)) \<Longrightarrow> adds P A c \<Longrightarrow> adds P A t \<Longrightarrow> (\<And>s. adds P A (g s)) \<Longrightarrow>
    adds P A (case x of Done a \<Rightarrow> f a | SelCancelled \<Rightarrow> c | SelTimedOut \<Rightarrow> t | SelSignal s \<Rightarrow> g s)"
  by (simp split: StepSelection.split)

lemma adds_reads [grows_rules]:
  "adds P A (replay E)" "adds P A (from_log E f)" "adds P A (progress_from_log E)" "adds P A (now E)"
  "adds P A (elapsed E t)" "adds P A (is_cancelled E)"
  unfolding replay_def from_log_def progress_from_log_def now_def elapsed_def is_cancelled_def
  by (intro grows_rules)+

lemma adds_race [grows_rules]: "A fx \<Longrightarrow> adds P A (race E timeout fx f)"
  unfolding race_def by (intro grows_rules)

end
