(* ===== verification/EngineSteps.thy ===== *)
theory EngineSteps
  imports EngineBase
begin

text \<open>
  The top-level steps of \<open>crates/stepyard-harness/src/engine.rs\<close> that are not commands or
  containers: \<open>run_gate_step\<close>, \<open>run_template_step\<close>, \<open>run_script_step\<close>, \<open>run_agent_step\<close> and
  \<open>run_chat_step\<close>. A guard that returns early is a nested \<open>case\<close>; the three ways a step ends
  against its will (\<open>fail_step\<close>, \<open>cancel_step\<close>, \<open>time_out_step\<close>) are shared.
\<close>

section \<open>Endings\<close>

text \<open>
  The text of an error of the harness, as its \<open>Display\<close> gives it. The only errors the steps turn
  into text come from \<open>resolve_env\<close>, which makes the \<open>InvalidState\<close> ones; a workspace error
  prints without the details its \<open>Debug\<close> form adds.
\<close>

fun show_engine_error :: "EngineError \<Rightarrow> string" where
  "show_engine_error (InvalidState m) = ''invalid state: '' @ m"
| "show_engine_error (Session e) = ''session error: '' @ show_session_error e"
| "show_engine_error (Sandbox e) = ''sandbox error: '' @ show_sandbox_error e"
| "show_engine_error (StepFailedErr i r) = ''step '' @ show_nat i @ '' failed: '' @ show_reason r"
| "show_engine_error (WorkspaceErr e) = ''workspace error''"
| "show_engine_error (Panic m) = m"

text \<open>\<open>emit_gate_failure\<close>, and the same sequence wherever a step is written out of it.\<close>

definition fail_step :: "Engine \<Rightarrow> Step \<Rightarrow> string \<Rightarrow> nat \<Rightarrow> bool \<Rightarrow> StepOutcome eng" where
  "fail_step E s err start sandboxed =
    eseq (emit_failed_at E s (step_type_label (s_kind s)) err start sandboxed)
    (eseq (finalise_fail E) (ret (StepFailedO (s_name s) err)))"

text \<open>The same with a duration read before.\<close>

definition fail_step_after :: "Engine \<Rightarrow> Step \<Rightarrow> string \<Rightarrow> nat \<Rightarrow> StepOutcome eng" where
  "fail_step_after E s err duration_ms =
    eseq (emit_failed E s (step_type_label (s_kind s)) err duration_ms False)
    (eseq (finalise_fail E) (ret (StepFailedO (s_name s) err)))"

definition cancel_step :: "Engine \<Rightarrow> Step \<Rightarrow> string \<Rightarrow> nat \<Rightarrow> StepOutcome eng" where
  "cancel_step E s err duration_ms =
    eseq (emit_failed E s (step_type_label (s_kind s)) err duration_ms False)
    (eseq (finalise_cancel E) (ret CancelledO))"

definition signal_step :: "Engine \<Rightarrow> Step \<Rightarrow> string \<Rightarrow> nat \<Rightarrow> string \<Rightarrow> nat \<Rightarrow> StepOutcome eng" where
  "signal_step E s err duration_ms sg step_index =
    eseq (emit E (SignalReceived (signal_from sg)))
    (eseq (emit_failed E s (step_type_label (s_kind s)) err duration_ms False)
    (eseq (finalise_cancel E)
      (throw (StepFailedErr step_index (ReasonSignal (signal_from sg))))))"

definition time_out_step :: "Engine \<Rightarrow> Step \<Rightarrow> (nat \<Rightarrow> string) \<Rightarrow> nat \<Rightarrow> nat \<Rightarrow> StepOutcome eng" where
  "time_out_step E s err duration_ms step_index =
    (case s_timeout s of
       None \<Rightarrow> throw (Panic ''TimedOut requires step.timeout.is_some()'')
     | Some d \<Rightarrow>
       (let configured_ms = millis_u64 d in
        eseq (emit E (StepTimeoutFired step_index configured_ms))
        (eseq (emit_failed E s (step_type_label (s_kind s)) (err configured_ms) duration_ms False)
        (eseq (finalise_fail E)
          (throw (StepFailedErr step_index (StepTimeout configured_ms)))))))"

text \<open>The render context of a top-level step.\<close>

definition top_context :: "Engine \<Rightarrow> (string \<rightharpoonup> StepOutputSnapshot) \<Rightarrow> RenderContext" where
  "top_context E outs = \<lparr>rc_steps = outs, rc_target = e_target E, rc_vars = e_vars E, rc_scope = None\<rparr>"

definition text_snapshot :: "string \<Rightarrow> StepOutputSnapshot" where
  "text_snapshot s = \<lparr>stdout = s, stderr = [], exit_code = 0\<rparr>"

section \<open>Gate\<close>

definition gate_condition :: "Step \<Rightarrow> string option" where
  "gate_condition s = (case s_condition s of None \<Rightarrow> None | Some c \<Rightarrow> if trim c = [] then None else Some c)"

text \<open>The guards before the condition is rendered, and the truth of the condition.\<close>

definition gate_guards ::
  "(string option \<Rightarrow> (GateError, GateAction) result) \<Rightarrow> Step \<Rightarrow>
    (string, GateAction \<times> GateAction \<times> string) result" where
  "gate_guards parse s =
    res_bind (map_err show_gate_error (parse (s_on_pass s))) (\<lambda>on_pass.
    res_bind (map_err show_gate_error (parse (s_on_fail s))) (\<lambda>on_fail.
    res_bind (ok_or (show_gate_error (MissingCondition (s_name s))) (gate_condition s)) (\<lambda>condition.
    Inr (on_pass, on_fail, condition))))"

definition gate_passed :: "tera \<Rightarrow> Step \<Rightarrow> string \<Rightarrow> RenderContext \<Rightarrow> (string, bool) result" where
  "gate_passed tera s condition ctx =
    res_bind (map_err show_render_error (render tera condition ctx)) (\<lambda>rendered.
    map_err show_gate_error (evaluate_bool (s_name s) rendered))"

definition run_gate_step ::
  "Engine \<Rightarrow> Step \<Rightarrow> (string \<rightharpoonup> StepOutputSnapshot) \<Rightarrow> nat \<Rightarrow> StepOutcome eng" where
  "run_gate_step E s outs start =
    (case gate_guards parse_action s of
       Inl err \<Rightarrow> fail_step E s err start False
     | Inr (on_pass, on_fail, condition) \<Rightarrow>
       (case gate_passed (h_tera (e_host E)) s condition (top_context E outs) of
          Inl err \<Rightarrow> fail_step E s err start False
        | Inr passed \<Rightarrow>
          ebind (elapsed E start) (\<lambda>duration_ms.
            case outcome_for passed on_pass on_fail (s_message s) of
              VContinue \<Rightarrow>
                eseq (emit_now E (\<lambda>ts. StepCompleted (s_name s) (step_type_label (s_kind s)) duration_ms ts
                    None None None False None None (Some Continue) None))
                  (ret (StepCompletedO (s_name s)))
            | VFail msg \<Rightarrow> fail_step_after E s (show_gate_error (GateFailed (s_name s) msg)) duration_ms
            | _ \<Rightarrow> throw (Panic ''top-level gate cannot produce Skip/Break''))))"

section \<open>Template and script\<close>

definition complete_text :: "Engine \<Rightarrow> Step \<Rightarrow> string \<Rightarrow> nat \<Rightarrow> StepOutcome eng" where
  "complete_text E s rendered start =
    ebind (elapsed E start) (\<lambda>duration_ms.
    eseq (emit_now E (\<lambda>ts. StepCompleted (s_name s) (step_type_label (s_kind s)) duration_ms ts
        None None None False (Some (text_snapshot rendered)) None None None))
      (ret (StepCompletedO (s_name s))))"

definition run_template_step ::
  "Engine \<Rightarrow> Step \<Rightarrow> (string \<rightharpoonup> StepOutputSnapshot) \<Rightarrow> nat \<Rightarrow> StepOutcome eng" where
  "run_template_step E s outs start =
    (let h = e_host E;
         prompts_dir = (case w_prompts_dir (e_workflow E) of None \<Rightarrow> DEFAULT_PROMPTS_DIR | Some d \<Rightarrow> d) in
     ebind (ask (h_canon h)) (\<lambda>canon_path.
     ebind (ask (h_canon h)) (\<lambda>canon_base.
     ebind (ask (h_read h)) (\<lambda>rd.
       case render_template (h_tera h) canon_path canon_base rd prompts_dir (s_prompt s) (s_name s)
           (top_context E outs) of
         Inl e \<Rightarrow> fail_step E s (show_template_exec_error e) start False
       | Inr rendered \<Rightarrow> complete_text E s rendered start))))"

definition run_script_step ::
  "Engine \<Rightarrow> Step \<Rightarrow> (string \<rightharpoonup> StepOutputSnapshot) \<Rightarrow> nat \<Rightarrow> StepOutcome eng" where
  "run_script_step E s outs start =
    (case execute_script (h_rhai (e_host E)) (s_name s) (s_command s) outs (e_target E) of
       Inl e \<Rightarrow> fail_step E s (show_script_exec_error e) start False
     | Inr rendered \<Rightarrow> complete_text E s rendered start)"

section \<open>Agent\<close>

text \<open>The guards before the child is spawned: the environment and the rendered prompt.\<close>

definition agent_setup :: "Engine \<Rightarrow> Step \<Rightarrow> RenderContext \<Rightarrow> (string, env \<times> string) result" where
  "agent_setup E s ctx =
    res_bind (map_err show_engine_error (prepare_step E s)) (\<lambda>resolved_env.
    res_bind (ok_or (''agent step `'' @ s_name s @ ''` has no prompt '' @ em_dash @
        '' the adapter should have rejected this at load time'') (s_prompt s)) (\<lambda>template.
    res_bind (map_err (\<lambda>e. ''agent prompt render failed: '' @ show_render_error e)
        (render (h_tera (e_host E)) template ctx)) (\<lambda>rendered_prompt.
    Inr (resolved_env, rendered_prompt))))"

text \<open>The child, raced against cancel, timeout and shutdown.\<close>

definition race_agent ::
  "Engine \<Rightarrow> Step \<Rightarrow> string \<Rightarrow> AgentSessionState \<Rightarrow> env \<Rightarrow>
    ((AgentExecError, AgentExecOutput) result StepSelection) eng" where
  "race_agent E s rendered_prompt st resolved_env =
    ebind (agent_exec_target E resolved_env) (\<lambda>(agent_env, agent_container).
    race E (s_timeout s) (FxAgent s rendered_prompt agent_env agent_container) (\<lambda>t.
      agent_run (h_json (e_host E)) (h_spawn (e_host E) t) s rendered_prompt st agent_env
        (w_completion_signal (e_workflow E)) agent_container))"

definition agent_result ::
  "Engine \<Rightarrow> Step \<Rightarrow> nat \<Rightarrow> nat \<Rightarrow> (AgentExecError, AgentExecOutput) result \<Rightarrow> StepOutcome eng" where
  "agent_result E s duration_ms step_index r =
    (case r of
       Inl e \<Rightarrow> fail_step_after E s (show_agent_exec_error e) duration_ms
     | Inr out \<Rightarrow>
       if ao_completion_signaled out then
         (case w_completion_signal (e_workflow E) of
            None \<Rightarrow> throw (Panic ''completion_signaled requires workflow.completion_signal'')
          | Some sg \<Rightarrow>
            eseq (emit E (CompletionSignaled step_index sg))
            (eseq (finalise_success E) (ret WorkflowCompletedO)))
       else
         eseq (emit_now E (\<lambda>ts. StepCompleted (s_name s) (step_type_label (s_kind s)) duration_ms ts
             (ao_input_tokens out) (ao_output_tokens out) (ao_cost_usd out) False
             (Some (text_snapshot (ao_response out))) None None (ao_session_id out)))
           (ret (StepCompletedO (s_name s))))"

definition run_agent_step :: "Engine \<Rightarrow> Step \<Rightarrow> Progress \<Rightarrow> nat \<Rightarrow> nat \<Rightarrow> StepOutcome eng" where
  "run_agent_step E s progress start step_index =
    (case agent_setup E s (top_context E (outputs progress)) of
       Inl err \<Rightarrow> fail_step E s err start False
     | Inr (resolved_env, rendered_prompt) \<Rightarrow>
       (let st = \<lparr>as_ids = agent_session_ids progress, as_first = first_agent_session_id progress\<rparr> in
        ebind (race_agent E s rendered_prompt st resolved_env) (\<lambda>selection.
        ebind (elapsed E start) (\<lambda>duration_ms.
          case selection of
            SelSignal sg \<Rightarrow> signal_step E s (''Signal: '' @ sg) duration_ms sg step_index
          | SelTimedOut \<Rightarrow> time_out_step E s (\<lambda>ms. ''step timed out after '' @ show_nat ms @ ''ms'')
              duration_ms step_index
          | SelCancelled \<Rightarrow> cancel_step E s ''Cancelled'' duration_ms
          | Done r \<Rightarrow> agent_result E s duration_ms step_index r))))"

section \<open>Chat\<close>

text \<open>The guards of a chat step, up to the client: environment, prompt, API key, client.\<close>

definition chat_setup ::
  "Engine \<Rightarrow> Step \<Rightarrow> RenderContext \<Rightarrow> (string, string \<times> string option) result" where
  "chat_setup E s ctx =
    res_bind (map_err show_engine_error (prepare_step E s)) (\<lambda>resolved_env.
    res_bind (ok_or (show_chat_exec_error (MissingPrompt (s_name s))) (s_prompt s)) (\<lambda>template.
    res_bind (map_err (\<lambda>e. ''chat prompt render failed: '' @ show_render_error e)
        (render (h_tera (e_host E)) template ctx)) (\<lambda>rendered_prompt.
    res_bind (map_err show_api_key_error
        (resolve_api_key (h_env (e_host E)) (s_name s) (s_api_key_env s) resolved_env)) (\<lambda>key.
    if \<not> e_chat_client E then Inl (show_chat_exec_error (NoClientConfigured (s_name s)))
    else Inr (rendered_prompt, key)))))"

definition session_bucket :: "Step \<Rightarrow> string" where
  "session_bucket s = (case s_chat_session s of None \<Rightarrow> s_name s | Some b \<Rightarrow> b)"

definition history_of :: "(string \<rightharpoonup> ChatMessage list) \<Rightarrow> string \<Rightarrow> ChatMessage list" where
  "history_of hist bucket = (case hist bucket of None \<Rightarrow> [] | Some h \<Rightarrow> h)"

text \<open>The provider call, raced against cancel, timeout and shutdown.\<close>

definition race_chat ::
  "Engine \<Rightarrow> Step \<Rightarrow> ChatCompletionRequest \<Rightarrow> ((ChatExecError, ChatExecOutput) result StepSelection) eng" where
  "race_chat E s req = race E (s_timeout s) (FxChat req) (\<lambda>t. chat_run s req (h_chat (e_host E) t))"

text \<open>The assistant turn, then the completion.\<close>

definition chat_completed ::
  "Engine \<Rightarrow> Step \<Rightarrow> nat \<Rightarrow> bool \<Rightarrow> ScopeContext option \<Rightarrow> ChatExecOutput \<Rightarrow> unit eng" where
  "chat_completed E s duration_ms sandboxed ctx out =
    eseq (emit_now E (\<lambda>ts. ChatMessageAppended (s_name s) (session_bucket s) Assistant (co_response out) ts))
    (emit_now E (\<lambda>ts. StepCompleted (s_name s) (step_type_label (s_kind s)) duration_ms ts
        (co_input_tokens out) (co_output_tokens out) (co_cost_usd out) sandboxed
        (Some (text_snapshot (co_response out))) ctx None None))"

definition chat_result ::
  "Engine \<Rightarrow> Step \<Rightarrow> nat \<Rightarrow> (ChatExecError, ChatExecOutput) result \<Rightarrow> StepOutcome eng" where
  "chat_result E s duration_ms r =
    (case r of
       Inl e \<Rightarrow> fail_step_after E s (show_chat_exec_error e) duration_ms
     | Inr out \<Rightarrow>
       eseq (chat_completed E s duration_ms False None out) (ret (StepCompletedO (s_name s))))"

definition run_chat_step :: "Engine \<Rightarrow> Step \<Rightarrow> Progress \<Rightarrow> nat \<Rightarrow> nat \<Rightarrow> StepOutcome eng" where
  "run_chat_step E s progress start step_index =
    (case chat_setup E s (top_context E (outputs progress)) of
       Inl err \<Rightarrow> fail_step E s err start False
     | Inr (rendered_prompt, key) \<Rightarrow>
       (let bucket = session_bucket s;
            req = build_chat_request s rendered_prompt (history_of (chat_sessions progress) bucket) key in
        eseq (emit_now E (\<lambda>ts. ChatMessageAppended (s_name s) bucket User rendered_prompt ts))
        (ebind (race_chat E s req) (\<lambda>selection.
         ebind (elapsed E start) (\<lambda>duration_ms.
           case selection of
             SelSignal sg \<Rightarrow> signal_step E s
               (show_chat_exec_error (ChatSignalReceived (s_name s) (signal_from sg))) duration_ms sg step_index
           | SelTimedOut \<Rightarrow> time_out_step E s (\<lambda>ms. show_chat_exec_error (ChatTimeout (s_name s) ms))
               duration_ms step_index
           | SelCancelled \<Rightarrow> cancel_step E s (show_chat_exec_error (ChatCancelled (s_name s))) duration_ms
           | Done r \<Rightarrow> chat_result E s duration_ms r)))))"

end
