(* ===== verification/Scope.thy ===== *)
theory Scope
  imports EngineSteps Replay
begin

text \<open>
  The scope runner, \<open>crates/stepyard-harness/src/scope.rs\<close>: \<open>call\<close>, \<open>repeat\<close>, \<open>map\<close> and
  \<open>parallel\<close> containers, the walk over a scope's body and the events of its steps. What a
  container knows it reads from the log (theory \<open>Replay\<close>). The iteration counter is a \<open>u32\<close>: its
  increment panics at \<open>2 ^ 32\<close>, as in the replay.
\<close>

section \<open>Outcomes\<close>

datatype BodyStep =
    BodyContinue "StepOutputSnapshot option"
  | BodySkip
  | BodyBreak
  | BodyFailed string
  | BodyCancelled
  | BodySignal string
  | BodyTimedOut nat
  | BodyIdleTimedOut nat

datatype IterationOutcome =
    IterCompleted "StepOutputSnapshot option"
  | IterBreak "StepOutputSnapshot option"
  | IterFailed string
  | IterCancelled
  | IterSignal string
  | IterTimedOut nat
  | IterIdleTimedOut nat

section \<open>Emitting\<close>

definition emit_scope_started :: "Engine \<Rightarrow> Step \<Rightarrow> ScopeContext \<Rightarrow> unit eng" where
  "emit_scope_started E s ctx =
    emit_now E (\<lambda>ts. StepStarted (s_name s) (step_type_label (s_kind s)) ts (Some ctx))"

definition emit_scope_gate_failure :: "Engine \<Rightarrow> Step \<Rightarrow> nat \<Rightarrow> string \<Rightarrow> BodyStep eng" where
  "emit_scope_gate_failure E s start err =
    eseq (emit_failed_at E s ''gate'' err start False)
    (eseq (finalise_fail E) (ret (BodyFailed err)))"

definition emit_scope_body_failure :: "Engine \<Rightarrow> Step \<Rightarrow> nat \<Rightarrow> string \<Rightarrow> BodyStep eng" where
  "emit_scope_body_failure E s start err =
    eseq (emit_failed_at E s (step_type_label (s_kind s)) err start False)
    (eseq (finalise_fail E) (ret (BodyFailed err)))"

definition emit_container_success :: "Engine \<Rightarrow> Step \<Rightarrow> nat \<Rightarrow> StepOutputSnapshot \<Rightarrow> StepOutcome eng" where
  "emit_container_success E s start synthetic =
    ebind (elapsed E start) (\<lambda>duration_ms.
    eseq (emit_now E (\<lambda>ts. StepCompleted (s_name s) (step_type_label (s_kind s)) duration_ms ts
        None None None False (Some synthetic) None None None))
      (ret (StepCompletedO (s_name s))))"

definition emit_container_failure :: "Engine \<Rightarrow> Step \<Rightarrow> nat \<Rightarrow> string \<Rightarrow> StepOutcome eng" where
  "emit_container_failure E s start err =
    eseq (emit_failed_at E s (step_type_label (s_kind s)) err start False)
    (eseq (finalise_fail E) (ret (StepFailedO (s_name s) err)))"

definition emit_container_cancel :: "Engine \<Rightarrow> Step \<Rightarrow> nat \<Rightarrow> StepOutcome eng" where
  "emit_container_cancel E s start =
    eseq (emit_failed_at E s (step_type_label (s_kind s)) ''Cancelled'' start False)
    (eseq (finalise_cancel E) (ret CancelledO))"

definition emit_container_signal :: "Engine \<Rightarrow> Step \<Rightarrow> nat \<Rightarrow> string \<Rightarrow> unit eng" where
  "emit_container_signal E s start sg =
    ebind (elapsed E start) (\<lambda>duration_ms.
    eseq (emit E (SignalReceived (signal_from sg)))
    (eseq (emit_failed E s (step_type_label (s_kind s)) (''Signal: '' @ sg) duration_ms False)
      (finalise_cancel E)))"

text \<open>The index of a container among the workflow's steps.\<close>

fun position_from :: "string \<Rightarrow> nat \<Rightarrow> Step list \<Rightarrow> nat option" where
  "position_from n i [] = None"
| "position_from n i (s # ss) = (if s_name s = n then Some i else position_from n (i + 1) ss)"

definition top_level_position_of :: "Engine \<Rightarrow> string \<Rightarrow> (EngineError, nat) result" where
  "top_level_position_of E n =
    ok_or (InvalidState (''scope runner cannot locate container `'' @ n @ ''` in workflow.steps''))
      (map_option as_u32 (position_from n 0 (w_steps (e_workflow E))))"

definition emit_container_timeout :: "Engine \<Rightarrow> Step \<Rightarrow> nat \<Rightarrow> string \<Rightarrow> nat \<Rightarrow> unit eng" where
  "emit_container_timeout E s start sub_step_name configured_ms =
    ebind (elapsed E start) (\<lambda>duration_ms.
    ebind (lift_result (top_level_position_of E (s_name s))) (\<lambda>step_index.
    eseq (emit E (StepTimeoutFired step_index configured_ms))
    (eseq (emit_failed E s (step_type_label (s_kind s))
        (''parallel sub-step `'' @ sub_step_name @ ''` timed out after '' @ show_nat configured_ms @ ''ms'')
        duration_ms False)
    (eseq (destroy_by_session E) (finalise_fail E)))))"

section \<open>The synthetic output of a container\<close>

definition scope_context_of ::
  "Engine \<Rightarrow> (string \<rightharpoonup> StepOutputSnapshot) \<Rightarrow> json \<Rightarrow> nat \<Rightarrow> RenderContext" where
  "scope_context_of E outs val index = \<lparr>rc_steps = outs, rc_target = e_target E, rc_vars = e_vars E,
    rc_scope = Some \<lparr>sv_value = val, sv_index = index\<rparr>\<rparr>"

definition output_stdout :: "StepOutputSnapshot option \<Rightarrow> string" where
  "output_stdout x = (case x of None \<Rightarrow> [] | Some s \<Rightarrow> stdout s)"

definition synthesise_container_output ::
  "Engine \<Rightarrow> Step \<Rightarrow> string option \<Rightarrow> StepOutputSnapshot option \<Rightarrow> nat \<Rightarrow> StepOutputSnapshot eng" where
  "synthesise_container_output E s scope_outputs last_output last_iteration =
    (case or_keep (s_outputs s) scope_outputs of
       None \<Rightarrow> ret (text_snapshot (output_stdout last_output))
     | Some tpl \<Rightarrow>
       ebind (attempt (from_log E (in_iteration_outputs (s_name s) last_iteration (2 ^ 32 - 1)))) (\<lambda>r.
         let in_scope = (case r of Inl _ \<Rightarrow> Map.empty | Inr m \<Rightarrow> m);
             val = (case last_output of None \<Rightarrow> JNull | Some snap \<Rightarrow> JStr (stdout snap)) in
         (case render (h_tera (e_host E)) tpl (scope_context_of E in_scope val last_iteration) of
            Inr rendered \<Rightarrow> ret (text_snapshot rendered)
          | Inl _ \<Rightarrow> ret (text_snapshot (output_stdout last_output)))))"

section \<open>The steps of a body\<close>

text \<open>The render context of a body step: the outputs of the earlier positions of its iteration.\<close>

definition body_context :: "Engine \<Rightarrow> ScopeContext \<Rightarrow> json \<Rightarrow> RenderContext eng" where
  "body_context E ctx val =
    ebind (from_log E (in_iteration_outputs (container ctx) (iteration ctx) (position ctx))) (\<lambda>in_scope.
      ret (scope_context_of E in_scope val (iteration ctx)))"

definition body_failed_now :: "Engine \<Rightarrow> Step \<Rightarrow> string \<Rightarrow> BodyStep eng" where
  "body_failed_now E s err =
    eseq (emit_failed E s ''cmd'' err 0 True) (eseq (finalise_fail E) (ret (BodyFailed err)))"

fun body_of_cmd :: "CmdOutcome \<Rightarrow> BodyStep" where
  "body_of_cmd (CmdSuccess snap) = BodyContinue (Some snap)"
| "body_of_cmd (CmdFailed e) = BodyFailed e"
| "body_of_cmd CmdCancelled = BodyCancelled"
| "body_of_cmd (CmdSignal sg) = BodySignal sg"
| "body_of_cmd (CmdTimedOut ms) = BodyTimedOut ms"
| "body_of_cmd (CmdIdleTimedOut ms) = BodyIdleTimedOut ms"

definition run_scope_body_cmd :: "Engine \<Rightarrow> Step \<Rightarrow> ScopeContext \<Rightarrow> json \<Rightarrow> BodyStep eng" where
  "run_scope_body_cmd E s ctx val =
    eseq (emit_scope_started E s ctx)
    (case prepare_step E s of
       Inl e \<Rightarrow> body_failed_now E s (show_engine_error e)
     | Inr resolved_env \<Rightarrow>
       ebind (body_context E ctx val) (\<lambda>rc.
         case render (h_tera (e_host E)) (s_command s) rc of
           Inl e \<Rightarrow> body_failed_now E s
             (''render scope-body cmd `'' @ s_name s @ ''`: '' @ show_render_error e)
         | Inr command \<Rightarrow>
           ebind (lift_result (top_level_position_of E (container ctx))) (\<lambda>index.
           ebind (now E) (\<lambda>start.
           ebind (execute_cmd_with_select E (s\<lparr>s_command := command\<rparr>) resolved_env index (Some ctx) start)
             (\<lambda>o'. ret (body_of_cmd o'))))))"

text \<open>\<open>render_scope_prompt\<close>: an error of the log is thrown, one of the prompt returned.\<close>

definition render_scope_prompt ::
  "Engine \<Rightarrow> Step \<Rightarrow> ScopeContext \<Rightarrow> json \<Rightarrow> ((string, string) result) eng" where
  "render_scope_prompt E s ctx val =
    (case s_prompt s of
       None \<Rightarrow> ret (Inl (step_type_label (s_kind s) @ '' step `'' @ s_name s @ ''` has no prompt '' @
         em_dash @ '' the adapter should have rejected this at load time''))
     | Some template \<Rightarrow>
       ebind (body_context E ctx val) (\<lambda>rc.
         ret (map_err show_render_error (render (h_tera (e_host E)) template rc))))"

text \<open>What an agent or chat step of a body does when its race is not won by the step.\<close>

definition body_signal :: "Engine \<Rightarrow> Step \<Rightarrow> string \<Rightarrow> string \<Rightarrow> nat \<Rightarrow> BodyStep eng" where
  "body_signal E s err sg duration_ms =
    eseq (emit E (SignalReceived (signal_from sg)))
    (eseq (emit_failed E s (step_type_label (s_kind s)) err duration_ms False)
    (eseq (finalise_cancel E) (ret (BodySignal sg))))"

definition body_timed_out ::
  "Engine \<Rightarrow> Step \<Rightarrow> ScopeContext \<Rightarrow> (nat \<Rightarrow> string) \<Rightarrow> nat \<Rightarrow> BodyStep eng" where
  "body_timed_out E s ctx err duration_ms =
    (case s_timeout s of
       None \<Rightarrow> throw (Panic ''TimedOut requires step.timeout.is_some()'')
     | Some d \<Rightarrow>
       ebind (lift_result (top_level_position_of E (container ctx))) (\<lambda>index.
       eseq (emit E (StepTimeoutFired index (millis_u64 d)))
       (eseq (emit_failed E s (step_type_label (s_kind s)) (err (millis_u64 d)) duration_ms False)
       (eseq (finalise_fail E) (ret (BodyTimedOut (millis_u64 d)))))))"

definition body_cancelled :: "Engine \<Rightarrow> Step \<Rightarrow> string \<Rightarrow> nat \<Rightarrow> BodyStep eng" where
  "body_cancelled E s err duration_ms =
    eseq (emit_failed E s (step_type_label (s_kind s)) err duration_ms False)
    (eseq (finalise_cancel E) (ret BodyCancelled))"

text \<open>The completion of a body step, with its place.\<close>

definition body_agent_result ::
  "Engine \<Rightarrow> Step \<Rightarrow> ScopeContext \<Rightarrow> nat \<Rightarrow> nat \<Rightarrow> (AgentExecError, AgentExecOutput) result \<Rightarrow> BodyStep eng" where
  "body_agent_result E s ctx start duration_ms r =
    (case r of
       Inl e \<Rightarrow> emit_scope_body_failure E s start (show_agent_exec_error e)
     | Inr out \<Rightarrow>
       (let snap = text_snapshot (ao_response out) in
        eseq (emit_now E (\<lambda>ts. StepCompleted (s_name s) (step_type_label (s_kind s)) duration_ms ts
            (ao_input_tokens out) (ao_output_tokens out) (ao_cost_usd out) False (Some snap) (Some ctx)
            None (ao_session_id out)))
          (ret (BodyContinue (Some snap)))))"

text \<open>In a body the child is run without a completion signal.\<close>

definition run_scope_body_agent :: "Engine \<Rightarrow> Step \<Rightarrow> ScopeContext \<Rightarrow> json \<Rightarrow> BodyStep eng" where
  "run_scope_body_agent E s ctx val =
    eseq (emit_scope_started E s ctx)
    (ebind (now E) (\<lambda>start.
      case prepare_step E s of
        Inl e \<Rightarrow> emit_scope_body_failure E s start (show_engine_error e)
      | Inr resolved_env \<Rightarrow>
        ebind (render_scope_prompt E s ctx val) (\<lambda>p.
          case p of
            Inl e \<Rightarrow> emit_scope_body_failure E s start (''agent prompt render failed: '' @ e)
          | Inr rendered_prompt \<Rightarrow>
            ebind (progress_from_log E) (\<lambda>progress.
            ebind (lift_result (top_level_position_of E (container ctx))) (\<lambda>index.
            ebind (agent_exec_target E resolved_env) (\<lambda>(agent_env, agent_container).
            ebind (race E (s_timeout s) (FxAgent s rendered_prompt agent_env agent_container) (\<lambda>t.
                agent_run (h_json (e_host E)) (h_spawn (e_host E) t) s rendered_prompt
                  \<lparr>as_ids = agent_session_ids progress, as_first = first_agent_session_id progress\<rparr>
                  agent_env None agent_container)) (\<lambda>selection.
            ebind (elapsed E start) (\<lambda>duration_ms.
              case selection of
                SelSignal sg \<Rightarrow> body_signal E s (''Signal: '' @ sg) sg duration_ms
              | SelTimedOut \<Rightarrow> body_timed_out E s ctx
                  (\<lambda>ms. ''step timed out after '' @ show_nat ms @ ''ms'') duration_ms
              | SelCancelled \<Rightarrow> body_cancelled E s ''Cancelled'' duration_ms
              | Done r \<Rightarrow> body_agent_result E s ctx start duration_ms r))))))))"

text \<open>The chat request of a body step, or the text of the guard that refused it.\<close>

definition body_chat_request ::
  "Engine \<Rightarrow> Step \<Rightarrow> env \<Rightarrow> string \<Rightarrow> Progress \<Rightarrow> (string, ChatCompletionRequest) result" where
  "body_chat_request E s resolved_env rendered_prompt progress =
    res_bind (map_err show_api_key_error
        (resolve_api_key (h_env (e_host E)) (s_name s) (s_api_key_env s) resolved_env)) (\<lambda>key.
    if \<not> e_chat_client E then Inl (show_chat_exec_error (NoClientConfigured (s_name s)))
    else Inr (build_chat_request s rendered_prompt
        (history_of (chat_sessions progress) (session_bucket s)) key))"

definition body_chat_result ::
  "Engine \<Rightarrow> Step \<Rightarrow> ScopeContext \<Rightarrow> nat \<Rightarrow> nat \<Rightarrow> (ChatExecError, ChatExecOutput) result \<Rightarrow> BodyStep eng" where
  "body_chat_result E s ctx start duration_ms r =
    (case r of
       Inl e \<Rightarrow> emit_scope_body_failure E s start (show_chat_exec_error e)
     | Inr out \<Rightarrow>
       eseq (chat_completed E s duration_ms False (Some ctx) out)
         (ret (BodyContinue (Some (text_snapshot (co_response out))))))"

definition run_scope_body_chat :: "Engine \<Rightarrow> Step \<Rightarrow> ScopeContext \<Rightarrow> json \<Rightarrow> BodyStep eng" where
  "run_scope_body_chat E s ctx val =
    eseq (emit_scope_started E s ctx)
    (ebind (now E) (\<lambda>start.
      case prepare_step E s of
        Inl e \<Rightarrow> emit_scope_body_failure E s start (show_engine_error e)
      | Inr resolved_env \<Rightarrow>
        ebind (render_scope_prompt E s ctx val) (\<lambda>p.
          case p of
            Inl e \<Rightarrow> emit_scope_body_failure E s start (''chat prompt render failed: '' @ e)
          | Inr rendered_prompt \<Rightarrow>
            ebind (progress_from_log E) (\<lambda>progress.
              case body_chat_request E s resolved_env rendered_prompt progress of
                Inl e \<Rightarrow> emit_scope_body_failure E s start e
              | Inr req \<Rightarrow>
                eseq (emit_now E (\<lambda>ts. ChatMessageAppended (s_name s) (session_bucket s) User rendered_prompt ts))
                (ebind (race_chat E s req) (\<lambda>selection.
                 ebind (elapsed E start) (\<lambda>duration_ms.
                   case selection of
                     SelSignal sg \<Rightarrow> body_signal E s
                       (show_chat_exec_error (ChatSignalReceived (s_name s) (signal_from sg))) sg duration_ms
                   | SelTimedOut \<Rightarrow> body_timed_out E s ctx
                       (\<lambda>ms. show_chat_exec_error (ChatTimeout (s_name s) ms)) duration_ms
                   | SelCancelled \<Rightarrow> body_cancelled E s
                       (show_chat_exec_error (ChatCancelled (s_name s))) duration_ms
                   | Done r \<Rightarrow> body_chat_result E s ctx start duration_ms r)))))))"

definition gate_completed :: "Engine \<Rightarrow> Step \<Rightarrow> ScopeContext \<Rightarrow> nat \<Rightarrow> GateOutcome \<Rightarrow> unit eng" where
  "gate_completed E s ctx duration_ms go =
    emit_now E (\<lambda>ts. StepCompleted (s_name s) ''gate'' duration_ms ts None None None False None
      (Some ctx) (Some go) None)"

definition run_scope_body_gate :: "Engine \<Rightarrow> Step \<Rightarrow> ScopeContext \<Rightarrow> json \<Rightarrow> BodyStep eng" where
  "run_scope_body_gate E s ctx val =
    eseq (emit_scope_started E s ctx)
    (ebind (now E) (\<lambda>start.
      case gate_guards parse_scoped s of
        Inl err \<Rightarrow> emit_scope_gate_failure E s start err
      | Inr (on_pass, on_fail, condition) \<Rightarrow>
        ebind (body_context E ctx val) (\<lambda>rc.
          case gate_passed (h_tera (e_host E)) s condition rc of
            Inl err \<Rightarrow> emit_scope_gate_failure E s start err
          | Inr passed \<Rightarrow>
            ebind (elapsed E start) (\<lambda>duration_ms.
              case outcome_for passed on_pass on_fail (s_message s) of
                VContinue \<Rightarrow> eseq (gate_completed E s ctx duration_ms Continue) (ret (BodyContinue None))
              | VSkip \<Rightarrow> eseq (gate_completed E s ctx duration_ms Skip) (ret BodySkip)
              | VBreak \<Rightarrow> eseq (gate_completed E s ctx duration_ms Break) (ret BodyBreak)
              | VFail msg \<Rightarrow>
                (let err = show_gate_error (GateFailed (s_name s) msg) in
                 eseq (emit_failed E s ''gate'' err duration_ms False)
                 (eseq (finalise_fail E) (ret (BodyFailed err))))))))"

definition run_scope_body_other :: "Engine \<Rightarrow> Step \<Rightarrow> ScopeContext \<Rightarrow> BodyStep eng" where
  "run_scope_body_other E s ctx =
    (let err = ''step type `'' @ step_type_label (s_kind s) @
         ''` not yet supported inside scope bodies in v2 engine'' in
     eseq (emit_scope_started E s ctx)
     (eseq (emit_failed E s (step_type_label (s_kind s)) err 0 False)
     (eseq (finalise_fail E) (ret (BodyFailed err)))))"

definition run_scope_body_step :: "Engine \<Rightarrow> Step \<Rightarrow> ScopeContext \<Rightarrow> json \<Rightarrow> BodyStep eng" where
  "run_scope_body_step E s ctx val =
    (case s_kind s of
       KCmd \<Rightarrow> run_scope_body_cmd E s ctx val
     | KGate \<Rightarrow> run_scope_body_gate E s ctx val
     | KAgent \<Rightarrow> run_scope_body_agent E s ctx val
     | KChat \<Rightarrow> run_scope_body_chat E s ctx val
     | _ \<Rightarrow> run_scope_body_other E s ctx)"

section \<open>The walk over a body\<close>

definition nested_container :: "Engine \<Rightarrow> Step \<Rightarrow> Step \<Rightarrow> IterationOutcome eng" where
  "nested_container E ctr s =
    (let err = ''nested container step `'' @ s_name s @ ''` of type `'' @ step_type_label (s_kind s) @
         ''` inside scope container `'' @ s_name ctr @ ''` is not supported in PR 3 of #31'' in
     eseq (emit_failed E ctr (step_type_label (s_kind ctr)) err 0 False)
     (eseq (finalise_fail E) (ret (IterFailed err))))"

definition start_position :: "nat \<Rightarrow> (nat \<times> nat) option \<Rightarrow> nat" where
  "start_position it last_done = (case last_done of None \<Rightarrow> 0 | Some (i, p) \<Rightarrow> if i = it then p + 1 else 0)"

text \<open>
  The loop over the body from position \<open>idx\<close>: positions before \<open>from\<close> are replayed (a command's
  output is read back from the log), the others run.
\<close>

primrec scope_body_loop ::
  "Step list \<Rightarrow> Engine \<Rightarrow> Step \<Rightarrow> nat \<Rightarrow> json \<Rightarrow> nat \<Rightarrow> nat \<Rightarrow> StepOutputSnapshot option \<Rightarrow>
    IterationOutcome eng" where
  "scope_body_loop [] E ctr it val from idx last_output = ret (IterCompleted last_output)"
| "scope_body_loop (s # ss) E ctr it val from idx last_output =
    (if as_u32 idx < from then
       (if s_kind s = KCmd then
          ebind (from_log E (recover_logged_output (s_name ctr) it (as_u32 idx))) (\<lambda>r.
            scope_body_loop ss E ctr it val from (idx + 1) (or_keep r last_output))
        else scope_body_loop ss E ctr it val from (idx + 1) last_output)
     else
       ebind (is_cancelled E) (\<lambda>c.
         if c then
           eseq (emit_failed E s (step_type_label (s_kind s)) ''Cancelled'' 0 (s_kind s = KCmd))
           (eseq (finalise_cancel E) (ret IterCancelled))
         else if s_kind s = KCall \<or> s_kind s = KRepeat \<or> s_kind s = KMap then nested_container E ctr s
         else
           ebind (run_scope_body_step E s
               \<lparr>container = s_name ctr, iteration = it, position = as_u32 idx\<rparr> val) (\<lambda>b.
             case b of
               BodyContinue snap \<Rightarrow>
                 scope_body_loop ss E ctr it val from (idx + 1) (or_keep snap last_output)
             | BodySkip \<Rightarrow> ret (IterCompleted last_output)
             | BodyBreak \<Rightarrow> ret (IterBreak last_output)
             | BodyFailed e \<Rightarrow> ret (IterFailed e)
             | BodyCancelled \<Rightarrow> ret IterCancelled
             | BodySignal sg \<Rightarrow> ret (IterSignal sg)
             | BodyTimedOut ms \<Rightarrow> ret (IterTimedOut ms)
             | BodyIdleTimedOut ms \<Rightarrow> ret (IterIdleTimedOut ms))))"

definition run_scope_body ::
  "Engine \<Rightarrow> Step \<Rightarrow> Step list \<Rightarrow> nat \<Rightarrow> json \<Rightarrow> (nat \<times> nat) option \<Rightarrow> IterationOutcome eng" where
  "run_scope_body E ctr body it val last_done =
    scope_body_loop body E ctr it val (start_position it last_done) 0 None"

section \<open>call, repeat, map\<close>

text \<open>The guards on the \<open>scope:\<close> field, with the text of the failure.\<close>

definition container_scope :: "Engine \<Rightarrow> Step \<Rightarrow> (string, Scope) result" where
  "container_scope E s =
    (let label = step_type_label (s_kind s) in
     (case s_scope s of
        None \<Rightarrow> Inl (label @ '' step missing `scope:` field'')
      | Some n \<Rightarrow>
        if n = [] then Inl (label @ '' step missing `scope:` field'')
        else ok_or (''scope `'' @ n @ ''` referenced by '' @ label @ '' step `'' @ s_name s @
          ''` not found in workflow'') (map_of (w_scopes (e_workflow E)) n)))"

definition scope_len :: "Scope \<Rightarrow> nat" where
  "scope_len sc = as_u32 (length (sc_steps sc))"

definition initial_value :: "Step \<Rightarrow> json" where
  "initial_value s = (case s_initial_value s of None \<Rightarrow> JNull | Some v \<Rightarrow> v)"

text \<open>The arms of an iteration that end the container, and its last part.\<close>

definition iteration_ended :: "Engine \<Rightarrow> Step \<Rightarrow> nat \<Rightarrow> nat \<Rightarrow> IterationOutcome \<Rightarrow> StepOutcome eng" where
  "iteration_ended E s start index o' =
    (case o' of
       IterFailed e \<Rightarrow> emit_container_failure E s start e
     | IterCancelled \<Rightarrow> ret CancelledO
     | IterSignal sg \<Rightarrow> throw (StepFailedErr index (ReasonSignal (signal_from sg)))
     | IterTimedOut ms \<Rightarrow> throw (StepFailedErr index (StepTimeout ms))
     | IterIdleTimedOut ms \<Rightarrow> throw (StepFailedErr index (IdleTimeout ms))
     | IterCompleted out \<Rightarrow> throw (Panic ''not an ending'')
     | IterBreak out \<Rightarrow> throw (Panic ''not an ending''))"

definition container_done ::
  "Engine \<Rightarrow> Step \<Rightarrow> nat \<Rightarrow> Scope \<Rightarrow> StepOutputSnapshot option \<Rightarrow> nat \<Rightarrow> StepOutcome eng" where
  "container_done E s start sc last_output last_iteration =
    ebind (synthesise_container_output E s (sc_outputs sc) last_output last_iteration) (\<lambda>synthetic.
      emit_container_success E s start synthetic)"

definition run_call :: "Engine \<Rightarrow> Step \<Rightarrow> nat \<Rightarrow> StepOutcome eng" where
  "run_call E s start =
    ebind (lift_result (top_level_position_of E (s_name s))) (\<lambda>index.
      case container_scope E s of
        Inl err \<Rightarrow> emit_container_failure E s start err
      | Inr sc \<Rightarrow>
        ebind (from_log E (rebuild (s_name s) (scope_len sc))) (\<lambda>st.
          if next_iteration st = 0 \<and> \<not> broke st then
            ebind (run_scope_body E s (sc_steps sc) 0 (initial_value s) (last_completed st)) (\<lambda>o'.
              case o' of
                IterCompleted out \<Rightarrow> container_done E s start sc out 0
              | IterBreak out \<Rightarrow> container_done E s start sc out 0
              | _ \<Rightarrow> iteration_ended E s start index o')
          else container_done E s start sc (last_output_per_iteration st 0) 0))"

definition only_iteration :: "nat \<Rightarrow> (nat \<times> nat) option \<Rightarrow> (nat \<times> nat) option" where
  "only_iteration it last_done =
    (case last_done of None \<Rightarrow> None | Some (i, p) \<Rightarrow> if i = it then Some (i, p) else None)"

definition record_output ::
  "nat \<Rightarrow> StepOutputSnapshot option \<Rightarrow> ContainerReplayState \<Rightarrow> ContainerReplayState" where
  "record_output it out st =
    (case out of None \<Rightarrow> st
     | Some s \<Rightarrow> st\<lparr>last_output_per_iteration := (last_output_per_iteration st)(it \<mapsto> s)\<rparr>)"

text \<open>A completed iteration moves the state on.\<close>

definition advance ::
  "nat \<Rightarrow> StepOutputSnapshot option \<Rightarrow> ContainerReplayState \<Rightarrow> ContainerReplayState" where
  "advance len out st =
    (let it = next_iteration st; st' = record_output it out st in
     st'\<lparr>next_iteration := it + 1, last_completed := Some (it, len - 1)\<rparr>)"

lemma advance_simps [simp]:
  "next_iteration (advance len out st) = next_iteration st + 1"
  "broke (advance len out st) = broke st"
  by (auto simp: advance_def record_output_def Let_def split: option.split)

definition repeat_seed :: "ContainerReplayState \<Rightarrow> StepOutputSnapshot option" where
  "repeat_seed st =
    (let it = next_iteration st; outs = last_output_per_iteration st in
     if broke st then
       (case outs it of
          Some s \<Rightarrow> Some s
        | None \<Rightarrow> if it = 0 then None else outs (it - 1))
     else outs (it - 1))"

definition repeat_value :: "Step \<Rightarrow> ContainerReplayState \<Rightarrow> json" where
  "repeat_value s st =
    (let it = next_iteration st in
     if it = 0 then initial_value s
     else (case last_output_per_iteration st (it - 1) of None \<Rightarrow> JNull | Some snap \<Rightarrow> JStr (stdout snap)))"

text \<open>The loop of \<open>run_repeat\<close>; it returns the last output and the iteration it stopped at.\<close>

function repeat_loop ::
  "Engine \<Rightarrow> Step \<Rightarrow> nat \<Rightarrow> nat \<Rightarrow> Scope \<Rightarrow> nat \<Rightarrow> ContainerReplayState \<Rightarrow> StepOutputSnapshot option \<Rightarrow>
    StepOutcome eng" where
  "repeat_loop E s start index sc max_iter st final =
    (if broke st then container_done E s start sc final (next_iteration st - 1)
     else
       ebind (is_cancelled E) (\<lambda>c.
         if c then emit_container_cancel E s start
         else if max_iter \<le> next_iteration st then
           container_done E s start sc final (next_iteration st - 1)
         else
           ebind (run_scope_body E s (sc_steps sc) (next_iteration st) (repeat_value s st)
               (only_iteration (next_iteration st) (last_completed st))) (\<lambda>o'.
             case o' of
               IterCompleted out \<Rightarrow>
                 if next_iteration st + 1 = 2 ^ 32 then throw (Panic overflow_panic)
                 else repeat_loop E s start index sc max_iter (advance (scope_len sc) out st) (or_keep out final)
             | IterBreak out \<Rightarrow> container_done E s start sc (or_keep out final) (next_iteration st - 1)
             | _ \<Rightarrow> iteration_ended E s start index o')))"
  by pat_completeness auto
termination
  by (relation "measure (\<lambda>(E, s, start, index, sc, max_iter, st, final). max_iter - next_iteration st)") auto

declare repeat_loop.simps [simp del]

definition max_iterations :: "Step \<Rightarrow> nat" where
  "max_iterations s = (case s_max_iterations s of None \<Rightarrow> 3 | Some n \<Rightarrow> n)"

definition run_repeat :: "Engine \<Rightarrow> Step \<Rightarrow> nat \<Rightarrow> StepOutcome eng" where
  "run_repeat E s start =
    ebind (lift_result (top_level_position_of E (s_name s))) (\<lambda>index.
      case container_scope E s of
        Inl err \<Rightarrow> emit_container_failure E s start err
      | Inr sc \<Rightarrow>
        ebind (from_log E (rebuild (s_name s) (scope_len sc))) (\<lambda>st.
          repeat_loop E s start index sc (max_iterations s) st (repeat_seed st)))"

text \<open>The synthetic output of a map: one slot per iteration, up to the first that never ran.\<close>

fun collect_outputs :: "(nat \<rightharpoonup> StepOutputSnapshot) \<Rightarrow> nat \<Rightarrow> nat list \<Rightarrow> string list" where
  "collect_outputs outs next [] = []"
| "collect_outputs outs next (i # is) =
    (case outs i of
       Some snap \<Rightarrow> stdout snap # collect_outputs outs next is
     | None \<Rightarrow> if i < next then [] # collect_outputs outs next is else [])"

definition map_done :: "Engine \<Rightarrow> Step \<Rightarrow> nat \<Rightarrow> nat \<Rightarrow> ContainerReplayState \<Rightarrow> StepOutcome eng" where
  "map_done E s start n st =
    emit_container_success E s start (text_snapshot (h_json_text (e_host E)
      (JArr (map JStr (collect_outputs (last_output_per_iteration st) (next_iteration st) [0..<as_u32 n])))))"

function map_loop ::
  "Engine \<Rightarrow> Step \<Rightarrow> nat \<Rightarrow> nat \<Rightarrow> Scope \<Rightarrow> string list \<Rightarrow> ContainerReplayState \<Rightarrow> StepOutcome eng" where
  "map_loop E s start index sc items st =
    (if broke st \<or> length items \<le> next_iteration st then map_done E s start (length items) st
     else
       ebind (is_cancelled E) (\<lambda>c.
         if c then emit_container_cancel E s start
         else
           (let it = next_iteration st;
                raw_item = items ! it;
                val = (case h_json (e_host E) raw_item of None \<Rightarrow> JStr raw_item | Some v \<Rightarrow> v) in
            ebind (run_scope_body E s (sc_steps sc) it val (only_iteration it (last_completed st))) (\<lambda>o'.
              case o' of
                IterCompleted out \<Rightarrow>
                  if it + 1 = 2 ^ 32 then throw (Panic overflow_panic)
                  else map_loop E s start index sc items (advance (scope_len sc) out st)
              | IterBreak out \<Rightarrow> map_done E s start (length items) ((record_output it out st)\<lparr>broke := True\<rparr>)
              | _ \<Rightarrow> iteration_ended E s start index o'))))"
  by pat_completeness auto
termination
  by (relation "measure (\<lambda>(E, s, start, index, sc, items, st). length items - next_iteration st)") auto

declare map_loop.simps [simp del]

definition run_map :: "Engine \<Rightarrow> Step \<Rightarrow> nat \<Rightarrow> StepOutcome eng" where
  "run_map E s start =
    ebind (lift_result (top_level_position_of E (s_name s))) (\<lambda>index.
      case container_scope E s of
        Inl err \<Rightarrow> emit_container_failure E s start err
      | Inr sc \<Rightarrow>
        (case s_items s of
           None \<Rightarrow> emit_container_failure E s start ''map step missing `items:` field''
         | Some template \<Rightarrow>
           ebind (from_log E top_level_outputs) (\<lambda>top_level.
             case render (h_tera (e_host E)) template (top_context E top_level) of
               Inl e \<Rightarrow> emit_container_failure E s start (''render `items`: '' @ show_render_error e)
             | Inr rendered \<Rightarrow>
               (let items = parse_items (h_json (e_host E)) (h_json_text (e_host E)) rendered in
                ebind (from_log E (rebuild (s_name s) (scope_len sc))) (\<lambda>st.
                  map_loop E s start index sc items st)))))"

section \<open>parallel: the tasks\<close>

datatype ParallelTask =
    PCmd nat string Step env
  | PAgent nat string Step string env AgentSessionState
  | PChat nat string Step ChatCompletionRequest string string

datatype ParallelTaskOutput =
    OutCmd ExecOutput
  | OutAgent AgentExecOutput
  | OutChat string string ChatExecOutput

datatype ParallelTaskResult =
    TaskCompleted ParallelTaskOutput
  | TaskFailed string
  | TaskTimedOut nat

datatype ParallelDrain =
    DrainCompleted
  | DrainFailed string
  | DrainTimedOut string nat
  | DrainCancelled
  | DrainSignal string

type_synonym joined = "nat \<times> string \<times> StepKind \<times> ParallelTaskResult"
type_synonym completion = "nat \<times> string \<times> StepKind \<times> ParallelTaskOutput"

definition sub_prompt :: "Engine \<Rightarrow> Step \<Rightarrow> RenderContext \<Rightarrow> (string, string) result" where
  "sub_prompt E sub ctx =
    res_bind (ok_or (step_type_label (s_kind sub) @ '' step `'' @ s_name sub @ ''` has no prompt '' @
        em_dash @ '' the adapter should have rejected this at load time'') (s_prompt sub)) (\<lambda>template.
    map_err (\<lambda>e. step_type_label (s_kind sub) @ '' prompt render failed: '' @ show_render_error e)
      (render (h_tera (e_host E)) template ctx))"

definition parallel_chat_task ::
  "Engine \<Rightarrow> nat \<Rightarrow> Step \<Rightarrow> Progress \<Rightarrow> env \<Rightarrow> string \<Rightarrow> (string, ParallelTask) result" where
  "parallel_chat_task E pos sub progress resolved_env prompt =
    (let session = session_bucket sub; history = history_of (chat_sessions progress) session in
     res_bind (map_err (\<lambda>e. ''resolve chat api key for parallel sub-step `'' @ s_name sub @ ''`: '' @
         show_api_key_error e)
       (resolve_api_key (h_env (e_host E)) (s_name sub) (s_api_key_env sub) resolved_env)) (\<lambda>key.
     if \<not> e_chat_client E then Inl (show_chat_exec_error (NoClientConfigured (s_name sub)))
     else Inr (PChat pos (s_name sub) sub (build_chat_request sub prompt history key) session prompt)))"

text \<open>One sub-step made into a task, or the text its container fails with.\<close>

definition parallel_task ::
  "Engine \<Rightarrow> RenderContext \<Rightarrow> Progress \<Rightarrow> nat \<Rightarrow> Step \<Rightarrow> (string, ParallelTask) result" where
  "parallel_task E ctx progress pos sub =
    (if s_kind sub \<noteq> KCmd \<and> s_kind sub \<noteq> KAgent \<and> s_kind sub \<noteq> KChat then
       Inl (''parallel sub-step `'' @ s_name sub @ ''` has unsupported kind `'' @
         step_type_label (s_kind sub) @ ''` (allowed: cmd, agent, chat)'')
     else
       res_bind (map_err (\<lambda>e. ''env resolve for parallel sub-step `'' @ s_name sub @ ''`: '' @
           show_engine_error e) (prepare_step E sub)) (\<lambda>resolved_env.
         if s_kind sub = KCmd then
           res_bind (map_err (\<lambda>e. ''render parallel sub-step `'' @ s_name sub @ ''`: '' @
               show_render_error e) (render (h_tera (e_host E)) (s_command sub) ctx)) (\<lambda>rendered.
             Inr (PCmd pos (s_name sub) (sub\<lparr>s_command := rendered\<rparr>) resolved_env))
         else
           res_bind (sub_prompt E sub ctx) (\<lambda>prompt.
             if s_kind sub = KAgent then
               Inr (PAgent pos (s_name sub) sub prompt resolved_env
                 \<lparr>as_ids = agent_session_ids progress, as_first = first_agent_session_id progress\<rparr>)
             else parallel_chat_task E pos sub progress resolved_env prompt)))"

text \<open>The tasks of the sub-steps from position \<open>idx\<close> that have no completion in the log.\<close>

fun parallel_tasks ::
  "Engine \<Rightarrow> RenderContext \<Rightarrow> Progress \<Rightarrow> nat set \<Rightarrow> nat \<Rightarrow> Step list \<Rightarrow> (string, ParallelTask list) result" where
  "parallel_tasks E ctx progress already idx [] = Inr []"
| "parallel_tasks E ctx progress already idx (sub # subs) =
    (if as_u32 idx \<in> already then parallel_tasks E ctx progress already (idx + 1) subs
     else
       res_bind (parallel_task E ctx progress (as_u32 idx) sub) (\<lambda>t.
       res_bind (parallel_tasks E ctx progress already (idx + 1) subs) (\<lambda>ts. Inr (t # ts))))"

text \<open>
  \<open>parallel_task_with_timeout\<close> around the call of a task: the timeout arm needs a timeout. The
  call is made when the task is spawned; its result is seen when the task is joined.
\<close>

definition task_call ::
  "Engine \<Rightarrow> duration option \<Rightarrow> Effect \<Rightarrow> (nat \<Rightarrow> (string, ParallelTaskOutput) result) \<Rightarrow> ParallelTaskResult eng" where
  "task_call E timeout fx f =
    ebind (ask (h_first (e_host E))) (\<lambda>arm.
    call fx (\<lambda>t.
      case (arm, timeout) of
        (ArmTimedOut, Some d) \<Rightarrow> TaskTimedOut (millis_u64 d)
      | _ \<Rightarrow> (case f t of Inl e \<Rightarrow> TaskFailed e | Inr out \<Rightarrow> TaskCompleted out)))"

fun run_task :: "Engine \<Rightarrow> ParallelTask \<Rightarrow> joined eng" where
  "run_task E (PCmd pos n s env) =
    (let sandbox_env = sandbox_env_for_exec E env in
     ebind (task_call E (s_timeout s) (FxExec s sandbox_env) (\<lambda>t.
         res_bind (map_err show_sandbox_error (h_exec (e_host E) t s sandbox_env)) (\<lambda>out. Inr (OutCmd out))))
       (\<lambda>r. ret (pos, n, KCmd, r)))"
| "run_task E (PAgent pos n s prompt env st) =
    ebind (agent_exec_target E env) (\<lambda>(agent_env, agent_container).
    ebind (task_call E (s_timeout s) (FxAgent s prompt agent_env agent_container) (\<lambda>t.
        res_bind (map_err show_agent_exec_error
          (agent_run (h_json (e_host E)) (h_spawn (e_host E) t) s prompt st agent_env None agent_container))
          (\<lambda>out. Inr (OutAgent out))))
      (\<lambda>r. ret (pos, n, KAgent, r)))"
| "run_task E (PChat pos n s req session user_content) =
    ebind (task_call E (s_timeout s) (FxChat req) (\<lambda>t.
        res_bind (map_err show_chat_exec_error (chat_run s req (h_chat (e_host E) t)))
          (\<lambda>out. Inr (OutChat session user_content out))))
      (\<lambda>r. ret (pos, n, KChat, r))"

primrec spawn_tasks :: "ParallelTask list \<Rightarrow> Engine \<Rightarrow> (joined list) eng" where
  "spawn_tasks [] E = ret []"
| "spawn_tasks (t # ts) E =
    ebind (run_task E t) (\<lambda>r. ebind (spawn_tasks ts E) (\<lambda>rs. ret (r # rs)))"

section \<open>parallel: the drain\<close>

text \<open>The next event of the wait: an arm that cannot fire leaves the wait to the first task.\<close>

definition next_join :: "bool \<Rightarrow> JoinEvent list \<Rightarrow> JoinEvent" where
  "next_join cancelled evs =
    (case evs of
       [] \<Rightarrow> JoinTask 0
     | e # _ \<Rightarrow> if e = JoinCancel \<and> \<not> cancelled then JoinTask 0 else e)"

definition take_task :: "nat \<Rightarrow> 'a list \<Rightarrow> 'a \<times> 'a list" where
  "take_task i xs = (let k = i mod length xs in (xs ! k, take k xs @ drop (Suc k) xs))"

lemma take_task_length:
  assumes "xs \<noteq> []"
  shows "length (snd (take_task i xs)) < length xs"
proof -
  have "i mod length xs < length xs" using assms by simp
  then show ?thesis by (simp add: take_task_def Let_def)
qed

text \<open>A joined task that ends the drain, with the text of the failure; none lets it go on.\<close>

fun task_terminal :: "string \<Rightarrow> ParallelTaskResult \<Rightarrow> ParallelDrain option" where
  "task_terminal n (TaskCompleted (OutCmd out)) =
    (if xo_exit out \<noteq> 0 then
       Some (DrainFailed (''parallel sub-step `'' @ n @ ''` failed with exit_code='' @ show_i32 (xo_exit out)))
     else None)"
| "task_terminal n (TaskCompleted _) = None"
| "task_terminal n (TaskFailed e) = Some (DrainFailed (''parallel sub-step `'' @ n @ ''`: '' @ e))"
| "task_terminal n (TaskTimedOut ms) = Some (DrainTimedOut n ms)"

fun completion_of :: "joined \<Rightarrow> completion list" where
  "completion_of (pos, n, k, TaskCompleted out) = [(pos, n, k, out)]"
| "completion_of (pos, n, k, _) = []"

text \<open>The drain loop: the terminal, the completions joined so far and the tasks left.\<close>

function drain_tasks ::
  "bool \<Rightarrow> string \<Rightarrow> JoinEvent list \<Rightarrow> joined list \<Rightarrow> completion list \<Rightarrow>
    ParallelDrain \<times> completion list \<times> joined list" where
  "drain_tasks cancelled sg evs tasks comps =
    (if tasks = [] then (DrainCompleted, comps, [])
     else
       (case next_join cancelled evs of
          JoinCancel \<Rightarrow> (DrainCancelled, comps, tasks)
        | JoinSignal \<Rightarrow> (DrainSignal sg, comps, tasks)
        | JoinPanic i m \<Rightarrow>
          (DrainFailed (''parallel sub-step JoinError: '' @ m), comps, snd (take_task i tasks))
        | JoinTask i \<Rightarrow>
          (let j = fst (take_task i tasks); rest = snd (take_task i tasks); comps' = comps @ completion_of j in
           (case task_terminal (fst (snd j)) (snd (snd (snd j))) of
              Some d \<Rightarrow> (d, comps', rest)
            | None \<Rightarrow> drain_tasks cancelled sg (tl evs) rest comps'))))"
  by pat_completeness auto
termination
  by (relation "measure (\<lambda>(c, sg, evs, tasks, comps). length tasks)") (auto simp: Let_def intro: take_task_length)

declare drain_tasks.simps [simp del]

text \<open>After a terminal the tasks left are aborted; some complete before the abort reaches them.\<close>

definition late_completions :: "(nat \<Rightarrow> bool) \<Rightarrow> joined list \<Rightarrow> completion list" where
  "late_completions late left = concat (map (\<lambda>j. if late (fst j) then completion_of j else []) left)"

definition drain_all ::
  "bool \<Rightarrow> string \<Rightarrow> JoinEvent list \<Rightarrow> (nat \<Rightarrow> bool) \<Rightarrow> joined list \<Rightarrow> ParallelDrain \<times> completion list" where
  "drain_all cancelled sg evs late tasks =
    (let (d, comps, left) = drain_tasks cancelled sg evs tasks [] in
     (d, sort_key fst (comps @ late_completions late left)))"

section \<open>parallel\<close>

text \<open>The scoped events of one completion, in the order of the definition of the sub-steps.\<close>

definition emit_task_completed ::
  "Engine \<Rightarrow> string \<Rightarrow> string \<Rightarrow> nat option \<Rightarrow> nat option \<Rightarrow> 64 word option \<Rightarrow> bool \<Rightarrow>
    StepOutputSnapshot \<Rightarrow> ScopeContext \<Rightarrow> string option \<Rightarrow> unit eng" where
  "emit_task_completed E n step_type input_tokens output_tokens cost sandboxed snap ctx sid =
    emit_now E (\<lambda>ts. StepCompleted n step_type 0 ts input_tokens output_tokens cost sandboxed
      (Some snap) (Some ctx) None sid)"

fun emit_output :: "Engine \<Rightarrow> string \<Rightarrow> ScopeContext \<Rightarrow> ParallelTaskOutput \<Rightarrow> (StepOutputSnapshot option) eng" where
  "emit_output E n ctx (OutCmd out) =
    (let snap = \<lparr>stdout = xo_stdout out, stderr = xo_stderr out, exit_code = xo_exit out\<rparr> in
     if xo_exit out = 0 then
       eseq (emit_task_completed E n ''cmd'' None None None True snap ctx None) (ret (Some snap))
     else
       eseq (emit_now E (\<lambda>ts. StepFailed n ''cmd'' (''exit_code='' @ show_i32 (xo_exit out)) 0 ts True))
         (ret None))"
| "emit_output E n ctx (OutAgent out) =
    (let snap = text_snapshot (ao_response out) in
     eseq (emit_task_completed E n ''agent'' (ao_input_tokens out) (ao_output_tokens out)
         (ao_cost_usd out) False snap ctx (ao_session_id out))
       (ret (Some snap)))"
| "emit_output E n ctx (OutChat session user_content out) =
    (let snap = text_snapshot (co_response out) in
     eseq (emit_now E (\<lambda>ts. ChatMessageAppended n session User user_content ts))
     (eseq (emit_now E (\<lambda>ts. ChatMessageAppended n session Assistant (co_response out) ts))
     (eseq (emit_task_completed E n ''chat'' (co_input_tokens out) (co_output_tokens out)
         (co_cost_usd out) False snap ctx None)
       (ret (Some snap)))))"

definition emit_completion :: "Engine \<Rightarrow> string \<Rightarrow> completion \<Rightarrow> (StepOutputSnapshot option) eng" where
  "emit_completion E cname c =
    (let (pos, n, k, out) = c; ctx = \<lparr>container = cname, iteration = 0, position = pos\<rparr> in
     eseq (emit_now E (\<lambda>ts. StepStarted n (step_type_label k) ts (Some ctx)))
       (emit_output E n ctx out))"

primrec emit_completions ::
  "completion list \<Rightarrow> Engine \<Rightarrow> string \<Rightarrow> (nat \<times> StepOutputSnapshot) list \<Rightarrow> ((nat \<times> StepOutputSnapshot) list) eng" where
  "emit_completions [] E cname snaps = ret snaps"
| "emit_completions (c # cs) E cname snaps =
    ebind (emit_completion E cname c) (\<lambda>r.
      emit_completions cs E cname (snaps @ (case r of None \<Rightarrow> [] | Some s \<Rightarrow> [(fst c, s)])))"

text \<open>The output at the last position of the definition: of this run, else from the log.\<close>

definition parallel_output ::
  "Engine \<Rightarrow> string \<Rightarrow> nat \<Rightarrow> (nat \<times> StepOutputSnapshot) list \<Rightarrow> (StepOutputSnapshot option) eng" where
  "parallel_output E cname last_pos snaps =
    (case map_of snaps last_pos of
       Some snap \<Rightarrow> ret (Some snap)
     | None \<Rightarrow> from_log E (recover_logged_output cname 0 last_pos))"

text \<open>The last part: what the terminal of the drain makes of the container.\<close>

definition parallel_ended ::
  "Engine \<Rightarrow> Step \<Rightarrow> nat \<Rightarrow> nat \<Rightarrow> Scope \<Rightarrow> ParallelDrain \<Rightarrow> (nat \<times> StepOutputSnapshot) list \<Rightarrow> StepOutcome eng" where
  "parallel_ended E s start index sc terminal snaps =
    (case terminal of
       DrainCompleted \<Rightarrow>
         ebind (parallel_output E (s_name s) (scope_len sc - 1) snaps) (\<lambda>last_output.
           container_done E s start sc last_output 0)
     | DrainFailed err \<Rightarrow> emit_container_failure E s start err
     | DrainCancelled \<Rightarrow> emit_container_cancel E s start
     | DrainSignal sg \<Rightarrow>
         eseq (emit_container_signal E s start sg)
           (throw (StepFailedErr index (ReasonSignal (signal_from sg))))
     | DrainTimedOut n ms \<Rightarrow>
         eseq (emit_container_timeout E s start n ms) (throw (StepFailedErr index (StepTimeout ms))))"

text \<open>Spawning, draining and emitting.\<close>

definition parallel_run ::
  "Engine \<Rightarrow> Step \<Rightarrow> nat \<Rightarrow> nat \<Rightarrow> Scope \<Rightarrow> ParallelTask list \<Rightarrow> StepOutcome eng" where
  "parallel_run E s start index sc tasks =
    (let h = e_host E; sg = (case h_signal h of None \<Rightarrow> ''unknown'' | Some x \<Rightarrow> x) in
     ebind (spawn_tasks tasks E) (\<lambda>joined.
     ebind (ask (h_joins h)) (\<lambda>evs.
     ebind (ask (h_late h)) (\<lambda>late.
     ebind (is_cancelled E) (\<lambda>c.
       let (terminal, completions) = drain_all c sg evs late joined in
       ebind (emit_completions completions E (s_name s) []) (\<lambda>snaps.
         parallel_ended E s start index sc terminal snaps))))))"

definition run_parallel :: "Engine \<Rightarrow> Step \<Rightarrow> nat \<Rightarrow> StepOutcome eng" where
  "run_parallel E s start =
    (case container_scope E s of
       Inl err \<Rightarrow> emit_container_failure E s start err
     | Inr sc \<Rightarrow>
       if scope_len sc = 0 then container_done E s start sc None 0
       else
         ebind (lift_result (top_level_position_of E (s_name s))) (\<lambda>index.
         ebind (is_cancelled E) (\<lambda>c.
           if c then emit_container_cancel E s start
           else
             ebind (from_log E (\<lambda>evs. Inr (parallel_completed_positions (s_name s) evs))) (\<lambda>already.
             ebind (from_log E top_level_outputs) (\<lambda>top_outs.
             ebind (progress_from_log E) (\<lambda>progress.
               case parallel_tasks E (top_context E top_outs) progress already 0 (sc_steps sc) of
                 Inl err \<Rightarrow> emit_container_failure E s start err
               | Inr tasks \<Rightarrow> parallel_run E s start index sc tasks))))))"

definition run_container_step :: "Engine \<Rightarrow> Step \<Rightarrow> nat \<Rightarrow> StepOutcome eng" where
  "run_container_step E s start =
    (case s_kind s of
       KCall \<Rightarrow> run_call E s start
     | KRepeat \<Rightarrow> run_repeat E s start
     | KMap \<Rightarrow> run_map E s start
     | KParallel \<Rightarrow> run_parallel E s start
     | _ \<Rightarrow> throw (InvalidState (''run_container_step received non-container kind `'' @
         step_type_label (s_kind s) @ ''`'')))"

end
