(* ===== verification/Engine.thy ===== *)
theory Engine
  imports Scope
begin

text \<open>
  The engine's loop, \<open>crates/stepyard-harness/src/engine.rs\<close>: \<open>step\<close>, which asks the log how far
  the workflow is and executes at most one step, and \<open>resume\<close>, which drives it until the workflow
  ends. The source's last guard of \<open>step\<close>, a kind that is none of the ten, has no value to take.
\<close>

section \<open>Commands\<close>

definition rendered_command :: "Engine \<Rightarrow> Step \<Rightarrow> (string \<rightharpoonup> StepOutputSnapshot) \<Rightarrow> (string, Step) result" where
  "rendered_command E s outs =
    (if contains_template_markers (s_command s) then
       res_bind (map_err (\<lambda>e. ''render cmd `'' @ s_name s @ ''`: '' @ show_render_error e)
         (render (h_tera (e_host E)) (s_command s) (top_context E outs)))
         (\<lambda>command. Inr (s\<lparr>s_command := command\<rparr>))
     else Inr s)"

fun step_of_cmd :: "Step \<Rightarrow> nat \<Rightarrow> CmdOutcome \<Rightarrow> StepOutcome eng" where
  "step_of_cmd s step_index (CmdSuccess snap) = ret (StepCompletedO (s_name s))"
| "step_of_cmd s step_index (CmdFailed err) = ret (StepFailedO (s_name s) err)"
| "step_of_cmd s step_index CmdCancelled = ret CancelledO"
| "step_of_cmd s step_index (CmdSignal sg) = throw (StepFailedErr step_index (ReasonSignal (signal_from sg)))"
| "step_of_cmd s step_index (CmdTimedOut ms) = throw (StepFailedErr step_index (StepTimeout ms))"
| "step_of_cmd s step_index (CmdIdleTimedOut ms) = throw (StepFailedErr step_index (IdleTimeout ms))"

definition run_cmd_step :: "Engine \<Rightarrow> Step \<Rightarrow> Progress \<Rightarrow> nat \<Rightarrow> nat \<Rightarrow> StepOutcome eng" where
  "run_cmd_step E s progress start step_index =
    (case prepare_step E s of
       Inl e \<Rightarrow> fail_step E s (show_engine_error e) start True
     | Inr resolved_env \<Rightarrow>
       (case rendered_command E s (outputs progress) of
          Inl err \<Rightarrow> fail_step E s err start True
        | Inr s' \<Rightarrow>
          ebind (execute_cmd_with_select E s' resolved_env step_index None start) (\<lambda>o'.
            step_of_cmd s' step_index o')))"

section \<open>One step\<close>

definition dispatch :: "Engine \<Rightarrow> Step \<Rightarrow> Progress \<Rightarrow> nat \<Rightarrow> StepOutcome eng" where
  "dispatch E s progress start =
    (let step_index = as_u32 (completed_steps progress) in
     (case s_kind s of
        KGate \<Rightarrow> run_gate_step E s (outputs progress) start
      | KTemplate \<Rightarrow> run_template_step E s (outputs progress) start
      | KScript \<Rightarrow> run_script_step E s (outputs progress) start
      | KAgent \<Rightarrow> run_agent_step E s progress start step_index
      | KChat \<Rightarrow> run_chat_step E s progress start step_index
      | KCmd \<Rightarrow> run_cmd_step E s progress start step_index
      | _ \<Rightarrow> run_container_step E s start))"

text \<open>\<open>WorkflowStarted\<close>, by a handle that has not noted a start, while no step is completed.\<close>

definition note_started :: "Engine \<Rightarrow> Progress \<Rightarrow> nat \<Rightarrow> bool eng" where
  "note_started E progress start =
    ebind (get wstarted) (\<lambda>started_at.
    if completed_steps progress = 0 \<and> started_at = None then
      eseq (modify (\<lambda>w. w\<lparr>wstarted := Some start\<rparr>))
      (eseq (emit_now E WorkflowStarted) (ret True))
    else ret False)"

definition cancel_at_boundary :: "Engine \<Rightarrow> Progress \<Rightarrow> Step \<Rightarrow> StepOutcome eng" where
  "cancel_at_boundary E progress s =
    ebind (now E) (\<lambda>t.
    eseq (note_started E progress t)
    (eseq (emit_failed E s (step_type_label (s_kind s)) ''Cancelled'' 0 (s_kind s = KCmd))
    (eseq (finalise_cancel E) (ret CancelledO))))"

definition run_next :: "Engine \<Rightarrow> Progress \<Rightarrow> Step \<Rightarrow> StepOutcome eng" where
  "run_next E progress s =
    ebind (now E) (\<lambda>start.
    ebind (note_started E progress start) (\<lambda>fresh.
    eseq (if fresh then prepare_workspace_if_configured E else ret ())
    (ebind (if s_kind s = KChat then ret (Inr ()) else ensure_container_workspace E) (\<lambda>ready.
      case ready of
        Inl err \<Rightarrow> fail_step E s err start True
      | Inr _ \<Rightarrow>
        eseq (emit_now E (\<lambda>ts. StepStarted (s_name s) (step_type_label (s_kind s)) ts None))
        (ebind (is_cancelled E) (\<lambda>c.
          if c then
            eseq (emit_failed_at E s (step_type_label (s_kind s)) ''Cancelled'' start (s_kind s = KCmd))
            (eseq (finalise_cancel E) (ret CancelledO))
          else dispatch E s progress start))))))"

definition step :: "Engine \<Rightarrow> StepOutcome eng" where
  "step E =
    ebind (progress_from_log E) (\<lambda>progress.
    let steps = w_steps (e_workflow E); k = completed_steps progress in
    if has_failure progress then
      eseq (finalise_fail E)
        (ret (StepFailedO (case last_failed_step progress of None \<Rightarrow> [] | Some n \<Rightarrow> n)
          ''workflow previously failed''))
    else if workflow_completed progress \<or> length steps \<le> k then
      eseq (finalise_success E) (ret WorkflowCompletedO)
    else
      ebind (is_cancelled E) (\<lambda>c.
        if c then cancel_at_boundary E progress (steps ! k) else run_next E progress (steps ! k)))"

section \<open>The loop\<close>

text \<open>\<open>resume\<close> with fuel: \<open>None\<close> is a loop that has not ended yet.\<close>

fun resume :: "nat \<Rightarrow> Engine \<Rightarrow> World \<Rightarrow> ((EngineError, StepOutcome) result \<times> World) option" where
  "resume 0 E w = None"
| "resume (Suc fuel) E w =
    (case step E w of
       (Inl e, w') \<Rightarrow> Some (Inl e, w')
     | (Inr o', w') \<Rightarrow>
       (case o' of
          StepCompletedO n \<Rightarrow> resume fuel E w'
        | _ \<Rightarrow> Some (Inr o', w')))"

end
