(* ===== verification/Frames.thy ===== *)
theory Frames
  imports EngineLaws Engine
begin

text \<open>
  The frame of every operation: which events it appends and which effects it calls. An operation is
  given a set of events and a set of effects that hold all unscoped events and all housekeeping
  effects; what it needs beyond them (its scoped events, the execution of its own steps) is a
  premise of its rule.
\<close>

fun event_scope :: "Event \<Rightarrow> ScopeContext option" where
  "event_scope (StepStarted n t ts sc) = sc"
| "event_scope (StepCompleted n t d ts it ot c sb out sc go sid) = sc"
| "event_scope _ = None"

text \<open>Effects that carry no step of the workflow.\<close>

fun housekeeping :: "Effect \<Rightarrow> bool" where
  "housekeeping (FxExec s env) = False"
| "housekeeping (FxAgent s prompt env c) = False"
| "housekeeping (FxChat req) = False"
| "housekeeping _ = True"

definition based :: "(Event \<Rightarrow> bool) \<Rightarrow> (Effect \<Rightarrow> bool) \<Rightarrow> bool" where
  "based P A \<longleftrightarrow> (\<forall>ev. event_scope ev = None \<longrightarrow> P ev) \<and> (\<forall>fx. housekeeping fx \<longrightarrow> A fx)"

lemma basedD:
  "based P A \<Longrightarrow> event_scope ev = None \<Longrightarrow> P ev"
  "based P A \<Longrightarrow> housekeeping fx \<Longrightarrow> A fx"
  by (auto simp: based_def)

text \<open>The shared operations.\<close>

lemma adds_shared [grows_rules]:
  assumes b: "based P A"
  shows "adds P A (destroy_by_session E)" (is ?destroy)
    and "adds P A (host_sh E script)" (is "?sh script")
    and "adds P A (copy_project_in E ws)" (is "?copy ws")
    and "adds P A (find_agent_user E u)" (is "?user u")
    and "adds P A (sync_container_workspace_back E)" (is ?sync)
    and "adds P A (ensure_container_workspace E)"
    and "adds P A (agent_exec_target E env)"
    and "adds P A (workflow_duration E)" (is ?dur)
    and "adds P A (prepare_workspace_if_configured E)"
    and "adds P A (finalize_workspace_success_if_configured E)" (is ?fin)
    and "adds P A (finalise_fail E)"
    and "adds P A (finalise_cancel E)"
    and "adds P A (finalise_success E)"
    and "adds P A (emit_failed E s ty err d sb)" (is "?failed d")
    and "adds P A (emit_failed_at E s ty err start sb)"
proof -
  note base = basedD [OF b]
  show destroy: ?destroy
    unfolding destroy_by_session_def by (intro grows_rules) (simp add: base)
  show sh: "?sh script" for script
    unfolding host_sh_def by (intro grows_rules) (simp add: base)
  show copy: "?copy ws" for ws
    unfolding copy_project_in_def by (intro grows_rules sh) (simp_all add: base)
  show user: "?user u" for u
    unfolding find_agent_user_def by (intro grows_rules sh)
  show sync: ?sync
    unfolding sync_container_workspace_back_def by (intro grows_rules destroy) (simp_all add: base)
  show "adds P A (ensure_container_workspace E)"
    unfolding ensure_container_workspace_def by (intro grows_rules sh copy user) (simp_all add: base)
  show "adds P A (agent_exec_target E env)"
    unfolding agent_exec_target_def by (intro grows_rules)
  show dur: ?dur
    unfolding workflow_duration_def by (intro grows_rules)
  show "adds P A (prepare_workspace_if_configured E)"
    unfolding prepare_workspace_if_configured_def Let_def
    by (cases "e_strategy E"; simp only: BranchStrategy.case; intro grows_rules; simp add: base)
  show fin: ?fin
    unfolding finalize_workspace_success_if_configured_def
    by (intro grows_rules; (simp add: base; fail)?)
      (simp split: WorkspaceError.split, intro conjI impI allI grows_rules, simp_all add: base)
  show "adds P A (finalise_fail E)"
    unfolding finalise_fail_def by (intro grows_rules sync)
  show "adds P A (finalise_cancel E)"
    unfolding finalise_cancel_def by (intro grows_rules dur destroy) (simp add: base)
  show "adds P A (finalise_success E)"
    unfolding finalise_success_def by (intro grows_rules dur sync fin) (simp add: base)
  show failed: "?failed d" for d
    unfolding emit_failed_def by (intro grows_rules) (simp add: base)
  show "adds P A (emit_failed_at E s ty err start sb)"
    unfolding emit_failed_at_def by (intro grows_rules failed)
qed


section \<open>The steps of a body\<close>

fun event_step :: "Event \<Rightarrow> string option" where
  "event_step (StepStarted n t ts sc) = Some n"
| "event_step (StepCompleted n t d ts it ot c sb out sc go sid) = Some n"
| "event_step _ = None"

text \<open>The events a step may emit at a place, and the effects it may call.\<close>

definition allows :: "(Event \<Rightarrow> bool) \<Rightarrow> string \<Rightarrow> ScopeContext \<Rightarrow> bool" where
  "allows P n ctx \<longleftrightarrow> (\<forall>ev. event_scope ev = Some ctx \<and> event_step ev = Some n \<longrightarrow> P ev)"

text \<open>
  The execution of a step, over the environment its cascade resolves to: a command is the step's own
  or its rendering and gets that environment through the proxy; an agent gets the rendered prompt and
  the environment as it is, in a container through the proxy; a chat call goes out with the rendered
  prompt and the key looked up in that environment and on the host.
\<close>

definition renders_to :: "Engine \<Rightarrow> string \<Rightarrow> string \<Rightarrow> bool" where
  "renders_to E template txt \<longleftrightarrow> (\<exists>ctx. render (h_tera (e_host E)) template ctx = Inr txt)"

definition prompts_with :: "Engine \<Rightarrow> Step \<Rightarrow> string \<Rightarrow> bool" where
  "prompts_with E s txt \<longleftrightarrow> (\<exists>template. s_prompt s = Some template \<and> renders_to E template txt)"

definition agent_env_in :: "Engine \<Rightarrow> env \<Rightarrow> AgentContainer option \<Rightarrow> env" where
  "agent_env_in E env0 c = (case c of None \<Rightarrow> env0 | Some x \<Rightarrow> sandbox_env_for_exec E env0)"

fun performs :: "Engine \<Rightarrow> Step \<Rightarrow> Effect \<Rightarrow> bool" where
  "performs E s (FxExec s' env) \<longleftrightarrow> s' = s\<lparr>s_command := s_command s'\<rparr> \<and>
    (s_command s' = s_command s \<or> renders_to E (s_command s) (s_command s')) \<and>
    (\<exists>env0. prepare_step E s = Inr env0 \<and> env = sandbox_env_for_exec E env0)"
| "performs E s (FxAgent s' prompt env c) \<longleftrightarrow> s' = s \<and> prompts_with E s prompt \<and>
    (\<exists>env0. prepare_step E s = Inr env0 \<and> env = agent_env_in E env0 c)"
| "performs E s (FxChat req) \<longleftrightarrow> (\<exists>env0 prompt hist key. prepare_step E s = Inr env0 \<and>
    prompts_with E s prompt \<and>
    resolve_api_key (h_env (e_host E)) (s_name s) (s_api_key_env s) env0 = Inr key \<and>
    req = build_chat_request s prompt hist key)"
| "performs E s _ \<longleftrightarrow> False"

definition free :: "(Effect \<Rightarrow> bool) \<Rightarrow> Engine \<Rightarrow> Step \<Rightarrow> bool" where
  "free A E s \<longleftrightarrow> (\<forall>fx. performs E s fx \<longrightarrow> A fx)"

lemma freeD:
  "free A E s \<Longrightarrow> prepare_step E s = Inr env \<Longrightarrow> A (FxExec s (sandbox_env_for_exec E env))"
  "free A E s \<Longrightarrow> prepare_step E s = Inr env \<Longrightarrow> renders_to E (s_command s) c \<Longrightarrow>
    A (FxExec (s\<lparr>s_command := c\<rparr>) (sandbox_env_for_exec E env))"
  "free A E s \<Longrightarrow> prepare_step E s = Inr env \<Longrightarrow> prompts_with E s prompt \<Longrightarrow>
    A (FxAgent s prompt (agent_env_in E env c') c')"
  "free A E s \<Longrightarrow> prepare_step E s = Inr env \<Longrightarrow> prompts_with E s prompt \<Longrightarrow>
    resolve_api_key (h_env (e_host E)) (s_name s) (s_api_key_env s) env = Inr key \<Longrightarrow>
    A (FxChat (build_chat_request s prompt hist key))"
  unfolding free_def by (drule spec, erule mp, fastforce)+

lemma allowsD: "allows P n ctx \<Longrightarrow> event_scope ev = Some ctx \<Longrightarrow> event_step ev = Some n \<Longrightarrow> P ev"
  by (simp add: allows_def)

lemma adds_cmd_exec_result:
  assumes b: "based P A" and c: "\<And>ctx'. ctx = Some ctx' \<Longrightarrow> allows P (s_name s) ctx'"
  shows "adds P A (cmd_exec_result E s i ctx d r)"
proof -
  have "P (StepCompleted (s_name s) t dd ts it ot co sb out ctx go sid)" for t dd ts it ot co sb out go sid
    using basedD(1) [OF b] allowsD [OF c] by (cases ctx) auto
  then show ?thesis
    unfolding cmd_exec_result_def Let_def
    by (intro adds_shared [OF b] grows_rules; (simp add: basedD [OF b]; fail)?)
      (simp split: SandboxError.split, intro conjI impI allI adds_shared [OF b] grows_rules; simp add: basedD [OF b])
qed

lemma adds_execute_cmd:
  assumes b: "based P A" and "A (FxExec s (sandbox_env_for_exec E env))"
    and "\<And>ctx'. ctx = Some ctx' \<Longrightarrow> allows P (s_name s) ctx'"
  shows "adds P A (execute_cmd_with_select E s env i ctx start)"
  unfolding execute_cmd_with_select_def Let_def
  by (intro adds_cmd_exec_result adds_shared [OF b] grows_rules assms; simp add: basedD [OF b])

text \<open>What is known of an answer, whatever the world.\<close>

definition gives :: "('a \<Rightarrow> bool) \<Rightarrow> 'a eng \<Rightarrow> bool" where
  "gives G m \<longleftrightarrow> (\<forall>w a w'. m w = (Inr a, w') \<longrightarrow> G a)"

lemma givesI: "(\<And>w a w'. m w = (Inr a, w') \<Longrightarrow> G a) \<Longrightarrow> gives G m"
  by (simp add: gives_def)

lemma gives_ebind: "gives H m \<Longrightarrow> (\<And>a. H a \<Longrightarrow> gives G (f a)) \<Longrightarrow> gives G (ebind m f)"
  unfolding gives_def ebind_def by (fastforce split: prod.splits sum.splits)

lemma gives_any: "gives (\<lambda>a. True) m"
  by (simp add: gives_def)

lemma gives_ret: "G a \<Longrightarrow> gives G (ret a)"
  by (simp add: gives_def ret_def)

lemma adds_given:
  assumes "adds P A m" "gives G m" "\<And>a. G a \<Longrightarrow> adds P A (f a)"
  shows "adds P A (ebind m f)"
proof (rule addsI)
  fix w r w'
  assume run: "ebind m f w = (r, w')"
  obtain x w1 where m: "m w = (x, w1)" by fastforce
  then have here: "grown P A w w1" using assms(1) by (rule addsD [rotated])
  show "grown P A w w'"
  proof (cases x)
    case (Inr a)
    then have "G a" using assms(2) m by (auto simp: gives_def)
    then have "grown P A w1 w'" using run m Inr by (intro addsD [OF assms(3)]) (auto simp: ebind_def)
    with here show ?thesis by (rule grown_trans)
  qed (use run m here in \<open>simp add: ebind_def\<close>)
qed

text \<open>The environment an agent gets is a function of where it runs.\<close>

lemma gives_exec_target: "gives (\<lambda>(e, c). e = agent_env_in E env c) (agent_exec_target E env)"
  unfolding agent_exec_target_def
  by (intro gives_ebind [OF gives_any] gives_ret) (simp add: agent_env_in_def split: option.split)

lemma adds_targeted:
  assumes b: "based P A" and a: "\<And>c. A (FxAgent s p (agent_env_in E env c) c)"
    and f: "\<And>e c. A (FxAgent s p e c) \<Longrightarrow> adds P A (f e c)"
  shows "adds P A (ebind (agent_exec_target E env) (\<lambda>(e, c). f e c))"
proof (rule adds_given [OF _ gives_exec_target])
  show "adds P A (agent_exec_target E env)" by (rule adds_shared [OF b])
  show "adds P A (case x of (e, c) \<Rightarrow> f e c)" if "case x of (e, c) \<Rightarrow> e = agent_env_in E env c" for x
    using that f a by (cases x) simp
qed

lemma agent_setup_own:
  "agent_setup E s ctx = Inr (env, p) \<Longrightarrow> prepare_step E s = Inr env \<and> prompts_with E s p"
  by (auto simp: agent_setup_def res_bind_Ok_iff prompts_with_def renders_to_def ok_or_def split: option.splits)

lemma chat_setup_own:
  "chat_setup E s ctx = Inr (p, key) \<Longrightarrow> \<exists>env. prepare_step E s = Inr env \<and> prompts_with E s p \<and>
    resolve_api_key (h_env (e_host E)) (s_name s) (s_api_key_env s) env = Inr key"
  by (auto simp: chat_setup_def res_bind_Ok_iff prompts_with_def renders_to_def ok_or_def
      split: option.splits if_splits)

lemma gives_scope_prompt:
  "gives (\<lambda>r. \<forall>p. r = Inr p \<longrightarrow> prompts_with E s p) (render_scope_prompt E s ctx val)"
  unfolding render_scope_prompt_def
  by (cases "s_prompt s") (auto intro!: gives_ret gives_ebind [OF gives_any] simp: prompts_with_def renders_to_def)

text \<open>The top-level steps.\<close>

lemma adds_endings:
  assumes b: "based P A"
  shows "adds P A (fail_step E s err start sb)" "adds P A (fail_step_after E s err d)"
    "adds P A (cancel_step E s err d)" "adds P A (signal_step E s err d sg i)"
    "adds P A (time_out_step E s msg d i)" "adds P A (complete_text E s txt start)"
  unfolding fail_step_def fail_step_after_def cancel_step_def signal_step_def time_out_step_def
    complete_text_def Let_def
  by (intro adds_shared [OF b] grows_rules; simp add: basedD [OF b])+

lemma adds_verdict [grows_rules]:
  "adds P A a \<Longrightarrow> adds P A b \<Longrightarrow> adds P A c \<Longrightarrow> (\<And>m. adds P A (f m)) \<Longrightarrow>
    adds P A (case x of VContinue \<Rightarrow> a | VSkip \<Rightarrow> b | VBreak \<Rightarrow> c | VFail m \<Rightarrow> f m)"
  by (simp split: GateVerdict.split)

lemma adds_chat_completed:
  assumes b: "based P A" and c: "\<And>ctx'. ctx = Some ctx' \<Longrightarrow> allows P (s_name s) ctx'"
  shows "adds P A (chat_completed E s d sb ctx out)"
proof -
  have "P (StepCompleted (s_name s) t dd ts it ot co sb out ctx go sid)" for t dd ts it ot co sb out go sid
    using basedD(1) [OF b] allowsD [OF c] by (cases ctx) auto
  then show ?thesis
    unfolding chat_completed_def by (intro grows_rules) (simp_all add: basedD [OF b])
qed

lemma adds_top_steps:
  assumes b: "based P A" and f: "free A E s"
  shows "adds P A (run_gate_step E s outs start)" "adds P A (run_template_step E s outs start)"
    "adds P A (run_script_step E s outs start)" "adds P A (run_agent_step E s progress start i)"
    "adds P A (run_chat_step E s progress start i)" "adds P A (run_cmd_step E s progress start i)"
proof -
  note rules = adds_endings [OF b] adds_chat_completed [OF b] adds_execute_cmd [OF b] adds_shared [OF b]
  note base = basedD [OF b] freeD [OF f]
  show "adds P A (run_gate_step E s outs start)"
    unfolding run_gate_step_def by (intro rules grows_rules; simp add: base)
  show "adds P A (run_template_step E s outs start)"
    unfolding run_template_step_def Let_def by (intro rules grows_rules)
  show "adds P A (run_script_step E s outs start)"
    unfolding run_script_step_def by (intro rules grows_rules)
  have race: "adds P A (race_agent E s p st env)"
    if "prepare_step E s = Inr env" "prompts_with E s p" for p st env
    unfolding race_agent_def
    by (rule adds_targeted [OF b freeD(3) [OF f that]]) (intro grows_rules)
  show "adds P A (run_agent_step E s progress start i)"
    unfolding run_agent_step_def agent_result_def Let_def
    by (intro race rules grows_rules; simp add: base agent_setup_own)
  show "adds P A (run_chat_step E s progress start i)"
  proof (cases "chat_setup E s (top_context E (outputs progress))")
    case (Inr x)
    then have "A (FxChat (build_chat_request s (fst x) hist (snd x)))" for hist
      using chat_setup_own [of E s _ "fst x" "snd x"] freeD(4) [OF f] by fastforce
    then show ?thesis
      using Inr unfolding run_chat_step_def race_chat_def chat_result_def Let_def
      by (auto intro!: rules grows_rules simp: basedD [OF b])
  qed (simp add: run_chat_step_def rules)
  have "adds P A (step_of_cmd s' i o')" for s' o' by (cases o') (auto intro: grows_rules)
  moreover have c: "s' = s \<or> (\<exists>c. s' = s\<lparr>s_command := c\<rparr> \<and> renders_to E (s_command s) c)"
    if "rendered_command E s outs = Inr s'" for s' outs
    using that by (auto simp: rendered_command_def res_bind_Ok_iff renders_to_def split: if_splits)
  moreover have "A (FxExec s' (sandbox_env_for_exec E env))"
    if "rendered_command E s outs = Inr s'" "prepare_step E s = Inr env" for s' outs env
    using c [OF that(1)] freeD(1,2) [OF f that(2)] by blast
  ultimately show "adds P A (run_cmd_step E s progress start i)"
    unfolding run_cmd_step_def by (intro rules grows_rules) auto
qed


text \<open>The steps of a body, and the walk over it.\<close>

lemma adds_body_timed_out:
  assumes b: "based P A"
  shows "adds P A (body_timed_out E s ctx msg d)"
  unfolding body_timed_out_def by (intro adds_shared [OF b] grows_rules; simp add: basedD [OF b])

lemma adds_body_endings:
  assumes b: "based P A"
  shows "adds P A (emit_scope_gate_failure E s start err)" "adds P A (emit_scope_body_failure E s start err)"
    "adds P A (body_failed_now E s err)" "adds P A (body_signal E s err sg d)"
    "adds P A (body_cancelled E s err d)" "adds P A (body_context E ctx val)"
    "adds P A (render_scope_prompt E s ctx val)"
  unfolding emit_scope_gate_failure_def emit_scope_body_failure_def body_failed_now_def body_signal_def
    body_cancelled_def render_scope_prompt_def body_context_def
  by (intro adds_shared [OF b] grows_rules; simp add: basedD [OF b])+

lemma adds_body_step:
  assumes b: "based P A" and c: "allows P (s_name s) ctx" and f: "free A E s"
  shows "adds P A (run_scope_body_step E s ctx val)"
proof -
  note ends = adds_body_timed_out [OF b] adds_body_endings [OF b] adds_shared [OF b]
  note base = basedD [OF b] freeD [OF f] allowsD [OF c]
  have start: "adds P A (emit_scope_started E s ctx)"
    unfolding emit_scope_started_def by (intro grows_rules) (simp add: base)
  have chat: "adds P A (chat_completed E s d sb (Some ctx) out)" for d sb out
    using c by (intro adds_chat_completed [OF b]) simp
  have exec: "adds P A (execute_cmd_with_select E (s\<lparr>s_command := x\<rparr>) env i (Some ctx) t)"
    if "prepare_step E s = Inr env" "render (h_tera (e_host E)) (s_command s) rc = Inr x" for x env i t rc
  proof -
    have "renders_to E (s_command s) x" using that(2) by (auto simp: renders_to_def)
    then show ?thesis using c freeD(2) [OF f that(1)] by (intro adds_execute_cmd [OF b]) simp_all
  qed
  have cmd: "adds P A (run_scope_body_cmd E s ctx val)"
    unfolding run_scope_body_cmd_def by (intro start exec ends grows_rules)
  have gate: "adds P A (run_scope_body_gate E s ctx val)"
    unfolding run_scope_body_gate_def gate_completed_def Let_def
    by (intro start ends grows_rules; simp add: base)
  note prompt = adds_given [OF adds_body_endings(7) [OF b] gives_scope_prompt]
  have agent: "adds P A (run_scope_body_agent E s ctx val)"
    unfolding run_scope_body_agent_def body_agent_result_def Let_def
    by (intro start prompt adds_targeted [OF b] ends grows_rules;
        simp add: basedD [OF b] allowsD [OF c] freeD(3) [OF f])
  have req: "A (FxChat req)" if "prepare_step E s = Inr env" "\<forall>p. r = Inr p \<longrightarrow> prompts_with E s p" "r = Inr p"
    "body_chat_request E s env p pr = Inr req" for env r p pr req
    using that freeD(4) [OF f] by (auto simp: body_chat_request_def res_bind_Ok_iff split: if_splits)
  have chats: "adds P A (run_scope_body_chat E s ctx val)"
    unfolding run_scope_body_chat_def race_chat_def body_chat_result_def Let_def
    by (intro start prompt chat ends grows_rules; (simp add: basedD [OF b] allowsD [OF c]; fail)?) (rule req)
  have other: "adds P A (run_scope_body_other E s ctx)"
    unfolding run_scope_body_other_def Let_def by (intro start ends grows_rules)
  show ?thesis
    unfolding run_scope_body_step_def by (cases "s_kind s") (simp_all add: cmd gate agent chats other)
qed

lemma adds_body_case [grows_rules]:
  "(\<And>out. adds P A (k out)) \<Longrightarrow> adds P A a \<Longrightarrow> adds P A b \<Longrightarrow> (\<And>e. adds P A (f e)) \<Longrightarrow> adds P A c \<Longrightarrow>
    (\<And>sg. adds P A (g sg)) \<Longrightarrow> (\<And>ms. adds P A (t ms)) \<Longrightarrow> (\<And>ms. adds P A (i ms)) \<Longrightarrow>
    adds P A (case x of BodyContinue out \<Rightarrow> k out | BodySkip \<Rightarrow> a | BodyBreak \<Rightarrow> b | BodyFailed e \<Rightarrow> f e
      | BodyCancelled \<Rightarrow> c | BodySignal sg \<Rightarrow> g sg | BodyTimedOut ms \<Rightarrow> t ms | BodyIdleTimedOut ms \<Rightarrow> i ms)"
  by (simp split: BodyStep.split)

lemma adds_nested_container:
  "based P A \<Longrightarrow> adds P A (nested_container E ctr s)"
  unfolding nested_container_def Let_def by (intro adds_shared grows_rules)

definition body_allows ::
  "(Event \<Rightarrow> bool) \<Rightarrow> (Effect \<Rightarrow> bool) \<Rightarrow> Engine \<Rightarrow> string \<Rightarrow> nat \<Rightarrow> nat \<Rightarrow> Step list \<Rightarrow> bool" where
  "body_allows P A E cname it idx ss \<longleftrightarrow> (\<forall>i < length ss.
     allows P (s_name (ss ! i)) \<lparr>container = cname, iteration = it, position = as_u32 (idx + i)\<rparr> \<and>
     free A E (ss ! i))"

lemma body_allows_Cons:
  "body_allows P A E cname it idx (s # ss) \<longleftrightarrow>
    allows P (s_name s) \<lparr>container = cname, iteration = it, position = as_u32 idx\<rparr> \<and> free A E s \<and>
    body_allows P A E cname it (idx + 1) ss"
  by (simp add: body_allows_def All_less_Suc2)

lemma adds_scope_body_loop:
  assumes b: "based P A"
  shows "body_allows P A E (s_name ctr) it idx ss \<Longrightarrow> adds P A (scope_body_loop ss E ctr it val fr idx lo)"
proof (induction ss arbitrary: idx lo)
  case (Cons s ss)
  then have here: "adds P A (run_scope_body_step E s \<lparr>container = s_name ctr, iteration = it, position = as_u32 idx\<rparr> val)"
    and rest: "adds P A (scope_body_loop ss E ctr it val fr (idx + 1) lo)" for lo
    by (auto simp: body_allows_Cons intro: adds_body_step [OF b])
  show ?case
    unfolding scope_body_loop.simps by (intro here rest adds_nested_container [OF b] adds_shared [OF b] grows_rules)
qed (simp add: grows_rules)

lemma adds_scope_body:
  "based P A \<Longrightarrow> body_allows P A E (s_name ctr) it 0 body \<Longrightarrow> adds P A (run_scope_body E ctr body it val ld)"
  unfolding run_scope_body_def by (rule adds_scope_body_loop)


section \<open>Containers\<close>

text \<open>The iterations a container may run, by its kind.\<close>

definition map_items :: "Engine \<Rightarrow> Step \<Rightarrow> string list \<Rightarrow> bool" where
  "map_items E s items \<longleftrightarrow> (\<exists>template outs rendered. s_items s = Some template \<and>
     render (h_tera (e_host E)) template (top_context E outs) = Inr rendered \<and>
     items = parse_items (h_json (e_host E)) (h_json_text (e_host E)) rendered)"

definition iteration_ok :: "Engine \<Rightarrow> Step \<Rightarrow> nat \<Rightarrow> bool" where
  "iteration_ok E s it =
    (if s_kind s = KRepeat then it < max_iterations s
     else if s_kind s = KMap then \<exists>items. map_items E s items \<and> it < length items
     else it = 0)"

definition scope_allows :: "(Event \<Rightarrow> bool) \<Rightarrow> (Effect \<Rightarrow> bool) \<Rightarrow> Engine \<Rightarrow> Step \<Rightarrow> bool" where
  "scope_allows P A E s \<longleftrightarrow> (\<forall>sc it. container_scope E s = Inr sc \<and> iteration_ok E s it \<longrightarrow>
     body_allows P A E (s_name s) it 0 (sc_steps sc))"

lemma scope_allowsD:
  "scope_allows P A E s \<Longrightarrow> container_scope E s = Inr sc \<Longrightarrow> iteration_ok E s it \<Longrightarrow>
    body_allows P A E (s_name s) it 0 (sc_steps sc)"
  by (simp add: scope_allows_def)

lemma adds_container_endings:
  assumes b: "based P A"
  shows "adds P A (emit_container_success E s start x)" "adds P A (emit_container_failure E s start err)"
    "adds P A (emit_container_cancel E s start)" "adds P A (emit_container_signal E s start sg)"
    "adds P A (emit_container_timeout E s start m ms)" "adds P A (container_done E s start sc lo it)"
    "adds P A (map_done E s start n st)"
  unfolding emit_container_success_def emit_container_failure_def emit_container_cancel_def
    emit_container_signal_def emit_container_timeout_def container_done_def map_done_def
    synthesise_container_output_def Let_def
  by (intro adds_shared [OF b] grows_rules; simp add: basedD [OF b])+

lemma adds_iteration:
  assumes b: "based P A" and "adds P A m" "\<And>out. adds P A (k out)" "\<And>out. adds P A (l out)"
  shows "adds P A (ebind m (\<lambda>o'. case o' of
      IterCompleted out \<Rightarrow> k out | IterBreak out \<Rightarrow> l out | _ \<Rightarrow> iteration_ended E s start index o'))"
proof (intro adds_ebind assms(2))
  fix o'
  have "adds P A (iteration_ended E s start index o')"
    unfolding iteration_ended_def
    by (cases o') (simp_all add: adds_container_endings [OF b] adds_ret adds_throw)
  then show "adds P A (case o' of
      IterCompleted out \<Rightarrow> k out | IterBreak out \<Rightarrow> l out | _ \<Rightarrow> iteration_ended E s start index o')"
    using assms(3,4) by (cases o') auto
qed

lemma adds_repeat_loop:
  assumes b: "based P A"
  shows "(\<And>it. it < max_iter \<Longrightarrow> body_allows P A E (s_name s) it 0 (sc_steps sc)) \<Longrightarrow>
    adds P A (repeat_loop E s start index sc max_iter st final)"
proof (induction E s start index sc max_iter st final rule: repeat_loop.induct)
  case (1 E s start index sc max_iter st final)
  show ?case
    by (subst repeat_loop.simps)
      (intro adds_if adds_iteration [OF b] adds_ebind adds_container_endings [OF b] adds_reads adds_throw
        adds_scope_body [OF b] 1; (assumption | rule refl | simp)?)
qed

lemma adds_map_loop:
  assumes b: "based P A"
  shows "(\<And>it. it < length items \<Longrightarrow> body_allows P A E (s_name s) it 0 (sc_steps sc)) \<Longrightarrow>
    adds P A (map_loop E s start index sc items st)"
proof (induction E s start index sc items st rule: map_loop.induct)
  case (1 E s start index sc items st)
  show ?case
    by (subst map_loop.simps, simp only: Let_def)
      (intro adds_if adds_iteration [OF b] adds_ebind adds_container_endings [OF b] adds_reads adds_throw
        adds_scope_body [OF b] 1; (assumption | rule refl | simp)?)
qed

lemma adds_run_call:
  assumes b: "based P A" and s: "scope_allows P A E s" "s_kind s = KCall"
  shows "adds P A (run_call E s start)"
proof -
  have body: "adds P A (run_scope_body E s (sc_steps sc) 0 val ld)" if "container_scope E s = Inr sc" for sc val ld
    using that s(2) by (intro adds_scope_body [OF b] scope_allowsD [OF s(1)]) (simp_all add: iteration_ok_def)
  show ?thesis
    unfolding run_call_def by (intro adds_iteration [OF b] body adds_container_endings [OF b] grows_rules)
qed

lemma adds_run_repeat:
  assumes b: "based P A" and s: "scope_allows P A E s" "s_kind s = KRepeat"
  shows "adds P A (run_repeat E s start)"
  unfolding run_repeat_def
  by (intro adds_repeat_loop [OF b] adds_container_endings [OF b] grows_rules scope_allowsD [OF s(1)])
    (simp_all add: iteration_ok_def s(2))

lemma adds_run_map:
  assumes b: "based P A" and s: "scope_allows P A E s" "s_kind s = KMap"
  shows "adds P A (run_map E s start)"
  unfolding run_map_def Let_def
  by (intro adds_map_loop [OF b] adds_container_endings [OF b] grows_rules scope_allowsD [OF s(1)])
    (auto simp: iteration_ok_def s(2) map_items_def)


section \<open>parallel\<close>

fun task_place :: "ParallelTask \<Rightarrow> nat \<times> string" where
  "task_place (PCmd pos n s env) = (pos, n)"
| "task_place (PAgent pos n s prompt env st) = (pos, n)"
| "task_place (PChat pos n s req session txt) = (pos, n)"

fun task_effect :: "Engine \<Rightarrow> AgentContainer option \<Rightarrow> ParallelTask \<Rightarrow> Effect" where
  "task_effect E c (PCmd pos n s env) = FxExec s (sandbox_env_for_exec E env)"
| "task_effect E c (PAgent pos n s prompt env st) = FxAgent s prompt (agent_env_in E env c) c"
| "task_effect E c (PChat pos n s req session txt) = FxChat req"

lemma sub_prompt_own: "sub_prompt E s ctx = Inr p \<Longrightarrow> prompts_with E s p"
  by (auto simp: sub_prompt_def res_bind_Ok_iff ok_or_def prompts_with_def renders_to_def split: option.splits)

lemma parallel_task_own:
  assumes "parallel_task E ctx progress pos sub = Inr t"
  shows "task_place t = (pos, s_name sub) \<and> performs E sub (task_effect E c t)"
proof -
  have "renders_to E (s_command sub) x" if "render (h_tera (e_host E)) (s_command sub) ctx = Inr x" for x
    using that by (auto simp: renders_to_def)
  then show ?thesis
    using assms
    by (auto simp: parallel_task_def parallel_chat_task_def res_bind_Ok_iff Let_def split: if_splits
        dest!: sub_prompt_own) blast
qed

lemma parallel_tasks_own:
  "parallel_tasks E ctx progress already idx subs = Inr ts \<Longrightarrow> t \<in> set ts \<Longrightarrow>
    \<exists>i < length subs. task_place t = (as_u32 (idx + i), s_name (subs ! i)) \<and>
      performs E (subs ! i) (task_effect E c t)"
proof (induction subs arbitrary: idx ts)
  case (Cons sub subs)
  show ?case
  proof (cases "\<exists>ts'. parallel_tasks E ctx progress already (idx + 1) subs = Inr ts' \<and> t \<in> set ts'")
    case True
    with Cons.IH obtain i where "i < length subs" "task_place t = (as_u32 (idx + 1 + i), s_name (subs ! i)) \<and>
        performs E (subs ! i) (task_effect E c t)" by blast
    then show ?thesis by (intro exI [of _ "Suc i"]) simp
  next
    case False
    with Cons.prems have "parallel_task E ctx progress (as_u32 idx) sub = Inr t"
      by (auto simp: res_bind_Ok_iff split: if_splits)
    then show ?thesis by (intro exI [of _ 0]) (simp add: parallel_task_own)
  qed
qed simp

abbreviation place :: "nat \<times> string \<times> 'b \<Rightarrow> nat \<times> string" where
  "place j \<equiv> (fst j, fst (snd j))"

lemma gives_run_task: "gives (\<lambda>j. place j = task_place t) (run_task E t)"
  by (cases t) (auto simp: Let_def intro!: gives_ebind [OF gives_any] gives_ret split: prod.split)

lemma gives_spawn: "gives (\<lambda>rs. map place rs = map task_place ts) (spawn_tasks ts E)"
proof (induction ts)
  case (Cons t ts)
  show ?case
    unfolding spawn_tasks.simps
    by (intro gives_ebind [OF gives_run_task] gives_ebind [OF Cons.IH] gives_ret) simp
qed (simp add: gives_ret)

lemma adds_spawn:
  assumes b: "based P A"
  shows "(\<And>c t. t \<in> set ts \<Longrightarrow> A (task_effect E c t)) \<Longrightarrow> adds P A (spawn_tasks ts E)"
proof (induction ts)
  case (Cons t ts)
  have "A (task_effect E c t)" for c using Cons.prems [of t] by simp
  then have "adds P A (run_task E t)"
    by (cases t; simp only: run_task.simps task_effect.simps Let_def task_call_def;
        intro adds_targeted [OF b] adds_shared [OF b] grows_rules; simp)
  with Cons show ?case by (auto intro!: grows_rules)
qed (simp add: grows_rules)

lemma take_task_set:
  "xs \<noteq> [] \<Longrightarrow> fst (take_task i xs) \<in> set xs" "set (snd (take_task i xs)) \<subseteq> set xs"
  by (auto simp: take_task_def Let_def dest: in_set_takeD in_set_dropD)

lemma completion_place: "c \<in> set (completion_of j) \<Longrightarrow> place c = place j"
  by (cases j rule: completion_of.cases) auto

lemma drained_subsets:
  "C' \<subseteq> (C \<union> H) \<union> R \<and> L \<subseteq> R \<Longrightarrow> R \<subseteq> T \<Longrightarrow> H \<subseteq> T \<Longrightarrow> C' \<subseteq> C \<union> T \<and> L \<subseteq> T"
  by blast

lemma drain_tasks_places:
  "drain_tasks c sg evs tasks comps = (d, comps', left) \<Longrightarrow>
    place ` set comps' \<subseteq> place ` set comps \<union> place ` set tasks \<and> place ` set left \<subseteq> place ` set tasks"
proof (induction c sg evs tasks comps arbitrary: d comps' left rule: drain_tasks.induct)
  case (1 c sg evs tasks comps)
  show ?case
  proof (cases "tasks = []")
    case True
    with "1.prems" show ?thesis by (simp add: drain_tasks.simps)
  next
    case False
    note IH = "1.IH" [OF False _ refl refl refl]
    have sub: "place ` set (snd (take_task i tasks)) \<subseteq> place ` set tasks" for i
      using take_task_set(2) by (intro image_mono)
    have here: "place ` set (completion_of (fst (take_task i tasks))) \<subseteq> place ` set tasks" for i
      using take_task_set(1) [OF False] by (auto simp: completion_place)
    show ?thesis
    proof (cases "next_join c evs")
      case (JoinTask i)
      let ?j = "fst (take_task i tasks)" and ?rest = "snd (take_task i tasks)"
      show ?thesis
      proof (cases "task_terminal (fst (snd ?j)) (snd (snd (snd ?j)))")
        case None
        with "1.prems" False JoinTask
        have "drain_tasks c sg (tl evs) ?rest (comps @ completion_of ?j) = (d, comps', left)"
          by (simp add: drain_tasks.simps [of c sg evs tasks comps] Let_def)
        from IH [OF JoinTask None this] show ?thesis
          unfolding set_append image_Un by (rule drained_subsets [OF _ sub here])
      next
        case (Some d')
        with "1.prems" False JoinTask have e: "comps' = comps @ completion_of ?j" "left = ?rest"
          by (simp_all add: drain_tasks.simps [of c sg evs tasks comps] Let_def)
        show ?thesis unfolding e set_append image_Un by (rule drained_subsets [OF _ sub [of i] here [of i]]) blast
      qed
    next
      case (JoinPanic i m)
      with "1.prems" False have e: "comps' = comps" "left = snd (take_task i tasks)"
        by (simp_all add: drain_tasks.simps [of c sg evs tasks comps])
      show ?thesis unfolding e using sub by simp
    qed (use "1.prems" False in \<open>auto simp: drain_tasks.simps [of c sg evs tasks comps]\<close>)
  qed
qed

lemma drain_all_places:
  "drain_all c sg evs late tasks = (d, comps) \<Longrightarrow> x \<in> set comps \<Longrightarrow> place x \<in> place ` set tasks"
proof -
  assume d: "drain_all c sg evs late tasks = (d, comps)" and x: "x \<in> set comps"
  obtain comps' left where t: "drain_tasks c sg evs tasks [] = (d, comps', left)"
      and c: "comps = sort_key fst (comps' @ late_completions late left)"
    using d by (auto simp: drain_all_def split: prod.splits)
  note p = drain_tasks_places [OF t]
  from x c consider "x \<in> set comps'" | j where "j \<in> set left" "x \<in> set (completion_of j)"
    by (auto simp: late_completions_def split: if_splits)
  then show ?thesis
  proof cases
    case 1 then show ?thesis using p by auto
  next
    case (2 j)
    from 2(2) have "place x = place j" by (rule completion_place)
    with 2(1) p show ?thesis by auto
  qed
qed


lemma adds_emit_completion:
  assumes b: "based P A" and a: "allows P (fst (snd c)) \<lparr>container = cname, iteration = 0, position = fst c\<rparr>"
  shows "adds P A (emit_completion E cname c)"
proof -
  obtain pos n k out where c: "c = (pos, n, k, out)" by (cases c)
  note base = basedD [OF b] allowsD [OF a [unfolded c fst_conv snd_conv]]
  show ?thesis
    unfolding emit_completion_def c Let_def prod.case
    by (cases out; simp only: emit_output.simps Let_def emit_task_completed_def; intro grows_rules; simp add: base)
qed

lemma adds_emit_completions:
  assumes b: "based P A"
  shows "(\<And>c. c \<in> set cs \<Longrightarrow> allows P (fst (snd c)) \<lparr>container = cname, iteration = 0, position = fst c\<rparr>) \<Longrightarrow>
    adds P A (emit_completions cs E cname snaps)"
proof (induction cs arbitrary: snaps)
  case (Cons c cs)
  show ?case
    unfolding emit_completions.simps
    by (intro adds_ebind adds_emit_completion [OF b] Cons.IH Cons.prems) simp_all
qed (simp add: grows_rules)

lemma adds_parallel_ended:
  assumes b: "based P A"
  shows "adds P A (parallel_ended E s start index sc d snaps)"
  unfolding parallel_ended_def parallel_output_def
  by (cases d; simp only: ParallelDrain.case; intro adds_container_endings [OF b] grows_rules)

lemma adds_parallel_run:
  assumes b: "based P A" and s: "body_allows P A E (s_name s) 0 0 (sc_steps sc)"
    and t: "parallel_tasks E ctx progress already 0 (sc_steps sc) = Inr tasks"
  shows "adds P A (parallel_run E s start index sc tasks)"
proof -
  have own: "\<exists>i < length (sc_steps sc). task_place t = (as_u32 i, s_name (sc_steps sc ! i)) \<and>
      performs E (sc_steps sc ! i) (task_effect E c t)" if "t \<in> set tasks" for c t
    using parallel_tasks_own [OF t that] by simp
  have effects: "A (task_effect E c t)" if "t \<in> set tasks" for c t
    using own [OF that, of c] s by (auto simp: body_allows_def free_def)
  have places: "allows P n \<lparr>container = s_name s, iteration = 0, position = pos\<rparr>"
    if "(pos, n) \<in> task_place ` set tasks" for pos n
    using that own s by (force simp: body_allows_def)
  have emits: "adds P A (emit_completions comps E (s_name s) [])"
    if "map place joined = map task_place tasks" "drain_all c sg evs late joined = (d, comps)"
    for joined c sg evs late d comps
  proof (rule adds_emit_completions [OF b])
    fix x assume "x \<in> set comps"
    with that(2) have "place x \<in> place ` set joined" by (rule drain_all_places)
    also have "place ` set joined = task_place ` set tasks" using that(1) by (metis list.set_map)
    finally show "allows P (fst (snd x)) \<lparr>container = s_name s, iteration = 0, position = fst x\<rparr>"
      by (rule places)
  qed
  show ?thesis
    unfolding parallel_run_def Let_def
    by (rule adds_given [OF adds_spawn [OF b effects] gives_spawn], assumption)
      (intro emits adds_parallel_ended [OF b] grows_rules, assumption+)
qed

lemma adds_run_parallel:
  assumes b: "based P A" and s: "scope_allows P A E s" "s_kind s = KParallel"
  shows "adds P A (run_parallel E s start)"
  unfolding run_parallel_def
  by (intro adds_parallel_run [OF b] scope_allowsD [OF s(1)] adds_container_endings [OF b] grows_rules)
    (simp_all add: iteration_ok_def s(2))

section \<open>One step\<close>

definition is_container :: "Step \<Rightarrow> bool" where
  "is_container s \<longleftrightarrow> s_kind s \<in> {KCall, KRepeat, KMap, KParallel}"

lemma adds_dispatch:
  assumes b: "based P A" and "\<not> is_container s \<Longrightarrow> free A E s" "is_container s \<Longrightarrow> scope_allows P A E s"
  shows "adds P A (dispatch E s progress start)"
  using assms(2,3)
  unfolding dispatch_def run_container_step_def Let_def is_container_def
  by (cases "s_kind s")
    (simp_all add: adds_top_steps [OF b] adds_run_call [OF b] adds_run_repeat [OF b] adds_run_map [OF b] adds_run_parallel [OF b])

end
