(* ===== verification/EngineSpecs.thy ===== *)
theory EngineSpecs
  imports EngineLaws Engine
begin

text \<open>
  What each operation of the engine does to the log and to the session, read through four
  observations: the names of the top-level completions, whether a step failed, whether the workflow
  is done, and the status of the session. Each operation has one rule of the weakest precondition.
\<close>

section \<open>Observations\<close>

definition top_completed :: "json \<Rightarrow> bool" where
  "top_completed p \<longleftrightarrow> tag_of p = Some ''step_completed'' \<and> \<not> is_scoped p"

definition comp_names :: "json list \<Rightarrow> string option list" where
  "comp_names ps = map (\<lambda>p. jget_str p ''step_name'') (filter top_completed ps)"

lemma length_comp_names [simp]: "length (comp_names ps) = n_completed ps"
  by (simp add: comp_names_def n_completed_def top_completed_def [abs_def])

lemma comp_names_append [simp]: "comp_names (xs @ ys) = comp_names xs @ comp_names ys"
  by (simp add: comp_names_def)

lemma comp_names_Nil [simp]: "comp_names [] = []"
  by (simp add: comp_names_def)

lemma any_failed_append [simp]: "any_failed (xs @ ys) \<longleftrightarrow> any_failed xs \<or> any_failed ys"
  by (auto simp: any_failed_def)

lemma any_done_append [simp]: "any_done (xs @ ys) \<longleftrightarrow> any_done xs \<or> any_done ys"
  by (auto simp: any_done_def)

lemma is_scoped_event [simp]:
  "is_scoped (event_json (StepCompleted n t d ts it ot c sb out sc go sid)) \<longleftrightarrow> sc \<noteq> None"
  by (cases sc) (simp_all add: is_scoped_def map_add_def)

lemma name_of_completed [simp]:
  "jget_str (event_json (StepCompleted n t d ts it ot c sb out sc go sid)) ''step_name'' = Some n"
  by (simp add: jget_str_def map_add_def)

fun tag_name :: "Event \<Rightarrow> string" where
  "tag_name (WorkflowStarted ts) = ''workflow_started''"
| "tag_name (WorkflowCompleted d ts) = ''workflow_completed''"
| "tag_name (WorkflowCancelled d ts) = ''workflow_cancelled''"
| "tag_name (StepStarted n t ts sc) = ''step_started''"
| "tag_name (StepCompleted n t d ts it ot c sb out sc go sid) = ''step_completed''"
| "tag_name (StepFailed n t e d ts sb) = ''step_failed''"
| "tag_name (SandboxCreated i ts) = ''sandbox_created''"
| "tag_name (SandboxDestroyed i ts) = ''sandbox_destroyed''"
| "tag_name (StepTimeoutFired i ms) = ''step_timeout_fired''"
| "tag_name (IdleTimeoutFired i ms) = ''idle_timeout_fired''"
| "tag_name (SignalReceived s) = ''signal_received''"
| "tag_name (CompletionSignaled i s) = ''completion_signaled''"
| "tag_name (WorkspacePrepared p s) = ''workspace_prepared''"
| "tag_name (BranchCreated b base) = ''branch_created''"
| "tag_name (WorkspacePruned p r) = ''workspace_pruned''"
| "tag_name (MergeAttempted s t) = ''merge_attempted''"
| "tag_name (MergeConflict s t fs) = ''merge_conflict''"
| "tag_name (ChatMessageAppended n s r c ts) = ''chat_message_appended''"
| "tag_name (FileLogWriteFailed c ts) = ''file_log_write_failed''"

lemma tag_of_event [simp]: "tag_of (event_json ev) = Some (tag_name ev)"
  by (cases ev) simp_all

fun completes :: "Event \<Rightarrow> string option list" where
  "completes (StepCompleted n t d ts it ot c sb out None go sid) = [Some n]"
| "completes _ = []"

fun is_failure :: "Event \<Rightarrow> bool" where
  "is_failure (StepFailed n t e d ts sb) = True"
| "is_failure _ = False"

fun is_done :: "Event \<Rightarrow> bool" where
  "is_done (WorkflowCompleted d ts) = True"
| "is_done (CompletionSignaled i s) = True"
| "is_done _ = False"

lemma comp_names_event [simp]: "comp_names [event_json ev] = completes ev"
proof (cases ev)
  case (StepCompleted n t d ts it ot c sb out sc go sid)
  then show ?thesis by (cases sc) (simp_all add: comp_names_def top_completed_def del: event_json.simps)
qed (simp_all add: comp_names_def top_completed_def del: event_json.simps)

lemma any_failed_event [simp]: "any_failed [event_json ev] \<longleftrightarrow> is_failure ev"
  by (cases ev) (simp_all add: any_failed_def del: event_json.simps)

lemma any_done_event [simp]: "any_done [event_json ev] \<longleftrightarrow> is_done ev"
  by (cases ev) (simp_all add: any_done_def del: event_json.simps)

text \<open>What a step can change, and what it means for it to be the same or closed.\<close>

definition obs :: "World \<Rightarrow> string option list \<times> bool \<times> bool" where
  "obs v = (comp_names (wlog v), any_failed (wlog v), any_done (wlog v))"

definition stat :: "World \<Rightarrow> SessionStatus \<times> SessionStatus" where
  "stat v = (wdb v, wstatus v)"

definition closed :: "SessionStatus \<Rightarrow> SessionStatus \<times> SessionStatus \<Rightarrow> SessionStatus \<times> SessionStatus" where
  "closed st x = (if x = (Running, Running) then (st, st) else x)"

text \<open>An error of the machinery around a step: no verdict on the step, and no panic.\<close>

fun soft :: "EngineError \<Rightarrow> bool" where
  "soft (StepFailedErr i r) = False"
| "soft (Panic m) = False"
| "soft _ = True"

lemma closed_Running [simp]: "closed st (closed st' x) = closed st' x \<or> st' = Running"
  by (auto simp: closed_def)

lemma stat_closed_as: "wstatus v = Running \<Longrightarrow> stat (closed_as st v) = closed st (stat v)"
  by (auto simp: stat_def closed_def closed_as_def)

lemma obs_simps [simp]:
  "obs (v\<lparr>wlog := wlog v @ [event_json ev]\<rparr>) =
    (fst (obs v) @ completes ev, fst (snd (obs v)) \<or> is_failure ev, snd (snd (obs v)) \<or> is_done ev)"
  "obs (v\<lparr>wtrace := x\<rparr>) = obs v" "obs (v\<lparr>wdb := a\<rparr>) = obs v" "obs (v\<lparr>wstatus := a\<rparr>) = obs v"
  "obs (v\<lparr>wstarted := b\<rparr>) = obs v" "obs (v\<lparr>wspace := c\<rparr>) = obs v" "obs (v\<lparr>wprepared := d\<rparr>) = obs v"
  "obs (v\<lparr>wcontainer := e\<rparr>) = obs v" "obs (v\<lparr>wsync := f\<rparr>) = obs v" "obs (v\<lparr>wtick := t\<rparr>) = obs v"
  "obs (closed_as st v) = obs v"
  by (simp_all add: obs_def closed_as_def)

lemma stat_simps [simp]:
  "stat (v\<lparr>wlog := l\<rparr>) = stat v"
  "stat (v\<lparr>wtrace := x\<rparr>) = stat v"
  "stat (v\<lparr>wstarted := b\<rparr>) = stat v" "stat (v\<lparr>wspace := c\<rparr>) = stat v" "stat (v\<lparr>wprepared := d\<rparr>) = stat v"
  "stat (v\<lparr>wcontainer := e\<rparr>) = stat v" "stat (v\<lparr>wsync := f\<rparr>) = stat v" "stat (v\<lparr>wtick := t\<rparr>) = stat v"
  by (simp_all add: stat_def)

section \<open>Rules of the shared operations\<close>

declare event_json.simps [simp del]

text \<open>From here on an emitted event is seen through the observations.\<close>

declare wpv_emit [wpv_rules del] wpv_emit_now [wpv_rules del]

definition emitted :: "Event \<Rightarrow> string option list \<times> bool \<times> bool \<Rightarrow> string option list \<times> bool \<times> bool" where
  "emitted ev x = (fst x @ completes ev, fst (snd x) \<or> is_failure ev, snd (snd x) \<or> is_done ev)"

lemma emitted_quiet [simp]: "completes ev = [] \<Longrightarrow> \<not> is_failure ev \<Longrightarrow> \<not> is_done ev \<Longrightarrow> emitted ev x = x"
  by (simp add: emitted_def)

lemma emitted_simps [simp]:
  "fst (emitted ev x) = fst x @ completes ev"
  "fst (snd (emitted ev x)) = (fst (snd x) \<or> is_failure ev)"
  "snd (snd (emitted ev x)) = (snd (snd x) \<or> is_done ev)"
  by (simp_all add: emitted_def)

lemma wpv_emit_obs [wpv_rules]:
  assumes "\<And>v'. obs v' = emitted ev (obs v) \<Longrightarrow> stat v' = stat v \<Longrightarrow> Q () v'"
    and "\<And>e v'. soft e \<Longrightarrow> obs v' = obs v \<or> obs v' = emitted ev (obs v) \<Longrightarrow> R e v'"
  shows "wpv (emit E ev) Q R v"
  by (intro wpv_emit assms) (simp_all add: emitted_def)

lemma wpv_emit_now_obs [wpv_rules]:
  assumes "\<And>ts v'. obs v' = emitted (f ts) (obs v) \<Longrightarrow> stat v' = stat v \<Longrightarrow> Q () v'"
    and "\<And>ts e v'. soft e \<Longrightarrow> obs v' = obs v \<or> obs v' = emitted (f ts) (obs v) \<Longrightarrow> R e v'"
  shows "wpv (emit_now E f) Q R v"
  unfolding emit_now_def by (intro wpv_rules assms) assumption+

text \<open>
  A rule of the form: the operation leaves the observations as they are (or as stated) on success,
  and fails softly otherwise.
\<close>

lemma wpv_destroy [wpv_rules]:
  assumes "\<And>v'. obs v' = obs v \<Longrightarrow> stat v' = stat v \<Longrightarrow> Q () v'"
  shows "wpv (destroy_by_session E) Q R v"
  unfolding destroy_by_session_def by (intro wpv_rules assms) simp_all

lemma wpv_host_sh [wpv_rules]:
  assumes "\<And>a v'. obs v' = obs v \<Longrightarrow> stat v' = stat v \<Longrightarrow> Q a v'"
  shows "wpv (host_sh E script) Q R v"
  unfolding host_sh_def by (intro wpv_rules assms) simp_all

lemma wpv_sync [wpv_rules]:
  assumes "\<And>v'. obs v' = obs v \<Longrightarrow> stat v' = stat v \<Longrightarrow> Q () v'"
  shows "wpv (sync_container_workspace_back E) Q R v"
  unfolding sync_container_workspace_back_def by (intro wpv_rules assms) simp_all

lemma wpv_copy_project_in [wpv_rules]:
  assumes "\<And>a v'. obs v' = obs v \<Longrightarrow> stat v' = stat v \<Longrightarrow> Q a v'"
  shows "wpv (copy_project_in E ws) Q R v"
  unfolding copy_project_in_def by (intro wpv_rules assms) simp_all

lemma wpv_find_agent_user [wpv_rules]:
  assumes "\<And>a v'. obs v' = obs v \<Longrightarrow> stat v' = stat v \<Longrightarrow> Q a v'"
  shows "wpv (find_agent_user E u) Q R v"
  unfolding find_agent_user_def by (intro wpv_rules assms) simp_all

lemma wpv_ensure_container [wpv_rules]:
  assumes "\<And>a v'. obs v' = obs v \<Longrightarrow> stat v' = stat v \<Longrightarrow> Q a v'"
  shows "wpv (ensure_container_workspace E) Q R v"
  unfolding ensure_container_workspace_def by (intro wpv_rules assms) simp_all

lemma wpv_agent_exec_target [wpv_rules]:
  assumes "\<And>a v'. obs v' = obs v \<Longrightarrow> stat v' = stat v \<Longrightarrow> Q a v'"
  shows "wpv (agent_exec_target E env) Q R v"
  unfolding agent_exec_target_def by (intro wpv_rules assms) simp_all

lemma wpv_workflow_duration [wpv_rules]:
  assumes "\<And>a. Q a v"
  shows "wpv (workflow_duration E) Q R v"
  unfolding workflow_duration_def by (intro wpv_rules assms)

lemma wpv_prepare_workspace [wpv_rules]:
  assumes "\<And>v'. obs v' = obs v \<Longrightarrow> stat v' = stat v \<Longrightarrow> Q () v'"
    and "\<And>e v'. soft e \<Longrightarrow> obs v' = obs v \<Longrightarrow> R e v'"
  shows "wpv (prepare_workspace_if_configured E) Q R v"
  unfolding prepare_workspace_if_configured_def Let_def by (intro wpv_rules assms) simp_all

lemma wpv_finalize_workspace [wpv_rules]:
  assumes "\<And>v'. obs v' = obs v \<Longrightarrow> stat v' = stat v \<Longrightarrow> Q () v'"
    and "\<And>e v'. soft e \<Longrightarrow> obs v' = obs v \<Longrightarrow> R e v'"
  shows "wpv (finalize_workspace_success_if_configured E) Q R v"
  unfolding finalize_workspace_success_if_configured_def
  by (intro wpv_rules assms; (simp split: WorkspaceError.split, intro conjI impI allI wpv_rules assms)?) auto

lemma wpv_emit_failed [wpv_rules]:
  assumes "\<And>v'. obs v' = (fst (obs v), True, snd (snd (obs v))) \<Longrightarrow> stat v' = stat v \<Longrightarrow> Q () v'"
    and "\<And>e v'. soft e \<Longrightarrow> fst (obs v') = fst (obs v) \<Longrightarrow> R e v'"
  shows "wpv (emit_failed E s ty err d sb) Q R v"
  unfolding emit_failed_def by (intro wpv_rules assms) (auto simp: emitted_def)

lemma wpv_emit_failed_at [wpv_rules]:
  assumes "\<And>v'. obs v' = (fst (obs v), True, snd (snd (obs v))) \<Longrightarrow> stat v' = stat v \<Longrightarrow> Q () v'"
    and "\<And>e v'. soft e \<Longrightarrow> fst (obs v') = fst (obs v) \<Longrightarrow> R e v'"
  shows "wpv (emit_failed_at E s ty err start sb) Q R v"
  unfolding emit_failed_at_def by (intro wpv_rules assms) assumption+

lemma wpv_finalise_fail [wpv_rules]:
  assumes "\<And>v'. obs v' = obs v \<Longrightarrow> stat v' = closed Failed (stat v) \<Longrightarrow> Q () v'"
    and "\<And>e v'. soft e \<Longrightarrow> obs v' = obs v \<Longrightarrow> R e v'"
  shows "wpv (finalise_fail E) Q R v"
  unfolding finalise_fail_def
  by (intro wpv_rules assms) (auto simp: emitted_def closed_def stat_def closed_as_def)

lemma wpv_finalise_cancel [wpv_rules]:
  assumes "\<And>v'. obs v' = obs v \<Longrightarrow> stat v' = closed Cancelled (stat v) \<Longrightarrow> Q () v'"
    and "\<And>e v'. soft e \<Longrightarrow> obs v' = obs v \<Longrightarrow> R e v'"
  shows "wpv (finalise_cancel E) Q R v"
  unfolding finalise_cancel_def
  by (intro wpv_rules assms) (auto simp: emitted_def closed_def stat_def closed_as_def)

lemma wpv_finalise_success [wpv_rules]:
  assumes "\<And>v'. obs v' = (fst (obs v), fst (snd (obs v)), snd (snd (obs v)) \<or> wstatus v = Running) \<Longrightarrow>
      stat v' = closed Completed (stat v) \<Longrightarrow> Q () v'"
    and "\<And>e v'. soft e \<Longrightarrow> fst (obs v') = fst (obs v) \<Longrightarrow> fst (snd (obs v')) = fst (snd (obs v)) \<Longrightarrow> R e v'"
  shows "wpv (finalise_success E) Q R v"
  unfolding finalise_success_def
  by (intro wpv_rules assms) (auto simp: emitted_def closed_def stat_def closed_as_def)

section \<open>What a step may do\<close>

type_synonym observed = "string option list \<times> bool \<times> bool"
type_synonym status = "SessionStatus \<times> SessionStatus"

text \<open>A step that ended badly: nothing is completed, a failure is in the log, the session is closed.\<close>

definition stuck :: "SessionStatus \<Rightarrow> observed \<Rightarrow> status \<Rightarrow> observed \<Rightarrow> status \<Rightarrow> bool" where
  "stuck st x s y t \<longleftrightarrow> fst y = fst x \<and> fst (snd y) \<and> snd (snd y) = snd (snd x) \<and> t = closed st s"

text \<open>The verdict on a top-level step named \<open>n\<close>, from the observations before to those after.\<close>

fun step_post :: "string \<Rightarrow> observed \<Rightarrow> status \<Rightarrow> StepOutcome \<Rightarrow> observed \<Rightarrow> status \<Rightarrow> bool" where
  "step_post n x s (StepCompletedO m) y t \<longleftrightarrow> m = n \<and> y = (fst x @ [Some n], snd x) \<and> t = s"
| "step_post n x s (StepFailedO m err) y t \<longleftrightarrow> m = n \<and> stuck Failed x s y t"
| "step_post n x s CancelledO y t \<longleftrightarrow> stuck Cancelled x s y t"
| "step_post n x s WorkflowCompletedO y t \<longleftrightarrow>
    fst y = fst x \<and> fst (snd y) = fst (snd x) \<and> snd (snd y) \<and> t = closed Completed s"

text \<open>Where an interrupted step leaves the session.\<close>

fun reason_status :: "TerminationReason \<Rightarrow> SessionStatus" where
  "reason_status (ReasonSignal sg) = Cancelled"
| "reason_status _ = Failed"

fun err_post :: "string \<Rightarrow> observed \<Rightarrow> status \<Rightarrow> EngineError \<Rightarrow> observed \<Rightarrow> status \<Rightarrow> bool" where
  "err_post n x s (StepFailedErr i r) y t \<longleftrightarrow> stuck (reason_status r) x s y t"
| "err_post n x s (Panic m) y t \<longleftrightarrow> m = overflow_panic \<and> fst y = fst x"
| "err_post n x s _ y t \<longleftrightarrow> fst y = fst x \<or> y = (fst x @ [Some n], snd x)"

lemma err_post_soft: "soft e \<Longrightarrow> fst y = fst x \<or> y = (fst x @ [Some n], snd x) \<Longrightarrow> err_post n x s e y t"
  by (cases e) auto

text \<open>The rule an operation on a top-level step obeys.\<close>

definition runs :: "string \<Rightarrow> StepOutcome eng \<Rightarrow> bool" where
  "runs n m \<longleftrightarrow> (\<forall>v. wpv m (\<lambda>o' v'. step_post n (obs v) (stat v) o' (obs v') (stat v'))
     (\<lambda>e v'. err_post n (obs v) (stat v) e (obs v') (stat v')) v)"

lemma wpv_runs:
  assumes "runs n m"
    and "\<And>o' v'. step_post n (obs v) (stat v) o' (obs v') (stat v') \<Longrightarrow> Q o' v'"
    and "\<And>e v'. err_post n (obs v) (stat v) e (obs v') (stat v') \<Longrightarrow> R e v'"
  shows "wpv m Q R v"
  by (rule wpv_mono [OF assms(1) [unfolded runs_def, rule_format]]) (rule assms(2,3), assumption)+

fun cmd_post :: "observed \<Rightarrow> status \<Rightarrow> string option list \<Rightarrow> CmdOutcome \<Rightarrow> observed \<Rightarrow> status \<Rightarrow> bool" where
  "cmd_post x s ns (CmdSuccess snap) y t \<longleftrightarrow> y = (fst x @ ns, snd x) \<and> t = s"
| "cmd_post x s ns (CmdFailed e) y t \<longleftrightarrow> stuck Failed x s y t"
| "cmd_post x s ns CmdCancelled y t \<longleftrightarrow> stuck Cancelled x s y t"
| "cmd_post x s ns (CmdSignal sg) y t \<longleftrightarrow> stuck Cancelled x s y t"
| "cmd_post x s ns (CmdTimedOut ms) y t \<longleftrightarrow> stuck Failed x s y t"
| "cmd_post x s ns (CmdIdleTimedOut ms) y t \<longleftrightarrow> stuck Failed x s y t"

definition own_name :: "Step \<Rightarrow> ScopeContext option \<Rightarrow> string option list" where
  "own_name s ctx = (if ctx = None then [Some (s_name s)] else [])"

lemma completes_completed [simp]:
  "completes (StepCompleted (s_name s) t d ts it ot c sb out ctx go sid) = own_name s ctx"
  by (cases ctx) (simp_all add: own_name_def)

lemma own_name_simps [simp]: "own_name s None = [Some (s_name s)]" "own_name s (Some ctx) = []"
  by (simp_all add: own_name_def)

lemma wpv_verdict [wpv_rules]:
  "(x = VContinue \<Longrightarrow> wpv a Q R v) \<Longrightarrow> (x = VSkip \<Longrightarrow> wpv b Q R v) \<Longrightarrow> (x = VBreak \<Longrightarrow> wpv c Q R v) \<Longrightarrow>
    (\<And>m. x = VFail m \<Longrightarrow> wpv (f m) Q R v) \<Longrightarrow>
    wpv (case x of VContinue \<Rightarrow> a | VSkip \<Rightarrow> b | VBreak \<Rightarrow> c | VFail m \<Rightarrow> f m) Q R v"
  by (simp split: GateVerdict.split)

lemma wpv_cmd_exec_result [wpv_rules]:
  assumes "\<And>o' v'. cmd_post (obs v) (stat v) (own_name s ctx) o' (obs v') (stat v') \<Longrightarrow> Q o' v'"
    and "\<And>e v'. soft e \<Longrightarrow> fst (obs v') = fst (obs v) \<or> obs v' = (fst (obs v) @ own_name s ctx, snd (obs v)) \<Longrightarrow> R e v'"
  shows "wpv (cmd_exec_result E s i ctx d r) Q R v"
proof (cases r)
  case (Inl e)
  then show ?thesis
    by (cases e; simp only: cmd_exec_result_def sum.case SandboxError.case;
        intro wpv_rules assms; auto simp: stuck_def emitted_def)
next
  case (Inr out)
  then show ?thesis
    by (simp only: cmd_exec_result_def sum.case Let_def; intro wpv_rules assms; auto simp: stuck_def emitted_def)
qed

lemma wpv_execute_cmd [wpv_rules]:
  assumes "\<And>o' v'. cmd_post (obs v) (stat v) (own_name s ctx) o' (obs v') (stat v') \<Longrightarrow> Q o' v'"
    and "\<And>e v'. soft e \<Longrightarrow> fst (obs v') = fst (obs v) \<or> obs v' = (fst (obs v) @ own_name s ctx, snd (obs v)) \<Longrightarrow> R e v'"
  shows "wpv (execute_cmd_with_select E s env i ctx start) Q R v"
  unfolding execute_cmd_with_select_def Let_def
  by (intro wpv_rules assms) (auto simp: stuck_def emitted_def)

section \<open>The top-level steps\<close>

named_theorems runs_rules \<open>introduction rules of the verdict on a step\<close>

text \<open>A call before a step's own operation that does not count.\<close>

definition quiet :: "'a eng \<Rightarrow> bool" where
  "quiet m \<longleftrightarrow> (\<forall>v. wpv m (\<lambda>a v'. obs v' = obs v \<and> stat v' = stat v)
     (\<lambda>e v'. soft e \<and> fst (obs v') = fst (obs v)) v)"

lemma quietI:
  "(\<And>v. wpv m (\<lambda>a v'. obs v' = obs v \<and> stat v' = stat v)
     (\<lambda>e v'. soft e \<and> fst (obs v') = fst (obs v)) v) \<Longrightarrow> quiet m"
  by (simp add: quiet_def)

lemma wpv_quiet:
  assumes "quiet m"
    and "\<And>a v'. obs v' = obs v \<Longrightarrow> stat v' = stat v \<Longrightarrow> Q a v'"
    and "\<And>e v'. soft e \<Longrightarrow> fst (obs v') = fst (obs v) \<Longrightarrow> R e v'"
  shows "wpv m Q R v"
  by (rule wpv_mono [OF assms(1) [unfolded quiet_def, rule_format]]) (auto intro: assms(2,3))

lemma quiet_calls [runs_rules]:
  "quiet (ret a)" "quiet (ask f)" "quiet (now E)" "quiet (elapsed E start)" "quiet (is_cancelled E)"
  "quiet (race E timeout fx g)" "quiet (agent_exec_target E env)" "quiet (ensure_container_workspace E)"
  "quiet (prepare_workspace_if_configured E)" "quiet (get h)" "quiet (call fx f)"
  by (intro quietI wpv_rules; simp)+

lemma quiet_emit_now [runs_rules]:
  "(\<And>ts. completes (f ts) = [] \<and> \<not> is_failure (f ts) \<and> \<not> is_done (f ts)) \<Longrightarrow> quiet (emit_now E f)"
  by (intro quietI wpv_rules) auto

lemma quiet_emit [runs_rules]:
  "completes ev = [] \<Longrightarrow> \<not> is_failure ev \<Longrightarrow> \<not> is_done ev \<Longrightarrow> quiet (emit E ev)"
  by (intro quietI wpv_rules) auto

lemma quiet_from_log [runs_rules]:
  "(\<And>evs e. f evs = Inl e \<Longrightarrow> soft e) \<Longrightarrow> quiet (from_log E f)"
  by (intro quietI wpv_rules) auto

lemma quiet_lift [runs_rules]: "(\<And>e. r = Inl e \<Longrightarrow> soft e) \<Longrightarrow> quiet (lift_result r)"
  by (intro quietI wpv_rules) auto

lemma quiet_ebind [runs_rules]: "quiet m \<Longrightarrow> (\<And>a. quiet (f a)) \<Longrightarrow> quiet (ebind m f)"
  by (intro quietI wpv_ebind; erule wpv_quiet; (rule wpv_quiet, assumption)?) auto

lemma quiet_eseq [runs_rules]: "quiet m \<Longrightarrow> quiet k \<Longrightarrow> quiet (eseq m k)"
  by (simp add: eseq_def quiet_ebind)

lemmas step_post_simps = stuck_def emitted_def err_post_soft

lemma runsI:
  "(\<And>v. wpv m (\<lambda>o' v'. step_post n (obs v) (stat v) o' (obs v') (stat v'))
     (\<lambda>e v'. err_post n (obs v) (stat v) e (obs v') (stat v')) v) \<Longrightarrow> runs n m"
  by (simp add: runs_def)

lemma runs_ebind [runs_rules]: "quiet m \<Longrightarrow> (\<And>a. runs n (f a)) \<Longrightarrow> runs n (ebind m f)"
  by (intro runsI wpv_ebind; erule wpv_quiet; (rule wpv_runs, assumption)?) (auto simp: err_post_soft)

lemma runs_eseq [runs_rules]: "quiet m \<Longrightarrow> runs n k \<Longrightarrow> runs n (eseq m k)"
  by (simp add: eseq_def runs_ebind)

lemma runs_if [runs_rules]: "(b \<Longrightarrow> runs n m) \<Longrightarrow> (\<not> b \<Longrightarrow> runs n k) \<Longrightarrow> runs n (if b then m else k)"
  by simp

lemma runs_option [runs_rules]:
  "(x = None \<Longrightarrow> runs n m) \<Longrightarrow> (\<And>y. x = Some y \<Longrightarrow> runs n (f y)) \<Longrightarrow>
    runs n (case x of None \<Rightarrow> m | Some y \<Rightarrow> f y)"
  by (simp split: option.split)

lemma runs_sum [runs_rules]:
  "(\<And>e. x = Inl e \<Longrightarrow> runs n (f e)) \<Longrightarrow> (\<And>a. x = Inr a \<Longrightarrow> runs n (g a)) \<Longrightarrow>
    runs n (case x of Inl e \<Rightarrow> f e | Inr a \<Rightarrow> g a)"
  by (simp split: sum.split)

lemma runs_prod [runs_rules]:
  "(\<And>a b. x = (a, b) \<Longrightarrow> runs n (f a b)) \<Longrightarrow> runs n (case x of (a, b) \<Rightarrow> f a b)"
  by (simp split: prod.split)

lemma runs_verdict [runs_rules]:
  "(x = VContinue \<Longrightarrow> runs n a) \<Longrightarrow> (x = VSkip \<Longrightarrow> runs n b) \<Longrightarrow> (x = VBreak \<Longrightarrow> runs n c) \<Longrightarrow>
    (\<And>m. x = VFail m \<Longrightarrow> runs n (f m)) \<Longrightarrow>
    runs n (case x of VContinue \<Rightarrow> a | VSkip \<Rightarrow> b | VBreak \<Rightarrow> c | VFail m \<Rightarrow> f m)"
  by (simp split: GateVerdict.split)

text \<open>A quiet call whose answer is known to satisfy a predicate.\<close>

definition yields :: "('a \<Rightarrow> bool) \<Rightarrow> 'a eng \<Rightarrow> bool" where
  "yields P m \<longleftrightarrow> (\<forall>v. wpv m (\<lambda>a v'. P a \<and> obs v' = obs v \<and> stat v' = stat v)
     (\<lambda>e v'. soft e \<and> fst (obs v') = fst (obs v)) v)"

lemma runs_yields: "yields P m \<Longrightarrow> (\<And>a. P a \<Longrightarrow> runs n (f a)) \<Longrightarrow> runs n (ebind m f)"
  by (intro runsI wpv_ebind, rule wpv_mono [where m = m], simp only: yields_def, erule spec)
    (auto simp: err_post_soft intro!: wpv_runs)

definition selects :: "duration option \<Rightarrow> ('a \<Rightarrow> bool) \<Rightarrow> 'a StepSelection \<Rightarrow> bool" where
  "selects timeout P sel \<longleftrightarrow> (sel = SelTimedOut \<longrightarrow> timeout \<noteq> None) \<and> (\<forall>a. sel = Done a \<longrightarrow> P a)"

lemma yields_race: "(\<And>t. P (f t)) \<Longrightarrow> yields (selects timeout P) (race E timeout fx f)"
  unfolding yields_def by (intro allI wpv_rules) (auto simp: selects_def)

lemma yieldsD:
  "yields P m \<Longrightarrow> wpv m (\<lambda>a v'. P a \<and> obs v' = obs v \<and> stat v' = stat v)
     (\<lambda>e v'. soft e \<and> fst (obs v') = fst (obs v)) v"
  by (simp add: yields_def)

lemma yields_ebind:
  assumes "quiet m" "\<And>a. yields P (f a)"
  shows "yields P (ebind m f)"
  unfolding yields_def
proof (intro allI wpv_ebind wpv_quiet [OF assms(1)])
  fix v a v' assume "obs v' = obs v" "stat v' = stat v"
  then show "wpv (f a) (\<lambda>a v'. P a \<and> obs v' = obs v \<and> stat v' = stat v)
      (\<lambda>e v'. soft e \<and> fst (obs v') = fst (obs v)) v'"
    using yieldsD [OF assms(2), of a v'] by simp
qed simp

lemma runs_selection:
  "selects timeout P sel \<Longrightarrow> (\<And>a. P a \<Longrightarrow> runs n (f a)) \<Longrightarrow> runs n c \<Longrightarrow> (timeout \<noteq> None \<Longrightarrow> runs n m) \<Longrightarrow>
    (\<And>sg. runs n (g sg)) \<Longrightarrow>
    runs n (case sel of Done a \<Rightarrow> f a | SelCancelled \<Rightarrow> c | SelTimedOut \<Rightarrow> m | SelSignal sg \<Rightarrow> g sg)"
  by (cases sel) (auto simp: selects_def)

lemma runs_overflow [runs_rules]: "runs n (throw (Panic overflow_panic))"
  by (intro runsI wpv_throw) simp

text \<open>A step completes when its completion is emitted.\<close>

lemma runs_completed [runs_rules]:
  "(\<And>ts. completes (f ts) = [Some n] \<and> \<not> is_failure (f ts) \<and> \<not> is_done (f ts)) \<Longrightarrow>
    runs n (eseq (emit_now E f) (ret (StepCompletedO n)))"
  by (intro runsI wpv_rules) (auto simp: emitted_def err_post_soft prod_eq_iff)

lemma runs_fail_step: "runs (s_name s) (fail_step E s err start sb)"
  unfolding fail_step_def by (intro runsI wpv_rules) (auto simp: step_post_simps)

lemma runs_fail_step_after: "runs (s_name s) (fail_step_after E s err d)"
  unfolding fail_step_after_def by (intro runsI wpv_rules) (auto simp: step_post_simps)

lemma runs_cancel_step: "runs (s_name s) (cancel_step E s err d)"
  unfolding cancel_step_def by (intro runsI wpv_rules) (auto simp: step_post_simps)

lemma runs_signal_step: "runs (s_name s) (signal_step E s err d sg i)"
  unfolding signal_step_def by (intro runsI wpv_rules) (auto simp: step_post_simps)

lemma runs_time_out_step: "s_timeout s \<noteq> None \<Longrightarrow> runs (s_name s) (time_out_step E s err d i)"
  unfolding time_out_step_def Let_def by (intro runsI wpv_rules) (auto simp: step_post_simps)

lemma runs_complete_text: "runs (s_name s) (complete_text E s out start)"
  unfolding complete_text_def by (intro runsI wpv_rules) (auto simp: step_post_simps)

lemmas step_runs [runs_rules] =
  runs_fail_step runs_fail_step_after runs_cancel_step runs_signal_step runs_time_out_step
  runs_complete_text

lemma gate_guards_top:
  assumes "gate_guards parse_action s = Inr (on_pass, on_fail, condition)"
  shows "outcome_for passed on_pass on_fail msg \<noteq> VSkip" "outcome_for passed on_pass on_fail msg \<noteq> VBreak"
proof -
  have "parse_action (s_on_pass s) = Inr on_pass" "parse_action (s_on_fail s) = Inr on_fail"
    using assms by (auto simp: gate_guards_def res_bind_Ok_iff)
  from top_level_verdict [OF this, of passed msg]
  show "outcome_for passed on_pass on_fail msg \<noteq> VSkip" "outcome_for passed on_pass on_fail msg \<noteq> VBreak"
    by simp_all
qed

lemma runs_gate [runs_rules]: "runs (s_name s) (run_gate_step E s outs start)"
  unfolding run_gate_step_def by (intro runs_rules) (simp_all add: gate_guards_top)

lemma runs_template [runs_rules]: "runs (s_name s) (run_template_step E s outs start)"
  unfolding run_template_step_def Let_def by (intro runs_rules)

lemma runs_script [runs_rules]: "runs (s_name s) (run_script_step E s outs start)"
  unfolding run_script_step_def by (intro runs_rules)

lemma runs_agent_result:
  assumes "\<And>out. r = Inr out \<Longrightarrow> ao_completion_signaled out \<Longrightarrow> w_completion_signal (e_workflow E) \<noteq> None"
  shows "runs (s_name s) (agent_result E s d i r)"
proof -
  have "runs (s_name s) (eseq (emit E (CompletionSignaled i sg)) (eseq (finalise_success E) (ret WorkflowCompletedO)))" for sg
    by (intro runsI wpv_rules) (auto simp: emitted_def intro!: err_post_soft)
  moreover have "runs (s_name s) (eseq (emit_now E (\<lambda>ts. StepCompleted (s_name s) (step_type_label (s_kind s)) d ts
      it ot c False (Some x) None None y)) (ret (StepCompletedO (s_name s))))" for it ot c x y
    by (rule runs_completed) simp
  ultimately show ?thesis
    using assms unfolding agent_result_def
    by (auto simp: runs_fail_step_after split: sum.split option.split)
qed

lemma yields_race_agent:
  "yields (selects (s_timeout s) (\<lambda>r. \<forall>out. r = Inr out \<and> ao_completion_signaled out \<longrightarrow>
     w_completion_signal (e_workflow E) \<noteq> None)) (race_agent E s p st env)"
  unfolding race_agent_def
  by (intro yields_ebind runs_rules) (auto intro!: yields_race dest: agent_run_signaled split: prod.split)

lemma runs_agent [runs_rules]: "runs (s_name s) (run_agent_step E s P start i)"
proof -
  have "runs (s_name s) (ebind (elapsed E start) (\<lambda>d. case sel of
        Done r \<Rightarrow> agent_result E s d i r
      | SelCancelled \<Rightarrow> cancel_step E s ''Cancelled'' d
      | SelTimedOut \<Rightarrow> time_out_step E s (\<lambda>ms. ''step timed out after '' @ show_nat ms @ ''ms'') d i
      | SelSignal sg \<Rightarrow> signal_step E s (''Signal: '' @ sg) d sg i))"
    if "selects (s_timeout s) (\<lambda>r. \<forall>out. r = Inr out \<and> ao_completion_signaled out \<longrightarrow>
      w_completion_signal (e_workflow E) \<noteq> None) sel" for sel
    by (intro runs_ebind quiet_calls runs_selection [OF that] step_runs) (auto intro: runs_agent_result)
  then show ?thesis
    unfolding run_agent_step_def Let_def
    by (intro runs_sum runs_prod runs_fail_step runs_yields [OF yields_race_agent])
qed

lemma quiet_race_chat [runs_rules]: "quiet (race_chat E s req)"
  unfolding race_chat_def by (intro runs_rules)

lemma yields_race_chat: "yields (selects (s_timeout s) (\<lambda>r. True)) (race_chat E s req)"
  unfolding race_chat_def by (intro yields_race) simp

lemma wpv_chat_completed [wpv_rules]:
  assumes "\<And>v'. obs v' = (fst (obs v) @ own_name s ctx, snd (obs v)) \<Longrightarrow> stat v' = stat v \<Longrightarrow> Q () v'"
    and "\<And>e v'. soft e \<Longrightarrow> fst (obs v') = fst (obs v) \<or> obs v' = (fst (obs v) @ own_name s ctx, snd (obs v)) \<Longrightarrow> R e v'"
  shows "wpv (chat_completed E s d sb ctx out) Q R v"
  unfolding chat_completed_def by (intro wpv_rules assms) (auto simp: emitted_def)

lemma runs_chat_result [runs_rules]: "runs (s_name s) (chat_result E s d r)"
proof -
  have "runs (s_name s) (eseq (chat_completed E s d False None out) (ret (StepCompletedO (s_name s))))" for out
    by (intro runsI wpv_rules) (auto simp: step_post_simps)
  then show ?thesis unfolding chat_result_def by (intro runs_sum runs_fail_step_after)
qed

lemma runs_chat [runs_rules]: "runs (s_name s) (run_chat_step E s P start i)"
proof -
  have "runs (s_name s) (ebind (elapsed E start) (\<lambda>d. case sel of
        Done r \<Rightarrow> chat_result E s d r
      | SelCancelled \<Rightarrow> cancel_step E s c d
      | SelTimedOut \<Rightarrow> time_out_step E s f d i
      | SelSignal sg \<Rightarrow> signal_step E s (g sg) d sg i))"
    if "selects (s_timeout s) (\<lambda>r. True) sel" for sel c f g
    by (intro runs_ebind quiet_calls runs_selection [OF that] step_runs runs_chat_result)
  then show ?thesis
    unfolding run_chat_step_def Let_def
    by (intro runs_sum runs_prod runs_fail_step runs_eseq quiet_emit_now runs_yields [OF yields_race_chat]) auto
qed

end
