(* ===== verification/ScopeSpecs.thy ===== *)
theory ScopeSpecs
  imports EngineSpecs
begin

text \<open>
  The scope runner by the same four observations: the steps of a body never complete anything at
  the top level, an ending of a body leaves a failure and a closed session, and each container
  obeys the verdict of a top-level step.
\<close>

section \<open>Errors of the reads\<close>

lemma logged_output_soft: "logged_output m p = Inl e \<Longrightarrow> soft e"
  by (auto simp: logged_output_def split: option.splits)

lemma read_snapshot_soft: "read_snapshot m p = Inl e \<Longrightarrow> soft e"
  by (auto simp: read_snapshot_def split: option.splits json.splits)

lemma read_session_id_soft: "read_session_id p = Inl e \<Longrightarrow> soft e"
  by (auto simp: read_session_id_def split: option.splits json.splits)

lemma scan_event_soft: "scan_event p a = Inl e \<Longrightarrow> soft e"
  by (auto simp: scan_event_def scan_completed_def scan_chat_def Let_def res_bind_Err_iff
      split: option.splits if_splits dest: read_snapshot_soft read_session_id_soft)

lemma scan_events_soft: "scan_events ps a = Inl e \<Longrightarrow> soft e"
  by (induction ps arbitrary: a) (auto simp: res_bind_Err_iff dest: scan_event_soft)

lemma compute_progress_soft: "compute_progress ps = Inl e \<Longrightarrow> soft e"
  by (auto simp: compute_progress_def res_bind_Err_iff dest: scan_events_soft)

lemma rebuild_scan_soft: "rebuild_scan c n ps a = Inl e \<Longrightarrow> soft e"
  by (induction ps arbitrary: a)
    (auto simp: rebuild_event_def res_bind_Err_iff split: option.splits dest: logged_output_soft)

lemma walk_error: "walk_iterations brk seen skipped its k = Inl e \<Longrightarrow> e = Panic overflow_panic"
  by (induction its arbitrary: k) (auto split: option.splits if_splits)

lemma rebuild_error: "rebuild c n ps = Inl e \<Longrightarrow> soft e \<or> e = Panic overflow_panic"
  by (auto simp: rebuild_def settle_def res_bind_Err_iff dest: rebuild_scan_soft walk_error)

lemma in_iteration_scan_soft: "in_iteration_scan c i b ps outs = Inl e \<Longrightarrow> soft e"
  by (induction ps arbitrary: outs)
    (auto simp: res_bind_Err_iff split: option.splits if_splits prod.splits dest: logged_output_soft)

lemma in_iteration_soft: "in_iteration_outputs c i b ps = Inl e \<Longrightarrow> soft e"
  unfolding in_iteration_outputs_def by (rule in_iteration_scan_soft)

lemma top_level_scan_soft: "top_level_scan ps outs = Inl e \<Longrightarrow> soft e"
  by (induction ps arbitrary: outs)
    (auto simp: res_bind_Err_iff split: option.splits if_splits dest: logged_output_soft)

lemma top_level_soft: "top_level_outputs ps = Inl e \<Longrightarrow> soft e"
  unfolding top_level_outputs_def by (rule top_level_scan_soft)

lemma recover_soft: "recover_logged_output c i p ps = Inl e \<Longrightarrow> soft e"
  by (induction ps) (auto simp: res_bind_Err_iff split: option.splits if_splits dest: logged_output_soft)

lemma position_soft: "top_level_position_of E n = Inl e \<Longrightarrow> soft e"
  by (auto simp: top_level_position_of_def ok_or_def split: option.splits)

lemma quiet_reads [runs_rules]:
  "quiet (progress_from_log E)"
  "quiet (from_log E (in_iteration_outputs c i b))"
  "quiet (from_log E (recover_logged_output c i p))"
  "quiet (from_log E top_level_outputs)"
  "quiet (from_log E (\<lambda>evs. Inr (g evs)))"
  "quiet (lift_result (top_level_position_of E m))"
  unfolding progress_from_log_def
  by (auto intro!: quiet_from_log quiet_lift dest: compute_progress_soft in_iteration_soft
      recover_soft top_level_soft position_soft)

section \<open>Steps and iterations of a body\<close>

text \<open>A call that obeys a relation between its answer and the observations, and fails softly.\<close>

definition obeys :: "(observed \<Rightarrow> status \<Rightarrow> 'a \<Rightarrow> observed \<Rightarrow> status \<Rightarrow> bool) \<Rightarrow> 'a eng \<Rightarrow> bool" where
  "obeys P m \<longleftrightarrow> (\<forall>v. wpv m (\<lambda>a v'. P (obs v) (stat v) a (obs v') (stat v'))
     (\<lambda>e v'. soft e \<and> fst (obs v') = fst (obs v)) v)"

fun body_post :: "observed \<Rightarrow> status \<Rightarrow> BodyStep \<Rightarrow> observed \<Rightarrow> status \<Rightarrow> bool" where
  "body_post x s (BodyContinue out) y t \<longleftrightarrow> y = x \<and> t = s"
| "body_post x s BodySkip y t \<longleftrightarrow> y = x \<and> t = s"
| "body_post x s BodyBreak y t \<longleftrightarrow> y = x \<and> t = s"
| "body_post x s BodyCancelled y t \<longleftrightarrow> stuck Cancelled x s y t"
| "body_post x s (BodySignal sg) y t \<longleftrightarrow> stuck Cancelled x s y t"
| "body_post x s _ y t \<longleftrightarrow> stuck Failed x s y t"

fun iter_post :: "observed \<Rightarrow> status \<Rightarrow> IterationOutcome \<Rightarrow> observed \<Rightarrow> status \<Rightarrow> bool" where
  "iter_post x s (IterCompleted out) y t \<longleftrightarrow> y = x \<and> t = s"
| "iter_post x s (IterBreak out) y t \<longleftrightarrow> y = x \<and> t = s"
| "iter_post x s IterCancelled y t \<longleftrightarrow> stuck Cancelled x s y t"
| "iter_post x s (IterSignal sg) y t \<longleftrightarrow> stuck Cancelled x s y t"
| "iter_post x s _ y t \<longleftrightarrow> stuck Failed x s y t"

named_theorems obeys_rules \<open>introduction rules of a relation between an answer and the observations\<close>

lemma obeysI:
  "(\<And>v. wpv m (\<lambda>a v'. P (obs v) (stat v) a (obs v') (stat v'))
     (\<lambda>e v'. soft e \<and> fst (obs v') = fst (obs v)) v) \<Longrightarrow> obeys P m"
  by (simp add: obeys_def)

lemma wpv_obeys:
  assumes "obeys P m"
    and "\<And>a v'. P (obs v) (stat v) a (obs v') (stat v') \<Longrightarrow> Q a v'"
    and "\<And>e v'. soft e \<Longrightarrow> fst (obs v') = fst (obs v) \<Longrightarrow> R e v'"
  shows "wpv m Q R v"
  by (rule wpv_mono [OF assms(1) [unfolded obeys_def, rule_format]]) (auto intro: assms(2,3))

lemma obeys_ebind [obeys_rules]:
  assumes "quiet m" "\<And>a. obeys P (f a)"
  shows "obeys P (ebind m f)"
proof (intro obeysI wpv_ebind wpv_quiet [OF assms(1)])
  fix v a v' assume "obs v' = obs v" "stat v' = stat v"
  then show "wpv (f a) (\<lambda>a v'. P (obs v) (stat v) a (obs v') (stat v'))
      (\<lambda>e v'. soft e \<and> fst (obs v') = fst (obs v)) v'"
    by (intro wpv_obeys [OF assms(2)]) auto
qed simp

lemma obeys_eseq [obeys_rules]: "quiet m \<Longrightarrow> obeys P k \<Longrightarrow> obeys P (eseq m k)"
  by (simp add: eseq_def obeys_ebind)

lemma obeys_yields:
  assumes "yields S m" "\<And>a. S a \<Longrightarrow> obeys P (f a)"
  shows "obeys P (ebind m f)"
proof (intro obeysI wpv_ebind, rule wpv_mono [OF yieldsD [OF assms(1)]])
  fix v a v' assume "S a \<and> obs v' = obs v \<and> stat v' = stat v"
  then show "wpv (f a) (\<lambda>a v'. P (obs v) (stat v) a (obs v') (stat v'))
      (\<lambda>e v'. soft e \<and> fst (obs v') = fst (obs v)) v'"
    by (intro wpv_obeys [OF assms(2)]) auto
qed simp

lemma obeys_if [obeys_rules]: "(b \<Longrightarrow> obeys P m) \<Longrightarrow> (\<not> b \<Longrightarrow> obeys P k) \<Longrightarrow> obeys P (if b then m else k)"
  by simp

lemma obeys_option [obeys_rules]:
  "(x = None \<Longrightarrow> obeys P m) \<Longrightarrow> (\<And>y. x = Some y \<Longrightarrow> obeys P (f y)) \<Longrightarrow>
    obeys P (case x of None \<Rightarrow> m | Some y \<Rightarrow> f y)"
  by (simp split: option.split)

lemma obeys_sum [obeys_rules]:
  "(\<And>e. x = Inl e \<Longrightarrow> obeys P (f e)) \<Longrightarrow> (\<And>a. x = Inr a \<Longrightarrow> obeys P (g a)) \<Longrightarrow>
    obeys P (case x of Inl e \<Rightarrow> f e | Inr a \<Rightarrow> g a)"
  by (simp split: sum.split)

lemma obeys_prod [obeys_rules]:
  "(\<And>a b. x = (a, b) \<Longrightarrow> obeys P (f a b)) \<Longrightarrow> obeys P (case x of (a, b) \<Rightarrow> f a b)"
  by (simp split: prod.split)

lemma obeys_verdict [obeys_rules]:
  "obeys P a \<Longrightarrow> obeys P b \<Longrightarrow> obeys P c \<Longrightarrow> (\<And>m. obeys P (f m)) \<Longrightarrow>
    obeys P (case x of VContinue \<Rightarrow> a | VSkip \<Rightarrow> b | VBreak \<Rightarrow> c | VFail m \<Rightarrow> f m)"
  by (simp split: GateVerdict.split)

lemma obeys_selection:
  "selects timeout S sel \<Longrightarrow> (\<And>a. S a \<Longrightarrow> obeys P (f a)) \<Longrightarrow> obeys P c \<Longrightarrow>
    (timeout \<noteq> None \<Longrightarrow> obeys P m) \<Longrightarrow> (\<And>sg. obeys P (g sg)) \<Longrightarrow>
    obeys P (case sel of Done a \<Rightarrow> f a | SelCancelled \<Rightarrow> c | SelTimedOut \<Rightarrow> m | SelSignal sg \<Rightarrow> g sg)"
  by (cases sel) (auto simp: selects_def)

lemma quiet_body_context [runs_rules]: "quiet (body_context E ctx val)"
  unfolding body_context_def by (intro runs_rules)

lemma quiet_scope_prompt [runs_rules]: "quiet (render_scope_prompt E s ctx val)"
  unfolding render_scope_prompt_def by (auto intro!: runs_rules split: option.split)

lemma quiet_scope_started [runs_rules]: "quiet (emit_scope_started E s ctx)"
  unfolding emit_scope_started_def by (intro runs_rules) simp

lemma obeys_body_endings [obeys_rules]:
  "obeys body_post (emit_scope_gate_failure E s start err)"
  "obeys body_post (emit_scope_body_failure E s start err)"
  "obeys body_post (body_failed_now E s err)"
  "obeys body_post (body_signal E s err sg d)"
  "obeys body_post (body_cancelled E s err d)"
  unfolding emit_scope_gate_failure_def emit_scope_body_failure_def body_failed_now_def body_signal_def
    body_cancelled_def
  by (intro obeysI wpv_rules; auto simp: stuck_def)+

lemma obeys_body_timed_out:
  "s_timeout s \<noteq> None \<Longrightarrow> obeys body_post (body_timed_out E s ctx err d)"
  unfolding body_timed_out_def
  by (intro obeysI wpv_rules; auto simp: stuck_def dest: position_soft)

lemma body_of_cmd_post: "cmd_post x s [] o' y t \<Longrightarrow> body_post x s (body_of_cmd o') y t"
  by (cases o') auto

lemma obeys_body_cmd [obeys_rules]: "obeys body_post (run_scope_body_cmd E s ctx val)"
proof -
  have exec: "obeys body_post (ebind (execute_cmd_with_select E s' env i (Some c) start) (\<lambda>o'. ret (body_of_cmd o')))"
    for s' env i c start
    by (intro obeysI wpv_rules body_of_cmd_post) auto
  show ?thesis
    unfolding run_scope_body_cmd_def by (intro exec quiet_reads obeys_rules runs_rules)
qed

lemma obeys_body_agent_result [obeys_rules]: "obeys body_post (body_agent_result E s ctx start d r)"
proof -
  have "obeys body_post (eseq (emit_now E (\<lambda>ts. StepCompleted (s_name s) (step_type_label (s_kind s)) d ts
      it ot c False (Some x) (Some ctx) None y)) (ret (BodyContinue (Some x))))" for it ot c x y
    by (intro obeysI wpv_rules) auto
  then show ?thesis unfolding body_agent_result_def Let_def by (intro obeys_sum obeys_body_endings)
qed

lemma obeys_body_agent [obeys_rules]: "obeys body_post (run_scope_body_agent E s ctx val)"
proof -
  have race: "obeys body_post (ebind (race E (s_timeout s) fx f) (\<lambda>selection. ebind (elapsed E start) (\<lambda>d.
      case selection of
        Done r \<Rightarrow> body_agent_result E s ctx start d r
      | SelCancelled \<Rightarrow> body_cancelled E s ''Cancelled'' d
      | SelTimedOut \<Rightarrow> body_timed_out E s ctx (\<lambda>ms. ''step timed out after '' @ show_nat ms @ ''ms'') d
      | SelSignal sg \<Rightarrow> body_signal E s (''Signal: '' @ sg) sg d)))" for fx f start
    by (rule obeys_yields [OF yields_race [where P = "\<lambda>r. True"]], rule TrueI,
        intro obeys_ebind quiet_calls, erule obeys_selection)
      (intro obeys_rules obeys_body_timed_out, assumption?)+
  show ?thesis
    unfolding run_scope_body_agent_def by (intro race quiet_reads obeys_rules runs_rules)
qed

lemma obeys_body_chat_result [obeys_rules]: "obeys body_post (body_chat_result E s ctx start d r)"
proof -
  have "obeys body_post (eseq (chat_completed E s d False (Some ctx) out) (ret (BodyContinue (Some x))))" for out x
    by (intro obeysI wpv_rules) auto
  then show ?thesis unfolding body_chat_result_def by (intro obeys_sum obeys_body_endings)
qed

lemma obeys_body_chat [obeys_rules]: "obeys body_post (run_scope_body_chat E s ctx val)"
proof -
  have race: "obeys body_post (ebind (race_chat E s req) (\<lambda>selection. ebind (elapsed E start) (\<lambda>d.
      case selection of
        Done r \<Rightarrow> body_chat_result E s ctx start d r
      | SelCancelled \<Rightarrow> body_cancelled E s c d
      | SelTimedOut \<Rightarrow> body_timed_out E s ctx f d
      | SelSignal sg \<Rightarrow> body_signal E s (g sg) sg d)))" for req c f g start
    by (rule obeys_yields [OF yields_race_chat], intro obeys_ebind quiet_calls, erule obeys_selection)
      (intro obeys_rules obeys_body_timed_out, assumption?)+
  show ?thesis
    unfolding run_scope_body_chat_def by (intro race quiet_reads obeys_rules runs_rules) simp
qed

lemma obeys_body_gate [obeys_rules]: "obeys body_post (run_scope_body_gate E s ctx val)"
proof -
  have ends: "obeys body_post (eseq (gate_completed E s ctx d go) (ret b))"
    if "b = BodyContinue None \<or> b = BodySkip \<or> b = BodyBreak" for d go b
    using that unfolding gate_completed_def by (intro obeysI wpv_rules) auto
  have failed: "obeys body_post (eseq (emit_failed E s ty err d False) (eseq (finalise_fail E) (ret (BodyFailed err))))"
    for ty err d
    by (intro obeysI wpv_rules) (auto simp: stuck_def)
  show ?thesis
    unfolding run_scope_body_gate_def Let_def
    by (intro ends failed quiet_reads obeys_rules runs_rules) simp_all
qed

lemma obeys_body_other [obeys_rules]: "obeys body_post (run_scope_body_other E s ctx)"
  unfolding run_scope_body_other_def emit_scope_started_def Let_def
  by (intro obeysI wpv_rules) (auto simp: stuck_def)

lemma obeys_body_step [obeys_rules]: "obeys body_post (run_scope_body_step E s ctx val)"
  unfolding run_scope_body_step_def by (cases "s_kind s") (auto intro: obeys_rules)

lemma obeys_iter_endings [obeys_rules]:
  "obeys iter_post (ret (IterCompleted out))"
  "obeys iter_post (eseq (emit_failed E s ty err d sb) (eseq (finalise_cancel E) (ret IterCancelled)))"
  "obeys iter_post (nested_container E ctr s)"
  unfolding nested_container_def Let_def by (intro obeysI wpv_rules; auto simp: stuck_def)+

text \<open>A body step, then what the loop does with its outcome.\<close>

lemma obeys_after_body:
  assumes "obeys body_post m" "\<And>out. obeys iter_post (k out)"
  shows "obeys iter_post (ebind m (\<lambda>b. case b of
      BodyContinue out \<Rightarrow> k out
    | BodySkip \<Rightarrow> ret (IterCompleted lo)
    | BodyBreak \<Rightarrow> ret (IterBreak lo)
    | BodyFailed e \<Rightarrow> ret (IterFailed e)
    | BodyCancelled \<Rightarrow> ret IterCancelled
    | BodySignal sg \<Rightarrow> ret (IterSignal sg)
    | BodyTimedOut ms \<Rightarrow> ret (IterTimedOut ms)
    | BodyIdleTimedOut ms \<Rightarrow> ret (IterIdleTimedOut ms)))"
proof (intro obeysI wpv_ebind wpv_obeys [OF assms(1)])
  fix v b v' assume "body_post (obs v) (stat v) b (obs v') (stat v')"
  then show "wpv (case b of
      BodyContinue out \<Rightarrow> k out
    | BodySkip \<Rightarrow> ret (IterCompleted lo)
    | BodyBreak \<Rightarrow> ret (IterBreak lo)
    | BodyFailed e \<Rightarrow> ret (IterFailed e)
    | BodyCancelled \<Rightarrow> ret IterCancelled
    | BodySignal sg \<Rightarrow> ret (IterSignal sg)
    | BodyTimedOut ms \<Rightarrow> ret (IterTimedOut ms)
    | BodyIdleTimedOut ms \<Rightarrow> ret (IterIdleTimedOut ms))
    (\<lambda>a v'. iter_post (obs v) (stat v) a (obs v') (stat v'))
    (\<lambda>e v'. soft e \<and> fst (obs v') = fst (obs v)) v'"
    using wpv_obeys [OF assms(2)] by (cases b) (auto intro!: wpv_ret intro: wpv_obeys [OF assms(2)])
qed simp

lemma obeys_scope_body_loop:
  "obeys iter_post (scope_body_loop ss E ctr it val fr idx lo)"
proof (induction ss arbitrary: idx lo)
  case (Cons s ss)
  show ?case
    by (simp only: scope_body_loop.simps)
      (intro obeys_after_body obeys_iter_endings(2) Cons.IH quiet_reads obeys_rules runs_rules)
qed (simp add: obeys_rules)

lemma obeys_scope_body [obeys_rules]: "obeys iter_post (run_scope_body E ctr body it val ld)"
  unfolding run_scope_body_def by (rule obeys_scope_body_loop)

section \<open>call, repeat and map\<close>

lemma closed_twice [simp]: "closed st (closed st x) = closed st x"
  by (auto simp: closed_def)

lemma runs_container_endings [runs_rules]:
  "runs (s_name s) (emit_container_failure E s start err)"
  "runs (s_name s) (emit_container_cancel E s start)"
  "runs (s_name s) (eseq (emit_container_signal E s start sg) (throw (StepFailedErr i (ReasonSignal (signal_from sg)))))"
  "runs (s_name s) (eseq (emit_container_timeout E s start m ms) (throw (StepFailedErr i (StepTimeout ms))))"
  unfolding emit_container_failure_def emit_container_cancel_def emit_container_signal_def
    emit_container_timeout_def
  by (intro runsI wpv_rules; auto simp: stuck_def intro!: err_post_soft dest: position_soft)+

lemma quiet_synthesise [runs_rules]: "quiet (synthesise_container_output E s so lo it)"
  unfolding synthesise_container_output_def Let_def
  by (intro quietI wpv_rules) (auto split: sum.split intro!: wpv_ret)

lemma runs_container_success [runs_rules]: "runs (s_name s) (emit_container_success E s start x)"
  unfolding emit_container_success_def by (intro runs_ebind quiet_calls runs_completed) simp

lemma runs_container_done [runs_rules]: "runs (s_name s) (container_done E s start sc lo it)"
  unfolding container_done_def by (intro runs_rules)

text \<open>An iteration that ended badly has said so already; the container repeats it under its own name.\<close>

lemma iteration_ended_stuck:
  assumes "iter_post x s0 o' (obs v) (stat v)" "\<And>out. o' \<noteq> IterCompleted out" "\<And>out. o' \<noteq> IterBreak out"
  shows "wpv (iteration_ended E s start index o')
    (\<lambda>o'' v'. step_post (s_name s) x s0 o'' (obs v') (stat v'))
    (\<lambda>e v'. err_post (s_name s) x s0 e (obs v') (stat v')) v"
  using assms
  unfolding iteration_ended_def emit_container_failure_def
  by (cases o'; simp only: IterationOutcome.case; intro wpv_rules)
    (auto simp: stuck_def intro!: err_post_soft)

lemma runs_at:
  assumes "runs n m" "obs v = x" "stat v = s"
  shows "wpv m (\<lambda>o' v'. step_post n x s o' (obs v') (stat v')) (\<lambda>e v'. err_post n x s e (obs v') (stat v')) v"
  using assms by (auto simp: runs_def)

text \<open>The replay of a container completes nothing, whether it fails softly or by its overflow.\<close>

lemma runs_rebuild:
  assumes "\<And>st. runs n (f st)"
  shows "runs n (ebind (from_log E (rebuild c len)) f)"
  by (intro runsI wpv_ebind wpv_from_log runs_at [OF assms]) (auto intro: err_post_soft dest: rebuild_error)

lemma runs_iteration:
  assumes m: "obeys iter_post m" and "\<And>out. runs (s_name s) (k out)" "\<And>out. runs (s_name s) (b out)"
  shows "runs (s_name s) (ebind m (\<lambda>o'. case o' of
      IterCompleted out \<Rightarrow> k out
    | IterBreak out \<Rightarrow> b out
    | _ \<Rightarrow> iteration_ended E s start index o'))"
proof (intro runsI wpv_ebind wpv_obeys [OF m])
  fix v o' v' assume post: "iter_post (obs v) (stat v) o' (obs v') (stat v')"
  then show "wpv (case o' of
      IterCompleted out \<Rightarrow> k out
    | IterBreak out \<Rightarrow> b out
    | _ \<Rightarrow> iteration_ended E s start index o')
    (\<lambda>o'' v'. step_post (s_name s) (obs v) (stat v) o'' (obs v') (stat v'))
    (\<lambda>e v'. err_post (s_name s) (obs v) (stat v) e (obs v') (stat v')) v'"
    using assms(2,3) iteration_ended_stuck [OF post]
    by (cases o') (auto intro: runs_at)
qed (auto intro: err_post_soft)

lemma runs_call [runs_rules]: "runs (s_name s) (run_call E s start)"
  unfolding run_call_def by (intro runs_rebuild runs_iteration obeys_scope_body quiet_reads runs_rules)

lemma runs_repeat_loop [runs_rules]: "runs (s_name s) (repeat_loop E s start index sc max_iter st final)"
proof (induction E s start index sc max_iter st final rule: repeat_loop.induct)
  case (1 E s start index sc max_iter st final)
  show ?case
    by (subst repeat_loop.simps)
      (intro runs_if runs_iteration runs_ebind quiet_calls runs_container_endings runs_container_done
        runs_overflow obeys_scope_body 1; (assumption | rule refl)?)
qed

lemma runs_repeat [runs_rules]: "runs (s_name s) (run_repeat E s start)"
  unfolding run_repeat_def by (intro runs_rebuild quiet_reads runs_rules)

lemma runs_map_done [runs_rules]: "runs (s_name s) (map_done E s start n st)"
  unfolding map_done_def by (intro runs_rules)

lemma runs_map_loop [runs_rules]: "runs (s_name s) (map_loop E s start index sc items st)"
proof (induction E s start index sc items st rule: map_loop.induct)
  case (1 E s start index sc items st)
  show ?case
    by (subst map_loop.simps, simp only: Let_def)
      (intro runs_if runs_iteration runs_ebind quiet_calls runs_container_endings runs_map_done
        runs_overflow obeys_scope_body 1; (assumption | rule refl)?)
qed

lemma runs_map [runs_rules]: "runs (s_name s) (run_map E s start)"
  unfolding run_map_def Let_def by (intro runs_rebuild quiet_reads runs_rules)

section \<open>parallel\<close>

fun failing :: "ParallelTaskOutput \<Rightarrow> bool" where
  "failing (OutCmd out) = (xo_exit out \<noteq> 0)"
| "failing _ = False"

abbreviation comp_failing :: "completion \<Rightarrow> bool" where
  "comp_failing c \<equiv> failing (snd (snd (snd c)))"

lemma task_terminal_ends: "task_terminal n r = Some d \<Longrightarrow> d \<noteq> DrainCompleted"
  by (auto elim!: task_terminal.elims split: if_splits)

lemma drain_completed:
  "drain_tasks c sg evs tasks comps = (DrainCompleted, comps', left) \<Longrightarrow>
    \<not> list_ex comp_failing comps \<Longrightarrow> left = [] \<and> \<not> list_ex comp_failing comps'"
proof (induction c sg evs tasks comps rule: drain_tasks.induct)
  case (1 c sg evs tasks comps)
  show ?case
  proof (cases "tasks = []")
    case True
    with "1.prems" show ?thesis by (simp add: drain_tasks.simps)
  next
    case False
    then obtain i where i: "next_join c evs = JoinTask i"
        and none: "task_terminal (fst (snd (fst (take_task i tasks)))) (snd (snd (snd (fst (take_task i tasks))))) = None"
        and rest: "drain_tasks c sg (tl evs) (snd (take_task i tasks))
          (comps @ completion_of (fst (take_task i tasks))) = (DrainCompleted, comps', left)"
      using "1.prems"(1)
      by (auto simp: drain_tasks.simps [of c sg evs tasks comps] Let_def
          split: JoinEvent.splits option.splits dest: task_terminal_ends)
    obtain pos n k r where j: "fst (take_task i tasks) = (pos, n, k, r)" by (metis prod_cases4)
    with none have "\<not> list_ex comp_failing (completion_of (fst (take_task i tasks)))"
      by (auto elim!: task_terminal.elims completion_of.elims split: if_splits)
    then show ?thesis
      using "1.IH" [OF False i refl refl refl none rest] "1.prems"(2) by simp
  qed
qed

lemma drain_all_completed:
  "drain_all c sg evs late tasks = (DrainCompleted, comps) \<Longrightarrow> \<not> list_ex comp_failing comps"
  by (force simp: drain_all_def late_completions_def list_ex_iff split: prod.splits dest!: drain_completed)

text \<open>The scoped events of the completions: only a failing command leaves a failure.\<close>

lemma wpv_emit_output [wpv_rules]:
  assumes "\<And>r v'. obs v' = (fst (obs v), fst (snd (obs v)) \<or> failing out, snd (snd (obs v))) \<Longrightarrow> stat v' = stat v \<Longrightarrow> Q r v'"
    and "\<And>e v'. soft e \<Longrightarrow> fst (obs v') = fst (obs v) \<Longrightarrow> R e v'"
  shows "wpv (emit_output E n ctx out) Q R v"
  by (cases out; simp only: emit_output.simps Let_def emit_task_completed_def; intro wpv_rules assms;
      auto simp: emitted_def)

lemma wpv_emit_completion [wpv_rules]:
  assumes "\<And>r v'. obs v' = (fst (obs v), fst (snd (obs v)) \<or> comp_failing c, snd (snd (obs v))) \<Longrightarrow> stat v' = stat v \<Longrightarrow> Q r v'"
    and "\<And>e v'. soft e \<Longrightarrow> fst (obs v') = fst (obs v) \<Longrightarrow> R e v'"
  shows "wpv (emit_completion E cname c) Q R v"
  unfolding emit_completion_def Let_def by (intro wpv_rules assms) auto

lemma wpv_emit_completions:
  assumes "\<And>r v'. obs v' = (fst (obs v), fst (snd (obs v)) \<or> list_ex comp_failing cs, snd (snd (obs v))) \<Longrightarrow> stat v' = stat v \<Longrightarrow> Q r v'"
    and "\<And>e v'. soft e \<Longrightarrow> fst (obs v') = fst (obs v) \<Longrightarrow> R e v'"
  shows "wpv (emit_completions cs E cname snaps) Q R v"
  using assms
proof (induction cs arbitrary: snaps v)
  case (Cons c cs)
  show ?case
    unfolding emit_completions.simps
    by (intro wpv_ebind wpv_emit_completion Cons.IH Cons.prems) auto
qed (auto intro: wpv_ret)

lemma quiet_task_call [runs_rules]: "quiet (task_call E timeout fx f)"
  unfolding task_call_def by (intro runs_rules)

lemma quiet_run_task [runs_rules]: "quiet (run_task E t)"
  by (cases t) (auto simp: Let_def intro!: runs_rules split: prod.split)

lemma quiet_spawn_tasks [runs_rules]: "quiet (spawn_tasks ts E)"
  by (induction ts) (auto intro!: runs_rules)

lemma quiet_parallel_output [runs_rules]: "quiet (parallel_output E cname p snaps)"
  unfolding parallel_output_def by (auto intro: runs_rules split: option.split)

lemma runs_parallel_ended [runs_rules]: "runs (s_name s) (parallel_ended E s start index sc d snaps)"
  unfolding parallel_ended_def by (cases d) (auto intro!: runs_rules)

text \<open>A drain that did not complete ends the container; a drain that did left no failure.\<close>

lemma parallel_ended_stuck:
  assumes "d \<noteq> DrainCompleted" "obs v = (fst x, f, snd (snd x))" "stat v = s0"
  shows "wpv (parallel_ended E s start index sc d snaps)
    (\<lambda>o' v'. step_post (s_name s) x s0 o' (obs v') (stat v'))
    (\<lambda>e v'. err_post (s_name s) x s0 e (obs v') (stat v')) v"
  using assms
  unfolding parallel_ended_def emit_container_failure_def emit_container_cancel_def
    emit_container_signal_def emit_container_timeout_def
  by (cases d; simp only: ParallelDrain.case; intro wpv_rules)
    (auto simp: stuck_def intro!: err_post_soft dest: position_soft)

lemma runs_parallel_run [runs_rules]: "runs (s_name s) (parallel_run E s start index sc tasks)"
proof -
  have emits: "runs (s_name s) (ebind (emit_completions comps E (s_name s) []) (\<lambda>snaps. parallel_ended E s start index sc d snaps))"
    if drain: "drain_all c sg evs late joined = (d, comps)" for c sg evs late joined d comps
  proof (intro runsI wpv_ebind wpv_emit_completions)
    fix v snaps v'
    assume o: "obs v' = (fst (obs v), fst (snd (obs v)) \<or> list_ex comp_failing comps, snd (snd (obs v)))"
      and s: "stat v' = stat v"
    show "wpv (parallel_ended E s start index sc d snaps)
      (\<lambda>o' v'. step_post (s_name s) (obs v) (stat v) o' (obs v') (stat v'))
      (\<lambda>e v'. err_post (s_name s) (obs v) (stat v) e (obs v') (stat v')) v'"
    proof (cases "d = DrainCompleted")
      case True
      then have "\<not> list_ex comp_failing comps" using drain drain_all_completed by blast
      with o s show ?thesis by (intro runs_at runs_parallel_ended) auto
    next
      case False
      then show ?thesis using o s by (intro parallel_ended_stuck)
    qed
  qed (auto intro: err_post_soft)
  show ?thesis
    unfolding parallel_run_def Let_def
    by (intro runs_prod emits runs_ebind quiet_spawn_tasks quiet_calls) assumption
qed

lemma runs_parallel [runs_rules]: "runs (s_name s) (run_parallel E s start)"
  unfolding run_parallel_def by (intro quiet_reads runs_rules)

section \<open>One step of the workflow\<close>

lemma runs_container [runs_rules]:
  "s_kind s \<in> {KCall, KRepeat, KMap, KParallel} \<Longrightarrow> runs (s_name s) (run_container_step E s start)"
  unfolding run_container_step_def by (auto intro: runs_rules)

lemma step_of_cmd_post:
  assumes "cmd_post x s [Some n] o' (obs v) (stat v)" "n = s_name st"
  shows "wpv (step_of_cmd st i o') (\<lambda>o'' v'. step_post n x s o'' (obs v') (stat v'))
    (\<lambda>e v'. err_post n x s e (obs v') (stat v')) v"
  using assms by (cases o') (auto intro!: wpv_ret wpv_throw)

lemma runs_cmd_step [runs_rules]: "runs (s_name s) (run_cmd_step E s P start i)"
proof -
  have exec: "runs (s_name s) (ebind (execute_cmd_with_select E s' env i None start) (\<lambda>o'. step_of_cmd s' i o'))"
    if "s_name s' = s_name s" for s' env
    using that by (intro runsI wpv_rules step_of_cmd_post) (auto intro: err_post_soft)
  have "s_name s' = s_name s" if "rendered_command E s outs = Inr s'" for s' outs
    using that by (auto simp: rendered_command_def res_bind_Ok_iff split: if_splits)
  then show ?thesis
    unfolding run_cmd_step_def by (intro exec runs_sum runs_fail_step)
qed

lemma runs_dispatch [runs_rules]: "runs (s_name s) (dispatch E s P start)"
  unfolding dispatch_def Let_def by (cases "s_kind s") (auto intro: runs_rules)

lemma quiet_note_started [runs_rules]: "quiet (note_started E P t)"
  unfolding note_started_def
  by (intro quietI wpv_rules) auto

lemma runs_cancelled [runs_rules]:
  "runs (s_name s) (eseq (emit_failed E s ty err d sb) (eseq (finalise_cancel E) (ret CancelledO)))"
  "runs (s_name s) (eseq (emit_failed_at E s ty err start sb) (eseq (finalise_cancel E) (ret CancelledO)))"
  by (intro runsI wpv_rules; auto simp: stuck_def intro!: err_post_soft)+

lemma runs_cancel_at_boundary [runs_rules]: "runs (s_name s) (cancel_at_boundary E P s)"
  unfolding cancel_at_boundary_def by (intro runs_cancelled runs_ebind runs_eseq quiet_calls quiet_note_started)

lemma quiet_if [runs_rules]: "quiet m \<Longrightarrow> quiet k \<Longrightarrow> quiet (if b then m else k)"
  by simp

lemma runs_run_next [runs_rules]: "runs (s_name s) (run_next E P s)"
  unfolding run_next_def
  by (intro runs_cancelled runs_ebind runs_eseq runs_sum runs_if quiet_calls quiet_note_started quiet_if
      quiet_emit_now runs_fail_step runs_dispatch) simp

end
