(* ===== verification/EngineProps.thy ===== *)
theory EngineProps
  imports ScopeSpecs
begin

text \<open>
  The theorems on \<open>step\<close> and \<open>resume\<close>: the verdict of one step for every host, the invariants of
  the log over steps, crashes and restarts, the end of the loop.
\<close>

section \<open>The verdict of one step\<close>

definition steps_of :: "Engine \<Rightarrow> Step list" where
  "steps_of E = w_steps (e_workflow E)"

definition next_name :: "Engine \<Rightarrow> json list \<Rightarrow> string" where
  "next_name E L = s_name (steps_of E ! n_completed L)"

text \<open>Whether the log lets a further step run.\<close>

definition may_run :: "Engine \<Rightarrow> json list \<Rightarrow> bool" where
  "may_run E L \<longleftrightarrow> \<not> any_failed L \<and> \<not> any_done L \<and> n_completed L < length (steps_of E)"

lemma quiet_progress_wpv:
  assumes "\<And>P. compute_progress (wlog v) = Inr P \<Longrightarrow> Q P v" "\<And>e. soft e \<Longrightarrow> R e v"
  shows "wpv (progress_from_log E) Q R v"
  unfolding progress_from_log_def
  by (intro wpv_from_log assms) (auto dest: compute_progress_soft intro: assms)

definition verdict :: "Engine \<Rightarrow> World \<Rightarrow> StepOutcome \<Rightarrow> World \<Rightarrow> bool" where
  "verdict E v o' v' =
    (if any_failed (wlog v) then
       (\<exists>n err. o' = StepFailedO n err) \<and> obs v' = obs v \<and> stat v' = closed Failed (stat v)
     else if \<not> may_run E (wlog v) then
       o' = WorkflowCompletedO \<and> fst (obs v') = fst (obs v) \<and> fst (snd (obs v')) = fst (snd (obs v)) \<and>
         snd (snd (obs v')) = (snd (snd (obs v)) \<or> wstatus v = Running) \<and> stat v' = closed Completed (stat v)
     else step_post (next_name E (wlog v)) (obs v) (stat v) o' (obs v') (stat v'))"

definition fault :: "Engine \<Rightarrow> World \<Rightarrow> EngineError \<Rightarrow> World \<Rightarrow> bool" where
  "fault E v e v' =
    (if may_run E (wlog v) then err_post (next_name E (wlog v)) (obs v) (stat v) e (obs v') (stat v')
     else soft e \<and> fst (obs v') = fst (obs v) \<and> fst (snd (obs v')) = fst (snd (obs v)))"

lemma wpv_step: "wpv (step E) (verdict E v) (fault E v) v"
  unfolding step_def Let_def
proof (intro wpv_ebind quiet_progress_wpv)
  fix e assume "soft e"
  then show "fault E v e v" by (simp add: fault_def err_post_soft)
next
  fix P assume P: "compute_progress (wlog v) = Inr P"
  note c = compute_progress_counts [OF P]
  let ?s = "w_steps (e_workflow E) ! completed_steps P"
  have n: "s_name ?s = next_name E (wlog v)" using c by (simp add: next_name_def steps_of_def)
  have go: "runs (s_name ?s) (ebind (is_cancelled E) (\<lambda>c.
      if c then cancel_at_boundary E P ?s else run_next E P ?s))"
    by (intro runs_rules)
  show "wpv (if has_failure P
      then eseq (finalise_fail E) (ret (StepFailedO (case last_failed_step P of None \<Rightarrow> [] | Some n \<Rightarrow> n)
        ''workflow previously failed''))
      else if workflow_completed P \<or> length (w_steps (e_workflow E)) \<le> completed_steps P
        then eseq (finalise_success E) (ret WorkflowCompletedO)
        else ebind (is_cancelled E) (\<lambda>c. if c then cancel_at_boundary E P ?s else run_next E P ?s))
    (verdict E v) (fault E v) v"
  proof (intro wpv_if)
    assume "has_failure P"
    with c show "wpv (eseq (finalise_fail E) (ret (StepFailedO (case last_failed_step P of None \<Rightarrow> [] | Some n \<Rightarrow> n)
        ''workflow previously failed''))) (verdict E v) (fault E v) v"
      by (intro wpv_rules) (auto simp: verdict_def fault_def may_run_def)
  next
    assume "\<not> has_failure P" "workflow_completed P \<or> length (w_steps (e_workflow E)) \<le> completed_steps P"
    with c show "wpv (eseq (finalise_success E) (ret WorkflowCompletedO)) (verdict E v) (fault E v) v"
      by (intro wpv_rules) (auto simp: verdict_def fault_def may_run_def steps_of_def)
  next
    assume "\<not> has_failure P" "\<not> (workflow_completed P \<or> length (w_steps (e_workflow E)) \<le> completed_steps P)"
    then have "may_run E (wlog v)" "\<not> any_failed (wlog v)" using c by (auto simp: may_run_def steps_of_def)
    then show "wpv (ebind (is_cancelled E) (\<lambda>c. if c then cancel_at_boundary E P ?s else run_next E P ?s))
        (verdict E v) (fault E v) v"
      by (intro wpv_runs [OF go]) (simp_all add: verdict_def fault_def n)
  qed
qed

lemma step_cases:
  assumes "step E w = (r, w')"
  shows "case r of Inr o' \<Rightarrow> verdict E (view w) o' (view w') | Inl e \<Rightarrow> fault E (view w) e (view w')"
  using assms by (auto split: sum.split dest: wpvD [OF wpv_step])

lemma obs_view [simp]: "obs (view w) = obs w" "stat (view w) = stat w"
  by (simp_all add: obs_def stat_def)

lemma comp_names_same: "comp_names xs = comp_names ys \<Longrightarrow> n_completed xs = n_completed ys"
  by (metis length_comp_names)

text \<open>
  C2: the verdict of \<open>step\<close>, for every host. A step that reports completion was allowed to run, and
  adds exactly one top-level completion, of the next step of the workflow, and no failure. A step
  that reports failure or cancellation, or that ends in an interruption, completes nothing, leaves a
  failure in the log and closes the session, as failed or cancelled according to the reason. A
  workflow reported complete has no failure in the log, is done or has all its steps completed, and
  closes the session as completed. No panic is reachable but the iteration counter's, and any other
  error leaves the completions as they were or with the next step's.
\<close>

theorem step_verdict:
  "case step E w of
     (Inr (StepCompletedO n), w') \<Rightarrow> may_run E (wlog w) \<and> n = next_name E (wlog w) \<and>
       comp_names (wlog w') = comp_names (wlog w) @ [Some n] \<and> \<not> any_failed (wlog w') \<and> stat w' = stat w
   | (Inr (StepFailedO n err), w') \<Rightarrow> comp_names (wlog w') = comp_names (wlog w) \<and> any_failed (wlog w') \<and>
       stat w' = closed Failed (stat w)
   | (Inr CancelledO, w') \<Rightarrow> may_run E (wlog w) \<and> comp_names (wlog w') = comp_names (wlog w) \<and>
       any_failed (wlog w') \<and> stat w' = closed Cancelled (stat w)
   | (Inr WorkflowCompletedO, w') \<Rightarrow> comp_names (wlog w') = comp_names (wlog w) \<and> \<not> any_failed (wlog w') \<and>
       (any_done (wlog w') \<or> length (steps_of E) \<le> n_completed (wlog w')) \<and>
       stat w' = closed Completed (stat w)
   | (Inl (StepFailedErr i reason), w') \<Rightarrow> may_run E (wlog w) \<and> comp_names (wlog w') = comp_names (wlog w) \<and>
       any_failed (wlog w') \<and> stat w' = closed (reason_status reason) (stat w)
   | (Inl (Panic m), w') \<Rightarrow> m = overflow_panic \<and> comp_names (wlog w') = comp_names (wlog w)
   | (Inl e, w') \<Rightarrow> comp_names (wlog w') = comp_names (wlog w) \<or>
       may_run E (wlog w) \<and> comp_names (wlog w') = comp_names (wlog w) @ [Some (next_name E (wlog w))]"
proof -
  obtain r w' where s: "step E w = (r, w')" by fastforce
  note c = step_cases [OF s]
  have n: "comp_names (wlog w') = comp_names (wlog w) \<Longrightarrow> n_completed (wlog w') = n_completed (wlog w)"
    by (rule comp_names_same)
  show ?thesis
  proof (cases r)
    case (Inl e)
    with c s show ?thesis
      by (cases e) (auto simp: fault_def obs_def stuck_def split: if_splits)
  next
    case (Inr o')
    with c s n show ?thesis
      by (cases o') (auto simp: verdict_def obs_def stuck_def may_run_def split: if_splits)
  qed
qed

end
