(* ===== verification/Isolation.thy ===== *)
theory Isolation
  imports Frames EngineProps
begin

text \<open>
  What one call of \<open>step\<close> may append and may call: only events and effects of the next step of the
  workflow and of the steps of its scope, at their places and within the container's iterations,
  and no effect of a step before its \<open>StepStarted\<close> is in the log.
\<close>

abbreviation calm :: "Event \<Rightarrow> bool" where
  "calm ev \<equiv> event_scope ev = None"

text \<open>A scoped event of a container: its place in the body, its step, its iteration.\<close>

definition own_event :: "Engine \<Rightarrow> Step \<Rightarrow> Event \<Rightarrow> bool" where
  "own_event E s ev \<longleftrightarrow> is_container s \<and> (\<exists>sc i it. container_scope E s = Inr sc \<and>
     i < length (sc_steps sc) \<and> iteration_ok E s it \<and> event_step ev = Some (s_name (sc_steps sc ! i)) \<and>
     event_scope ev = Some \<lparr>container = s_name s, iteration = it, position = as_u32 i\<rparr>)"

definition own_effect :: "Engine \<Rightarrow> Step \<Rightarrow> Effect \<Rightarrow> bool" where
  "own_effect E s fx \<longleftrightarrow>
    (if is_container s then \<exists>sc b. container_scope E s = Inr sc \<and> b \<in> set (sc_steps sc) \<and> performs E b fx
     else performs E s fx)"

abbreviation stepped :: "Engine \<Rightarrow> Step \<Rightarrow> World \<Rightarrow> World \<Rightarrow> bool" where
  "stepped E s \<equiv> grown (\<lambda>ev. calm ev \<or> own_event E s ev) (\<lambda>fx. housekeeping fx \<or> own_effect E s fx)"

lemma based_calm: "based calm housekeeping"
  by (simp add: based_def)

lemma adds_own_dispatch:
  "adds (\<lambda>ev. calm ev \<or> own_event E s ev) (\<lambda>fx. housekeeping fx \<or> own_effect E s fx) (dispatch E s progress start)"
proof -
  let ?P = "\<lambda>ev. calm ev \<or> own_event E s ev" and ?A = "\<lambda>fx. housekeeping fx \<or> own_effect E s fx"
  have "scope_allows ?P ?A E s" if "is_container s"
    using that by (force simp: scope_allows_def body_allows_def allows_def free_def own_event_def own_effect_def)
  moreover have "free ?A E s" if "\<not> is_container s"
    using that by (simp add: free_def own_effect_def)
  ultimately show ?thesis by (intro adds_dispatch) (auto simp: based_def)
qed

text \<open>Everything before the dispatch is calm, and ends with the start of the step.\<close>

definition announced :: "Engine \<Rightarrow> Step \<Rightarrow> World \<Rightarrow> World \<Rightarrow> bool" where
  "announced E s w w' \<longleftrightarrow> (\<exists>w1. grown calm housekeeping w w1 \<and>
     (w1 = w' \<or> (\<exists>t ts L. wlog w1 = L @ [event_json (StepStarted (s_name s) t ts None)] \<and>
        prefix (wlog w) L \<and> stepped E s w1 w')))"

lemma announced_calm: "grown calm housekeeping w w' \<Longrightarrow> announced E s w w'"
  by (auto simp: announced_def)

lemma grown_prefix: "grown P A w w' \<Longrightarrow> prefix (wlog w) (wlog w')"
  by (auto simp: grown_def)

lemma announced_after:
  assumes here: "grown calm housekeeping w w1" and "announced E s w1 w'"
  shows "announced E s w w'"
proof -
  obtain w2 where "grown calm housekeeping w1 w2" "w2 = w' \<or> (\<exists>t ts L. wlog w2 =
      L @ [event_json (StepStarted (s_name s) t ts None)] \<and> prefix (wlog w1) L \<and> stepped E s w2 w')"
    using assms(2) unfolding announced_def by blast
  then show ?thesis
    using grown_trans [OF here] prefix_order.trans [OF grown_prefix [OF here]] unfolding announced_def by blast
qed

definition announces :: "Engine \<Rightarrow> Step \<Rightarrow> 'a eng \<Rightarrow> bool" where
  "announces E s m \<longleftrightarrow> (\<forall>w. announced E s w (snd (m w)))"

lemma announcesI: "(\<And>w r w'. m w = (r, w') \<Longrightarrow> announced E s w w') \<Longrightarrow> announces E s m"
  unfolding announces_def by (metis prod.collapse)

lemma announcesD: "announces E s m \<Longrightarrow> m w = (r, w') \<Longrightarrow> announced E s w w'"
  unfolding announces_def by (metis snd_conv)

lemma announces_calm: "adds calm housekeeping m \<Longrightarrow> announces E s m"
  by (intro announcesI announced_calm addsD)

lemma announces_ebind:
  assumes m: "adds calm housekeeping m" and f: "\<And>a. announces E s (f a)"
  shows "announces E s (ebind m f)"
proof (rule announcesI)
  fix w r w' assume run: "ebind m f w = (r, w')"
  obtain x w1 where x: "m w = (x, w1)" by fastforce
  with m have here: "grown calm housekeeping w w1" by (rule addsD)
  show "announced E s w w'"
  proof (cases x)
    case (Inr a)
    then have "announced E s w1 w'" using run x by (intro announcesD [OF f [of a]]) (simp add: ebind_def)
    with here show ?thesis by (rule announced_after)
  qed (use run x here announced_calm in \<open>auto simp: ebind_def\<close>)
qed

lemma announces_eseq: "adds calm housekeeping m \<Longrightarrow> announces E s k \<Longrightarrow> announces E s (eseq m k)"
  by (simp add: eseq_def announces_ebind)

lemma announces_sum:
  "(\<And>e. announces E s (f e)) \<Longrightarrow> (\<And>a. announces E s (g a)) \<Longrightarrow>
    announces E s (case x of Inl e \<Rightarrow> f e | Inr a \<Rightarrow> g a)"
  by (simp split: sum.split)

lemma announces_start:
  assumes f: "adds (\<lambda>ev. calm ev \<or> own_event E s ev) (\<lambda>fx. housekeeping fx \<or> own_effect E s fx) m"
  shows "announces E s (eseq (emit_now E (\<lambda>ts. StepStarted (s_name s) t ts None)) m)"
proof (rule announcesI)
  fix w r w' assume run: "eseq (emit_now E (\<lambda>ts. StepStarted (s_name s) t ts None)) m w = (r, w')"
  obtain x w1 where x: "emit_now E (\<lambda>ts. StepStarted (s_name s) t ts None) w = (x, w1)" by fastforce
  then have here: "grown calm housekeeping w w1" by (rule addsD [OF adds_emit_now, rotated]) simp
  show "announced E s w w'"
  proof (cases x)
    case (Inr a)
    then have "stepped E s w1 w'" using run x by (intro addsD [OF f]) (simp add: eseq_def ebind_def)
    moreover have "\<exists>ts. wlog w1 = wlog w @ [event_json (StepStarted (s_name s) t ts None)]"
      using x Inr by (auto simp: emit_now_def emit_def append_event_def ebind_def ask_def split: db_reply.splits)
    ultimately show ?thesis unfolding announced_def using here by blast
  qed (use run x here announced_calm in \<open>auto simp: eseq_def ebind_def\<close>)
qed

lemma adds_note_started: "adds calm housekeeping (note_started E progress t)"
  unfolding note_started_def by (intro grows_rules) simp_all

lemma announces_run_next: "announces E s (run_next E progress s)"
proof -
  have "adds (\<lambda>ev. calm ev \<or> own_event E s ev) (\<lambda>fx. housekeeping fx \<or> own_effect E s fx)
      (ebind (is_cancelled E) (\<lambda>c. if c then
        eseq (emit_failed_at E s t err start sb) (eseq (finalise_cancel E) (ret CancelledO))
      else dispatch E s progress start))" for t err start sb
    by (intro adds_own_dispatch adds_shared grows_rules) (simp_all add: based_def)
  then show ?thesis
    unfolding run_next_def
    by (intro announces_start announces_sum announces_ebind announces_eseq announces_calm adds_note_started
        adds_endings(1) [OF based_calm] adds_shared [OF based_calm] adds_if adds_ret adds_reads)
qed

section \<open>The frame of a step\<close>

definition next_step :: "Engine \<Rightarrow> json list \<Rightarrow> Step" where
  "next_step E L = steps_of E ! n_completed L"

text \<open>Whether a log holds the start of a step after an earlier one.\<close>

definition started_since :: "json list \<Rightarrow> string \<Rightarrow> json list \<Rightarrow> bool" where
  "started_since old n L \<longleftrightarrow> (\<exists>t ts. event_json (StepStarted n t ts None) \<in> set (drop (length old) L))"

lemma started_sinceI:
  assumes "prefix old L" "prefix (L @ [event_json (StepStarted n t ts None)]) M"
  shows "prefix old M" "started_since old n M"
proof -
  from assms obtain a b where M: "M = old @ a @ event_json (StepStarted n t ts None) # b"
    by (auto simp: prefix_def)
  then show "prefix old M" by simp
  show "started_since old n M"
    unfolding started_since_def by (intro exI [of _ t] exI [of _ ts]) (simp add: M)
qed

definition framed :: "Engine \<Rightarrow> World \<Rightarrow> World \<Rightarrow> bool" where
  "framed E w w' \<longleftrightarrow>
     (if may_run E (wlog w) then announced E (next_step E (wlog w)) w w' else grown calm housekeeping w w')"

lemma framed_step:
  assumes run: "step E w = (r, w')"
  shows "framed E w w'"
proof -
  note calm_rules = adds_shared [OF based_calm] adds_note_started grows_rules
  have finish: "adds calm housekeeping (eseq (finalise_fail E) (ret o1))"
    "adds calm housekeeping (eseq (finalise_success E) (ret o2))" for o1 o2 :: StepOutcome
    by (intro calm_rules)+
  have go: "announces E s (ebind (is_cancelled E) (\<lambda>c. if c then cancel_at_boundary E P s else run_next E P s))"
    for P s
  proof (rule announces_ebind)
    show "announces E s (if c then cancel_at_boundary E P s else run_next E P s)" for c
      by (cases c; simp add: announces_run_next; rule announces_calm; unfold cancel_at_boundary_def)
        (intro calm_rules)
  qed (intro grows_rules)
  obtain x w1 where x: "progress_from_log E w = (x, w1)" by fastforce
  then have first: "grown calm housekeeping w w1" by (rule addsD [rotated]) (intro grows_rules)
  show ?thesis
  proof (cases x)
    case (Inl e)
    then have "w' = w1" using run x by (simp add: step_def ebind_def)
    then show ?thesis using first by (simp add: framed_def announced_calm)
  next
    case (Inr P)
    then have P: "compute_progress (wlog w) = Inr P" and w1: "wlog w1 = wlog w"
      using x by (auto simp: progress_from_log_def from_log_def replay_def ebind_def ask_def get_def
          throw_def lift_result_def split: option.splits)
    note c = compute_progress_counts [OF P]
    let ?s = "w_steps (e_workflow E) ! completed_steps P"
    have s: "?s = next_step E (wlog w)" using c by (simp add: next_step_def steps_of_def)
    have rest: "(if has_failure P then eseq (finalise_fail E)
          (ret (StepFailedO (case last_failed_step P of None \<Rightarrow> [] | Some n \<Rightarrow> n) ''workflow previously failed''))
        else if workflow_completed P \<or> length (w_steps (e_workflow E)) \<le> completed_steps P
          then eseq (finalise_success E) (ret WorkflowCompletedO)
        else ebind (is_cancelled E) (\<lambda>c. if c then cancel_at_boundary E P ?s else run_next E P ?s)) w1 = (r, w')"
      using run x Inr by (simp add: step_def ebind_def Let_def)
    show ?thesis
    proof (cases "may_run E (wlog w)")
      case True
      then have "announced E ?s w1 w'"
        using rest True c by (intro announcesD [OF go]) (auto simp: may_run_def steps_of_def)
      then show ?thesis using True announced_after [OF first] by (simp add: framed_def s)
    next
      case False
      then have "grown calm housekeeping w1 w'"
        using rest c by (auto simp: may_run_def steps_of_def split: if_splits dest: addsD [OF finish(1)] addsD [OF finish(2)])
      with first have "grown calm housekeeping w w'" by (rule grown_trans)
      with False show ?thesis by (simp add: framed_def)
    qed
  qed
qed


lemma grownE:
  assumes "grown P A w w'"
  obtains es tr where "wlog w' = wlog w @ map event_json es" "list_all P es" "wtrace w' = wtrace w @ tr"
    "list_all (\<lambda>(fx, L). A fx \<and> prefix (wlog w) L) tr"
  using assms unfolding grown_def list_all_iff by blast

lemma grown_row: "grown P A w w' \<Longrightarrow> wdb w' = (if wdb w = Running then wdb w' else wdb w)"
  by (auto simp: grown_def)

text \<open>The events and the row, read off the frame.\<close>

lemma announced_grown: "announced E s w w' \<Longrightarrow> stepped E s w w'"
proof -
  assume "announced E s w w'"
  then obtain w1 where w1: "grown calm housekeeping w w1" "w1 = w' \<or> stepped E s w1 w'"
    unfolding announced_def by blast
  from w1(1) have "stepped E s w w1" by (rule grown_mono) auto
  with w1(2) show ?thesis by (auto intro: grown_trans)
qed

definition ours :: "Engine \<Rightarrow> json list \<Rightarrow> Event \<Rightarrow> bool" where
  "ours E L ev \<longleftrightarrow> event_scope ev = None \<or> may_run E L \<and> own_event E (next_step E L) ev"

lemma framed_grown:
  assumes "framed E w w'"
  shows "grown (ours E (wlog w)) (\<lambda>fx. True) w w'"
proof (cases "may_run E (wlog w)")
  case True
  with assms have "stepped E (next_step E (wlog w)) w w'" by (auto simp: framed_def announced_grown)
  then show ?thesis by (rule grown_mono) (auto simp: ours_def True)
next
  case False
  with assms have "grown calm housekeeping w w'" by (simp add: framed_def)
  then show ?thesis by (rule grown_mono) (auto simp: ours_def)
qed

text \<open>
  C6: one step only appends. Whatever the host does, the log after \<open>step\<close> is the log before it
  followed by events of the engine's own vocabulary; an event with a scope is one of the container
  whose turn it is: it names a step of that container's body at its position, in an iteration the
  container may run (below \<open>max_iterations\<close>, below the number of items, or the only one). A session
  row that is no longer running is not written.
\<close>

theorem step_appends:
  "\<exists>es. wlog (snd (step E w)) = wlog w @ map event_json es \<and> list_all (ours E (wlog w)) es \<and>
    wdb (snd (step E w)) = (if wdb w = Running then wdb (snd (step E w)) else wdb w)"
proof -
  have "framed E w (snd (step E w))" by (rule framed_step) (rule surjective_pairing)
  then have g: "grown (ours E (wlog w)) (\<lambda>fx. True) w (snd (step E w))" by (rule framed_grown)
  then show ?thesis using grown_row [OF g] by (elim grownE) blast
qed

definition effect_ok :: "Engine \<Rightarrow> json list \<Rightarrow> Effect \<times> json list \<Rightarrow> bool" where
  "effect_ok E old = (\<lambda>(fx, L). prefix old L \<and> (housekeeping fx \<or> may_run E old \<and>
     own_effect E (next_step E old) fx \<and> started_since old (next_name E old) L))"

lemma framed_effects:
  assumes "framed E w w'"
  shows "\<exists>tr. wtrace w' = wtrace w @ tr \<and> list_all (effect_ok E (wlog w)) tr"
proof -
  have calm: "\<exists>tr. wtrace w1 = wtrace w @ tr \<and> list_all (effect_ok E (wlog w)) tr"
    if "grown calm housekeeping w w1" for w1
    using that by (elim grownE) (auto simp: effect_ok_def list_all_iff)
  show ?thesis
  proof (cases "may_run E (wlog w)")
    case True
    let ?s = "next_step E (wlog w)"
    from True assms obtain w1 where w1: "grown calm housekeeping w w1" and rest: "w1 = w' \<or> (\<exists>t ts L.
        wlog w1 = L @ [event_json (StepStarted (s_name ?s) t ts None)] \<and> prefix (wlog w) L \<and> stepped E ?s w1 w')"
      by (auto simp: framed_def announced_def)
    obtain tr where tr: "wtrace w1 = wtrace w @ tr" "list_all (effect_ok E (wlog w)) tr" using calm [OF w1] by blast
    from rest show ?thesis
    proof
      assume "\<exists>t ts L. wlog w1 = L @ [event_json (StepStarted (s_name ?s) t ts None)] \<and> prefix (wlog w) L \<and>
        stepped E ?s w1 w'"
      then obtain t ts L where L: "wlog w1 = L @ [event_json (StepStarted (s_name ?s) t ts None)]"
          "prefix (wlog w) L" and s: "stepped E ?s w1 w'" by blast
      from s obtain tr' where tr': "wtrace w' = wtrace w1 @ tr'"
          "list_all (\<lambda>(fx, M). (housekeeping fx \<or> own_effect E ?s fx) \<and> prefix (wlog w1) M) tr'"
        by (elim grownE)
      have "effect_ok E (wlog w) (fx, M)" if "housekeeping fx \<or> own_effect E ?s fx" "prefix (wlog w1) M" for fx M
      proof -
        have "prefix (wlog w) M" "started_since (wlog w) (s_name ?s) M"
          using started_sinceI [OF L(2)] that(2) L(1) by auto
        then show ?thesis using that(1) True by (auto simp: effect_ok_def next_name_def next_step_def)
      qed
      then have "list_all (effect_ok E (wlog w)) tr'" using tr'(2) by (auto simp: list_all_iff)
      then show ?thesis using tr tr'(1) by simp
    qed (use tr in blast)
  qed (use assms calm in \<open>simp add: framed_def\<close>)
qed

text \<open>
  C4: emit before execute. Every external effect of one \<open>step\<close> is called on a log that extends the
  one the step found. An execution happens only when the log lets a step run; it is the execution of
  that step, or for a container of a step of its scope; and the \<open>StepStarted\<close> of the step is in the log
  before it. What it runs with comes from the cascade of the step's environment: a command is the
  step's own or its rendering and gets the resolved environment through the proxy; an agent gets its
  rendered prompt and the resolved environment, inside a container through the proxy; a chat call
  carries the rendered prompt and the key found under the step's \<open>api_key_env\<close> in the resolved
  environment or on the host. A log with a failure or a completed workflow executes nothing.
\<close>

theorem step_effects:
  "\<exists>tr. wtrace (snd (step E w)) = wtrace w @ tr \<and> list_all (effect_ok E (wlog w)) tr"
proof -
  have "framed E w (snd (step E w))" by (rule framed_step) (rule surjective_pairing)
  then show ?thesis by (rule framed_effects)
qed

end
