(* ===== verification/Lifecycle.thy ===== *)
theory Lifecycle
  imports Isolation
begin

text \<open>
  A session over many processes: handles step it, processes die between any two writes of the log,
  new handles take over from what the database holds. The invariants of the log over every such
  history, and the end of the loop.
\<close>

section \<open>Handles\<close>

text \<open>\<open>resume_existing\<close>: a new engine takes the row's status and nothing else of the old handle.\<close>

definition fresh_handle :: "World \<Rightarrow> World" where
  "fresh_handle w = w\<lparr>wstatus := wdb w, wstarted := None, wspace := None, wprepared := False,
    wcontainer := None, wsync := None\<rparr>"

definition new_session :: World where
  "new_session = \<lparr>wlog = [], wdb = Running, wstatus = Running, wstarted = None, wspace = None,
    wprepared = False, wcontainer = None, wsync = None, wtrace = [], wtick = 0\<rparr>"

text \<open>
  The histories of a session of a workflow with the steps \<open>W\<close>. A crash leaves the log of any
  moment of the step, the row as it was or as the step left it; the engine that takes over may have
  another host and another configuration, and its clocks start anywhere.
\<close>

inductive live :: "Step list \<Rightarrow> World \<Rightarrow> bool" for W where
  live_new: "live W new_session"
| live_step: "live W w \<Longrightarrow> steps_of E = W \<Longrightarrow> step E w = (r, w') \<Longrightarrow> live W w'"
| live_crash: "live W w \<Longrightarrow> steps_of E = W \<Longrightarrow> step E w = (r, w') \<Longrightarrow> prefix (wlog w) L \<Longrightarrow>
    prefix L (wlog w') \<Longrightarrow> row = wdb w \<or> row = wdb w' \<Longrightarrow>
    live W (fresh_handle (w\<lparr>wlog := L, wdb := row, wtrace := tr, wtick := t\<rparr>))"
| live_restart: "live W w \<Longrightarrow> live W (fresh_handle (w\<lparr>wtick := t\<rparr>))"

inductive_cases live_stepE: "live W w"

section \<open>The log\<close>

definition settled :: "json list \<Rightarrow> bool" where
  "settled xs \<longleftrightarrow> any_failed xs \<or> any_done xs"

text \<open>
  The invariant: events of the engine only, the completions those of the first steps of the
  workflow in order, and none after a failure or an end.
\<close>

definition coherent :: "Step list \<Rightarrow> json list \<Rightarrow> bool" where
  "coherent W L \<longleftrightarrow> (\<exists>es. L = map event_json es) \<and>
     comp_names L = map (\<lambda>s. Some (s_name s)) (take (n_completed L) W) \<and>
     (\<forall>xs ys. L = xs @ ys \<longrightarrow> settled xs \<longrightarrow> comp_names ys = [])"

lemma comp_names_append_same:
  "comp_names (xs @ ys) = comp_names xs \<longleftrightarrow> comp_names ys = []"
  by simp

lemma coherent_prefix:
  assumes "coherent W L" "prefix M L"
  shows "coherent W M"
proof -
  obtain N where L: "L = M @ N" using assms(2) by (auto simp: prefix_def)
  obtain es where "M @ N = map event_json es"
    and names: "comp_names M @ comp_names N = map (\<lambda>s. Some (s_name s)) (take (n_completed (M @ N)) W)"
    and settled: "\<And>xs ys. M @ N = xs @ ys \<Longrightarrow> settled xs \<Longrightarrow> comp_names ys = []"
    using assms(1) unfolding L coherent_def comp_names_append by blast
  then have "\<exists>es. M = map event_json es" by (auto simp: append_eq_map_conv)
  moreover have "comp_names M = map (\<lambda>s. Some (s_name s)) (take (n_completed M) W)"
  proof -
    have "comp_names M = take (n_completed M) (comp_names M @ comp_names N)"
      by (simp flip: length_comp_names)
    also have "\<dots> = map (\<lambda>s. Some (s_name s)) (take (n_completed M) (take (n_completed (M @ N)) W))"
      by (simp only: names take_map)
    also have "take (n_completed M) (take (n_completed (M @ N)) W) = take (n_completed M) W"
      by (simp add: min_def flip: length_comp_names)
    finally show ?thesis .
  qed
  moreover have "comp_names ys = []" if "M = xs @ ys" "settled xs" for xs ys
    using settled [of xs "ys @ N"] that by simp
  ultimately show ?thesis by (simp add: coherent_def)
qed

text \<open>What a step adds to the completions: nothing, or the next name, and then nothing settles the log.\<close>

lemma step_completes:
  assumes "step E w = (r, w')"
  shows "comp_names (wlog w') = comp_names (wlog w) \<or>
    may_run E (wlog w) \<and> comp_names (wlog w') = comp_names (wlog w) @ [Some (next_name E (wlog w))] \<and>
    \<not> settled (wlog w')"
proof (cases r)
  case (Inl e)
  then show ?thesis using step_cases [OF assms]
    by (cases e) (auto simp: fault_def obs_def stuck_def may_run_def settled_def split: if_splits)
next
  case (Inr o')
  then show ?thesis using step_cases [OF assms]
    by (cases o') (auto simp: verdict_def obs_def stuck_def may_run_def settled_def split: if_splits)
qed

lemma coherent_step:
  assumes "coherent (steps_of E) (wlog w)" "step E w = (r, w')"
  shows "coherent (steps_of E) (wlog w')"
proof -
  obtain es where es: "wlog w' = wlog w @ map event_json es"
    using step_appends [of E w] assms(2) by auto
  from assms(1) obtain es0 where es0: "wlog w = map event_json es0" by (auto simp: coherent_def)
  have typed: "\<exists>es. wlog w' = map event_json es" by (intro exI [of _ "es0 @ es"]) (simp add: es es0)
  let ?new = "map event_json es"
  from step_completes [OF assms(2)] show ?thesis
  proof
    assume same: "comp_names (wlog w') = comp_names (wlog w)"
    then have none: "comp_names ?new = []" using es by simp
    have "comp_names ys = []" if e: "wlog w' = xs @ ys" and s: "settled xs" for xs ys
    proof -
      have "wlog w @ ?new = xs @ ys" using e es by simp
      then consider zs where "wlog w @ zs = xs" "?new = zs @ ys" | zs where "wlog w = xs @ zs" "zs @ ?new = ys"
        by (auto simp: append_eq_append_conv2)
      then show ?thesis
      proof cases
        case 1 then show ?thesis using none by (metis append_is_Nil_conv comp_names_append)
      next
        case (2 zs)
        then have "comp_names zs = []" using assms(1) s by (auto simp: coherent_def)
        with 2 none show ?thesis by auto
      qed
    qed
    moreover have "comp_names (wlog w') = map (\<lambda>s. Some (s_name s)) (take (n_completed (wlog w')) (steps_of E))"
      using assms(1) same comp_names_same [OF same] by (simp add: coherent_def)
    ultimately show ?thesis using typed by (simp add: coherent_def)
  next
    assume grew: "may_run E (wlog w) \<and> comp_names (wlog w') = comp_names (wlog w) @ [Some (next_name E (wlog w))] \<and>
      \<not> settled (wlog w')"
    then have n: "n_completed (wlog w') = Suc (n_completed (wlog w))"
      by (metis length_append_singleton length_comp_names)
    have "comp_names (wlog w') = map (\<lambda>s. Some (s_name s)) (take (n_completed (wlog w')) (steps_of E))"
      using grew assms(1) by (simp add: n coherent_def may_run_def next_name_def take_Suc_conv_app_nth)
    moreover have "\<not> settled xs" if "wlog w' = xs @ ys" for xs ys
      using grew that by (auto simp: settled_def)
    ultimately show ?thesis using typed by (simp add: coherent_def)
  qed
qed

lemma fresh_handle_simps [simp]: "wlog (fresh_handle w) = wlog w" "wdb (fresh_handle w) = wdb w"
  by (simp_all add: fresh_handle_def)

lemma live_coherent: "live W w \<Longrightarrow> coherent W (wlog w)"
proof (induction rule: live.induct)
  case live_new
  then show ?case by (simp add: coherent_def new_session_def settled_def)
next
  case (live_step w E r w')
  then show ?case using coherent_step by blast
next
  case (live_crash w E r w' L row tr t)
  then have "coherent W (wlog w')" using coherent_step by blast
  then show ?case using live_crash coherent_prefix by simp
qed simp

text \<open>
  C1: the log of a session is coherent through crashes and restarts. However many processes stepped
  the session, died between any two writes or lost their connection after a commit, its log replays
  without an error, and its completions are exactly the first steps of the workflow, each once and
  in the order of the workflow.
\<close>

theorem completions_exactly_once:
  assumes "live W w"
  shows "\<exists>P. compute_progress (wlog w) = Inr P \<and> completed_steps P \<le> length W \<and>
    comp_names (wlog w) = map (\<lambda>s. Some (s_name s)) (take (completed_steps P) W)"
proof -
  from assms have c: "coherent W (wlog w)" by (rule live_coherent)
  then have "list_all scan_ok (wlog w)" by (auto simp: coherent_def list_all_iff scan_ok_wire)
  then obtain P where P: "compute_progress (wlog w) = Inr P" using compute_progress_total by blast
  then have n: "completed_steps P = n_completed (wlog w)" by (simp add: compute_progress_counts)
  have "n_completed (wlog w) = length (take (n_completed (wlog w)) W)"
    using c unfolding coherent_def by (metis length_comp_names length_map)
  then show ?thesis using P n c by (auto simp: coherent_def)
qed

lemma comp_names_wire: "comp_names (map event_json es) = concat (map completes es)"
proof (induction es)
  case (Cons ev es)
  have "comp_names (map event_json (ev # es)) = comp_names [event_json ev] @ comp_names (map event_json es)"
    using comp_names_append [of "[event_json ev]" "map event_json es"] by simp
  then show ?case using Cons.IH by simp
qed simp

text \<open>The next call of \<open>step\<close> on a settled log: no event of a scope, no completion, no execution.\<close>

lemma settled_step:
  assumes "live W w" and "settled (wlog w)" and "steps_of E = W"
  shows "\<exists>es tr. wlog (snd (step E w)) = wlog w @ map event_json es \<and>
    list_all (\<lambda>ev. event_scope ev = None \<and> completes ev = []) es \<and>
    wtrace (snd (step E w)) = wtrace w @ tr \<and> list_all (\<lambda>(fx, L). housekeeping fx) tr"
proof -
  obtain r w' where s: "step E w = (r, w')" by fastforce
  have idle: "\<not> may_run E (wlog w)" using assms(2) by (auto simp: may_run_def settled_def)
  have g: "grown calm housekeeping w w'" using framed_step [OF s] idle by (simp add: framed_def)
  then obtain es tr where es: "wlog w' = wlog w @ map event_json es" "list_all calm es"
    and tr: "wtrace w' = wtrace w @ tr" "list_all (\<lambda>(fx, L). housekeeping fx \<and> prefix (wlog w) L) tr"
    by (elim grownE)
  have "coherent W (wlog w')" using live_coherent [OF live_step [OF assms(1,3) s]] .
  then have "comp_names (map event_json es) = []"
    using assms(2) es(1) unfolding coherent_def by blast
  then have "list_all (\<lambda>ev. completes ev = []) es" by (simp add: comp_names_wire list_all_iff)
  then show ?thesis using s es tr by (auto simp: list_all_iff)
qed


section \<open>The loop\<close>

lemma resume_Suc:
  assumes "step E w = (r, w1)"
  shows "resume (Suc fuel) E w =
    (case r of Inr (StepCompletedO n) \<Rightarrow> resume fuel E w1 | _ \<Rightarrow> Some (r, w1))"
  using assms by (auto split: sum.split StepOutcome.split)

lemma step_completed:
  assumes "step E w = (Inr (StepCompletedO n), w1)"
  shows "n_completed (wlog w1) = Suc (n_completed (wlog w))" "n_completed (wlog w) < length (steps_of E)"
    "stat w1 = stat w"
proof -
  have v: "may_run E (wlog w) \<and> comp_names (wlog w1) = comp_names (wlog w) @ [Some n] \<and> stat w1 = stat w"
    using step_verdict [where E = E and w = w] assms by simp
  then have "n_completed (wlog w1) = Suc (n_completed (wlog w))"
    by (metis length_append_singleton length_comp_names)
  with v show "n_completed (wlog w1) = Suc (n_completed (wlog w))" "n_completed (wlog w) < length (steps_of E)"
    "stat w1 = stat w" by (simp_all add: may_run_def)
qed

text \<open>The verdict of the loop, from the last step's.\<close>

fun ended :: "Engine \<Rightarrow> SessionStatus \<times> SessionStatus \<Rightarrow> (EngineError, StepOutcome) result \<Rightarrow> World \<Rightarrow> bool" where
  "ended E s (Inr (StepCompletedO n)) w' \<longleftrightarrow> False"
| "ended E s (Inr (StepFailedO n err)) w' \<longleftrightarrow> any_failed (wlog w') \<and> stat w' = closed Failed s"
| "ended E s (Inr CancelledO) w' \<longleftrightarrow> any_failed (wlog w') \<and> stat w' = closed Cancelled s"
| "ended E s (Inr WorkflowCompletedO) w' \<longleftrightarrow> \<not> any_failed (wlog w') \<and>
    (any_done (wlog w') \<or> length (steps_of E) \<le> n_completed (wlog w')) \<and> stat w' = closed Completed s"
| "ended E s (Inl (StepFailedErr i reason)) w' \<longleftrightarrow> any_failed (wlog w') \<and> stat w' = closed (reason_status reason) s"
| "ended E s (Inl (Panic m)) w' \<longleftrightarrow> m = overflow_panic"
| "ended E s (Inl e) w' \<longleftrightarrow> True"

lemma step_ended:
  assumes "step E w = (r, w')" "\<And>n. r \<noteq> Inr (StepCompletedO n)"
  shows "ended E (stat w) r w'"
proof (cases r)
  case (Inl e)
  with step_verdict [where E = E and w = w] assms show ?thesis by (cases e) auto
next
  case (Inr o')
  with step_verdict [where E = E and w = w] assms show ?thesis by (cases o') auto
qed

lemma resume_ended:
  "length (steps_of E) - n_completed (wlog w) < fuel \<Longrightarrow>
    \<exists>r w'. resume fuel E w = Some (r, w') \<and> ended E (stat w) r w'"
proof (induction fuel arbitrary: w)
  case (Suc fuel)
  obtain r w1 where s: "step E w = (r, w1)" by fastforce
  show ?case
  proof (cases "\<exists>n. r = Inr (StepCompletedO n)")
    case True
    then obtain n where r: "r = Inr (StepCompletedO n)" by blast
    note c = step_completed [OF s [unfolded r]]
    then have "length (steps_of E) - n_completed (wlog w1) < fuel" using Suc.prems by simp
    from Suc.IH [OF this] show ?thesis using resume_Suc [OF s] c(3) r by simp
  next
    case False
    then have "resume (Suc fuel) E w = Some (r, w1)"
      using resume_Suc [OF s] by (auto split: sum.split StepOutcome.split)
    with step_ended [OF s] False show ?thesis by auto
  qed
qed simp

text \<open>
  C3: \<open>resume\<close> terminates. For every host, database and log, the loop ends after at most one more
  call of \<open>step\<close> than the workflow has steps left; it never ends on a completed step; a workflow it
  reports complete has no failure in its log and is done or has all its steps completed; a failed,
  cancelled or interrupted one has a failure in its log; and the session is closed accordingly.
\<close>

theorem resume_terminates:
  "case resume (Suc (length (steps_of E) - n_completed (wlog w))) E w of
     None \<Rightarrow> False
   | Some (r, w') \<Rightarrow> ended E (stat w) r w'"
  using resume_ended [of E w "Suc (length (steps_of E) - n_completed (wlog w))"] by auto

section \<open>A host on which nothing fails\<close>

text \<open>What is sure of an answer and of its being given, whatever the world.\<close>

definition sure :: "('a \<Rightarrow> bool) \<Rightarrow> 'a eng \<Rightarrow> bool" where
  "sure G m \<longleftrightarrow> (\<forall>w. \<exists>a w'. m w = (Inr a, w') \<and> G a)"

text \<open>
  The git workspace and the container workspace, where the engine has one, are made without an error
  (copying back at the end may fail: it is only noted).
\<close>

definition benign :: "Engine \<Rightarrow> bool" where
  "benign E \<longleftrightarrow> h_db (e_host E) = (\<lambda>t. Commits) \<and> h_cancel_at (e_host E) = None \<and>
     h_first (e_host E) = (\<lambda>t. ArmDone) \<and>
     (e_manager E \<longrightarrow> (\<forall>t st. \<exists>ws. h_prepare (e_host E) t st = Inr ws) \<and> (\<forall>t ws. h_finalize (e_host E) t ws = Inr ())) \<and>
     (e_container_workspace E \<noteq> None \<longrightarrow> (\<forall>t. h_create (e_host E) t = Inr () \<and> h_copy_in (e_host E) t = Inr ()) \<and>
       (\<forall>t cmd. \<exists>out. h_sh (e_host E) t cmd = Inr out \<and> sh_success out)) \<and>
     (\<forall>t s env. \<exists>out. h_exec (e_host E) t s env = Inr out \<and> xo_exit out = 0)"

text \<open>A command whose templates, if it has any, render in every context, and whose environment resolves.\<close>

definition plain_cmd :: "Engine \<Rightarrow> Step \<Rightarrow> bool" where
  "plain_cmd E s \<longleftrightarrow> s_kind s = KCmd \<and> (\<exists>env. prepare_step E s = Inr env) \<and>
     (contains_template_markers (s_command s) \<longrightarrow>
       (\<forall>ctx. \<exists>txt. render (h_tera (e_host E)) (s_command s) ctx = Inr txt))"

lemma sure_ret: "G a \<Longrightarrow> sure G (ret a)"
  by (simp add: sure_def ret_def)

lemma sure_ask: "(\<And>t. G (f t)) \<Longrightarrow> sure G (ask f)"
  by (simp add: sure_def ask_def)

lemma sure_call: "(\<And>t. G (f t)) \<Longrightarrow> sure G (call fx f)"
  by (simp add: sure_def call_def)

lemma sure_get: "(\<And>w. G (g w)) \<Longrightarrow> sure G (get g)"
  by (simp add: sure_def get_def)

lemma sure_modify: "G () \<Longrightarrow> sure G (modify h)"
  by (simp add: sure_def modify_def)

lemmas sure_basic = sure_ret sure_ask sure_call sure_get sure_modify

lemma sure_ebind: "sure H m \<Longrightarrow> (\<And>a. H a \<Longrightarrow> sure G (f a)) \<Longrightarrow> sure G (ebind m f)"
  unfolding sure_def
proof
  fix w
  assume m: "\<forall>w. \<exists>a w'. m w = (Inr a, w') \<and> H a" and f: "\<And>a. H a \<Longrightarrow> \<forall>w. \<exists>b w'. f a w = (Inr b, w') \<and> G b"
  from m obtain a w1 where "m w = (Inr a, w1)" "H a" by blast
  moreover from f [OF this(2)] obtain b w2 where "f a w1 = (Inr b, w2)" "G b" by blast
  ultimately show "\<exists>b w'. ebind m f w = (Inr b, w') \<and> G b" by (simp add: ebind_def)
qed

lemma sure_eseq: "sure (\<lambda>_. True) m \<Longrightarrow> sure G k \<Longrightarrow> sure G (eseq m k)"
  by (simp add: eseq_def sure_ebind)


abbreviation answers :: "'a eng \<Rightarrow> bool" where
  "answers \<equiv> sure (\<lambda>a. True)"

lemma sure_if: "(b \<Longrightarrow> sure G m) \<Longrightarrow> (\<not> b \<Longrightarrow> sure G k) \<Longrightarrow> sure G (if b then m else k)"
  by simp

lemma sure_case:
  "(x = None \<Longrightarrow> sure G m) \<Longrightarrow> (\<And>y. x = Some y \<Longrightarrow> sure G (f y)) \<Longrightarrow>
    sure G (case x of None \<Rightarrow> m | Some y \<Rightarrow> f y)"
  by (simp split: option.split)

lemma benign_ops:
  assumes b: "benign E"
  shows "answers (emit E ev)" and "answers (emit_now E g)" and "answers (now E)" and "answers (elapsed E t)"
    and "sure (\<lambda>c. \<not> c) (is_cancelled E)" and "answers (finish_session E st)"
    and "answers (note_started E P t)" and "answers (prepare_workspace_if_configured E)"
    and "sure (\<lambda>r. r = Inr ()) (ensure_container_workspace E)" and "answers (finalise_success E)"
proof -
  note calls = sure_basic sure_if sure_case sure_eseq sure_ebind [where H = "\<lambda>a. True"]
  show emit: "answers (emit E ev)" for ev
    using b by (simp add: sure_def emit_def append_event_def benign_def)
  show emit_now: "answers (emit_now E g)" for g
    unfolding emit_now_def by (intro calls emit TrueI)
  show now: "answers (now E)" unfolding now_def by (intro calls TrueI)
  show elapsed: "answers (elapsed E t)" for t unfolding elapsed_def by (intro calls now TrueI)
  show "sure (\<lambda>c. \<not> c) (is_cancelled E)" unfolding is_cancelled_def using b by (simp add: sure_basic benign_def)
  show finish: "answers (finish_session E st)" for st
    using b by (simp add: sure_def finish_session_def benign_def Let_def)
  show "answers (note_started E P t)" unfolding note_started_def by (intro calls emit_now TrueI)
  have strategy: "answers (case e_strategy E of BHead \<Rightarrow> ret () | BMergeToHead target \<Rightarrow> emit E (f target)
      | BNamedBranch n \<Rightarrow> emit E (g n))" for f g
    by (cases "e_strategy E") (simp_all add: emit sure_ret)
  have prepared: "sure (\<lambda>r. \<exists>ws. r = Inr ws) (call fx (\<lambda>t. h_prepare (e_host E) t st))" if "e_manager E" for fx st
    using b that by (intro sure_call) (simp add: benign_def)
  show "answers (prepare_workspace_if_configured E)"
  proof (cases "e_manager E")
    case True
    show ?thesis unfolding prepare_workspace_if_configured_def Let_def
      by (intro calls emit strategy TrueI sure_ebind [OF prepared [OF True]]) (auto intro: sure_modify)
  qed (simp add: prepare_workspace_if_configured_def; intro calls TrueI)
  have sh: "sure (\<lambda>r. \<exists>out. r = Inr out \<and> sh_success out) (host_sh E cmd)" if "e_container_workspace E \<noteq> None" for cmd
    unfolding host_sh_def using b that by (intro sure_call) (simp add: benign_def)
  have copied: "sure (\<lambda>r. r = Inr ()) (copy_project_in E ws)" if "e_container_workspace E \<noteq> None" for ws
  proof -
    have copy: "sure (\<lambda>r. r = Inr ()) (call FxCopyIn (h_copy_in (e_host E)))"
      using b that by (intro sure_call) (simp add: benign_def)
    show ?thesis unfolding copy_project_in_def
      by (rule sure_ebind [OF copy]) (auto intro!: sure_ebind [OF sh [OF that]] sure_ret)
  qed
  show "sure (\<lambda>r. r = Inr ()) (ensure_container_workspace E)"
  proof (cases "e_container_workspace E")
    case None
    then show ?thesis unfolding ensure_container_workspace_def by (intro calls TrueI refl) simp_all
  next
    case (Some ws)
    then have w: "e_container_workspace E \<noteq> None" by simp
    have create: "sure (\<lambda>r. r = Inr ()) (call FxCreate (h_create (e_host E)))"
      using b w by (intro sure_call) (simp add: benign_def)
    have user: "answers (find_agent_user E u)" for u
      unfolding find_agent_user_def host_sh_def by (intro calls TrueI)
    have ready: "sure (\<lambda>r. r = Inr ()) (if c then ret (Inr ()) else copy_project_in E ws)" for c
      using copied [OF w] by (auto intro: sure_ret)
    have rest: "sure (\<lambda>r. r = Inr ()) (ebind (find_agent_user E u) (\<lambda>user. eseq (modify (h user)) (ret (Inr ()))))" for u h
      by (intro calls user TrueI refl)
    show ?thesis unfolding ensure_container_workspace_def Some option.case
      by (intro sure_ebind [OF sure_get [where G = "\<lambda>_. True"]] TrueI sure_if sure_ret refl sure_case
          sure_ebind [OF create])
        (auto intro!: sure_ebind [OF sh [OF w]] sure_ebind [OF ready] rest)
  qed
  have sync: "answers (sync_container_workspace_back E)"
  proof -
    have report: "answers (case r of Inl e \<Rightarrow> ret (SyncFailed (show_sandbox_error e))
        | Inr changes \<Rightarrow> ebind (call FxCopyOut (\<lambda>t. h_copy_out (e_host E) t changes)) (\<lambda>o'.
            ret (case o' of Inl e \<Rightarrow> SyncFailed (show_sandbox_error e) | Inr rep \<Rightarrow> Synced rep)))" for r
      by (cases r; simp only: sum.case; intro calls TrueI)
    show ?thesis unfolding sync_container_workspace_back_def destroy_by_session_def by (intro calls report TrueI)
  qed
  have fin: "answers (finalize_workspace_success_if_configured E)"
  proof (cases "e_manager E")
    case True
    then have merged: "sure (\<lambda>r. r = Inr ()) (call fx (\<lambda>t. h_finalize (e_host E) t ws))" for fx ws
      using b by (intro sure_call) (simp add: benign_def)
    have attempt: "answers (case x of None \<Rightarrow> ret () | Some (s, t) \<Rightarrow> emit E (MergeAttempted s t))" for x
      by (auto intro: sure_ret emit split: option.split)
    show ?thesis unfolding finalize_workspace_success_if_configured_def
      by (intro calls attempt sure_ebind [OF merged] TrueI) (simp add: sure_ret)
  qed (simp add: finalize_workspace_success_if_configured_def; intro calls TrueI)
  have "answers (workflow_duration E)" unfolding workflow_duration_def by (intro calls elapsed TrueI)
  then show "answers (finalise_success E)"
    unfolding finalise_success_def by (intro calls sync fin emit_now finish TrueI)
qed


lemma benign_cmd:
  assumes b: "benign E"
  shows "sure (\<lambda>o'. \<exists>snap. o' = CmdSuccess snap) (execute_cmd_with_select E s env i ctx start)"
proof -
  have race: "sure (\<lambda>r. \<exists>out. r = Done (Inr out) \<and> xo_exit out = 0) (race E timeout fx (\<lambda>t. h_exec (e_host E) t s env))"
    for timeout fx env
    unfolding race_def using b
    by (intro sure_ebind [where H = "\<lambda>a. a = ArmDone"] sure_ebind [OF benign_ops(5) [OF b]] sure_call sure_ask)
      (auto simp: benign_def)
  have result: "sure (\<lambda>o'. \<exists>snap. o' = CmdSuccess snap) (cmd_exec_result E s i ctx d (Inr out))"
    if "xo_exit out = 0" for d out
    unfolding cmd_exec_result_def Let_def sum.case
    using that by (auto simp: is_success_def intro!: sure_eseq benign_ops(2) [OF b] sure_ret)
  show ?thesis
    unfolding execute_cmd_with_select_def Let_def
    by (intro sure_ebind [OF race] sure_ebind [OF benign_ops(4) [OF b]]) (auto intro: result)
qed

lemma benign_run_next:
  assumes b: "benign E" and s: "plain_cmd E s"
  shows "sure (\<lambda>o'. o' = StepCompletedO (s_name s)) (run_next E P s)"
proof -
  obtain env where env: "prepare_step E s = Inr env" using s by (auto simp: plain_cmd_def)
  have cmd: "sure (\<lambda>o'. o' = StepCompletedO (s_name s)) (run_cmd_step E s P start i)" for start i
  proof -
    have "\<exists>s'. rendered_command E s (outputs P) = Inr s' \<and> s_name s' = s_name s"
    proof (cases "contains_template_markers (s_command s)")
      case True
      then obtain cmd where "render (h_tera (e_host E)) (s_command s) (top_context E (outputs P)) = Inr cmd"
        using s by (auto simp: plain_cmd_def)
      then show ?thesis by (simp add: rendered_command_def True)
    qed (simp add: rendered_command_def)
    then obtain s' where s': "rendered_command E s (outputs P) = Inr s'" "s_name s' = s_name s" by blast
    show ?thesis
      unfolding run_cmd_step_def env s' sum.case
      by (rule sure_ebind [OF benign_cmd [OF b]]) (auto simp: s'(2) intro: sure_ret)
  qed
  have "sure (\<lambda>o'. o' = StepCompletedO (s_name s)) (dispatch E s P start)" for start
    using s cmd by (simp add: dispatch_def plain_cmd_def Let_def)
  moreover have "s_kind s = KCmd" using s by (simp add: plain_cmd_def)
  ultimately show ?thesis
    unfolding run_next_def
    by (intro sure_ebind [OF benign_ops(3) [OF b]] sure_ebind [OF benign_ops(7) [OF b]]
        sure_eseq sure_if benign_ops(8) [OF b])
      (auto intro!: sure_ret sure_ebind [OF benign_ops(9) [OF b]] sure_eseq benign_ops(2) [OF b]
        sure_ebind [OF benign_ops(5) [OF b]])
qed

lemma benign_progress:
  assumes "benign E" "compute_progress (wlog w) = Inr P"
  shows "progress_from_log E w = (Inr P, w\<lparr>wtick := Suc (wtick w)\<rparr>)"
  using assms by (simp add: progress_from_log_def from_log_def replay_def ebind_def ask_def get_def
      lift_result_def replied_def benign_def)

lemma sureD: "sure G m \<Longrightarrow> \<exists>a w'. m w = (Inr a, w') \<and> G a"
  by (simp add: sure_def)

lemma benign_step:
  assumes b: "benign E" and s: "\<And>s. s \<in> set (steps_of E) \<Longrightarrow> plain_cmd E s"
    and P: "compute_progress (wlog w) = Inr P" and f: "\<not> any_failed (wlog w)"
  shows "if may_run E (wlog w) then \<exists>w'. step E w = (Inr (StepCompletedO (next_name E (wlog w))), w')
    else \<exists>w'. step E w = (Inr WorkflowCompletedO, w')"
proof -
  note c = compute_progress_counts [OF P]
  let ?s = "w_steps (e_workflow E) ! completed_steps P" and ?w = "w\<lparr>wtick := Suc (wtick w)\<rparr>"
  have n: "s_name ?s = next_name E (wlog w)" using c by (simp add: next_name_def steps_of_def)
  have nf: "\<not> has_failure P" using c f by simp
  have run: "step E w = (if workflow_completed P \<or> length (w_steps (e_workflow E)) \<le> completed_steps P
      then eseq (finalise_success E) (ret WorkflowCompletedO)
      else ebind (is_cancelled E) (\<lambda>c. if c then cancel_at_boundary E P ?s else run_next E P ?s)) ?w"
    unfolding step_def ebind_def [of "progress_from_log E"] benign_progress [OF b P]
    by (simp add: Let_def nf)
  show ?thesis
  proof (cases "may_run E (wlog w)")
    case True
    then have "plain_cmd E ?s" using s c by (auto simp: may_run_def steps_of_def)
    then have "sure (\<lambda>o'. o' = StepCompletedO (s_name ?s))
        (ebind (is_cancelled E) (\<lambda>c. if c then cancel_at_boundary E P ?s else run_next E P ?s))"
      by (intro sure_ebind [OF benign_ops(5) [OF b]]) (simp add: benign_run_next [OF b])
    from sureD [OF this, of ?w] show ?thesis using True run c n by (auto simp: may_run_def steps_of_def)
  next
    case False
    have "sure (\<lambda>o'. o' = WorkflowCompletedO) (eseq (finalise_success E) (ret WorkflowCompletedO))"
      by (intro sure_eseq benign_ops(10) [OF b] sure_ret refl)
    from sureD [OF this, of ?w] show ?thesis using False run c f by (auto simp: may_run_def steps_of_def)
  qed
qed


lemma coherent_progress: "coherent W L \<Longrightarrow> \<exists>P. compute_progress L = Inr P"
  by (rule compute_progress_total) (auto simp: coherent_def list_all_iff scan_ok_wire)

lemma benign_resume:
  assumes b: "benign E" and s: "\<And>s. s \<in> set (steps_of E) \<Longrightarrow> plain_cmd E s"
  shows "resume fuel E w = Some (r, w') \<Longrightarrow> coherent (steps_of E) (wlog w) \<Longrightarrow> \<not> settled (wlog w) \<Longrightarrow>
    r = Inr WorkflowCompletedO \<and> comp_names (wlog w') = map (\<lambda>s. Some (s_name s)) (steps_of E)"
proof (induction fuel arbitrary: w)
  case (Suc fuel)
  obtain P where P: "compute_progress (wlog w) = Inr P" using coherent_progress Suc.prems(2) by blast
  have f: "\<not> any_failed (wlog w)" "\<not> any_done (wlog w)" using Suc.prems(3) by (auto simp: settled_def)
  note go = benign_step [OF b s P f(1)]
  show ?case
  proof (cases "may_run E (wlog w)")
    case True
    with go obtain w1 where w1: "step E w = (Inr (StepCompletedO (next_name E (wlog w))), w1)" by auto
    have "coherent (steps_of E) (wlog w1)" using Suc.prems(2) w1 by (rule coherent_step)
    moreover have "\<not> settled (wlog w1)"
      using step_completes [OF w1] step_completed [OF w1] by (auto dest: comp_names_same)
    ultimately show ?thesis using Suc.IH Suc.prems(1) resume_Suc [OF w1] by simp
  next
    case False
    with go obtain w1 where w1: "step E w = (Inr WorkflowCompletedO, w1)" by auto
    with Suc.prems(1) have r: "r = Inr WorkflowCompletedO" "w' = w1" by simp_all
    have "comp_names (wlog w1) = comp_names (wlog w)"
      using step_verdict [where E = E and w = w] w1 by simp
    moreover have "length (steps_of E) \<le> n_completed (wlog w)" using False f by (simp add: may_run_def)
    ultimately show ?thesis using r Suc.prems(2) by (simp add: coherent_def)
  qed
qed simp



section \<open>An instance\<close>

text \<open>A workflow of two commands on a benign host, for the witnesses.\<close>

definition demo_host :: Host where
  "demo_host = \<lparr>h_clock = (\<lambda>t. t), h_utc = (\<lambda>t. ''2026-01-01T00:00:00Z''), h_cancel_at = None,
    h_signal = None, h_db = (\<lambda>t. Commits), h_env = (\<lambda>k. VarAbsent), h_tera = (\<lambda>tpl ctx. Inl []),
    h_rhai = (\<lambda>vars src. Inr DUnit),
    h_exec = (\<lambda>t s env. Inr \<lparr>xo_stdout = s_command s, xo_stderr = [], xo_exit = 0\<rparr>),
    h_first = (\<lambda>t. ArmDone), h_handle = None, h_create = (\<lambda>t. Inr ()),
    h_sh = (\<lambda>t s. Inr \<lparr>sh_success = True, sh_stderr = []\<rparr>), h_copy_in = (\<lambda>t. Inr ()),
    h_changed = (\<lambda>t. Inr []), h_copy_out = (\<lambda>t cs. Inr \<lparr>co_copied = [], co_deleted = [], co_skipped = []\<rparr>),
    h_prepare = (\<lambda>t st. Inl (WorkspaceIo [])), h_finalize = (\<lambda>t ws. Inr ()),
    h_canon = (\<lambda>t p. Inl []), h_read = (\<lambda>t p. Inl []), h_json = (\<lambda>s. None), h_json_text = (\<lambda>j. []),
    h_joins = (\<lambda>t. []), h_late = (\<lambda>t i. False),
    h_spawn = (\<lambda>t prog args env inp. \<lparr>cr_spawn = None, cr_stdin = None, cr_lines = [], cr_wait = Inr (True, Some 0)\<rparr>),
    h_chat = (\<lambda>t req. Inl (EmptyResponse []))\<rparr>"

definition demo_steps :: "Step list" where
  "demo_steps = [(empty_step ''build'' KCmd)\<lparr>s_command := ''make''\<rparr>,
    (empty_step ''test'' KCmd)\<lparr>s_command := ''make test''\<rparr>]"

definition demo_engine :: Engine where
  "demo_engine = \<lparr>e_host = demo_host, e_session = ''s1'', e_workflow = new_workflow ''demo'' demo_steps,
    e_defaults = [], e_target = [], e_vars = [], e_proxy = None, e_container_workspace = None,
    e_chat_client = False, e_manager = False, e_strategy = BHead, e_workspace_path = None\<rparr>"

lemma demo_benign: "benign demo_engine"
  by (simp add: benign_def demo_engine_def demo_host_def)

lemma demo_steps_of [simp]: "steps_of demo_engine = demo_steps"
  by (simp add: steps_of_def demo_engine_def new_workflow_def)

lemma demo_plain: "\<forall>s \<in> set demo_steps. plain_cmd demo_engine s"
  by (simp add: demo_steps_def plain_cmd_def prepare_step_def demo_engine_def new_workflow_def empty_step_def
      contains_template_markers_def resolve_env_def str_contains_def env_extend_def
      starts_with_def)

text \<open>The same with a worktree of its own, whose preparation and merge succeed.\<close>

definition worktree_engine :: Engine where
  "worktree_engine = demo_engine\<lparr>e_manager := True, e_host := demo_host\<lparr>h_prepare := (\<lambda>t st.
     Inr \<lparr>ws_path = ''/w'', ws_branch = None, ws_merge_target = None\<rparr>)\<rparr>\<rparr>"

lemma worktree_benign: "benign worktree_engine"
  by (simp add: benign_def worktree_engine_def demo_engine_def demo_host_def)

lemma worktree_steps_of [simp]: "steps_of worktree_engine = demo_steps"
  by (simp add: steps_of_def worktree_engine_def demo_engine_def new_workflow_def)

lemma worktree_plain: "\<forall>s \<in> set demo_steps. plain_cmd worktree_engine s"
  using demo_plain by (simp add: plain_cmd_def prepare_step_def worktree_engine_def demo_engine_def demo_host_def)



text \<open>A process that dies after the first event of the demo.\<close>

definition crashed :: World where
  "crashed = fresh_handle (new_session\<lparr>wlog := take 1 (wlog (snd (step demo_engine new_session))), wtick := 7\<rparr>)"

lemma live_crashed: "live demo_steps crashed"
proof -
  obtain r w' where s: "step demo_engine new_session = (r, w')" by fastforce
  have "live demo_steps (fresh_handle (new_session\<lparr>wlog := take 1 (wlog w'), wdb := wdb new_session,
      wtrace := wtrace new_session, wtick := 7\<rparr>))"
    by (rule live_crash [OF live_new _ s]) (simp_all add: new_session_def take_is_prefix)
  moreover have "new_session\<lparr>wlog := L, wdb := wdb new_session, wtrace := wtrace new_session, wtick := 7\<rparr> =
      new_session\<lparr>wlog := L, wtick := 7\<rparr>" for L
    by (simp add: new_session_def)
  ultimately show ?thesis by (simp add: crashed_def s)
qed

theorem completions_exactly_once_witness:
  "\<exists>P. compute_progress (wlog crashed) = Inr P \<and> completed_steps P \<le> 2 \<and>
    comp_names (wlog crashed) = map (\<lambda>s. Some (s_name s)) (take (completed_steps P) demo_steps)"
  using completions_exactly_once [OF live_crashed] by (simp add: demo_steps_def eval_nat_numeral)

text \<open>A command that fails, and a process that resumes the session where it succeeds.\<close>

definition failing_engine :: Engine where
  "failing_engine = demo_engine\<lparr>e_host := demo_host\<lparr>h_exec := (\<lambda>t s env.
     Inr \<lparr>xo_stdout = [], xo_stderr = ''no rule to make target'', xo_exit = 2\<rparr>)\<rparr>\<rparr>"

definition failed_world :: World where
  "failed_world = snd (step failing_engine new_session)"

lemma failing_step: "\<exists>err. fst (step failing_engine new_session) = Inr (StepFailedO ''build'' err)"
  by (simp add: failing_engine_def demo_engine_def demo_host_def new_session_def step_def new_workflow_def progress_from_log_def
      from_log_def replay_def ebind_def eseq_def ask_def get_def lift_result_def replied_def compute_progress_def
      scan0_def progress_of_def is_cancelled_def run_next_def now_def note_started_def prepare_workspace_if_configured_def
      ensure_container_workspace_def emit_now_def emit_def append_event_def ret_def Let_def demo_steps_def empty_step_def
      dispatch_def run_cmd_step_def prepare_step_def resolve_env_def env_extend_def rendered_command_def
      contains_template_markers_def str_contains_def starts_with_def execute_cmd_with_select_def race_def call_def
      elapsed_def cmd_exec_result_def is_success_def emit_failed_def finalise_fail_def sync_container_workspace_back_def
      modify_def finish_session_def sandbox_env_for_exec_def)


end
