(* ===== verification/SqliteStore.thy ===== *)
theory SqliteStore
  imports SessionLog
begin

text \<open>
  The SQLite store, \<open>crates/stepyard-session/src/sqlite_store.rs\<close>: the tables of the Postgres store
  with ids and payloads as text. \<open>Uuid\<close>'s and \<open>serde_json\<close>'s conversions and SQLite's messages are
  parameters. Every operation is the Postgres one on the encoded tables, for a column that keeps
  payloads as they are.
\<close>

section \<open>Rows\<close>

record SqSessionRow =
  sq_id :: string
  sq_workflow_id :: string
  sq_tenant_id :: string
  sq_status :: string
  sq_started_at :: timestamp
  sq_ended_at :: "timestamp option"

record SqEventRow =
  sqe_id :: string
  sqe_session :: string
  sqe_seq :: int
  sqe_created_at :: timestamp
  sqe_payload :: string

record SqDb =
  sq_sessions :: "SqSessionRow list"
  sq_events :: "SqEventRow list"
  sq_violation :: "Violation \<Rightarrow> string"

text \<open>\<open>Uuid::to_string\<close>, \<open>Uuid::parse_str\<close>, \<open>serde_json::to_string\<close>, \<open>serde_json::from_str\<close>.\<close>

record Codec =
  uuid_text :: "uuid \<Rightarrow> string"
  uuid_parse :: "string \<Rightarrow> (string, uuid) result"
  json_write :: "json \<Rightarrow> (string, string) result"
  json_read :: "string \<Rightarrow> (string, json) result"

definition parse_uuid :: "Codec \<Rightarrow> string \<Rightarrow> (SessionError, uuid) result" where
  "parse_uuid C raw =
    map_err (\<lambda>e. SessionInvalidState (''invalid uuid `'' @ raw @ ''`: '' @ e)) (uuid_parse C raw)"

definition sq_meta_from_row :: "Codec \<Rightarrow> SqSessionRow \<Rightarrow> (SessionError, SessionMeta) result" where
  "sq_meta_from_row C r =
    res_bind (parse_uuid C (sq_id r)) (\<lambda>i.
    res_bind (parse_uuid C (sq_workflow_id r)) (\<lambda>w.
    res_bind (status_from_db (sq_status r)) (\<lambda>st. Inr
      \<lparr>meta_id = i, meta_workflow_id = w, meta_tenant_id = sq_tenant_id r,
       meta_status = st, meta_started_at = sq_started_at r, meta_ended_at = sq_ended_at r\<rparr>)))"

definition sq_event_from_row :: "Codec \<Rightarrow> SqEventRow \<Rightarrow> (SessionError, SessionEvent) result" where
  "sq_event_from_row C r =
    res_bind (parse_uuid C (sqe_id r)) (\<lambda>i.
    res_bind (parse_uuid C (sqe_session r)) (\<lambda>s.
    res_bind (map_err Payload (json_read C (sqe_payload r))) (\<lambda>p. Inr
      \<lparr>se_id = i, se_session = s, seq = sqe_seq r, created_at = sqe_created_at r, payload = p\<rparr>)))"

section \<open>Operations\<close>

definition sq_create_session ::
  "Codec \<Rightarrow> SqDb \<Rightarrow> uuid \<Rightarrow> uuid \<Rightarrow> string \<Rightarrow> timestamp \<Rightarrow> db_reply \<Rightarrow> (SessionError, SessionMeta) result \<times> SqDb" where
  "sq_create_session C db new_id workflow tenant now reply =
    (if uuid_text C new_id \<in> sq_id ` set (sq_sessions db) then (Inl (Database (sq_violation db DuplicateId)), db)
     else
       (let row = \<lparr>sq_id = uuid_text C new_id, sq_workflow_id = uuid_text C workflow, sq_tenant_id = tenant,
                   sq_status = ''running'', sq_started_at = now, sq_ended_at = None\<rparr> in
        (case commit reply row db (db\<lparr>sq_sessions := sq_sessions db @ [row]\<rparr>) of
           (Inl e, db') \<Rightarrow> (Inl e, db')
         | (Inr r, db') \<Rightarrow> (sq_meta_from_row C r, db'))))"

definition sq_find_session :: "SqDb \<Rightarrow> string \<Rightarrow> SqSessionRow option" where
  "sq_find_session db sid = find (\<lambda>r. sq_id r = sid) (sq_sessions db)"

definition sq_load_session_meta :: "Codec \<Rightarrow> SqDb \<Rightarrow> uuid \<Rightarrow> db_reply \<Rightarrow> (SessionError, SessionMeta) result" where
  "sq_load_session_meta C db sid reply =
    (case fst (commit reply (sq_find_session db (uuid_text C sid)) db db) of
       Inl e \<Rightarrow> Inl e
     | Inr None \<Rightarrow> Inl (NotFound sid)
     | Inr (Some r) \<Rightarrow> sq_meta_from_row C r)"

definition sq_events_of :: "SqDb \<Rightarrow> string \<Rightarrow> SqEventRow list" where
  "sq_events_of db sid = filter (\<lambda>r. sqe_session r = sid) (sq_events db)"

definition sq_next_seq :: "SqDb \<Rightarrow> string \<Rightarrow> int" where
  "sq_next_seq db sid = (if sq_events_of db sid = [] then 0 else Max (sqe_seq ` set (sq_events_of db sid))) + 1"

text \<open>
  The payload is written before the row is inserted; the row is read back after the commit, so a
  row that does not read back is an error of an event that is stored. A sequence number beyond the
  64 bit range is no integer for SQLite and the \<open>RETURNING\<close> clause does not decode.
\<close>

definition sq_append ::
  "Codec \<Rightarrow> SqDb \<Rightarrow> uuid \<Rightarrow> json \<Rightarrow> uuid \<Rightarrow> timestamp \<Rightarrow> db_reply \<Rightarrow> (SessionError, SessionEvent) result \<times> SqDb" where
  "sq_append C db sid p new_id now reply =
    (case json_write C p of
       Inl e \<Rightarrow> (Inl (Payload e), db)
     | Inr txt \<Rightarrow>
       if sq_find_session db (uuid_text C sid) = None then (Inl (Database (sq_violation db ForeignKey)), db)
       else if uuid_text C new_id \<in> sqe_id ` set (sq_events db) then (Inl (Database (sq_violation db DuplicateId)), db)
       else if sq_next_seq db (uuid_text C sid) \<ge> 2 ^ 63 then (Inl (Database (sq_violation db SeqOutOfRange)), db)
       else
         (let row = \<lparr>sqe_id = uuid_text C new_id, sqe_session = uuid_text C sid,
                     sqe_seq = sq_next_seq db (uuid_text C sid), sqe_created_at = now, sqe_payload = txt\<rparr> in
          (case commit reply row db (db\<lparr>sq_events := sq_events db @ [row]\<rparr>) of
             (Inl e, db') \<Rightarrow> (Inl e, db')
           | (Inr r, db') \<Rightarrow> (sq_event_from_row C r, db'))))"

fun collect_results :: "('e, 'a) result list \<Rightarrow> ('e, 'a list) result" where
  "collect_results [] = Inr []"
| "collect_results (r # rs) = res_bind r (\<lambda>a. res_bind (collect_results rs) (\<lambda>as. Inr (a # as)))"

definition sq_replay :: "Codec \<Rightarrow> SqDb \<Rightarrow> uuid \<Rightarrow> db_reply \<Rightarrow> (SessionError, SessionEvent list) result" where
  "sq_replay C db sid reply =
    (case fst (commit reply (sort_key sqe_seq (sq_events_of db (uuid_text C sid))) db db) of
       Inl e \<Rightarrow> Inl e
     | Inr rows \<Rightarrow> collect_results (map (sq_event_from_row C) rows))"

definition sq_finish_session ::
  "Codec \<Rightarrow> SqDb \<Rightarrow> uuid \<Rightarrow> SessionStatus \<Rightarrow> timestamp \<Rightarrow> db_reply \<Rightarrow>
    (SessionError, (SessionStatus \<times> timestamp option) option) result \<times> SqDb" where
  "sq_finish_session C db sid st now reply =
    (let hit = (\<lambda>r. sq_id r = uuid_text C sid \<and> sq_status r = ''running'');
         upd = (\<lambda>r. r\<lparr>sq_status := status_str st, sq_ended_at := Some now\<rparr>);
         returned = find hit (sq_sessions db);
         db2 = db\<lparr>sq_sessions := map (\<lambda>r. if hit r then upd r else r) (sq_sessions db)\<rparr> in
     (case commit reply (map_option upd returned) db db2 of
        (Inl e, db') \<Rightarrow> (Inl e, db')
      | (Inr None, db') \<Rightarrow> (Inr None, db')
      | (Inr (Some r), db') \<Rightarrow>
        (res_bind (status_from_db (sq_status r)) (\<lambda>s. Inr (Some (s, sq_ended_at r))), db')))"

section \<open>The encoding of the Postgres tables\<close>

definition enc_session :: "Codec \<Rightarrow> SessionRow \<Rightarrow> SqSessionRow" where
  "enc_session C r = \<lparr>sq_id = uuid_text C (row_id r), sq_workflow_id = uuid_text C (row_workflow_id r),
    sq_tenant_id = row_tenant_id r, sq_status = row_status r, sq_started_at = row_started_at r,
    sq_ended_at = row_ended_at r\<rparr>"

definition written :: "Codec \<Rightarrow> json \<Rightarrow> string" where
  "written C p = (case json_write C p of Inl e \<Rightarrow> [] | Inr t \<Rightarrow> t)"

definition enc_event :: "Codec \<Rightarrow> EventRow \<Rightarrow> SqEventRow" where
  "enc_event C r = \<lparr>sqe_id = uuid_text C (ev_id r), sqe_session = uuid_text C (ev_session r),
    sqe_seq = ev_seq r, sqe_created_at = ev_created_at r, sqe_payload = written C (ev_payload r)\<rparr>"

definition enc_db :: "Codec \<Rightarrow> (Violation \<Rightarrow> string) \<Rightarrow> Db \<Rightarrow> SqDb" where
  "enc_db C says db = \<lparr>sq_sessions = map (enc_session C) (sessions db), sq_events = map (enc_event C) (session_events db),
    sq_violation = says\<rparr>"

text \<open>
  The documented behaviour of the conversions: the text of a uuid parses to the uuid; and a payload
  that \<open>serde_json\<close> writes and reads back unchanged (all but some floating point numbers).
\<close>

definition uuid_codec :: "Codec \<Rightarrow> bool" where
  "uuid_codec C \<longleftrightarrow> (\<forall>u. uuid_parse C (uuid_text C u) = Inr u)"

definition faithful :: "Codec \<Rightarrow> json \<Rightarrow> bool" where
  "faithful C p \<longleftrightarrow> (case json_write C p of Inl e \<Rightarrow> False | Inr t \<Rightarrow> json_read C t = Inr p)"

definition enc_ok :: "Codec \<Rightarrow> Db \<Rightarrow> bool" where
  "enc_ok C db \<longleftrightarrow> list_all (\<lambda>r. faithful C (ev_payload r)) (session_events db)"

lemma uuid_text_inject: "uuid_codec C \<Longrightarrow> uuid_text C a = uuid_text C b \<longleftrightarrow> a = b"
  unfolding uuid_codec_def by (metis sum.inject(2))

lemma enc_simps [simp]:
  "sq_id (enc_session C r) = uuid_text C (row_id r)" "sq_status (enc_session C r) = row_status r"
  "sqe_id (enc_event C e) = uuid_text C (ev_id e)" "sqe_session (enc_event C e) = uuid_text C (ev_session e)"
  "sqe_seq (enc_event C e) = ev_seq e"
  by (simp_all add: enc_session_def enc_event_def)

lemma find_map: "find P (map f xs) = map_option f (find (P \<circ> f) xs)"
  by (induction xs) auto

lemma sort_key_map: "(\<And>x. k (f x) = k' x) \<Longrightarrow> sort_key k (map f xs) = map f (sort_key k' xs)"
proof (induction xs)
  case (Cons x xs)
  have "insort_key k (f x) (map f ys) = map f (insort_key k' x ys)" for ys
    using Cons.prems by (induction ys) auto
  with Cons show ?case by simp
qed simp

text \<open>The reads of the encoded tables are those of the tables.\<close>

lemma parse_uuid_text: "uuid_codec C \<Longrightarrow> parse_uuid C (uuid_text C u) = Inr u"
  by (simp add: parse_uuid_def uuid_codec_def)

lemma enc_find: "uuid_codec C \<Longrightarrow>
    sq_find_session (enc_db C says db) (uuid_text C s) = map_option (enc_session C) (find_session db s)"
  by (simp add: sq_find_session_def find_session_def enc_db_def find_map comp_def uuid_text_inject)

lemma enc_events: "uuid_codec C \<Longrightarrow>
    sq_events_of (enc_db C says db) (uuid_text C s) = map (enc_event C) (events_of db s)"
  by (simp add: sq_events_of_def events_of_def enc_db_def filter_map comp_def uuid_text_inject)

lemma enc_next_seq: "uuid_codec C \<Longrightarrow> sq_next_seq (enc_db C says db) (uuid_text C s) = next_seq db s"
  by (simp add: sq_next_seq_def next_seq_def enc_events image_image)

lemma enc_meta: "uuid_codec C \<Longrightarrow> sq_meta_from_row C (enc_session C r) = meta_from_row r"
  by (simp add: sq_meta_from_row_def meta_from_row_def enc_session_def parse_uuid_text)

lemma enc_event_row: "uuid_codec C \<Longrightarrow> faithful C (ev_payload r) \<Longrightarrow>
    sq_event_from_row C (enc_event C r) = Inr (event_from_row r)"
  by (auto simp: sq_event_from_row_def event_from_row_def enc_event_def parse_uuid_text faithful_def
      written_def split: sum.splits)

lemma collect_encoded: "uuid_codec C \<Longrightarrow> list_all (\<lambda>r. faithful C (ev_payload r)) rows \<Longrightarrow>
    collect_results (map (sq_event_from_row C) (map (enc_event C) rows)) = Inr (map event_from_row rows)"
  by (induction rows) (simp_all add: enc_event_row)

lemma enc_id_mem:
  assumes "uuid_codec C"
  shows "uuid_text C i \<in> sq_id ` set (sq_sessions (enc_db C says db)) \<longleftrightarrow> i \<in> row_id ` set (sessions db)"
    "uuid_text C i \<in> sqe_id ` set (sq_events (enc_db C says db)) \<longleftrightarrow> i \<in> ev_id ` set (session_events db)"
  by (force simp: enc_db_def uuid_text_inject [OF assms])+

section \<open>Refinement\<close>

text \<open>
  Answers that agree: both a success with the same value, the same error of the store's own, or both
  an error of the database, each in its own words; and a statement's effect on both stores.
\<close>

definition agree :: "(SessionError, 'a) result \<Rightarrow> (SessionError, 'a) result \<Rightarrow> bool" where
  "agree r r' \<longleftrightarrow> r = r' \<or> (\<exists>m m'. r = Inl (Database m) \<and> r' = Inl (Database m'))"

definition alike ::
  "Codec \<Rightarrow> (Violation \<Rightarrow> string) \<Rightarrow> (SessionError, 'a) result \<times> SqDb \<Rightarrow> (SessionError, 'a) result \<times> Db \<Rightarrow> bool" where
  "alike C says a b \<longleftrightarrow> agree (fst a) (fst b) \<and> snd a = enc_db C says (snd b)"

text \<open>The same tables behind a column that keeps payloads as they are.\<close>

abbreviation verbatim :: "Db \<Rightarrow> Db" where
  "verbatim db \<equiv> db\<lparr>jsonb := Inr\<rparr>"

lemma verbatim_simps [simp]:
  "enc_db C says (verbatim db) = enc_db C says db" "find_session (verbatim db) s = find_session db s"
  "next_seq (verbatim db) s = next_seq db s"
  by (simp_all add: enc_db_def find_session_def next_seq_def events_of_def)

lemma enc_append:
  assumes "uuid_codec C" "faithful C p"
  shows "alike C says (sq_append C (enc_db C says db) s p i now reply) (pg_append (verbatim db) s p i now reply)"
proof -
  obtain t where t: "json_write C p = Inr t" "json_read C t = Inr p"
    using assms(2) by (auto simp: faithful_def split: sum.splits)
  let ?row = "\<lparr>ev_id = i, ev_session = s, ev_seq = next_seq db s, ev_created_at = now, ev_payload = p\<rparr>"
  let ?sq = "\<lparr>sqe_id = uuid_text C i, sqe_session = uuid_text C s, sqe_seq = next_seq db s,
    sqe_created_at = now, sqe_payload = t\<rparr>"
  have row: "enc_event C ?row = ?sq" using t by (simp add: enc_event_def written_def)
  have read: "sq_event_from_row C ?sq = Inr (event_from_row ?row)"
    using enc_event_row [OF assms(1), of ?row] assms(2) row by simp
  have add: "enc_db C says (verbatim db\<lparr>session_events := session_events db @ [?row]\<rparr>) =
      (enc_db C says db)\<lparr>sq_events := sq_events (enc_db C says db) @ [?sq]\<rparr>"
    using row by (simp add: enc_db_def)
  show ?thesis
    using read add
    by (cases reply) (auto simp: sq_append_def pg_append_def alike_def agree_def t enc_find [OF assms(1)]
        enc_id_mem [OF assms(1)] enc_next_seq [OF assms(1)] Let_def)
qed

lemma enc_replay:
  assumes "uuid_codec C" "enc_ok C db"
  shows "sq_replay C (enc_db C says db) s reply = pg_replay db s reply"
proof -
  have "sort_key sqe_seq (map (enc_event C) (events_of db s)) = map (enc_event C) (sort_key ev_seq (events_of db s))"
    by (rule sort_key_map) simp
  moreover have "list_all (\<lambda>r. faithful C (ev_payload r)) (sort_key ev_seq (events_of db s))"
    using assms(2) by (auto simp: enc_ok_def list_all_iff events_of_def)
  ultimately show ?thesis
    using collect_encoded [OF assms(1)]
    by (cases reply) (simp_all add: sq_replay_def pg_replay_def enc_events [OF assms(1)])
qed

lemma enc_finish:
  assumes "uuid_codec C" "pg_finish_session db s st now reply = (r, db')"
  shows "sq_finish_session C (enc_db C says db) s st now reply = (r, enc_db C says db')"
proof -
  let ?hit = "\<lambda>r. row_id r = s \<and> row_status r = ''running''"
  have find: "find (\<lambda>r. sq_id r = uuid_text C s \<and> sq_status r = ''running'') (map (enc_session C) (sessions db)) =
      map_option (enc_session C) (find ?hit (sessions db))"
    by (simp add: find_map comp_def uuid_text_inject [OF assms(1)])
  have upd: "map (\<lambda>r. if sq_id r = uuid_text C s \<and> sq_status r = ''running''
        then r\<lparr>sq_status := status_str st, sq_ended_at := Some now\<rparr> else r) (map (enc_session C) (sessions db)) =
      map (enc_session C) (map (\<lambda>r. if ?hit r then r\<lparr>row_status := status_str st, row_ended_at := Some now\<rparr> else r)
        (sessions db))"
    by (simp add: uuid_text_inject [OF assms(1)]) (simp add: enc_session_def)
  show ?thesis
    using assms(2) unfolding sq_finish_session_def pg_finish_session_def Let_def
    by (cases reply; cases "find ?hit (sessions db)")
      (auto simp: enc_db_def find upd enc_session_def simp del: map_map)
qed


lemma enc_create:
  assumes "uuid_codec C"
  shows "alike C says (sq_create_session C (enc_db C says db) i w t now reply) (pg_create_session db i w t now reply)"
proof -
  let ?row = "\<lparr>row_id = i, row_workflow_id = w, row_tenant_id = t, row_status = ''running'',
    row_started_at = now, row_ended_at = None\<rparr>"
  let ?sq = "\<lparr>sq_id = uuid_text C i, sq_workflow_id = uuid_text C w, sq_tenant_id = t,
    sq_status = ''running'', sq_started_at = now, sq_ended_at = None\<rparr>"
  have row: "enc_session C ?row = ?sq" by (simp add: enc_session_def)
  then have "sq_meta_from_row C ?sq = meta_from_row ?row" using enc_meta [OF assms, of ?row] by simp
  moreover have "enc_db C says (db\<lparr>sessions := sessions db @ [?row]\<rparr>) =
      (enc_db C says db)\<lparr>sq_sessions := sq_sessions (enc_db C says db) @ [?sq]\<rparr>"
    using row by (simp add: enc_db_def)
  ultimately show ?thesis
    by (cases reply) (simp_all add: sq_create_session_def pg_create_session_def alike_def agree_def
        enc_id_mem [OF assms] Let_def)
qed

lemma enc_load:
  "uuid_codec C \<Longrightarrow> sq_load_session_meta C (enc_db C says db) s reply = pg_load_session_meta db s reply"
  by (cases reply; cases "find_session db s")
    (simp_all add: sq_load_session_meta_def pg_load_session_meta_def enc_find enc_meta)

lemma enc_ok_append: "enc_ok C db \<Longrightarrow> faithful C p \<Longrightarrow> enc_ok C (snd (pg_append (verbatim db) s p i now reply))"
  by (cases reply) (auto simp: pg_append_def enc_ok_def Let_def)

text \<open>The Postgres store, by what its column makes of the payload.\<close>

lemma append_by_column:
  "case jsonb db p of
     Inl m \<Rightarrow> pg_append db s p i now reply = (Inl (Database m), db)
   | Inr v \<Rightarrow> fst (pg_append db s p i now reply) = fst (pg_append (verbatim db) s v i now reply) \<and>
       verbatim (snd (pg_append db s p i now reply)) = snd (pg_append (verbatim db) s v i now reply)"
proof -
  have "find_session (verbatim db) s = find_session db s" "next_seq (verbatim db) s = next_seq db s" by simp_all
  then show ?thesis
    by (cases reply) (auto simp: pg_append_def Let_def split: sum.split)
qed


text \<open>A NUL in the payload, with a column that refuses it.\<close>

definition strict_db :: Db where
  "strict_db = (tables [\<lparr>row_id = ''s'', row_workflow_id = [], row_tenant_id = [],
      row_status = ''running'', row_started_at = [], row_ended_at = None\<rparr>] [])
    \<lparr>jsonb := (\<lambda>p. if p = JStr [CHR 0x00] then Inl ''unsupported Unicode escape sequence'' else Inr p)\<rparr>"

definition plain_codec :: Codec where
  "plain_codec = \<lparr>uuid_text = (\<lambda>u. u), uuid_parse = Inr, json_write = (\<lambda>j. Inr (case j of JStr t \<Rightarrow> t | _ \<Rightarrow> [])),
     json_read = (\<lambda>t. Inr (JStr t))\<rparr>"


end
