(* ===== verification/EngineStore.thy ===== *)
theory EngineStore
  imports Lifecycle SqliteStore
begin

text \<open>
  The engine on its store: the session the engine's operations see (a log, a row status, the status
  of the handle) is the abstraction of the tables, and the engine's three calls of the store are
  simulated by the store's own operations, whatever the fate of each statement.
\<close>

text \<open>The tables hold what the engine's world says of the session.\<close>

definition holds :: "Db \<Rightarrow> Session \<Rightarrow> World \<Rightarrow> bool" where
  "holds db s w \<longleftrightarrow> pg_ok db \<and> pg_log db (session_id s) = wlog w \<and>
     pg_stat db (session_id s) = Some (wdb w) \<and> status s = wstatus w"

abbreviation fate :: "Engine \<Rightarrow> World \<Rightarrow> db_reply" where
  "fate E w \<equiv> h_db (e_host E) (wtick w)"

text \<open>
  The engine's log holds payloads as they were given. That is the column's view of a payload it reads
  back unchanged; a payload it refuses is a statement that fails before its commit.
\<close>

definition column_fits :: "Db \<Rightarrow> json \<Rightarrow> db_reply \<Rightarrow> bool" where
  "column_fits db p reply \<longleftrightarrow> (case jsonb db p of Inl m \<Rightarrow> reply = FailsBefore m | Inr v \<Rightarrow> v = p)"

text \<open>What the engine makes of the store's answer.\<close>

definition engine_result :: "(SessionError, 'a) result \<Rightarrow> (EngineError, unit) result" where
  "engine_result r = (case r of Inl e \<Rightarrow> Inl (Session e) | Inr _ \<Rightarrow> Inr ())"

lemma holds_session: "holds db s w \<Longrightarrow> find_session db (session_id s) \<noteq> None"
  by (auto simp: holds_def pg_stat_def bind_eq_Some_conv)

lemma append_simulates:
  assumes h: "holds db s w" and i: "i \<notin> ev_id ` set (session_events db)" and n: "length (wlog w) < 2 ^ 63 - 1"
    and f: "column_fits db p (fate E w)" and r: "pg_append db (session_id s) p i at (fate E w) = (r, db')"
  shows "\<exists>w'. append_event E p w = (engine_result r, w') \<and> holds db' s w'"
proof -
  have ok: "pg_ok db" using h by (simp add: holds_def)
  have len: "length (events_of db (session_id s)) = length (wlog w)"
    using h by (auto simp: holds_def pg_log_def dest: arg_cong [where f = length])
  have "\<not> next_seq db (session_id s) \<ge> 2 ^ 63"
    using n by (simp add: next_seq_ok [OF ok] len)
  then have commits: "pg_append db (session_id s) p i at (fate E w) =
      (let row = \<lparr>ev_id = i, ev_session = session_id s, ev_seq = next_seq db (session_id s),
         ev_created_at = at, ev_payload = p\<rparr> in
       commit (fate E w) (event_from_row row) db (db\<lparr>session_events := session_events db @ [row]\<rparr>))"
    using holds_session [OF h] i f by (auto simp: pg_append_def column_fits_def Let_def split: sum.splits)
  have post: "pg_ok db'" "pg_stat db' = pg_stat db"
    using pg_append_ok [OF ok r] by blast+
  have log: "pg_log db' (session_id s) = (case fate E w of FailsBefore m \<Rightarrow> wlog w | _ \<Rightarrow> wlog w @ [p])"
    using r h unfolding commits by (cases "fate E w") (auto simp: Let_def pg_log_def events_of_def holds_def)
  have answer: "engine_result r = (case fate E w of Commits \<Rightarrow> Inr () | FailsBefore m \<Rightarrow> Inl (Session (Database m))
      | FailsAfter m \<Rightarrow> Inl (Session (Database m)))"
    using r unfolding commits by (cases "fate E w") (auto simp: Let_def engine_result_def)
  have "append_event E p w = (engine_result r, w\<lparr>wlog := pg_log db' (session_id s), wtick := Suc (wtick w)\<rparr>)"
    unfolding append_event_def answer log by (cases "fate E w") simp_all
  moreover have "holds db' s (w\<lparr>wlog := pg_log db' (session_id s), wtick := Suc (wtick w)\<rparr>)"
    using h post by (simp add: holds_def)
  ultimately show ?thesis by blast
qed

lemma replay_simulates:
  assumes h: "holds db s w"
  shows "\<exists>w'. holds db s w' \<and> replay E w =
    (case pg_replay db (session_id s) (fate E w) of
       Inl e \<Rightarrow> Inl (Session e) | Inr evs \<Rightarrow> Inr (map payload evs), w')"
proof (intro exI conjI)
  show "holds db s (w\<lparr>wtick := Suc (wtick w)\<rparr>)" using h by (simp add: holds_def)
  have "map payload evs = wlog w" if "pg_replay db (session_id s) (fate E w) = Inr evs" for evs
    using pg_replay_ok(1) [OF _ that] h by (simp add: holds_def)
  then show "replay E w = (case pg_replay db (session_id s) (fate E w) of
       Inl e \<Rightarrow> Inl (Session e) | Inr evs \<Rightarrow> Inr (map payload evs), w\<lparr>wtick := Suc (wtick w)\<rparr>)"
    by (cases "fate E w") (auto simp: replay_def ebind_def ask_def get_def throw_def replied_def pg_replay_def)
qed

lemma running_row:
  assumes "pg_ok db"
  shows "find (\<lambda>r. row_id r = s \<and> row_status r = ''running'') (sessions db) =
    (if pg_stat db s = Some Running then find_session db s else None)"
proof -
  have d: "distinct (map row_id (sessions db))" using assms by (simp add: pg_ok_def)
  show ?thesis
  proof (cases "find_session db s")
    case None
    then show ?thesis by (auto simp: pg_stat_def find_hit [OF d] find_session_def)
  next
    case (Some q)
    then have "\<exists>st. row_status q = status_str st"
      using assms by (auto simp: find_session_def find_Some_iff pg_ok_def)
    from row_stat_running [OF this] Some show ?thesis
      by (simp add: pg_stat_def find_hit [OF d] flip: find_session_def)
  qed
qed

lemma finish_simulates:
  assumes h: "holds db s w" and r: "session_finish db s st at (fate E w) = (r, s', db')"
  shows "\<exists>w'. finish_session E st w = (engine_result r, w') \<and> holds db' s' w'"
proof -
  have ok: "pg_ok db" and stat: "pg_stat db (session_id s) = Some (wdb w)" using h by (simp_all add: holds_def)
  obtain row where row: "find_session db (session_id s) = Some row" using holds_session [OF h] by blast
  obtain x db2 where x: "pg_finish_session db (session_id s) st at (fate E w) = (x, db2)" by fastforce
  note post = pg_finish_ok [OF ok x]
  have db2: "db' = db2" using r x by (auto simp: session_finish_def split: sum.splits option.splits)
  have log: "pg_log db' (session_id s) = wlog w" using post(2) h db2 by (simp add: holds_def)
  show ?thesis
  proof (cases "wdb w = Running")
    case True
    with stat have hit: "find (\<lambda>r. row_id r = session_id s \<and> row_status r = ''running'') (sessions db) = Some row"
      by (simp add: running_row [OF ok] row)
    have closed: "pg_stat (db\<lparr>sessions := map (pg_close st at (session_id s)) (sessions db)\<rparr>) (session_id s) = Some st"
      using pg_close_stat [OF ok, of st at "session_id s"] stat True by simp
    show ?thesis
      using r x h post(1) log closed True unfolding db2 pg_finish_eq hit
      by (cases "fate E w") (auto simp: session_finish_def finish_session_def Let_def engine_result_def holds_def pg_finish_eq hit)
  next
    case False
    with stat have hit: "find (\<lambda>r. row_id r = session_id s \<and> row_status r = ''running'') (sessions db) = None"
      by (simp add: running_row [OF ok])
    have same: "pg_stat db' (session_id s) = Some (wdb w)"
      using post(3) db2 stat False by auto
    show ?thesis
      using r x h post(1) log same False unfolding db2 pg_finish_eq hit
      by (cases "fate E w") (auto simp: session_finish_def finish_session_def Let_def engine_result_def holds_def pg_finish_eq hit)
  qed
qed

text \<open>
  C14: the engine's session is an abstraction of the store. As long as the tables hold what the engine
  sees of its session, every append (of a payload the column keeps as it is, or refuses), replay and
  finish the engine makes is the store's own: it answers the same, success or error, and the tables
  again hold what the engine sees, whether the statement committed, failed before its commit or lost
  its reply after it.
\<close>

theorem engine_refines_store:
  assumes "holds db s w" and "i \<notin> ev_id ` set (session_events db)" and "length (wlog w) < 2 ^ 63 - 1"
    and "column_fits db p (fate E w)"
  shows "(\<exists>db' w'. append_event E p w =
      (engine_result (fst (pg_append db (session_id s) p i at (fate E w))), w') \<and>
      db' = snd (pg_append db (session_id s) p i at (fate E w)) \<and> holds db' s w') \<and>
    (\<exists>w'. holds db s w' \<and> replay E w =
      (case pg_replay db (session_id s) (fate E w) of
         Inl e \<Rightarrow> Inl (Session e) | Inr evs \<Rightarrow> Inr (map payload evs), w')) \<and>
    (\<exists>r s' db' w'. session_finish db s st at (fate E w) = (r, s', db') \<and>
      finish_session E st w = (engine_result r, w') \<and> holds db' s' w')"
proof (intro conjI)
  obtain r db' where a: "pg_append db (session_id s) p i at (fate E w) = (r, db')" by fastforce
  show "\<exists>db' w'. append_event E p w =
      (engine_result (fst (pg_append db (session_id s) p i at (fate E w))), w') \<and>
      db' = snd (pg_append db (session_id s) p i at (fate E w)) \<and> holds db' s w'"
    using append_simulates [OF assms a] a by auto
  show "\<exists>w'. holds db s w' \<and> replay E w =
      (case pg_replay db (session_id s) (fate E w) of
         Inl e \<Rightarrow> Inl (Session e) | Inr evs \<Rightarrow> Inr (map payload evs), w')"
    by (rule replay_simulates [OF assms(1)])
  obtain r s' db' where f: "session_finish db s st at (fate E w) = (r, s', db')" using prod_cases3 by blast
  then show "\<exists>r s' db' w'. session_finish db s st at (fate E w) = (r, s', db') \<and>
      finish_session E st w = (engine_result r, w') \<and> holds db' s' w'"
    using finish_simulates [OF assms(1) f] by blast
qed

definition demo_db :: Db where
  "demo_db = tables [\<lparr>row_id = ''s1'', row_workflow_id = [], row_tenant_id = [],
     row_status = ''running'', row_started_at = [], row_ended_at = None\<rparr>] []"

definition demo_session :: Session where
  "demo_session = \<lparr>session_id = ''s1'', session_workflow_id = [], session_tenant_id = [],
     status = Running, session_started_at = [], ended_at = None\<rparr>"

lemma demo_holds: "holds demo_db demo_session new_session"
  by (simp add: holds_def demo_db_def demo_session_def new_session_def pg_ok_def pg_log_def pg_stat_def
      events_of_def find_session_def row_stat_def status_from_db_def)

theorem engine_refines_store_witness:
  "\<exists>db' w'. append_event demo_engine JNull new_session =
      (engine_result (fst (pg_append demo_db ''s1'' JNull ''e1'' [] Commits)), w') \<and>
    db' = snd (pg_append demo_db ''s1'' JNull ''e1'' [] Commits) \<and> holds db' demo_session w'"
proof -
  have i: "''e1'' \<notin> ev_id ` set (session_events demo_db)" by (simp add: demo_db_def)
  have n: "length (wlog new_session) < 2 ^ 63 - 1" by (simp add: new_session_def)
  have "fate demo_engine new_session = Commits" "session_id demo_session = ''s1''"
    by (simp_all add: demo_engine_def demo_host_def demo_session_def)
  moreover have "column_fits demo_db JNull Commits" by (simp add: column_fits_def demo_db_def)
  ultimately show ?thesis using engine_refines_store [OF demo_holds i n, of JNull demo_engine "[]"] by simp
qed

end
