(* ===== verification/FileLog.thy ===== *)
theory FileLog
  imports SessionLog
begin

text \<open>
  The file mirror, \<open>crates/stepyard-session/src/file_log_mirror.rs\<close>: a store around a store that
  copies each acknowledged event to a file of its session and gives a session up, with one event in
  its log, when its file cannot be written. The inner store is a function of the model; the file
  system's answers are data.
\<close>

section \<open>The file\<close>

datatype IoKind = PermissionDenied | OtherKind

record IoError =
  raw_os_error :: "int option"
  kind :: IoKind

definition classify_io_error :: "IoError \<Rightarrow> string" where
  "classify_io_error e =
    (if raw_os_error e = Some 28 then ''disk_full''
     else (case kind e of PermissionDenied \<Rightarrow> ''permission_denied'' | _ \<Rightarrow> ''io_other''))"

text \<open>
  A line of a file: an event, the bytes without a newline a failed write left at the end, or an event
  behind such bytes, on the line they began.
\<close>

datatype Line = Whole SessionEvent | Torn string | Glued string SessionEvent

fun glue :: "string \<Rightarrow> Line \<Rightarrow> Line" where
  "glue b (Whole e) = Glued b e"
| "glue b (Torn c) = Torn (b @ c)"
| "glue b (Glued c e) = Glued (b @ c) e"

text \<open>The file is opened in append mode: what is written follows what is there.\<close>

definition add_line :: "Line \<Rightarrow> Line list \<Rightarrow> Line list" where
  "add_line l ls = (case rev ls of Torn b # r \<Rightarrow> rev r @ [glue b l] | _ \<Rightarrow> ls @ [l])"

text \<open>
  What a write meets: it succeeds, the event has no encoding, the directory, the open or the write
  fails, possibly after some bytes, or the flush fails after all of them.
\<close>

datatype WriteReply = Wrote | EncodeFails | IoFails IoError "string option" | FlushFails IoError

fun write_jsonl :: "WriteReply \<Rightarrow> SessionEvent \<Rightarrow> Line list \<Rightarrow> (string, unit) result \<times> Line list" where
  "write_jsonl Wrote e ls = (Inr (), add_line (Whole e) ls)"
| "write_jsonl EncodeFails e ls = (Inl ''json_encode'', ls)"
| "write_jsonl (IoFails err left) e ls =
    (Inl (classify_io_error err), case left of None \<Rightarrow> ls | Some b \<Rightarrow> add_line (Torn b) ls)"
| "write_jsonl (FlushFails err) e ls = (Inl (classify_io_error err), add_line (Whole e) ls)"

section \<open>The mirror\<close>

record 'db Mirror =
  inner :: 'db
  broken_sessions :: "uuid set"
  files :: "uuid \<Rightarrow> Line list"

type_synonym ('db, 'k) appender = "'db \<Rightarrow> uuid \<Rightarrow> json \<Rightarrow> 'k \<Rightarrow> (SessionError, SessionEvent) result \<times> 'db"

definition mirror_event ::
  "('db, 'k) appender \<Rightarrow> 'db Mirror \<Rightarrow> SessionEvent \<Rightarrow> WriteReply \<Rightarrow> timestamp \<Rightarrow> 'k \<Rightarrow> 'db Mirror" where
  "mirror_event app m e wr at k =
    (let s = se_session e in
     if s \<in> broken_sessions m then m
     else
       (case write_jsonl wr e (files m s) of
          (Inr _, ls) \<Rightarrow> m\<lparr>files := (files m)(s := ls)\<rparr>
        | (Inl c, ls) \<Rightarrow> m\<lparr>files := (files m)(s := ls), broken_sessions := insert s (broken_sessions m),
            inner := snd (app (inner m) s (event_json (FileLogWriteFailed c at)) k)\<rparr>))"

text \<open>The environment of a call: of the append, of the second append, of the write, the time.\<close>

type_synonym 'k mirror_env = "'k \<times> 'k \<times> WriteReply \<times> timestamp"

definition mirror_append ::
  "('db, 'k) appender \<Rightarrow> 'db Mirror \<Rightarrow> uuid \<Rightarrow> json \<Rightarrow> 'k mirror_env \<Rightarrow>
    (SessionError, SessionEvent) result \<times> 'db Mirror" where
  "mirror_append app m s p env =
    (case env of (k, k2, wr, at) \<Rightarrow>
       (case app (inner m) s p k of
          (Inl e, db) \<Rightarrow> (Inl e, m\<lparr>inner := db\<rparr>)
        | (Inr ev, db) \<Rightarrow> (Inr ev, mirror_event app (m\<lparr>inner := db\<rparr>) ev wr at k2)))"

text \<open>A new mirror finds the directory as earlier processes left it.\<close>

definition new_mirror :: "'db \<Rightarrow> (uuid \<Rightarrow> Line list) \<Rightarrow> 'db Mirror" where
  "new_mirror db fs = \<lparr>inner = db, broken_sessions = {}, files = fs\<rparr>"

text \<open>A sequence of appends, and the events they acknowledged.\<close>

fun mirror_run ::
  "('db, 'k) appender \<Rightarrow> 'db Mirror \<Rightarrow> (uuid \<times> json \<times> 'k mirror_env) list \<Rightarrow> SessionEvent list \<times> 'db Mirror" where
  "mirror_run app m [] = ([], m)"
| "mirror_run app m ((s, p, env) # calls) =
    (let (r, m1) = mirror_append app m s p env; (acks, m2) = mirror_run app m1 calls in
     ((case r of Inl e \<Rightarrow> [] | Inr ev \<Rightarrow> [ev]) @ acks, m2))"

section \<open>What the mirror keeps\<close>

text \<open>A line that is an event is the event of the log with its number.\<close>

definition logged :: "json list \<Rightarrow> SessionEvent \<Rightarrow> bool" where
  "logged L e \<longleftrightarrow> 1 \<le> seq e \<and> seq e \<le> int (length L) \<and> L ! nat (seq e - 1) = payload e"

lemma logged_append: "logged L e \<Longrightarrow> logged (L @ M) e"
  by (auto simp: logged_def nth_append)

definition calls_of :: "uuid \<Rightarrow> (uuid \<times> json \<times> 'k mirror_env) list \<Rightarrow> nat" where
  "calls_of s calls = length (filter (\<lambda>c. fst c = s) calls)"

definition one_at :: "uuid \<Rightarrow> uuid \<Rightarrow> nat" where
  "one_at s s' = (if s' = s then 1 else 0)"

lemma calls_of_simps [simp]:
  "calls_of s [] = 0" "calls_of s' (c # cs) = one_at (fst c) s' + calls_of s' cs"
  by (simp_all add: calls_of_def one_at_def)

definition gave_up :: "'db Mirror \<Rightarrow> uuid \<Rightarrow> nat" where
  "gave_up m s = (if s \<in> broken_sessions m then 1 else 0)"

text \<open>A file whose last line is complete.\<close>

definition complete_file :: "Line list \<Rightarrow> bool" where
  "complete_file ls \<longleftrightarrow> (case rev ls of Torn b # r \<Rightarrow> False | _ \<Rightarrow> True)"

lemma add_line_complete: "complete_file ls \<Longrightarrow> add_line l ls = ls @ [l]"
  by (auto simp: add_line_def complete_file_def split: list.split Line.split)

lemma fold_add_line: "complete_file ls \<Longrightarrow> fold add_line (map Whole es) ls = ls @ map Whole es"
proof (induction es arbitrary: ls)
  case (Cons e es)
  have "complete_file (ls @ [Whole e])" by (simp add: complete_file_def)
  from Cons.IH [OF this] Cons.prems show ?case by (simp add: add_line_complete)
qed simp

lemma add_line_whole:
  assumes "Whole x \<in> set (add_line l ls)"
  shows "Whole x \<in> set ls \<or> l = Whole x"
proof (cases "complete_file ls")
  case True
  then show ?thesis using assms by (auto simp: add_line_complete)
next
  case False
  then obtain b r where r: "rev ls = Torn b # r" by (auto simp: complete_file_def split: list.splits Line.splits)
  then have "set r \<subseteq> set ls" by (metis set_rev set_subset_Cons)
  moreover have "Whole x \<noteq> glue b l" by (cases l) auto
  ultimately show ?thesis using assms r by (auto simp: add_line_def)
qed

lemma write_whole: "write_jsonl wr e ls = (r, ls') \<Longrightarrow> Whole x \<in> set ls' \<Longrightarrow> Whole x \<in> set ls \<or> x = e"
  by (cases wr) (auto split: option.splits dest: add_line_whole)

lemma write_Ok: "write_jsonl wr e ls = (Inr u, ls') \<Longrightarrow> ls' = add_line (Whole e) ls"
  by (cases wr) auto

text \<open>A store whose acknowledgement names the session it was asked for.\<close>

locale mirrorable_store = event_store +
  assumes app_session: "app db s p k = (Inr e, db') \<Longrightarrow> se_session e = s"
begin

lemma log_grows:
  assumes "wf db"
  shows "\<exists>M. log (snd (app db s p k)) s' = log db s' @ M \<and> length M \<le> one_at s s'"
  using log_app [OF assms, of s p k]
proof
  assume "log (snd (app db s p k)) = log db"
  then show ?thesis by (intro exI [of _ "[]"]) simp
next
  assume "log (snd (app db s p k)) = (log db)(s := log db s @ [col db p])"
  then show ?thesis by (intro exI [of _ "if s' = s then [col db p] else []"]) (auto simp: one_at_def)
qed

text \<open>From one state of the mirror to a later one, over the events acknowledged and the calls made.\<close>

definition kept :: "'a Mirror \<Rightarrow> (uuid \<Rightarrow> nat) \<Rightarrow> SessionEvent list \<Rightarrow> 'a Mirror \<Rightarrow> bool" where
  "kept m n acks m' \<longleftrightarrow> wf (inner m') \<and> (\<forall>s.
     (\<exists>M. log (inner m') s = log (inner m) s @ M \<and> length M + gave_up m s \<le> n s + gave_up m' s) \<and>
     (\<forall>e. Whole e \<in> set (files m' s) \<longrightarrow> Whole e \<in> set (files m s) \<or> logged (log (inner m') s) e) \<and>
     (s \<notin> broken_sessions m' \<longrightarrow> s \<notin> broken_sessions m \<and>
        files m' s = fold add_line (map Whole (filter (\<lambda>e. se_session e = s) acks)) (files m s)))"

lemma kept_append:
  assumes wf: "wf (inner m)" and run: "mirror_append app m s p env = (r, m')"
  shows "kept m (one_at s) (case r of Inl e \<Rightarrow> [] | Inr ev \<Rightarrow> [ev]) m'"
proof -
  obtain k k2 wr at where env: "env = (k, k2, wr, at)" by (cases env)
  obtain r1 db where a: "app (inner m) s p k = (r1, db)" by fastforce
  have wf1: "wf db" using wf_app [OF wf, of s p k] a by simp
  have grow1: "\<exists>M. log db s' = log (inner m) s' @ M \<and> length M \<le> one_at s s'" for s'
    using log_grows [OF wf, of s p k s'] a by simp
  show ?thesis
  proof (cases r1)
    case (Inl e)
    then show ?thesis using run wf1 grow1 by (auto simp: mirror_append_def env a kept_def gave_up_def)
  next
    case (Inr ev)
    then have ev: "se_session ev = s" using a app_session by blast
    have ack: "logged (log db s) ev" using log_app_ok [OF wf] a Inr by (fastforce simp: logged_def nth_append)
    show ?thesis
    proof (cases "s \<in> broken_sessions m")
      case True
      then show ?thesis
        using run wf1 grow1 Inr ev by (auto simp: mirror_append_def env a mirror_event_def kept_def gave_up_def)
    next
      case fine: False
      obtain w ls where w: "write_jsonl wr ev (files m s) = (w, ls)" by fastforce
      show ?thesis
      proof (cases w)
        case (Inr u)
        then have "ls = add_line (Whole ev) (files m s)" using w write_Ok by blast
        then show ?thesis
          using run wf1 grow1 ack fine Inr \<open>r1 = Inr ev\<close> w ev
          by (auto dest!: add_line_whole simp: mirror_append_def env a mirror_event_def kept_def gave_up_def Let_def split: if_splits)
      next
        case (Inl c)
        let ?p = "event_json (FileLogWriteFailed c at)"
        have m': "m' = m\<lparr>inner := snd (app db s ?p k2), files := (files m)(s := ls),
            broken_sessions := insert s (broken_sessions m)\<rparr>" "r = Inr ev"
          using run fine Inl \<open>r1 = Inr ev\<close> w ev by (auto simp: mirror_append_def env a mirror_event_def Let_def)
        have grow2: "\<exists>M. log (snd (app db s ?p k2)) s' = log db s' @ M \<and> length M \<le> one_at s s'" for s'
          by (rule log_grows [OF wf1])
        have grow: "\<exists>M. log (inner m') s' = log (inner m) s' @ M \<and>
            length M + gave_up m s' \<le> one_at s s' + gave_up m' s'" for s'
        proof -
          from grow1 [of s'] obtain M where "log db s' = log (inner m) s' @ M" "length M \<le> one_at s s'" by blast
          moreover from grow2 [of s'] obtain N where "log (snd (app db s ?p k2)) s' = log db s' @ N"
              "length N \<le> one_at s s'" by blast
          ultimately show ?thesis
            using fine by (intro exI [of _ "M @ N"]) (auto simp: m' gave_up_def one_at_def split: if_splits)
        qed
        have "logged (log (snd (app db s ?p k2)) s) ev" using grow2 [of s] ack logged_append by metis
        then have whole: "Whole e \<in> set (files m s') \<or> logged (log (inner m') s') e"
          if "Whole e \<in> set (files m' s')" for e s'
          using that write_whole [OF w, of e] by (auto simp: m' split: if_splits simp del: event_json.simps)
        have end1: "wf (inner m')" "\<And>s'. s' \<notin> broken_sessions m' \<Longrightarrow> s' \<noteq> s \<and> s' \<notin> broken_sessions m"
          using wf_app [OF wf1] by (auto simp: m')
        show ?thesis
          unfolding kept_def using end1 grow whole
          by (intro conjI allI impI) (auto simp: m' ev simp del: event_json.simps)
      qed
    qed
  qed
qed

lemma kept_trans:
  assumes "kept m n acks m1" "kept m1 n' acks' m2"
  shows "kept m (\<lambda>s. n s + n' s) (acks @ acks') m2"
  unfolding kept_def
proof (intro conjI allI impI)
  show "wf (inner m2)" using assms(2) by (simp add: kept_def)
next
  fix s
  obtain M where M: "log (inner m1) s = log (inner m) s @ M" "length M + gave_up m s \<le> n s + gave_up m1 s"
    using assms(1) unfolding kept_def by blast
  obtain N where N: "log (inner m2) s = log (inner m1) s @ N" "length N + gave_up m1 s \<le> n' s + gave_up m2 s"
    using assms(2) unfolding kept_def by blast
  show "\<exists>M. log (inner m2) s = log (inner m) s @ M \<and> length M + gave_up m s \<le> n s + n' s + gave_up m2 s"
    using M N by (intro exI [of _ "M @ N"]) auto
  fix e assume "Whole e \<in> set (files m2 s)"
  then have "Whole e \<in> set (files m1 s) \<or> logged (log (inner m2) s) e" using assms(2) unfolding kept_def by blast
  then show "Whole e \<in> set (files m s) \<or> logged (log (inner m2) s) e"
    using assms(1) logged_append [of "log (inner m1) s" e N] N(1) unfolding kept_def by auto
next
  fix s assume "s \<notin> broken_sessions m2"
  then show "s \<notin> broken_sessions m"
    "files m2 s = fold add_line (map Whole (filter (\<lambda>e. se_session e = s) (acks @ acks'))) (files m s)"
    using assms unfolding kept_def by auto
qed

lemma kept_run:
  "wf (inner m) \<Longrightarrow> mirror_run app m calls = (acks, m') \<Longrightarrow> kept m (\<lambda>s. calls_of s calls) acks m'"
proof (induction calls arbitrary: m acks)
  case Nil
  then show ?case by (auto simp: kept_def calls_of_def)
next
  case (Cons call calls)
  obtain s p env where c: "call = (s, p, env)" by (cases call)
  obtain r m1 where a: "mirror_append app m s p env = (r, m1)" by fastforce
  obtain acks2 where rest: "mirror_run app m1 calls = (acks2, m')"
    and acks: "acks = (case r of Inl e \<Rightarrow> [] | Inr ev \<Rightarrow> [ev]) @ acks2"
    using Cons.prems(2) by (auto simp: c a split: prod.splits)
  note first = kept_append [OF Cons.prems(1) a]
  then have "wf (inner m1)" by (simp add: kept_def)
  from kept_trans [OF first Cons.IH [OF this rest]] show ?case by (simp add: acks c)
qed

end


section \<open>On the Postgres store\<close>

interpretation pgm: mirrorable_store pg_ok pg_log pg_stat column_value pg_app pg_fin
proof unfold_locales
  fix db s p k e db'
  assume "pg_app db s p k = (Inr e, db')"
  then show "se_session e = s"
    by (cases k) (auto simp: pg_app_def event_from_row_def elim: pg_append_cases)
qed

text \<open>
  C16: the file mirror is faithful and cannot hurt. Over any sequence of appends through a new mirror,
  with any failures of the store and of the file system and whatever the files held before: every whole
  line of a session's file was there or is the event of its log with that number; the file of a session
  that never failed has grown by exactly the events acknowledged to its clients, in order, one line each
  (when an earlier process left it torn, the first of them ends that line); and a session that was given
  up has at most one event more in its log than its clients asked for, the note that its file could not
  be written.
\<close>

theorem mirror_faithful:
  assumes "pg_ok db" and "mirror_run pg_app (new_mirror db fs) calls = (acks, m)"
  shows "(\<forall>e. Whole e \<in> set (files m s) \<longrightarrow> Whole e \<in> set (fs s) \<or> logged (pg_log (inner m) s) e) \<and>
    (s \<notin> broken_sessions m \<longrightarrow>
      files m s = fold add_line (map Whole (filter (\<lambda>e. se_session e = s) acks)) (fs s) \<and>
      (complete_file (fs s) \<longrightarrow> files m s = fs s @ map Whole (filter (\<lambda>e. se_session e = s) acks))) \<and>
    (\<exists>M. pg_log (inner m) s = pg_log db s @ M \<and> length M \<le> calls_of s calls + gave_up m s)"
proof -
  have wf: "pg_ok (inner (new_mirror db fs))" using assms(1) by (simp add: new_mirror_def)
  show ?thesis
    using pgm.kept_run [OF wf assms(2)] fold_add_line [of "fs s"]
    unfolding pgm.kept_def by (simp add: new_mirror_def gave_up_def)
qed

theorem mirror_faithful_witness:
  "(let db = tables [\<lparr>row_id = ''s'', row_workflow_id = [], row_tenant_id = [],
      row_status = ''running'', row_started_at = [], row_ended_at = None\<rparr>] [];
      (acks, m) = mirror_run pg_app (new_mirror db (\<lambda>s. []))
        [(''s'', JNull, (''e1'', [], Commits), (''f'', [], Commits), Wrote, []),
         (''s'', JBool True, (''e2'', [], Commits), (''f'', [], Commits),
           IoFails \<lparr>raw_os_error = Some 28, kind = OtherKind\<rparr> None, [])] in
    \<forall>e. Whole e \<in> set (files m ''s'') \<longrightarrow> logged (pg_log (inner m) ''s'') e)"
proof -
  let ?db = "tables [\<lparr>row_id = ''s'', row_workflow_id = [], row_tenant_id = [],
      row_status = ''running'', row_started_at = [], row_ended_at = None\<rparr>] []"
  have ok: "pg_ok ?db" by (simp add: pg_ok_def events_of_def)
  show ?thesis
    unfolding Let_def
    by (intro case_prodI2) (use mirror_faithful [OF ok, of "\<lambda>s. []"] in fastforce)
qed

end
