(* ===== verification/ScopeProps.thy ===== *)
theory ScopeProps
  imports ScopeSpecs "HOL-Library.Multiset"
begin

text \<open>
  Theorems on the scope runner that do not run the engine: what a drained \<open>parallel\<close> returns, where
  a resumed container goes on, and the items of a \<open>map\<close>.
\<close>

section \<open>The drain of a parallel\<close>

fun task_ok :: "joined \<Rightarrow> bool" where
  "task_ok (pos, n, k, r) = (case r of TaskCompleted out \<Rightarrow> \<not> failing out | _ \<Rightarrow> False)"

lemma task_terminal_None: "task_terminal n r = None \<longleftrightarrow> (case r of TaskCompleted out \<Rightarrow> \<not> failing out | _ \<Rightarrow> False)"
proof (cases r)
  case (TaskCompleted out)
  then show ?thesis by (cases out) auto
qed auto

lemma mset_take_task:
  assumes "xs \<noteq> []"
  shows "mset xs = add_mset (fst (take_task i xs)) (mset (snd (take_task i xs)))"
proof -
  have "i mod length xs < length xs" using assms by simp
  then have "xs = take (i mod length xs) xs @ xs ! (i mod length xs) # drop (Suc (i mod length xs)) xs"
    by (rule id_take_nth_drop)
  then have "mset xs = mset (take (i mod length xs) xs @ xs ! (i mod length xs) # drop (Suc (i mod length xs)) xs)"
    by (rule arg_cong)
  then show ?thesis by (simp add: take_task_def Let_def)
qed

definition completions :: "joined list \<Rightarrow> completion list" where
  "completions tasks = concat (map completion_of tasks)"

lemma drained_all:
  "drain_tasks c sg evs tasks comps = (DrainCompleted, comps', left) \<Longrightarrow>
    left = [] \<and> list_all task_ok tasks \<and> mset comps' = mset comps + mset (completions tasks)"
proof (induction c sg evs tasks comps rule: drain_tasks.induct)
  case (1 c sg evs tasks comps)
  show ?case
  proof (cases "tasks = []")
    case True
    with "1.prems" show ?thesis by (simp add: drain_tasks.simps completions_def)
  next
    case False
    then obtain i where i: "next_join c evs = JoinTask i"
        and none: "task_terminal (fst (snd (fst (take_task i tasks)))) (snd (snd (snd (fst (take_task i tasks))))) = None"
        and rest: "drain_tasks c sg (tl evs) (snd (take_task i tasks))
          (comps @ completion_of (fst (take_task i tasks))) = (DrainCompleted, comps', left)"
      using "1.prems"
      by (auto simp: drain_tasks.simps [of c sg evs tasks comps] Let_def
          split: JoinEvent.splits option.splits dest: task_terminal_ends)
    let ?j = "fst (take_task i tasks)" and ?rest = "snd (take_task i tasks)"
    note IH = "1.IH" [OF False i refl refl refl none rest]
    have "task_ok ?j" using none by (cases ?j) (simp add: task_terminal_None)
    moreover have "mset (completions tasks) = mset (completion_of ?j) + mset (completions ?rest)"
    proof -
      have "mset (completions xs) = \<Sum>\<^sub># (image_mset (mset \<circ> completion_of) (mset xs))" for xs
        by (induction xs) (simp_all add: completions_def)
      then show ?thesis using mset_take_task [OF False, of i] by simp
    qed
    moreover have "set tasks = insert ?j (set ?rest)"
      using mset_take_task [OF False, of i] by (metis set_mset_add_mset_insert set_mset_mset)
    ultimately show ?thesis using IH by (simp add: list_all_iff)
  qed
qed

lemma task_ok_completion: "task_ok j \<Longrightarrow> \<exists>out. completion_of j = [(fst j, fst (snd j), fst (snd (snd j)), out)] \<and>
    snd (snd (snd j)) = TaskCompleted out \<and> \<not> failing out"
  by (cases j rule: completion_of.cases) auto

text \<open>
  A \<open>parallel\<close> that drains completes whole. When the drain of a parallel's tasks reports
  completion, whatever the order in which the tasks were joined: every task completed and no command
  among them failed, every output is kept exactly once, and the outputs are in the order of the
  positions of the body, not of the joins.
\<close>

theorem drain_complete:
  assumes "drain_all c sg evs late tasks = (DrainCompleted, comps)"
  shows "list_all task_ok tasks \<and> mset comps = mset (completions tasks) \<and>
    length comps = length tasks \<and> sorted (map fst comps)"
proof -
  obtain comps' left where d: "drain_tasks c sg evs tasks [] = (DrainCompleted, comps', left)"
      and c: "comps = sort_key fst (comps' @ late_completions late left)"
    using assms by (auto simp: drain_all_def split: prod.splits)
  note a = drained_all [OF d]
  have m: "mset comps = mset (completions tasks)" using a c by (simp add: late_completions_def)
  have "length (completions ts) = length ts" if "list_all task_ok ts" for ts
    using that by (induction ts) (auto simp: completions_def dest: task_ok_completion)
  then have "length comps = length tasks" using a m by (metis size_mset)
  moreover have "sorted (map fst comps)" using c by simp
  ultimately show ?thesis using a m by simp
qed

theorem drain_complete_witness:
  "\<exists>comps. drain_all False [] [JoinTask 1, JoinTask 0] (\<lambda>i. False)
      [(0, ''a'', KCmd, TaskCompleted (OutCmd \<lparr>xo_stdout = ''x'', xo_stderr = [], xo_exit = 0\<rparr>)),
       (1, ''b'', KCmd, TaskCompleted (OutCmd \<lparr>xo_stdout = ''y'', xo_stderr = [], xo_exit = 0\<rparr>))] =
      (DrainCompleted, comps) \<and> length comps = 2 \<and> sorted (map fst comps)"
proof -
  let ?ts = "[(0, ''a'', KCmd, TaskCompleted (OutCmd \<lparr>xo_stdout = ''x'', xo_stderr = [], xo_exit = 0\<rparr>)),
       (1, ''b'', KCmd, TaskCompleted (OutCmd \<lparr>xo_stdout = ''y'', xo_stderr = [], xo_exit = 0\<rparr>))] :: joined list"
  have "fst (drain_all False [] [JoinTask 1, JoinTask 0] (\<lambda>i. False) ?ts) = DrainCompleted"
    by (simp add: drain_all_def drain_tasks.simps next_join_def take_task_def Let_def)
  then obtain comps where d: "drain_all False [] [JoinTask 1, JoinTask 0] (\<lambda>i. False) ?ts = (DrainCompleted, comps)"
    by (metis prod.collapse)
  from drain_complete [OF d] d show ?thesis by (intro exI [of _ comps]) simp
qed


section \<open>Where a resumed container goes on\<close>

text \<open>A completion inside a container: iteration, position, gate outcome, output.\<close>

type_synonym mark = "nat \<times> nat \<times> string option \<times> StepOutputSnapshot option"

definition mark_of :: "string \<Rightarrow> json \<Rightarrow> mark option" where
  "mark_of c p = (case (scoped_at c p, logged_output malformed_output p) of
     (Some (it, pos), Inr out) \<Rightarrow> Some (it, pos, jget_str p ''gate_outcome'', out) | _ \<Rightarrow> None)"

definition marks :: "string \<Rightarrow> json list \<Rightarrow> mark list" where
  "marks c L = List.map_filter (mark_of c) L"

definition readable :: "string \<Rightarrow> json list \<Rightarrow> bool" where
  "readable c L \<longleftrightarrow> list_all (\<lambda>p. scoped_at c p = None \<or> (\<exists>out. logged_output malformed_output p = Inr out)) L"

definition note_mark :: "nat \<Rightarrow> mark \<Rightarrow> RebuildAcc \<Rightarrow> RebuildAcc" where
  "note_mark len m a = (case m of (it, pos, g, out) \<Rightarrow>
     see_gate it g (see_furthest it pos (see_output it out (see_position len it pos a))))"

lemma rebuild_scan_marks:
  "readable c L \<Longrightarrow> rebuild_scan c len L a = Inr (fold (note_mark len) (marks c L) a)"
proof (induction L arbitrary: a)
  case (Cons p L)
  then show ?case
    by (cases "scoped_at c p")
      (auto simp: readable_def marks_def mark_of_def note_mark_def rebuild_event_def List.map_filter_simps)
qed (simp add: marks_def List.map_filter_simps)

text \<open>
  The completions of a container that has done \<open>k\<close> iterations of a body of \<open>len\<close> steps and \<open>p\<close>
  positions of the next: an iteration ends at the last position or at a gate that skips.
\<close>

inductive walked :: "nat \<Rightarrow> mark list \<Rightarrow> nat \<Rightarrow> nat \<Rightarrow> bool" for len where
  walked_start: "walked len [] 0 0"
| walked_on: "walked len ms k p \<Longrightarrow> p + 1 < len \<Longrightarrow> g \<noteq> Some ''skip'' \<Longrightarrow> g \<noteq> Some ''break'' \<Longrightarrow>
    walked len (ms @ [(k, p, g, out)]) k (p + 1)"
| walked_last: "walked len ms k p \<Longrightarrow> p + 1 = len \<Longrightarrow> g \<noteq> Some ''skip'' \<Longrightarrow> g \<noteq> Some ''break'' \<Longrightarrow> k + 1 < 2 ^ 32 \<Longrightarrow>
    walked len (ms @ [(k, p, g, out)]) (k + 1) 0"
| walked_skip: "walked len ms k p \<Longrightarrow> p < len \<Longrightarrow> k + 1 < 2 ^ 32 \<Longrightarrow>
    walked len (ms @ [(k, p, Some ''skip'', out)]) (k + 1) 0"

inductive_cases walked_snocE: "walked len (ms @ [m]) k p"

text \<open>What the scan has collected then.\<close>

definition seen_until :: "nat \<Rightarrow> RebuildAcc \<Rightarrow> nat \<Rightarrow> nat \<Rightarrow> bool" where
  "seen_until len a k p \<longleftrightarrow>
     distinct (map fst (iteration_positions a)) \<and>
     set (map fst (iteration_positions a)) = {..< (if p = 0 then k else Suc k)} \<and>
     (\<forall>i v. map_of (iteration_positions a) i = Some v \<longrightarrow> length v = len) \<and>
     (\<forall>i < k. i \<in> iteration_terminated_by_gate a \<or> (\<forall>q < len. the (map_of (iteration_positions a) i) ! q)) \<and>
     (p \<noteq> 0 \<longrightarrow> (\<forall>q < len. the (map_of (iteration_positions a) k) ! q \<longleftrightarrow> q < p)) \<and>
     (\<forall>i \<in> iteration_terminated_by_gate a. i < k) \<and>
     break_iteration a = None \<and> \<not> broke a \<and>
     (case last_completed a of
        None \<Rightarrow> k = 0 \<and> p = 0
      | Some (i, q) \<Rightarrow> if p = 0 then i + 1 = k else i = k \<and> q + 1 = p)"

lemma see_position_simps [simp]:
  "last_completed (see_position len it pos a) = last_completed a"
  "broke (see_position len it pos a) = broke a"
  "break_iteration (see_position len it pos a) = break_iteration a"
  "iteration_terminated_by_gate (see_position len it pos a) = iteration_terminated_by_gate a"
  by (simp_all add: see_position_def Let_def)

lemma see_output_simps [simp]:
  "last_completed (see_output it out a) = last_completed a"
  "broke (see_output it out a) = broke a"
  "break_iteration (see_output it out a) = break_iteration a"
  "iteration_positions (see_output it out a) = iteration_positions a"
  "iteration_terminated_by_gate (see_output it out a) = iteration_terminated_by_gate a"
  by (simp_all add: see_output_def split: option.split)

lemma note_mark_simps:
  "iteration_positions (note_mark len (it, pos, g, out) a) = iteration_positions (see_position len it pos a)"
  "last_completed (note_mark len (it, pos, g, out) a) = last_completed (see_furthest it pos a)"
  "g \<noteq> Some ''break'' \<Longrightarrow> broke (note_mark len (it, pos, g, out) a) = broke a"
  "g \<noteq> Some ''break'' \<Longrightarrow> break_iteration (note_mark len (it, pos, g, out) a) = break_iteration a"
  "iteration_terminated_by_gate (note_mark len (it, pos, g, out) a) =
    (if g = Some ''skip'' then insert it else id) (iteration_terminated_by_gate a)"
  by (auto simp: note_mark_def see_gate_def see_furthest_def split: option.split)


lemma keys_update_set: "set (map fst (AList.update k v xs)) = insert k (set (map fst xs))"
proof -
  have "set (map fst ys) = dom (map_of ys)" for ys :: "('a \<times> 'b) list"
    by (simp add: dom_map_of_conv_image_fst)
  then show ?thesis by (simp add: update_conv')
qed

lemma see_position_seen:
  assumes s: "seen_until len a k p" and p: "p < len"
  defines "b \<equiv> iteration_positions (see_position len k p a)"
  shows "distinct (map fst b)" "set (map fst b) = {..< Suc k}"
    "\<And>i v. map_of b i = Some v \<Longrightarrow> length v = len"
    "\<And>i. i \<noteq> k \<Longrightarrow> map_of b i = map_of (iteration_positions a) i"
    "\<And>q. q < len \<Longrightarrow> the (map_of b k) ! q \<longleftrightarrow> q < p + 1"
proof -
  let ?old = "map_of (iteration_positions a) k"
  define v where "v = (case ?old of None \<Rightarrow> replicate len False | Some v \<Rightarrow> v)"
  have none: "?old = None" if "p = 0"
    using s that by (auto simp: seen_until_def map_of_eq_None_iff)
  have some: "\<exists>w. ?old = Some w" if "p \<noteq> 0"
  proof -
    have "k \<in> set (map fst (iteration_positions a))" using s that by (simp add: seen_until_def)
    then show ?thesis by (metis map_of_eq_None_iff not_None_eq list.set_map)
  qed
  have len: "length v = len"
    using s by (auto simp: v_def seen_until_def split: option.split)
  have v: "v ! q \<longleftrightarrow> q < p" if "q < len" for q
  proof (cases "p = 0")
    case True
    then show ?thesis using that none by (simp add: v_def)
  next
    case False
    with some obtain w where w: "?old = Some w" by blast
    have "\<forall>q<len. the ?old ! q \<longleftrightarrow> q < p" using s False by (simp add: seen_until_def)
    then show ?thesis using that w by (simp add: v_def)
  qed
  have b: "b = AList.update k (v[p := True]) (iteration_positions a)"
    unfolding b_def see_position_def v_def [symmetric] using len p by simp
  show "distinct (map fst b)" unfolding b using s by (intro distinct_update) (simp add: seen_until_def)
  show "set (map fst b) = {..< Suc k}" unfolding b keys_update_set using s by (auto simp: seen_until_def)
  show "map_of b i = map_of (iteration_positions a) i" if "i \<noteq> k" for i
    using that by (simp add: b update_conv')
  show "length w = len" if "map_of b i = Some w" for i w
    using that s len by (auto simp: b update_conv' seen_until_def split: if_splits)
  show "the (map_of b k) ! q \<longleftrightarrow> q < p + 1" if "q < len" for q
    using that v [OF that] len by (cases "q = p") (auto simp: b update_conv')
qed

lemma seen_mark:
  fixes out :: "StepOutputSnapshot option"
  assumes s: "seen_until len a k p" and p: "p < len" and g: "g \<noteq> Some ''break''"
  defines "a' \<equiv> note_mark len (k, p, g, out) a"
  shows "g = Some ''skip'' \<or> p + 1 = len \<Longrightarrow> seen_until len a' (k + 1) 0"
    and "g \<noteq> Some ''skip'' \<Longrightarrow> p + 1 < len \<Longrightarrow> seen_until len a' k (p + 1)"
proof -
  note pos = see_position_seen [OF s p]
  have last: "last_completed a' = Some (k, p)"
    using s by (auto simp: a'_def note_mark_simps see_furthest_def seen_until_def pair_less_def
        split: option.splits if_splits)
  have old: "i \<in> iteration_terminated_by_gate a \<or> (\<forall>q<len. the (map_of (iteration_positions a) i) ! q)" if "i < k" for i
    using s that by (simp add: seen_until_def)
  have same: "broke a' = broke a" "break_iteration a' = break_iteration a"
    "iteration_positions a' = iteration_positions (see_position len k p a)"
    using g by (simp_all add: a'_def note_mark_simps)
  have gates: "iteration_terminated_by_gate a' =
      (if g = Some ''skip'' then insert k else id) (iteration_terminated_by_gate a)"
    by (simp add: a'_def note_mark_simps)
  have below: "\<forall>i \<in> iteration_terminated_by_gate a. i < k" "\<not> broke a" "break_iteration a = None"
    using s by (simp_all add: seen_until_def)
  show "seen_until len a' (k + 1) 0" if "g = Some ''skip'' \<or> p + 1 = len"
    unfolding seen_until_def same gates last
    using pos that old below by (auto simp: less_Suc_eq)
  show "seen_until len a' k (p + 1)" if "g \<noteq> Some ''skip''" "p + 1 < len"
    unfolding seen_until_def same gates last
    using pos that old below by auto
qed

lemma walked_seen:
  "walked len ms k p \<Longrightarrow> 0 < len \<Longrightarrow> seen_until len (fold (note_mark len) ms rebuild0) k p \<and> p < len"
proof (induction rule: walked.induct)
  case walked_start
  then show ?case by (simp add: seen_until_def rebuild0_def)
next
  case (walked_on ms k p g out)
  then show ?case using seen_mark(2) [of len "fold (note_mark len) ms rebuild0" k p g out] by simp
next
  case (walked_last ms k p g out)
  then show ?case using seen_mark(1) [of len "fold (note_mark len) ms rebuild0" k p g out] by simp
next
  case (walked_skip ms k p out)
  then show ?case using seen_mark(1) [of len "fold (note_mark len) ms rebuild0" k p "Some ''skip''" out] by simp
qed

lemma walked_bound: "walked len ms k p \<Longrightarrow> k < 2 ^ 32"
  by (induction rule: walked.induct) auto


lemma walk_done:
  "j \<le> k \<Longrightarrow> (\<And>i. j \<le> i \<Longrightarrow> i < k \<Longrightarrow> brk \<noteq> Some i \<and> (\<exists>v. seen i = Some v \<and> (list_all id v \<or> i \<in> skipped))) \<Longrightarrow>
    k < 2 ^ 32 \<Longrightarrow> walk_iterations brk seen skipped ([j..<k] @ rest) j = walk_iterations brk seen skipped rest k"
proof (induction "k - j" arbitrary: j)
  case (Suc n)
  then have j: "j < k" by simp
  then have up: "[j..<k] = j # [Suc j..<k]" by (rule upt_conv_Cons)
  from Suc.prems(2) [of j] j obtain v where "seen j = Some v" "list_all id v \<or> j \<in> skipped" "brk \<noteq> Some j" by auto
  moreover have "j + 1 \<noteq> 2 ^ 32" using j Suc.prems(3) by simp
  moreover have "walk_iterations brk seen skipped ([Suc j..<k] @ rest) (Suc j) = walk_iterations brk seen skipped rest k"
    using Suc.hyps(2) Suc.prems by (intro Suc.hyps(1)) auto
  ultimately show ?case by (simp add: up)
qed simp

lemma sort_keys: "distinct xs \<Longrightarrow> set xs = {..<m} \<Longrightarrow> sort xs = [0..<m]"
  by (rule sorted_distinct_set_unique) (auto simp: lessThan_atLeast0)

lemma seen_lookup:
  assumes s: "seen_until len a k p" and i: "i < k"
  shows "\<exists>v. map_of (iteration_positions a) i = Some v \<and>
    (list_all id v \<or> i \<in> iteration_terminated_by_gate a)"
proof -
  have "i \<in> set (map fst (iteration_positions a))" using s i by (auto simp: seen_until_def)
  then obtain v where v: "map_of (iteration_positions a) i = Some v"
    by (metis map_of_eq_None_iff not_None_eq list.set_map)
  moreover have "length v = len" using s v by (simp add: seen_until_def)
  moreover have "i \<in> iteration_terminated_by_gate a \<or> (\<forall>q<len. v ! q)"
    using s i v by (auto simp: seen_until_def)
  ultimately show ?thesis by (auto simp: list_all_length)
qed

lemma settle_walked:
  assumes s: "seen_until len a k p" and p: "p < len" and k: "k < 2 ^ 32"
  shows "\<exists>st. settle a = Inr st \<and> next_iteration st = k \<and> \<not> broke st \<and>
    start_position k (only_iteration k (last_completed st)) = p"
proof -
  have its: "sort (map fst (iteration_positions a)) = [0..<k] @ (if p = 0 then [] else [k])"
    using s by (subst sort_keys [where m = "if p = 0 then k else Suc k"]) (auto simp: seen_until_def)
  have brk: "break_iteration a = None" using s by (simp add: seen_until_def)
  have "walk_iterations None (map_of (iteration_positions a)) (iteration_terminated_by_gate a)
      (if p = 0 then [] else [k]) k = Inr k"
  proof (cases "p = 0")
    case False
    have "k \<in> set (map fst (iteration_positions a))" using s False by (simp add: seen_until_def)
    then obtain v where v: "map_of (iteration_positions a) k = Some v"
      by (metis map_of_eq_None_iff not_None_eq list.set_map)
    have "length v = len" "\<forall>q<len. v ! q \<longleftrightarrow> q < p" "k \<notin> iteration_terminated_by_gate a"
      using s False v by (auto simp: seen_until_def)
    then have "\<not> list_all id v" using p by (auto simp: list_all_length)
    then show ?thesis using False v \<open>k \<notin> iteration_terminated_by_gate a\<close> by simp
  qed simp
  then have "walk_iterations (break_iteration a) (map_of (iteration_positions a)) (iteration_terminated_by_gate a)
      (sort (map fst (iteration_positions a))) 0 = Inr k"
    unfolding its brk using seen_lookup [OF s] k by (subst walk_done) auto
  then show ?thesis
    using s by (auto simp: settle_def brk seen_until_def start_position_def only_iteration_def split: option.splits if_splits)
qed

lemma settle_broken:
  fixes out :: "StepOutputSnapshot option"
  assumes s: "seen_until len a k p" and p: "p < len" and k: "k < 2 ^ 32"
  defines "a' \<equiv> note_mark len (k, p, Some ''break'', out) a"
  shows "\<exists>st. settle a' = Inr st \<and> next_iteration st = k \<and> broke st"
proof -
  note pos = see_position_seen [OF s p]
  have same: "iteration_positions a' = iteration_positions (see_position len k p a)"
    "iteration_terminated_by_gate a' = iteration_terminated_by_gate a"
    by (simp_all add: a'_def note_mark_simps)
  have brk: "break_iteration a' = Some k" "broke a'"
    using s by (simp_all add: a'_def note_mark_def see_gate_def see_furthest_def seen_until_def)
  have its: "sort (map fst (iteration_positions a')) = [0..<k] @ [k]"
    unfolding same using pos(1,2) by (subst sort_keys [where m = "Suc k"]) auto
  have "\<exists>v. map_of (iteration_positions a') i = Some v \<and> (list_all id v \<or> i \<in> iteration_terminated_by_gate a')"
    if "i < k" for i
    using seen_lookup [OF s that] pos(4) [of i] that by (simp add: same)
  then have "walk_iterations (Some k) (map_of (iteration_positions a')) (iteration_terminated_by_gate a')
      ([0..<k] @ [k]) 0 = Inr k"
    using k by (subst walk_done) auto
  then show ?thesis by (simp add: settle_def brk its)
qed

text \<open>
  C21: a container resumes where its log stops. When the completions of a container in the log are
  those of \<open>k\<close> iterations of its body, each ended by its last step or by a gate that skips, and of
  the first \<open>p\<close> steps of the next, the replay finds \<open>k\<close> as the iteration to run and the walk over the
  body starts at position \<open>p\<close>: no step of the body is executed twice and none is left out. After a
  gate that breaks, the container is known to have broken in iteration \<open>k\<close>.
\<close>

theorem container_resumes:
  assumes "readable c L" and "walked len ms k p" and "0 < len"
  shows "(marks c L = ms \<longrightarrow> (\<exists>st. rebuild c len L = Inr st \<and> next_iteration st = k \<and> \<not> broke st \<and>
      start_position k (only_iteration k (last_completed st)) = p)) \<and>
    (marks c L = ms @ [(k, p, Some ''break'', out)] \<longrightarrow>
      (\<exists>st. rebuild c len L = Inr st \<and> next_iteration st = k \<and> broke st))"
proof -
  note w = walked_seen [OF assms(2,3)] walked_bound [OF assms(2)]
  have scan: "rebuild c len L = settle (fold (note_mark len) (marks c L) rebuild0)"
    by (simp add: rebuild_def rebuild_scan_marks [OF assms(1)])
  show ?thesis
    using settle_walked [of len "fold (note_mark len) ms rebuild0" k p] w
      settle_broken [of len "fold (note_mark len) ms rebuild0" k p out]
    by (auto simp: scan)
qed


definition done_at :: "nat \<Rightarrow> nat \<Rightarrow> GateOutcome option \<Rightarrow> json" where
  "done_at it pos g = event_json (StepCompleted ''b'' ''cmd'' 0 [] None None None False None
     (Some \<lparr>container = ''c'', iteration = it, position = pos\<rparr>) g None)"

lemma mark_of_done:
  "it < 2 ^ 32 \<Longrightarrow> pos < 2 ^ 32 \<Longrightarrow> scoped_at ''c'' (done_at it pos g) = Some (it, pos) \<and>
     logged_output m (done_at it pos g) = Inr None \<and>
     mark_of ''c'' (done_at it pos g) = Some (it, pos, map_option gate_str g, None)"
  by (cases g) (simp_all add: done_at_def event_json.simps opt_field_def tagged_def tag_of_def scope_json_def json_u_def jget_some_def jget_str_def jget_u64_def
      mark_of_def scoped_at_def logged_output_def as_u32_def)

text \<open>Two iterations of a body of two steps, the first skipped by a gate, the third step to come.\<close>

theorem container_resumes_witness:
  "\<exists>st. rebuild ''c'' 2 [done_at 0 0 (Some Events.Skip), done_at 1 0 None] = Inr st \<and> next_iteration st = 1 \<and>
     \<not> broke st \<and> start_position 1 (only_iteration 1 (last_completed st)) = 1"
proof -
  let ?L = "[done_at 0 0 (Some Events.Skip), done_at 1 0 None]"
  have m: "marks ''c'' ?L = [(0, 0, Some ''skip'', None), (1, 0, None, None)]"
    by (simp add: marks_def mark_of_done List.map_filter_simps)
  have "walked 2 ([] @ [(0, 0, Some ''skip'', None)] @ [(1, 0, None, None)]) 1 1"
    using walked_on [OF walked_skip [OF walked_start]] by simp
  moreover have "readable ''c'' ?L" by (simp add: readable_def mark_of_done)
  ultimately show ?thesis using container_resumes [of "''c''" ?L 2 "marks ''c'' ?L" 1 1] m by simp
qed

end
