(* ===== verification/Schema.thy ===== *)
theory Schema
  imports Workflow
begin

text \<open>
  \<open>src/workflow/schema.rs\<close>: the workflow as its YAML file has it, before the command line turns
  it into the workflow of the harness. A step contains steps (\<open>parallel\<close>), so \<open>StepDef\<close> is a datatype
  over the record \<open>StepFields\<close> of its other fields. A hash map is an association list; a function that
  iterates over one does so in the order of the list, and the theorems hold for every order. The YAML
  values are those of \<open>serde_yaml\<close>.
\<close>

section \<open>YAML values\<close>

datatype yaml =
    YNull
  | YBool bool
  | YInt int
  | YFloat "64 word"
  | YStr string
  | YSeq "yaml list"
  | YMapping "(yaml \<times> yaml) list"
  | YTagged string yaml

type_synonym bag = "(string \<times> yaml) list"

section \<open>The definitions\<close>

datatype OutputType = OutText | OutJson | OutInteger | OutLines | OutBoolean

datatype StepType =
    StCmd | StAgent | StChat | StGate | StRepeat | StMap | StParallel | StCall | StTemplate | StScript

fun show_step_type :: "StepType \<Rightarrow> string" where
  "show_step_type StCmd = ''cmd''"
| "show_step_type StAgent = ''agent''"
| "show_step_type StChat = ''chat''"
| "show_step_type StGate = ''gate''"
| "show_step_type StRepeat = ''repeat''"
| "show_step_type StMap = ''map''"
| "show_step_type StParallel = ''parallel''"
| "show_step_type StCall = ''call''"
| "show_step_type StTemplate = ''template''"
| "show_step_type StScript = ''script''"

record StepFields =
  f_name :: string
  f_type :: StepType
  f_run :: "string option"
  f_prompt :: "string option"
  f_condition :: "string option"
  f_on_pass :: "string option"
  f_on_fail :: "string option"
  f_message :: "string option"
  f_scope :: "string option"
  f_max_iterations :: "nat option"
  f_initial_value :: "yaml option"
  f_items :: "string option"
  f_parallel :: "nat option"
  f_config :: bag
  f_outputs :: "string option"
  f_output_type :: "OutputType option"
  f_async_exec :: "bool option"
  f_env :: env

datatype StepDef = StepDef (fields_of: StepFields) (sub_steps: "StepDef list option")

record ScopeDef =
  sd_steps :: "StepDef list"
  sd_outputs :: "string option"

record PluginDef =
  pl_name :: string
  pl_path :: string

record DashboardConfig =
  db_url :: string
  db_secret :: "string option"
  db_artifacts :: "string list"

record EventsConfig =
  ec_webhook :: "string option"
  ec_file :: "string option"
  ec_dashboard :: "DashboardConfig option"

record WorkflowConfig =
  c_global :: bag
  c_agent :: bag
  c_cmd :: bag
  c_chat :: bag
  c_gate :: bag
  c_patterns :: "(string \<times> bag) list"
  c_plugins :: "PluginDef list"
  c_events :: "EventsConfig option"

record WorkflowDef =
  d_name :: string
  d_version :: nat
  d_description :: "string option"
  d_config :: WorkflowConfig
  d_prompts_dir :: "string option"
  d_scopes :: "(string \<times> ScopeDef) list"
  d_steps :: "StepDef list"
  d_env :: env
  d_branch_strategy :: BranchStrategyYaml
  d_branch_name :: "string option"
  d_base_branch :: "string option"

section \<open>What the readers of a definition share\<close>

text \<open>\<open>is_none_or(|r| r.trim().is_empty())\<close>\<close>

definition blank :: "string option \<Rightarrow> bool" where
  "blank x \<longleftrightarrow> (case x of None \<Rightarrow> True | Some r \<Rightarrow> trim r = [])"

text \<open>The same as a filter, \<open>clone().filter(|c| !c.trim().is_empty())\<close>.\<close>

definition non_blank :: "string option \<Rightarrow> string option" where
  "non_blank x = (case x of None \<Rightarrow> None | Some r \<Rightarrow> if trim r = [] then None else Some r)"

lemma non_blank_iff [simp]:
  "non_blank x = None \<longleftrightarrow> blank x" "non_blank x = Some r \<longleftrightarrow> x = Some r \<and> \<not> blank x"
  by (auto simp: non_blank_def blank_def split: option.split)

definition empty_fields :: "string \<Rightarrow> StepType \<Rightarrow> StepFields" where
  "empty_fields n t = \<lparr>f_name = n, f_type = t, f_run = None, f_prompt = None, f_condition = None,
    f_on_pass = None, f_on_fail = None, f_message = None, f_scope = None, f_max_iterations = None,
    f_initial_value = None, f_items = None, f_parallel = None, f_config = [], f_outputs = None,
    f_output_type = None, f_async_exec = None, f_env = []\<rparr>"

definition empty_config :: WorkflowConfig where
  "empty_config = \<lparr>c_global = [], c_agent = [], c_cmd = [], c_chat = [], c_gate = [], c_patterns = [],
    c_plugins = [], c_events = None\<rparr>"

definition empty_def :: "string \<Rightarrow> WorkflowDef" where
  "empty_def n = \<lparr>d_name = n, d_version = 0, d_description = None, d_config = empty_config,
    d_prompts_dir = None, d_scopes = [], d_steps = [], d_env = [], d_branch_strategy = YHead,
    d_branch_name = None, d_base_branch = None\<rparr>"

text \<open>The steps of a definition, those inside a \<open>parallel\<close> included.\<close>

fun steps_within :: "StepDef \<Rightarrow> StepDef list" where
  "steps_within (StepDef f None) = [StepDef f None]"
| "steps_within (StepDef f (Some ss)) = StepDef f (Some ss) # concat (map steps_within ss)"

definition all_steps :: "WorkflowDef \<Rightarrow> StepDef list" where
  "all_steps d = concat (map steps_within (d_steps d)) @
     concat (map (\<lambda>(n, sc). concat (map steps_within (sd_steps sc))) (d_scopes d))"

lemma steps_within_self [simp]: "s \<in> set (steps_within s)"
  by (cases s rule: steps_within.cases) auto

end
