(* ===== verification/Numbers.thy ===== *)
theory Numbers
  imports Json
begin

text \<open>
  The number parsers of the standard library the configuration is read with: \<open>str::parse::<u64>\<close> and
  \<open>str::parse::<f64>\<close>, and the conversion of an integer to an \<open>f64\<close>. A double is its 64 bits; a
  rational is rounded to the nearest one, ties to even.
\<close>

section \<open>Integers\<close>

text \<open>One leading \<open>+\<close> is accepted, a sign alone and a value beyond 64 bits are not.\<close>

definition unplus :: "string \<Rightarrow> string" where
  "unplus s = (case s of [] \<Rightarrow> [] | c # r \<Rightarrow> if c = CHR ''+'' then r else s)"

definition parse_u64 :: "string \<Rightarrow> nat option" where
  "parse_u64 s =
    (let d = unplus s in
     if d \<noteq> [] \<and> list_all is_digit d \<and> nat_of_digits d < 2 ^ 64 then Some (nat_of_digits d) else None)"

section \<open>Rounding to a double\<close>

fun bit_len :: "nat \<Rightarrow> nat" where
  "bit_len n = (if n = 0 then 0 else Suc (bit_len (n div 2)))"

declare bit_len.simps [simp del]

text \<open>The numerator and the denominator of \<open>n / d / 2 ^ e\<close>.\<close>

definition scaled :: "nat \<Rightarrow> nat \<Rightarrow> int \<Rightarrow> nat \<times> nat" where
  "scaled n d e = (n * 2 ^ nat (- e), d * 2 ^ nat e)"

definition round_even :: "nat \<times> nat \<Rightarrow> nat" where
  "round_even q = (case q of (n, d) \<Rightarrow>
     (let m = n div d; r = n mod d in
      if 2 * r < d then m else if d < 2 * r then m + 1 else if even m then m else m + 1))"

text \<open>The exponent of the last bit: 53 bits of precision, fewer below the normal range.\<close>

definition ulp_exponent :: "nat \<Rightarrow> nat \<Rightarrow> int" where
  "ulp_exponent n d =
    (let e = int (bit_len n) - int (bit_len d) - 53;
         e' = (case scaled n d e of (a, b) \<Rightarrow> if 2 ^ 53 * b \<le> a then e + 1 else e) in
     max e' (- 1074))"

definition f64_infinity :: nat where
  "f64_infinity = 0x7FF0000000000000"

definition f64_round :: "nat \<Rightarrow> nat \<Rightarrow> nat" where
  "f64_round n d =
    (if n = 0 then 0
     else
       (let e = ulp_exponent n d in
        min f64_infinity (nat (e + 1074) * 2 ^ 52 + round_even (scaled n d e))))"

definition f64_signed :: "bool \<Rightarrow> nat \<Rightarrow> 64 word" where
  "f64_signed neg m = of_nat (if neg then 2 ^ 63 + m else m)"

definition f64_of_int :: "int \<Rightarrow> 64 word" where
  "f64_of_int i = f64_signed (i < 0) (f64_round (nat \<bar>i\<bar>) 1)"

section \<open>Decimal notation\<close>

definition parse_exponent :: "string \<Rightarrow> int option" where
  "parse_exponent s =
    (case s of
       [] \<Rightarrow> Some 0
     | c # r \<Rightarrow>
       if c \<noteq> CHR ''e'' \<and> c \<noteq> CHR ''E'' then None
       else
         (let neg = (r \<noteq> [] \<and> hd r = CHR ''-''); d = (if neg then tl r else unplus r) in
          if d = [] \<or> \<not> list_all is_digit d then None
          else Some (if neg then - int (nat_of_digits d) else int (nat_of_digits d))))"

definition special_f64 :: "string \<Rightarrow> nat option" where
  "special_f64 s =
    (let l = to_ascii_lowercase s in
     if l = ''inf'' \<or> l = ''infinity'' then Some f64_infinity
     else if l = ''nan'' then Some 0x7FF8000000000000 else None)"

definition parse_f64_abs :: "string \<Rightarrow> nat option" where
  "parse_f64_abs s =
    (let ip = takeWhile is_digit s; r = dropWhile is_digit s;
         dot = (r \<noteq> [] \<and> hd r = CHR ''.'');
         fp = (if dot then takeWhile is_digit (tl r) else []);
         r2 = (if dot then dropWhile is_digit (tl r) else r) in
     if ip = [] \<and> fp = [] then special_f64 s
     else
       (case parse_exponent r2 of
          None \<Rightarrow> None
        | Some x \<Rightarrow>
          (let e = x - int (length fp) in
           Some (f64_round (nat_of_digits (ip @ fp) * 10 ^ nat e) (10 ^ nat (- e))))))"

definition parse_f64 :: "string \<Rightarrow> 64 word option" where
  "parse_f64 s =
    (case s of
       [] \<Rightarrow> None
     | c # r \<Rightarrow>
       if c = CHR ''-'' then map_option (f64_signed True) (parse_f64_abs r)
       else map_option (f64_signed False) (parse_f64_abs (unplus s)))"

section \<open>Evaluation\<close>

lemma bit_len_numeral [simp]:
  "bit_len 0 = 0" "bit_len (Suc 0) = 1" "bit_len (numeral num.One) = 1"
  "bit_len (numeral (num.Bit0 k)) = Suc (bit_len (numeral k))"
  "bit_len (numeral (num.Bit1 k)) = Suc (bit_len (numeral k))"
  by (subst bit_len.simps, simp add: bit_len.simps [of 0])+

lemma f64_of_half: "f64_signed False (f64_round 5 10) = 0x3FE0000000000000"
  by (simp add: f64_round_def ulp_exponent_def scaled_def round_even_def f64_infinity_def f64_signed_def)

lemma parse_u64_digits: "parse_u64 s = Some n \<Longrightarrow> n < 2 ^ 64"
  by (auto simp: parse_u64_def Let_def split: if_splits)

end
