(* ===== verification/Adapter.thy ===== *)
theory Adapter
  imports Schema Numbers
begin

text \<open>
  \<open>src/cli/harness_adapter.rs\<close>: from the workflow of the YAML file to the workflow of the harness. The
  conversion of a YAML value to JSON and the equality of YAML values are \<open>serde\<close>'s: parameters, in the
  record \<open>YamlLib\<close>. A number of \<open>serde_yaml\<close> reads as an unsigned integer when it is one, and as a
  double by the conversion of the language.
\<close>

record YamlLib =
  yaml_eq :: "yaml \<Rightarrow> yaml \<Rightarrow> bool"
  yaml_to_value :: "yaml \<Rightarrow> (string, json) result"

fun yaml_str :: "yaml \<Rightarrow> string option" where
  "yaml_str (YStr s) = Some s"
| "yaml_str (YTagged t v) = yaml_str v"
| "yaml_str _ = None"

section \<open>Errors\<close>

datatype AdapterError =
    UnsupportedStepType StepType
  | CmdMissingRun string
  | ScriptMissingRun string
  | GateMissingCondition string
  | TopLevelGateUnsupportedAction string string string
  | ScopedGateUnsupportedAction string string string
  | ContainerMissingScope string string
  | MapMissingItems string
  | UnknownScope string string string
  | NestedScopesNotSupported string string string
  | ScopedStepUnsupported string string StepType
  | InitialValueNotJson string string string
  | AgentMissingPrompt string
  | AgentConfigNotString string string
  | AgentResumeAndForkConflict string
  | AgentInvalidPermissions string string
  | AgentInvalidSession string string
  | ChatMissingPrompt string
  | ChatConfigNotString string string
  | ChatConfigNotU64 string string
  | ChatConfigNotF64 string string
  | ChatUnknownProvider string string
  | ChatOpenAiCompatibleMissingBaseUrl string
  | ChatInvalidTruncationStrategy string string
  | ChatInvalidTimeout string string
  | ParallelMissingSteps string
  | ParallelSubStepUnsupported string string StepType
  | ParallelSynthScopeCollision string string

primrec show_adapter_error :: "AdapterError \<Rightarrow> string" where
  "show_adapter_error (UnsupportedStepType t) =
    ''step type `'' @ show_step_type t @ ''` not yet supported by v2 engine '' @ em_dash @
    '' use --engine v1 or migrate the workflow to a supported kind (cmd, gate, call, repeat, map, template, script, agent, chat)''"
| "show_adapter_error (CmdMissingRun n) =
    ''step `'' @ n @ ''` has type cmd but no `run:` field''"
| "show_adapter_error (ScriptMissingRun n) =
    ''script step `'' @ n @ ''` has no `run:` source''"
| "show_adapter_error (GateMissingCondition n) =
    ''gate step `'' @ n @ ''` is missing `condition:`''"
| "show_adapter_error (TopLevelGateUnsupportedAction n a v) =
    ''top-level gate step `'' @ n @ ''` action `'' @ a @ ''=\"'' @ v @ ''\"` is not supported '' @ em_dash @
    '' `break` / `skip` only apply inside a call/repeat/map scope body (allowed at top level: continue, fail)''"
| "show_adapter_error (ScopedGateUnsupportedAction n a v) =
    ''scoped gate step `'' @ n @ ''` action `'' @ a @ ''=\"'' @ v @
    ''\"` is not a recognized scope outcome (allowed inside a scope: continue, skip, break, fail)''"
| "show_adapter_error (ContainerMissingScope n k) =
    k @ '' step `'' @ n @ ''` is missing `scope:`''"
| "show_adapter_error (MapMissingItems n) =
    ''map step `'' @ n @ ''` is missing `items:`''"
| "show_adapter_error (UnknownScope n k sc) =
    k @ '' step `'' @ n @ ''` references scope `'' @ sc @
    ''` which is not declared in the workflow's `scopes:` block''"
| "show_adapter_error (NestedScopesNotSupported sc i k) =
    ''nested containers are not supported in PR 3 of #31 '' @ em_dash @ '' '' @ k @ '' step `'' @ i @
    ''` inside scope `'' @ sc @ ''` must be a non-container kind (cmd, gate)''"
| "show_adapter_error (ScopedStepUnsupported sc i t) =
    ''scope `'' @ sc @ ''` contains step `'' @ i @ ''` of type `'' @ show_step_type t @
    ''` which is not supported inside v2 scope bodies in PR 4 of #31 (allowed inside scopes: cmd, gate)''"
| "show_adapter_error (InitialValueNotJson n f e) =
    ''step `'' @ n @ ''` field `'' @ f @
    '':` value is not representable as JSON (harness stores container seeds as JSON): '' @ e"
| "show_adapter_error (AgentMissingPrompt n) =
    ''agent step `'' @ n @ ''` is missing `prompt:`''"
| "show_adapter_error (AgentConfigNotString n k) =
    ''agent step `'' @ n @ ''` has non-string `config.'' @ k @ ''` '' @ em_dash @
    '' expected a quoted string (v1 parity: agent fields are always strings in the legacy config bag)''"
| "show_adapter_error (AgentResumeAndForkConflict n) =
    ''agent step `'' @ n @ ''` declares both `resume:` and `fork_session:` '' @ em_dash @
    '' pick one (v2 adapter rejects the combination explicitly; v1 silently appended `--resume` twice)''"
| "show_adapter_error (AgentInvalidPermissions n v) =
    ''agent step `'' @ n @ ''` has `config.permissions=\"'' @ v @ ''\"` '' @ em_dash @
    '' expected `default` or `skip`''"
| "show_adapter_error (AgentInvalidSession n v) =
    ''agent step `'' @ n @ ''` has `config.session=\"'' @ v @ ''\"` '' @ em_dash @
    '' expected `shared` or `isolated`''"
| "show_adapter_error (ChatMissingPrompt n) =
    ''chat step `'' @ n @ ''` is missing `prompt:`''"
| "show_adapter_error (ChatConfigNotString n k) =
    ''chat step `'' @ n @ ''` has non-string `config.'' @ k @ ''` '' @ em_dash @
    '' expected a quoted string (v1 parity: chat provider/model/api_key_env/base_url/session/truncation_strategy are always strings in the legacy config bag)''"
| "show_adapter_error (ChatConfigNotU64 n k) =
    ''chat step `'' @ n @ ''` has non-integer `config.'' @ k @ ''` '' @ em_dash @
    '' expected a non-negative integer (v1 parity: numeric chat knobs parse as u64)''"
| "show_adapter_error (ChatConfigNotF64 n k) =
    ''chat step `'' @ n @ ''` has non-numeric `config.'' @ k @ ''` '' @ em_dash @
    '' expected a floating-point number (v1 parity: temperature parses as f64)''"
| "show_adapter_error (ChatUnknownProvider n v) =
    ''chat step `'' @ n @ ''` has unknown `config.provider=\"'' @ v @ ''\"` '' @ em_dash @
    '' set `config.base_url:` to treat it as an OpenAI-compatible endpoint, or use a known provider (anthropic, openai, ollama, groq, deepseek, gemini/google, cohere, perplexity, xai/grok, mistral)''"
| "show_adapter_error (ChatOpenAiCompatibleMissingBaseUrl n) =
    ''chat step `'' @ n @ ''` uses `config.provider=\"openai_compatible\"` but no `config.base_url:` '' @
    em_dash @ '' set `base_url:` to the endpoint URL so the runtime knows where to POST''"
| "show_adapter_error (ChatInvalidTruncationStrategy n v) =
    ''chat step `'' @ n @ ''` has `config.truncation_strategy=\"'' @ v @ ''\"` '' @ em_dash @
    '' expected one of: none, last, first, first_last, sliding_window''"
| "show_adapter_error (ChatInvalidTimeout n v) =
    ''chat step `'' @ n @ ''` has malformed `config.timeout=\"'' @ v @ ''\"` '' @ em_dash @
    '' expected a non-negative integer optionally suffixed with `ms`, `s`, or `m` (v1 parity: bare numbers are seconds)''"
| "show_adapter_error (ParallelMissingSteps n) =
    ''parallel step `'' @ n @ ''` has no `steps:` block '' @ em_dash @
    '' parallel must list at least one sub-step (v1 parity)''"
| "show_adapter_error (ParallelSubStepUnsupported p i t) =
    ''parallel step `'' @ p @ ''` sub-step `'' @ i @ ''` has type `'' @ show_step_type t @
    ''` which is not supported in v2 parallel (allowed inside parallel: cmd, agent, chat)''"
| "show_adapter_error (ParallelSynthScopeCollision n sc) =
    ''parallel step `'' @ n @ ''` synthesises scope `'' @ sc @
    ''` but the workflow already declares a scope with that name '' @ em_dash @
    '' `__parallel_*` is reserved for adapter-synthesised parallel scopes; rename the user-declared scope''"

datatype StepPosition = TopLevel | Scoped

section \<open>Inherited configuration\<close>

definition INHERITED_CHAT_KEYS :: "string list" where
  "INHERITED_CHAT_KEYS = [''provider'', ''model'', ''api_key_env'', ''base_url'', ''temperature'', ''max_tokens'', ''timeout'']"

definition PROVIDER_BOUND_CHAT_KEYS :: "string list" where
  "PROVIDER_BOUND_CHAT_KEYS = [''model'', ''api_key_env'', ''base_url'']"

definition INHERITED_AGENT_KEYS :: "string list" where
  "INHERITED_AGENT_KEYS = [''model'', ''command'']"

text \<open>\<open>entry(key).or_insert_with(value)\<close>\<close>

definition or_insert :: "string \<Rightarrow> yaml \<Rightarrow> bag \<Rightarrow> bag" where
  "or_insert k v b = (case map_of b k of None \<Rightarrow> b @ [(k, v)] | Some _ \<Rightarrow> b)"

definition coerce_numeric_string :: "string \<Rightarrow> yaml \<Rightarrow> yaml" where
  "coerce_numeric_string key v =
    (if key = ''temperature'' \<or> key = ''max_tokens'' then
       (case yaml_str v of
          None \<Rightarrow> v
        | Some raw \<Rightarrow>
          (case parse_u64 (trim raw) of
             Some n \<Rightarrow> YInt (int n)
           | None \<Rightarrow>
             (case parse_f64 (trim raw) of
                Some f \<Rightarrow> YFloat f
              | None \<Rightarrow> v)))
     else v)"

definition provider_differs :: "YamlLib \<Rightarrow> bag \<Rightarrow> bag \<Rightarrow> bool" where
  "provider_differs Y config chat =
    (case (map_of config ''provider'', map_of chat ''provider'') of
       (Some own, Some layer) \<Rightarrow> \<not> yaml_eq Y own layer
     | (Some own, None) \<Rightarrow> yaml_str own \<noteq> Some ''anthropic''
     | _ \<Rightarrow> False)"

text \<open>The loop over the keys of a layer, those to skip left out.\<close>

fun inherit_keys :: "string list \<Rightarrow> (string \<Rightarrow> bool) \<Rightarrow> (string \<Rightarrow> yaml \<Rightarrow> yaml) \<Rightarrow> bag \<Rightarrow> bag \<Rightarrow> bag" where
  "inherit_keys [] skip f layer config = config"
| "inherit_keys (k # ks) skip f layer config =
    inherit_keys ks skip f layer
      (if skip k then config
       else (case map_of layer k of None \<Rightarrow> config | Some v \<Rightarrow> or_insert k (f k v) config))"

definition inherit_fields :: "YamlLib \<Rightarrow> bag \<Rightarrow> bag \<Rightarrow> StepFields \<Rightarrow> StepFields" where
  "inherit_fields Y chat agent f =
    (case f_type f of
       StChat \<Rightarrow>
         (let differs = provider_differs Y (f_config f) chat in
          f\<lparr>f_config := inherit_keys INHERITED_CHAT_KEYS (\<lambda>k. differs \<and> k \<in> set PROVIDER_BOUND_CHAT_KEYS)
            coerce_numeric_string chat (f_config f)\<rparr>)
     | StAgent \<Rightarrow> f\<lparr>f_config := inherit_keys INHERITED_AGENT_KEYS (\<lambda>k. False) (\<lambda>k v. v) agent (f_config f)\<rparr>
     | _ \<Rightarrow> f)"

fun inherit_step_config :: "YamlLib \<Rightarrow> bag \<Rightarrow> bag \<Rightarrow> StepDef \<Rightarrow> StepDef" where
  "inherit_step_config Y chat agent (StepDef f children) =
    StepDef (inherit_fields Y chat agent f) (map_option (map (inherit_step_config Y chat agent)) children)"

definition with_inherited_type_config :: "YamlLib \<Rightarrow> WorkflowDef \<Rightarrow> WorkflowDef" where
  "with_inherited_type_config Y d =
    (let chat = c_chat (d_config d); agent = c_agent (d_config d) in
     if chat = [] \<and> agent = [] then d
     else
       d\<lparr>d_steps := map (inherit_step_config Y chat agent) (d_steps d),
         d_scopes := map (\<lambda>(n, sc). (n, sc\<lparr>sd_steps := map (inherit_step_config Y chat agent) (sd_steps sc)\<rparr>))
           (d_scopes d)\<rparr>)"

section \<open>Guards\<close>

fun container_kind :: "StepType \<Rightarrow> string option" where
  "container_kind StCall = Some ''call''"
| "container_kind StRepeat = Some ''repeat''"
| "container_kind StMap = Some ''map''"
| "container_kind StParallel = Some ''parallel''"
| "container_kind _ = None"

definition scope_body_kind_supported :: "StepType \<Rightarrow> bool" where
  "scope_body_kind_supported t \<longleftrightarrow> t \<in> {StCmd, StGate, StAgent, StChat}"

definition require_scope_ref :: "StepFields \<Rightarrow> string \<Rightarrow> string set \<Rightarrow> (AdapterError, string) result" where
  "require_scope_ref s kind names =
    res_bind (ok_or (ContainerMissingScope (f_name s) kind) (non_blank (f_scope s))) (\<lambda>scope.
      if scope \<notin> names then Inl (UnknownScope (f_name s) kind scope) else Inr scope)"

fun allowed_actions :: "StepPosition \<Rightarrow> string list" where
  "allowed_actions TopLevel = [''continue'', ''fail'']"
| "allowed_actions Scoped = [''continue'', ''fail'', ''skip'', ''break'']"

definition validate_gate_action :: "string \<Rightarrow> string \<Rightarrow> string option \<Rightarrow> StepPosition \<Rightarrow> (AdapterError, unit) result" where
  "validate_gate_action n field raw pos =
    (let trimmed = (case raw of None \<Rightarrow> [] | Some r \<Rightarrow> trim r) in
     if trimmed = [] then Inr ()
     else if trimmed \<in> set (allowed_actions pos) then Inr ()
     else Inl (case pos of
        TopLevel \<Rightarrow> TopLevelGateUnsupportedAction n field trimmed
      | Scoped \<Rightarrow> ScopedGateUnsupportedAction n field trimmed))"

section \<open>Reading the configuration of a step\<close>

definition agent_config_str :: "StepFields \<Rightarrow> string \<Rightarrow> (AdapterError, string option) result" where
  "agent_config_str s key =
    (case map_of (f_config s) key of
       None \<Rightarrow> Inr None
     | Some YNull \<Rightarrow> Inr None
     | Some (YStr v) \<Rightarrow> Inr (Some v)
     | Some _ \<Rightarrow> Inl (AgentConfigNotString (f_name s) key))"

definition parse_agent_permissions :: "string \<Rightarrow> string \<Rightarrow> (AdapterError, AgentPermissions) result" where
  "parse_agent_permissions n v =
    (if v = ''default'' then Inr PermDefault
     else if v = ''skip'' then Inr PermSkip
     else Inl (AgentInvalidPermissions n v))"

definition parse_agent_session :: "string \<Rightarrow> string \<Rightarrow> (AdapterError, AgentSessionMode) result" where
  "parse_agent_session n v =
    (if v = ''shared'' then Inr Shared
     else if v = ''isolated'' then Inr Isolated
     else Inl (AgentInvalidSession n v))"

definition chat_config_str :: "StepFields \<Rightarrow> string \<Rightarrow> (AdapterError, string option) result" where
  "chat_config_str s key =
    (case map_of (f_config s) key of
       None \<Rightarrow> Inr None
     | Some YNull \<Rightarrow> Inr None
     | Some (YStr v) \<Rightarrow> Inr (Some v)
     | Some _ \<Rightarrow> Inl (ChatConfigNotString (f_name s) key))"

definition chat_config_u64 :: "StepFields \<Rightarrow> string \<Rightarrow> (AdapterError, nat option) result" where
  "chat_config_u64 s key =
    (case map_of (f_config s) key of
       None \<Rightarrow> Inr None
     | Some YNull \<Rightarrow> Inr None
     | Some (YInt i) \<Rightarrow> if 0 \<le> i \<and> i < 2 ^ 64 then Inr (Some (nat i)) else Inl (ChatConfigNotU64 (f_name s) key)
     | Some _ \<Rightarrow> Inl (ChatConfigNotU64 (f_name s) key))"

definition chat_config_f64 :: "StepFields \<Rightarrow> string \<Rightarrow> (AdapterError, 64 word option) result" where
  "chat_config_f64 s key =
    (case map_of (f_config s) key of
       None \<Rightarrow> Inr None
     | Some YNull \<Rightarrow> Inr None
     | Some (YInt i) \<Rightarrow> Inr (Some (f64_of_int i))
     | Some (YFloat f) \<Rightarrow> Inr (Some f)
     | Some _ \<Rightarrow> Inl (ChatConfigNotF64 (f_name s) key))"

definition parse_chat_provider :: "string \<Rightarrow> string \<Rightarrow> string option \<Rightarrow> (AdapterError, ChatProvider) result" where
  "parse_chat_provider n v base_url =
    (if v = ''anthropic'' then Inr Anthropic
     else if v = ''openai'' then Inr OpenAi
     else if v = ''ollama'' then Inr Ollama
     else if v = ''groq'' then Inr Groq
     else if v = ''deepseek'' then Inr DeepSeek
     else if v = ''gemini'' \<or> v = ''google'' then Inr Gemini
     else if v = ''cohere'' then Inr Cohere
     else if v = ''perplexity'' then Inr Perplexity
     else if v = ''xai'' \<or> v = ''grok'' then Inr Xai
     else if v = ''mistral'' then Inr Mistral
     else if v = ''openai_compatible'' then
       (if base_url \<noteq> None then Inr OpenAiCompatible else Inl (ChatOpenAiCompatibleMissingBaseUrl n))
     else (if base_url \<noteq> None then Inr OpenAiCompatible else Inl (ChatUnknownProvider n v)))"

definition parse_chat_truncation :: "StepFields \<Rightarrow> (AdapterError, ChatTruncation option) result" where
  "parse_chat_truncation s =
    res_bind (chat_config_str s ''truncation_strategy'') (\<lambda>strategy.
      case strategy of
        None \<Rightarrow> Inr None
      | Some v \<Rightarrow>
        if v = ''none'' then Inr None
        else if v = ''last'' then
          res_bind (chat_config_u64 s ''truncation_count'') (\<lambda>c. Inr (Some (TLast (case c of None \<Rightarrow> 10 | Some n \<Rightarrow> n))))
        else if v = ''first'' then
          res_bind (chat_config_u64 s ''truncation_count'') (\<lambda>c. Inr (Some (TFirst (case c of None \<Rightarrow> 10 | Some n \<Rightarrow> n))))
        else if v = ''first_last'' then
          res_bind (chat_config_u64 s ''truncation_first'') (\<lambda>a.
          res_bind (chat_config_u64 s ''truncation_last'') (\<lambda>b. Inr (Some (TFirstLast
            (case a of None \<Rightarrow> 2 | Some n \<Rightarrow> n) (case b of None \<Rightarrow> 5 | Some n \<Rightarrow> n)))))
        else if v = ''sliding_window'' then
          res_bind (chat_config_u64 s ''truncation_max_tokens'') (\<lambda>c.
            Inr (Some (TSlidingWindow (case c of None \<Rightarrow> 50000 | Some n \<Rightarrow> n))))
        else Inl (ChatInvalidTruncationStrategy (f_name s) v))"

definition trim_end :: "string \<Rightarrow> string" where
  "trim_end s = rev (trim_rev (rev s))"

definition timeout_parts :: "string \<Rightarrow> string \<times> nat" where
  "timeout_parts t =
    (if ends_with t ''ms'' then (trim_end (take (length t - 2) t), 1)
     else if ends_with t ''s'' then (trim_end (butlast t), 1000)
     else if ends_with t ''m'' then (trim_end (butlast t), 60000)
     else (t, 1000))"

definition parse_chat_timeout_duration :: "StepFields \<Rightarrow> (AdapterError, duration option) result" where
  "parse_chat_timeout_duration s =
    res_bind (chat_config_str s ''timeout'') (\<lambda>r.
      case r of
        None \<Rightarrow> Inr None
      | Some raw \<Rightarrow>
        (case timeout_parts (trim raw) of (digits, unit_ms) \<Rightarrow>
          (case parse_u64 digits of
             None \<Rightarrow> Inl (ChatInvalidTimeout (f_name s) raw)
           | Some n \<Rightarrow>
             if n * unit_ms < 2 ^ 64 then Inr (Some (from_millis (n * unit_ms)))
             else Inl (ChatInvalidTimeout (f_name s) raw))))"

section \<open>One step of each type\<close>

definition adapt_cmd :: "StepFields \<Rightarrow> (AdapterError, Step) result" where
  "adapt_cmd s =
    res_bind (ok_or (CmdMissingRun (f_name s)) (f_run s)) (\<lambda>cmd. Inr (with_env (step_cmd (f_name s) cmd) (f_env s)))"

definition adapt_gate :: "StepFields \<Rightarrow> StepPosition \<Rightarrow> (AdapterError, Step) result" where
  "adapt_gate s pos =
    res_bind (ok_or (GateMissingCondition (f_name s)) (non_blank (f_condition s))) (\<lambda>cond.
    res_bind (validate_gate_action (f_name s) ''on_pass'' (f_on_pass s) pos) (\<lambda>_.
    res_bind (validate_gate_action (f_name s) ''on_fail'' (f_on_fail s) pos) (\<lambda>_.
      Inr ((step_gate (f_name s) cond)\<lparr>s_on_pass := f_on_pass s, s_on_fail := f_on_fail s,
        s_message := f_message s, s_env := f_env s\<rparr>))))"

definition yaml_to_json :: "YamlLib \<Rightarrow> yaml \<Rightarrow> string \<Rightarrow> string \<Rightarrow> (AdapterError, json) result" where
  "yaml_to_json Y v n field = map_err (InitialValueNotJson n field) (yaml_to_value Y v)"

definition apply_common_container_fields :: "YamlLib \<Rightarrow> Step \<Rightarrow> StepFields \<Rightarrow> (AdapterError, Step) result" where
  "apply_common_container_fields Y st s =
    (let st1 = st\<lparr>s_env := f_env s, s_outputs := f_outputs s\<rparr> in
     (case f_initial_value s of
        None \<Rightarrow> Inr st1
      | Some v \<Rightarrow>
        res_bind (yaml_to_json Y v (f_name s) ''initial_value'') (\<lambda>j. Inr (st1\<lparr>s_initial_value := Some j\<rparr>))))"

definition adapt_call :: "YamlLib \<Rightarrow> StepFields \<Rightarrow> string set \<Rightarrow> (AdapterError, Step) result" where
  "adapt_call Y s names =
    res_bind (require_scope_ref s ''call'' names) (\<lambda>scope.
      apply_common_container_fields Y (step_call (f_name s) scope) s)"

definition adapt_repeat :: "YamlLib \<Rightarrow> StepFields \<Rightarrow> string set \<Rightarrow> (AdapterError, Step) result" where
  "adapt_repeat Y s names =
    res_bind (require_scope_ref s ''repeat'' names) (\<lambda>scope.
      apply_common_container_fields Y ((step_repeat (f_name s) scope)\<lparr>s_max_iterations := f_max_iterations s\<rparr>) s)"

definition adapt_map :: "YamlLib \<Rightarrow> StepFields \<Rightarrow> string set \<Rightarrow> (AdapterError, Step) result" where
  "adapt_map Y s names =
    res_bind (require_scope_ref s ''map'' names) (\<lambda>scope.
    res_bind (ok_or (MapMissingItems (f_name s)) (non_blank (f_items s))) (\<lambda>items.
      apply_common_container_fields Y ((step_map (f_name s) scope items)\<lparr>s_parallel := f_parallel s\<rparr>) s))"

definition adapt_template :: "StepFields \<Rightarrow> (AdapterError, Step) result" where
  "adapt_template s = Inr ((step_template (f_name s) (f_prompt s))\<lparr>s_env := f_env s\<rparr>)"

definition adapt_script :: "StepFields \<Rightarrow> (AdapterError, Step) result" where
  "adapt_script s =
    res_bind (ok_or (ScriptMissingRun (f_name s)) (non_blank (f_run s))) (\<lambda>source.
      Inr (with_env (step_script (f_name s) source) (f_env s)))"

text \<open>\<open>if let Some(value) = \<dots> { field = Some(parse(value)?) }\<close>\<close>

definition parse_opt :: "(string \<Rightarrow> (AdapterError, 'a) result) \<Rightarrow> string option \<Rightarrow> (AdapterError, 'a option) result" where
  "parse_opt f x = (case x of None \<Rightarrow> Inr None | Some v \<Rightarrow> res_bind (f v) (\<lambda>a. Inr (Some a)))"

definition adapt_agent :: "StepFields \<Rightarrow> (AdapterError, Step) result" where
  "adapt_agent s =
    res_bind (ok_or (AgentMissingPrompt (f_name s)) (non_blank (f_prompt s))) (\<lambda>prompt.
    res_bind (agent_config_str s ''model'') (\<lambda>model.
    res_bind (agent_config_str s ''system_prompt_append'') (\<lambda>append.
    res_bind (agent_config_str s ''permissions'') (\<lambda>perm.
    res_bind (parse_opt (parse_agent_permissions (f_name s)) perm) (\<lambda>permissions.
    res_bind (agent_config_str s ''resume'') (\<lambda>resume.
    res_bind (agent_config_str s ''fork_session'') (\<lambda>fork.
      if resume \<noteq> None \<and> fork \<noteq> None then Inl (AgentResumeAndForkConflict (f_name s))
      else
        res_bind (agent_config_str s ''session'') (\<lambda>sess.
        res_bind (parse_opt (parse_agent_session (f_name s)) sess) (\<lambda>session.
        res_bind (agent_config_str s ''command'') (\<lambda>command.
          Inr ((with_env (step_agent (f_name s) prompt) (f_env s))\<lparr>s_model := model,
            s_system_prompt_append := append, s_permissions := permissions, s_resume := resume,
            s_fork_session := fork, s_agent_session := session, s_agent_command := command\<rparr>)))))))))))"

definition parse_chat_step :: "StepFields \<Rightarrow> (AdapterError, Step) result" where
  "parse_chat_step s =
    res_bind (ok_or (ChatMissingPrompt (f_name s)) (non_blank (f_prompt s))) (\<lambda>prompt.
    res_bind (chat_config_str s ''provider'') (\<lambda>p.
    res_bind (chat_config_str s ''base_url'') (\<lambda>base_url.
    res_bind (parse_chat_provider (f_name s) (case p of None \<Rightarrow> ''anthropic'' | Some v \<Rightarrow> v) base_url) (\<lambda>provider.
    res_bind (chat_config_str s ''model'') (\<lambda>model.
    res_bind (chat_config_str s ''api_key_env'') (\<lambda>key.
    res_bind (chat_config_u64 s ''max_tokens'') (\<lambda>max_tokens.
    res_bind (chat_config_f64 s ''temperature'') (\<lambda>temperature.
    res_bind (parse_chat_timeout_duration s) (\<lambda>timeout.
    res_bind (chat_config_str s ''session'') (\<lambda>session.
    res_bind (parse_chat_truncation s) (\<lambda>truncation.
      Inr ((with_env (step_chat (f_name s) prompt) (f_env s))\<lparr>
        s_model := Some (case model of None \<Rightarrow> default_model provider | Some m \<Rightarrow> m),
        s_api_key_env := (case key of Some v \<Rightarrow> Some v | None \<Rightarrow> default_api_key_env provider),
        s_max_tokens := Some (case max_tokens of None \<Rightarrow> 1024 | Some n \<Rightarrow> n),
        s_temperature := Some (case temperature of None \<Rightarrow> 0 | Some t \<Rightarrow> t),
        s_timeout := Some (case timeout of None \<Rightarrow> from_millis 120000 | Some t \<Rightarrow> t),
        s_chat_provider := Some provider, s_base_url := base_url, s_chat_session := session,
        s_truncation := truncation\<rparr>))))))))))))"

definition adapt_step :: "YamlLib \<Rightarrow> StepFields \<Rightarrow> string set \<Rightarrow> StepPosition \<Rightarrow> (AdapterError, Step) result" where
  "adapt_step Y s names pos =
    (case f_type s of
       StCmd \<Rightarrow> adapt_cmd s
     | StGate \<Rightarrow> adapt_gate s pos
     | StCall \<Rightarrow> adapt_call Y s names
     | StRepeat \<Rightarrow> adapt_repeat Y s names
     | StMap \<Rightarrow> adapt_map Y s names
     | StTemplate \<Rightarrow> adapt_template s
     | StScript \<Rightarrow> adapt_script s
     | StAgent \<Rightarrow> adapt_agent s
     | StChat \<Rightarrow> parse_chat_step s
     | other \<Rightarrow> Inl (UnsupportedStepType other))"

section \<open>Scopes, parallel and the workflow\<close>

text \<open>The loop of \<open>adapt_scope\<close> over the steps of a scope.\<close>

fun adapt_scope_body :: "YamlLib \<Rightarrow> string \<Rightarrow> string set \<Rightarrow> StepDef list \<Rightarrow> (AdapterError, Step list) result" where
  "adapt_scope_body Y scope names [] = Inr []"
| "adapt_scope_body Y scope names (s # ss) =
    (let f = fields_of s in
     case container_kind (f_type f) of
       Some kind \<Rightarrow> Inl (NestedScopesNotSupported scope (f_name f) kind)
     | None \<Rightarrow>
       if \<not> scope_body_kind_supported (f_type f) then Inl (ScopedStepUnsupported scope (f_name f) (f_type f))
       else
         res_bind (adapt_step Y f names Scoped) (\<lambda>st.
         res_bind (adapt_scope_body Y scope names ss) (\<lambda>body. Inr (st # body))))"

definition adapt_scope :: "YamlLib \<Rightarrow> string \<Rightarrow> ScopeDef \<Rightarrow> string set \<Rightarrow> (AdapterError, Scope) result" where
  "adapt_scope Y scope sd names =
    res_bind (adapt_scope_body Y scope names (sd_steps sd)) (\<lambda>body.
      Inr \<lparr>sc_steps = body, sc_outputs = sd_outputs sd\<rparr>)"

definition synth_name :: "nat \<Rightarrow> string" where
  "synth_name i = ''__parallel_'' @ show_nat i"

fun adapt_parallel_body :: "YamlLib \<Rightarrow> string \<Rightarrow> string \<Rightarrow> StepDef list \<Rightarrow> (AdapterError, Step list) result" where
  "adapt_parallel_body Y parent synth [] = Inr []"
| "adapt_parallel_body Y parent synth (s # ss) =
    (let f = fields_of s in
     case container_kind (f_type f) of
       Some kind \<Rightarrow> Inl (NestedScopesNotSupported synth (f_name f) kind)
     | None \<Rightarrow>
       if f_type f \<notin> {StCmd, StAgent, StChat} then Inl (ParallelSubStepUnsupported parent (f_name f) (f_type f))
       else
         res_bind (adapt_step Y f {} Scoped) (\<lambda>st.
         res_bind (adapt_parallel_body Y parent synth ss) (\<lambda>body. Inr (st # body))))"

definition adapt_parallel :: "YamlLib \<Rightarrow> StepDef \<Rightarrow> nat \<Rightarrow> (AdapterError, Step \<times> string \<times> Scope) result" where
  "adapt_parallel Y s i =
    (let f = fields_of s in
     case sub_steps s of
       None \<Rightarrow> Inl (ParallelMissingSteps (f_name f))
     | Some raw \<Rightarrow>
       if raw = [] then Inl (ParallelMissingSteps (f_name f))
       else
         res_bind (adapt_parallel_body Y (f_name f) (synth_name i) raw) (\<lambda>body.
         res_bind (apply_common_container_fields Y (step_parallel (f_name f) (synth_name i)) f) (\<lambda>st.
           Inr (st, synth_name i, \<lparr>sc_steps = body, sc_outputs = None\<rparr>))))"

text \<open>The loop over the steps of the workflow: the steps and the scopes made for \<open>parallel\<close>.\<close>

fun adapt_top ::
  "YamlLib \<Rightarrow> string set \<Rightarrow> nat \<Rightarrow> StepDef list \<Rightarrow> (AdapterError, Step list \<times> (string \<times> Scope) list) result" where
  "adapt_top Y names i [] = Inr ([], [])"
| "adapt_top Y names i (s # ss) =
    (if f_type (fields_of s) = StParallel then
       res_bind (adapt_parallel Y s i) (\<lambda>(st, synth, sc).
         if synth \<in> names then Inl (ParallelSynthScopeCollision (f_name (fields_of s)) synth)
         else res_bind (adapt_top Y names (i + 1) ss) (\<lambda>(sts, scs). Inr (st # sts, (synth, sc) # scs)))
     else
       res_bind (adapt_step Y (fields_of s) names TopLevel) (\<lambda>st.
       res_bind (adapt_top Y names (i + 1) ss) (\<lambda>(sts, scs). Inr (st # sts, scs))))"

fun adapt_scopes ::
  "YamlLib \<Rightarrow> string set \<Rightarrow> (string \<times> ScopeDef) list \<Rightarrow> (AdapterError, (string \<times> Scope) list) result" where
  "adapt_scopes Y names [] = Inr []"
| "adapt_scopes Y names ((n, sd) # rest) =
    res_bind (adapt_scope Y n sd names) (\<lambda>sc.
    res_bind (adapt_scopes Y names rest) (\<lambda>scs. Inr ((n, sc) # scs)))"

definition adapt :: "YamlLib \<Rightarrow> WorkflowDef \<Rightarrow> (AdapterError, Workflow) result" where
  "adapt Y d0 =
    (let d = with_inherited_type_config Y d0; names = set (map fst (d_scopes d)) in
     res_bind (adapt_top Y names 0 (d_steps d)) (\<lambda>(steps, synth).
     res_bind (adapt_scopes Y names (d_scopes d)) (\<lambda>scopes.
       Inr ((new_workflow (d_name d) steps)\<lparr>w_env := d_env d, w_scopes := scopes @ synth,
         w_branch_strategy := d_branch_strategy d, w_branch_name := d_branch_name d,
         w_base_branch := d_base_branch d, w_prompts_dir := d_prompts_dir d\<rparr>))))"

end
