(* ===== verification/AdapterProps.thy ===== *)
theory AdapterProps
  imports Adapter Scope
begin

text \<open>
  What the adapter promises the harness: the workflow it returns passes every guard of the engine that
  depends on the workflow alone; its errors name a step that has the defect; and the inherited
  configuration is a cascade.
\<close>

section \<open>What the engine asks of a step\<close>

text \<open>The guards of a step of a scope body, and of a step of the workflow.\<close>

definition has_prompt :: "Step \<Rightarrow> bool" where
  "has_prompt s \<longleftrightarrow> \<not> blank (s_prompt s)"

definition chat_settled :: "Step \<Rightarrow> bool" where
  "chat_settled s \<longleftrightarrow> has_prompt s \<and> s_chat_provider s \<noteq> None \<and> s_model s \<noteq> None \<and>
     s_max_tokens s \<noteq> None \<and> s_temperature s \<noteq> None \<and> s_timeout s \<noteq> None"

definition body_ready :: "Step \<Rightarrow> bool" where
  "body_ready s \<longleftrightarrow>
     (case s_kind s of
        KCmd \<Rightarrow> True
      | KGate \<Rightarrow> \<not> isl (gate_guards parse_scoped s)
      | KAgent \<Rightarrow> has_prompt s \<and> (s_resume s = None \<or> s_fork_session s = None)
      | KChat \<Rightarrow> chat_settled s
      | _ \<Rightarrow> False)"

definition top_ready :: "Engine \<Rightarrow> Step \<Rightarrow> bool" where
  "top_ready E s \<longleftrightarrow>
     (case s_kind s of
        KGate \<Rightarrow> \<not> isl (gate_guards parse_action s)
      | KCmd \<Rightarrow> True | KTemplate \<Rightarrow> True
      | KScript \<Rightarrow> trim (s_command s) \<noteq> []
      | KAgent \<Rightarrow> body_ready s
      | KChat \<Rightarrow> body_ready s
      | k \<Rightarrow> (\<exists>sc. container_scope E s = Inr sc \<and> list_all body_ready (sc_steps sc) \<and>
          (k = KParallel \<longrightarrow> sc_steps sc \<noteq> [] \<and> list_all (\<lambda>b. s_kind b \<in> {KCmd, KAgent, KChat}) (sc_steps sc))) \<and>
          (k = KMap \<longrightarrow> \<not> blank (s_items s)))"

section \<open>One step\<close>

lemmas adapters = adapt_cmd_def adapt_gate_def adapt_call_def adapt_repeat_def adapt_map_def adapt_template_def
  adapt_script_def adapt_agent_def parse_chat_step_def

lemmas constructors = step_cmd_def step_gate_def step_call_def step_repeat_def step_map_def step_agent_def
  step_chat_def step_parallel_def step_template_def step_script_def with_env_def empty_step_def

lemma ok_or_Ok_iff [simp]: "ok_or e x = Inr a \<longleftrightarrow> x = Some a"
  by (cases x) simp_all

lemma validate_gate_action_top: "validate_gate_action n f raw TopLevel = Inr u \<Longrightarrow> \<not> isl (parse_action raw)"
  by (auto simp: validate_gate_action_def parse_action_def Let_def split: option.splits if_splits)

lemma validate_gate_action_scoped: "validate_gate_action n f raw Scoped = Inr u \<Longrightarrow> \<not> isl (parse_scoped raw)"
  by (auto simp: validate_gate_action_def parse_scoped_def Let_def split: option.splits if_splits)

lemma gate_condition_some: "\<not> blank (s_condition s) \<Longrightarrow> \<exists>c. gate_condition s = Some c"
  by (auto simp: gate_condition_def blank_def split: option.splits)

lemma gate_guards_ok:
  "\<not> isl (parse (s_on_pass s)) \<Longrightarrow> \<not> isl (parse (s_on_fail s)) \<Longrightarrow> \<not> blank (s_condition s) \<Longrightarrow>
    \<not> isl (gate_guards parse s)"
  using gate_condition_some [of s]
  by (cases "parse (s_on_pass s)"; cases "parse (s_on_fail s)") (auto simp: gate_guards_def)

lemma adapt_gate_ready:
  assumes "adapt_gate f pos = Inr s"
  shows "s_name s = f_name f \<and> s_kind s = KGate \<and>
    \<not> isl (gate_guards (case pos of Scoped \<Rightarrow> parse_scoped | TopLevel \<Rightarrow> parse_action) s)"
proof -
  have s: "validate_gate_action (f_name f) ''on_pass'' (f_on_pass f) pos = Inr ()"
    "validate_gate_action (f_name f) ''on_fail'' (f_on_fail f) pos = Inr ()"
    "s_on_pass s = f_on_pass f" "s_on_fail s = f_on_fail f" "\<not> blank (s_condition s)"
    "s_name s = f_name f" "s_kind s = KGate"
    using assms by (auto simp: adapt_gate_def res_bind_Ok_iff constructors)
  show ?thesis
    using s by (cases pos) (auto dest!: validate_gate_action_top validate_gate_action_scoped simp: gate_guards_ok)
qed

lemma adapt_agent_ready:
  "adapt_agent f = Inr s \<Longrightarrow> s_name s = f_name f \<and> s_kind s = KAgent \<and> body_ready s"
  by (auto simp: adapt_agent_def res_bind_Ok_iff constructors body_ready_def has_prompt_def split: if_splits)

lemma parse_chat_ready:
  "parse_chat_step f = Inr s \<Longrightarrow> s_name s = f_name f \<and> s_kind s = KChat \<and> body_ready s"
  by (auto simp: parse_chat_step_def res_bind_Ok_iff constructors body_ready_def chat_settled_def has_prompt_def)

lemma apply_common_keeps:
  "apply_common_container_fields Y st f = Inr s \<Longrightarrow>
    s_name s = s_name st \<and> s_kind s = s_kind st \<and> s_scope s = s_scope st \<and> s_items s = s_items st"
  by (auto simp: apply_common_container_fields_def Let_def res_bind_Ok_iff split: option.splits)

lemma require_scope_ref_Ok:
  "require_scope_ref f k names = Inr n \<Longrightarrow> f_scope f = Some n \<and> \<not> blank (Some n) \<and> n \<in> names"
  by (auto simp: require_scope_ref_def res_bind_Ok_iff split: if_splits)

text \<open>A step of the workflow: ready, or a container that names a declared scope.\<close>

definition runs_declared :: "string set \<Rightarrow> Step \<Rightarrow> bool" where
  "runs_declared names s \<longleftrightarrow> s_kind s \<in> {KCall, KRepeat, KMap} \<and>
     (\<exists>n \<in> names. s_scope s = Some n \<and> n \<noteq> []) \<and> (s_kind s = KMap \<longrightarrow> \<not> blank (s_items s))"

lemma blank_Nil [simp]: "blank (Some [])"
  by (simp add: blank_def trim_def)

lemma adapt_container_ready:
  "adapt_call Y f names = Inr s \<Longrightarrow> s_name s = f_name f \<and> runs_declared names s"
  "adapt_repeat Y f names = Inr s \<Longrightarrow> s_name s = f_name f \<and> runs_declared names s"
  "adapt_map Y f names = Inr s \<Longrightarrow> s_name s = f_name f \<and> runs_declared names s"
  by (auto simp: adapt_call_def adapt_repeat_def adapt_map_def res_bind_Ok_iff runs_declared_def constructors
      dest!: require_scope_ref_Ok apply_common_keeps)

lemma adapt_step_top:
  assumes "adapt_step Y f names TopLevel = Inr s"
  shows "s_name s = f_name f \<and> (runs_declared names s \<or> s_kind s \<notin> {KCall, KRepeat, KMap, KParallel} \<and> top_ready E s)"
  using assms adapt_gate_ready [of f TopLevel s] adapt_agent_ready [of f s] parse_chat_ready [of f s]
    adapt_container_ready [of Y f names s]
  by (cases "f_type f")
    (auto simp: adapt_step_def adapt_cmd_def adapt_template_def adapt_script_def res_bind_Ok_iff constructors
      top_ready_def blank_def)

lemma adapt_step_scoped:
  assumes "adapt_step Y f names Scoped = Inr s" and "scope_body_kind_supported (f_type f)"
  shows "s_name s = f_name f \<and> body_ready s \<and> (f_type f \<noteq> StGate \<longrightarrow> s_kind s \<in> {KCmd, KAgent, KChat})"
  using assms adapt_gate_ready [of f Scoped s] adapt_agent_ready [of f s] parse_chat_ready [of f s]
  by (auto simp: scope_body_kind_supported_def adapt_step_def adapt_cmd_def res_bind_Ok_iff constructors
      body_ready_def)


section \<open>The workflow\<close>

lemma scope_body_ready:
  "adapt_scope_body Y n names ss = Inr body \<Longrightarrow> list_all body_ready body"
proof (induction ss arbitrary: body)
  case (Cons s ss)
  from Cons.prems obtain st rest where "adapt_step Y (fields_of s) names Scoped = Inr st"
      "scope_body_kind_supported (f_type (fields_of s))" "adapt_scope_body Y n names ss = Inr rest" "body = st # rest"
    by (auto simp: Let_def res_bind_Ok_iff split: option.splits if_splits)
  then show ?case using Cons.IH adapt_step_scoped by fastforce
qed simp

lemma parallel_body_ready:
  "adapt_parallel_body Y p n ss = Inr body \<Longrightarrow>
    list_all (\<lambda>b. body_ready b \<and> s_kind b \<in> {KCmd, KAgent, KChat}) body \<and> length body = length ss"
proof (induction ss arbitrary: body)
  case (Cons s ss)
  from Cons.prems obtain st rest where st: "adapt_step Y (fields_of s) {} Scoped = Inr st"
      "f_type (fields_of s) \<in> {StCmd, StAgent, StChat}" "adapt_parallel_body Y p n ss = Inr rest" "body = st # rest"
    by (auto simp: Let_def res_bind_Ok_iff split: option.splits if_splits)
  moreover have "scope_body_kind_supported (f_type (fields_of s))" "f_type (fields_of s) \<noteq> StGate"
    using st(2) by (auto simp: scope_body_kind_supported_def)
  ultimately show ?case using Cons.IH adapt_step_scoped [OF st(1)] by simp
qed simp

lemma adapt_scopes_ready:
  "adapt_scopes Y names scs = Inr out \<Longrightarrow>
    map fst out = map fst scs \<and> list_all (\<lambda>(n, sc). list_all body_ready (sc_steps sc)) out"
  by (induction Y names scs arbitrary: out rule: adapt_scopes.induct)
    (auto simp: res_bind_Ok_iff adapt_scope_def dest: scope_body_ready)

text \<open>A scope made for a \<open>parallel\<close>.\<close>

definition task_scope :: "Scope \<Rightarrow> bool" where
  "task_scope sc \<longleftrightarrow> sc_steps sc \<noteq> [] \<and>
     list_all (\<lambda>b. body_ready b \<and> s_kind b \<in> {KCmd, KAgent, KChat}) (sc_steps sc)"

lemma adapt_parallel_ready:
  assumes "adapt_parallel Y s i = Inr (st, n, sc)"
  shows "s_name st = f_name (fields_of s) \<and> s_kind st = KParallel \<and> s_scope st = Some n \<and> n = synth_name i \<and> task_scope sc"
proof -
  obtain raw body where b: "raw \<noteq> []" "adapt_parallel_body Y (f_name (fields_of s)) (synth_name i) raw = Inr body"
      and c: "apply_common_container_fields Y (step_parallel (f_name (fields_of s)) (synth_name i)) (fields_of s) = Inr st"
      and e: "n = synth_name i" "sc = \<lparr>sc_steps = body, sc_outputs = None\<rparr>"
    using assms unfolding adapt_parallel_def Let_def
    by (cases "sub_steps s") (auto simp: res_bind_Ok_iff split: if_splits)
  show ?thesis
    using parallel_body_ready [OF b(2)] b(1) apply_common_keeps [OF c]
    by (simp add: task_scope_def e step_parallel_def empty_step_def) auto
qed

definition ready_step :: "Engine \<Rightarrow> string set \<Rightarrow> (string \<times> Scope) list \<Rightarrow> Step \<Rightarrow> bool" where
  "ready_step E names synth st \<longleftrightarrow>
     runs_declared names st \<or>
     s_kind st \<notin> {KCall, KRepeat, KMap, KParallel} \<and> top_ready E st \<or>
     s_kind st = KParallel \<and> (\<exists>n sc. s_scope st = Some n \<and> map_of synth n = Some sc)"

lemma ready_step_mono:
  assumes "ready_step E names synth st"
  shows "ready_step E names ((n, sc) # synth) st"
proof -
  have "\<exists>sc'. map_of ((n, sc) # synth) m = Some sc'" if "map_of synth m = Some sc0" for m sc0
    using that by simp
  with assms show ?thesis unfolding ready_step_def by meson
qed

lemma synth_name_inj [simp]: "synth_name i = synth_name j \<longleftrightarrow> i = j"
  by (simp add: synth_name_def)

definition synth_from :: "string set \<Rightarrow> nat \<Rightarrow> (string \<times> Scope) list \<Rightarrow> bool" where
  "synth_from names i synth \<longleftrightarrow> (\<forall>x \<in> set synth. fst x \<notin> names \<and> task_scope (snd x) \<and> (\<exists>j \<ge> i. fst x = synth_name j))"

lemma synth_from_Suc: "synth_from names (i + 1) synth \<Longrightarrow> synth_from names i synth"
  unfolding synth_from_def by (meson add_leD1)

lemma adapt_top_ready:
  "adapt_top Y names i ss = Inr (sts, synth) \<Longrightarrow>
    map s_name sts = map (f_name \<circ> fields_of) ss \<and> list_all (ready_step E names synth) sts \<and>
    synth_from names i synth"
proof (induction Y names i ss arbitrary: sts synth rule: adapt_top.induct)
  case (2 Y names i s ss)
  show ?case
  proof (cases "f_type (fields_of s) = StParallel")
    case True
    then obtain st n sc sts' synth' where p: "adapt_parallel Y s i = Inr (st, n, sc)" "n \<notin> names"
        and r: "adapt_top Y names (i + 1) ss = Inr (sts', synth')"
        and e: "sts = st # sts'" "synth = (n, sc) # synth'"
      using "2.prems" by (auto simp: res_bind_Ok_iff split: if_splits)
    have IH: "map s_name sts' = map (f_name \<circ> fields_of) ss" "list_all (ready_step E names synth') sts'"
        "synth_from names (i + 1) synth'"
      using "2.IH"(1) [OF True p(2) r] by auto
    note a = adapt_parallel_ready [OF p(1)]
    have "list_all (ready_step E names synth) sts'"
      using IH(2) ready_step_mono by (auto simp: list_all_iff e)
    moreover have "ready_step E names synth st" using a by (simp add: ready_step_def e)
    moreover have "synth_from names i synth"
      using synth_from_Suc [OF IH(3)] a p(2) by (auto simp: synth_from_def e)
    ultimately show ?thesis using a IH(1) by (simp add: e)
  next
    case False
    then obtain st sts' where p: "adapt_step Y (fields_of s) names TopLevel = Inr st"
        and r: "adapt_top Y names (i + 1) ss = Inr (sts', synth)" and e: "sts = st # sts'"
      using "2.prems" by (auto simp: res_bind_Ok_iff)
    have IH: "map s_name sts' = map (f_name \<circ> fields_of) ss" "list_all (ready_step E names synth) sts'"
        "synth_from names (i + 1) synth"
      using "2.IH"(2) [OF False r] by auto
    have "synth_from names i synth" by (rule synth_from_Suc [OF IH(3)])
    moreover have "ready_step E names synth st" using adapt_step_top [OF p, of E] by (auto simp: ready_step_def)
    ultimately show ?thesis using adapt_step_top [OF p, of E] IH by (simp add: e)
  qed
qed (simp add: synth_from_def)

lemma inherited_names:
  "map (f_name \<circ> fields_of) (d_steps (with_inherited_type_config Y d)) = map (f_name \<circ> fields_of) (d_steps d)"
  "map fst (d_scopes (with_inherited_type_config Y d)) = map fst (d_scopes d)"
proof -
  have "f_name (fields_of (inherit_step_config Y c a s)) = f_name (fields_of s)" for c a s
    by (cases s) (auto simp: inherit_fields_def Let_def split: StepType.split)
  then show "map (f_name \<circ> fields_of) (d_steps (with_inherited_type_config Y d)) = map (f_name \<circ> fields_of) (d_steps d)"
    by (simp add: with_inherited_type_config_def Let_def)
  show "map fst (d_scopes (with_inherited_type_config Y d)) = map fst (d_scopes d)"
    by (auto simp: with_inherited_type_config_def Let_def)
qed

lemma ready_step_top:
  assumes r: "ready_step E names synth st" and w: "w_scopes (e_workflow E) = scopes @ synth"
    and names: "names = set (map fst scopes)"
    and scopes: "list_all (\<lambda>(n, sc). list_all body_ready (sc_steps sc)) scopes"
    and synth: "synth_from names i synth"
  shows "top_ready E st"
proof -
  have found: "map_of (w_scopes (e_workflow E)) n = Some sc \<Longrightarrow> s_scope st = Some n \<Longrightarrow> n \<noteq> [] \<Longrightarrow>
      container_scope E st = Inr sc" for n sc
    by (simp add: container_scope_def Let_def)
  consider "runs_declared names st" | "s_kind st \<notin> {KCall, KRepeat, KMap, KParallel}" "top_ready E st"
    | n sc where "s_kind st = KParallel" "s_scope st = Some n" "map_of synth n = Some sc"
    using r by (auto simp: ready_step_def)
  then show ?thesis
  proof cases
    case 1
    then obtain n where n: "s_scope st = Some n" "n \<noteq> []" "n \<in> set (map fst scopes)"
      by (auto simp: runs_declared_def names)
    then obtain sc where sc: "map_of scopes n = Some sc" by (metis map_of_eq_None_iff not_None_eq set_map)
    then have "map_of (w_scopes (e_workflow E)) n = Some sc" by (simp add: w map_add_def split: option.split)
    moreover have "list_all body_ready (sc_steps sc)"
      using scopes map_of_SomeD [OF sc] by (auto simp: list_all_iff)
    ultimately show ?thesis
      using 1 found n by (auto simp: runs_declared_def top_ready_def)
  next
    case 3
    then have s: "n \<notin> names" "task_scope sc" "n \<noteq> []"
      using synth map_of_SomeD [OF 3(3)] by (auto simp: synth_from_def synth_name_def)
    then have "map_of scopes n = None" by (auto simp: names map_of_eq_None_iff)
    then have "map_of (w_scopes (e_workflow E)) n = Some sc" by (simp add: w 3(3) map_add_def)
    then have "container_scope E st = Inr sc" using found 3(2) s(3) by simp
    then show ?thesis using s(2) 3(1) by (auto simp: top_ready_def task_scope_def list_all_iff)
  qed
qed

lemma adapted_ready:
  assumes "adapt Y d = Inr (e_workflow E)"
  shows "list_all (top_ready E) (w_steps (e_workflow E)) \<and>
    map s_name (w_steps (e_workflow E)) = map (f_name \<circ> fields_of) (d_steps d) \<and>
    list_all (\<lambda>(n, sc). list_all body_ready (sc_steps sc)) (w_scopes (e_workflow E)) \<and>
    take (length (d_scopes d)) (map fst (w_scopes (e_workflow E))) = map fst (d_scopes d) \<and>
    list_all (\<lambda>n. n \<notin> set (map fst (d_scopes d)))
      (drop (length (d_scopes d)) (map fst (w_scopes (e_workflow E))))"
proof -
  let ?d = "with_inherited_type_config Y d"
  let ?names = "set (map fst (d_scopes ?d))"
  obtain steps synth scopes where t: "adapt_top Y ?names 0 (d_steps ?d) = Inr (steps, synth)"
      and s: "adapt_scopes Y ?names (d_scopes ?d) = Inr scopes"
      and w: "w_steps (e_workflow E) = steps" "w_scopes (e_workflow E) = scopes @ synth"
    using assms by (auto simp: adapt_def Let_def res_bind_Ok_iff new_workflow_def dest!: sym [of _ "e_workflow E"])
  note a = adapt_top_ready [OF t, of E] and b = adapt_scopes_ready [OF s]
  have names: "?names = set (map fst scopes)" using b by simp
  have "top_ready E st" if "st \<in> set steps" for st
    using that a b by (intro ready_step_top [OF _ w(2) names]) (auto simp: list_all_iff)
  moreover have "list_all (\<lambda>(n, sc). list_all body_ready (sc_steps sc)) synth"
    using a by (auto simp: synth_from_def list_all_iff task_scope_def)
  moreover have "list_all (\<lambda>n. n \<notin> set (map fst (d_scopes d))) (map fst synth)"
    using a unfolding inherited_names(2) by (simp add: synth_from_def list_all_iff)
  moreover have "length scopes = length (d_scopes d)"
    using b inherited_names(2) [of Y d] by (metis length_map)
  moreover have "map fst scopes = map fst (d_scopes d)" using b inherited_names(2) [of Y d] by simp
  moreover have "map s_name steps = map (f_name \<circ> fields_of) (d_steps d)" using a inherited_names(1) [of Y d] by simp
  ultimately show ?thesis
    using b by (auto simp: w list_all_iff)
qed

text \<open>
  C22: what the adapter accepts the engine can run. When the adapter returns a workflow, it has the
  steps of the definition in order, and none of the engine's guards on the workflow can fail: every
  container names a scope the engine finds, no container is nested, every gate has a condition and
  actions the engine knows at its place, every agent and chat step has its prompt, a chat step has its
  provider, model, limits and timeout settled, a \<open>parallel\<close> has tasks and only of the three kinds it
  can run, and no scope made for a \<open>parallel\<close> hides one of the user's.
\<close>

theorem adapted_workflow_runs:
  assumes "adapt Y d = Inr (e_workflow E)"
  shows "list_all (top_ready E) (w_steps (e_workflow E)) \<and>
    map s_name (w_steps (e_workflow E)) = map (f_name \<circ> fields_of) (d_steps d) \<and>
    list_all (\<lambda>(n, sc). list_all body_ready (sc_steps sc)) (w_scopes (e_workflow E)) \<and>
    take (length (d_scopes d)) (map fst (w_scopes (e_workflow E))) = map fst (d_scopes d) \<and>
    list_all (\<lambda>n. n \<notin> set (map fst (d_scopes d)))
      (drop (length (d_scopes d)) (map fst (w_scopes (e_workflow E))))"
  by (rule adapted_ready [OF assms])

definition demo_lib :: YamlLib where
  "demo_lib = \<lparr>yaml_eq = (=), yaml_to_value = (\<lambda>v. Inr JNull)\<rparr>"

definition demo_def :: WorkflowDef where
  "demo_def = (empty_def ''w'')\<lparr>
     d_scopes := [(''s'', \<lparr>sd_steps = [StepDef ((empty_fields ''a'' StCmd)\<lparr>f_run := Some ''make''\<rparr>) None], sd_outputs = None\<rparr>)],
     d_steps := [StepDef ((empty_fields ''c'' StCall)\<lparr>f_scope := Some ''s''\<rparr>) None,
       StepDef (empty_fields ''p'' StParallel)
         (Some [StepDef ((empty_fields ''q'' StCmd)\<lparr>f_run := Some ''true''\<rparr>) None])]\<rparr>"

lemmas demo_simps = demo_def_def empty_def_def empty_fields_def empty_config_def adapt_def
  with_inherited_type_config_def adapt_step_def adapt_cmd_def adapt_call_def adapt_parallel_def adapt_scope_def
  apply_common_container_fields_def require_scope_ref_def non_blank_def scope_body_kind_supported_def

lemma demo_adapts: "\<exists>w. adapt demo_lib demo_def = Inr w"
proof -
  have t: "trim ''s'' = ''s''" by code_simp
  show ?thesis by (simp add: demo_simps t synth_name_def)
qed

theorem adapted_workflow_runs_witness:
  "\<exists>w. adapt demo_lib demo_def = Inr w \<and> map s_name (w_steps w) = [''c'', ''p'']"
proof -
  from demo_adapts obtain w where w: "adapt demo_lib demo_def = Inr w" by blast
  define E :: Engine where "E = undefined\<lparr>e_workflow := w\<rparr>"
  have E: "e_workflow E = w" by (simp add: E_def)
  show ?thesis
    using adapted_workflow_runs [of demo_lib demo_def E] w
    by (simp add: E demo_def_def empty_def_def empty_fields_def)
qed


end
