(* ===== verification/AdapterErrors.thy ===== *)
theory AdapterErrors
  imports AdapterProps
begin

text \<open>
  The errors of the adapter and the configuration a step inherits: an error names a step of the
  definition that has the defect it reports.
\<close>

section \<open>The defect an error reports\<close>

text \<open>Where a step stands: in the pipeline, in a scope, or a task of the \<open>parallel\<close> at an index.\<close>

datatype place = InPipeline | InScope string | InParallel string nat

definition stands :: "WorkflowDef \<Rightarrow> place \<Rightarrow> StepDef \<Rightarrow> bool" where
  "stands d p s \<longleftrightarrow>
     (case p of
        InPipeline \<Rightarrow> s \<in> set (d_steps d)
      | InScope n \<Rightarrow> (\<exists>sd. (n, sd) \<in> set (d_scopes d) \<and> s \<in> set (sd_steps sd))
      | InParallel parent i \<Rightarrow> i < length (d_steps d) \<and> f_type (fields_of (d_steps d ! i)) = StParallel \<and>
          f_name (fields_of (d_steps d ! i)) = parent \<and>
          (\<exists>ts. sub_steps (d_steps d ! i) = Some ts \<and> s \<in> set ts))"

fun scope_at :: "place \<Rightarrow> string" where
  "scope_at InPipeline = []"
| "scope_at (InScope n) = n"
| "scope_at (InParallel parent i) = synth_name i"

definition config_is :: "StepFields \<Rightarrow> string \<Rightarrow> (yaml \<Rightarrow> bool) \<Rightarrow> bool" where
  "config_is f k P \<longleftrightarrow> (\<exists>v. map_of (f_config f) k = Some v \<and> P v)"

definition says :: "StepFields \<Rightarrow> string \<Rightarrow> string \<Rightarrow> bool" where
  "says f k v \<longleftrightarrow> map_of (f_config f) k = Some (YStr v)"

definition action_of :: "StepFields \<Rightarrow> string \<Rightarrow> string option" where
  "action_of f field = (if field = ''on_pass'' then f_on_pass f else if field = ''on_fail'' then f_on_fail f else None)"

fun is_str :: "yaml \<Rightarrow> bool" where
  "is_str YNull = True" | "is_str (YStr s) = True" | "is_str _ = False"

fun is_u64 :: "yaml \<Rightarrow> bool" where
  "is_u64 YNull = True" | "is_u64 (YInt i) \<longleftrightarrow> 0 \<le> i \<and> i < 2 ^ 64" | "is_u64 _ = False"

fun is_num :: "yaml \<Rightarrow> bool" where
  "is_num YNull = True" | "is_num (YInt i) = True" | "is_num (YFloat x) = True" | "is_num _ = False"

definition no_base_url :: "StepFields \<Rightarrow> bool" where
  "no_base_url f \<longleftrightarrow> map_of (f_config f) ''base_url'' = None \<or> map_of (f_config f) ''base_url'' = Some YNull"

text \<open>
  What the documentation of the fields accepts, apart from the parsers of the adapter: the names of
  the providers; a timeout is a number with \<open>ms\<close>, \<open>s\<close>, \<open>m\<close> or no unit (seconds), white space allowed before
  the unit, of less than \<open>2 ^ 64\<close> milliseconds; the actions of a gate; the keys read as text and as number.
\<close>

definition PROVIDER_NAMES :: "string set" where
  "PROVIDER_NAMES = {''anthropic'', ''openai'', ''ollama'', ''groq'', ''deepseek'', ''gemini'', ''google'', ''cohere'',
     ''perplexity'', ''xai'', ''grok'', ''mistral'', ''openai_compatible''}"

definition timeout_says :: "string \<Rightarrow> nat \<Rightarrow> bool" where
  "timeout_says raw ms \<longleftrightarrow>
     (\<exists>n. parse_u64 (trim raw) = Some n \<and> ms = n * 1000) \<or>
     (\<exists>d gap unit k n. trim raw = d @ gap @ unit \<and> list_all ws1 gap \<and> parse_u64 d = Some n \<and> ms = n * k \<and>
        (unit, k) \<in> {(''ms'', 1), (''s'', 1000), (''m'', 60000)})"

definition AGENT_TEXT_KEYS :: "string set" where
  "AGENT_TEXT_KEYS = {''model'', ''system_prompt_append'', ''permissions'', ''resume'', ''fork_session'', ''session'', ''command''}"

definition CHAT_TEXT_KEYS :: "string set" where
  "CHAT_TEXT_KEYS = {''provider'', ''base_url'', ''model'', ''api_key_env'', ''timeout'', ''session'', ''truncation_strategy''}"

definition CHAT_NUMBER_KEYS :: "string set" where
  "CHAT_NUMBER_KEYS = {''max_tokens'', ''truncation_count'', ''truncation_first'', ''truncation_last'', ''truncation_max_tokens''}"

text \<open>The defect in the fields of the step; the name an error carries is that of the step.\<close>

fun defect :: "YamlLib \<Rightarrow> string set \<Rightarrow> place \<Rightarrow> StepDef \<Rightarrow> AdapterError \<Rightarrow> bool" where
  "defect Y names p s (UnsupportedStepType t) \<longleftrightarrow> False"
| "defect Y names p s (CmdMissingRun n) \<longleftrightarrow> f_type (fields_of s) = StCmd \<and> f_run (fields_of s) = None"
| "defect Y names p s (ScriptMissingRun n) \<longleftrightarrow> f_type (fields_of s) = StScript \<and> blank (f_run (fields_of s))"
| "defect Y names p s (GateMissingCondition n) \<longleftrightarrow> f_type (fields_of s) = StGate \<and> blank (f_condition (fields_of s))"
| "defect Y names p s (TopLevelGateUnsupportedAction n field v) \<longleftrightarrow> f_type (fields_of s) = StGate \<and>
    p = InPipeline \<and> map_option trim (action_of (fields_of s) field) = Some v \<and> v \<notin> {[], ''continue'', ''fail''}"
| "defect Y names p s (ScopedGateUnsupportedAction n field v) \<longleftrightarrow> f_type (fields_of s) = StGate \<and>
    p \<noteq> InPipeline \<and> map_option trim (action_of (fields_of s) field) = Some v \<and>
    v \<notin> {[], ''continue'', ''fail'', ''skip'', ''break''}"
| "defect Y names p s (ContainerMissingScope n kind) \<longleftrightarrow> container_kind (f_type (fields_of s)) = Some kind \<and>
    blank (f_scope (fields_of s))"
| "defect Y names p s (MapMissingItems n) \<longleftrightarrow> f_type (fields_of s) = StMap \<and> blank (f_items (fields_of s))"
| "defect Y names p s (UnknownScope n kind sc) \<longleftrightarrow> container_kind (f_type (fields_of s)) = Some kind \<and>
    f_scope (fields_of s) = Some sc \<and> sc \<notin> names"
| "defect Y names p s (NestedScopesNotSupported sc n kind) \<longleftrightarrow> p \<noteq> InPipeline \<and> sc = scope_at p \<and>
    container_kind (f_type (fields_of s)) = Some kind"
| "defect Y names p s (ScopedStepUnsupported sc n t) \<longleftrightarrow> p = InScope sc \<and> t = f_type (fields_of s) \<and> t \<in> {StTemplate, StScript}"
| "defect Y names p s (InitialValueNotJson n field e) \<longleftrightarrow> field = ''initial_value'' \<and> container_kind (f_type (fields_of s)) \<noteq> None \<and>
    (\<exists>v. f_initial_value (fields_of s) = Some v \<and> yaml_to_value Y v = Inl e)"
| "defect Y names p s (AgentMissingPrompt n) \<longleftrightarrow> f_type (fields_of s) = StAgent \<and> blank (f_prompt (fields_of s))"
| "defect Y names p s (AgentConfigNotString n k) \<longleftrightarrow> f_type (fields_of s) = StAgent \<and> k \<in> AGENT_TEXT_KEYS \<and>
    config_is (fields_of s) k (\<lambda>v. \<not> is_str v)"
| "defect Y names p s (AgentResumeAndForkConflict n) \<longleftrightarrow> f_type (fields_of s) = StAgent \<and>
    (\<exists>a b. says (fields_of s) ''resume'' a \<and> says (fields_of s) ''fork_session'' b)"
| "defect Y names p s (AgentInvalidPermissions n v) \<longleftrightarrow> f_type (fields_of s) = StAgent \<and>
    says (fields_of s) ''permissions'' v \<and> v \<notin> {''default'', ''skip''}"
| "defect Y names p s (AgentInvalidSession n v) \<longleftrightarrow> f_type (fields_of s) = StAgent \<and>
    says (fields_of s) ''session'' v \<and> v \<notin> {''shared'', ''isolated''}"
| "defect Y names p s (ChatMissingPrompt n) \<longleftrightarrow> f_type (fields_of s) = StChat \<and> blank (f_prompt (fields_of s))"
| "defect Y names p s (ChatConfigNotString n k) \<longleftrightarrow> f_type (fields_of s) = StChat \<and> k \<in> CHAT_TEXT_KEYS \<and>
    config_is (fields_of s) k (\<lambda>v. \<not> is_str v)"
| "defect Y names p s (ChatConfigNotU64 n k) \<longleftrightarrow> f_type (fields_of s) = StChat \<and> k \<in> CHAT_NUMBER_KEYS \<and>
    config_is (fields_of s) k (\<lambda>v. \<not> is_u64 v)"
| "defect Y names p s (ChatConfigNotF64 n k) \<longleftrightarrow> f_type (fields_of s) = StChat \<and> k = ''temperature'' \<and>
    config_is (fields_of s) k (\<lambda>v. \<not> is_num v)"
| "defect Y names p s (ChatUnknownProvider n v) \<longleftrightarrow> f_type (fields_of s) = StChat \<and> no_base_url (fields_of s) \<and>
    says (fields_of s) ''provider'' v \<and> v \<notin> PROVIDER_NAMES"
| "defect Y names p s (ChatOpenAiCompatibleMissingBaseUrl n) \<longleftrightarrow> f_type (fields_of s) = StChat \<and> no_base_url (fields_of s) \<and>
    says (fields_of s) ''provider'' ''openai_compatible''"
| "defect Y names p s (ChatInvalidTruncationStrategy n v) \<longleftrightarrow> f_type (fields_of s) = StChat \<and>
    says (fields_of s) ''truncation_strategy'' v \<and> v \<notin> {''none'', ''last'', ''first'', ''first_last'', ''sliding_window''}"
| "defect Y names p s (ChatInvalidTimeout n v) \<longleftrightarrow> f_type (fields_of s) = StChat \<and> says (fields_of s) ''timeout'' v \<and>
    (\<forall>ms. timeout_says v ms \<longrightarrow> 2 ^ 64 \<le> ms)"
| "defect Y names p s (ParallelMissingSteps n) \<longleftrightarrow> f_type (fields_of s) = StParallel \<and>
    (sub_steps s = None \<or> sub_steps s = Some [])"
| "defect Y names p s (ParallelSubStepUnsupported parent n t) \<longleftrightarrow> (\<exists>i. p = InParallel parent i) \<and>
    t = f_type (fields_of s) \<and> t \<in> {StGate, StTemplate, StScript}"
| "defect Y names p s (ParallelSynthScopeCollision n sc) \<longleftrightarrow> f_type (fields_of s) = StParallel \<and> p = InPipeline \<and>
    sc \<in> names \<and> (\<exists>i. sc = synth_name i)"

primrec blamed :: "AdapterError \<Rightarrow> string" where
  "blamed (UnsupportedStepType t) = []"
| "blamed (CmdMissingRun n) = n" | "blamed (ScriptMissingRun n) = n" | "blamed (GateMissingCondition n) = n"
| "blamed (TopLevelGateUnsupportedAction n field v) = n" | "blamed (ScopedGateUnsupportedAction n field v) = n"
| "blamed (ContainerMissingScope n kind) = n" | "blamed (MapMissingItems n) = n" | "blamed (UnknownScope n kind sc) = n"
| "blamed (NestedScopesNotSupported sc n kind) = n" | "blamed (ScopedStepUnsupported sc n t) = n"
| "blamed (InitialValueNotJson n field e) = n" | "blamed (AgentMissingPrompt n) = n" | "blamed (AgentConfigNotString n k) = n"
| "blamed (AgentResumeAndForkConflict n) = n" | "blamed (AgentInvalidPermissions n v) = n" | "blamed (AgentInvalidSession n v) = n"
| "blamed (ChatMissingPrompt n) = n" | "blamed (ChatConfigNotString n k) = n" | "blamed (ChatConfigNotU64 n k) = n"
| "blamed (ChatConfigNotF64 n k) = n" | "blamed (ChatUnknownProvider n v) = n"
| "blamed (ChatOpenAiCompatibleMissingBaseUrl n) = n" | "blamed (ChatInvalidTruncationStrategy n v) = n"
| "blamed (ChatInvalidTimeout n v) = n" | "blamed (ParallelMissingSteps n) = n"
| "blamed (ParallelSubStepUnsupported parent n t) = n" | "blamed (ParallelSynthScopeCollision n sc) = n"

definition honest :: "YamlLib \<Rightarrow> string set \<Rightarrow> place \<Rightarrow> StepDef \<Rightarrow> AdapterError \<Rightarrow> bool" where
  "honest Y names p s e \<longleftrightarrow> blamed e = f_name (fields_of s) \<and> defect Y names p s e"

section \<open>Timeouts\<close>

lemma ends_with_append: "ends_with s p \<longleftrightarrow> (\<exists>x. s = x @ p)"
  by (simp add: ends_with_def starts_with_prefix prefix_def) (metis rev_append rev_rev_ident)

lemma digit_not_ws: "is_digit c \<Longrightarrow> \<not> ws1 c \<and> \<not> ws2 b c \<and> \<not> ws3 a b c"
  by (auto simp: is_digit_def ws1_def ws2_def ws3_def)

lemma trim_rev_digit: "is_digit c \<Longrightarrow> trim_rev (c # s) = c # s"
  by (cases s; cases "tl s") (use digit_not_ws in auto)

lemma trim_rev_ws1: "ws1 c \<Longrightarrow> trim_rev (c # s) = trim_rev s"
  by (cases s; cases "tl s") auto

lemma trim_rev_ws: "list_all ws1 gap \<Longrightarrow> trim_rev (gap @ s) = trim_rev s"
  by (induction gap) (simp_all add: trim_rev_ws1)

lemma parse_u64_last:
  assumes "parse_u64 d = Some n"
  shows "d \<noteq> [] \<and> is_digit (last d)"
proof -
  have u: "unplus d \<noteq> []" "list_all is_digit (unplus d)" using assms by (auto simp: parse_u64_def Let_def split: if_splits)
  have "unplus d = d \<or> unplus d = tl d" by (auto simp: unplus_def split: list.split)
  with u(1) have "last d = last (unplus d)" "d \<noteq> []" by (auto simp: last_tl unplus_def)
  moreover have "is_digit (last (unplus d))" using u by (simp add: list_all_iff)
  ultimately show ?thesis by simp
qed

lemma trim_end_number: "parse_u64 d = Some n \<Longrightarrow> list_all ws1 gap \<Longrightarrow> trim_end (d @ gap) = d"
proof -
  assume d: "parse_u64 d = Some n" and gap: "list_all ws1 gap"
  from parse_u64_last [OF d] obtain c r where r: "rev d = c # r" "is_digit c"
    by (cases "rev d") (auto simp: last_rev [symmetric])
  have "trim_rev (rev gap @ rev d) = rev d"
    using trim_rev_ws [of "rev gap" "rev d"] gap trim_rev_digit [OF r(2)] r(1) by (simp add: list_all_iff)
  then show ?thesis by (simp add: trim_end_def)
qed

text \<open>A timeout of the grammar is read as what it says.\<close>

lemma timeout_parts_says:
  assumes "timeout_says raw ms"
  shows "\<exists>d k n. timeout_parts (trim raw) = (d, k) \<and> parse_u64 d = Some n \<and> ms = n * k"
  using assms unfolding timeout_says_def
proof (elim disjE exE conjE)
  fix n assume n: "parse_u64 (trim raw) = Some n" "ms = n * 1000"
  then have "is_digit (last (trim raw))" "trim raw \<noteq> []" using parse_u64_last by blast+
  then have "\<not> ends_with (trim raw) ''ms''" "\<not> ends_with (trim raw) ''s''" "\<not> ends_with (trim raw) ''m''"
    by (auto simp: ends_with_append is_digit_def)
  then show ?thesis using n by (simp add: timeout_parts_def)
next
  fix d gap unit k n
  assume a: "trim raw = d @ gap @ unit" "list_all ws1 gap" "parse_u64 d = Some n" "ms = n * k"
    "(unit, k) \<in> {(''ms'', 1), (''s'', 1000), (''m'', 60000)}"
  have no_m: "\<not> ends_with (d @ gap @ ''s'') ''ms''"
  proof
    assume "ends_with (d @ gap @ ''s'') ''ms''"
    then obtain x where "d @ gap @ ''s'' = x @ ''ms''" by (auto simp: ends_with_append)
    then have "d @ gap = x @ ''m''" by (metis append.assoc append_Cons append_Nil butlast_snoc)
    then have "last (d @ gap) = CHR ''m''" by simp
    moreover have "last (d @ gap) = (if gap = [] then last d else last gap)" by simp
    moreover have "gap \<noteq> [] \<longrightarrow> ws1 (last gap)" using a(2) by (auto simp: list_all_iff)
    ultimately show False
      using parse_u64_last [OF a(3)] by (auto simp: is_digit_def ws1_def split: if_splits)
  qed
  have drops: "take (length (d @ gap @ ''ms'') - 2) (d @ gap @ ''ms'') = d @ gap" "butlast (d @ gap @ [c]) = d @ gap" for c
    by (simp_all add: butlast_append)
  note ends = ends_with_append
  from a(5) consider "unit = ''ms''" "k = 1" | "unit = ''s''" "k = 1000" | "unit = ''m''" "k = 60000" by auto
  then show ?thesis
  proof cases
    case 1
    then have "ends_with (trim raw) ''ms''" using a(1) by (simp add: ends)
    then show ?thesis
      using a trim_end_number [OF a(3,2)] drops(1) 1 by (simp add: timeout_parts_def)
  next
    case 2
    then have "ends_with (trim raw) ''s''" using a(1) by (simp add: ends)
    then show ?thesis
      using a trim_end_number [OF a(3,2)] drops(2) no_m 2 by (simp add: timeout_parts_def)
  next
    case 3
    then have "ends_with (trim raw) ''m''" "\<not> ends_with (trim raw) ''ms''" "\<not> ends_with (trim raw) ''s''"
      using a(1) by (auto simp: ends append_eq_append_conv2 dest: arg_cong [where f = last])
    then show ?thesis
      using a trim_end_number [OF a(3,2)] drops(2) 3 by (simp add: timeout_parts_def)
  qed
qed

section \<open>One step\<close>

lemma ok_or_Err_iff [simp]: "ok_or e' x = Inl e \<longleftrightarrow> x = None \<and> e = e'"
  by (cases x) auto

lemma agent_str_cases:
  "agent_config_str f k = Inl e \<Longrightarrow> e = AgentConfigNotString (f_name f) k \<and> config_is f k (\<lambda>v. \<not> is_str v)"
  "agent_config_str f k = Inr (Some v) \<Longrightarrow> says f k v"
  by (auto simp: agent_config_str_def config_is_def says_def split: option.splits yaml.splits)

lemma chat_str_cases:
  "chat_config_str f k = Inl e \<Longrightarrow> e = ChatConfigNotString (f_name f) k \<and> config_is f k (\<lambda>v. \<not> is_str v)"
  "chat_config_str f k = Inr (Some v) \<Longrightarrow> says f k v"
  "chat_config_str f k = Inr None \<Longrightarrow> map_of (f_config f) k = None \<or> map_of (f_config f) k = Some YNull"
  by (auto simp: chat_config_str_def config_is_def says_def split: option.splits yaml.splits)

lemma chat_num_cases:
  "chat_config_u64 f k = Inl e \<Longrightarrow> e = ChatConfigNotU64 (f_name f) k \<and> config_is f k (\<lambda>v. \<not> is_u64 v)"
  "chat_config_f64 f k = Inl e' \<Longrightarrow> e' = ChatConfigNotF64 (f_name f) k \<and> config_is f k (\<lambda>v. \<not> is_num v)"
  by (auto simp: chat_config_u64_def chat_config_f64_def config_is_def split: option.splits yaml.splits if_splits)

lemma agent_honest:
  assumes "f_type (fields_of s) = StAgent" and "adapt_agent (fields_of s) = Inl e"
  shows "honest Y names p s e"
proof -
  let ?f = "fields_of s"
  have perm: "honest Y names p s e"
    if "parse_opt (parse_agent_permissions (f_name ?f)) x = Inl e" "agent_config_str ?f ''permissions'' = Inr x" for x
    using that assms(1) agent_str_cases(2)
    by (auto simp: honest_def parse_opt_def parse_agent_permissions_def res_bind_Err_iff split: option.splits if_splits)
  have sess: "honest Y names p s e'"
    if "parse_opt (parse_agent_session (f_name ?f)) x = Inl e'" "agent_config_str ?f ''session'' = Inr x" for x e'
    using that assms(1) agent_str_cases(2)
    by (auto simp: honest_def parse_opt_def parse_agent_session_def res_bind_Err_iff split: option.splits if_splits)
  have str: "honest Y names p s e'" if "agent_config_str ?f k = Inl e'" "k \<in> AGENT_TEXT_KEYS" for k e'
    using agent_str_cases(1) [OF that(1)] assms(1) that(2) by (simp add: honest_def)
  have fork: "honest Y names p s (AgentResumeAndForkConflict (f_name ?f))"
    if "agent_config_str ?f ''resume'' = Inr (Some a)" "agent_config_str ?f ''fork_session'' = Inr (Some b)" for a b
    using that assms(1) agent_str_cases(2) by (auto simp: honest_def)
  have prompt: "honest Y names p s (AgentMissingPrompt (f_name ?f))" if "blank (f_prompt ?f)"
    using that assms(1) by (simp add: honest_def)
  show ?thesis
    using assms(2) unfolding adapt_agent_def
    by (auto simp: res_bind_Err_iff AGENT_TEXT_KEYS_def split: if_splits intro: perm sess str fork prompt)
qed

lemma chat_honest:
  assumes "f_type (fields_of s) = StChat" and "parse_chat_step (fields_of s) = Inl e"
  shows "honest Y names p s e"
proof -
  let ?f = "fields_of s"
  have str: "honest Y names p s e" if "chat_config_str ?f k = Inl e" "k \<in> CHAT_TEXT_KEYS" for k
    using chat_str_cases(1) [OF that(1)] assms(1) that(2) by (simp add: honest_def)
  have u64: "honest Y names p s e" if "chat_config_u64 ?f k = Inl e" "k \<in> CHAT_NUMBER_KEYS" for k
    using chat_num_cases(1) [OF that(1)] assms(1) that(2) by (simp add: honest_def)
  have f64: "honest Y names p s e" if "chat_config_f64 ?f ''temperature'' = Inl e"
    using chat_num_cases(2) [OF that] assms(1) by (simp add: honest_def)
  have prompt: "honest Y names p s (ChatMissingPrompt (f_name ?f))" if "blank (f_prompt ?f)"
    using that assms(1) by (simp add: honest_def)
  have provider: "honest Y names p s e"
    if "parse_chat_provider (f_name ?f) (case q of None \<Rightarrow> ''anthropic'' | Some v \<Rightarrow> v) u = Inl e"
      "chat_config_str ?f ''provider'' = Inr q" "chat_config_str ?f ''base_url'' = Inr u" for q u
    using that assms(1) chat_str_cases(2) [of ?f "''provider''"] chat_str_cases(3) [of ?f "''base_url''"]
    by (cases q; cases u) (auto simp: parse_chat_provider_def honest_def no_base_url_def PROVIDER_NAMES_def split: if_splits)
  have "\<exists>raw. chat_config_str ?f ''timeout'' = Inr (Some raw) \<and> e = ChatInvalidTimeout (f_name ?f) raw \<and>
      (\<forall>ms. timeout_says raw ms \<longrightarrow> 2 ^ 64 \<le> ms)"
    if bad: "parse_chat_timeout_duration ?f = Inl e" "chat_config_str ?f ''timeout'' \<noteq> Inl e"
  proof -
    obtain raw where raw: "chat_config_str ?f ''timeout'' = Inr (Some raw)"
      using bad by (cases "chat_config_str ?f ''timeout''")
        (auto simp: parse_chat_timeout_duration_def split: option.splits)
    obtain d k where p: "timeout_parts (trim raw) = (d, k)" by fastforce
    have "2 ^ 64 \<le> ms" if "timeout_says raw ms" for ms
      using timeout_parts_says [OF that] p bad(1) raw
      by (auto simp: parse_chat_timeout_duration_def split: if_splits)
    moreover have "e = ChatInvalidTimeout (f_name ?f) raw"
      using bad(1) raw p by (simp add: parse_chat_timeout_duration_def split: option.splits if_splits)
    ultimately show ?thesis using raw by blast
  qed
  then have timeout: "honest Y names p s e" if "parse_chat_timeout_duration ?f = Inl e"
    using that assms(1) chat_str_cases(2) [of ?f "''timeout''"] str [of "''timeout''"]
    by (cases "chat_config_str ?f ''timeout'' = Inl e") (auto simp: honest_def CHAT_TEXT_KEYS_def)
  have unknown: "honest Y names p s (ChatInvalidTruncationStrategy (f_name ?f) v)"
    if "chat_config_str ?f ''truncation_strategy'' = Inr (Some v)"
      "v \<notin> {''none'', ''last'', ''first'', ''first_last'', ''sliding_window''}" for v
    using that assms(1) chat_str_cases(2) by (simp add: honest_def)
  have truncation: "honest Y names p s e" if t: "parse_chat_truncation ?f = Inl e"
  proof (cases "chat_config_str ?f ''truncation_strategy''")
    case (Inl e')
    then show ?thesis using t str by (simp add: parse_chat_truncation_def CHAT_TEXT_KEYS_def)
  next
    case (Inr x)
    then obtain v where v: "x = Some v" using t by (cases x) (simp_all add: parse_chat_truncation_def)
    consider "v \<notin> {''none'', ''last'', ''first'', ''first_last'', ''sliding_window''}" | k where "chat_config_u64 ?f k = Inl e" "k \<in> CHAT_NUMBER_KEYS"
      using t unfolding parse_chat_truncation_def Inr v CHAT_NUMBER_KEYS_def
      by (auto simp: res_bind_Err_iff simp del: list.inject split: if_splits)
    then show ?thesis
    proof cases
      case 1
      then have "e = ChatInvalidTruncationStrategy (f_name ?f) v"
        using t by (simp add: parse_chat_truncation_def Inr v)
      then show ?thesis using unknown [OF _ 1] Inr v by simp
    next
      case 2
      then show ?thesis by (rule u64)
    qed
  qed
  show ?thesis
    using assms(2) unfolding parse_chat_step_def
    by (auto simp: res_bind_Err_iff CHAT_TEXT_KEYS_def CHAT_NUMBER_KEYS_def
        intro: str u64 f64 prompt provider timeout truncation)
qed

lemma gate_action_honest:
  assumes "f_type (fields_of s) = StGate"
    and "validate_gate_action (f_name (fields_of s)) field (action_of (fields_of s) field) pos = Inl e"
    and "pos = TopLevel \<longleftrightarrow> p = InPipeline"
  shows "honest Y names p s e"
proof -
  obtain r where x: "action_of (fields_of s) field = Some r" "trim r \<noteq> []" "trim r \<notin> set (allowed_actions pos)"
      "e = (case pos of TopLevel \<Rightarrow> TopLevelGateUnsupportedAction (f_name (fields_of s)) field (trim r)
        | Scoped \<Rightarrow> ScopedGateUnsupportedAction (f_name (fields_of s)) field (trim r))"
    using assms(2) by (cases "action_of (fields_of s) field") (auto simp: validate_gate_action_def Let_def split: if_splits)
  then show ?thesis
    using assms(1,3) by (cases pos) (auto simp: honest_def parse_action_def parse_scoped_def)
qed


lemma container_honest:
  assumes "container_kind (f_type (fields_of s)) = Some kind" and "kind \<noteq> ''parallel''"
  shows "require_scope_ref (fields_of s) kind names = Inl e \<Longrightarrow> honest Y names p s e"
    and "apply_common_container_fields Y st (fields_of s) = Inl e \<Longrightarrow> honest Y names p s e"
  using assms
  by (auto simp: require_scope_ref_def apply_common_container_fields_def yaml_to_json_def Let_def res_bind_Err_iff
      honest_def map_err_def split: option.splits if_splits sum.splits)

lemma step_honest:
  assumes e: "adapt_step Y (fields_of s) names pos = Inl e" and par: "f_type (fields_of s) \<noteq> StParallel"
    and pos: "pos = TopLevel \<longleftrightarrow> p = InPipeline"
  shows "honest Y names p s e"
proof (cases "f_type (fields_of s)")
  case StGate
  then show ?thesis
    using e gate_action_honest [OF StGate _ pos, of "''on_pass''"] gate_action_honest [OF StGate _ pos, of "''on_fail''"]
    by (auto simp: adapt_step_def adapt_gate_def res_bind_Err_iff action_of_def honest_def)
next
  case StAgent
  then show ?thesis using e agent_honest by (simp add: adapt_step_def)
next
  case StChat
  then show ?thesis using e chat_honest by (simp add: adapt_step_def)
next
  case StCall
  then show ?thesis
    using e container_honest [of s "''call''"] by (auto simp: adapt_step_def adapt_call_def res_bind_Err_iff)
next
  case StRepeat
  then show ?thesis
    using e container_honest [of s "''repeat''"] by (auto simp: adapt_step_def adapt_repeat_def res_bind_Err_iff)
next
  case StMap
  moreover have "honest Y names p s (MapMissingItems (f_name (fields_of s)))" if "blank (f_items (fields_of s))"
    using that StMap by (simp add: honest_def)
  ultimately show ?thesis
    using e container_honest [of s "''map''"] by (auto simp: adapt_step_def adapt_map_def res_bind_Err_iff)
qed (use e par in \<open>auto simp: adapt_step_def adapt_cmd_def adapt_script_def adapt_template_def res_bind_Err_iff honest_def\<close>)

section \<open>The workflow\<close>

lemma scope_body_honest:
  "adapt_scope_body Y n names ss = Inl e \<Longrightarrow> \<exists>s \<in> set ss. honest Y names (InScope n) s e"
proof (induction ss)
  case (Cons s ss)
  show ?case
  proof (cases "container_kind (f_type (fields_of s)) = None \<and> scope_body_kind_supported (f_type (fields_of s))")
    case True
    then have "f_type (fields_of s) \<noteq> StParallel" by auto
    then show ?thesis
      using Cons True step_honest [of Y s names Scoped e "InScope n"] by (auto simp: Let_def res_bind_Err_iff)
  next
    case False
    then show ?thesis
      using Cons.prems
      by (cases "f_type (fields_of s)") (auto simp: Let_def honest_def scope_body_kind_supported_def)
  qed
qed simp

lemma parallel_body_honest:
  "adapt_parallel_body Y parent (synth_name i) ss = Inl e \<Longrightarrow> \<exists>s \<in> set ss. honest Y names (InParallel parent i) s e"
proof (induction ss)
  case (Cons s ss)
  show ?case
  proof (cases "f_type (fields_of s) \<in> {StCmd, StAgent, StChat}")
    case True
    then have "honest Y names (InParallel parent i) s e" if "adapt_step Y (fields_of s) {} Scoped = Inl e"
      using that agent_honest chat_honest by (auto simp: adapt_step_def adapt_cmd_def res_bind_Err_iff honest_def)
    then show ?thesis using Cons True by (auto simp: Let_def res_bind_Err_iff)
  next
    case False
    then show ?thesis
      using Cons.prems by (cases "f_type (fields_of s)") (auto simp: Let_def honest_def)
  qed
qed simp


lemma scopes_honest:
  "adapt_scopes Y names scs = Inl e \<Longrightarrow> \<exists>n sd s. (n, sd) \<in> set scs \<and> s \<in> set (sd_steps sd) \<and> honest Y names (InScope n) s e"
proof (induction Y names scs rule: adapt_scopes.induct)
  case (2 Y names n sd rest)
  show ?case
  proof (cases "adapt_scope_body Y n names (sd_steps sd) = Inl e")
    case True
    then show ?thesis using scope_body_honest by fastforce
  next
    case False
    then have "adapt_scopes Y names rest = Inl e"
      using "2.prems" by (auto simp: adapt_scope_def res_bind_Err_iff)
    then show ?thesis using "2.IH" "2.prems" False by (fastforce simp: adapt_scope_def res_bind_Err_iff)
  qed
qed simp

lemma parallel_honest:
  assumes "adapt_parallel Y s i = Inl e" and par: "f_type (fields_of s) = StParallel"
  shows "honest Y names p s e \<or>
    (\<exists>ts t. sub_steps s = Some ts \<and> t \<in> set ts \<and> honest Y names (InParallel (f_name (fields_of s)) i) t e)"
proof (cases "sub_steps s = None \<or> sub_steps s = Some []")
  case True
  then show ?thesis using assms by (auto simp: adapt_parallel_def Let_def honest_def)
next
  case False
  then obtain ts where ts: "sub_steps s = Some ts" "ts \<noteq> []" by auto
  have common: "honest Y names p s e" if "apply_common_container_fields Y st (fields_of s) = Inl e" for st
    using that par
    by (auto simp: apply_common_container_fields_def yaml_to_json_def Let_def res_bind_Err_iff honest_def map_err_def
        split: option.splits sum.splits)
  show ?thesis
    using assms ts common parallel_body_honest [of Y "f_name (fields_of s)" i ts e names]
    by (auto simp: adapt_parallel_def Let_def res_bind_Err_iff)
qed

lemma top_honest:
  "adapt_top Y names i ss = Inl e \<Longrightarrow>
    \<exists>j < length ss. honest Y names InPipeline (ss ! j) e \<or>
      f_type (fields_of (ss ! j)) = StParallel \<and>
      (\<exists>ts t. sub_steps (ss ! j) = Some ts \<and> t \<in> set ts \<and>
         honest Y names (InParallel (f_name (fields_of (ss ! j))) (i + j)) t e)"
proof (induction Y names i ss rule: adapt_top.induct)
  case (2 Y names i s ss)
  let ?at = "\<lambda>ss i j. honest Y names InPipeline (ss ! j) e \<or>
      f_type (fields_of (ss ! j)) = StParallel \<and>
      (\<exists>ts t. sub_steps (ss ! j) = Some ts \<and> t \<in> set ts \<and>
         honest Y names (InParallel (f_name (fields_of (ss ! j))) (i + j)) t e)"
  have later: "\<exists>j < length (s # ss). ?at (s # ss) i j" if "\<exists>j < length ss. ?at ss (i + 1) j"
  proof -
    from that obtain j where "j < length ss" "?at ss (i + 1) j" by blast
    then have "Suc j < length (s # ss)" "?at (s # ss) i (Suc j)" by simp_all
    then show ?thesis by blast
  qed
  have now: "\<exists>j < length (s # ss). ?at (s # ss) i j" if "?at (s # ss) i 0"
    using that by blast
  show ?case
  proof (cases "f_type (fields_of s) = StParallel")
    case True
    have here: "?at (s # ss) i 0" if "adapt_parallel Y s i = Inl e"
      using parallel_honest [OF that True, of names InPipeline] True by simp
    have clash: "?at (s # ss) i 0" if "e = ParallelSynthScopeCollision (f_name (fields_of s)) sc" "sc \<in> names"
      "sc = synth_name i" for sc
      using that True by (auto simp: honest_def)
    show ?thesis
    proof (cases "adapt_parallel Y s i")
      case (Inl e')
      then show ?thesis using "2.prems" True here now by simp
    next
      case (Inr r)
      obtain st n sc where r: "r = (st, n, sc)" by (cases r)
      show ?thesis
      proof (cases "n \<in> names")
        case True
        then have "e = ParallelSynthScopeCollision (f_name (fields_of s)) n"
          using "2.prems" \<open>f_type (fields_of s) = StParallel\<close> by (simp add: Inr r)
        moreover have "n = synth_name i" using Inr r by (auto simp: adapt_parallel_def Let_def res_bind_Ok_iff split: option.splits if_splits)
        ultimately show ?thesis using clash True now by blast
      next
        case False
        then have "adapt_top Y names (i + 1) ss = Inl e"
          using "2.prems" \<open>f_type (fields_of s) = StParallel\<close> by (auto simp: Inr r res_bind_Err_iff)
        then show ?thesis using "2.IH"(1) [OF \<open>f_type (fields_of s) = StParallel\<close> False] later by blast
      qed
    qed
  next
    case False
    from "2.prems" False consider "adapt_step Y (fields_of s) names TopLevel = Inl e"
      | st where "adapt_step Y (fields_of s) names TopLevel = Inr st" "adapt_top Y names (i + 1) ss = Inl e"
      by (auto simp: res_bind_Err_iff)
    then show ?thesis
    proof cases
      case 1
      then have "?at (s # ss) i 0" using step_honest [OF 1 False, of InPipeline] by simp
      then show ?thesis by (rule now)
    next
      case 2
      then show ?thesis using "2.IH"(2) [OF False 2(2)] later by blast
    qed
  qed
qed simp

text \<open>
  C23: the adapter's errors are honest. When the adapter refuses a definition, its error names a step
  of the definition, with the configuration it inherits, and that step has the defect the error
  reports, at the place it reports: a field that is missing or blank, a scope that is not declared, a
  value of the wrong type under a key of the step's kind, an action, provider, permission, session mode or
  strategy outside the documented names, a timeout that no reading of the documented grammar makes a
  number of milliseconds below \<open>2 ^ 64\<close>, a step type the place does not take. No definition is refused as
  an unsupported step type.
\<close>

theorem adapter_errors_honest:
  assumes "adapt Y d = Inl e"
  shows "(\<exists>p s. stands (with_inherited_type_config Y d) p s \<and> honest Y (set (map fst (d_scopes d))) p s e) \<and>
    (\<forall>t. e \<noteq> UnsupportedStepType t)"
proof -
  let ?d = "with_inherited_type_config Y d" and ?names = "set (map fst (d_scopes d))"
  have "adapt_top Y ?names 0 (d_steps ?d) = Inl e \<or> adapt_scopes Y ?names (d_scopes ?d) = Inl e"
    using assms unfolding adapt_def Let_def inherited_names(2) by (auto simp: res_bind_Err_iff)
  then have ex: "\<exists>p s. stands ?d p s \<and> honest Y ?names p s e"
  proof
    assume "adapt_top Y ?names 0 (d_steps ?d) = Inl e"
    from top_honest [OF this] obtain j where j: "j < length (d_steps ?d)"
        "honest Y ?names InPipeline (d_steps ?d ! j) e \<or>
         f_type (fields_of (d_steps ?d ! j)) = StParallel \<and>
         (\<exists>ts t. sub_steps (d_steps ?d ! j) = Some ts \<and> t \<in> set ts \<and>
           honest Y ?names (InParallel (f_name (fields_of (d_steps ?d ! j))) j) t e)"
      by auto
    have "stands ?d InPipeline (d_steps ?d ! j)" using j(1) by (simp add: stands_def)
    moreover have "stands ?d (InParallel (f_name (fields_of (d_steps ?d ! j))) j) t"
      if "f_type (fields_of (d_steps ?d ! j)) = StParallel" "sub_steps (d_steps ?d ! j) = Some ts" "t \<in> set ts" for ts t
      using that j(1) by (simp add: stands_def)
    ultimately show ?thesis using j(2) by blast
  next
    assume "adapt_scopes Y ?names (d_scopes ?d) = Inl e"
    from scopes_honest [OF this] obtain n sd s where "(n, sd) \<in> set (d_scopes ?d)" "s \<in> set (sd_steps sd)"
        "honest Y ?names (InScope n) s e" by blast
    moreover from this have "stands ?d (InScope n) s" by (auto simp: stands_def)
    ultimately show ?thesis by blast
  qed
  moreover have "\<forall>t. e \<noteq> UnsupportedStepType t" using ex by (auto simp: honest_def)
  ultimately show ?thesis by blast
qed


theorem adapter_errors_honest_witness:
  "\<exists>p s. stands ((empty_def ''w'')\<lparr>d_steps := [StepDef (empty_fields ''a'' StCmd) None]\<rparr>) p s \<and> f_name (fields_of s) = ''a''"
proof -
  let ?d = "(empty_def ''w'')\<lparr>d_steps := [StepDef (empty_fields ''a'' StCmd) None]\<rparr>"
  have e: "adapt demo_lib ?d = Inl (CmdMissingRun ''a'')" by (simp add: demo_simps)
  have "with_inherited_type_config demo_lib ?d = ?d"
    by (simp add: with_inherited_type_config_def empty_def_def empty_config_def)
  then show ?thesis using adapter_errors_honest [OF e] unfolding honest_def by (metis blamed.simps(2))
qed

section \<open>Inherited configuration\<close>

lemma map_of_or_insert: "map_of (or_insert k v b) q =
    (case map_of b q of Some x \<Rightarrow> Some x | None \<Rightarrow> if q = k then Some v else None)"
  by (auto simp: or_insert_def map_add_def split: option.splits)

lemma map_of_inherit_keys:
  "map_of (inherit_keys ks skip f layer config) q =
    (case map_of config q of
       Some x \<Rightarrow> Some x
     | None \<Rightarrow> if q \<in> set ks \<and> \<not> skip q then map_option (f q) (map_of layer q) else None)"
  by (induction ks skip f layer config rule: inherit_keys.induct)
    (auto simp: map_of_or_insert split: option.splits if_splits)

lemma inherit_keys_id:
  "\<forall>k \<in> set ks. skip k \<or> map_of layer k = None \<or> map_of config k \<noteq> None \<Longrightarrow>
    inherit_keys ks skip f layer config = config"
proof (induction ks)
  case (Cons k ks)
  then have "(if skip k then config
       else (case map_of layer k of None \<Rightarrow> config | Some v \<Rightarrow> or_insert k (f k v) config)) = config"
    by (auto simp: or_insert_def split: option.split)
  then show ?case using Cons by simp
qed simp

declare inherit_keys.simps [simp del]

lemma inherit_fields_twice:
  assumes refl: "\<And>v. yaml_eq Y v v"
  shows "inherit_fields Y chat agent (inherit_fields Y chat agent f) = inherit_fields Y chat agent f"
proof (cases "f_type f")
  case StChat
  let ?d = "provider_differs Y (f_config f) chat"
  let ?skip = "\<lambda>k. ?d \<and> k \<in> set PROVIDER_BOUND_CHAT_KEYS"
  let ?c = "inherit_keys INHERITED_CHAT_KEYS ?skip coerce_numeric_string chat (f_config f)"
  have same: "provider_differs Y ?c chat = ?d"
  proof (cases "map_of (f_config f) ''provider''")
    case None
    then have "map_of ?c ''provider'' = map_of chat ''provider''"
      by (cases "map_of chat ''provider''")
        (simp_all add: map_of_inherit_keys INHERITED_CHAT_KEYS_def PROVIDER_BOUND_CHAT_KEYS_def coerce_numeric_string_def)
    then show ?thesis using None refl by (simp add: provider_differs_def split: option.split)
  qed (simp add: provider_differs_def map_of_inherit_keys)
  have "inherit_keys INHERITED_CHAT_KEYS ?skip coerce_numeric_string chat ?c = ?c"
    by (rule inherit_keys_id) (auto simp: map_of_inherit_keys split: option.split)
  then show ?thesis using StChat same by (simp add: inherit_fields_def Let_def)
next
  case StAgent
  have "inherit_keys INHERITED_AGENT_KEYS (\<lambda>k. False) (\<lambda>k v. v) agent
      (inherit_keys INHERITED_AGENT_KEYS (\<lambda>k. False) (\<lambda>k v. v) agent (f_config f)) =
      inherit_keys INHERITED_AGENT_KEYS (\<lambda>k. False) (\<lambda>k v. v) agent (f_config f)"
    by (rule inherit_keys_id) (auto simp: map_of_inherit_keys split: option.split)
  then show ?thesis using StAgent by (simp add: inherit_fields_def)
qed (simp_all add: inherit_fields_def)

lemma inherit_step_twice:
  assumes refl: "\<And>v. yaml_eq Y v v"
  shows "inherit_step_config Y chat agent (inherit_step_config Y chat agent s) = inherit_step_config Y chat agent s"
proof (induction s)
  case (StepDef f children)
  then show ?case by (cases children) (auto simp: inherit_fields_twice [OF refl])
qed

text \<open>
  The configuration of a step is a cascade. A key a chat or agent step sets itself is kept; of the
  others exactly the listed ones come from the layer of the workflow, numbers written as strings read
  back, and the model, the key and the address of one provider are not given to a step that chose
  another. Nothing else is inherited: the permissions of an agent never are. Inheriting twice is
  inheriting once.
\<close>

theorem inherited_configuration:
  assumes "\<forall>v. yaml_eq Y v v"
  shows "map_of (f_config (inherit_fields Y chat agent f)) k =
      (case map_of (f_config f) k of
         Some v \<Rightarrow> Some v
       | None \<Rightarrow>
         if f_type f = StChat \<and> k \<in> set INHERITED_CHAT_KEYS \<and>
           \<not> (provider_differs Y (f_config f) chat \<and> k \<in> {''model'', ''api_key_env'', ''base_url''})
         then map_option (coerce_numeric_string k) (map_of chat k)
         else if f_type f = StAgent \<and> k \<in> {''model'', ''command''} then map_of agent k
         else None) \<and>
    with_inherited_type_config Y (with_inherited_type_config Y d) = with_inherited_type_config Y d"
proof
  show "map_of (f_config (inherit_fields Y chat agent f)) k =
      (case map_of (f_config f) k of
         Some v \<Rightarrow> Some v
       | None \<Rightarrow>
         if f_type f = StChat \<and> k \<in> set INHERITED_CHAT_KEYS \<and>
           \<not> (provider_differs Y (f_config f) chat \<and> k \<in> {''model'', ''api_key_env'', ''base_url''})
         then map_option (coerce_numeric_string k) (map_of chat k)
         else if f_type f = StAgent \<and> k \<in> {''model'', ''command''} then map_of agent k
         else None)"
    by (cases "f_type f"; cases "map_of (f_config f) k")
      (auto simp: inherit_fields_def Let_def map_of_inherit_keys PROVIDER_BOUND_CHAT_KEYS_def
        INHERITED_AGENT_KEYS_def option.map_ident)
  have twice: "inherit_step_config Y c a \<circ> inherit_step_config Y c a = inherit_step_config Y c a" for c a
    using inherit_step_twice assms by (simp add: fun_eq_iff)
  have "map (inherit_step_config Y c a) (map (inherit_step_config Y c a) ss) = map (inherit_step_config Y c a) ss" for c a ss
    by (simp only: map_map twice)
  then show "with_inherited_type_config Y (with_inherited_type_config Y d) = with_inherited_type_config Y d"
    by (simp add: with_inherited_type_config_def Let_def split_beta comp_def)
qed

theorem inherited_configuration_witness:
  "map_of (f_config (inherit_fields demo_lib [(''model'', YStr ''m''), (''provider'', YStr ''openai'')] []
      ((empty_fields ''c'' StChat)\<lparr>f_config := [(''provider'', YStr ''groq'')]\<rparr>))) ''model'' = None"
proof -
  have "\<forall>v. yaml_eq demo_lib v v" by (simp add: demo_lib_def)
  from inherited_configuration [OF this, THEN conjunct1,
      of "[(''model'', YStr ''m''), (''provider'', YStr ''openai'')]" "[]"
        "(empty_fields ''c'' StChat)\<lparr>f_config := [(''provider'', YStr ''groq'')]\<rparr>" "''model''"]
  show ?thesis by (simp add: empty_fields_def provider_differs_def demo_lib_def)
qed

end
