(* ===== verification/Validator.thy ===== *)
theory Validator
  imports Schema
begin

text \<open>
  \<open>src/workflow/validator.rs\<close>: the checks of a parsed workflow, each with its message, and the
  search for a scope that reaches itself.
\<close>

section \<open>The checks of a step\<close>

definition quoted :: "string \<Rightarrow> string" where
  "quoted s = CHR 0x27 # s @ [CHR 0x27]"

definition complaint :: "StepFields \<Rightarrow> string \<Rightarrow> string" where
  "complaint f what = ''Step '' @ quoted (f_name f) @ '': '' @ what"

definition check_scope_ref :: "string set \<Rightarrow> StepFields \<Rightarrow> string list" where
  "check_scope_ref names f =
    (case f_scope f of
       Some sc \<Rightarrow> if sc \<notin> names then [complaint f (''scope '' @ quoted sc @ '' not found in workflow scopes'')] else []
     | None \<Rightarrow> [complaint f (show_step_type (f_type f) @ '' step requires '' @ quoted ''scope'' @ '' field'')])"

definition check_container :: "string set \<Rightarrow> StepFields \<Rightarrow> string list" where
  "check_container names f =
    check_scope_ref names f @
    (if f_type f = StRepeat \<and> f_max_iterations f = Some 0 then [complaint f ''max_iterations must be > 0''] else []) @
    (if f_type f = StMap \<and> f_items f = None
     then [complaint f (''map step requires '' @ quoted ''items'' @ '' field'')] else [])"

definition check_run :: "StepFields \<Rightarrow> string list" where
  "check_run f = (if blank (f_run f)
     then [complaint f (show_step_type (f_type f) @ '' step requires '' @ quoted ''run'' @ '' field'')] else [])"

fun validate_step :: "string set \<Rightarrow> StepDef \<Rightarrow> string list" where
  "validate_step names (StepDef f ss) =
    (case f_type f of
       StCmd \<Rightarrow> check_run f
     | StScript \<Rightarrow> check_run f
     | StTemplate \<Rightarrow> []
     | StAgent \<Rightarrow> (if blank (f_prompt f) then [complaint f (''agent step requires '' @ quoted ''prompt'' @ '' field'')] else [])
     | StChat \<Rightarrow> (if blank (f_prompt f) then [complaint f (''chat step requires '' @ quoted ''prompt'' @ '' field'')] else [])
     | StGate \<Rightarrow> (if blank (f_condition f) then [complaint f (''gate step requires '' @ quoted ''condition'' @ '' field'')] else [])
     | StParallel \<Rightarrow>
       (if ss = None \<or> ss = Some [] then [complaint f (''parallel step requires nested '' @ quoted ''steps'')] else []) @
       (case ss of None \<Rightarrow> [] | Some ns \<Rightarrow> concat (map (validate_step names) ns))
     | _ \<Rightarrow> check_container names f)"

definition validate_steps :: "string set \<Rightarrow> StepDef list \<Rightarrow> string list" where
  "validate_steps names ss = concat (map (validate_step names) ss)"

section \<open>Circular references\<close>

text \<open>
  \<open>visited\<close> is a set that the search extends on entry and restores before it returns \<open>false\<close>; after
  \<open>true\<close> it is not read again. So it is an argument.
\<close>

definition runs_scope :: "StepDef \<Rightarrow> string option" where
  "runs_scope s = (if f_type (fields_of s) \<in> {StCall, StRepeat, StMap} then f_scope (fields_of s) else None)"

function has_cycle :: "(string \<times> ScopeDef) list \<Rightarrow> string set \<Rightarrow> string \<Rightarrow> bool" where
  "has_cycle scopes visited n =
    (if n \<in> visited then True
     else
       (case map_of scopes n of
          None \<Rightarrow> False
        | Some sc \<Rightarrow>
          list_ex (\<lambda>s. case runs_scope s of None \<Rightarrow> False | Some t \<Rightarrow> has_cycle scopes (insert n visited) t)
            (sd_steps sc)))"
  by pat_completeness auto

termination
proof (relation "measure (\<lambda>(scopes, visited, n). card (set (map fst scopes) - visited))", goal_cases)
  case (2 scopes visited n sc)
  then have "n \<in> set (map fst scopes)" by (force dest: map_of_SomeD)
  with 2 have "set (map fst scopes) - insert n visited \<subset> set (map fst scopes) - visited" by auto
  then show ?case by (simp add: psubset_card_mono)
qed simp

declare has_cycle.simps [simp del]

section \<open>The workflow\<close>

text \<open>The loop over a list of steps that reports each name met before.\<close>

fun duplicates :: "string set \<Rightarrow> StepDef list \<Rightarrow> string list" where
  "duplicates seen [] = []"
| "duplicates seen (s # ss) =
    (if f_name (fields_of s) \<in> seen then f_name (fields_of s) # duplicates seen ss
     else duplicates (insert (f_name (fields_of s)) seen) ss)"

definition scope_errors :: "string set \<Rightarrow> string \<times> ScopeDef \<Rightarrow> string list" where
  "scope_errors names nsc = (case nsc of (n, sc) \<Rightarrow>
     map (\<lambda>d. ''Scope '' @ quoted n @ '': duplicate step name '' @ quoted d) (duplicates {} (sd_steps sc)) @
     validate_steps names (sd_steps sc))"

definition validate_def :: "WorkflowDef \<Rightarrow> string list" where
  "validate_def w =
    (let names = set (map fst (d_scopes w)) in
     validate_steps names (d_steps w) @
     concat (map (scope_errors names) (d_scopes w)) @
     map (\<lambda>d. ''Duplicate step name: '' @ quoted d) (duplicates {} (d_steps w)) @
     concat (map (\<lambda>n. if has_cycle (d_scopes w) {} n then [''Circular scope reference involving '' @ quoted n] else [])
       (map fst (d_scopes w))))"

section \<open>What the checks mean\<close>

text \<open>The scopes a scope runs.\<close>

definition refs :: "(string \<times> ScopeDef) list \<Rightarrow> (string \<times> string) set" where
  "refs scopes = {(a, b). \<exists>sc. map_of scopes a = Some sc \<and> (\<exists>s \<in> set (sd_steps sc). runs_scope s = Some b)}"

lemma has_cycle_gen:
  "has_cycle scopes V n \<longleftrightarrow> (\<exists>m. (n, m) \<in> (refs scopes)\<^sup>* \<and> (m \<in> V \<or> (m, m) \<in> (refs scopes)\<^sup>+))"
proof (induction scopes V n rule: has_cycle.induct)
  case (1 scopes V n)
  let ?R = "refs scopes"
  show ?case
  proof (cases "n \<in> V")
    case True
    then show ?thesis by (auto simp: has_cycle.simps [of scopes V n])
  next
    case False
    have "has_cycle scopes V n \<longleftrightarrow> (\<exists>t. (n, t) \<in> ?R \<and> has_cycle scopes (insert n V) t)"
      using False by (auto simp: has_cycle.simps [of scopes V n] refs_def list_ex_iff split: option.splits)
    also have "\<dots> \<longleftrightarrow> (\<exists>t m. (n, t) \<in> ?R \<and> (t, m) \<in> ?R\<^sup>* \<and> (m \<in> insert n V \<or> (m, m) \<in> ?R\<^sup>+))"
    proof -
      have "has_cycle scopes (insert n V) t \<longleftrightarrow> (\<exists>m. (t, m) \<in> ?R\<^sup>* \<and> (m \<in> insert n V \<or> (m, m) \<in> ?R\<^sup>+))"
        if "(n, t) \<in> ?R" for t
        using that False 1 by (auto simp: refs_def)
      then show ?thesis by blast
    qed
    also have "\<dots> \<longleftrightarrow> (\<exists>m. (n, m) \<in> ?R\<^sup>* \<and> (m \<in> V \<or> (m, m) \<in> ?R\<^sup>+))"
    proof
      assume "\<exists>t m. (n, t) \<in> ?R \<and> (t, m) \<in> ?R\<^sup>* \<and> (m \<in> insert n V \<or> (m, m) \<in> ?R\<^sup>+)"
      then show "\<exists>m. (n, m) \<in> ?R\<^sup>* \<and> (m \<in> V \<or> (m, m) \<in> ?R\<^sup>+)"
        by (metis converse_rtrancl_into_rtrancl insertE rtrancl.rtrancl_refl rtrancl_into_trancl2)
    next
      assume "\<exists>m. (n, m) \<in> ?R\<^sup>* \<and> (m \<in> V \<or> (m, m) \<in> ?R\<^sup>+)"
      then obtain m where m: "(n, m) \<in> ?R\<^sup>*" "m \<in> V \<or> (m, m) \<in> ?R\<^sup>+" by blast
      then have "(n, m) \<in> ?R\<^sup>+" using False by (metis rtranclD)
      then obtain t where "(n, t) \<in> ?R" "(t, m) \<in> ?R\<^sup>*" by (metis tranclD)
      with m(2) show "\<exists>t m. (n, t) \<in> ?R \<and> (t, m) \<in> ?R\<^sup>* \<and> (m \<in> insert n V \<or> (m, m) \<in> ?R\<^sup>+)" by blast
    qed
    finally show ?thesis .
  qed
qed

lemma no_cycle_iff:
  "(\<forall>n \<in> set (map fst scopes). \<not> has_cycle scopes {} n) \<longleftrightarrow> acyclic (refs scopes)"
proof -
  have dom: "n \<in> set (map fst scopes)" if "(n, m) \<in> (refs scopes)\<^sup>+" for n m
    using that by (induction rule: trancl_induct) (auto simp: refs_def dest!: map_of_SomeD intro: rev_image_eqI)
  show ?thesis
    unfolding acyclic_def using dom by (auto simp: has_cycle_gen)
qed

lemma duplicates_empty_iff:
  "duplicates seen ss = [] \<longleftrightarrow> distinct (map (f_name \<circ> fields_of) ss) \<and> set (map (f_name \<circ> fields_of) ss) \<inter> seen = {}"
  by (induction seen ss rule: duplicates.induct) auto

text \<open>A step has what its type needs.\<close>

definition complete_step :: "string set \<Rightarrow> StepDef \<Rightarrow> bool" where
  "complete_step names s \<longleftrightarrow> (let f = fields_of s in
     case f_type f of
       StCmd \<Rightarrow> \<not> blank (f_run f) | StScript \<Rightarrow> \<not> blank (f_run f) | StTemplate \<Rightarrow> True
     | StAgent \<Rightarrow> \<not> blank (f_prompt f) | StChat \<Rightarrow> \<not> blank (f_prompt f) | StGate \<Rightarrow> \<not> blank (f_condition f)
     | StParallel \<Rightarrow> (\<exists>x xs. sub_steps s = Some (x # xs))
     | _ \<Rightarrow> (\<exists>n \<in> names. f_scope f = Some n) \<and> (f_type f = StRepeat \<longrightarrow> f_max_iterations f \<noteq> Some 0) \<and>
       (f_type f = StMap \<longrightarrow> f_items f \<noteq> None))"

text \<open>The steps the validator looks at: those of a \<open>parallel\<close> too, at any depth.\<close>

fun checked_within :: "StepDef \<Rightarrow> StepDef list" where
  "checked_within (StepDef f ss) = StepDef f ss #
     (if f_type f = StParallel then (case ss of None \<Rightarrow> [] | Some ns \<Rightarrow> concat (map checked_within ns)) else [])"

lemma validate_step_Nil_iff:
  "validate_step names s = [] \<longleftrightarrow> (\<forall>x \<in> set (checked_within s). complete_step names x)"
proof (induction names s rule: validate_step.induct)
  case (1 names f ss)
  show ?case
  proof (cases "f_type f = StParallel")
    case True
    then show ?thesis
      using 1 by (cases ss; cases "the ss") (auto simp: complete_step_def Let_def)
  next
    case False
    then show ?thesis
      by (cases "f_type f")
        (auto simp: complete_step_def Let_def check_run_def check_container_def check_scope_ref_def
          split: option.splits if_splits)
  qed
qed

lemma validate_steps_Nil_iff:
  "validate_steps names ss = [] \<longleftrightarrow> (\<forall>s \<in> set ss. \<forall>x \<in> set (checked_within s). complete_step names x)"
  by (auto simp: validate_steps_def validate_step_Nil_iff)

text \<open>
  C24: the validator reports no error exactly on the workflows that are well-formed: every step, of the
  pipeline and of every scope, at any depth of \<open>parallel\<close>, has the fields its type needs and names
  only declared scopes; step names are distinct in the pipeline and in each scope; and no scope
  reaches itself through the scopes its steps run.
\<close>

theorem validator_exact:
  "validate_def w = [] \<longleftrightarrow>
    (\<forall>ss \<in> insert (d_steps w) (sd_steps ` snd ` set (d_scopes w)).
       distinct (map (f_name \<circ> fields_of) ss) \<and>
       (\<forall>s \<in> set ss. \<forall>x \<in> set (checked_within s). complete_step (fst ` set (d_scopes w)) x)) \<and>
    acyclic (refs (d_scopes w))"
proof -
  have "(\<forall>x \<in> set (d_scopes w). scope_errors names x = []) \<longleftrightarrow>
      (\<forall>ss \<in> sd_steps ` snd ` set (d_scopes w). distinct (map (f_name \<circ> fields_of) ss) \<and>
        (\<forall>s \<in> set ss. \<forall>x \<in> set (checked_within s). complete_step names x))" for names
    by (auto simp: scope_errors_def duplicates_empty_iff validate_steps_Nil_iff)
  moreover have "(\<forall>n \<in> set (map fst (d_scopes w)). \<not> has_cycle (d_scopes w) {} n) \<longleftrightarrow> acyclic (refs (d_scopes w))"
    by (rule no_cycle_iff)
  ultimately show ?thesis
    by (auto simp: validate_def_def Let_def duplicates_empty_iff validate_steps_Nil_iff split: if_splits)
qed


theorem validator_exact_witness:
  "validate_def ((empty_def ''w'')\<lparr>
      d_scopes := [(''s'', \<lparr>sd_steps = [StepDef ((empty_fields ''a'' StCmd)\<lparr>f_run := Some ''make''\<rparr>) None], sd_outputs = None\<rparr>)],
      d_steps := [StepDef ((empty_fields ''c'' StCall)\<lparr>f_scope := Some ''s''\<rparr>) None]\<rparr>) = []"
proof -
  have none: "refs [(''s'', \<lparr>sd_steps = [StepDef ((empty_fields ''a'' StCmd)\<lparr>f_run := Some ''make''\<rparr>) None], sd_outputs = None\<rparr>)] = {}"
    by (auto simp: refs_def runs_scope_def empty_fields_def split: if_splits)
  moreover have "trim ''make'' = ''make''" by code_simp
  ultimately show ?thesis
    unfolding validator_exact
    by (simp add: empty_def_def empty_fields_def acyclic_def complete_step_def blank_def)
qed

end
