(* ===== verification/Startup.thy ===== *)
theory Startup
  imports SessionLog
begin

text \<open>
  \<open>crates/stepyard-harness/src/startup.rs\<close>: the recovery at process start. Phase 1 closes every session
  still running, phase 2 removes the containers of sessions that are not running, phase 3 prunes
  worktrees. The fate of each statement, the answers of Docker and of the worktree manager and the
  parser of a UUID are parameters.
\<close>

section \<open>Phase 1: sessions\<close>

record RecoverEnv =
  re_load :: "uuid \<Rightarrow> db_reply"
  re_append :: "uuid \<Rightarrow> pg_env"
  re_fail :: "uuid \<Rightarrow> timestamp \<times> db_reply"

text \<open>\<open>SELECT id FROM sessions WHERE status = 'running'\<close>\<close>

definition running_ids :: "Db \<Rightarrow> uuid list" where
  "running_ids db = map row_id (filter (\<lambda>r. row_status r = ''running'') (sessions db))"

definition select_running :: "Db \<Rightarrow> db_reply \<Rightarrow> (SessionError, uuid list) result" where
  "select_running db reply = fst (commit reply (running_ids db) db db)"

definition crash_event :: json where
  "crash_event = event_json (SignalReceived (signal_from ''crash_recovery''))"

text \<open>\<open>Session::load\<close>, \<open>Session::append\<close> and \<open>Session::fail\<close> for each, in order.\<close>

fun recover_sessions :: "RecoverEnv \<Rightarrow> uuid list \<Rightarrow> Db \<Rightarrow> (SessionError, nat) result \<times> Db" where
  "recover_sessions R [] db = (Inr 0, db)"
| "recover_sessions R (i # ids) db =
    (case pg_load_session_meta db i (re_load R i) of
       Inl e \<Rightarrow> (Inl e, db)
     | Inr m \<Rightarrow>
       (case pg_app db (session_id (session_from_meta m)) crash_event (re_append R i) of
          (Inl e, db1) \<Rightarrow> (Inl e, db1)
        | (Inr ev, db1) \<Rightarrow>
          (case session_finish db1 (session_from_meta m) Failed (fst (re_fail R i)) (snd (re_fail R i)) of
             (Inl e, s, db2) \<Rightarrow> (Inl e, db2)
           | (Inr _, s, db2) \<Rightarrow>
             (case recover_sessions R ids db2 of
                (Inl e, db3) \<Rightarrow> (Inl e, db3)
              | (Inr n, db3) \<Rightarrow> (Inr (n + 1), db3)))))"

section \<open>Phase 2: containers\<close>

datatype DockerPs = PsListed "string list" | PsFailed | PsUnavailable

definition SESSION_PREFIX :: string where
  "SESSION_PREFIX = ''stepyard-session-''"

definition extract_session_uuid :: "(string \<Rightarrow> uuid option) \<Rightarrow> string \<Rightarrow> uuid option" where
  "extract_session_uuid parse n =
    (if starts_with n SESSION_PREFIX then parse (drop (length SESSION_PREFIX) n) else None)"

text \<open>The loop over the lines of \<open>docker ps\<close>: the sessions whose container it removes, and how many went.\<close>

fun prune_containers ::
  "(string \<Rightarrow> uuid option) \<Rightarrow> uuid set \<Rightarrow> (uuid \<Rightarrow> bool) \<Rightarrow> string list \<Rightarrow> uuid list \<times> nat" where
  "prune_containers parse running destroyed [] = ([], 0)"
| "prune_containers parse running destroyed (line # ls) =
    (let (us, k) = prune_containers parse running destroyed ls; n = trim line in
     if n = [] then (us, k)
     else
       (case extract_session_uuid parse n of
          None \<Rightarrow> (us, k)
        | Some u \<Rightarrow>
          if u \<in> running then (us, k)
          else (u # us, if destroyed u then k + 1 else k)))"

definition reconcile_containers ::
  "(string \<Rightarrow> uuid option) \<Rightarrow> uuid set \<Rightarrow> (uuid \<Rightarrow> bool) \<Rightarrow> DockerPs \<Rightarrow> uuid list \<times> nat" where
  "reconcile_containers parse running destroyed ps =
    (case ps of PsListed ls \<Rightarrow> prune_containers parse running destroyed ls | _ \<Rightarrow> ([], 0))"

section \<open>The three phases\<close>

record ReconcileReport =
  sessions_reconciled :: nat
  containers_pruned :: nat
  worktrees_pruned :: nat
  worktrees_preserved :: nat

datatype ReconcileError = SessionFailed SessionError | DatabaseFailed SessionError

record StartEnv =
  st_first :: db_reply
  st_recover :: RecoverEnv
  st_second :: db_reply
  st_parse :: "string \<Rightarrow> uuid option"
  st_ps :: DockerPs
  st_destroyed :: "uuid \<Rightarrow> bool"
  st_prune :: "(WorkspaceError, nat \<times> nat) result option"

text \<open>The counters of the worktree manager, when it is configured and its prune succeeds.\<close>

definition pruned_worktrees :: "(WorkspaceError, nat \<times> nat) result option \<Rightarrow> nat \<times> nat" where
  "pruned_worktrees p = (case p of Some (Inr c) \<Rightarrow> c | _ \<Rightarrow> (0, 0))"

definition reconcile :: "StartEnv \<Rightarrow> Db \<Rightarrow> (ReconcileError, ReconcileReport) result \<times> Db \<times> uuid list" where
  "reconcile S db =
    (case select_running db (st_first S) of
       Inl e \<Rightarrow> (Inl (DatabaseFailed e), db, [])
     | Inr ids \<Rightarrow>
       (case recover_sessions (st_recover S) ids db of
          (Inl e, db1) \<Rightarrow> (Inl (SessionFailed e), db1, [])
        | (Inr n, db1) \<Rightarrow>
          (case select_running db1 (st_second S) of
             Inl e \<Rightarrow> (Inl (DatabaseFailed e), db1, [])
           | Inr still \<Rightarrow>
             (let (us, k) = reconcile_containers (st_parse S) (set still) (st_destroyed S) (st_ps S);
                  (p, q) = pruned_worktrees (st_prune S) in
              (Inr \<lparr>sessions_reconciled = n, containers_pruned = k, worktrees_pruned = p, worktrees_preserved = q\<rparr>,
               db1, us)))))"

section \<open>Lemmas\<close>

lemma find_distinct: "distinct (map f xs) \<Longrightarrow> x \<in> set xs \<Longrightarrow> find (\<lambda>q. f q = f x) xs = Some x"
  by (induction xs) auto

lemma running_ids_iff: "pg_ok db \<Longrightarrow> s \<in> set (running_ids db) \<longleftrightarrow> pg_stat db s = Some Running"
proof -
  assume ok: "pg_ok db"
  then have d: "distinct (map row_id (sessions db))" by (simp add: pg_ok_def)
  have "s \<in> set (running_ids db) \<longleftrightarrow> (\<exists>r. find_session db s = Some r \<and> row_status r = ''running'')"
  proof
    assume "s \<in> set (running_ids db)"
    then obtain r where r: "r \<in> set (sessions db)" "row_id r = s" "row_status r = ''running''"
      by (auto simp: running_ids_def)
    have "find (\<lambda>q. row_id q = s) (sessions db) = Some r"
      using find_distinct [OF d r(1)] r(2) by simp
    then show "\<exists>r. find_session db s = Some r \<and> row_status r = ''running''"
      using r by (auto simp: find_session_def)
  next
    assume "\<exists>r. find_session db s = Some r \<and> row_status r = ''running''"
    then show "s \<in> set (running_ids db)"
      using nth_mem by (fastforce simp: find_session_def find_Some_iff running_ids_def image_iff)
  qed
  also have "\<dots> \<longleftrightarrow> pg_stat db s = Some Running"
  proof (cases "find_session db s")
    case (Some r)
    then have "\<exists>st. row_status r = status_str st"
      using ok by (auto simp: find_session_def find_Some_iff pg_ok_def)
    then show ?thesis using Some row_stat_running [of r] by (simp add: pg_stat_def)
  qed (simp add: pg_stat_def)
  finally show ?thesis .
qed

lemma running_ids_distinct: "pg_ok db \<Longrightarrow> distinct (running_ids db)"
  by (simp add: pg_ok_def running_ids_def distinct_map_filter)

lemma loaded_id: "pg_load_session_meta db i reply = Inr m \<Longrightarrow> session_id (session_from_meta m) = i"
  by (cases reply) (auto simp: pg_load_session_meta_def meta_from_row_def session_from_meta_def find_session_def
      find_Some_iff res_bind_Ok_iff split: option.splits)

lemma session_finish_fin:
  "session_finish db s st now reply = (r, s', db') \<Longrightarrow>
    pg_fin db (session_id s) st ([], now, reply) = (case r of Inl e \<Rightarrow> Inl e | Inr _ \<Rightarrow>
      fst (pg_fin db (session_id s) st ([], now, reply)), db')"
  by (cases "pg_finish_session db (session_id s) st now reply")
    (auto simp: session_finish_def pg_fin_def split: sum.splits option.splits)

text \<open>
  What one session may look like afterwards; \<open>c\<close> is the crash event as the payload column has it.
\<close>

definition recovered :: "json \<Rightarrow> Db \<Rightarrow> Db \<Rightarrow> uuid \<Rightarrow> bool" where
  "recovered c db db' s \<longleftrightarrow> pg_log db' s = pg_log db s @ [c] \<and> pg_stat db' s = Some Failed"

definition touched :: "json \<Rightarrow> Db \<Rightarrow> Db \<Rightarrow> uuid \<Rightarrow> bool" where
  "touched c db db' s \<longleftrightarrow> (pg_log db' s = pg_log db s \<or> pg_log db' s = pg_log db s @ [c]) \<and>
     (pg_stat db' s = Some Running \<or> pg_log db' s = pg_log db s @ [c] \<and> pg_stat db' s = Some Failed)"

definition untouched :: "Db \<Rightarrow> Db \<Rightarrow> uuid \<Rightarrow> bool" where
  "untouched db db' s \<longleftrightarrow> pg_log db' s = pg_log db s \<and> pg_stat db' s = pg_stat db s"

text \<open>The first \<open>k\<close> of the sessions are settled, the one after them may be half way, the rest waits.\<close>

definition settled_to :: "json \<Rightarrow> Db \<Rightarrow> Db \<Rightarrow> uuid list \<Rightarrow> nat \<Rightarrow> bool" where
  "settled_to c db db' ids k \<longleftrightarrow> k \<le> length ids \<and> list_all (recovered c db db') (take k ids) \<and>
     list_all (touched c db db') (take 1 (drop k ids)) \<and> list_all (untouched db db') (drop (Suc k) ids)"

lemma recover_one:
  assumes ok: "pg_ok db" and run: "pg_stat db i = Some Running"
    and a: "pg_app db i crash_event ka = (ra, db1)"
    and f: "ra = Inr ev \<Longrightarrow> pg_fin db1 i Failed kf = (rf, db2)"
    and c: "column_value db crash_event = c"
  shows "pg_ok db1 \<and> touched c db db1 i \<and> (\<forall>s. s \<noteq> i \<longrightarrow> untouched db db1 s) \<and> column_value db1 crash_event = c"
    and "ra = Inr ev \<Longrightarrow> pg_ok db2 \<and> touched c db db2 i \<and> (\<forall>s. s \<noteq> i \<longrightarrow> untouched db db2 s) \<and>
      column_value db2 crash_event = c \<and> (\<forall>x. rf = Inr x \<longrightarrow> recovered c db db2 i)"
proof -
  have s1: "pg_ok db1" "pg_stat db1 = pg_stat db" "column_value db1 = column_value db"
    using pg.wf_app [OF ok, of i crash_event ka] pg.stat_app [OF ok, of i crash_event ka]
      pg.col_app [OF ok, of i crash_event ka] a by simp_all
  have l1: "pg_log db1 = pg_log db \<or> pg_log db1 = (pg_log db)(i := pg_log db i @ [c])"
    using pg.log_app [OF ok, of i crash_event ka] a c by simp
  show "pg_ok db1 \<and> touched c db db1 i \<and> (\<forall>s. s \<noteq> i \<longrightarrow> untouched db db1 s) \<and> column_value db1 crash_event = c"
    using s1 l1 run c by (auto simp: touched_def untouched_def)
  assume ev: "ra = Inr ev"
  have l: "pg_log db1 = (pg_log db)(i := pg_log db i @ [c])"
    using pg.log_app_ok [OF ok a [unfolded ev]] c by simp
  have s2: "pg_ok db2" "pg_log db2 = pg_log db1" "column_value db2 = column_value db1"
      "pg_stat db2 = pg_stat db1 \<or> pg_stat db2 = (pg_stat db1)(i \<mapsto> Failed)"
    using pg.wf_fin [OF s1(1), of i Failed kf] pg.log_fin [OF s1(1), of i Failed kf]
      pg.stat_fin [OF s1(1), of i Failed kf] pg.col_fin [OF s1(1), of i Failed kf] f [OF ev] by auto
  have "pg_stat db2 i = Some Failed" if "rf = Inr x" for x
    using pg.fin_ok [OF s1(1) f [OF ev, unfolded that]] run s1(2) by simp
  then show "pg_ok db2 \<and> touched c db db2 i \<and> (\<forall>s. s \<noteq> i \<longrightarrow> untouched db db2 s) \<and>
      column_value db2 crash_event = c \<and> (\<forall>x. rf = Inr x \<longrightarrow> recovered c db db2 i)"
    using s1 s2 l run c by (auto simp: touched_def untouched_def recovered_def)
qed

lemma touched_trans:
  "untouched db db1 s \<Longrightarrow> touched c db1 db2 s \<Longrightarrow> touched c db db2 s"
  "untouched db db1 s \<Longrightarrow> recovered c db1 db2 s \<Longrightarrow> recovered c db db2 s"
  "untouched db db1 s \<Longrightarrow> untouched db1 db2 s \<Longrightarrow> untouched db db2 s"
  "recovered c db db1 s \<Longrightarrow> untouched db1 db2 s \<Longrightarrow> recovered c db db2 s"
  by (auto simp: untouched_def touched_def recovered_def)

lemma untouched_refl [simp]: "untouched db db s"
  by (simp add: untouched_def)

text \<open>The first session is the one that stops the loop, or is settled before the others.\<close>

lemma settled_first:
  assumes "touched c db db' i" and "\<forall>s. s \<noteq> i \<longrightarrow> untouched db db' s" and "i \<notin> set ids"
  shows "settled_to c db db' (i # ids) 0"
  using assms by (auto simp: settled_to_def list_all_iff)

lemma settled_next:
  assumes "recovered c db db1 i" and "\<forall>s. s \<noteq> i \<longrightarrow> untouched db db1 s" and "i \<notin> set ids"
    and "settled_to c db1 db2 ids k" and "untouched db1 db2 i"
  shows "settled_to c db db2 (i # ids) (Suc k)"
proof -
  have u: "untouched db db1 s" if "s \<in> set ids" for s using assms(2,3) that by metis
  have sets: "set (take k ids) \<subseteq> set ids" "set (take 1 (drop k ids)) \<subseteq> set ids" "set (drop (Suc k) ids) \<subseteq> set ids"
    by (meson set_take_subset set_drop_subset order_trans)+
  have "list_all (recovered c db db2) (take k ids)" "list_all (touched c db db2) (take 1 (drop k ids))"
    "list_all (untouched db db2) (drop (Suc k) ids)"
    using assms(4) u sets touched_trans(1-3) unfolding settled_to_def list_all_iff by (metis subsetD)+
  moreover have "recovered c db db2 i" using touched_trans(4) assms(1,5) by blast
  ultimately show ?thesis using assms(4) by (simp add: settled_to_def)
qed

lemma recover_sessions_spec:
  assumes "pg_ok db" and "distinct ids" and "\<forall>i \<in> set ids. pg_stat db i = Some Running"
    and "column_value db crash_event = c" and "recover_sessions R ids db = (r, db')"
  shows "pg_ok db' \<and> column_value db' crash_event = c \<and> (\<forall>s. s \<notin> set ids \<longrightarrow> untouched db db' s) \<and>
    (case r of Inr n \<Rightarrow> n = length ids \<and> settled_to c db db' ids (length ids)
       | Inl e \<Rightarrow> \<exists>k < length ids. settled_to c db db' ids k)"
  using assms
proof (induction ids arbitrary: db r)
  case (Cons i ids)
  have run: "pg_stat db i = Some Running" and fresh: "i \<notin> set ids" using Cons.prems(2,3) by simp_all
  show ?case
  proof (cases "pg_load_session_meta db i (re_load R i)")
    case (Inl e)
    have "settled_to c db db (i # ids) 0"
      by (rule settled_first) (simp_all add: touched_def run fresh)
    with Inl show ?thesis using Cons.prems by auto
  next
    case (Inr m)
    note id = loaded_id [OF Inr]
    obtain ra db1 where a: "pg_app db i crash_event (re_append R i) = (ra, db1)" by fastforce
    obtain rs s2 db2 where f: "session_finish db1 (session_from_meta m) Failed (fst (re_fail R i)) (snd (re_fail R i)) = (rs, s2, db2)"
      by (metis prod.exhaust)
    define kf where "kf = ([] :: uuid, fst (re_fail R i), snd (re_fail R i))"
    define rf where "rf = fst (pg_fin db1 i Failed kf)"
    have f': "pg_fin db1 i Failed kf = (rf, db2)"
      using session_finish_fin [OF f] unfolding id kf_def rf_def by (metis snd_conv prod.collapse)
    have good: "\<exists>x. rf = Inr x" if "rs = Inr u" for u
      using f that unfolding session_finish_def rf_def kf_def pg_fin_def id
      by (auto split: prod.splits sum.splits option.splits)
    note one = recover_one [OF Cons.prems(1) run a f' Cons.prems(4)]
    note loop = recover_sessions.simps(2) [of R i ids db] Inr a id
    show ?thesis
    proof (cases ra)
      case (Inl e)
      then have "r = Inl e" "db' = db1" using Cons.prems(5) loop by simp_all
      then show ?thesis using one(1) settled_first [of c db db1 i ids] fresh by auto
    next
      case ev: (Inr ev)
      note two = one(2) [OF ev]
      show ?thesis
      proof (cases rs)
        case (Inl e)
        then have "r = Inl e" "db' = db2" using Cons.prems(5) loop ev f by simp_all
        then show ?thesis using two settled_first [of c db db2 i ids] fresh by auto
      next
        case (Inr u)
        then have rec: "recovered c db db2 i" using two good by blast
        obtain r3 where r3: "recover_sessions R ids db2 = (r3, db')" "r = (case r3 of Inl e \<Rightarrow> Inl e | Inr n \<Rightarrow> Inr (n + 1))"
          using Cons.prems(5) loop ev f Inr by (auto split: prod.splits sum.splits)
        have run2: "\<forall>j \<in> set ids. pg_stat db2 j = Some Running"
          using two Cons.prems(2,3) by (auto simp: untouched_def)
        have IH: "pg_ok db' \<and> column_value db' crash_event = c \<and> (\<forall>s. s \<notin> set ids \<longrightarrow> untouched db2 db' s) \<and>
            (case r3 of Inr n \<Rightarrow> n = length ids \<and> settled_to c db2 db' ids (length ids)
               | Inl e \<Rightarrow> \<exists>k < length ids. settled_to c db2 db' ids k)"
          using Cons.IH [OF _ _ run2 _ r3(1)] two Cons.prems(2) by auto
        have step: "settled_to c db db' (i # ids) (Suc k)" if "settled_to c db2 db' ids k" for k
          using settled_next [OF rec _ fresh that] two IH fresh by blast
        have others: "untouched db db' s" if "s \<notin> set (i # ids)" for s
          using that two IH touched_trans(3) by auto
        show ?thesis
          using IH others step r3(2) by (cases r3) auto
      qed
    qed
  qed
qed (simp add: settled_to_def)

text \<open>Read per session.\<close>

lemma settled_all: "settled_to c db db' ids (length ids) \<Longrightarrow> s \<in> set ids \<Longrightarrow> recovered c db db' s"
  by (simp add: settled_to_def list_all_iff)

lemma settled_nth:
  assumes "settled_to c db db' ids k" and "j < length ids"
  shows "if j < k then recovered c db db' (ids ! j) else if j = k then touched c db db' (ids ! j)
    else untouched db db' (ids ! j)"
proof -
  have "ids ! j \<in> set (take k ids)" if "j < k" using that assms(2) by (auto simp: in_set_conv_nth)
  moreover have "ids ! j \<in> set (take 1 (drop k ids))" if "j = k"
    using that assms(2) by (simp add: take_Suc hd_drop_conv_nth)
  moreover have "ids ! j \<in> set (drop (Suc k) ids)" if "k < j"
    using that assms(2) by (auto simp: in_set_conv_nth intro!: exI [of _ "j - Suc k"])
  ultimately show ?thesis using assms(1) by (auto simp: settled_to_def list_all_iff)
qed

lemma prune_containers_spec:
  "prune_containers parse running destroyed ls = (us, k) \<Longrightarrow>
    us = List.map_filter (\<lambda>l. extract_session_uuid parse (trim l))
      (filter (\<lambda>l. \<not> (\<exists>u \<in> running. extract_session_uuid parse (trim l) = Some u)) ls) \<and>
    k = length (filter destroyed us)"
proof (induction ls arbitrary: us k)
  case (Cons l ls)
  have none: "extract_session_uuid parse [] = None"
    by (simp add: extract_session_uuid_def SESSION_PREFIX_def starts_with_def)
  show ?case
    using Cons by (auto simp: Let_def none List.map_filter_simps split: prod.splits option.splits if_splits)
qed (simp add: List.map_filter_simps)


lemma select_running_Ok: "select_running db reply = Inr ids \<Longrightarrow> ids = running_ids db"
  unfolding select_running_def by (cases reply) auto

text \<open>A recovery that gets past the first statement.\<close>

lemma reconcile_after:
  assumes "select_running db (st_first S) = Inr ids" and "reconcile S db = (r, db', removed)"
  shows "\<exists>r1. recover_sessions (st_recover S) ids db = (r1, db') \<and>
    (\<forall>rep. r = Inr rep \<longrightarrow> r1 = Inr (sessions_reconciled rep)) \<and>
    (\<forall>u \<in> set removed. \<exists>n ls l. r1 = Inr n \<and> st_ps S = PsListed ls \<and> l \<in> set ls \<and>
      extract_session_uuid (st_parse S) (trim l) = Some u) \<and>
    (\<forall>e. r = Inl e \<longrightarrow> removed = [] \<and>
      (case e of SessionFailed e' \<Rightarrow> r1 = Inl e' | DatabaseFailed e' \<Rightarrow> \<exists>n. r1 = Inr n))"
proof -
  obtain r1 db1 where rec: "recover_sessions (st_recover S) ids db = (r1, db1)" by fastforce
  have db1: "db1 = db'" using assms rec by (auto simp: reconcile_def split: sum.splits prod.splits)
  have ok: "r1 = Inr (sessions_reconciled rep)" if "r = Inr rep" for rep
    using assms rec that by (auto simp: reconcile_def Let_def split: sum.splits prod.splits)
  have rem: "\<exists>n ls l. r1 = Inr n \<and> st_ps S = PsListed ls \<and> l \<in> set ls \<and>
      extract_session_uuid (st_parse S) (trim l) = Some u" if u: "u \<in> set removed" for u
  proof -
    obtain n where n: "r1 = Inr n" using assms rec u by (cases r1) (auto simp: reconcile_def)
    obtain set2 k where c: "reconcile_containers (st_parse S) set2 (st_destroyed S) (st_ps S) = (removed, k)"
      using assms rec n u by (auto simp: reconcile_def Let_def split: sum.splits prod.splits)
    then obtain ls where ls: "st_ps S = PsListed ls"
      using u by (auto simp: reconcile_containers_def split: DockerPs.splits)
    then have "prune_containers (st_parse S) set2 (st_destroyed S) ls = (removed, k)"
      using c by (simp add: reconcile_containers_def)
    from prune_containers_spec [OF this] u show ?thesis
      using n ls by (auto simp: List.map_filter_def)
  qed
  have err: "removed = [] \<and> (case e of SessionFailed e' \<Rightarrow> r1 = Inl e' | DatabaseFailed e' \<Rightarrow> \<exists>n. r1 = Inr n)"
    if "r = Inl e" for e
    using assms rec that by (auto simp: reconcile_def Let_def split: sum.splits prod.splits)
  show ?thesis using rec ok rem err unfolding db1 by (intro exI [of _ r1]) blast
qed

lemma reconcile_idle:
  assumes "running_ids db = []" and "reconcile S db = (Inr rep, db', removed)"
  shows "db' = db \<and> sessions_reconciled rep = 0"
proof (cases "select_running db (st_first S)")
  case (Inr ids)
  then show ?thesis
    using reconcile_after [OF Inr assms(2)] select_running_Ok [OF Inr] assms(1) by fastforce
qed (use assms(2) in \<open>simp add: reconcile_def\<close>)


definition crashed_db :: Db where
  "crashed_db = tables [\<lparr>row_id = ''s1'', row_workflow_id = [], row_tenant_id = [],
      row_status = ''running'', row_started_at = [], row_ended_at = None\<rparr>] []"

definition quiet_start :: StartEnv where
  "quiet_start = \<lparr>st_first = Commits,
     st_recover = \<lparr>re_load = (\<lambda>_. Commits), re_append = (\<lambda>_. (''e1'', [], Commits)), re_fail = (\<lambda>_. ([], Commits))\<rparr>,
     st_second = Commits, st_parse = Some, st_ps = PsListed [''stepyard-session-s1''],
     st_destroyed = (\<lambda>_. True), st_prune = None\<rparr>"

lemma crashed_db_ok: "pg_ok crashed_db" "pg_stat crashed_db ''s1'' = Some Running"
proof -
  show s: "pg_stat crashed_db ''s1'' = Some Running"
    by (simp add: crashed_db_def pg_stat_def find_session_def row_stat_running)
  have "\<exists>st. ''running'' = status_str st" by (rule exI [of _ Running]) simp
  then show "pg_ok crashed_db" by (simp add: crashed_db_def pg_ok_def events_of_def)
qed


end
