(* ===== verification/Worktree.thy ===== *)
theory Worktree
  imports EngineBase
begin

text \<open>
  \<open>crates/stepyard-sandbox-orchestrator/src/workspace.rs\<close>: the git worktree manager. Every call to git
  or to the file system is recorded and answered by the host, a function of the calls made before, so
  that the world may change between any two calls. Texts are the decoded output of git, paths are
  texts, times are nanoseconds since the epoch.
\<close>

section \<open>The host\<close>

record GitOutput =
  git_ok :: bool
  git_stdout :: string
  git_stderr :: string

datatype GitAnswer = GitRan GitOutput | GitTimedOut | GitIo string

text \<open>What \<open>read_dir\<close> gives: an error of \<open>next_entry\<close> or the name of an entry, if it is text.\<close>

datatype ReadDir = DirMissing | DirError string | DirEntries "(string, string option) result list"

datatype WtCall =
    CallExists string
  | CallCreateDir string
  | CallGit string "string list"
  | CallCanonicalize string
  | CallReadDir string
  | CallFileType string
  | CallModified string
  | CallClock
  | CallRemoveDir string

type_synonym calls = "WtCall list"

record WtHost =
  wh_exists :: "calls \<Rightarrow> string \<Rightarrow> bool"
  wh_create :: "calls \<Rightarrow> string \<Rightarrow> (string, unit) result"
  wh_git :: "calls \<Rightarrow> string \<Rightarrow> string list \<Rightarrow> GitAnswer"
  wh_canon :: "calls \<Rightarrow> string \<Rightarrow> string option"
  wh_read_dir :: "calls \<Rightarrow> string \<Rightarrow> ReadDir"
  wh_is_dir :: "calls \<Rightarrow> string \<Rightarrow> (string, bool) result"
  wh_modified :: "calls \<Rightarrow> string \<Rightarrow> (string, int) result"
  wh_clock :: "calls \<Rightarrow> int"
  wh_remove :: "calls \<Rightarrow> string \<Rightarrow> (string, unit) result"

type_synonym 'a wt = "calls \<Rightarrow> (WorkspaceError, 'a) result \<times> calls"

definition wret :: "'a \<Rightarrow> 'a wt" where
  "wret a h = (Inr a, h)"

definition wfail :: "WorkspaceError \<Rightarrow> 'a wt" where
  "wfail e h = (Inl e, h)"

definition wbind :: "'a wt \<Rightarrow> ('a \<Rightarrow> 'b wt) \<Rightarrow> 'b wt" where
  "wbind m f h = (case m h of (Inl e, h') \<Rightarrow> (Inl e, h') | (Inr a, h') \<Rightarrow> f a h')"

definition wattempt :: "'a wt \<Rightarrow> ((WorkspaceError, 'a) result) wt" where
  "wattempt m h = (case m h of (r, h') \<Rightarrow> (Inr r, h'))"

definition wcall :: "WtCall \<Rightarrow> (calls \<Rightarrow> 'a) \<Rightarrow> 'a wt" where
  "wcall c f h = (Inr (f h), h @ [c])"

text \<open>The \<open>From<io::Error>\<close> conversion of \<open>?\<close>.\<close>

definition wio :: "WtCall \<Rightarrow> (calls \<Rightarrow> (string, 'a) result) \<Rightarrow> 'a wt" where
  "wio c f = wbind (wcall c f) (\<lambda>r. case r of Inl m \<Rightarrow> wfail (WorkspaceIo m) | Inr a \<Rightarrow> wret a)"

section \<open>The manager\<close>

record GitWorktreeManager =
  repo_root :: string
  workspaces_dir :: string
  retention_hours :: nat

text \<open>
  \<open>Path::components\<close>, by which paths are equal: whether it is absolute, and the parts between the
  separators without the empty ones and, except in front, the dots.
\<close>

definition path_components :: "string \<Rightarrow> bool \<times> string list" where
  "path_components p =
    (if hd (split_slash p) = ''.'' then (False, ''.'' # components p) else (is_absolute p, components p))"

definition workspace_path :: "GitWorktreeManager \<Rightarrow> uuid \<Rightarrow> string" where
  "workspace_path M sid = join_path (workspaces_dir M) (''stepyard-session-'' @ sid)"

definition branch_and_base :: "BranchStrategy \<Rightarrow> uuid \<Rightarrow> string option \<times> string" where
  "branch_and_base st sid =
    (case st of
       BHead \<Rightarrow> (None, ''HEAD'')
     | BMergeToHead target \<Rightarrow> (Some (''stepyard/session-'' @ sid), target)
     | BNamedBranch n \<Rightarrow> (Some n, ''HEAD''))"

definition git_output_in :: "WtHost \<Rightarrow> string \<Rightarrow> string \<Rightarrow> string list \<Rightarrow> GitOutput wt" where
  "git_output_in H cwd op args =
    wbind (wcall (CallGit cwd args) (\<lambda>h. wh_git H h cwd args)) (\<lambda>a.
      case a of
        GitRan out \<Rightarrow> wret out
      | GitTimedOut \<Rightarrow> wfail (GitCommand op ''timed out after 30s'')
      | GitIo m \<Rightarrow> wfail (WorkspaceIo m))"

definition git_output :: "GitWorktreeManager \<Rightarrow> WtHost \<Rightarrow> string \<Rightarrow> string list \<Rightarrow> GitOutput wt" where
  "git_output M H op args = git_output_in H (repo_root M) op args"

definition git_success :: "GitWorktreeManager \<Rightarrow> WtHost \<Rightarrow> string \<Rightarrow> string list \<Rightarrow> GitOutput wt" where
  "git_success M H op args =
    wbind (git_output M H op args) (\<lambda>out.
      if git_ok out then wret out else wfail (GitCommand op (git_stderr out)))"

definition canonical_path :: "WtHost \<Rightarrow> string \<Rightarrow> string wt" where
  "canonical_path H p = wbind (wcall (CallCanonicalize p) (\<lambda>h. wh_canon H h p)) (\<lambda>c.
    wret (case c of None \<Rightarrow> p | Some q \<Rightarrow> q))"

text \<open>The lines of \<open>git worktree list --porcelain\<close> that name a worktree.\<close>

definition worktree_lines :: "string \<Rightarrow> string list" where
  "worktree_lines out =
    map (drop (length ''worktree '')) (filter (\<lambda>l. starts_with l ''worktree '') (str_lines out))"

fun canonical_all :: "WtHost \<Rightarrow> string list \<Rightarrow> string list wt" where
  "canonical_all H [] = wret []"
| "canonical_all H (p # ps) = wbind (canonical_path H p) (\<lambda>c. wbind (canonical_all H ps) (\<lambda>cs. wret (c # cs)))"

definition listed_worktree_paths :: "GitWorktreeManager \<Rightarrow> WtHost \<Rightarrow> (bool \<times> string list) set wt" where
  "listed_worktree_paths M H =
    wbind (git_success M H ''worktree list'' [''worktree'', ''list'', ''--porcelain'']) (\<lambda>out.
    wbind (canonical_all H (worktree_lines (git_stdout out))) (\<lambda>cs. wret (path_components ` set cs)))"

text \<open>
  \<open>Duration::from_secs(hours.saturating_mul(3600))\<close> before now; the epoch when the seconds leave the
  range of \<open>i64\<close>.
\<close>

definition retention_cutoff :: "nat \<Rightarrow> int \<Rightarrow> int" where
  "retention_cutoff hours t =
    (let r = int (min (hours * 3600) (2 ^ 64 - 1)) in
     if t div 1000000000 - r < - (2 ^ 63) then 0 else t - r * 1000000000)"

definition is_past_retention :: "GitWorktreeManager \<Rightarrow> int \<Rightarrow> int \<Rightarrow> bool" where
  "is_past_retention M t modified \<longleftrightarrow> modified < retention_cutoff (retention_hours M) t"

section \<open>Prepare\<close>

text \<open>Creating the parent of the path is creating the directory of the workspaces.\<close>

definition prepare :: "GitWorktreeManager \<Rightarrow> WtHost \<Rightarrow> uuid \<Rightarrow> BranchStrategy \<Rightarrow> Workspace wt" where
  "prepare M H sid st =
    (let path = workspace_path M sid; (branch, base) = branch_and_base st sid in
     wbind (wcall (CallExists path) (\<lambda>h. wh_exists H h path)) (\<lambda>there.
     if there then wfail (WorktreeExists path)
     else
       wbind (wio (CallCreateDir (workspaces_dir M)) (\<lambda>h. wh_create H h (workspaces_dir M))) (\<lambda>_.
       wbind (git_success M H ''worktree add''
         ([''worktree'', ''add''] @ (case branch of None \<Rightarrow> [] | Some b \<Rightarrow> [''-b'', b]) @ [path, base])) (\<lambda>_.
       wret \<lparr>ws_path = path, ws_branch = branch,
             ws_merge_target = (case st of BMergeToHead target \<Rightarrow> Some target | _ \<Rightarrow> None)\<rparr>))))"

section \<open>Finalize\<close>

datatype WorkflowOutcome = Success | Failure

record FinalizeReport =
  merged :: bool
  conflicts :: "string list"

definition checkout_target :: "GitWorktreeManager \<Rightarrow> WtHost \<Rightarrow> string \<Rightarrow> GitOutput wt" where
  "checkout_target M H target =
    wbind (wattempt (git_success M H ''checkout merge target'' [''checkout'', target])) (\<lambda>r.
      case r of
        Inr out \<Rightarrow> wret out
      | Inl (GitCommand op err) \<Rightarrow> wfail (TargetBranchNotFound target)
      | Inl e \<Rightarrow> wfail e)"

definition conflict_files :: "string \<Rightarrow> string list" where
  "conflict_files out = filter (\<lambda>l. l \<noteq> []) (map trim (str_lines out))"

text \<open>After the merge: the worktree and the branch go; or the conflicts are read and the merge is aborted.\<close>

definition finalize_merged :: "GitWorktreeManager \<Rightarrow> WtHost \<Rightarrow> string \<Rightarrow> string \<Rightarrow> FinalizeReport wt" where
  "finalize_merged M H path source =
    wbind (git_success M H ''worktree remove'' [''worktree'', ''remove'', ''--force'', path]) (\<lambda>_.
    wbind (git_success M H ''branch delete'' [''branch'', ''-d'', source]) (\<lambda>_.
    wret \<lparr>merged = True, conflicts = []\<rparr>))"

definition finalize_conflict :: "GitWorktreeManager \<Rightarrow> WtHost \<Rightarrow> FinalizeReport wt" where
  "finalize_conflict M H =
    wbind (git_success M H ''conflict files'' [''diff'', ''--name-only'', ''--diff-filter=U'']) (\<lambda>out.
    wbind (wattempt (git_output M H ''merge abort'' [''merge'', ''--abort''])) (\<lambda>_.
    wfail (WorkspaceMergeConflict (conflict_files (git_stdout out)))))"

definition finalize :: "GitWorktreeManager \<Rightarrow> WtHost \<Rightarrow> Workspace \<Rightarrow> WorkflowOutcome \<Rightarrow> FinalizeReport wt" where
  "finalize M H ws outcome =
    (case (ws_merge_target ws, ws_branch ws) of
       (Some target, Some source) \<Rightarrow>
         if outcome \<noteq> Success then wret \<lparr>merged = False, conflicts = []\<rparr>
         else
           wbind (checkout_target M H target) (\<lambda>_.
           wbind (git_output M H ''merge'' [''merge'', ''--no-ff'', source]) (\<lambda>merge.
           if git_ok merge then finalize_merged M H (ws_path ws) source
           else finalize_conflict M H))
     | _ \<Rightarrow> wret \<lparr>merged = False, conflicts = []\<rparr>)"

section \<open>Prune\<close>

record PruneReport =
  pr_pruned_count :: "32 word"
  pr_preserved_count :: "32 word"
  pr_pruned :: "string list"

definition preserve :: "PruneReport \<Rightarrow> PruneReport" where
  "preserve rep = rep\<lparr>pr_preserved_count := pr_preserved_count rep + 1\<rparr>"

text \<open>One directory that may be a session's: preserved, or removed when nothing speaks for it.\<close>

definition prune_dir :: "GitWorktreeManager \<Rightarrow> WtHost \<Rightarrow> (bool \<times> string list) set \<Rightarrow> string \<Rightarrow> PruneReport \<Rightarrow> PruneReport wt" where
  "prune_dir M H listed path rep =
    wbind (canonical_path H path) (\<lambda>c.
    if path_components c \<in> listed then wret (preserve rep)
    else
      wbind (wio (CallModified path) (\<lambda>h. wh_modified H h path)) (\<lambda>modified.
      wbind (wcall CallClock (wh_clock H)) (\<lambda>t.
      if \<not> is_past_retention M t modified then wret (preserve rep)
      else
        wbind (wattempt (git_output_in H path ''worktree status'' [''status'', ''--porcelain''])) (\<lambda>r.
        case r of
          Inl e \<Rightarrow> wret (preserve rep)
        | Inr out \<Rightarrow>
          if \<not> git_ok out then wret (preserve rep)
          else if trim (git_stdout out) \<noteq> [] then wret (preserve rep)
          else
            wbind (wio (CallRemoveDir path) (\<lambda>h. wh_remove H h path)) (\<lambda>_.
            wret (rep\<lparr>pr_pruned_count := pr_pruned_count rep + 1, pr_pruned := pr_pruned rep @ [path]\<rparr>))))))"

definition prune_entry :: "GitWorktreeManager \<Rightarrow> WtHost \<Rightarrow> (bool \<times> string list) set \<Rightarrow> string \<Rightarrow> PruneReport \<Rightarrow> PruneReport wt" where
  "prune_entry M H listed n rep =
    (let path = join_path (workspaces_dir M) n in
     if \<not> starts_with n ''stepyard-session-'' then wret rep
     else
       wbind (wio (CallFileType path) (\<lambda>h. wh_is_dir H h path)) (\<lambda>d.
       if \<not> d then wret rep else prune_dir M H listed path rep))"

fun prune_entries ::
  "GitWorktreeManager \<Rightarrow> WtHost \<Rightarrow> (bool \<times> string list) set \<Rightarrow> (string, string option) result list \<Rightarrow> PruneReport \<Rightarrow> PruneReport wt" where
  "prune_entries M H listed [] rep = wret rep"
| "prune_entries M H listed (Inl m # es) rep = wfail (WorkspaceIo m)"
| "prune_entries M H listed (Inr None # es) rep = prune_entries M H listed es rep"
| "prune_entries M H listed (Inr (Some n) # es) rep =
    wbind (prune_entry M H listed n rep) (\<lambda>rep'. prune_entries M H listed es rep')"

definition prune :: "GitWorktreeManager \<Rightarrow> WtHost \<Rightarrow> PruneReport wt" where
  "prune M H =
    (let rep = \<lparr>pr_pruned_count = 0, pr_preserved_count = 0, pr_pruned = []\<rparr> in
     wbind (git_output M H ''worktree prune'' [''worktree'', ''prune'']) (\<lambda>out.
     if \<not> git_ok out \<and> \<not> str_contains (git_stderr out) ''nothing to prune''
     then wfail (GitCommand ''worktree prune'' (git_stderr out))
     else
       wbind (listed_worktree_paths M H) (\<lambda>listed.
       wbind (wcall (CallReadDir (workspaces_dir M)) (\<lambda>h. wh_read_dir H h (workspaces_dir M))) (\<lambda>d.
       case d of
         DirMissing \<Rightarrow> wret rep
       | DirError m \<Rightarrow> wfail (WorkspaceIo m)
       | DirEntries es \<Rightarrow> prune_entries M H listed es rep))))"

section \<open>Weakest preconditions\<close>

definition wp :: "'a wt \<Rightarrow> ((WorkspaceError, 'a) result \<Rightarrow> calls \<Rightarrow> bool) \<Rightarrow> calls \<Rightarrow> bool" where
  "wp m Q h = (case m h of (r, h') \<Rightarrow> Q r h')"

lemma wp_wret [simp]: "wp (wret a) Q h = Q (Inr a) h"
  by (simp add: wp_def wret_def)

lemma wp_wfail [simp]: "wp (wfail e) Q h = Q (Inl e) h"
  by (simp add: wp_def wfail_def)

lemma wp_wbind [simp]:
  "wp (wbind m f) Q h = wp m (\<lambda>r h'. case r of Inl e \<Rightarrow> Q (Inl e) h' | Inr a \<Rightarrow> wp (f a) Q h') h"
  by (simp add: wp_def wbind_def split: prod.split sum.split)

lemma wp_wattempt [simp]: "wp (wattempt m) Q h = wp m (\<lambda>r. Q (Inr r)) h"
  by (simp add: wp_def wattempt_def split: prod.split)

lemma wp_wcall [simp]: "wp (wcall c g) Q h = Q (Inr (g h)) (h @ [c])"
  by (simp add: wp_def wcall_def)

lemma wp_wio [simp]:
  "wp (wio c g) Q h = (case g h of Inl m \<Rightarrow> Q (Inl (WorkspaceIo m)) (h @ [c]) | Inr a \<Rightarrow> Q (Inr a) (h @ [c]))"
  by (simp add: wio_def split: sum.split)

lemma wp_git [simp]:
  "wp (git_output_in H d op args) Q h =
    (case wh_git H h d args of
       GitRan out \<Rightarrow> Q (Inr out) (h @ [CallGit d args])
     | GitTimedOut \<Rightarrow> Q (Inl (GitCommand op ''timed out after 30s'')) (h @ [CallGit d args])
     | GitIo m \<Rightarrow> Q (Inl (WorkspaceIo m)) (h @ [CallGit d args]))"
  by (simp add: git_output_in_def split: GitAnswer.split)

lemma wp_canonical_path [simp]:
  "wp (canonical_path H p) Q h =
    Q (Inr (case wh_canon H h p of None \<Rightarrow> p | Some q \<Rightarrow> q)) (h @ [CallCanonicalize p])"
  by (simp add: canonical_path_def)

lemma wp_mono: "wp m Q h \<Longrightarrow> (\<And>r h'. Q r h' \<Longrightarrow> R r h') \<Longrightarrow> wp m R h"
  by (auto simp: wp_def)

lemma wpD: "m h = (r, h') \<Longrightarrow> wp m Q h \<Longrightarrow> Q r h'"
  by (simp add: wp_def)

section \<open>What a history says\<close>

text \<open>The call was made in the history and answered so.\<close>

definition asked :: "(calls \<Rightarrow> 'a) \<Rightarrow> WtCall \<Rightarrow> calls \<Rightarrow> 'a \<Rightarrow> bool" where
  "asked g c h a \<longleftrightarrow> (\<exists>k. prefix (k @ [c]) h \<and> g k = a)"

lemma asked_mono: "asked g c h a \<Longrightarrow> prefix h h' \<Longrightarrow> asked g c h' a"
  unfolding asked_def using prefix_order.trans by blast

lemma asked_snoc [simp]: "asked g c (h @ [d]) a \<longleftrightarrow> asked g c h a \<or> c = d \<and> g h = a"
  by (auto simp: asked_def)

definition comparable :: "string \<Rightarrow> string option \<Rightarrow> bool \<times> string list" where
  "comparable p c = path_components (case c of None \<Rightarrow> p | Some q \<Rightarrow> q)"

text \<open>Git was asked for its worktrees, and the set holds them all, canonically.\<close>

definition lists_worktrees :: "GitWorktreeManager \<Rightarrow> WtHost \<Rightarrow> calls \<Rightarrow> (bool \<times> string list) set \<Rightarrow> bool" where
  "lists_worktrees M H h listed \<longleftrightarrow>
    (\<exists>out. asked (\<lambda>k. wh_git H k (repo_root M) [''worktree'', ''list'', ''--porcelain''])
        (CallGit (repo_root M) [''worktree'', ''list'', ''--porcelain'']) h (GitRan out) \<and> git_ok out \<and>
      (\<forall>l \<in> set (worktree_lines (git_stdout out)).
         \<exists>c. asked (\<lambda>k. wh_canon H k l) (CallCanonicalize l) h c \<and> comparable l c \<in> listed))"

definition unlisted :: "GitWorktreeManager \<Rightarrow> WtHost \<Rightarrow> calls \<Rightarrow> string \<Rightarrow> bool" where
  "unlisted M H h p \<longleftrightarrow>
    (\<exists>listed c. lists_worktrees M H h listed \<and>
       asked (\<lambda>k. wh_canon H k p) (CallCanonicalize p) h c \<and> comparable p c \<notin> listed)"

definition forgotten :: "GitWorktreeManager \<Rightarrow> WtHost \<Rightarrow> calls \<Rightarrow> string \<Rightarrow> bool" where
  "forgotten M H h p \<longleftrightarrow>
    (\<exists>t m. asked (\<lambda>k. wh_modified H k p) (CallModified p) h (Inr m) \<and>
       asked (wh_clock H) CallClock h t \<and> is_past_retention M t m)"

definition clean :: "WtHost \<Rightarrow> calls \<Rightarrow> string \<Rightarrow> bool" where
  "clean H h p \<longleftrightarrow>
    (\<exists>out. asked (\<lambda>k. wh_git H k p [''status'', ''--porcelain'']) (CallGit p [''status'', ''--porcelain'']) h (GitRan out) \<and>
       git_ok out \<and> trim (git_stdout out) = [])"

definition session_dir :: "GitWorktreeManager \<Rightarrow> WtHost \<Rightarrow> calls \<Rightarrow> string \<Rightarrow> bool" where
  "session_dir M H h p \<longleftrightarrow>
    (\<exists>n. p = join_path (workspaces_dir M) n \<and> starts_with n ''stepyard-session-'') \<and>
    asked (\<lambda>k. wh_is_dir H k p) (CallFileType p) h (Inr True)"

definition orphan :: "GitWorktreeManager \<Rightarrow> WtHost \<Rightarrow> calls \<Rightarrow> string \<Rightarrow> bool" where
  "orphan M H h p \<longleftrightarrow> session_dir M H h p \<and> unlisted M H h p \<and> forgotten M H h p \<and> clean H h p"

lemma lists_worktrees_mono: "lists_worktrees M H h listed \<Longrightarrow> prefix h h' \<Longrightarrow> lists_worktrees M H h' listed"
  unfolding lists_worktrees_def by (meson asked_mono)

lemma lists_worktrees_snoc [simp]: "lists_worktrees M H h listed \<Longrightarrow> lists_worktrees M H (h @ [c]) listed"
  by (erule lists_worktrees_mono) simp

text \<open>Everything removed was an orphan at the time.\<close>

definition prudent :: "GitWorktreeManager \<Rightarrow> WtHost \<Rightarrow> calls \<Rightarrow> bool" where
  "prudent M H h \<longleftrightarrow> (\<forall>k p. prefix (k @ [CallRemoveDir p]) h \<longrightarrow> orphan M H k p)"

lemma prudent_Nil [simp]: "prudent M H []"
  by (simp add: prudent_def)

lemma prudent_snoc [simp]:
  "prudent M H (h @ [c]) \<longleftrightarrow> prudent M H h \<and> (\<forall>p. c = CallRemoveDir p \<longrightarrow> orphan M H h p)"
  by (auto simp: prudent_def)

fun removed_of :: "calls \<Rightarrow> string list" where
  "removed_of [] = []"
| "removed_of (CallRemoveDir p # h) = p # removed_of h"
| "removed_of (_ # h) = removed_of h"

lemma removed_of_append [simp]: "removed_of (h @ k) = removed_of h @ removed_of k"
  by (induction h rule: removed_of.induct) auto

text \<open>The session directories seen, at most one for each \<open>file_type\<close> asked.\<close>

definition dirs_seen :: "WtHost \<Rightarrow> calls \<Rightarrow> nat" where
  "dirs_seen H h = length (filter (\<lambda>i. \<exists>p. h ! i = CallFileType p \<and> wh_is_dir H (take i h) p = Inr True) [0..<length h])"

lemma dirs_seen_snoc [simp]:
  "dirs_seen H (h @ [c]) = dirs_seen H h +
    (case c of CallFileType p \<Rightarrow> if wh_is_dir H h p = Inr True then 1 else 0 | _ \<Rightarrow> 0)"
proof -
  have "filter (\<lambda>i. \<exists>p. (h @ [c]) ! i = CallFileType p \<and> wh_is_dir H (take i (h @ [c])) p = Inr True) [0..<length h]
      = filter (\<lambda>i. \<exists>p. h ! i = CallFileType p \<and> wh_is_dir H (take i h) p = Inr True) [0..<length h]"
    by (rule filter_cong) (auto simp: nth_append)
  then show ?thesis by (auto simp: dirs_seen_def split: WtCall.splits)
qed

lemma dirs_seen_Nil [simp]: "dirs_seen H [] = 0"
  by (simp add: dirs_seen_def)

section \<open>Prune\<close>

definition pruning :: "GitWorktreeManager \<Rightarrow> WtHost \<Rightarrow> (bool \<times> string list) set \<Rightarrow> PruneReport \<Rightarrow> nat \<Rightarrow> calls \<Rightarrow> bool" where
  "pruning M H listed rep seen h \<longleftrightarrow>
    prudent M H h \<and> lists_worktrees M H h listed \<and> removed_of h = pr_pruned rep \<and>
    pr_pruned_count rep = of_nat (length (pr_pruned rep)) \<and>
    pr_pruned_count rep + pr_preserved_count rep = of_nat seen"

definition pruned_well :: "GitWorktreeManager \<Rightarrow> WtHost \<Rightarrow> (bool \<times> string list) set \<Rightarrow> (WorkspaceError, PruneReport) result \<Rightarrow> calls \<Rightarrow> bool" where
  "pruned_well M H listed r h \<longleftrightarrow>
    prudent M H h \<and> (case r of Inl _ \<Rightarrow> True | Inr rep \<Rightarrow> pruning M H listed rep (dirs_seen H h) h)"

definition inert :: "WtCall \<Rightarrow> bool" where
  "inert c \<longleftrightarrow> (\<forall>p. c \<noteq> CallRemoveDir p \<and> c \<noteq> CallFileType p)"

lemma inert_simps [simp]:
  "inert (CallCanonicalize p)" "inert (CallModified p)" "inert CallClock" "inert (CallGit d args)"
  "inert (CallReadDir p)"
  by (simp_all add: inert_def)

lemma pruning_inert [simp]: "pruning M H listed rep n h \<Longrightarrow> inert c \<Longrightarrow> pruning M H listed rep n (h @ [c])"
  by (cases c) (auto simp: pruning_def inert_def)

lemma dirs_seen_inert [simp]: "inert c \<Longrightarrow> dirs_seen H (h @ [c]) = dirs_seen H h"
  by (cases c) (simp_all add: inert_def)

lemma well_failed: "pruning M H listed rep n h \<Longrightarrow> pruned_well M H listed (Inl e) h"
  by (simp add: pruned_well_def pruning_def)

lemma well_preserved:
  "pruning M H listed rep n h \<Longrightarrow> dirs_seen H h = Suc n \<Longrightarrow> pruned_well M H listed (Inr (preserve rep)) h"
  by (simp add: pruned_well_def pruning_def preserve_def) (metis add.assoc add.commute)

lemma well_removed:
  assumes "pruning M H listed rep n h" and "dirs_seen H h = Suc n" and "orphan M H h p"
  shows "pruned_well M H listed (Inl e) (h @ [CallRemoveDir p])"
    and "pruned_well M H listed (Inr (rep\<lparr>pr_pruned_count := pr_pruned_count rep + 1,
      pr_pruned := pr_pruned rep @ [p]\<rparr>)) (h @ [CallRemoveDir p])"
proof -
  show "pruned_well M H listed (Inl e) (h @ [CallRemoveDir p])"
    using assms by (simp add: pruned_well_def pruning_def)
  have "pr_pruned_count rep + 1 + pr_preserved_count rep = 1 + word_of_nat n"
    using assms(1) unfolding pruning_def by (metis add.assoc add.commute)
  then show "pruned_well M H listed (Inr (rep\<lparr>pr_pruned_count := pr_pruned_count rep + 1,
      pr_pruned := pr_pruned rep @ [p]\<rparr>)) (h @ [CallRemoveDir p])"
    using assms by (simp add: pruned_well_def pruning_def add.commute)
qed

lemma history_snoc [simp]:
  "session_dir M H h p \<Longrightarrow> session_dir M H (h @ [c]) p"
  "unlisted M H h p \<Longrightarrow> unlisted M H (h @ [c]) p"
  "forgotten M H h p \<Longrightarrow> forgotten M H (h @ [c]) p"
  by (auto simp: session_dir_def unlisted_def forgotten_def intro: lists_worktrees_snoc)

lemma unlisted_asked:
  "pruning M H listed rep n h \<Longrightarrow> comparable p (wh_canon H h p) \<notin> listed \<Longrightarrow> unlisted M H (h @ [CallCanonicalize p]) p"
  unfolding unlisted_def pruning_def by (intro exI [of _ listed] exI [of _ "wh_canon H h p"]) simp

lemma forgotten_asked:
  "wh_modified H h p = Inr m \<Longrightarrow> is_past_retention M (wh_clock H (h @ [CallModified p])) m \<Longrightarrow>
    forgotten M H ((h @ [CallModified p]) @ [CallClock]) p"
  unfolding forgotten_def
  by (intro exI [of _ "wh_clock H (h @ [CallModified p])"] exI [of _ m]) (simp del: append_assoc)

lemma clean_asked:
  "wh_git H h p [''status'', ''--porcelain''] = GitRan out \<Longrightarrow> git_ok out \<Longrightarrow> trim (git_stdout out) = [] \<Longrightarrow>
    clean H (h @ [CallGit p [''status'', ''--porcelain'']]) p"
  unfolding clean_def by (intro exI [of _ out]) simp

lemma prune_dir_well:
  assumes p: "pruning M H listed rep n h" and n: "dirs_seen H h = Suc n" and d: "session_dir M H h path"
  shows "wp (prune_dir M H listed path rep) (pruned_well M H listed) h"
proof -
  define h1 where "h1 = h @ [CallCanonicalize path]"
  define h2 where "h2 = h1 @ [CallModified path]"
  define h3 where "h3 = h2 @ [CallClock]"
  define h4 where "h4 = h3 @ [CallGit path [''status'', ''--porcelain'']]"
  note hs = h1_def h2_def h3_def h4_def
  have ps: "pruning M H listed rep n h1" "pruning M H listed rep n h2" "pruning M H listed rep n h3"
      "pruning M H listed rep n h4"
    using p by (simp_all add: hs del: append_assoc)
  have ns: "dirs_seen H h1 = Suc n" "dirs_seen H h2 = Suc n" "dirs_seen H h3 = Suc n" "dirs_seen H h4 = Suc n"
    using n by (simp_all add: hs del: append_assoc dirs_seen_snoc)
  have orphaned: "orphan M H h4 path"
    if "comparable path (wh_canon H h path) \<notin> listed" "wh_modified H h1 path = Inr m"
      "is_past_retention M (wh_clock H h2) m"
      "wh_git H h3 path [''status'', ''--porcelain''] = GitRan out" "git_ok out" "trim (git_stdout out) = []" for m out
    unfolding orphan_def
  proof (intro conjI)
    show "session_dir M H h4 path" using d by (simp add: hs del: append_assoc)
    show "unlisted M H h4 path" using unlisted_asked [OF p that(1)] by (simp add: hs del: append_assoc)
    show "forgotten M H h4 path"
      using forgotten_asked [of H h1 path m M] that(2,3) by (simp add: h2_def h3_def h4_def del: append_assoc)
    show "clean H h4 path" unfolding h4_def by (rule clean_asked [OF that(4-6)])
  qed
  show ?thesis
    unfolding prune_dir_def
    by (simp add: comparable_def [symmetric] hs [symmetric] well_preserved [OF ps(1) ns(1)] well_failed [OF ps(2)]
        well_preserved [OF ps(3) ns(3)] well_preserved [OF ps(4) ns(4)] del: append_assoc split: sum.split GitAnswer.split)
      (blast intro: well_removed [OF ps(4) ns(4)] orphaned)
qed

lemma prune_entry_well:
  assumes p: "pruning M H listed rep (dirs_seen H h) h"
  shows "wp (prune_entry M H listed n rep) (pruned_well M H listed) h"
proof -
  define path where "path = join_path (workspaces_dir M) n"
  have p1: "pruning M H listed rep (dirs_seen H h) (h @ [CallFileType path])"
    using p by (auto simp: pruning_def)
  have same: "pruned_well M H listed (Inr rep) h" using p by (auto simp: pruned_well_def pruning_def)
  have skip: "pruned_well M H listed (Inr rep) (h @ [CallFileType path])" if "wh_is_dir H h path = Inr False"
    using p1 that by (auto simp: pruned_well_def pruning_def)
  have go: "wp (prune_dir M H listed path rep) (pruned_well M H listed) (h @ [CallFileType path])"
    if "starts_with n ''stepyard-session-''" "wh_is_dir H h path = Inr True"
    using that by (intro prune_dir_well [OF p1]) (auto simp: session_dir_def path_def)
  show ?thesis
    unfolding prune_entry_def
    using well_failed [OF p1] same skip go
    by (auto simp: Let_def path_def [symmetric] split: sum.split)
qed

lemma prune_entries_well:
  "pruning M H listed rep (dirs_seen H h) h \<Longrightarrow>
    wp (prune_entries M H listed es rep) (pruned_well M H listed) h"
proof (induction M H listed es rep arbitrary: h rule: prune_entries.induct)
  case (4 M H listed n es rep)
  have "wp (prune_entry M H listed n rep) (\<lambda>r h'. case r of
      Inl e \<Rightarrow> pruned_well M H listed (Inl e) h'
    | Inr rep' \<Rightarrow> wp (prune_entries M H listed es rep') (pruned_well M H listed) h') h"
    by (rule wp_mono [OF prune_entry_well [OF "4.prems"]])
      (auto simp: pruned_well_def [of _ _ _ "Inr _"] intro: "4.IH" split: sum.split)
  then show ?case by simp
qed (auto simp: pruned_well_def pruning_def)

lemma canonical_all_asked:
  "wp (canonical_all H ps) (\<lambda>r h'. \<exists>cs. r = Inr cs \<and> prefix h h' \<and> set (drop (length h) h') \<subseteq> range CallCanonicalize \<and>
     (\<forall>l \<in> set ps. \<exists>c. asked (\<lambda>k. wh_canon H k l) (CallCanonicalize l) h' c \<and> comparable l c \<in> path_components ` set cs)) h"
proof (induction ps arbitrary: h)
  case (Cons p ps)
  define h1 where "h1 = h @ [CallCanonicalize p]"
  have "wp (canonical_all H ps) (\<lambda>r h'. case r of Inl e \<Rightarrow> False | Inr cs \<Rightarrow>
      prefix h h' \<and> set (drop (length h) h') \<subseteq> range CallCanonicalize \<and>
      (\<forall>l \<in> set (p # ps). \<exists>c. asked (\<lambda>k. wh_canon H k l) (CallCanonicalize l) h' c \<and>
        comparable l c \<in> insert (comparable p (wh_canon H h p)) (path_components ` set cs))) h1"
  proof (rule wp_mono [OF Cons.IH])
    fix r h'
    assume "\<exists>cs. r = Inr cs \<and> prefix h1 h' \<and> set (drop (length h1) h') \<subseteq> range CallCanonicalize \<and>
     (\<forall>l \<in> set ps. \<exists>c. asked (\<lambda>k. wh_canon H k l) (CallCanonicalize l) h' c \<and> comparable l c \<in> path_components ` set cs)"
    then obtain cs where r: "r = Inr cs" "prefix h1 h'" "set (drop (length h1) h') \<subseteq> range CallCanonicalize"
        "\<forall>l \<in> set ps. \<exists>c. asked (\<lambda>k. wh_canon H k l) (CallCanonicalize l) h' c \<and> comparable l c \<in> path_components ` set cs" by blast
    have a: "asked (\<lambda>k. wh_canon H k p) (CallCanonicalize p) h' (wh_canon H h p)"
      by (rule asked_mono [OF _ r(2)]) (simp add: h1_def)
    obtain t where t: "h' = h1 @ t" using r(2) by (auto simp: prefix_def)
    have "prefix h h'" "set (drop (length h) h') \<subseteq> range CallCanonicalize"
      using r(3) by (simp_all add: t h1_def)
    then show "case r of Inl e \<Rightarrow> False | Inr cs \<Rightarrow>
      prefix h h' \<and> set (drop (length h) h') \<subseteq> range CallCanonicalize \<and>
      (\<forall>l \<in> set (p # ps). \<exists>c. asked (\<lambda>k. wh_canon H k l) (CallCanonicalize l) h' c \<and>
        comparable l c \<in> insert (comparable p (wh_canon H h p)) (path_components ` set cs))"
      using r(4) a unfolding r(1) sum.case by (simp add: \<open>prefix h h'\<close> \<open>set (drop (length h) h') \<subseteq> range CallCanonicalize\<close>) blast
  qed
  then show ?case
    unfolding h1_def comparable_def by simp (erule wp_mono, auto split: sum.splits)
qed simp

lemma inert_history:
  "\<forall>c \<in> set h. inert c \<Longrightarrow> prudent M H h \<and> removed_of h = [] \<and> dirs_seen H h = 0"
proof (induction h rule: rev_induct)
  case (snoc c h)
  then show ?case by (cases c) (auto simp: inert_def)
qed simp

definition accounts :: "WtHost \<Rightarrow> PruneReport \<Rightarrow> calls \<Rightarrow> bool" where
  "accounts H rep h \<longleftrightarrow>
    pr_pruned rep = removed_of h \<and> pr_pruned_count rep = word_of_nat (length (pr_pruned rep)) \<and>
    pr_pruned_count rep + pr_preserved_count rep = word_of_nat (dirs_seen H h)"

lemma prune_well:
  "wp (prune M H) (\<lambda>r h. prudent M H h \<and> (\<forall>rep. r = Inr rep \<longrightarrow> accounts H rep h)) []"
proof -
  define rep :: PruneReport where "rep = \<lparr>pr_pruned_count = 0, pr_preserved_count = 0, pr_pruned = []\<rparr>"
  define h1 where "h1 = [CallGit (repo_root M) [''worktree'', ''prune'']]"
  define h2 where "h2 = h1 @ [CallGit (repo_root M) [''worktree'', ''list'', ''--porcelain'']]"
  let ?Q = "\<lambda>r h. prudent M H h \<and> (\<forall>rep. r = Inr rep \<longrightarrow> accounts H rep h)"
  have listing: "wp (canonical_all H (worktree_lines (git_stdout out)))
      (\<lambda>r h. case r of Inl e \<Rightarrow> ?Q (Inl e) h | Inr cs \<Rightarrow>
        wp (wbind (wcall (CallReadDir (workspaces_dir M)) (\<lambda>h. wh_read_dir H h (workspaces_dir M))) (\<lambda>d.
          case d of DirMissing \<Rightarrow> wret rep | DirError m \<Rightarrow> wfail (WorkspaceIo m)
          | DirEntries es \<Rightarrow> prune_entries M H (path_components ` set cs) es rep)) ?Q h) h2"
    if out: "wh_git H h1 (repo_root M) [''worktree'', ''list'', ''--porcelain''] = GitRan out" "git_ok out" for out
  proof (rule wp_mono [OF canonical_all_asked])
    fix r h
    assume "\<exists>cs. r = Inr cs \<and> prefix h2 h \<and> set (drop (length h2) h) \<subseteq> range CallCanonicalize \<and>
      (\<forall>l \<in> set (worktree_lines (git_stdout out)).
        \<exists>c. asked (\<lambda>k. wh_canon H k l) (CallCanonicalize l) h c \<and> comparable l c \<in> path_components ` set cs)"
    then obtain cs t where r: "r = Inr cs" and t: "h = h2 @ t" "set t \<subseteq> range CallCanonicalize"
      and cs: "\<forall>l \<in> set (worktree_lines (git_stdout out)).
        \<exists>c. asked (\<lambda>k. wh_canon H k l) (CallCanonicalize l) h c \<and> comparable l c \<in> path_components ` set cs"
      by (auto simp: prefix_def)
    define h' where "h' = h @ [CallReadDir (workspaces_dir M)]"
    have "\<forall>c \<in> set h'. inert c" using t by (auto simp: h'_def h1_def h2_def)
    note inert = inert_history [OF this, of M H]
    have "asked (\<lambda>k. wh_git H k (repo_root M) [''worktree'', ''list'', ''--porcelain''])
        (CallGit (repo_root M) [''worktree'', ''list'', ''--porcelain'']) h (GitRan out)"
      by (rule asked_mono [of _ _ h2]) (simp_all add: h2_def t out(1))
    then have "lists_worktrees M H h (path_components ` set cs)" using out(2) cs unfolding lists_worktrees_def by blast
    then have start: "pruning M H (path_components ` set cs) rep (dirs_seen H h') h'"
      using inert by (simp add: pruning_def rep_def h'_def)
    have entries: "wp (prune_entries M H (path_components ` set cs) es rep) ?Q h'" for es
      by (rule wp_mono [OF prune_entries_well [OF start]]) (auto simp: pruned_well_def pruning_def accounts_def)
    have "?Q (Inr rep) h'" "?Q (Inl e) h'" for e
      using inert by (simp_all add: rep_def accounts_def)
    with entries show "case r of Inl e \<Rightarrow> ?Q (Inl e) h | Inr cs \<Rightarrow>
        wp (wbind (wcall (CallReadDir (workspaces_dir M)) (\<lambda>h. wh_read_dir H h (workspaces_dir M))) (\<lambda>d.
          case d of DirMissing \<Rightarrow> wret rep | DirError m \<Rightarrow> wfail (WorkspaceIo m)
          | DirEntries es \<Rightarrow> prune_entries M H (path_components ` set cs) es rep)) ?Q h"
      by (simp add: r h'_def [symmetric] split: ReadDir.split)
  qed
  have "\<forall>c \<in> set h2. inert c" by (auto simp: h1_def h2_def)
  then have "prudent M H h1" "prudent M H h2" using inert_history [of _ M H] by (auto simp: h1_def h2_def)
  moreover have "wp (listed_worktree_paths M H) (\<lambda>r h. case r of Inl e \<Rightarrow> ?Q (Inl e) h | Inr listed \<Rightarrow>
      wp (wbind (wcall (CallReadDir (workspaces_dir M)) (\<lambda>h. wh_read_dir H h (workspaces_dir M))) (\<lambda>d.
          case d of DirMissing \<Rightarrow> wret rep | DirError m \<Rightarrow> wfail (WorkspaceIo m)
          | DirEntries es \<Rightarrow> prune_entries M H listed es rep)) ?Q h) h1"
    unfolding listed_worktree_paths_def git_success_def git_output_def
    using \<open>prudent M H h2\<close>
    by (simp del: append.simps add: h2_def [symmetric] split: GitAnswer.split, intro allI impI conjI)
      (rule wp_mono [OF listing], auto split: sum.splits)
  ultimately show ?thesis
    unfolding prune_def Let_def rep_def [symmetric] git_output_def
    by (simp add: h1_def [symmetric] split: GitAnswer.split)
qed

text \<open>
  C17: pruning removes a directory only when everything speaks for it, however the world changes between
  two calls. When \<open>remove_dir_all\<close> is called, the path is that of an entry of the workspaces directory
  whose name starts with the prefix of the sessions and that was found to be a directory; git had listed
  its worktrees and the canonical path was none of them; the directory was last modified before the
  retention's cutoff; and \<open>git status\<close> in it had succeeded with nothing to report. A report that is
  returned names exactly the directories removed, in their order, and its counters account for every
  session directory seen.
\<close>

theorem prune_removes_only_orphans:
  assumes "prune M H [] = (r, tr)"
  shows "(\<forall>k p. prefix (k @ [CallRemoveDir p]) tr \<longrightarrow> orphan M H k p) \<and>
    (\<forall>rep. r = Inr rep \<longrightarrow>
       pr_pruned rep = removed_of tr \<and> pr_pruned_count rep = word_of_nat (length (pr_pruned rep)) \<and>
       pr_pruned_count rep + pr_preserved_count rep = word_of_nat (dirs_seen H tr))"
  using wpD [OF assms prune_well] unfolding prudent_def accounts_def .

section \<open>Finalize\<close>

text \<open>The commands of a finalize, in the root of the repository.\<close>

definition cmd_checkout :: "GitWorktreeManager \<Rightarrow> string \<Rightarrow> WtCall" where
  "cmd_checkout M target = CallGit (repo_root M) [''checkout'', target]"

definition cmd_merge :: "GitWorktreeManager \<Rightarrow> string \<Rightarrow> WtCall" where
  "cmd_merge M source = CallGit (repo_root M) [''merge'', ''--no-ff'', source]"

definition cmd_remove :: "GitWorktreeManager \<Rightarrow> string \<Rightarrow> WtCall" where
  "cmd_remove M p = CallGit (repo_root M) [''worktree'', ''remove'', ''--force'', p]"

definition cmd_delete :: "GitWorktreeManager \<Rightarrow> string \<Rightarrow> WtCall" where
  "cmd_delete M source = CallGit (repo_root M) [''branch'', ''-d'', source]"

definition cmd_diff :: "GitWorktreeManager \<Rightarrow> WtCall" where
  "cmd_diff M = CallGit (repo_root M) [''diff'', ''--name-only'', ''--diff-filter=U'']"

definition cmd_abort :: "GitWorktreeManager \<Rightarrow> WtCall" where
  "cmd_abort M = CallGit (repo_root M) [''merge'', ''--abort'']"

lemmas cmd_defs = cmd_checkout_def cmd_merge_def cmd_remove_def cmd_delete_def cmd_diff_def cmd_abort_def

text \<open>A command of git that ran and succeeded, or that ran and failed.\<close>

fun git_ran :: "WtHost \<Rightarrow> calls \<Rightarrow> WtCall \<Rightarrow> bool \<Rightarrow> bool" where
  "git_ran H h (CallGit d args) ok = (\<exists>out. wh_git H h d args = GitRan out \<and> git_ok out = ok)"
| "git_ran H h _ ok = False"

lemma git_success_ran:
  assumes "git_ran H h (CallGit (repo_root M) args) True"
  shows "\<exists>out. git_success M H op args h = (Inr out, h @ [CallGit (repo_root M) args]) \<and>
    wh_git H h (repo_root M) args = GitRan out"
  using assms by (auto simp: git_success_def git_output_def git_output_in_def wbind_def wcall_def wret_def)

lemma git_success_not:
  assumes "\<not> git_ran H h (CallGit (repo_root M) args) True"
  shows "\<exists>e. git_success M H op args h = (Inl e, h @ [CallGit (repo_root M) args]) \<and>
    (\<forall>fs. e \<noteq> WorkspaceMergeConflict fs)"
  using assms by (cases "wh_git H h (repo_root M) args")
    (auto simp: git_success_def git_output_def git_output_in_def wbind_def wcall_def wret_def wfail_def)

lemma git_output_cases:
  obtains out where "git_output M H op args h = (Inr out, h @ [CallGit (repo_root M) args])"
      "\<And>ok. git_ran H h (CallGit (repo_root M) args) ok \<longleftrightarrow> git_ok out = ok"
  | e where "git_output M H op args h = (Inl e, h @ [CallGit (repo_root M) args])"
      "\<And>ok. \<not> git_ran H h (CallGit (repo_root M) args) ok" "\<And>fs. e \<noteq> WorkspaceMergeConflict fs"
  by (cases "wh_git H h (repo_root M) args")
    (auto simp: git_output_def git_output_in_def wbind_def wcall_def wret_def wfail_def)

lemma checkout_target_ran:
  "git_ran H h (cmd_checkout M target) True \<Longrightarrow>
    \<exists>out. checkout_target M H target h = (Inr out, h @ [cmd_checkout M target])"
  "\<not> git_ran H h (cmd_checkout M target) True \<Longrightarrow>
    \<exists>e. checkout_target M H target h = (Inl e, h @ [cmd_checkout M target]) \<and> (\<forall>fs. e \<noteq> WorkspaceMergeConflict fs)"
proof -
  let ?op = "''checkout merge target''"
  assume "git_ran H h (cmd_checkout M target) True"
  from git_success_ran [OF this [unfolded cmd_checkout_def], of ?op]
  show "\<exists>out. checkout_target M H target h = (Inr out, h @ [cmd_checkout M target])"
    by (auto simp: checkout_target_def wbind_def wattempt_def wret_def cmd_checkout_def)
next
  let ?op = "''checkout merge target''"
  assume "\<not> git_ran H h (cmd_checkout M target) True"
  from git_success_not [OF this [unfolded cmd_checkout_def], of ?op]
  show "\<exists>e. checkout_target M H target h = (Inl e, h @ [cmd_checkout M target]) \<and> (\<forall>fs. e \<noteq> WorkspaceMergeConflict fs)"
    by (auto simp: checkout_target_def wbind_def wattempt_def wfail_def cmd_checkout_def split: WorkspaceError.split)
qed

lemma cmds_distinct: "distinct [cmd_checkout M t, cmd_merge M s, cmd_remove M p, cmd_delete M s', cmd_diff M, cmd_abort M]"
  by (simp add: cmd_defs)

text \<open>No error but the last reports a conflict.\<close>

abbreviation plain_error :: "(WorkspaceError, 'a) result \<Rightarrow> bool" where
  "plain_error r \<equiv> \<exists>e. r = Inl e \<and> (\<forall>fs. e \<noteq> WorkspaceMergeConflict fs)"

lemma finalize_merged_paths:
  assumes "finalize_merged M H p source h = (r, tr)"
  obtains "\<not> git_ran H h (cmd_remove M p) True" "tr = h @ [cmd_remove M p]" "plain_error r"
  | "git_ran H h (cmd_remove M p) True" "\<not> git_ran H (h @ [cmd_remove M p]) (cmd_delete M source) True"
      "tr = h @ [cmd_remove M p, cmd_delete M source]" "plain_error r"
  | "git_ran H h (cmd_remove M p) True" "git_ran H (h @ [cmd_remove M p]) (cmd_delete M source) True"
      "tr = h @ [cmd_remove M p, cmd_delete M source]" "r = Inr \<lparr>merged = True, conflicts = []\<rparr>"
proof (cases "git_ran H h (cmd_remove M p) True")
  case False
  then show thesis
    using assms that(1) git_success_not [of H h M "[''worktree'', ''remove'', ''--force'', p]" "''worktree remove''"]
    by (fastforce simp: finalize_merged_def wbind_def cmd_remove_def)
next
  case rm: True
  then obtain o1 where o1: "git_success M H ''worktree remove'' [''worktree'', ''remove'', ''--force'', p] h =
      (Inr o1, h @ [cmd_remove M p])"
    using git_success_ran [of H h M "[''worktree'', ''remove'', ''--force'', p]" "''worktree remove''"]
    by (auto simp: cmd_remove_def)
  note second = git_success_ran [of H "h @ [cmd_remove M p]" M "[''branch'', ''-d'', source]" "''branch delete''"]
    git_success_not [of H "h @ [cmd_remove M p]" M "[''branch'', ''-d'', source]" "''branch delete''"]
  show thesis
  proof (cases "git_ran H (h @ [cmd_remove M p]) (cmd_delete M source) True")
    case False
    then show thesis using assms that(2) rm o1 second(2)
      by (fastforce simp: finalize_merged_def wbind_def cmd_delete_def [symmetric])
  next
    case True
    then show thesis using assms that(3) rm o1 second(1)
      by (fastforce simp: finalize_merged_def wbind_def wret_def cmd_delete_def [symmetric])
  qed
qed

lemma finalize_conflict_paths:
  assumes "finalize_conflict M H h = (r, tr)"
  obtains "\<not> git_ran H h (cmd_diff M) True" "tr = h @ [cmd_diff M]" "plain_error r"
  | fs where "git_ran H h (cmd_diff M) True" "tr = h @ [cmd_diff M, cmd_abort M]"
      "r = Inl (WorkspaceMergeConflict fs)"
proof (cases "git_ran H h (cmd_diff M) True")
  case False
  then show thesis
    using assms that(1) git_success_not [of H h M "[''diff'', ''--name-only'', ''--diff-filter=U'']" "''conflict files''"]
    by (fastforce simp: finalize_conflict_def wbind_def cmd_diff_def)
next
  case di: True
  then obtain o1 where o1: "git_success M H ''conflict files'' [''diff'', ''--name-only'', ''--diff-filter=U''] h =
      (Inr o1, h @ [cmd_diff M])"
    using git_success_ran [of H h M "[''diff'', ''--name-only'', ''--diff-filter=U'']" "''conflict files''"]
    by (auto simp: cmd_diff_def)
  obtain r2 where "git_output M H ''merge abort'' [''merge'', ''--abort''] (h @ [cmd_diff M]) =
      (r2, h @ [cmd_diff M, cmd_abort M])"
    by (rule git_output_cases [of M H "''merge abort''" "[''merge'', ''--abort'']" "h @ [cmd_diff M]"])
      (simp_all add: cmd_abort_def)
  then have "r = Inl (WorkspaceMergeConflict (conflict_files (git_stdout o1)))" "tr = h @ [cmd_diff M, cmd_abort M]"
    using assms o1 by (simp_all add: finalize_conflict_def wbind_def wattempt_def wfail_def)
  then show thesis using that(2) di by blast
qed

lemma finalize_paths:
  assumes "finalize M H ws Success [] = (r, tr)"
    and ws: "ws_merge_target ws = Some target" "ws_branch ws = Some source"
  defines "co \<equiv> cmd_checkout M target" and "mg \<equiv> cmd_merge M source"
  obtains "\<not> git_ran H [] co True" "tr = [co]" "plain_error r"
  | "git_ran H [] co True" "\<And>ok. \<not> git_ran H [co] mg ok" "tr = [co, mg]" "plain_error r"
  | "git_ran H [] co True" "\<And>ok. git_ran H [co] mg ok \<longleftrightarrow> ok"
      "finalize_merged M H (ws_path ws) source [co, mg] = (r, tr)"
  | "git_ran H [] co True" "\<And>ok. git_ran H [co] mg ok \<longleftrightarrow> \<not> ok" "finalize_conflict M H [co, mg] = (r, tr)"
proof (cases "git_ran H [] co True")
  case False
  then obtain e where "checkout_target M H target [] = (Inl e, [co])" "\<forall>fs. e \<noteq> WorkspaceMergeConflict fs"
    using checkout_target_ran(2) [of H "[]" M target] by (auto simp: co_def)
  then show thesis using assms(1) that(1) False by (auto simp: finalize_def ws wbind_def)
next
  case c: True
  then obtain o1 where o1: "checkout_target M H target [] = (Inr o1, [co])"
    using checkout_target_ran(1) [of H "[]" M target] by (auto simp: co_def)
  have m: "CallGit (repo_root M) [''merge'', ''--no-ff'', source] = mg" by (simp add: mg_def cmd_merge_def)
  show thesis
  proof (cases rule: git_output_cases [of M H "''merge''" "[''merge'', ''--no-ff'', source]" "[co]", unfolded m])
    case (1 o2)
    then show thesis using assms(1) o1 c that(3,4)
      by (cases "git_ok o2") (auto simp: finalize_def ws wbind_def)
  next
    case (2 e)
    then show thesis using assms(1) o1 c that(2) by (auto simp: finalize_def ws wbind_def)
  qed
qed

text \<open>
  C18: finalizing a workspace touches the repository only after a successful run of a workflow whose
  workspace has a branch and a merge target, and destroys nothing that is not merged: the worktree is
  removed only after the merge of its branch had succeeded, the branch is deleted only after the worktree
  was removed, and the report says merged exactly when all four commands succeeded. A merge that fails
  is reported as a conflict and aborted when its conflicts can be listed; when they cannot, the error
  returned is another one and the merge is not aborted.
\<close>

theorem finalize_outcomes:
  assumes f: "finalize M H ws outcome [] = (r, tr)"
    and ws: "ws_merge_target ws = Some target" "ws_branch ws = Some source"
  shows "if outcome \<noteq> Success then r = Inr \<lparr>merged = False, conflicts = []\<rparr> \<and> tr = []
    else
      (let co = cmd_checkout M target; mg = cmd_merge M source; rm = cmd_remove M (ws_path ws);
           de = cmd_delete M source; di = cmd_diff M; ab = cmd_abort M in
       take 1 tr = [co] \<and>
       (mg \<in> set tr \<longleftrightarrow> git_ran H [] co True) \<and>
       (rm \<in> set tr \<longleftrightarrow> mg \<in> set tr \<and> git_ran H [co] mg True) \<and>
       (de \<in> set tr \<longleftrightarrow> rm \<in> set tr \<and> git_ran H [co, mg] rm True) \<and>
       (r = Inr \<lparr>merged = True, conflicts = []\<rparr> \<longleftrightarrow> de \<in> set tr \<and> git_ran H [co, mg, rm] de True) \<and>
       (\<forall>rep. r = Inr rep \<longrightarrow> merged rep \<and> tr = [co, mg, rm, de]) \<and>
       ((\<exists>files. r = Inl (WorkspaceMergeConflict files)) \<longleftrightarrow>
          mg \<in> set tr \<and> git_ran H [co] mg False \<and> git_ran H [co, mg] di True) \<and>
       (ab \<in> set tr \<longleftrightarrow> (\<exists>files. r = Inl (WorkspaceMergeConflict files))) \<and>
       (mg \<in> set tr \<and> git_ran H [co] mg False \<and> \<not> git_ran H [co, mg] di True \<longrightarrow> tr = [co, mg, di]))"
proof (cases "outcome = Success")
  case True
  note dist = cmds_distinct [of M target source "ws_path ws" source]
  show ?thesis
    using f [unfolded True] ws
  proof (rule finalize_paths)
    assume "finalize_merged M H (ws_path ws) source [cmd_checkout M target, cmd_merge M source] = (r, tr)"
      "git_ran H [] (cmd_checkout M target) True" "\<And>ok. git_ran H [cmd_checkout M target] (cmd_merge M source) ok \<longleftrightarrow> ok"
    then show ?thesis using dist True by (elim finalize_merged_paths) (simp_all add: Let_def, fastforce+)
  next
    assume "finalize_conflict M H [cmd_checkout M target, cmd_merge M source] = (r, tr)"
      "git_ran H [] (cmd_checkout M target) True" "\<And>ok. git_ran H [cmd_checkout M target] (cmd_merge M source) ok \<longleftrightarrow> \<not> ok"
    then show ?thesis using dist True by (elim finalize_conflict_paths) (simp_all add: Let_def, fastforce+)
  qed (use dist True in \<open>auto simp: Let_def\<close>)
qed (use f ws in \<open>auto simp: finalize_def wret_def\<close>)

end
