(* ===== verification/WorktreeProps.thy ===== *)
theory WorktreeProps
  imports Worktree Lifecycle
begin

text \<open>
  The engine over the worktree manager: what the engine announces in the log is what the manager does.
  The last part evaluates the theorems on a host where every command succeeds.
\<close>

definition add_command :: "GitWorktreeManager \<Rightarrow> uuid \<Rightarrow> BranchStrategy \<Rightarrow> WtCall" where
  "add_command M sid st = CallGit (repo_root M)
    ([''worktree'', ''add''] @ (case fst (branch_and_base st sid) of None \<Rightarrow> [] | Some b \<Rightarrow> [''-b'', b]) @
     [workspace_path M sid, snd (branch_and_base st sid)])"

definition prepare_calls :: "GitWorktreeManager \<Rightarrow> uuid \<Rightarrow> BranchStrategy \<Rightarrow> calls" where
  "prepare_calls M sid st =
    [CallExists (workspace_path M sid), CallCreateDir (workspaces_dir M), add_command M sid st]"

definition prepared_workspace :: "GitWorktreeManager \<Rightarrow> uuid \<Rightarrow> BranchStrategy \<Rightarrow> Workspace" where
  "prepared_workspace M sid st =
    \<lparr>ws_path = workspace_path M sid, ws_branch = fst (branch_and_base st sid),
     ws_merge_target = (case st of BMergeToHead target \<Rightarrow> Some target | _ \<Rightarrow> None)\<rparr>"

lemma prepare_succeeds:
  assumes "prepare M H sid st h = (Inr ws, h')"
  shows "ws = prepared_workspace M sid st \<and> h' = h @ prepare_calls M sid st \<and>
    \<not> wh_exists H h (workspace_path M sid) \<and> git_ran H (butlast h') (last h') True"
proof -
  have "wp (prepare M H sid st) (\<lambda>r h'. \<forall>ws. r = Inr ws \<longrightarrow>
      ws = prepared_workspace M sid st \<and> h' = h @ prepare_calls M sid st \<and>
      \<not> wh_exists H h (workspace_path M sid) \<and> git_ran H (butlast h') (last h') True) h"
    unfolding prepare_def git_success_def git_output_def Let_def
    by (auto simp: prepared_workspace_def prepare_calls_def add_command_def butlast_append
        split: prod.split sum.split GitAnswer.split)
  from wpD [OF assms this] show ?thesis by blast
qed

text \<open>What the log says of a workspace before the manager is called.\<close>

definition announcement :: "uuid \<Rightarrow> string \<Rightarrow> BranchStrategy \<Rightarrow> Event list" where
  "announcement sid path st = WorkspacePrepared path (strategy_str st) #
    (case branch_and_base st sid of (None, base) \<Rightarrow> [] | (Some b, base) \<Rightarrow> [BranchCreated b base])"

lemma emit_Ok: "emit E ev w = (Inr x, w') \<Longrightarrow> wlog w' = wlog w @ [event_json ev] \<and> wprepared w' = wprepared w"
  by (auto simp: emit_def append_event_def split: db_reply.splits)

lemma ebind_Ok: "ebind m k w = (Inr b, w') \<longleftrightarrow> (\<exists>a w1. m w = (Inr a, w1) \<and> k a w1 = (Inr b, w'))"
  by (auto simp: ebind_def split: prod.splits sum.splits)

lemma throw_Ok:
  "(case r of Inl e \<Rightarrow> throw (f e) | Inr x \<Rightarrow> k x) w = (Inr b, w') \<longleftrightarrow> (\<exists>x. r = Inr x \<and> k x w = (Inr b, w'))"
  by (cases r) (simp_all add: throw_def)

text \<open>
  C19: a workspace is prepared as it was announced. With the git worktree manager behind the engine, when
  the preparation of the workspace returns without an error, the log has grown by exactly the path, the
  strategy and, for a strategy with a branch, the branch and its base; the workspace kept for the end of
  the run has that path and that branch, and a merge target only under the merge strategy; the path did
  not exist before; and git was asked to add exactly this worktree with this branch at this base, and
  succeeded.
\<close>

theorem prepared_as_announced:
  assumes conf: "e_manager E" "\<not> wprepared w" "e_workspace_path E = Some (workspace_path M (e_session E))"
    and manager: "\<And>t st. h_prepare (e_host E) t st = fst (prepare M H (e_session E) st (hist t))"
    and finished: "prepare_workspace_if_configured E w = (Inr (), w')"
  shows "\<exists>t. let ws = prepared_workspace M (e_session E) (e_strategy E);
      calls = hist t @ prepare_calls M (e_session E) (e_strategy E) in
    wspace w' = Some ws \<and> wprepared w' \<and>
    wlog w' = wlog w @ map event_json (announcement (e_session E) (ws_path ws) (e_strategy E)) \<and>
    merge_pair ws = (case e_strategy E of BMergeToHead target \<Rightarrow> Some (''stepyard/session-'' @ e_session E, target)
      | _ \<Rightarrow> None) \<and>
    snd (prepare M H (e_session E) (e_strategy E) (hist t)) = calls \<and>
    \<not> wh_exists H (hist t) (ws_path ws) \<and> git_ran H (butlast calls) (last calls) True"
proof -
  let ?sid = "e_session E" and ?st = "e_strategy E"
  define path where "path = workspace_path M ?sid"
  obtain w1 w2 ws where
    w1: "emit E (WorkspacePrepared path (strategy_str ?st)) w = (Inr (), w1)"
    and w2: "(case ?st of BHead \<Rightarrow> ret () | BMergeToHead target \<Rightarrow> emit E (BranchCreated (''stepyard/session-'' @ ?sid) target)
      | BNamedBranch n \<Rightarrow> emit E (BranchCreated n ''HEAD'')) w1 = (Inr (), w2)"
    and t: "h_prepare (e_host E) (wtick w2) ?st = Inr ws"
      "w' = w2\<lparr>wtick := Suc (wtick w2), wtrace := wtrace w2 @ [(FxPrepare ?st, wlog w2)], wspace := Some ws, wprepared := True\<rparr>"
    using finished conf unfolding prepare_workspace_if_configured_def path_def
    by (auto simp: ebind_Ok throw_Ok eseq_def Let_def get_def call_def modify_def)
  obtain h' where p: "prepare M H ?sid ?st (hist (wtick w2)) = (Inr ws, h')"
    using t(1) manager by (metis prod.collapse)
  note spec = prepare_succeeds [OF p]
  have "wlog w2 = wlog w1 @ (case branch_and_base ?st ?sid of (None, base) \<Rightarrow> [] | (Some b, base) \<Rightarrow> [event_json (BranchCreated b base)])"
    using w2 by (cases ?st) (auto simp: branch_and_base_def ret_def dest: emit_Ok)
  then have "wlog w' = wlog w @ map event_json (announcement ?sid path ?st)"
    using emit_Ok [OF w1] t(2) by (auto simp: announcement_def split: prod.splits option.splits)
  moreover have "merge_pair (prepared_workspace M ?sid ?st) = (case ?st of BMergeToHead target \<Rightarrow>
      Some (''stepyard/session-'' @ ?sid, target) | _ \<Rightarrow> None)"
    by (cases ?st) (simp_all add: merge_pair_def prepared_workspace_def branch_and_base_def)
  ultimately show ?thesis
    using spec t(2) p by (intro exI [of _ "wtick w2"]) (auto simp: Let_def path_def prepared_workspace_def)
qed

section \<open>A host where every command succeeds\<close>

definition demo_manager :: GitWorktreeManager where
  "demo_manager = \<lparr>repo_root = ''/r'', workspaces_dir = ''/w'', retention_hours = 24\<rparr>"

definition calm_git :: WtHost where
  "calm_git = \<lparr>wh_exists = (\<lambda>h p. False), wh_create = (\<lambda>h p. Inr ()),
    wh_git = (\<lambda>h d args. GitRan \<lparr>git_ok = True, git_stdout = [], git_stderr = []\<rparr>), wh_canon = (\<lambda>h p. None),
    wh_read_dir = (\<lambda>h p. DirEntries [Inr (Some ''stepyard-session-s1'')]), wh_is_dir = (\<lambda>h p. Inr True),
    wh_modified = (\<lambda>h p. Inr 0), wh_clock = (\<lambda>h. 1000000000000000000), wh_remove = (\<lambda>h p. Inr ())\<rparr>"

definition pruning_calls :: calls where
  "pruning_calls = [CallGit ''/r'' [''worktree'', ''prune''], CallGit ''/r'' [''worktree'', ''list'', ''--porcelain''],
    CallReadDir ''/w'', CallFileType ''/w/stepyard-session-s1'', CallCanonicalize ''/w/stepyard-session-s1'',
    CallModified ''/w/stepyard-session-s1'', CallClock,
    CallGit ''/w/stepyard-session-s1'' [''status'', ''--porcelain'']]"

lemma calm_simps [simp]:
  "wh_git calm_git h d args = GitRan \<lparr>git_ok = True, git_stdout = [], git_stderr = []\<rparr>"
  "wh_canon calm_git h p = None" "wh_is_dir calm_git h p = Inr True" "wh_modified calm_git h p = Inr 0"
  "wh_clock calm_git h = 1000000000000000000" "wh_remove calm_git h p = Inr ()" "wh_exists calm_git h p = False"
  "wh_create calm_git h p = Inr ()" "wh_read_dir calm_git h p = DirEntries [Inr (Some ''stepyard-session-s1'')]"
  by (simp_all add: calm_git_def)

lemma calm_prune:
  "prune demo_manager calm_git [] =
    (Inr \<lparr>pr_pruned_count = 1, pr_preserved_count = 0, pr_pruned = [''/w/stepyard-session-s1'']\<rparr>,
     pruning_calls @ [CallRemoveDir ''/w/stepyard-session-s1''])"
proof -
  have past: "is_past_retention demo_manager 1000000000000000000 0"
    by (simp add: is_past_retention_def retention_cutoff_def demo_manager_def)
  have p: "join_path (workspaces_dir demo_manager) ''stepyard-session-s1'' = ''/w/stepyard-session-s1''"
    by (simp add: join_path_def path_join_def is_absolute_def demo_manager_def starts_with_def)
  have t: "trim [] = []" by (simp add: trim_def)
  have e: "worktree_lines [] = []" by (simp add: worktree_lines_def str_lines_def)
  note mono = wbind_def wcall_def wret_def wio_def wattempt_def
  have dir: "prune_entry demo_manager calm_git {} ''stepyard-session-s1''
      \<lparr>pr_pruned_count = 0, pr_preserved_count = 0, pr_pruned = []\<rparr> h =
    (Inr \<lparr>pr_pruned_count = 1, pr_preserved_count = 0, pr_pruned = [''/w/stepyard-session-s1'']\<rparr>,
     h @ drop 3 pruning_calls @ [CallRemoveDir ''/w/stepyard-session-s1''])" for h
    by (simp add: prune_entry_def prune_dir_def canonical_path_def git_output_in_def mono p past t Let_def
        starts_with_def pruning_calls_def)
  show ?thesis
    by (simp add: prune_def git_output_def git_output_in_def git_success_def listed_worktree_paths_def mono e dir Let_def)
      (simp add: demo_manager_def pruning_calls_def)
qed

theorem prune_removes_only_orphans_witness:
  "orphan demo_manager calm_git pruning_calls ''/w/stepyard-session-s1''"
  using prune_removes_only_orphans [OF calm_prune] by blast

theorem finalize_outcomes_witness:
  "\<exists>tr. finalize demo_manager calm_git \<lparr>ws_path = ''/w/x'', ws_branch = Some ''b'', ws_merge_target = Some ''main''\<rparr> Success [] =
      (Inr \<lparr>merged = True, conflicts = []\<rparr>, tr) \<and>
    tr = [cmd_checkout demo_manager ''main'', cmd_merge demo_manager ''b'', cmd_remove demo_manager ''/w/x'',
      cmd_delete demo_manager ''b'']"
proof -
  let ?ws = "\<lparr>ws_path = ''/w/x'', ws_branch = Some ''b'', ws_merge_target = Some ''main''\<rparr>"
  obtain r tr where f: "finalize demo_manager calm_git ?ws Success [] = (r, tr)" by fastforce
  have g: "git_ran calm_git h (CallGit d args) ok = ok" for h d args ok by (simp add: calm_git_def)
  from finalize_outcomes [OF f, of "''main''" "''b''"]
  have "r = Inr \<lparr>merged = True, conflicts = []\<rparr>"
    by (simp add: Let_def cmd_defs g del: git_ran.simps)
  with finalize_outcomes [OF f, of "''main''" "''b''"] f show ?thesis by (simp add: Let_def)
qed

theorem prepared_as_announced_witness:
  "\<exists>w' :: World. wspace w' = Some (prepared_workspace demo_manager ''s1'' (BNamedBranch ''b'')) \<and>
    wlog w' = map event_json [WorkspacePrepared ''/w/stepyard-session-s1'' ''named_branch'', BranchCreated ''b'' ''HEAD'']"
proof -
  define E where "E = demo_engine\<lparr>e_host := demo_host\<lparr>h_prepare := \<lambda>t st. fst (prepare demo_manager calm_git ''s1'' st [])\<rparr>,
    e_manager := True, e_strategy := BNamedBranch ''b'', e_workspace_path := Some (workspace_path demo_manager ''s1'')\<rparr>"
  have E: "e_manager E" "e_session E = ''s1''" "e_strategy E = BNamedBranch ''b''" "\<not> wprepared new_session"
      "e_workspace_path E = Some (workspace_path demo_manager (e_session E))"
    by (simp_all add: E_def demo_engine_def new_session_def)
  have host: "h_prepare (e_host E) t st = fst (prepare demo_manager calm_git (e_session E) st ((\<lambda>_. []) t))" for t st
    by (simp add: E_def demo_engine_def)
  have emits: "\<exists>w'. emit E ev w = (Inr (), w') \<and> wprepared w' = wprepared w" for ev w
    by (simp add: emit_def append_event_def E_def demo_host_def)
  have prep: "\<exists>ws. h_prepare (e_host E) t (BNamedBranch ''b'') = Inr ws" for t
    unfolding host by (simp add: prepare_def git_success_def git_output_def git_output_in_def wbind_def wcall_def
        wret_def wio_def branch_and_base_def Let_def)
  obtain w' where "prepare_workspace_if_configured E new_session = (Inr (), w')"
  proof -
    obtain w1 where w1: "emit E (WorkspacePrepared (workspace_path demo_manager ''s1'') ''named_branch'') new_session = (Inr (), w1)"
      using emits by blast
    obtain w2 where w2: "emit E (BranchCreated ''b'' ''HEAD'') w1 = (Inr (), w2)" using emits by blast
    obtain ws where "h_prepare (e_host E) (wtick w2) (BNamedBranch ''b'') = Inr ws" using prep by blast
    then have "prepare_workspace_if_configured E new_session = (Inr (), w2\<lparr>wtick := Suc (wtick w2),
        wtrace := wtrace w2 @ [(FxPrepare (BNamedBranch ''b''), wlog w2)], wspace := Some ws, wprepared := True\<rparr>)"
      using E w1 w2 by (simp add: prepare_workspace_if_configured_def ebind_def eseq_def get_def call_def modify_def Let_def)
    then show thesis by (rule that)
  qed
  from prepared_as_announced [OF E(1,4,5) host this]
  have p: "wspace w' = Some (prepared_workspace demo_manager ''s1'' (BNamedBranch ''b''))"
    "wlog w' = wlog new_session @ map event_json (announcement ''s1'' (workspace_path demo_manager ''s1'') (BNamedBranch ''b''))"
    by (auto simp: Let_def E prepared_workspace_def)
  have "workspace_path demo_manager ''s1'' = ''/w/stepyard-session-s1''"
    by (simp add: workspace_path_def join_path_def path_join_def is_absolute_def demo_manager_def starts_with_def)
  with p have "wlog w' = map event_json [WorkspacePrepared ''/w/stepyard-session-s1'' ''named_branch'', BranchCreated ''b'' ''HEAD'']"
    by (simp add: announcement_def branch_and_base_def new_session_def)
  with p(1) show ?thesis by blast
qed

end
