(* ===== verification/ChatClient.thy ===== *)
theory ChatClient
  imports ChatExec Numbers
begin

text \<open>
  \<open>src/chat_client.rs\<close>: the client the command line gives to the engine. The truncation of the
  history, the HTTP client that retries on 429, and the dispatch on the provider. The crate \<open>rig\<close> (its
  clients and their completions), the server, the clock and the parser of an RFC 2822 date are
  parameters. From \<open>src/steps/chat.rs\<close>: the truncation of the version 1 step.
\<close>

section \<open>Estimating tokens\<close>

text \<open>\<open>split_whitespace().count()\<close>: the words of the text; the flag says whether one is being read.\<close>

fun count_words :: "bool \<Rightarrow> string \<Rightarrow> nat" where
  "count_words w (a # b # c # s) =
    (if ws1 a then count_words False (b # c # s)
     else if ws2 a b then count_words False (c # s)
     else if ws3 a b c then count_words False s
     else (if w then 0 else 1) + count_words True (b # c # s))"
| "count_words w [a, b] =
    (if ws1 a then count_words False [b]
     else if ws2 a b then 0
     else (if w then 0 else 1) + count_words True [b])"
| "count_words w [a] = (if ws1 a \<or> w then 0 else 1)"
| "count_words w [] = 0"

text \<open>A quotient rounded to a double, again as a quotient.\<close>

definition f64_nearest :: "nat \<times> nat \<Rightarrow> nat \<times> nat" where
  "f64_nearest q = (case q of (n, d) \<Rightarrow>
    (let e = ulp_exponent n d in (round_even (scaled n d e) * 2 ^ nat e, 2 ^ nat (- e))))"

text \<open>\<open>((words as f64) * 1.3).ceil() as usize\<close>; 1.3 is the double 5854679515581645 / 2^52.\<close>

definition estimate_words :: "nat \<Rightarrow> nat" where
  "estimate_words k =
    (let (a, b) = f64_nearest (k, 1);
         (n, d) = f64_nearest (a * 5854679515581645, b * 2 ^ 52) in
     min ((n + d - 1) div d) (2 ^ 64 - 1))"

definition estimate_tokens :: "string \<Rightarrow> nat" where
  "estimate_tokens text = estimate_words (count_words False text)"

section \<open>Truncation\<close>

text \<open>The loop of the sliding window: how many messages to drop.\<close>

fun window_drops :: "nat \<Rightarrow> nat \<Rightarrow> nat list \<Rightarrow> nat" where
  "window_drops m used [] = 0"
| "window_drops m used (t # ts) = (if used \<le> m then 0 else Suc (window_drops m (used - t) ts))"

definition apply_truncation :: "ChatMessage list \<Rightarrow> ChatTruncation option \<Rightarrow> ChatMessage list" where
  "apply_truncation h st =
    (case st of
       None \<Rightarrow> h
     | Some (TLast n) \<Rightarrow> drop (length h - n) h
     | Some (TFirst n) \<Rightarrow> take (min n (length h)) h
     | Some (TFirstLast f l) \<Rightarrow>
       (let first_n = min f (length h); last_start = length h - l in
        if first_n \<ge> last_start then h else take first_n h @ drop last_start h)
     | Some (TSlidingWindow m) \<Rightarrow>
       (let tokens = map (\<lambda>x. estimate_tokens (content x)) h; total = sum_list tokens in
        if total \<le> m then h else drop (window_drops m total tokens) h))"

section \<open>The truncation of version 1\<close>

record ChatMessage1 =
  role1 :: string
  content1 :: string

datatype TruncationStrategy =
    KeepAll | KeepLast nat | KeepFirst nat | KeepFirstLast nat nat | KeepWindow nat

text \<open>The subtraction here is the checked one: an underflow is \<open>None\<close>.\<close>

fun window_drops1 :: "nat \<Rightarrow> nat \<Rightarrow> nat list \<Rightarrow> nat option" where
  "window_drops1 m used [] = Some 0"
| "window_drops1 m used (t # ts) =
    (if used \<le> m then Some 0
     else if used < t then None
     else map_option Suc (window_drops1 m (used - t) ts))"

text \<open>A slice out of range panics as well.\<close>

definition slice_from :: "nat \<Rightarrow> 'a list \<Rightarrow> 'a list option" where
  "slice_from n xs = (if n \<le> length xs then Some (drop n xs) else None)"

definition truncate_messages :: "ChatMessage1 list \<Rightarrow> TruncationStrategy \<Rightarrow> ChatMessage1 list option" where
  "truncate_messages h st =
    (case st of
       KeepAll \<Rightarrow> Some h
     | KeepLast n \<Rightarrow> slice_from (length h - n) h
     | KeepFirst n \<Rightarrow> Some (take (min (length h) n) h)
     | KeepFirstLast f l \<Rightarrow>
       (let first_end = min f (length h); last_start = length h - l in
        if first_end \<ge> last_start then Some h
        else map_option (\<lambda>r. take first_end h @ r) (slice_from last_start h))
     | KeepWindow m \<Rightarrow>
       (let tokens = map (\<lambda>x. estimate_tokens (content1 x)) h; total = sum_list tokens in
        if total \<le> m then Some h
        else (case window_drops1 m total tokens of None \<Rightarrow> None | Some k \<Rightarrow> slice_from k h)))"

section \<open>The HTTP client\<close>

text \<open>One answer of the server: a transport error, or the status, the \<open>Retry-After\<close> header when it is text, and the body.\<close>

record HttpResponse =
  hr_status :: nat
  hr_retry_after :: "string option"
  hr_body :: "(string, string) result"

datatype HttpError = HttpInstance string | InvalidStatus nat string | HttpUnreachable

record Server =
  sv_answer :: "nat \<Rightarrow> (string, HttpResponse) result"
  sv_now :: "nat \<Rightarrow> int"
  sv_rfc2822 :: "string \<Rightarrow> int option"

definition MAX_RATE_LIMIT_RETRIES :: nat where
  "MAX_RATE_LIMIT_RETRIES = 3"

text \<open>Durations are in nanoseconds.\<close>

definition RATE_LIMIT_BACKOFFS :: "int list" where
  "RATE_LIMIT_BACKOFFS = [1000000000, 2000000000, 4000000000]"

definition parse_retry_after :: "(string \<Rightarrow> int option) \<Rightarrow> string \<Rightarrow> int \<Rightarrow> int option" where
  "parse_retry_after rfc2822 raw t =
    (case parse_u64 (trim raw) of
       Some s \<Rightarrow> Some (int s * 1000000000)
     | None \<Rightarrow> map_option (\<lambda>target. max 0 (target - t)) (rfc2822 (trim raw)))"

definition retry_after_delay :: "Server \<Rightarrow> nat \<Rightarrow> HttpResponse \<Rightarrow> int option" where
  "retry_after_delay S i r =
    (case hr_retry_after r of None \<Rightarrow> None | Some raw \<Rightarrow> parse_retry_after (sv_rfc2822 S) raw (sv_now S i))"

definition is_success_status :: "nat \<Rightarrow> bool" where
  "is_success_status s \<longleftrightarrow> 200 \<le> s \<and> s < 300"

text \<open>
  The loop over the retry indices: the response, or the error, and the delays slept. The last equation
  is the \<open>unreachable!\<close> behind the loop.
\<close>

fun send_loop :: "Server \<Rightarrow> nat list \<Rightarrow> (HttpError, HttpResponse) result \<times> int list" where
  "send_loop S [] = (Inl HttpUnreachable, [])"
| "send_loop S (i # is) =
    (let fallback = (if i < length RATE_LIMIT_BACKOFFS then Some (RATE_LIMIT_BACKOFFS ! i) else None) in
     case sv_answer S i of
       Inl e \<Rightarrow> (Inl (HttpInstance e), [])
     | Inr r \<Rightarrow>
       if hr_status r = 429 \<and> fallback \<noteq> None then
         (let delay = (case retry_after_delay S i r of Some x \<Rightarrow> x | None \<Rightarrow> the fallback);
              (res, ds) = send_loop S is in (res, delay # ds))
       else if \<not> is_success_status (hr_status r)
       then (Inl (InvalidStatus (hr_status r) (case hr_body r of Inl _ \<Rightarrow> [] | Inr b \<Rightarrow> b)), [])
       else (Inr r, []))"

definition send :: "Server \<Rightarrow> (HttpError, HttpResponse) result \<times> int list" where
  "send S = send_loop S [0..<MAX_RATE_LIMIT_RETRIES + 1]"

section \<open>Messages and responses of \<open>rig\<close>\<close>

datatype RigMessage = RigUser string | RigAssistant string

datatype AssistantContent = AssistantText string | AssistantOther

record CompletionResponse =
  rp_choice :: "AssistantContent list"
  rp_input_tokens :: nat
  rp_output_tokens :: nat

definition to_rig_messages :: "ChatMessage list \<Rightarrow> RigMessage list" where
  "to_rig_messages h =
    map (\<lambda>m. case role m of Assistant \<Rightarrow> RigAssistant (content m) | User \<Rightarrow> RigUser (content m)) h"

definition extract_response :: "CompletionResponse \<Rightarrow> ChatCompletionResponse" where
  "extract_response r =
    \<lparr>cp_content = join [CHR 0x0A] (List.map_filter (\<lambda>c. case c of AssistantText t \<Rightarrow> Some t | _ \<Rightarrow> None) (rp_choice r)),
     cp_input_tokens = Some (rp_input_tokens r), cp_output_tokens = Some (rp_output_tokens r), cp_cost_usd = None\<rparr>"

definition provider_failure :: "string \<Rightarrow> string \<Rightarrow> ChatClientError" where
  "provider_failure provider msg = ProviderFailure (provider @ '': '' @ msg)"

section \<open>Providers\<close>

text \<open>What a client of \<open>rig\<close> is built from: its module, the key, the endpoint, and whether it retries.\<close>

record RigClient =
  rc_module :: string
  rc_key :: "string option"
  rc_base_url :: "string option"
  rc_retrying :: bool

record Rig =
  rig_build :: "RigClient \<Rightarrow> (string, unit) result"
  rig_send :: "RigClient \<Rightarrow> string \<Rightarrow> string \<Rightarrow> RigMessage list \<Rightarrow> 64 word \<Rightarrow> nat \<Rightarrow> (string, CompletionResponse) result"

fun provider_label :: "ChatProvider \<Rightarrow> string" where
  "provider_label Anthropic = ''anthropic''"
| "provider_label OpenAi = ''openai''"
| "provider_label Ollama = ''ollama''"
| "provider_label Groq = ''groq''"
| "provider_label DeepSeek = ''deepseek''"
| "provider_label Gemini = ''gemini''"
| "provider_label Cohere = ''cohere''"
| "provider_label Perplexity = ''perplexity''"
| "provider_label Xai = ''xai''"
| "provider_label Mistral = ''mistral''"
| "provider_label OpenAiCompatible = ''openai_compatible''"

definition rig_client :: "ChatProvider \<Rightarrow> string \<Rightarrow> string option \<Rightarrow> (ChatClientError, RigClient) result" where
  "rig_client p api_key base_url =
    (case p of
       Ollama \<Rightarrow> Inr \<lparr>rc_module = ''ollama'', rc_key = None,
         rc_base_url = Some (case base_url of None \<Rightarrow> ''http://localhost:11434'' | Some u \<Rightarrow> u), rc_retrying = True\<rparr>
     | Gemini \<Rightarrow> Inr \<lparr>rc_module = ''gemini'', rc_key = Some api_key, rc_base_url = base_url, rc_retrying = False\<rparr>
     | OpenAiCompatible \<Rightarrow>
         (case base_url of
            None \<Rightarrow> Inl (ProviderFailure ''openai_compatible provider requires base_url'')
          | Some u \<Rightarrow> Inr \<lparr>rc_module = ''openai'', rc_key = Some api_key, rc_base_url = Some u, rc_retrying = True\<rparr>)
     | _ \<Rightarrow> Inr \<lparr>rc_module = provider_label p, rc_key = Some api_key, rc_base_url = base_url, rc_retrying = True\<rparr>)"

definition send_completion ::
  "Rig \<Rightarrow> RigClient \<Rightarrow> string \<Rightarrow> string \<Rightarrow> RigMessage list \<Rightarrow> 64 word \<Rightarrow> nat \<Rightarrow> string \<Rightarrow>
    (ChatClientError, ChatCompletionResponse) result" where
  "send_completion R c model prompt msgs temp mx provider =
    res_bind (map_err (provider_failure provider) (rig_send R c model prompt msgs temp mx))
      (\<lambda>resp. Inr (extract_response resp))"

definition call_provider ::
  "Rig \<Rightarrow> ChatProvider \<Rightarrow> string \<Rightarrow> string \<Rightarrow> string option \<Rightarrow> RigMessage list \<Rightarrow> string \<Rightarrow> 64 word \<Rightarrow> nat \<Rightarrow>
    (ChatClientError, ChatCompletionResponse) result" where
  "call_provider R p model api_key base_url msgs prompt temp mx =
    res_bind (rig_client p api_key base_url) (\<lambda>c.
    res_bind (map_err (provider_failure (provider_label p)) (rig_build R c)) (\<lambda>_.
    send_completion R c model prompt msgs temp mx (provider_label p)))"

text \<open>\<open>RigChatClient::complete\<close>; the bits 0 are the temperature 0.0.\<close>

definition complete :: "Rig \<Rightarrow> chat_client" where
  "complete R req =
    (let p = (case cq_provider req of None \<Rightarrow> Anthropic | Some p \<Rightarrow> p);
         model = (case cq_model req of None \<Rightarrow> default_model p | Some m \<Rightarrow> m);
         mx = (case cq_max_tokens req of None \<Rightarrow> 1024 | Some n \<Rightarrow> n);
         temp = (case cq_temperature req of None \<Rightarrow> 0 | Some t \<Rightarrow> t);
         msgs = to_rig_messages (apply_truncation (cq_history req) (cq_truncation req));
         api_key = (case cq_api_key req of None \<Rightarrow> [] | Some k \<Rightarrow> k) in
     call_provider R p model api_key (cq_base_url req) msgs (cq_user_message req) temp mx)"

section \<open>Lemmas\<close>

lemma window_drops_spec:
  "sum_list (drop (window_drops m (sum_list ts) ts) ts) \<le> m \<and> window_drops m (sum_list ts) ts \<le> length ts \<and>
    (\<forall>j < window_drops m (sum_list ts) ts. m < sum_list (drop j ts))"
proof (induction ts)
  case (Cons t ts)
  then show ?case by (auto simp: less_Suc_eq_0_disj)
qed simp

lemma window_drops1_total: "window_drops1 m (sum_list ts) ts = Some (window_drops m (sum_list ts) ts)"
  by (induction ts) auto

lemma suffix_drop_iff: "suffix r h \<longleftrightarrow> (\<exists>j \<le> length h. r = drop j h)"
proof
  assume "suffix r h"
  then obtain p where "h = p @ r" by (auto simp: suffix_def)
  then show "\<exists>j \<le> length h. r = drop j h" by (intro exI [of _ "length p"]) simp
qed (auto intro: suffix_drop)

definition tokens_of :: "ChatMessage list \<Rightarrow> nat" where
  "tokens_of h = sum_list (map (\<lambda>x. estimate_tokens (content x)) h)"

lemma window_longest:
  assumes "r = apply_truncation h (Some (TSlidingWindow m))"
  shows "suffix r h \<and> tokens_of r \<le> m \<and> (\<forall>r'. suffix r' h \<and> tokens_of r' \<le> m \<longrightarrow> length r' \<le> length r)"
proof -
  define ts where "ts = map (\<lambda>x. estimate_tokens (content x)) h"
  define k where "k = window_drops m (sum_list ts) ts"
  have d: "sum_list (drop j ts) = tokens_of (drop j h)" for j by (simp add: tokens_of_def ts_def drop_map)
  have k: "tokens_of (drop k h) \<le> m" "k \<le> length h" "\<forall>j < k. m < tokens_of (drop j h)"
    using window_drops_spec [of m ts] d by (simp_all add: k_def ts_def)
  have "k = 0" if "sum_list ts \<le> m" unfolding k_def using that by (cases ts) simp_all
  then have "r = drop k h"
    using assms by (simp add: apply_truncation_def Let_def ts_def [symmetric] k_def [symmetric])
  moreover have "length r' \<le> length (drop k h)" if r': "suffix r' h" "tokens_of r' \<le> m" for r'
  proof -
    obtain j where j: "j \<le> length h" "r' = drop j h" using r'(1) by (auto simp: suffix_drop_iff)
    then have "\<not> j < k" using k(3) r'(2) by auto
    then show ?thesis using j by simp
  qed
  ultimately show ?thesis using k(1) by (auto simp: suffix_drop)
qed

text \<open>The same conversation and strategy in version 1.\<close>

definition as_v1 :: "ChatMessage \<Rightarrow> ChatMessage1" where
  "as_v1 m = \<lparr>role1 = role_str (role m), content1 = content m\<rparr>"

fun strategy_v1 :: "ChatTruncation option \<Rightarrow> TruncationStrategy" where
  "strategy_v1 None = KeepAll"
| "strategy_v1 (Some (TLast n)) = KeepLast n"
| "strategy_v1 (Some (TFirst n)) = KeepFirst n"
| "strategy_v1 (Some (TFirstLast f l)) = KeepFirstLast f l"
| "strategy_v1 (Some (TSlidingWindow m)) = KeepWindow m"

lemma truncate_messages_v1: "truncate_messages (map as_v1 h) (strategy_v1 st) = Some (map as_v1 (apply_truncation h st))"
proof (cases st)
  case (Some s)
  have t: "map (\<lambda>x. estimate_tokens (content1 x)) (map as_v1 h) = map (\<lambda>x. estimate_tokens (content x)) h"
    by (simp add: as_v1_def)
  have w: "window_drops m (sum_list (map (\<lambda>x. estimate_tokens (content x)) h)) (map (\<lambda>x. estimate_tokens (content x)) h)
      \<le> length h" for m
    using window_drops_spec [of m "map (\<lambda>x. estimate_tokens (content x)) h"] by simp
  show ?thesis
    using w unfolding Some
    by (cases s; simp only: strategy_v1.simps truncate_messages_def apply_truncation_def t Let_def window_drops1_total
        TruncationStrategy.case ChatTruncation.case option.case)
      (simp_all add: slice_from_def drop_map take_map min.commute)
qed (simp add: truncate_messages_def apply_truncation_def)

text \<open>
  C25: what a chat provider is sent of the history. Whatever the request, every completion asked of the
  provider carries the truncated history, each turn in its role and in its order. Of a history the
  truncation keeps everything when no strategy is given, the last or the first messages as many as
  asked, both ends without counting a message twice, or the longest run of latest messages whose
  estimated tokens fit the budget. The version 1 step truncates the same conversation to the same
  messages, and neither its subtraction nor its slices can panic.
\<close>

theorem provider_sees_truncated_history:
  "(let h = apply_truncation (cq_history req) (cq_truncation req) in
      complete R req = complete (R\<lparr>rig_send := \<lambda>c mo p ms t n.
        if ms = to_rig_messages h then rig_send R c mo p ms t n else Inl []\<rparr>) req) \<and>
    (case st of
        None \<Rightarrow> apply_truncation h st = h
      | Some (TLast n) \<Rightarrow> suffix (apply_truncation h st) h \<and> length (apply_truncation h st) = min n (length h)
      | Some (TFirst n) \<Rightarrow> prefix (apply_truncation h st) h \<and> length (apply_truncation h st) = min n (length h)
      | Some (TFirstLast f l) \<Rightarrow> (\<exists>a b. prefix a h \<and> suffix b h \<and> apply_truncation h st = a @ b \<and>
            length a + length b = min (f + l) (length h) \<and> min f (length h) \<le> length a)
      | Some (TSlidingWindow m) \<Rightarrow> suffix (apply_truncation h st) h \<and> tokens_of (apply_truncation h st) \<le> m \<and>
          (\<nexists>r'. suffix r' h \<and> tokens_of r' \<le> m \<and> length (apply_truncation h st) < length r')) \<and>
    truncate_messages (map as_v1 h) (strategy_v1 st) = Some (map as_v1 (apply_truncation h st))"
proof (intro conjI)
  show "let h = apply_truncation (cq_history req) (cq_truncation req) in
      complete R req = complete (R\<lparr>rig_send := \<lambda>c mo p ms t n.
        if ms = to_rig_messages h then rig_send R c mo p ms t n else Inl []\<rparr>) req"
    by (simp add: complete_def call_provider_def send_completion_def Let_def)
  show "truncate_messages (map as_v1 h) (strategy_v1 st) = Some (map as_v1 (apply_truncation h st))"
    by (rule truncate_messages_v1)
  have ends: "\<exists>a b. prefix a h \<and> suffix b h \<and> apply_truncation h (Some (TFirstLast f l)) = a @ b \<and>
      length a + length b = min (f + l) (length h) \<and> min f (length h) \<le> length a" for f l
  proof (cases "length h - l \<le> min f (length h)")
    case True
    then show ?thesis by (intro exI [of _ h] exI [of _ "[]"]) (auto simp: apply_truncation_def Let_def)
  next
    case False
    then show ?thesis
      by (intro exI [of _ "take (min f (length h)) h"] exI [of _ "drop (length h - l) h"])
        (auto simp: apply_truncation_def Let_def take_is_prefix suffix_drop)
  qed
  show "case st of
        None \<Rightarrow> apply_truncation h st = h
      | Some (TLast n) \<Rightarrow> suffix (apply_truncation h st) h \<and> length (apply_truncation h st) = min n (length h)
      | Some (TFirst n) \<Rightarrow> prefix (apply_truncation h st) h \<and> length (apply_truncation h st) = min n (length h)
      | Some (TFirstLast f l) \<Rightarrow> (\<exists>a b. prefix a h \<and> suffix b h \<and> apply_truncation h st = a @ b \<and>
            length a + length b = min (f + l) (length h) \<and> min f (length h) \<le> length a)
      | Some (TSlidingWindow m) \<Rightarrow> suffix (apply_truncation h st) h \<and> tokens_of (apply_truncation h st) \<le> m \<and>
          (\<nexists>r'. suffix r' h \<and> tokens_of r' \<le> m \<and> length (apply_truncation h st) < length r')"
    using ends window_longest [OF refl]
    by (auto simp: not_less apply_truncation_def suffix_drop take_is_prefix split: option.split ChatTruncation.split)
qed

text \<open>The server answered attempt \<open>i\<close> with 429, and the delay after it.\<close>

definition rate_limited :: "Server \<Rightarrow> nat \<Rightarrow> bool" where
  "rate_limited S i \<longleftrightarrow> (case sv_answer S i of Inl _ \<Rightarrow> False | Inr r \<Rightarrow> hr_status r = 429)"

definition asked_delay :: "Server \<Rightarrow> nat \<Rightarrow> int option" where
  "asked_delay S i = (case sv_answer S i of Inl _ \<Rightarrow> None | Inr r \<Rightarrow> retry_after_delay S i r)"

definition delay_after :: "Server \<Rightarrow> nat \<Rightarrow> int" where
  "delay_after S i = (case asked_delay S i of Some x \<Rightarrow> x | None \<Rightarrow> 2 ^ i * 1000000000)"

definition final_answer :: "Server \<Rightarrow> nat \<Rightarrow> (HttpError, HttpResponse) result" where
  "final_answer S i =
    (case sv_answer S i of
       Inl e \<Rightarrow> Inl (HttpInstance e)
     | Inr r \<Rightarrow> if is_success_status (hr_status r) then Inr r
         else Inl (InvalidStatus (hr_status r) (case hr_body r of Inl _ \<Rightarrow> [] | Inr b \<Rightarrow> b)))"

lemma backoffs: "i < 3 \<Longrightarrow> RATE_LIMIT_BACKOFFS ! i = 2 ^ i * 1000000000"
  by (auto simp: RATE_LIMIT_BACKOFFS_def less_Suc_eq numeral_3_eq_3)

lemma send_loop_step:
  "send_loop S (i # is) =
    (if rate_limited S i \<and> i < 3 then (let (res, ds) = send_loop S is in (res, delay_after S i # ds))
     else (final_answer S i, []))"
  by (auto simp: rate_limited_def delay_after_def asked_delay_def final_answer_def backoffs Let_def
      RATE_LIMIT_BACKOFFS_def [THEN arg_cong, of length, simplified] split: sum.split prod.split option.split)

text \<open>
  Retrying on a rate limit ends and is honest. For every server: at most four requests are made, each
  but the last was answered with 429, and the last is the first that was not, or the fourth; between them
  the client waits as long as the server asked, and otherwise one, two and four seconds; the answer to
  the last request is what the caller gets, a status that is no success being an error that carries the
  body. A server that asks for nothing is waited for at most seven seconds in all, and the end of the
  loop is never reached.
\<close>

theorem send_retries:
  "\<exists>k \<le> 3. list_all (rate_limited S) [0..<k] \<and> (if k = 3 then True else \<not> rate_limited S k) \<and>
     send S = (final_answer S k, map (delay_after S) [0..<k]) \<and>
     list_all (\<lambda>d. 0 \<le> d) (snd (send S)) \<and>
     (if list_all (\<lambda>i. asked_delay S i = None) [0..<k] then sum_list (snd (send S)) \<le> 7000000000 else True) \<and>
     fst (send S) \<noteq> Inl HttpUnreachable"
proof -
  define k :: nat where "k = (if \<not> rate_limited S 0 then 0 else if \<not> rate_limited S 1 then 1
    else if \<not> rate_limited S 2 then 2 else 3)"
  have k: "k \<le> 3" "list_all (rate_limited S) [0..<k]" "if k = 3 then True else \<not> rate_limited S k"
    by (auto simp: k_def numeral_2_eq_2 numeral_3_eq_3)
  have "[0..<MAX_RATE_LIMIT_RETRIES + 1] = [0, 1, 2, 3]" by (simp add: MAX_RATE_LIMIT_RETRIES_def upt_rec)
  then have s: "send S = (final_answer S k, map (delay_after S) [0..<k])"
    unfolding send_def by (simp only: send_loop_step) (simp add: k_def upt_rec numeral_2_eq_2)
  have "0 \<le> delay_after S i" for i
    by (auto simp: delay_after_def asked_delay_def retry_after_delay_def parse_retry_after_def
        split: option.splits sum.splits)
  then have pos: "list_all (\<lambda>d. 0 \<le> d) (map (delay_after S) [0..<k])" by (simp add: list_all_iff)
  have "sum_list (map (delay_after S) [0..<k]) \<le> 7000000000" if "list_all (\<lambda>i. asked_delay S i = None) [0..<k]"
    using that by (auto simp: k_def delay_after_def upt_rec split: if_splits)
  moreover have "final_answer S k \<noteq> Inl HttpUnreachable"
    by (simp add: final_answer_def split: sum.split)
  ultimately show ?thesis using k pos unfolding s by (intro exI [of _ k]) simp
qed

end
