(* ===== verification/Config.thy ===== *)
theory Config
  imports Adapter "HOL-Library.Multiset"
begin

text \<open>
  \<open>src/config\<close>: the chain of defaults (\<open>defaults.rs\<close>), the four layers of a step (\<open>manager.rs\<close>,
  \<open>merge.rs\<close>, \<open>mod.rs\<close>) and the environment of the project file (\<open>env_defaults.rs\<close>). A hash map is an
  association list with distinct keys. The file system, the YAML parser, the regular expressions and the
  conversion to JSON are parameters.
\<close>

section \<open>Merging\<close>

definition merge_map :: "(string \<times> 'a) list \<Rightarrow> (string \<times> 'a) list \<Rightarrow> (string \<times> 'a) list" where
  "merge_map base over = foldl (\<lambda>m (k, v). AList.update k v m) base over"

definition merge_patterns :: "(string \<times> bag) list \<Rightarrow> (string \<times> bag) list \<Rightarrow> (string \<times> bag) list" where
  "merge_patterns base over =
    foldl (\<lambda>m (p, vs). AList.update p (merge_map (case map_of m p of None \<Rightarrow> [] | Some b \<Rightarrow> b) vs) m) base over"

definition merge_workflow_config :: "WorkflowConfig \<Rightarrow> WorkflowConfig \<Rightarrow> WorkflowConfig" where
  "merge_workflow_config base over =
    \<lparr>c_global = merge_map (c_global base) (c_global over),
     c_agent = merge_map (c_agent base) (c_agent over),
     c_cmd = merge_map (c_cmd base) (c_cmd over),
     c_chat = merge_map (c_chat base) (c_chat over),
     c_gate = merge_map (c_gate base) (c_gate over),
     c_patterns = merge_patterns (c_patterns base) (c_patterns over),
     c_plugins = (if c_plugins over = [] then c_plugins base else c_plugins over),
     c_events = (case c_events over of None \<Rightarrow> c_events base | Some e \<Rightarrow> Some e)\<rparr>"

section \<open>The chain of defaults\<close>

text \<open>The YAML compiled into the binary, as it parses; the bits are those of 0.2.\<close>

definition embedded_defaults :: WorkflowConfig where
  "embedded_defaults =
    \<lparr>c_global = [(''timeout'', YStr ''300s''), (''working_directory'', YStr ''.'')],
     c_agent = [(''command'', YStr ''claude''), (''model'', YStr ''sonnet''),
       (''flags'', YSeq [YStr ''-p'', YStr ''--output-format'', YStr ''stream-json'']),
       (''permissions'', YStr ''skip'')],
     c_cmd = [(''fail_on_error'', YBool True), (''timeout'', YStr ''60s'')],
     c_chat = [(''provider'', YStr ''anthropic''), (''model'', YStr ''claude-sonnet-4-20250514''),
       (''api_key_env'', YStr ''ANTHROPIC_API_KEY''), (''temperature'', YFloat 0x3FC999999999999A),
       (''max_tokens'', YInt 4096)],
     c_gate = [], c_patterns = [], c_plugins = [], c_events = None\<rparr>"

datatype FileState = FileMissing | FileUnreadable string | FileText string

record ConfigHost =
  ch_home :: "string option"
  ch_cwd :: "string option"
  ch_file :: "string \<Rightarrow> FileState"
  ch_yaml :: "string \<Rightarrow> WorkflowConfig option"

definition override_config_paths :: "ConfigHost \<Rightarrow> string list" where
  "override_config_paths H =
    (case ch_home H of None \<Rightarrow> [] | Some h \<Rightarrow> [h @ ''/.stepyard/defaults.yaml'']) @
    (case ch_cwd H of None \<Rightarrow> [] | Some d \<Rightarrow> [d @ ''/.stepyard/config.yaml''])"

definition load_config_file :: "ConfigHost \<Rightarrow> string \<Rightarrow> WorkflowConfig option" where
  "load_config_file H p =
    (case ch_file H p of FileMissing \<Rightarrow> None | FileUnreadable e \<Rightarrow> None | FileText t \<Rightarrow> ch_yaml H t)"

definition load_defaults :: "ConfigHost \<Rightarrow> WorkflowConfig" where
  "load_defaults H =
    foldl (\<lambda>c p. case load_config_file H p of None \<Rightarrow> c | Some o' \<Rightarrow> merge_workflow_config c o')
      embedded_defaults (override_config_paths H)"

definition apply_defaults :: "ConfigHost \<Rightarrow> WorkflowConfig \<Rightarrow> WorkflowConfig" where
  "apply_defaults H c = merge_workflow_config (load_defaults H) c"

section \<open>The layers of a step\<close>

definition yaml_json :: "YamlLib \<Rightarrow> yaml \<Rightarrow> json" where
  "yaml_json Y v = (case yaml_to_value Y v of Inl e \<Rightarrow> JNull | Inr j \<Rightarrow> j)"

type_synonym resolved = "(string \<times> json) list"

definition insert_all :: "YamlLib \<Rightarrow> resolved \<Rightarrow> bag \<Rightarrow> resolved" where
  "insert_all Y m b = foldl (\<lambda>m (k, v). AList.update k (yaml_json Y v) m) m b"

definition type_section :: "WorkflowConfig \<Rightarrow> StepType \<Rightarrow> bag" where
  "type_section c t =
    (case t of StAgent \<Rightarrow> c_agent c | StCmd \<Rightarrow> c_cmd c | StChat \<Rightarrow> c_chat c | StGate \<Rightarrow> c_gate c | _ \<Rightarrow> [])"

text \<open>\<open>re\<close> compiles a pattern, or fails; the maps of patterns are walked in the order of the list.\<close>

definition matching :: "(string \<Rightarrow> (string \<Rightarrow> bool) option) \<Rightarrow> (string \<times> bag) list \<Rightarrow> string \<Rightarrow> bag list" where
  "matching re ps n = map snd (filter (\<lambda>(p, vs). case re p of None \<Rightarrow> False | Some m \<Rightarrow> m n) ps)"

definition resolve ::
  "YamlLib \<Rightarrow> (string \<Rightarrow> (string \<Rightarrow> bool) option) \<Rightarrow> WorkflowConfig \<Rightarrow> string \<Rightarrow> StepType \<Rightarrow> bag \<Rightarrow> resolved" where
  "resolve Y re c step_name t inline =
    (let m1 = insert_all Y [] (c_global c);
         m2 = insert_all Y m1 (type_section c t);
         m3 = foldl (insert_all Y) m2 (matching re (c_patterns c) step_name) in
     insert_all Y m3 inline)"

section \<open>Reading a resolved configuration\<close>

definition get_str :: "resolved \<Rightarrow> string \<Rightarrow> string option" where
  "get_str vs k = Option.bind (map_of vs k) as_str"

definition get_bool :: "resolved \<Rightarrow> string \<Rightarrow> bool" where
  "get_bool vs k = (case map_of vs k of Some (JBool b) \<Rightarrow> b | _ \<Rightarrow> False)"

definition get_u64 :: "resolved \<Rightarrow> string \<Rightarrow> nat option" where
  "get_u64 vs k = Option.bind (map_of vs k) as_u64"

text \<open>In milliseconds. The minutes are multiplied in 64 bits: an overflow panics in a checked build and wraps in a release build, as here.\<close>

definition parse_config_duration :: "string \<Rightarrow> nat option" where
  "parse_config_duration s0 =
    (let s = trim s0 in
     if ends_with s ''ms'' then parse_u64 (trim (take (length s - 2) s))
     else if ends_with s ''s'' then map_option (\<lambda>n. n * 1000) (parse_u64 (trim (butlast s)))
     else if ends_with s ''m'' then map_option (\<lambda>n. n * 60 mod 2 ^ 64 * 1000) (parse_u64 (trim (butlast s)))
     else map_option (\<lambda>n. n * 1000) (parse_u64 s))"

definition get_duration :: "resolved \<Rightarrow> string \<Rightarrow> nat option" where
  "get_duration vs k = Option.bind (get_str vs k) parse_config_duration"

section \<open>The environment of the project file\<close>

record Defaults =
  def_env :: env
  def_vars :: env

datatype DefaultsError = DefaultsIo string | DefaultsParse string

definition load_env_defaults ::
  "(string \<Rightarrow> FileState) \<Rightarrow> (string \<Rightarrow> Defaults option) \<Rightarrow> string \<Rightarrow> (DefaultsError, Defaults) result" where
  "load_env_defaults file yaml p =
    (case file p of
       FileMissing \<Rightarrow> Inr \<lparr>def_env = [], def_vars = []\<rparr>
     | FileUnreadable e \<Rightarrow> Inl (DefaultsIo p)
     | FileText t \<Rightarrow> (case yaml t of None \<Rightarrow> Inl (DefaultsParse p) | Some d \<Rightarrow> Inr d))"

section \<open>Lemmas\<close>

lemma foldl_update: "distinct (map fst b) \<Longrightarrow>
    map_of (foldl (\<lambda>m (k, v). AList.update k (g v) m) m0 b) = map_of m0 ++ (\<lambda>k. map_option g (map_of b k))"
proof (induction b arbitrary: m0)
  case (Cons kv b)
  then have "map_of b (fst kv) = None" by (simp add: map_of_eq_None_iff)
  then show ?case using Cons
    by (auto simp: update_conv' map_add_def fun_eq_iff split: prod.splits option.split)
qed (simp add: map_add_def fun_eq_iff)

lemma map_of_merge: "distinct (map fst over) \<Longrightarrow> map_of (merge_map base over) = map_of base ++ map_of over"
  using foldl_update [of over "\<lambda>v. v" base] by (simp add: merge_map_def option.map_ident)

lemma merge_distinct: "distinct (map fst base) \<Longrightarrow> distinct (map fst (merge_map base over))"
  unfolding merge_map_def by (induction over arbitrary: base) (auto simp: distinct_update)

lemma map_of_insert_all: "distinct (map fst b) \<Longrightarrow>
    map_of (insert_all Y m b) = map_of m ++ (\<lambda>k. map_option (yaml_json Y) (map_of b k))"
  unfolding insert_all_def by (rule foldl_update)

text \<open>The first value there is.\<close>

fun first_of :: "'a option list \<Rightarrow> 'a option" where
  "first_of [] = None"
| "first_of (None # xs) = first_of xs"
| "first_of (Some x # xs) = Some x"

lemma first_of_simp: "first_of (x # xs) = (case x of None \<Rightarrow> first_of xs | Some y \<Rightarrow> Some y)"
  by (cases x) simp_all

lemma first_of_append: "first_of (xs @ ys) = (case first_of xs of None \<Rightarrow> first_of ys | Some y \<Rightarrow> Some y)"
  by (induction xs rule: first_of.induct) simp_all

lemma first_of_map: "first_of (map (map_option g) xs) = map_option g (first_of xs)"
  by (induction xs rule: first_of.induct) simp_all

text \<open>A configuration whose maps have distinct keys.\<close>

definition wf_config :: "WorkflowConfig \<Rightarrow> bool" where
  "wf_config c \<longleftrightarrow> distinct (map fst (c_global c)) \<and> distinct (map fst (c_agent c)) \<and> distinct (map fst (c_cmd c)) \<and>
    distinct (map fst (c_chat c)) \<and> distinct (map fst (c_gate c)) \<and> distinct (map fst (c_patterns c)) \<and>
    list_all (\<lambda>(p, vs). distinct (map fst vs)) (c_patterns c)"

lemma distinct_update_map: "list_all (\<lambda>(p, vs). P vs) m \<Longrightarrow> P w \<Longrightarrow> list_all (\<lambda>(p, vs). P vs) (AList.update p w m)"
  by (induction m) auto

lemma merge_patterns_wf:
  "distinct (map fst base) \<Longrightarrow> list_all (\<lambda>(p, vs). distinct (map fst vs)) base \<Longrightarrow>
    distinct (map fst (merge_patterns base over)) \<and>
    list_all (\<lambda>(p, vs). distinct (map fst vs)) (merge_patterns base over)"
  unfolding merge_patterns_def
proof (induction over arbitrary: base)
  case (Cons pv over)
  obtain p vs where pv: "pv = (p, vs)" by fastforce
  have "distinct (map fst (case map_of base p of None \<Rightarrow> [] | Some b \<Rightarrow> b))"
    using Cons.prems(2) by (auto simp: list_all_iff split: option.split dest: map_of_SomeD)
  then have "distinct (map fst (merge_map (case map_of base p of None \<Rightarrow> [] | Some b \<Rightarrow> b) vs))"
    by (rule merge_distinct)
  then show ?case
    using Cons.IH [OF distinct_update [OF Cons.prems(1)] distinct_update_map [OF Cons.prems(2)]] by (simp add: pv)
qed simp

lemma merge_wf: "wf_config base \<Longrightarrow> wf_config (merge_workflow_config base over)"
  using merge_patterns_wf [of "c_patterns base" "c_patterns over"]
  by (simp add: wf_config_def merge_workflow_config_def merge_distinct)

lemma embedded_wf: "wf_config embedded_defaults"
  by (simp add: wf_config_def embedded_defaults_def)

text \<open>The layers of the chain that are there, the strongest first.\<close>

definition layers :: "ConfigHost \<Rightarrow> WorkflowConfig \<Rightarrow> WorkflowConfig list" where
  "layers H c = c # rev (List.map_filter (load_config_file H) (override_config_paths H)) @ [embedded_defaults]"

lemma load_defaults_eq:
  "load_defaults H = foldl merge_workflow_config embedded_defaults (List.map_filter (load_config_file H) (override_config_paths H))"
proof -
  have "foldl (\<lambda>c p. case load_config_file H p of None \<Rightarrow> c | Some o' \<Rightarrow> merge_workflow_config c o') b ps =
      foldl merge_workflow_config b (List.map_filter (load_config_file H) ps)" for b ps
    by (induction ps arbitrary: b) (simp_all add: List.map_filter_simps split: option.split)
  then show ?thesis by (simp add: load_defaults_def)
qed

text \<open>A section of the merged configuration, read through its layers.\<close>

lemma section_first:
  assumes sec: "\<And>a b. sec (merge_workflow_config a b) = merge_map (sec a) (sec b)"
    and d: "\<And>c. wf_config c \<Longrightarrow> distinct (map fst (sec c))" and wf: "\<forall>c \<in> set (layers H c0). wf_config c"
  shows "map_of (sec (apply_defaults H c0)) k = first_of (map (\<lambda>c. map_of (sec c) k) (layers H c0))"
proof -
  have chain: "map_of (sec (foldl merge_workflow_config b cs)) k = first_of (map (\<lambda>c. map_of (sec c) k) (rev cs @ [b]))"
    if "\<forall>c \<in> set cs. wf_config c" for b cs
    using that
  proof (induction cs rule: rev_induct)
    case (snoc c cs)
    then show ?case
      by (simp add: sec map_of_merge d map_add_def first_of_append first_of_simp split: option.split)
  qed (simp add: first_of_simp split: option.split)
  have "apply_defaults H c0 = foldl merge_workflow_config embedded_defaults
      (List.map_filter (load_config_file H) (override_config_paths H) @ [c0])"
    by (simp add: apply_defaults_def load_defaults_eq)
  then show ?thesis
    using chain [of "List.map_filter (load_config_file H) (override_config_paths H) @ [c0]" embedded_defaults] wf
    by (simp add: layers_def)
qed

text \<open>What the matching patterns say of a key: the last one walked that binds it.\<close>

definition pattern_value ::
  "(string \<Rightarrow> (string \<Rightarrow> bool) option) \<Rightarrow> (string \<times> bag) list \<Rightarrow> string \<Rightarrow> string \<Rightarrow> yaml option" where
  "pattern_value re ps n k = first_of (map (\<lambda>vs. map_of vs k) (rev (matching re ps n)))"

lemma foldl_insert_all:
  "\<forall>b \<in> set bs. distinct (map fst b) \<Longrightarrow>
    map_of (foldl (insert_all Y) m bs) k =
      (case first_of (map (\<lambda>vs. map_of vs k) (rev bs)) of None \<Rightarrow> map_of m k | Some v \<Rightarrow> Some (yaml_json Y v))"
proof (induction bs rule: rev_induct)
  case (snoc b bs)
  then show ?case
    by (simp add: map_of_insert_all map_add_def first_of_simp split: option.split)
qed simp

lemma matching_distinct:
  "list_all (\<lambda>(p, vs). distinct (map fst vs)) ps \<Longrightarrow> \<forall>b \<in> set (matching re ps n). distinct (map fst b)"
  by (auto simp: matching_def list_all_iff)

lemma type_section_distinct: "wf_config c \<Longrightarrow> distinct (map fst (type_section c t))"
  by (simp add: wf_config_def type_section_def split: StepType.split)

lemma resolve_first:
  assumes "wf_config c" and "distinct (map fst inline)" and ps: "list_all (\<lambda>(p, vs). distinct (map fst vs)) ps"
  shows "map_of (resolve Y re (c\<lparr>c_patterns := ps\<rparr>) n t inline) k =
    map_option (yaml_json Y) (first_of [map_of inline k, pattern_value re ps n k, map_of (type_section c t) k, map_of (c_global c) k])"
proof -
  have "type_section (c\<lparr>c_patterns := ps\<rparr>) t = type_section c t"
    by (simp add: type_section_def split: StepType.split)
  moreover have "distinct (map fst (c_global c))" using assms(1) by (simp add: wf_config_def)
  ultimately show ?thesis
    using assms(1,2) foldl_insert_all [OF matching_distinct [OF ps]]
    by (simp add: resolve_def Let_def map_of_insert_all type_section_distinct map_add_def first_of_simp
        pattern_value_def [symmetric] split: option.split)
qed

text \<open>The values the matching patterns bind the key to.\<close>

definition pattern_bindings ::
  "YamlLib \<Rightarrow> (string \<Rightarrow> (string \<Rightarrow> bool) option) \<Rightarrow> (string \<times> bag) list \<Rightarrow> string \<Rightarrow> string \<Rightarrow> json set" where
  "pattern_bindings Y re ps n k = {yaml_json Y v | v vs. vs \<in> set (matching re ps n) \<and> map_of vs k = Some v}"

lemma first_of_None: "first_of xs = None \<longleftrightarrow> (\<forall>x \<in> set xs. x = None)"
  by (induction xs rule: first_of.induct) auto

lemma first_of_Some: "first_of xs = Some v \<Longrightarrow> Some v \<in> set xs"
  by (induction xs rule: first_of.induct) auto

lemma pattern_value_in:
  "case pattern_value re ps n k of None \<Rightarrow> pattern_bindings Y re ps n k = {}
    | Some v \<Rightarrow> yaml_json Y v \<in> pattern_bindings Y re ps n k"
proof (cases "pattern_value re ps n k")
  case None
  then have "\<forall>vs \<in> set (matching re ps n). map_of vs k = None"
    by (simp add: pattern_value_def first_of_None)
  then show ?thesis using None by (auto simp: pattern_bindings_def)
next
  case (Some v)
  from first_of_Some [OF this [unfolded pattern_value_def]] show ?thesis
    unfolding Some by (force simp: pattern_bindings_def)
qed

lemma bindings_perm: "mset ps = mset qs \<Longrightarrow> pattern_bindings Y re ps n k = pattern_bindings Y re qs n k"
  by (drule mset_eq_setD) (simp add: pattern_bindings_def matching_def)

lemma binding_last:
  assumes "a \<in> pattern_bindings Y re ps n k"
  shows "\<exists>qs v. mset qs = mset ps \<and> pattern_value re qs n k = Some v \<and> yaml_json Y v = a"
proof -
  from assms obtain p vs v where x: "(p, vs) \<in> set ps" "case re p of None \<Rightarrow> False | Some m \<Rightarrow> m n"
      "map_of vs k = Some v" "a = yaml_json Y v"
    by (auto simp: pattern_bindings_def matching_def)
  have "mset (remove1 (p, vs) ps @ [(p, vs)]) = mset ps" using x(1) by simp
  moreover have "pattern_value re (remove1 (p, vs) ps @ [(p, vs)]) n k = Some v"
    using x(2,3) by (simp add: pattern_value_def matching_def)
  ultimately show ?thesis using x(4) by blast
qed

lemma list_all_perm: "mset ps = mset qs \<Longrightarrow> list_all P ps = list_all P qs"
  by (drule mset_eq_setD) (simp add: list_all_iff)

lemma order_matters:
  assumes wf: "wf_config c" and i: "distinct (map fst inline)"
  shows "(\<forall>ps. mset ps = mset (c_patterns c) \<longrightarrow>
      map_of (resolve Y re (c\<lparr>c_patterns := ps\<rparr>) n t inline) k = map_of (resolve Y re c n t inline) k) \<longleftrightarrow>
    map_of inline k \<noteq> None \<or> (\<forall>a \<in> pattern_bindings Y re (c_patterns c) n k.
      \<forall>b \<in> pattern_bindings Y re (c_patterns c) n k. a = b)"
    (is "(\<forall>ps. ?perm ps \<longrightarrow> ?val ps = ?own) \<longleftrightarrow> ?bound \<or> ?agree")
proof -
  have val: "?val ps = map_option (yaml_json Y) (first_of [map_of inline k, pattern_value re ps n k,
      map_of (type_section c t) k, map_of (c_global c) k])" if "?perm ps" for ps
    using resolve_first [OF wf i] list_all_perm [OF that] wf by (simp add: wf_config_def)
  have own: "?own = ?val (c_patterns c)" by simp
  show ?thesis
  proof (intro iffI disjCI)
    assume all: "\<forall>ps. ?perm ps \<longrightarrow> ?val ps = ?own" and "\<not> ?agree"
    then obtain a b where ab: "a \<in> pattern_bindings Y re (c_patterns c) n k" "b \<in> pattern_bindings Y re (c_patterns c) n k"
      "a \<noteq> b" by blast
    show ?bound
    proof
      assume none: "map_of inline k = None"
      have "?own = Some d" if d: "d \<in> pattern_bindings Y re (c_patterns c) n k" for d
      proof -
        obtain qs v where "mset qs = mset (c_patterns c)" "pattern_value re qs n k = Some v" "yaml_json Y v = d"
          using binding_last [OF d] by blast
        then show ?thesis using all val [of qs] none by simp
      qed
      then show False using ab by (metis option.inject)
    qed
  next
    assume "?bound \<or> ?agree"
    then show "\<forall>ps. ?perm ps \<longrightarrow> ?val ps = ?own"
    proof (elim disjE; intro allI impI)
      fix ps assume p: "?perm ps" and "?bound"
      then show "?val ps = ?own" unfolding own using val [OF p] val [OF refl] by auto
    next
      fix ps assume p: "?perm ps" and agree: "?agree"
      have "map_option (yaml_json Y) (pattern_value re ps n k) = map_option (yaml_json Y) (pattern_value re (c_patterns c) n k)"
        using pattern_value_in [of Y re ps n k] pattern_value_in [of Y re "c_patterns c" n k] agree bindings_perm [OF p, where Y = Y and re = re and n = n and k = k]
        by (auto split: option.splits)
      then show "?val ps = ?own" unfolding own val [OF p] val [OF refl]
        by (auto simp: first_of_simp split: option.splits)
    qed
  qed
qed

text \<open>
  C26: the precedence of a step's configuration. In the configuration that the defaults were applied to, a
  key has the value of the step itself, else of a pattern that matches the step's name, else of the
  section of its type in the workflow, the project file, the user file and the embedded defaults, in this
  order, and only then of the global section of these four: an embedded default of a type hides what the
  workflow says globally. The maps being unordered, the value is determined exactly when the step binds
  the key or all the matching patterns that bind it agree.
\<close>

theorem configuration_precedence:
  assumes "\<forall>c \<in> set (layers H c0). wf_config c" and "distinct (map fst inline)"
  shows "map_of (resolve Y re (apply_defaults H c0) n t inline) k =
      map_option (yaml_json Y) (first_of
        ([map_of inline k, pattern_value re (c_patterns (apply_defaults H c0)) n k] @
         map (\<lambda>c. map_of (type_section c t) k) (layers H c0) @ map (\<lambda>c. map_of (c_global c) k) (layers H c0))) \<and>
    ((\<forall>ps. mset ps = mset (c_patterns (apply_defaults H c0)) \<longrightarrow>
        map_of (resolve Y re ((apply_defaults H c0)\<lparr>c_patterns := ps\<rparr>) n t inline) k =
        map_of (resolve Y re (apply_defaults H c0) n t inline) k) \<longleftrightarrow>
      map_of inline k \<noteq> None \<or>
      (\<forall>a \<in> pattern_bindings Y re (c_patterns (apply_defaults H c0)) n k.
       \<forall>b \<in> pattern_bindings Y re (c_patterns (apply_defaults H c0)) n k. a = b))"
proof
  let ?c = "apply_defaults H c0"
  have chain: "wf_config (foldl merge_workflow_config b cs)" if "wf_config b" for b cs
    using that by (induction cs arbitrary: b) (simp_all add: merge_wf)
  have wf: "wf_config ?c"
    unfolding apply_defaults_def load_defaults_eq by (intro merge_wf chain embedded_wf)
  have ty: "map_of (type_section ?c t) k = first_of (map (\<lambda>c. map_of (type_section c t) k) (layers H c0))"
  proof (cases "t \<in> {StAgent, StCmd, StChat, StGate}")
    case True
    have "type_section (merge_workflow_config a b) t = merge_map (type_section a t) (type_section b t)" for a b
      using True by (auto simp: type_section_def merge_workflow_config_def)
    then show ?thesis by (rule section_first [OF _ type_section_distinct assms(1)])
  next
    case False
    then have "type_section c t = []" for c by (cases t) (simp_all add: type_section_def)
    moreover have "first_of (map (\<lambda>c. None :: yaml option) cs) = None" for cs :: "WorkflowConfig list"
      by (simp add: first_of_None)
    ultimately show ?thesis by simp
  qed
  have gl: "map_of (c_global ?c) k = first_of (map (\<lambda>c. map_of (c_global c) k) (layers H c0))"
    by (rule section_first [OF _ _ assms(1)]) (simp_all add: merge_workflow_config_def wf_config_def)
  show "map_of (resolve Y re ?c n t inline) k = map_option (yaml_json Y) (first_of
        ([map_of inline k, pattern_value re (c_patterns ?c) n k] @
         map (\<lambda>c. map_of (type_section c t) k) (layers H c0) @ map (\<lambda>c. map_of (c_global c) k) (layers H c0)))"
    using resolve_first [OF wf assms(2), of "c_patterns ?c" Y re n t k] wf
    by (simp add: wf_config_def first_of_simp first_of_append ty gl split: option.split)
  show "(\<forall>ps. mset ps = mset (c_patterns ?c) \<longrightarrow>
        map_of (resolve Y re (?c\<lparr>c_patterns := ps\<rparr>) n t inline) k = map_of (resolve Y re ?c n t inline) k) \<longleftrightarrow>
      map_of inline k \<noteq> None \<or> (\<forall>a \<in> pattern_bindings Y re (c_patterns ?c) n k.
       \<forall>b \<in> pattern_bindings Y re (c_patterns ?c) n k. a = b)"
    by (rule order_matters [OF wf assms(2)])
qed

text \<open>A workflow that sets the timeout of every step to ten minutes: a command step still gets the embedded minute.\<close>

definition bare_host :: ConfigHost where
  "bare_host = \<lparr>ch_home = None, ch_cwd = None, ch_file = (\<lambda>_. FileMissing), ch_yaml = (\<lambda>_. None)\<rparr>"

definition slow_workflow :: WorkflowConfig where
  "slow_workflow = empty_config\<lparr>c_global := [(''timeout'', YStr ''600s'')]\<rparr>"

definition str_lib :: YamlLib where
  "str_lib = \<lparr>yaml_eq = (=), yaml_to_value = (\<lambda>v. case v of YStr s \<Rightarrow> Inr (JStr s) | _ \<Rightarrow> Inl [])\<rparr>"

theorem configuration_precedence_witness:
  "map_of (resolve str_lib (\<lambda>_. None) (apply_defaults bare_host slow_workflow) ''build'' StCmd []) ''timeout''
    = Some (JStr ''60s'')"
proof -
  have l: "layers bare_host slow_workflow = [slow_workflow, embedded_defaults]"
    by (simp add: layers_def bare_host_def override_config_paths_def List.map_filter_simps)
  have wf: "\<forall>c \<in> set (layers bare_host slow_workflow). wf_config c"
    by (simp add: l embedded_wf) (simp add: wf_config_def slow_workflow_def empty_config_def)
  have m: "matching (\<lambda>_. None) ps n = []" for ps n by (simp add: matching_def)
  have c: "c_cmd slow_workflow = []" "map_of (c_cmd embedded_defaults) ''timeout'' = Some (YStr ''60s'')"
      "yaml_json str_lib (YStr ''60s'') = JStr ''60s''"
    by (simp_all add: slow_workflow_def empty_config_def embedded_defaults_def yaml_json_def str_lib_def)
  show ?thesis
    using configuration_precedence [OF wf, of "[]" str_lib "\<lambda>_. None" "''build''" StCmd "''timeout''", THEN conjunct1]
    by (simp add: l pattern_value_def m type_section_def c)
qed

end
