(* ===== verification/Outputs.thy ===== *)
theory Outputs
  imports Numbers "HOL-Library.AList"
begin

text \<open>
  What a step of the version 1 engine returns: its outputs (\<open>src/steps/mod.rs\<close>), its control flow
  (\<open>src/control_flow.rs\<close>) and its errors (\<open>src/error.rs\<close>), with the doubles these need. Durations are
  in nanoseconds.
\<close>

section \<open>Doubles\<close>

text \<open>The value of a finite double as a signed numerator and a denominator.\<close>

definition f64_exponent :: "64 word \<Rightarrow> nat" where
  "f64_exponent w = unat (drop_bit 52 w) mod 2048"

definition f64_negative :: "64 word \<Rightarrow> bool" where
  "f64_negative w \<longleftrightarrow> bit w 63"

definition f64_ratio :: "64 word \<Rightarrow> int \<times> nat" where
  "f64_ratio w =
    (let e = f64_exponent w; f = unat w mod 2 ^ 52;
         m = (if e = 0 then f else 2 ^ 52 + f); x = (if e = 0 then - 1074 else int e - 1075);
         n = int (m * 2 ^ nat x) in
     (if f64_negative w then - n else n, 2 ^ nat (- x)))"

definition f64_nan :: "64 word" where "f64_nan = 0x7FF8000000000000"

definition f64_is_nan :: "64 word \<Rightarrow> bool" where
  "f64_is_nan w \<longleftrightarrow> f64_exponent w = 2047 \<and> unat w mod 2 ^ 52 \<noteq> 0"

definition f64_is_inf :: "64 word \<Rightarrow> bool" where
  "f64_is_inf w \<longleftrightarrow> f64_exponent w = 2047 \<and> unat w mod 2 ^ 52 = 0"

definition f64_of_ratio :: "int \<Rightarrow> nat \<Rightarrow> 64 word" where
  "f64_of_ratio n d = f64_signed (n < 0) (f64_round (nat \<bar>n\<bar>) d)"

text \<open>Addition: a sum that cancels is \<open>+0\<close>, and \<open>-0 + -0\<close> is \<open>-0\<close>.\<close>

definition f64_add :: "64 word \<Rightarrow> 64 word \<Rightarrow> 64 word" where
  "f64_add a b =
    (if f64_is_nan a \<or> f64_is_nan b then f64_nan
     else if f64_is_inf a then (if f64_is_inf b \<and> f64_negative a \<noteq> f64_negative b then f64_nan else a)
     else if f64_is_inf b then b
     else
       (let (m, c) = f64_ratio a; (n, d) = f64_ratio b; s = m * int d + n * int c in
        if s = 0 then (if f64_negative a \<and> f64_negative b then f64_signed True 0 else 0)
        else f64_of_ratio s (c * d)))"

definition f64_less :: "64 word \<Rightarrow> 64 word \<Rightarrow> bool" where
  "f64_less a b \<longleftrightarrow> \<not> f64_is_nan a \<and> \<not> f64_is_nan b \<and>
    (if f64_is_inf a then f64_negative a \<and> \<not> (f64_is_inf b \<and> f64_negative b)
     else if f64_is_inf b then \<not> f64_negative b
     else (let (m, c) = f64_ratio a; (n, d) = f64_ratio b in m * int d < n * int c))"

text \<open>\<open>f64::min\<close> and \<open>f64::max\<close>: a number wins over NaN.\<close>

definition f64_min :: "64 word \<Rightarrow> 64 word \<Rightarrow> 64 word" where
  "f64_min a b = (if f64_is_nan a then b else if f64_is_nan b then a else if f64_less b a then b else a)"

definition f64_max :: "64 word \<Rightarrow> 64 word \<Rightarrow> 64 word" where
  "f64_max a b = (if f64_is_nan a then b else if f64_is_nan b then a else if f64_less a b then b else a)"

text \<open>\<open>x.fract() == 0.0\<close>; the fraction of an infinity is NaN.\<close>

definition f64_integral :: "64 word \<Rightarrow> bool" where
  "f64_integral w \<longleftrightarrow> f64_exponent w \<noteq> 2047 \<and> (let (n, d) = f64_ratio w in n mod int d = 0)"

text \<open>\<open>x as i64\<close> of an integral double: it saturates.\<close>

definition f64_as_i64 :: "64 word \<Rightarrow> int" where
  "f64_as_i64 w = (let (n, d) = f64_ratio w in max (- (2 ^ 63)) (min (2 ^ 63 - 1) (n div int d)))"

text \<open>\<open>Duration::as_secs_f64\<close>\<close>

definition as_secs_f64 :: "nat \<Rightarrow> 64 word" where
  "as_secs_f64 ns = f64_add (f64_of_ratio (int (ns div 10 ^ 9)) 1) (f64_of_ratio (int (ns mod 10 ^ 9)) (10 ^ 9))"

section \<open>Outputs\<close>

record CmdOutput =
  co_stdout :: string
  co_stderr :: string
  co_exit_code :: "32 word"
  co_duration :: nat

record AgentStats =
  at_duration :: nat
  at_input_tokens :: nat
  at_output_tokens :: nat
  at_cost_usd :: "64 word"
  at_turns :: nat

record AgentOutput =
  ag_response :: string
  ag_session_id :: "string option"
  ag_stats :: AgentStats

record ChatOutput =
  ct_response :: string
  ct_model :: string
  ct_input_tokens :: nat
  ct_output_tokens :: nat

record GateOutput =
  gt_passed :: bool
  gt_message :: "string option"

text \<open>An iteration is its index and its output; \<open>OScope\<close> holds the iterations and the final value.\<close>

datatype StepOutput =
    OCmd CmdOutput
  | OAgent AgentOutput
  | OChat ChatOutput
  | OGate GateOutput
  | OScope "(nat \<times> StepOutput) list" "StepOutput option"
  | OTemplate string
  | OEmpty

datatype ParsedValue = PText string | PJson json | PInteger int | PLines "string list" | PBoolean bool

fun text_of :: "StepOutput \<Rightarrow> string" where
  "text_of (OCmd o') = co_stdout o'"
| "text_of (OAgent o') = ag_response o'"
| "text_of (OChat o') = ct_response o'"
| "text_of (OGate o') = (case gt_message o' of None \<Rightarrow> [] | Some m \<Rightarrow> m)"
| "text_of (OScope its None) = []"
| "text_of (OScope its (Some v)) = text_of v"
| "text_of (OTemplate r) = r"
| "text_of OEmpty = []"

fun exit_code_of :: "StepOutput \<Rightarrow> 32 word" where
  "exit_code_of (OCmd o') = co_exit_code o'"
| "exit_code_of v = 0"

fun success_of :: "StepOutput \<Rightarrow> bool" where
  "success_of (OCmd o') \<longleftrightarrow> co_exit_code o' = 0"
| "success_of (OGate o') \<longleftrightarrow> gt_passed o'"
| "success_of v \<longleftrightarrow> True"

text \<open>A text as the output of a command that took no time.\<close>

definition cmd_text :: "string \<Rightarrow> StepOutput" where
  "cmd_text s = OCmd \<lparr>co_stdout = s, co_stderr = [], co_exit_code = 0, co_duration = 0\<rparr>"

lemma text_cmd_text [simp]: "text_of (cmd_text s) = s"
  by (simp add: cmd_text_def)

definition opt_json :: "('a \<Rightarrow> json) \<Rightarrow> 'a option \<Rightarrow> json" where
  "opt_json f x = (case x of None \<Rightarrow> JNull | Some a \<Rightarrow> f a)"

text \<open>\<open>serde_json::to_value\<close> of an output: the tag \<open>type\<close>, then the fields.\<close>

definition stats_json :: "AgentStats \<Rightarrow> json" where
  "stats_json s = JObj [(''duration'', json_f64 (as_secs_f64 (at_duration s))),
     (''input_tokens'', json_u (at_input_tokens s)), (''output_tokens'', json_u (at_output_tokens s)),
     (''cost_usd'', json_f64 (at_cost_usd s)), (''turns'', json_u (at_turns s))]"

fun output_json :: "StepOutput \<Rightarrow> json" where
  "output_json (OCmd o') = JObj [(''type'', JStr ''cmd''), (''stdout'', JStr (co_stdout o')),
     (''stderr'', JStr (co_stderr o')), (''exit_code'', JInt (sint (co_exit_code o'))),
     (''duration'', json_f64 (as_secs_f64 (co_duration o')))]"
| "output_json (OAgent o') = JObj [(''type'', JStr ''agent''), (''response'', JStr (ag_response o')),
     (''session_id'', opt_json JStr (ag_session_id o')), (''stats'', stats_json (ag_stats o'))]"
| "output_json (OChat o') = JObj [(''type'', JStr ''chat''), (''response'', JStr (ct_response o')),
     (''model'', JStr (ct_model o')), (''input_tokens'', json_u (ct_input_tokens o')),
     (''output_tokens'', json_u (ct_output_tokens o'))]"
| "output_json (OGate o') = JObj [(''type'', JStr ''gate''), (''passed'', JBool (gt_passed o')),
     (''message'', opt_json JStr (gt_message o'))]"
| "output_json (OScope its fin) = JObj [(''type'', JStr ''scope''),
     (''iterations'', JArr (map (\<lambda>(i, v). JObj [(''index'', json_u i), (''output'', output_json v)]) its)),
     (''final_value'', (case fin of None \<Rightarrow> JNull | Some v \<Rightarrow> output_json v))]"
| "output_json (OTemplate r) = JObj [(''type'', JStr ''template''), (''rendered'', JStr r)]"
| "output_json OEmpty = JObj [(''type'', JStr ''empty'')]"

section \<open>Control flow and errors\<close>

datatype ControlFlow =
    Skip string
  | FlowFail string
  | Break string "StepOutput option"
  | Next string

datatype StepError =
    StepFail string
  | Flow ControlFlow
  | StepTimeout nat
  | TemplateErr string
  | SandboxErr string string
  | StepConfig string string
  | StepOther string

text \<open>
  \<open>Debug\<close> of a duration: the largest unit of which there is one, the rest as a fraction without
  trailing zeros.
\<close>

definition strip_zeros :: "string \<Rightarrow> string" where
  "strip_zeros s = rev (dropWhile (\<lambda>c. c = CHR ''0'') (rev s))"

definition pad_left :: "nat \<Rightarrow> string \<Rightarrow> string" where
  "pad_left n s = replicate (n - length s) (CHR ''0'') @ s"

definition with_fraction :: "nat \<Rightarrow> nat \<Rightarrow> nat \<Rightarrow> string" where
  "with_fraction whole part digits =
    (let f = strip_zeros (pad_left digits (show_nat part)) in
     if part = 0 then show_nat whole else show_nat whole @ ''.'' @ f)"

definition debug_duration :: "nat \<Rightarrow> string" where
  "debug_duration ns =
    (if ns \<ge> 10 ^ 9 then with_fraction (ns div 10 ^ 9) (ns mod 10 ^ 9) 9 @ ''s''
     else if ns \<ge> 10 ^ 6 then with_fraction (ns div 10 ^ 6) (ns mod 10 ^ 6) 6 @ ''ms''
     else if ns \<ge> 10 ^ 3 then with_fraction (ns div 10 ^ 3) (ns mod 10 ^ 3) 3 @ [CHR 0xC2, CHR 0xB5, CHR ''s'']
     else show_nat ns @ ''ns'')"

text \<open>The \<open>Display\<close> of an error; the derived \<open>Debug\<close> of the control flow is an argument.\<close>

fun show_step_error :: "(ControlFlow \<Rightarrow> string) \<Rightarrow> StepError \<Rightarrow> string" where
  "show_step_error D (StepFail m) = ''Step failed: '' @ m"
| "show_step_error D (Flow c) = ''Control flow: '' @ D c"
| "show_step_error D (StepTimeout d) = ''Timeout after '' @ debug_duration d"
| "show_step_error D (TemplateErr m) = ''Template error: '' @ m"
| "show_step_error D (SandboxErr m i) = ''Sandbox error: '' @ m @ '' (image: '' @ i @ '')''"
| "show_step_error D (StepConfig f m) = ''Config error in '' @ [CHR 0x27] @ f @ [CHR 0x27] @ '': '' @ m"
| "show_step_error D (StepOther m) = m"

definition is_timeout :: "StepError \<Rightarrow> bool" where
  "is_timeout e \<longleftrightarrow> (case e of StepTimeout d \<Rightarrow> True | _ \<Rightarrow> False)"

definition is_control_flow :: "StepError \<Rightarrow> bool" where
  "is_control_flow e \<longleftrightarrow> (case e of Flow c \<Rightarrow> True | _ \<Rightarrow> False)"

fun category :: "StepError \<Rightarrow> string" where
  "category (StepFail m) = ''step_failure''"
| "category (Flow c) = ''control_flow''"
| "category (StepTimeout d) = ''timeout''"
| "category (TemplateErr m) = ''template''"
| "category (SandboxErr m i) = ''sandbox''"
| "category (StepConfig f m) = ''config''"
| "category (StepOther m) = ''internal''"

section \<open>Integers and words of a text\<close>

text \<open>\<open>str::parse::<i64>\<close>\<close>

definition parse_i64 :: "string \<Rightarrow> int option" where
  "parse_i64 s =
    (let neg = (s \<noteq> [] \<and> hd s = CHR ''-''); d = (if neg then tl s else unplus s);
         i = (if neg then - int (nat_of_digits d) else int (nat_of_digits d)) in
     if d \<noteq> [] \<and> list_all is_digit d \<and> - (2 ^ 63) \<le> i \<and> i < 2 ^ 63 then Some i else None)"

text \<open>
  \<open>str::to_lowercase\<close> as far as a comparison with ASCII letters can see it: of the characters beyond ASCII
  only the Kelvin sign has an ASCII letter for its lower case.
\<close>

fun lower_text :: "string \<Rightarrow> string" where
  "lower_text (a # b # c # s) =
    (if a = CHR 0xE2 \<and> b = CHR 0x84 \<and> c = CHR 0xAA then CHR ''k'' # lower_text s
     else to_lower a # lower_text (b # c # s))"
| "lower_text [a, b] = [to_lower a, to_lower b]"
| "lower_text [a] = [to_lower a]"
| "lower_text [] = []"

end
