(* ===== verification/Prompts.thy ===== *)
theory Prompts
  imports Render Config Outputs
begin

text \<open>
  \<open>src/prompts\<close>: the registry of technology stacks (\<open>registry.rs\<close>), the detection of the stack of a
  workspace (\<open>detector.rs\<close>) and the search for a prompt along the parents of a stack (\<open>resolver.rs\<close>).
  The file system and the YAML parser are parameters. A loop that may not end has the value \<open>None\<close>.
\<close>



definition quoted :: "string \<Rightarrow> string" where
  "quoted s = [CHR 0x27] @ s @ [CHR 0x27]"

section \<open>The registry\<close>

record StackDef =
  sk_parent :: "string option"
  sk_file_markers :: "string list"
  sk_content_match :: env
  sk_tools :: env

record Registry =
  rg_version :: nat
  rg_detection_order :: "string list"
  rg_stacks :: "(string \<times> StackDef) list"

datatype RegistryFile = RegistryMissing | RegistryUnreadable string | RegistryText string

definition registry_from_file ::
  "(string \<Rightarrow> RegistryFile) \<Rightarrow> (string \<Rightarrow> (string, Registry) result) \<Rightarrow> string \<Rightarrow> (StepError, Registry) result" where
  "registry_from_file file yaml p =
    (case file p of
       RegistryMissing \<Rightarrow> Inl (StepFail (''Registry file not found: '' @ quoted p @ '': No such file''))
     | RegistryUnreadable e \<Rightarrow> Inl (StepFail (''Failed to read registry file '' @ quoted p @ '': '' @ e))
     | RegistryText t \<Rightarrow> map_err (StepConfig ''registry.yaml'') (yaml t))"

section \<open>Detection\<close>

record StackInfo =
  si_name :: string
  si_parent_chain :: "string list"
  si_tools :: env

definition parent_of :: "Registry \<Rightarrow> string \<Rightarrow> string option" where
  "parent_of reg n = Option.bind (map_of (rg_stacks reg) n) sk_parent"

definition tools_of :: "Registry \<Rightarrow> string \<Rightarrow> env" where
  "tools_of reg n = (case map_of (rg_stacks reg) n of None \<Rightarrow> [] | Some d \<Rightarrow> sk_tools d)"

text \<open>The \<open>while let\<close> that climbs to the root.\<close>

partial_function (option) climb :: "Registry \<Rightarrow> string option \<Rightarrow> string list option" where
  "climb reg cur =
    (case cur of
       None \<Rightarrow> Some []
     | Some p \<Rightarrow> Option.bind (climb reg (parent_of reg p)) (\<lambda>ps. Some (p # ps)))"

definition build_stack_info :: "Registry \<Rightarrow> string \<Rightarrow> StackInfo option" where
  "build_stack_info reg n =
    (case climb reg (parent_of reg n) of
       None \<Rightarrow> None
     | Some chain \<Rightarrow>
       (let full = rev (n # chain) in
        Some \<lparr>si_name = n, si_parent_chain = chain,
              si_tools = foldl (\<lambda>m s. merge_map m (tools_of reg s)) [] full\<rparr>))"

record Files =
  fs_exists :: "string \<Rightarrow> bool"
  fs_text :: "string \<Rightarrow> string option"

text \<open>The markers looked at, up to the first that exists.\<close>

fun check_markers :: "Files \<Rightarrow> string \<Rightarrow> string list \<Rightarrow> bool \<times> string list" where
  "check_markers F ws [] = (False, [])"
| "check_markers F ws (m # ms) =
    (if fs_exists F (join_path ws m) then (True, [m])
     else (let (found, ks) = check_markers F ws ms in (found, m # ks)))"

fun content_matches :: "Files \<Rightarrow> string \<Rightarrow> env \<Rightarrow> bool" where
  "content_matches F ws [] = True"
| "content_matches F ws ((f, pat) # rest) =
    (case fs_text F (join_path ws f) of
       None \<Rightarrow> False
     | Some t \<Rightarrow> if str_contains t pat then content_matches F ws rest else False)"

fun detect_loop :: "Registry \<Rightarrow> Files \<Rightarrow> string \<Rightarrow> string list \<Rightarrow> string list \<Rightarrow> (StepError, StackInfo) result option" where
  "detect_loop reg F ws checked [] =
    Some (Inl (StepFail (''Could not detect project stack in '' @ quoted ws @ ''. Checked markers: ['' @
      join '', '' checked @ '']. Create prompts/registry.yaml with your stack definition.'')))"
| "detect_loop reg F ws checked (n # order) =
    (case map_of (rg_stacks reg) n of
       None \<Rightarrow> detect_loop reg F ws checked order
     | Some d \<Rightarrow>
       if sk_file_markers d = [] \<and> sk_content_match d = [] then detect_loop reg F ws checked order
       else
         (let (found, ks) = (if sk_file_markers d = [] then (True, []) else check_markers F ws (sk_file_markers d)) in
          if \<not> found then detect_loop reg F ws (checked @ ks) order
          else if \<not> content_matches F ws (sk_content_match d) then detect_loop reg F ws (checked @ ks) order
          else map_option Inr (build_stack_info reg n)))"

definition detect :: "Registry \<Rightarrow> Files \<Rightarrow> string \<Rightarrow> (StepError, StackInfo) result option" where
  "detect reg F ws = detect_loop reg F ws [] (rg_detection_order reg)"

section \<open>The prompt of a stack\<close>

fun has_repeat :: "string set \<Rightarrow> string list \<Rightarrow> bool" where
  "has_repeat seen [] = False"
| "has_repeat seen (n # ns) = (if n \<in> seen then True else has_repeat (insert n seen) ns)"

definition prompt_path :: "string \<Rightarrow> string \<Rightarrow> string \<Rightarrow> string" where
  "prompt_path dir fn n = join_path (join_path dir fn) (n @ ''.md.tera'')"

definition resolve_prompt :: "(string \<Rightarrow> bool) \<Rightarrow> string \<Rightarrow> StackInfo \<Rightarrow> string \<Rightarrow> (StepError, string) result" where
  "resolve_prompt there fn info dir =
    (let candidates = si_name info # si_parent_chain info in
     if has_repeat {} candidates
     then Inl (StepFail (''Circular parent chain detected: '' @ join '' -> '' candidates @
       ''. Check registry.yaml parent fields.''))
     else
       (case find there (map (prompt_path dir fn) candidates) of
          Some p \<Rightarrow> Inr p
        | None \<Rightarrow>
          if there (prompt_path dir fn ''_default'') then Inr (prompt_path dir fn ''_default'')
          else Inl (StepFail (''No prompt for '' @ fn @ ''/'' @ si_name info @ '' '' @ em_dash @ '' create prompts/'' @
            fn @ ''/'' @ si_name info @ ''.md.tera or prompts/'' @ fn @ ''/_default.md.tera''))))"

section \<open>Climbing\<close>

declare climb.simps [code]

lemma climb_None [simp]: "climb reg None = Some []"
  by (simp add: climb.simps)

lemma climb_Some: "climb reg (Some p) = map_option ((#) p) (climb reg (parent_of reg p))"
  by (subst climb.simps) (cases "climb reg (parent_of reg p)", simp_all)

definition parents :: "Registry \<Rightarrow> (string \<times> string) set" where
  "parents reg = {(n, p). parent_of reg n = Some p}"

lemma parents_dom: "(n, p) \<in> parents reg \<Longrightarrow> n \<in> fst ` set (rg_stacks reg)"
  by (force simp: parents_def parent_of_def bind_eq_Some_conv dest: map_of_SomeD)

lemma finite_parents: "finite (parents reg)"
proof -
  have "parents reg \<subseteq> (\<lambda>n. (n, the (parent_of reg n))) ` fst ` set (rg_stacks reg)"
  proof
    fix x
    assume x: "x \<in> parents reg"
    then obtain n p where np: "x = (n, p)" "parent_of reg n = Some p" by (auto simp: parents_def)
    then have "n \<in> fst ` set (rg_stacks reg)" using parents_dom [of n p reg] x by simp
    then show "x \<in> (\<lambda>n. (n, the (parent_of reg n))) ` fst ` set (rg_stacks reg)"
      using np by (intro image_eqI [of _ _ n]) simp_all
  qed
  then show ?thesis by (rule finite_subset) simp
qed

text \<open>The climb from a stack meets a cycle.\<close>

definition circular :: "Registry \<Rightarrow> string \<Rightarrow> bool" where
  "circular reg n \<longleftrightarrow> (\<exists>a. (n, a) \<in> (parents reg)\<^sup>* \<and> (a, a) \<in> (parents reg)\<^sup>+)"

lemma climb_total:
  assumes "\<not> circular reg n"
  shows "\<exists>chain. climb reg (parent_of reg n) = Some chain"
proof -
  define R where "R = {(p, a). (a, p) \<in> parents reg \<and> (n, a) \<in> (parents reg)\<^sup>*}"
  have "finite R" unfolding R_def
    by (rule finite_subset [of _ "(parents reg)\<inverse>"]) (auto simp: finite_parents)
  moreover have "(a, p) \<in> (parents reg)\<^sup>+ \<and> (n, a) \<in> (parents reg)\<^sup>*" if "(p, a) \<in> R\<^sup>+" for p a
    using that by (induction rule: trancl_induct) (auto simp: R_def intro: trancl_into_trancl2)
  then have "acyclic R" using assms unfolding circular_def acyclic_def by blast
  ultimately have "wf R" by (rule finite_acyclic_wf)
  then have "(n, a) \<in> (parents reg)\<^sup>* \<Longrightarrow> \<exists>chain. climb reg (parent_of reg a) = Some chain" for a
  proof (induction a rule: wf_induct_rule)
    case (less a)
    show ?case
    proof (cases "parent_of reg a")
      case (Some p)
      then have "(p, a) \<in> R" "(n, p) \<in> (parents reg)\<^sup>*"
        using less.prems by (auto simp: R_def parents_def intro: rtrancl_into_rtrancl)
      then show ?thesis using less.IH Some by (fastforce simp: climb_Some)
    qed simp
  qed
  then show ?thesis by simp
qed

lemma climb_shorter:
  assumes "climb reg (parent_of reg n) = Some chain" and "(n, a) \<in> (parents reg)\<^sup>+"
  shows "\<exists>c. climb reg (parent_of reg a) = Some c \<and> length c < length chain"
  using assms(2)
proof (induction rule: trancl_induct)
  case (base a)
  then show ?case using assms(1) by (auto simp: parents_def climb_Some)
next
  case (step a b)
  then obtain c where "climb reg (parent_of reg a) = Some c" "length c < length chain" by blast
  then show ?case using step(2) by (auto simp: parents_def climb_Some)
qed

lemma climb_iff: "climb reg (parent_of reg n) = None \<longleftrightarrow> circular reg n"
proof
  assume "circular reg n"
  then obtain a where a: "(n, a) \<in> (parents reg)\<^sup>*" "(a, a) \<in> (parents reg)\<^sup>+" by (auto simp: circular_def)
  show "climb reg (parent_of reg n) = None"
  proof (rule ccontr)
    assume "climb reg (parent_of reg n) \<noteq> None"
    then obtain c where "climb reg (parent_of reg n) = Some c" by blast
    with a(1) obtain c' where "climb reg (parent_of reg a) = Some c'"
      using climb_shorter [of reg n c a] by (metis rtranclD)
    from climb_shorter [OF this a(2)] show False using \<open>climb reg (parent_of reg a) = Some c'\<close> by auto
  qed
qed (use climb_total in fastforce)

lemma climb_distinct: "climb reg (parent_of reg n) = Some chain \<Longrightarrow> distinct (n # chain)"
proof (induction chain arbitrary: n)
  case (Cons p ps)
  then have p: "parent_of reg n = Some p" "climb reg (parent_of reg p) = Some ps"
    by (cases "parent_of reg n"; auto simp: climb_Some)+
  have reach: "(m, q) \<in> (parents reg)\<^sup>+" if "climb reg (parent_of reg m) = Some qs" "q \<in> set qs" for m q qs
    using that
  proof (induction qs arbitrary: m)
    case (Cons r qs)
    then have r: "(m, r) \<in> parents reg" "climb reg (parent_of reg r) = Some qs"
      by (cases "parent_of reg m"; auto simp: climb_Some parents_def)+
    then show ?case using Cons by (auto intro: trancl_into_trancl2)
  qed simp
  have "n \<notin> set (p # ps)"
    using reach [OF Cons.prems] climb_shorter [OF Cons.prems, of n] Cons.prems by auto
  then show ?case using Cons.IH [OF p(2)] by simp
qed simp

text \<open>The line of a stack, read off the registry: its parent, the parent of that, up to one without a parent.\<close>

fun lineage :: "Registry \<Rightarrow> string \<Rightarrow> string list \<Rightarrow> bool" where
  "lineage reg n [] \<longleftrightarrow> (case map_of (rg_stacks reg) n of None \<Rightarrow> True | Some d \<Rightarrow> sk_parent d = None)"
| "lineage reg n (p # ps) \<longleftrightarrow>
    (case map_of (rg_stacks reg) n of None \<Rightarrow> False | Some d \<Rightarrow> sk_parent d = Some p) \<and> lineage reg p ps"

definition tool_in :: "Registry \<Rightarrow> string \<Rightarrow> string \<Rightarrow> string option" where
  "tool_in reg k n = (case map_of (rg_stacks reg) n of None \<Rightarrow> None | Some d \<Rightarrow> map_of (sk_tools d) k)"

lemma climb_lineage: "climb reg (parent_of reg n) = Some chain \<Longrightarrow> lineage reg n chain"
proof (induction chain arbitrary: n)
  case Nil
  then have "parent_of reg n = None" by (cases "parent_of reg n") (auto simp: climb_Some)
  then show ?case by (auto simp: parent_of_def split: option.split)
next
  case (Cons p ps)
  then have "parent_of reg n = Some p" "climb reg (parent_of reg p) = Some ps"
    by (cases "parent_of reg n"; auto simp: climb_Some)+
  then show ?case using Cons.IH by (auto simp: parent_of_def bind_eq_Some_conv)
qed

lemma tool_in_tools: "map_of (tools_of reg n) k = tool_in reg k n"
  by (simp add: tools_of_def tool_in_def split: option.split)

lemma has_repeat_iff: "has_repeat seen ns \<longleftrightarrow> \<not> distinct ns \<or> seen \<inter> set ns \<noteq> {}"
  by (induction ns arbitrary: seen) auto

lemma find_snoc: "find P (xs @ [x]) = (case find P xs of None \<Rightarrow> if P x then Some x else None | Some y \<Rightarrow> Some y)"
  by (induction xs) auto

text \<open>The tools of the nearest stack that has them.\<close>

lemma merged_tools:
  assumes "\<forall>s \<in> set ss. distinct (map fst (tools_of reg s))"
  shows "map_of (foldl (\<lambda>m s. merge_map m (tools_of reg s)) [] (rev ss)) k = first_of (map (\<lambda>s. map_of (tools_of reg s) k) ss)"
  using assms
  by (induction ss) (simp_all add: map_of_merge map_add_def first_of_simp split: option.split)

text \<open>A stack is the one of a workspace.\<close>

definition stack_matches :: "Registry \<Rightarrow> Files \<Rightarrow> string \<Rightarrow> string \<Rightarrow> bool" where
  "stack_matches reg F ws n \<longleftrightarrow>
    (case map_of (rg_stacks reg) n of
       None \<Rightarrow> False
     | Some d \<Rightarrow> \<not> (sk_file_markers d = [] \<and> sk_content_match d = []) \<and>
         (sk_file_markers d = [] \<or> (\<exists>m \<in> set (sk_file_markers d). fs_exists F (join_path ws m))) \<and>
         (\<forall>(f, pat) \<in> set (sk_content_match d). \<exists>t. fs_text F (join_path ws f) = Some t \<and> str_contains t pat))"

lemma check_markers_iff: "fst (check_markers F ws ms) \<longleftrightarrow> (\<exists>m \<in> set ms. fs_exists F (join_path ws m))"
  by (induction ms) (auto simp: split_beta)

lemma content_matches_iff:
  "content_matches F ws ps \<longleftrightarrow> (\<forall>(f, pat) \<in> set ps. \<exists>t. fs_text F (join_path ws f) = Some t \<and> str_contains t pat)"
  by (induction ps) (auto split: option.splits if_splits)

lemma detect_loop_spec:
  "case find (stack_matches reg F ws) order of
     None \<Rightarrow> (\<exists>m. detect_loop reg F ws checked order = Some (Inl (StepFail m)))
   | Some n \<Rightarrow> detect_loop reg F ws checked order = map_option Inr (build_stack_info reg n)"
proof (induction order arbitrary: checked)
  case (Cons n order)
  show ?case
  proof (cases "map_of (rg_stacks reg) n")
    case None
    then have "\<not> stack_matches reg F ws n" by (simp add: stack_matches_def)
    then show ?thesis using Cons.IH [of checked] None by (simp split: option.splits)
  next
    case (Some d)
    obtain found ks where fk: "(if sk_file_markers d = [] then (True, []) else check_markers F ws (sk_file_markers d)) = (found, ks)"
      by fastforce
    then have found: "found \<longleftrightarrow> sk_file_markers d = [] \<or> (\<exists>m \<in> set (sk_file_markers d). fs_exists F (join_path ws m))"
      using check_markers_iff [of F ws "sk_file_markers d"] by (auto split: if_splits)
    have m: "stack_matches reg F ws n \<longleftrightarrow> \<not> (sk_file_markers d = [] \<and> sk_content_match d = []) \<and> found \<and>
        content_matches F ws (sk_content_match d)"
      by (simp add: stack_matches_def Some found content_matches_iff)
    show ?thesis using Cons.IH [of checked] Cons.IH [of "checked @ ks"] m by (auto simp: Some fk split: option.splits)
  qed
qed simp

text \<open>
  C27: finding the prompt of a workspace. Detection takes the first stack of the order that has a criterion,
  one of whose markers exists and all of whose files contain their text; when there is none it fails. It
  fails to return exactly when that stack's parents run into a cycle. When it returns, the chain is the
  line of the stack in the registry, parent by parent up to the one that has none, without a repetition;
  a tool is the one of the nearest stack of that line that defines it, and there is one exactly when some
  stack of the line does; and the prompt is the first that exists along the stack, its parents and the
  default, so that the resolver's own check for a circular chain can never fire on a detected stack.
\<close>

theorem stack_detection:
  assumes tools: "\<forall>s. distinct (map fst (tools_of reg s))"
  shows "case find (stack_matches reg F ws) (rg_detection_order reg) of
      None \<Rightarrow> (\<exists>m. detect reg F ws = Some (Inl (StepFail m)))
    | Some n \<Rightarrow>
        if circular reg n then detect reg F ws = None
        else (\<exists>info. detect reg F ws = Some (Inr info) \<and> si_name info = n \<and>
          lineage reg n (si_parent_chain info) \<and> distinct (n # si_parent_chain info) \<and>
          (\<forall>k. map_of (si_tools info) k = first_of (map (tool_in reg k) (n # si_parent_chain info))) \<and>
          (\<forall>there fn dir. case find there (map (prompt_path dir fn) (n # si_parent_chain info @ [''_default''])) of
              Some p \<Rightarrow> resolve_prompt there fn info dir = Inr p
            | None \<Rightarrow> resolve_prompt there fn info dir = Inl (StepFail (''No prompt for '' @ fn @ ''/'' @ n @ '' '' @ em_dash @
                '' create prompts/'' @ fn @ ''/'' @ n @ ''.md.tera or prompts/'' @ fn @ ''/_default.md.tera''))))"
proof (cases "find (stack_matches reg F ws) (rg_detection_order reg)")
  case None
  then show ?thesis using detect_loop_spec [of reg F ws "[]" "rg_detection_order reg"] by (simp add: detect_def)
next
  case (Some n)
  then have d: "detect reg F ws = map_option Inr (build_stack_info reg n)"
    using detect_loop_spec [of reg F ws "[]" "rg_detection_order reg"] by (simp add: detect_def)
  show ?thesis
  proof (cases "circular reg n")
    case True
    then show ?thesis using climb_iff [of reg n] by (simp add: Some d build_stack_info_def)
  next
    case False
    then obtain chain where chain: "climb reg (parent_of reg n) = Some chain" using climb_total by blast
    define info where "info = \<lparr>si_name = n, si_parent_chain = chain,
      si_tools = foldl (\<lambda>m s. merge_map m (tools_of reg s)) [] (rev (n # chain))\<rparr>"
    have "detect reg F ws = Some (Inr info)" by (simp add: d build_stack_info_def chain info_def)
    moreover have "map_of (si_tools info) k = first_of (map (tool_in reg k) (n # chain))" for k
      using merged_tools [of "n # chain" reg k] tools by (simp add: info_def tool_in_tools)
    moreover have "case find there (map (prompt_path dir fn) (n # chain @ [''_default''])) of
        Some p \<Rightarrow> resolve_prompt there fn info dir = Inr p
      | None \<Rightarrow> resolve_prompt there fn info dir = Inl (StepFail (''No prompt for '' @ fn @ ''/'' @ n @ '' '' @ em_dash @
          '' create prompts/'' @ fn @ ''/'' @ n @ ''.md.tera or prompts/'' @ fn @ ''/_default.md.tera''))" for there fn dir
    proof -
      have "map (prompt_path dir fn) (n # chain @ [''_default'']) = map (prompt_path dir fn) (n # chain) @ [prompt_path dir fn ''_default'']"
        by simp
      then show ?thesis using climb_distinct [OF chain]
        unfolding find_snoc
        by (auto simp: resolve_prompt_def has_repeat_iff info_def find_snoc split: option.split)
    qed
    moreover have "si_name info = n" "si_parent_chain info = chain" by (simp_all add: info_def)
    ultimately show ?thesis using climb_distinct [OF chain] climb_lineage [OF chain]
      unfolding Some option.case if_not_P [OF False] by (intro exI [of _ info]) (simp only:, blast)
  qed
qed

text \<open>A stack with a parent; two stacks that are each other's parent.\<close>

definition rust_registry :: Registry where
  "rust_registry = \<lparr>rg_version = 1, rg_detection_order = [''rust''], rg_stacks =
    [(''rust'', \<lparr>sk_parent = Some ''_default'', sk_file_markers = [''Cargo.toml''], sk_content_match = [],
       sk_tools = [(''test'', ''cargo test'')]\<rparr>),
     (''_default'', \<lparr>sk_parent = None, sk_file_markers = [], sk_content_match = [],
       sk_tools = [(''test'', ''echo''), (''lint'', ''true'')]\<rparr>)]\<rparr>"

definition loop_registry :: Registry where
  "loop_registry = \<lparr>rg_version = 1, rg_detection_order = [''a''], rg_stacks =
    [(''a'', \<lparr>sk_parent = Some ''b'', sk_file_markers = [''m''], sk_content_match = [], sk_tools = []\<rparr>),
     (''b'', \<lparr>sk_parent = Some ''a'', sk_file_markers = [], sk_content_match = [], sk_tools = []\<rparr>)]\<rparr>"

theorem stack_detection_witness:
  "detect loop_registry \<lparr>fs_exists = \<lambda>_. True, fs_text = \<lambda>_. None\<rparr> ''/w'' = None \<and>
    (\<exists>info. detect rust_registry \<lparr>fs_exists = \<lambda>_. True, fs_text = \<lambda>_. None\<rparr> ''/w'' = Some (Inr info) \<and>
      map_of (si_tools info) ''test'' = Some ''cargo test'' \<and>
      map_of (si_tools info) ''lint'' = Some ''true'')"
proof
  let ?F = "\<lparr>fs_exists = \<lambda>_. True, fs_text = \<lambda>_. None\<rparr>"
  have t: "\<forall>s. distinct (map fst (tools_of loop_registry s))" "\<forall>s. distinct (map fst (tools_of rust_registry s))"
    by (auto simp: tools_of_def loop_registry_def rust_registry_def)
  have "(''a'', ''b'') \<in> parents loop_registry" "(''b'', ''a'') \<in> parents loop_registry"
    by (simp_all add: parents_def parent_of_def loop_registry_def)
  then have "circular loop_registry ''a''" unfolding circular_def by (meson rtrancl.rtrancl_refl trancl.simps)
  moreover have "find (stack_matches loop_registry ?F ''/w'') (rg_detection_order loop_registry) = Some ''a''"
    by (simp add: loop_registry_def stack_matches_def)
  ultimately show "detect loop_registry ?F ''/w'' = None"
    using stack_detection [OF t(1), of ?F "''/w''"] by simp
  have "\<not> circular rust_registry ''rust''"
    by (simp flip: climb_iff) (simp add: parent_of_def rust_registry_def climb_Some)
  moreover have "find (stack_matches rust_registry ?F ''/w'') (rg_detection_order rust_registry) = Some ''rust''"
    by (simp add: rust_registry_def stack_matches_def)
  ultimately obtain info where info: "detect rust_registry ?F ''/w'' = Some (Inr info)"
    "lineage rust_registry ''rust'' (si_parent_chain info)"
    "\<And>k. map_of (si_tools info) k = first_of (map (tool_in rust_registry k) (''rust'' # si_parent_chain info))"
    using stack_detection [OF t(2), of ?F "''/w''"] by auto
  from info(2) have "si_parent_chain info = [''_default'']"
    by (cases "si_parent_chain info"; cases "tl (si_parent_chain info)") (auto simp: rust_registry_def)
  with info(1,3) show "\<exists>info. detect rust_registry ?F ''/w'' = Some (Inr info) \<and>
      map_of (si_tools info) ''test'' = Some ''cargo test'' \<and>
      map_of (si_tools info) ''lint'' = Some ''true''"
    by (auto simp: tool_in_def rust_registry_def first_of_simp)
qed

end
