(* ===== verification/V1Context.thy ===== *)
theory V1Context
  imports Prompts ChatClient
begin

text \<open>
  The context of the version 1 engine: \<open>src/engine/context.rs\<close>, the preprocessing of templates in
  \<open>src/engine/template.rs\<close> and the session manager of \<open>src/claude/session.rs\<close>. A context is its
  frame and the context it is a child of. What contexts share by \<open>Arc\<close> (the session of the agent, the
  chat histories) is the record \<open>Shared\<close>, passed along. Tera and the file system are parameters; the file
  system does not change within one rendering.
\<close>

section \<open>The session manager\<close>

record Shared =
  sh_session :: "string option"
  sh_chats :: "(string \<times> ChatMessage1 list) list"

definition shared0 :: Shared where
  "shared0 = \<lparr>sh_session = None, sh_chats = []\<rparr>"

definition capture :: "string option \<Rightarrow> Shared \<Rightarrow> Shared" where
  "capture i sh = (if sh_session sh = None then sh\<lparr>sh_session := i\<rparr> else sh)"

definition resume_args :: "bool \<Rightarrow> Shared \<Rightarrow> string list" where
  "resume_args isolated sh =
    (if isolated then []
     else (case sh_session sh of Some i \<Rightarrow> [''--fork-session'', ''--resume'', i] | None \<Rightarrow> []))"

section \<open>The context\<close>

record Frame =
  fr_steps :: "(string \<times> StepOutput) list"
  fr_parsed :: "(string \<times> ParsedValue) list"
  fr_vars :: "(string \<times> json) list"
  fr_scope_value :: "json option"
  fr_scope_index :: nat
  fr_stack :: "StackInfo option"
  fr_prompts_dir :: string

datatype Context = Context (frame: Frame) (outer: "Context option")

definition new_context :: "string \<Rightarrow> (string \<times> json) list \<Rightarrow> Context" where
  "new_context target vars = Context
    \<lparr>fr_steps = [], fr_parsed = [], fr_vars = AList.update ''target'' (JStr target) vars,
     fr_scope_value = None, fr_scope_index = 0, fr_stack = None, fr_prompts_dir = ''prompts''\<rparr> None"

definition child_context :: "Context \<Rightarrow> json option \<Rightarrow> nat \<Rightarrow> Context" where
  "child_context p v i = Context
    \<lparr>fr_steps = [], fr_parsed = [], fr_vars = [], fr_scope_value = v, fr_scope_index = i,
     fr_stack = fr_stack (frame p), fr_prompts_dir = fr_prompts_dir (frame p)\<rparr> (Some p)"

definition on_frame :: "(Frame \<Rightarrow> Frame) \<Rightarrow> Context \<Rightarrow> Context" where
  "on_frame f c = Context (f (frame c)) (outer c)"

definition store_output :: "string \<Rightarrow> StepOutput \<Rightarrow> Context \<Rightarrow> Shared \<Rightarrow> Context \<times> Shared" where
  "store_output n v c sh =
    (on_frame (\<lambda>f. f\<lparr>fr_steps := AList.update n v (fr_steps f)\<rparr>) c,
     (case v of OAgent a \<Rightarrow> capture (ag_session_id a) sh | _ \<Rightarrow> sh))"

definition store_parsed :: "string \<Rightarrow> ParsedValue \<Rightarrow> Context \<Rightarrow> Context" where
  "store_parsed n v c = on_frame (\<lambda>f. f\<lparr>fr_parsed := AList.update n v (fr_parsed f)\<rparr>) c"

definition insert_var :: "string \<Rightarrow> json \<Rightarrow> Context \<Rightarrow> Context" where
  "insert_var n v c = on_frame (\<lambda>f. f\<lparr>fr_vars := AList.update n v (fr_vars f)\<rparr>) c"

fun get_step :: "Context \<Rightarrow> string \<Rightarrow> StepOutput option" where
  "get_step (Context f None) n = map_of (fr_steps f) n"
| "get_step (Context f (Some p)) n = (case map_of (fr_steps f) n of Some v \<Rightarrow> Some v | None \<Rightarrow> get_step p n)"

fun get_var :: "Context \<Rightarrow> string \<Rightarrow> json option" where
  "get_var (Context f None) n = map_of (fr_vars f) n"
| "get_var (Context f (Some p)) n = (case map_of (fr_vars f) n of Some v \<Rightarrow> Some v | None \<Rightarrow> get_var p n)"

fun get_parsed :: "Context \<Rightarrow> string \<Rightarrow> ParsedValue option" where
  "get_parsed (Context f None) n = map_of (fr_parsed f) n"
| "get_parsed (Context f (Some p)) n = (case map_of (fr_parsed f) n of Some v \<Rightarrow> Some v | None \<Rightarrow> get_parsed p n)"

fun get_stack_info :: "Context \<Rightarrow> StackInfo option" where
  "get_stack_info (Context f None) = fr_stack f"
| "get_stack_info (Context f (Some p)) = (case fr_stack f of Some i \<Rightarrow> Some i | None \<Rightarrow> get_stack_info p)"

definition insert_pairs :: "(string \<times> 'a) list \<Rightarrow> (string \<times> 'a) list \<Rightarrow> (string \<times> 'a) list" where
  "insert_pairs m kvs = foldl (\<lambda>m (k, v). AList.update k v m) m kvs"

fun all_variables :: "Context \<Rightarrow> (string \<times> json) list" where
  "all_variables (Context f None) = insert_pairs [] (fr_vars f)"
| "all_variables (Context f (Some p)) = insert_pairs (all_variables p) (fr_vars f)"

section \<open>What a template sees\<close>

fun parsed_json :: "ParsedValue \<Rightarrow> json" where
  "parsed_json (PJson j) = j"
| "parsed_json (PLines ls) = JArr (map JStr ls)"
| "parsed_json (PInteger n) = JInt n"
| "parsed_json (PBoolean b) = JBool b"
| "parsed_json (PText t) = JStr t"

definition step_value :: "StepOutput \<Rightarrow> ParsedValue option \<Rightarrow> json" where
  "step_value v p =
    (case output_json v of
       JObj fs \<Rightarrow>
         (let m = AList.update ''output'' (case p of Some q \<Rightarrow> parsed_json q | None \<Rightarrow> JStr (text_of v)) fs;
              sid = (case map_of m ''session_id'' of Some (JStr s) \<Rightarrow> JStr s | _ \<Rightarrow> JStr []) in
          JObj (AList.update ''session_id'' sid m))
     | j \<Rightarrow> j)"

definition get_from_value :: "Context \<Rightarrow> string \<Rightarrow> json option" where
  "get_from_value c n = (case get_step c n of None \<Rightarrow> None | Some v \<Rightarrow> Some (step_value v (get_parsed c n)))"

fun check_json_path :: "json \<Rightarrow> string list \<Rightarrow> bool" where
  "check_json_path v [] = True"
| "check_json_path (JObj m) (k # ks) = (case map_of m k of Some n \<Rightarrow> check_json_path n ks | None \<Rightarrow> False)"
| "check_json_path v (k # ks) = False"

fun split_dot :: "string \<Rightarrow> string list" where
  "split_dot [] = [[]]"
| "split_dot (c # s) =
    (if c = CHR ''.'' then [] # split_dot s
     else (case split_dot s of [] \<Rightarrow> [[c]] | w # ws \<Rightarrow> (c # w) # ws))"

definition var_exists :: "Context \<Rightarrow> string \<Rightarrow> bool" where
  "var_exists c path =
    (case split_dot path of
       [] \<Rightarrow> False
     | root # rest \<Rightarrow>
       (case get_step c root of
          Some v \<Rightarrow> check_json_path (step_value v (get_parsed c root)) rest
        | None \<Rightarrow> (case get_var c root of Some j \<Rightarrow> check_json_path j rest | None \<Rightarrow> False)))"

definition own_values :: "Frame \<Rightarrow> (string \<times> json) list" where
  "own_values f = map (\<lambda>(n, v). (n, step_value v (map_of (fr_parsed f) n))) (fr_steps f)"

fun collect_steps :: "Context \<Rightarrow> (string \<times> json) list" where
  "collect_steps (Context f None) = insert_pairs [] (own_values f)"
| "collect_steps (Context f (Some p)) = insert_pairs (collect_steps p) (own_values f)"

type_synonym tera_vars = "string \<rightharpoonup> json"

text \<open>What a context adds to that of its parent: its variables, every step, the session and the scope.\<close>

definition with_frame :: "Shared \<Rightarrow> Frame \<Rightarrow> (string \<times> json) list \<Rightarrow> tera_vars \<Rightarrow> tera_vars" where
  "with_frame sh f steps base =
    (let m = (base ++ map_of (fr_vars f) ++ map_of steps)
           (''steps'' \<mapsto> JObj steps, ''session_id'' \<mapsto> JStr (case sh_session sh of Some i \<Rightarrow> i | None \<Rightarrow> [])) in
     (case fr_scope_value f of
        Some v \<Rightarrow> m(''scope'' \<mapsto> JObj [(''value'', v), (''index'', json_u (fr_scope_index f))])
      | None \<Rightarrow> m))"

fun to_tera :: "Shared \<Rightarrow> Context \<Rightarrow> tera_vars" where
  "to_tera sh (Context f None) = with_frame sh f (collect_steps (Context f None)) Map.empty"
| "to_tera sh (Context f (Some p)) = with_frame sh f (collect_steps (Context f (Some p))) (to_tera sh p)"

section \<open>Chat histories\<close>

definition get_chat_messages :: "Shared \<Rightarrow> string \<Rightarrow> ChatMessage1 list" where
  "get_chat_messages sh s = (case map_of (sh_chats sh) s of Some h \<Rightarrow> h | None \<Rightarrow> [])"

definition append_chat_messages :: "string \<Rightarrow> ChatMessage1 list \<Rightarrow> Shared \<Rightarrow> Shared" where
  "append_chat_messages s ms sh =
    sh\<lparr>sh_chats := AList.update s (get_chat_messages sh s @ ms) (sh_chats sh)\<rparr>"

end
