(* ===== verification/V1Template.thy ===== *)
theory V1Template
  imports V1Context
begin

text \<open>
  \<open>src/engine/template.rs\<close>: what is rewritten in a template before Tera sees it. The accessors
  \<open>?\<close> and \<open>!\<close>, the calls \<open>from("step")\<close> and the prompts \<open>prompts.name\<close>. Tera, the file system and
  Unicode's classes beyond ASCII are parameters.
\<close>

datatype TeraFailure = TeraParse string | TeraRender string

record TplEnv =
  te_alnum :: "string \<Rightarrow> bool"
  te_exists :: "string \<Rightarrow> bool"
  te_read :: "string \<Rightarrow> (string, string) result"
  te_tera :: "string \<Rightarrow> string \<Rightarrow> tera_vars \<Rightarrow> (TeraFailure, string) result"

type_synonym injected = "(string \<times> json) list"

section \<open>Names of variables\<close>

text \<open>The characters of a text, each as its UTF-8 bytes.\<close>

definition char_len :: "char \<Rightarrow> nat" where
  "char_len c = (let b = byte_of c in if b < 192 then 1 else if b < 224 then 2 else if b < 240 then 3 else 4)"

fun utf8_chars :: "string \<Rightarrow> string list" where
  "utf8_chars [] = []"
| "utf8_chars (c # s) = (c # take (char_len c - 1) s) # utf8_chars (drop (char_len c - 1) s)"

definition is_alphanumeric :: "(string \<Rightarrow> bool) \<Rightarrow> string \<Rightarrow> bool" where
  "is_alphanumeric U ch = (case ch of [c] \<Rightarrow> is_alnum c | _ \<Rightarrow> U ch)"

definition sanitize :: "(string \<Rightarrow> bool) \<Rightarrow> string \<Rightarrow> string" where
  "sanitize U n = concat (map (\<lambda>ch. if is_alphanumeric U ch \<or> ch = ''_'' then ch else ''_'') (utf8_chars n))"

definition sanitize_step_name :: "(string \<Rightarrow> bool) \<Rightarrow> string \<Rightarrow> string" where
  "sanitize_step_name U n = ''__from_'' @ sanitize U n @ ''__''"

definition sanitize_prompt_name :: "(string \<Rightarrow> bool) \<Rightarrow> string \<Rightarrow> string" where
  "sanitize_prompt_name U n = sanitize U n"

section \<open>Calls of from\<close>

definition from_open :: string where
  "from_open = ''from('' @ [CHR 0x22]"

definition quote_char :: char where "quote_char = CHR 0x22"

text \<open>What follows the opening of a call: the name up to the quote, and the rest behind an optional parenthesis.\<close>

definition from_call :: "string \<Rightarrow> (string \<times> string) option" where
  "from_call s =
    (case find_sub [quote_char] s of
       None \<Rightarrow> None
     | Some i \<Rightarrow>
       (let rest = drop (i + 1) s in
        Some (take i s, if starts_with rest '')'' then drop 1 rest else rest)))"

lemma from_call_shorter: "from_call s = Some (n, rest) \<Longrightarrow> length rest < length s"
  by (auto simp: from_call_def Let_def split: option.splits if_splits dest!: find_sub_SomeD)

text \<open>\<open>before\<close> is what lies before the position the search starts from.\<close>

definition from_binding ::
  "Context \<Rightarrow> bool \<Rightarrow> string \<Rightarrow> string \<Rightarrow> injected \<Rightarrow> (StepError, injected) result" where
  "from_binding c safe n v ij =
    (case get_from_value c n of
       Some j \<Rightarrow> Inr (AList.update v j ij)
     | None \<Rightarrow>
       if safe then Inr (if map_of ij v = None then AList.update v (JObj [(''output'', JNull)]) ij else ij)
       else Inl (StepFail (''Step '' @ quoted n @ '' not found in any scope'')))"

function from_loop ::
  "(string \<Rightarrow> bool) \<Rightarrow> Context \<Rightarrow> bool \<Rightarrow> string \<Rightarrow> string \<Rightarrow> injected \<Rightarrow> (StepError, string \<times> injected) result" where
  "from_loop U c safe before rest ij =
    (case find_sub from_open rest of
       None \<Rightarrow> Inr (before @ rest, ij)
     | Some i \<Rightarrow>
       (case from_call (drop (i + 6) rest) of
          None \<Rightarrow> Inr (before @ rest, ij)
        | Some (n, rest') \<Rightarrow>
          (case from_binding c safe n (sanitize_step_name U n) ij of
             Inl e \<Rightarrow> Inl e
           | Inr ij' \<Rightarrow> from_loop U c safe (before @ take i rest @ sanitize_step_name U n) rest' ij')))"
  by pat_completeness auto

termination
  by (relation "measure (\<lambda>(U, c, safe, before, rest, ij). length rest)")
    (auto dest!: from_call_shorter)

declare from_loop.simps [simp del]

definition transform_from_calls ::
  "(string \<Rightarrow> bool) \<Rightarrow> Context \<Rightarrow> bool \<Rightarrow> string \<Rightarrow> injected \<Rightarrow> (StepError, string \<times> injected) result" where
  "transform_from_calls U c safe e ij =
    (if \<not> str_contains e from_open then Inr (e, ij) else from_loop U c safe [] e ij)"

section \<open>Prompts\<close>

definition braced :: "string \<Rightarrow> string" where
  "braced s = ''{{ '' @ s @ '' }}''"

definition prompt_candidates :: "Context \<Rightarrow> string \<Rightarrow> StackInfo \<Rightarrow> string list" where
  "prompt_candidates c fn info =
    map (prompt_path (fr_prompts_dir (frame c)) fn) (si_name info # si_parent_chain info)"

definition resolve_prompt_content ::
  "TplEnv \<Rightarrow> Shared \<Rightarrow> Context \<Rightarrow> string \<Rightarrow> (StepError, string) result" where
  "resolve_prompt_content T sh c fn =
    (case get_stack_info c of
       None \<Rightarrow> Inl (StepFail (''Cannot resolve '' @ quoted (braced (''prompts.'' @ fn)) @
         '': no stack detected. Create prompts/registry.yaml with a matching stack definition.''))
     | Some info \<Rightarrow>
       (let default_path = prompt_path (fr_prompts_dir (frame c)) fn ''_default'';
            found = (case find (te_exists T) (prompt_candidates c fn info) of
              Some p \<Rightarrow> Some p | None \<Rightarrow> if te_exists T default_path then Some default_path else None) in
        (case found of
           None \<Rightarrow> Inl (StepFail (''No prompt for '' @ fn @ ''/'' @ si_name info @ '' '' @ em_dash @
             '' create prompts/'' @ fn @ ''/'' @ si_name info @ ''.md.tera or prompts/'' @ fn @ ''/_default.md.tera''))
         | Some p \<Rightarrow>
           (case te_read T p of
              Inl e \<Rightarrow> Inl (StepFail (''Failed to read prompt file '' @ quoted p @ '': '' @ e))
            | Inr source \<Rightarrow>
              (case te_tera T ''__prompt__'' source (to_tera sh c) of
                 Inr r \<Rightarrow> Inr r
               | Inl (TeraParse e) \<Rightarrow> Inl (TemplateErr (''Prompt template error in '' @ quoted p @ '': '' @ e))
               | Inl (TeraRender e) \<Rightarrow> Inl (TemplateErr (''Prompt render error in '' @ quoted p @ '': '' @ e)))))))"

section \<open>Expressions\<close>

definition strip_last :: "char \<Rightarrow> string \<Rightarrow> string option" where
  "strip_last ch s = (if s \<noteq> [] \<and> last s = ch then Some (butlast s) else None)"

definition process_safe :: "TplEnv \<Rightarrow> Context \<Rightarrow> string \<Rightarrow> injected \<Rightarrow> (StepError, string \<times> injected) result" where
  "process_safe T c stripped ij =
    res_bind (transform_from_calls (te_alnum T) c True (trim stripped) ij) (\<lambda>(t, ij').
      Inr (braced (t @ '' | default(value='' @ [quote_char, quote_char] @ '')''), ij'))"

definition process_strict :: "TplEnv \<Rightarrow> Context \<Rightarrow> string \<Rightarrow> injected \<Rightarrow> (StepError, string \<times> injected) result" where
  "process_strict T c stripped ij =
    res_bind (transform_from_calls (te_alnum T) c False (trim stripped) ij) (\<lambda>(t, ij').
      if \<not> var_exists c t
      then Inl (StepFail (''Required output '' @ quoted (trim stripped) @ '' is missing (strict access)''))
      else Inr (braced t, ij'))"

definition process_prompt ::
  "TplEnv \<Rightarrow> Shared \<Rightarrow> Context \<Rightarrow> string \<Rightarrow> injected \<Rightarrow> (StepError, string \<times> injected) result" where
  "process_prompt T sh c fn ij =
    (let v = ''__prompt_'' @ sanitize_prompt_name (te_alnum T) fn @ ''__'' in
     if map_of ij v \<noteq> None then Inr (braced v, ij)
     else res_bind (resolve_prompt_content T sh c fn) (\<lambda>source.
       Inr (braced v, AList.update v (JStr source) ij)))"

definition process_plain :: "TplEnv \<Rightarrow> Context \<Rightarrow> string \<Rightarrow> injected \<Rightarrow> (StepError, string \<times> injected) result" where
  "process_plain T c e ij =
    res_bind (transform_from_calls (te_alnum T) c False (trim e) ij) (\<lambda>(t, ij').
      Inr (''{{'' @ (if t = trim e then e else '' '' @ t @ '' '') @ ''}}'', ij'))"

definition process_expr ::
  "TplEnv \<Rightarrow> Shared \<Rightarrow> Context \<Rightarrow> string \<Rightarrow> injected \<Rightarrow> (StepError, string \<times> injected) result" where
  "process_expr T sh c e ij =
    (case strip_last (CHR ''?'') (trim e) of
       Some s \<Rightarrow> process_safe T c s ij
     | None \<Rightarrow>
       (case strip_last (CHR ''!'') (trim e) of
          Some s \<Rightarrow> process_strict T c s ij
        | None \<Rightarrow>
          if starts_with (trim e) ''prompts.''
          then process_prompt T sh c (trim (drop (length ''prompts.'') (trim e))) ij
          else process_plain T c e ij))"

section \<open>The template\<close>

text \<open>Which of \<open>{{\<close> and \<open>{%\<close> comes first, and where.\<close>

datatype Opening = NoOpening | TagAt nat | ExprAt nat

definition next_opening :: "string \<Rightarrow> Opening" where
  "next_opening s =
    (case (find_sub ''{{'' s, find_sub ''{%'' s) of
       (None, None) \<Rightarrow> NoOpening
     | (None, Some t) \<Rightarrow> TagAt t
     | (Some d, None) \<Rightarrow> ExprAt d
     | (Some d, Some t) \<Rightarrow> if t < d then TagAt t else ExprAt d)"

function preprocess ::
  "TplEnv \<Rightarrow> Shared \<Rightarrow> Context \<Rightarrow> string \<Rightarrow> injected \<Rightarrow> string \<Rightarrow> (StepError, string \<times> injected) result" where
  "preprocess T sh c out ij s =
    (if s = [] then Inr (out, ij)
     else
       (case next_opening s of
          NoOpening \<Rightarrow> Inr (out @ s, ij)
        | TagAt t \<Rightarrow>
          (let rest = drop t s in
           (case find_sub ''%}'' rest of
              Some e \<Rightarrow> preprocess T sh c (out @ take t s @ take (e + 2) rest) ij (drop (e + 2) rest)
            | None \<Rightarrow> Inr (out @ take t s @ rest, ij)))
        | ExprAt d \<Rightarrow>
          (let rest = drop (d + 2) s in
           (case find_sub ''}}'' rest of
              Some e \<Rightarrow>
                (case process_expr T sh c (take e rest) ij of
                   Inl err \<Rightarrow> Inl err
                 | Inr (p, ij') \<Rightarrow> preprocess T sh c (out @ take d s @ p) ij' (drop (e + 2) rest))
            | None \<Rightarrow> preprocess T sh c (out @ take d s @ ''{{'') ij rest))))"
  by pat_completeness auto

termination
  by (relation "measure (\<lambda>(T, sh, c, out, ij, s). length s)") auto

declare preprocess.simps [simp del]

definition preprocess_template ::
  "TplEnv \<Rightarrow> Shared \<Rightarrow> Context \<Rightarrow> string \<Rightarrow> (StepError, string \<times> injected) result" where
  "preprocess_template T sh c template = preprocess T sh c [] [] template"

text \<open>\<open>Context::render_template\<close>\<close>

definition render_in :: "TplEnv \<Rightarrow> Shared \<Rightarrow> Context \<Rightarrow> string \<Rightarrow> (StepError, string) result" where
  "render_in T sh c template =
    res_bind (preprocess_template T sh c template) (\<lambda>(t, ij).
      case te_tera T ''__tmpl__'' t (to_tera sh c ++ map_of ij) of
        Inr r \<Rightarrow> Inr r
      | Inl (TeraParse e) \<Rightarrow> Inl (TemplateErr e)
      | Inl (TeraRender e) \<Rightarrow> Inl (TemplateErr e))"

end
