(* ===== verification/V1Steps.thy ===== *)
theory V1Steps
  imports V1Template AgentExec Replay
begin

text \<open>
  The executors of single steps of the version 1 engine, \<open>src/steps\<close>: command, agent, chat, gate,
  template and script. Whatever they ask of the outside is recorded, and the host answers from what was
  asked before; so the world may change between any two calls. A task that runs beside others continues
  the record of its parent behind a mark of its own. The value \<open>None\<close> stands for a run that does
  not return, by endless recursion or a panic.
\<close>

section \<open>The host\<close>

record RigRequest =
  rq_client :: string
  rq_key :: "string option"
  rq_url :: "string option"
  rq_model :: string
  rq_prompt :: string
  rq_messages :: "(bool \<times> string) list"
  rq_temperature :: "64 word"
  rq_max_tokens :: nat
  rq_timeout :: nat

datatype V1Call =
    Rendered string
  | ReadEnv string
  | CmdOnHost string "string option" string string nat
  | CmdInBox string nat
  | AgentOnHost string "string list" string nat
  | AgentInBox string string nat
  | ChatRequest RigRequest
  | ReadTemplate string
  | RunScript string
  | Task nat

type_synonym history = "V1Call list"

datatype ProcReply = ProcTimeout | ProcSpawn string | ProcRan string string "32 word option" nat
datatype BoxReply = BoxTimeout | BoxFailed string | BoxRan string string "32 word" nat

datatype AgentReply =
    AgentSpawn string
  | AgentStdin string
  | AgentTimeout
  | AgentWait "string list" string
  | AgentExited "string list" bool "32 word option" nat

text \<open>An item of a completion is a text or something else.\<close>

datatype RigReply =
    RigTimeout
  | RigBuild string
  | RigError string
  | RigDone "string option list" nat nat

record V1Host =
  h_tpl :: "history \<Rightarrow> TplEnv"
  h_env :: "history \<Rightarrow> string \<Rightarrow> string option"
  h_proc :: "history \<Rightarrow> V1Call \<Rightarrow> ProcReply"
  h_box :: "history \<Rightarrow> V1Call \<Rightarrow> BoxReply"
  h_agent :: "history \<Rightarrow> V1Call \<Rightarrow> AgentReply"
  h_rig :: "history \<Rightarrow> RigRequest \<Rightarrow> RigReply"
  h_json :: "string \<Rightarrow> json option"
  h_rhai :: "(string \<times> json) list \<Rightarrow> string \<Rightarrow> (string, Dynamic) result"

record V1State =
  v_hist :: history
  v_shared :: Shared

text \<open>A computation on a state that may fail or not return.\<close>

type_synonym ('s, 'e, 'a) vm = "'s \<Rightarrow> (('e, 'a) result \<times> 's) option"
type_synonym 'a v1 = "(V1State, StepError, 'a) vm"

definition vret :: "'a \<Rightarrow> ('s, 'e, 'a) vm" where
  "vret a s = Some (Inr a, s)"

definition vfail :: "'e \<Rightarrow> ('s, 'e, 'a) vm" where
  "vfail e s = Some (Inl e, s)"

definition vbind :: "('s, 'e, 'a) vm \<Rightarrow> ('a \<Rightarrow> ('s, 'e, 'b) vm) \<Rightarrow> ('s, 'e, 'b) vm" where
  "vbind m f s =
    (case m s of None \<Rightarrow> None | Some (Inl e, s') \<Rightarrow> Some (Inl e, s') | Some (Inr a, s') \<Rightarrow> f a s')"

text \<open>The result as a value, for a \<open>match\<close> on it.\<close>

definition vtry :: "('s, 'e, 'a) vm \<Rightarrow> ('s, 'f, ('e, 'a) result) vm" where
  "vtry m s = (case m s of None \<Rightarrow> None | Some (r, s') \<Rightarrow> Some (Inr r, s'))"

definition vlift :: "('e, 'a) result \<Rightarrow> ('s, 'e, 'a) vm" where
  "vlift r s = Some (r, s)"

definition vpanic :: "('s, 'e, 'a) vm" where
  "vpanic s = None"

definition vask :: "V1Call \<Rightarrow> (history \<Rightarrow> 'a) \<Rightarrow> 'a v1" where
  "vask c f s = Some (Inr (f (v_hist s)), s\<lparr>v_hist := v_hist s @ [c]\<rparr>)"

definition vshared :: "Shared v1" where
  "vshared s = Some (Inr (v_shared s), s)"

definition vset_shared :: "Shared \<Rightarrow> unit v1" where
  "vset_shared sh s = Some (Inr (), s\<lparr>v_shared := sh\<rparr>)"

definition vrender :: "V1Host \<Rightarrow> Context \<Rightarrow> string \<Rightarrow> string v1" where
  "vrender H c t =
    vbind vshared (\<lambda>sh. vbind (vask (Rendered t) (\<lambda>h. render_in (h_tpl H h) sh c t)) vlift)"

text \<open>A step is its fields and the steps inside it.\<close>

abbreviation field :: "StepDef \<Rightarrow> (StepFields \<Rightarrow> 'a) \<Rightarrow> 'a" where
  "field s f \<equiv> f (fields_of s)"

definition required :: "StepType \<Rightarrow> string \<Rightarrow> 'a option \<Rightarrow> (StepError, 'a) result" where
  "required t what x =
    ok_or (StepFail (show_step_type t @ '' step missing '' @ quoted what @ '' field'')) x"

definition or_else :: "'a option \<Rightarrow> 'a \<Rightarrow> 'a" where
  "or_else x d = (case x of None \<Rightarrow> d | Some a \<Rightarrow> a)"

text \<open>Configured durations are in milliseconds.\<close>

definition timeout_of :: "resolved \<Rightarrow> nat \<Rightarrow> nat" where
  "timeout_of cfg secs = or_else (get_duration cfg ''timeout'') (secs * 1000)"

definition timed_out :: "nat \<Rightarrow> StepError" where
  "timed_out ms = StepTimeout (ms * 10 ^ 6)"

section \<open>Commands\<close>

definition extra_dirs :: "string list" where
  "extra_dirs = [''/usr/local/bin'', ''/opt/homebrew/bin'', ''/usr/local/sbin'']"

definition full_path :: "string \<Rightarrow> string option \<Rightarrow> string" where
  "full_path current home =
    (let p = foldl (\<lambda>p d. if str_contains current d then p else d @ '':'' @ p) current extra_dirs in
     (case home of
        None \<Rightarrow> p
      | Some h \<Rightarrow> if str_contains p (h @ ''/.cargo/bin'') then p else h @ ''/.cargo/bin:'' @ p))"

definition cmd_in_box :: "V1Host \<Rightarrow> string \<Rightarrow> nat \<Rightarrow> CmdOutput v1" where
  "cmd_in_box H command t =
    vbind (vask (CmdInBox command t) (\<lambda>h. h_box H h (CmdInBox command t))) (\<lambda>r. case r of
      BoxTimeout \<Rightarrow> vfail (timed_out t)
    | BoxFailed e \<Rightarrow> vfail (StepFail (''Sandbox command failed: '' @ e))
    | BoxRan out err code d \<Rightarrow>
        vret \<lparr>co_stdout = out, co_stderr = err, co_exit_code = code, co_duration = d\<rparr>)"

definition cmd_on_host :: "V1Host \<Rightarrow> resolved \<Rightarrow> string \<Rightarrow> nat \<Rightarrow> CmdOutput v1" where
  "cmd_on_host H cfg command t =
    vbind (vask (ReadEnv ''PATH'') (\<lambda>h. or_else (h_env H h ''PATH'') [])) (\<lambda>path.
    vbind (vask (ReadEnv ''HOME'') (\<lambda>h. h_env H h ''HOME'')) (\<lambda>home.
    let c = CmdOnHost (or_else (get_str cfg ''shell'') ''/bin/bash'') (get_str cfg ''working_directory'')
              command (full_path path home) t in
    vbind (vask c (\<lambda>h. h_proc H h c)) (\<lambda>r. case r of
      ProcTimeout \<Rightarrow> vfail (timed_out t)
    | ProcSpawn e \<Rightarrow> vfail (StepFail (''Failed to spawn command: '' @ e))
    | ProcRan out err code d \<Rightarrow>
        vret \<lparr>co_stdout = out, co_stderr = err, co_exit_code = or_else code (- 1), co_duration = d\<rparr>)))"

text \<open>\<open>boxed\<close> says whether the executor was given the sandbox.\<close>

definition cmd_execute :: "V1Host \<Rightarrow> bool \<Rightarrow> StepDef \<Rightarrow> resolved \<Rightarrow> Context \<Rightarrow> StepOutput v1" where
  "cmd_execute H boxed s cfg c =
    vbind (vlift (required StCmd ''run'' (field s f_run))) (\<lambda>run.
    vbind (vrender H c run) (\<lambda>command.
    let t = timeout_of cfg 60 in
    vbind (if boxed then cmd_in_box H command t else cmd_on_host H cfg command t) (\<lambda>o'.
    if get_bool cfg ''fail_on_error'' \<and> co_exit_code o' \<noteq> 0
    then vfail (StepFail (''Command failed (exit '' @ show_int (sint (co_exit_code o')) @ ''): '' @ trim (co_stderr o')))
    else vret (OCmd o'))))"

section \<open>Agents\<close>

definition lookup_session_id :: "Context \<Rightarrow> string \<Rightarrow> (StepError, string) result" where
  "lookup_session_id c n =
    ok_or (StepFail (''session not found for step '' @ quoted n))
      (case get_step c n of Some (OAgent a) \<Rightarrow> ag_session_id a | _ \<Rightarrow> None)"

definition resume_of :: "Context \<Rightarrow> string option \<Rightarrow> (StepError, string list) result" where
  "resume_of c target =
    (case target of
       None \<Rightarrow> Inr []
     | Some n \<Rightarrow> res_bind (lookup_session_id c n) (\<lambda>i. Inr [''--resume'', i]))"

definition build_args :: "resolved \<Rightarrow> Context \<Rightarrow> Shared \<Rightarrow> (StepError, string list) result" where
  "build_args cfg c sh =
    (let base = [''-p'', ''--verbose'', ''--output-format'', ''stream-json''] @
         (case get_str cfg ''model'' of None \<Rightarrow> [] | Some m \<Rightarrow> [''--model'', m]) @
         (case get_str cfg ''system_prompt_append'' of None \<Rightarrow> [] | Some sp \<Rightarrow> [''--append-system-prompt'', sp]) @
         (if get_str cfg ''permissions'' = Some ''skip'' then [''--dangerously-skip-permissions''] else []);
         resume = get_str cfg ''resume''; fork = get_str cfg ''fork_session'' in
     res_bind (resume_of c resume) (\<lambda>r.
     res_bind (resume_of c fork) (\<lambda>f.
     Inr (base @ r @ f @
       (if resume = None \<and> fork = None then resume_args (get_str cfg ''session'' = Some ''isolated'') sh else [])))))"

definition stats0 :: AgentStats where
  "stats0 = \<lparr>at_duration = 0, at_input_tokens = 0, at_output_tokens = 0, at_cost_usd = 0, at_turns = 0\<rparr>"

definition agent0 :: AgentOutput where
  "agent0 = \<lparr>ag_response = [], ag_session_id = None, ag_stats = stats0\<rparr>"

definition stream_usage :: "json \<Rightarrow> AgentStats \<Rightarrow> AgentStats" where
  "stream_usage msg st =
    (case jget msg ''usage'' of
       None \<Rightarrow> st
     | Some u \<Rightarrow> st\<lparr>at_input_tokens := or_else (jget_u64 u ''input_tokens'') 0,
         at_output_tokens := or_else (jget_u64 u ''output_tokens'') 0\<rparr>)"

definition parse_stream_line :: "(string \<Rightarrow> json option) \<Rightarrow> AgentOutput \<Rightarrow> string \<Rightarrow> AgentOutput" where
  "parse_stream_line parse out line =
    (case parse line of
       None \<Rightarrow> out
     | Some msg \<Rightarrow>
       if jget_str msg ''type'' \<noteq> Some ''result'' then out
       else
         (let st = stream_usage msg (ag_stats out) in
          out\<lparr>ag_response := or_else (jget_str msg ''result'') (ag_response out),
              ag_session_id := jget_str msg ''session_id'',
              ag_stats := (case Option.bind (jget msg ''cost_usd'') as_f64 of
                None \<Rightarrow> st | Some x \<Rightarrow> st\<lparr>at_cost_usd := x\<rparr>)\<rparr>))"

definition parse_stream :: "(string \<Rightarrow> json option) \<Rightarrow> string list \<Rightarrow> AgentOutput" where
  "parse_stream parse ls = foldl (parse_stream_line parse) agent0 ls"

definition took :: "nat \<Rightarrow> AgentOutput \<Rightarrow> StepOutput" where
  "took d out = OAgent (out\<lparr>ag_stats := (ag_stats out)\<lparr>at_duration := d\<rparr>\<rparr>)"

definition agent_on_host :: "V1Host \<Rightarrow> string \<Rightarrow> string \<Rightarrow> string list \<Rightarrow> nat \<Rightarrow> StepOutput v1" where
  "agent_on_host H prompt command args t =
    (let c = AgentOnHost command args prompt t in
     vbind (vask c (\<lambda>h. h_agent H h c)) (\<lambda>r. case r of
       AgentSpawn e \<Rightarrow> vfail (StepFail (''Failed to spawn '' @ command @ '': '' @ e))
     | AgentStdin e \<Rightarrow> vfail (StepFail (''Failed to write prompt to stdin: '' @ e))
     | AgentTimeout \<Rightarrow> vfail (timed_out t)
     | AgentWait ls e \<Rightarrow> vfail (StepFail (''Failed to wait for claude process: '' @ e))
     | AgentExited ls success code d \<Rightarrow>
         (let out = parse_stream (h_json H) ls in
          if \<not> success \<and> ag_response out = []
          then vfail (StepFail (''Claude Code exited with status '' @ show_int (sint (or_else code (- 1)))))
          else vret (took d out))))"

text \<open>The prompt in single quotes: each quote inside closes, escapes and opens again.\<close>

definition shell_escape :: "string \<Rightarrow> string" where
  "shell_escape s = concat (map (\<lambda>ch. if ch = CHR 0x27 then [CHR 0x27, CHR 0x5C, CHR 0x27, CHR 0x27] else [ch]) s)"

definition box_command :: "string \<Rightarrow> string \<Rightarrow> string list \<Rightarrow> string" where
  "box_command prompt command args =
    ''export HOME=/home/stepyard && echo '' @ [CHR 0x27] @ shell_escape prompt @ [CHR 0x27] @ '' | '' @
    command @ '' '' @ join '' '' args"

definition agent_in_box :: "V1Host \<Rightarrow> string \<Rightarrow> string \<Rightarrow> string list \<Rightarrow> nat \<Rightarrow> StepOutput v1" where
  "agent_in_box H prompt command args t =
    (let c = AgentInBox (box_command prompt command args) ''stepyard'' t in
     vbind (vask c (\<lambda>h. h_box H h c)) (\<lambda>r. case r of
       BoxTimeout \<Rightarrow> vfail (timed_out t)
     | BoxFailed e \<Rightarrow> vfail (StepFail (''Sandbox agent execution failed: '' @ e))
     | BoxRan stdout' err code d \<Rightarrow>
         (let out = parse_stream (h_json H) (str_lines stdout') in
          if code \<noteq> 0 \<and> ag_response out = []
          then vfail (StepFail (''Claude Code in sandbox exited with status '' @ show_int (sint code) @ '': '' @ trim err))
          else vret (took d out))))"

definition agent_execute :: "V1Host \<Rightarrow> bool \<Rightarrow> StepDef \<Rightarrow> resolved \<Rightarrow> Context \<Rightarrow> StepOutput v1" where
  "agent_execute H boxed s cfg c =
    vbind (vlift (required StAgent ''prompt'' (field s f_prompt))) (\<lambda>t.
    vbind (vrender H c t) (\<lambda>prompt.
    vbind vshared (\<lambda>sh.
    vbind (vlift (build_args cfg c sh)) (\<lambda>args.
    let command = or_else (get_str cfg ''command'') ''claude''; t = timeout_of cfg 600 in
    if boxed then agent_in_box H prompt command args t else agent_on_host H prompt command args t))))"

section \<open>Chat\<close>

definition strategy_from_config :: "resolved \<Rightarrow> TruncationStrategy" where
  "strategy_from_config cfg =
    (let n = (\<lambda>k d. or_else (get_u64 cfg k) d); st = get_str cfg ''truncation_strategy'' in
     if st = Some ''last'' then KeepLast (n ''truncation_count'' 10)
     else if st = Some ''first'' then KeepFirst (n ''truncation_count'' 10)
     else if st = Some ''first_last'' then KeepFirstLast (n ''truncation_first'' 2) (n ''truncation_last'' 5)
     else if st = Some ''sliding_window'' then KeepWindow (n ''truncation_max_tokens'' 50000)
     else KeepAll)"

text \<open>A message of the assistant keeps its role, every other becomes one of the user.\<close>

definition to_rig_messages :: "ChatMessage1 list \<Rightarrow> (bool \<times> string) list" where
  "to_rig_messages h = map (\<lambda>m. (role1 m = ''assistant'', content1 m)) h"

definition extract_chat_output :: "string \<Rightarrow> string option list \<Rightarrow> nat \<Rightarrow> nat \<Rightarrow> ChatOutput" where
  "extract_chat_output model items i out =
    \<lparr>ct_response = join [CHR 0x0A] (List.map_filter id items), ct_model = model,
     ct_input_tokens = i, ct_output_tokens = out\<rparr>"

text \<open>The client of a provider with its label in errors; a provider of no name speaks the protocol of OpenAI at the given address.\<close>

definition own_client :: "string \<Rightarrow> string option" where
  "own_client p =
    (if p = ''gemini'' \<or> p = ''google'' then Some ''gemini''
     else if p = ''xai'' \<or> p = ''grok'' then Some ''xai''
     else if p \<in> {''anthropic'', ''openai'', ''ollama'', ''groq'', ''deepseek'', ''cohere'', ''perplexity'', ''mistral''}
     then Some p else None)"

definition rig_client :: "string \<Rightarrow> string \<Rightarrow> string option \<Rightarrow> (StepError, string \<times> string \<times> string option \<times> string option) result" where
  "rig_client p key url =
    (case own_client p of
       Some k \<Rightarrow>
         if k = ''ollama'' then Inr (k, k, None, Some (or_else url ''http://localhost:11434'')) else Inr (k, k, Some key, url)
     | None \<Rightarrow>
       (case url of
          None \<Rightarrow> Inl (StepFail (''Unknown provider '' @ quoted p @ '': set '' @ quoted ''base_url'' @
            '' to use as OpenAI-compatible endpoint''))
        | Some u \<Rightarrow> Inr (''openai'', p, Some key, Some u)))"

definition call_via_rig ::
  "V1Host \<Rightarrow> string \<Rightarrow> string \<Rightarrow> string \<Rightarrow> string option \<Rightarrow> (bool \<times> string) list \<Rightarrow> string \<Rightarrow> 64 word \<Rightarrow> nat \<Rightarrow> nat \<Rightarrow>
    StepOutput v1" where
  "call_via_rig H p model key url msgs prompt temp mx t =
    vbind (vlift (rig_client p key url)) (\<lambda>(client, label, k, u).
    let rq = \<lparr>rq_client = client, rq_key = k, rq_url = u, rq_model = model, rq_prompt = prompt, rq_messages = msgs,
          rq_temperature = temp, rq_max_tokens = mx, rq_timeout = t\<rparr> in
    vbind (vask (ChatRequest rq) (\<lambda>h. h_rig H h rq)) (\<lambda>r. case r of
      RigTimeout \<Rightarrow> vfail (timed_out t)
    | RigBuild e \<Rightarrow> vfail (StepFail (''Failed to build '' @ label @ '' client: '' @ e))
    | RigError e \<Rightarrow> vfail (StepFail (label @ '' API error: '' @ e))
    | RigDone items i out \<Rightarrow> vret (OChat (extract_chat_output model items i out))))"

definition default_model :: "string \<Rightarrow> string" where
  "default_model p =
    (if p = ''openai'' then ''gpt-4o-mini''
     else if p = ''ollama'' then ''llama3.2''
     else if p = ''groq'' then ''llama-3.3-70b-versatile''
     else if p = ''deepseek'' then ''deepseek-chat''
     else if p = ''gemini'' \<or> p = ''google'' then ''gemini-2.0-flash''
     else ''claude-3-haiku-20240307'')"

definition key_variable :: "string \<Rightarrow> string" where
  "key_variable p =
    (if p = ''openai'' then ''OPENAI_API_KEY''
     else if p = ''groq'' then ''GROQ_API_KEY''
     else if p = ''deepseek'' then ''DEEPSEEK_API_KEY''
     else if p = ''gemini'' \<or> p = ''google'' then ''GEMINI_API_KEY''
     else if p = ''cohere'' then ''COHERE_API_KEY''
     else if p = ''perplexity'' then ''PERPLEXITY_API_KEY''
     else if p = ''xai'' \<or> p = ''grok'' then ''XAI_API_KEY''
     else if p = ''mistral'' then ''MISTRAL_API_KEY''
     else ''ANTHROPIC_API_KEY'')"

definition chat_api_key :: "V1Host \<Rightarrow> string \<Rightarrow> resolved \<Rightarrow> string v1" where
  "chat_api_key H p cfg =
    (if p = ''ollama'' then vret []
     else
       (let v = or_else (get_str cfg ''api_key_env'') (key_variable p) in
        vbind (vask (ReadEnv v) (\<lambda>h. h_env H h v)) (\<lambda>k. case k of
          None \<Rightarrow> vfail (StepFail (''API key not found: environment variable '' @ quoted v @ '' is not set''))
        | Some k \<Rightarrow> vret k)))"

definition chat_base_url :: "string \<Rightarrow> resolved \<Rightarrow> string option" where
  "chat_base_url p cfg =
    (case get_str cfg ''base_url'' of
       Some u \<Rightarrow> Some u
     | None \<Rightarrow>
       if p = ''anthropic'' then get_str cfg ''anthropic_base_url''
       else if p = ''openai'' then get_str cfg ''openai_base_url'' else None)"

definition chat_history :: "resolved \<Rightarrow> (bool \<times> string) list v1" where
  "chat_history cfg =
    (case get_str cfg ''session'' of
       None \<Rightarrow> vret []
     | Some n \<Rightarrow>
       vbind vshared (\<lambda>sh.
       case truncate_messages (get_chat_messages sh n) (strategy_from_config cfg) of
         None \<Rightarrow> vpanic
       | Some ms \<Rightarrow> vret (to_rig_messages ms)))"

definition remember_turn :: "resolved \<Rightarrow> string \<Rightarrow> string \<Rightarrow> unit v1" where
  "remember_turn cfg prompt response =
    (case get_str cfg ''session'' of
       None \<Rightarrow> vret ()
     | Some n \<Rightarrow>
       vbind vshared (\<lambda>sh. vset_shared (append_chat_messages n
         [\<lparr>role1 = ''user'', content1 = prompt\<rparr>, \<lparr>role1 = ''assistant'', content1 = response\<rparr>] sh)))"

definition chat_execute :: "V1Host \<Rightarrow> StepDef \<Rightarrow> resolved \<Rightarrow> Context \<Rightarrow> StepOutput v1" where
  "chat_execute H s cfg c =
    (let p = or_else (get_str cfg ''provider'') ''anthropic'';
         model = or_else (get_str cfg ''model'') (default_model p);
         mx = or_else (get_u64 cfg ''max_tokens'') 1024;
         temp = or_else (Option.bind (map_of cfg ''temperature'') as_f64) 0;
         t = timeout_of cfg 120 in
     vbind (chat_api_key H p cfg) (\<lambda>key.
     vbind (vlift (required StChat ''prompt'' (field s f_prompt))) (\<lambda>tmpl.
     vbind (vrender H c tmpl) (\<lambda>prompt.
     vbind (chat_history cfg) (\<lambda>msgs.
     vbind (call_via_rig H p model key (chat_base_url p cfg) msgs prompt temp mx t) (\<lambda>o'.
     vbind (remember_turn cfg prompt (text_of o')) (\<lambda>_. vret o')))))))"

section \<open>Gates\<close>

definition truthy :: "string \<Rightarrow> bool" where
  "truthy s \<longleftrightarrow> lower_text (trim s) \<in> {''true'', ''1'', ''yes'', ''ok''}"

definition gate_action :: "StepDef \<Rightarrow> bool \<Rightarrow> (StepError, StepOutput) result" where
  "gate_action s passed =
    (let act = or_else (if passed then field s f_on_pass else field s f_on_fail) ''continue'';
         msg = field s f_message in
     if act = ''break'' then Inl (Flow (Break (or_else msg ''gate break'') None))
     else if act = ''fail'' then Inl (Flow (FlowFail (or_else msg ''gate failed'')))
     else if act = ''skip'' \<or> act = ''skip_next'' then Inl (Flow (Skip (or_else msg ''gate skip'')))
     else Inr (OGate \<lparr>gt_passed = passed, gt_message = msg\<rparr>))"

definition gate_execute :: "V1Host \<Rightarrow> StepDef \<Rightarrow> Context \<Rightarrow> StepOutput v1" where
  "gate_execute H s c =
    vbind (vlift (required StGate ''condition'' (field s f_condition))) (\<lambda>t.
    vbind (vrender H c t) (\<lambda>r. vlift (gate_action s (truthy r))))"

section \<open>Templates and scripts\<close>

definition template_execute :: "V1Host \<Rightarrow> string option \<Rightarrow> StepDef \<Rightarrow> Context \<Rightarrow> StepOutput v1" where
  "template_execute H dir s c =
    vbind (case field s f_prompt of Some t \<Rightarrow> vrender H c t | None \<Rightarrow> vret (field s f_name)) (\<lambda>n.
    let path = join_path (or_else dir ''prompts'') (n @ ''.md.tera'') in
    vbind (vask (ReadTemplate path) (\<lambda>h. te_read (h_tpl H h) path)) (\<lambda>r. case r of
      Inl e \<Rightarrow> vfail (StepFail (''Template file not found: '' @ quoted path @ '': '' @ e))
    | Inr text \<Rightarrow> vbind (vrender H c text) (\<lambda>out. vret (OTemplate out))))"

text \<open>The flat map of \<open>ctx_get\<close>: the fields of every step, and the target.\<close>

definition ctx_snapshot :: "Shared \<Rightarrow> Context \<Rightarrow> (string \<times> json) list" where
  "ctx_snapshot sh c =
    (let m = to_tera sh c;
         flat = (case m ''steps'' of
           Some (JObj steps) \<Rightarrow>
             concat (map (\<lambda>(n, v). case v of JObj fs \<Rightarrow> map (\<lambda>(k, j). (n @ ''.'' @ k, j)) fs | _ \<Rightarrow> []) steps)
         | _ \<Rightarrow> []) in
     insert_pairs [] (flat @ (case m ''target'' of Some j \<Rightarrow> [(''target'', j)] | None \<Rightarrow> [])))"

text \<open>Rhai evaluates with a bound of a million operations; what \<open>ctx_set\<close> writes is dropped.\<close>

definition script_execute :: "V1Host \<Rightarrow> StepDef \<Rightarrow> Context \<Rightarrow> StepOutput v1" where
  "script_execute H s c =
    vbind (vlift (required StScript ''run'' (field s f_run))) (\<lambda>src.
    vbind vshared (\<lambda>sh.
    vbind (vask (RunScript src) (\<lambda>h. h_rhai H (ctx_snapshot sh c) src)) (\<lambda>r. case r of
      Inl e \<Rightarrow> vfail (StepFail (''Script error: '' @ e))
    | Inr v \<Rightarrow> vret (cmd_text (dynamic_to_string v)))))"

end
