(* ===== verification/V1Scopes.thy ===== *)
theory V1Scopes
  imports V1Steps
begin

text \<open>
  The containers of the version 1 engine, \<open>src/steps/{call,repeat,map,parallel}.rs\<close>. A scope may run
  scopes, so the executors recurse through the names of the workflow's scopes: the recursion has fuel, and
  without it the run has no result. The tasks of \<open>map\<close> and \<open>parallel\<close> share nothing but the world
  outside: each runs on a history of its own, which its parent's continues; the order in which they end, who
  is caught by an abort and how far it came is the host's.
\<close>

record V1Exec =
  x_host :: V1Host
  x_yaml :: YamlLib
  x_re :: "string \<Rightarrow> (string \<Rightarrow> bool) option"
  x_scopes :: "(string \<times> ScopeDef) list"
  x_config :: "WorkflowConfig option"
  x_boxed :: bool
  x_print :: "json \<Rightarrow> string"
  x_show_f64 :: "64 word \<Rightarrow> string"
  x_rank :: "history \<Rightarrow> nat \<Rightarrow> nat"
  x_panic :: "history \<Rightarrow> nat \<Rightarrow> string option"
  x_late :: "history \<Rightarrow> nat \<Rightarrow> bool"
  x_cut :: "history \<Rightarrow> nat \<Rightarrow> nat"

section \<open>What the containers share\<close>

definition inline_config :: "V1Exec \<Rightarrow> StepDef \<Rightarrow> resolved" where
  "inline_config X s = insert_all (x_yaml X) [] (field s f_config)"

definition scope_step_config :: "V1Exec \<Rightarrow> StepDef \<Rightarrow> resolved" where
  "scope_step_config X s =
    (case x_config X of
       Some cm \<Rightarrow> resolve (x_yaml X) (x_re X) cm (field s f_name) (field s f_type) (field s f_config)
     | None \<Rightarrow> inline_config X s)"

definition target_of :: "Context \<Rightarrow> string" where
  "target_of c = (case get_var c ''target'' of Some (JStr t) \<Rightarrow> t | _ \<Rightarrow> [])"

text \<open>A context of its own, with the variables of the parent, its stack and its prompts.\<close>

definition scoped_context :: "Context \<Rightarrow> json \<Rightarrow> nat \<Rightarrow> Context" where
  "scoped_context c v i =
    on_frame (\<lambda>f. f\<lparr>fr_scope_value := Some v, fr_scope_index := i, fr_stack := get_stack_info c,
        fr_prompts_dir := fr_prompts_dir (frame c)\<rparr>) (new_context (target_of c) (all_variables c))"

text \<open>\<open>Context::new\<close> makes what it shares anew; the parent's is untouched.\<close>

definition fresh :: "'a v1 \<Rightarrow> 'a v1" where
  "fresh m s =
    (case m (s\<lparr>v_shared := shared0\<rparr>) of
       None \<Rightarrow> None | Some (r, s') \<Rightarrow> Some (r, s'\<lparr>v_shared := v_shared s\<rparr>))"

definition store_in :: "string \<Rightarrow> StepOutput \<Rightarrow> Context \<Rightarrow> Context v1" where
  "store_in n v c =
    vbind vshared (\<lambda>sh. let (c', sh') = store_output n v c sh in vbind (vset_shared sh') (\<lambda>_. vret c'))"

type_synonym runner = "StepDef \<Rightarrow> Context \<Rightarrow> StepOutput v1"

text \<open>The loop over the steps of a scope: the context at its end, the last output, and whether a step said break.\<close>

fun scope_body :: "runner \<Rightarrow> StepDef list \<Rightarrow> Context \<Rightarrow> StepOutput \<Rightarrow> (Context \<times> StepOutput \<times> bool) v1" where
  "scope_body d [] c last_output = vret (c, last_output, False)"
| "scope_body d (s # ss) c last_output =
    vbind (vtry (d s c)) (\<lambda>r. case r of
      Inr v \<Rightarrow> vbind (store_in (field s f_name) v c) (\<lambda>c'. scope_body d ss c' v)
    | Inl (Flow (Break m v)) \<Rightarrow> vret (c, or_else v last_output, True)
    | Inl (Flow (Skip m)) \<Rightarrow> vbind (store_in (field s f_name) OEmpty c) (\<lambda>c'. scope_body d ss c' last_output)
    | Inl (Flow (Next m)) \<Rightarrow> vret (c, last_output, False)
    | Inl e \<Rightarrow> vfail e)"

definition scope_output :: "V1Exec \<Rightarrow> ScopeDef \<Rightarrow> Context \<Rightarrow> StepOutput \<Rightarrow> StepOutput v1" where
  "scope_output X sc c last_output =
    (case sd_outputs sc of
       None \<Rightarrow> vret last_output
     | Some t \<Rightarrow> vbind (vtry (vrender (x_host X) c t)) (\<lambda>r.
         vret (case r of Inr out \<Rightarrow> cmd_text out | Inl e \<Rightarrow> last_output)))"

definition named_scope :: "V1Exec \<Rightarrow> StepDef \<Rightarrow> (StepError, ScopeDef) result" where
  "named_scope X s =
    res_bind (required (field s f_type) ''scope'' (field s f_scope)) (\<lambda>n.
      ok_or (StepFail (''scope '' @ quoted n @ '' not found'')) (map_of (x_scopes X) n))"

definition scope_result :: "(nat \<times> StepOutput) list \<Rightarrow> StepOutput" where
  "scope_result its = OScope its (if its = [] then None else Some (snd (last its)))"

section \<open>Call and repeat\<close>

definition call_execute :: "runner \<Rightarrow> V1Exec \<Rightarrow> StepDef \<Rightarrow> Context \<Rightarrow> StepOutput v1" where
  "call_execute d X s c =
    vbind (vlift (named_scope X s)) (\<lambda>sc. fresh (
      vbind (scope_body d (sd_steps sc) (new_context (target_of c) []) OEmpty) (\<lambda>(c', last_output, brk).
      vbind (scope_output X sc c' last_output) (\<lambda>v. vret (OScope [(0, v)] (Some v))))))"

definition repeat_iteration :: "runner \<Rightarrow> V1Exec \<Rightarrow> ScopeDef \<Rightarrow> Context \<Rightarrow> json \<Rightarrow> nat \<Rightarrow> (StepOutput \<times> bool) v1" where
  "repeat_iteration d X sc c v i = fresh (
    vbind (scope_body d (sd_steps sc) (scoped_context c v i) OEmpty) (\<lambda>(c', last_output, brk).
    vbind (scope_output X sc c' last_output) (\<lambda>out. vret (out, brk))))"

fun repeat_from :: "runner \<Rightarrow> V1Exec \<Rightarrow> ScopeDef \<Rightarrow> Context \<Rightarrow> nat \<Rightarrow> nat \<Rightarrow> json \<Rightarrow> (nat \<times> StepOutput) list v1" where
  "repeat_from d X sc c 0 i v = vret []"
| "repeat_from d X sc c (Suc k) i v =
    vbind (repeat_iteration d X sc c v i) (\<lambda>(out, brk).
      if brk then vret [(i, out)]
      else vbind (repeat_from d X sc c k (Suc i) (JStr (text_of out))) (\<lambda>its. vret ((i, out) # its)))"

definition repeat_execute :: "runner \<Rightarrow> V1Exec \<Rightarrow> StepDef \<Rightarrow> Context \<Rightarrow> StepOutput v1" where
  "repeat_execute d X s c =
    vbind (vlift (named_scope X s)) (\<lambda>sc.
    vbind (repeat_from d X sc c (or_else (field s f_max_iterations) 3) 0
        (case field s f_initial_value of None \<Rightarrow> JNull | Some y \<Rightarrow> yaml_json (x_yaml X) y)) (\<lambda>its.
    vret (scope_result its)))"

text \<open>The steps a scope may hold.\<close>

primrec dispatch_scope_step :: "nat \<Rightarrow> V1Exec \<Rightarrow> runner" where
  "dispatch_scope_step 0 X = (\<lambda>s c. vpanic)"
| "dispatch_scope_step (Suc n) X = (\<lambda>s c.
    (let cfg = scope_step_config X s; d = dispatch_scope_step n X in
     (case field s f_type of
        StCmd \<Rightarrow> cmd_execute (x_host X) (x_boxed X) s cfg c
      | StAgent \<Rightarrow> agent_execute (x_host X) (x_boxed X) s cfg c
      | StGate \<Rightarrow> gate_execute (x_host X) s c
      | StChat \<Rightarrow> chat_execute (x_host X) s cfg c
      | StRepeat \<Rightarrow> repeat_execute d X s c
      | StCall \<Rightarrow> call_execute d X s c
      | t \<Rightarrow> vfail (StepFail (''Step type '' @ quoted (show_step_type t) @ '' not supported in scope'')))))"

section \<open>Tasks\<close>

definition run_task :: "V1State \<Rightarrow> nat \<Rightarrow> 'a v1 \<Rightarrow> ((StepError, 'a) result \<times> history) option" where
  "run_task s i m =
    (case m \<lparr>v_hist = v_hist s @ [Task i], v_shared = shared0\<rparr> of
       None \<Rightarrow> None | Some (r, s') \<Rightarrow> Some (r, drop (length (v_hist s)) (v_hist s')))"

text \<open>What a task delivers: its result, or the message of its panic.\<close>

type_synonym 'a delivery = "(string, (StepError, 'a) result) result"

text \<open>The tasks in the order they end.\<close>

definition finish_order :: "V1Exec \<Rightarrow> history \<Rightarrow> nat \<Rightarrow> nat list" where
  "finish_order X h n = sort_key (x_rank X h) [0..<n]"

definition deliver :: "V1Exec \<Rightarrow> history \<Rightarrow> ((StepError, 'a) result \<times> history) list \<Rightarrow> nat \<Rightarrow> 'a delivery" where
  "deliver X h rs i = (case x_panic X h i of Some m \<Rightarrow> Inl m | None \<Rightarrow> Inr (fst (rs ! i)))"

text \<open>The calls of the tasks that ended and of those that were aborted.\<close>

definition task_calls :: "V1Exec \<Rightarrow> history \<Rightarrow> ((StepError, 'a) result \<times> history) list \<Rightarrow> nat list \<Rightarrow> nat list \<Rightarrow> history" where
  "task_calls X h rs ended aborted =
    concat (map (\<lambda>i. snd (rs ! i)) ended) @ concat (map (\<lambda>i. take (x_cut X h i) (snd (rs ! i))) aborted)"

text \<open>All tasks run; if one does not return, neither does the join.\<close>

definition spawn_all :: "(nat \<Rightarrow> 'a v1) \<Rightarrow> nat \<Rightarrow> V1State \<Rightarrow> ((StepError, 'a) result \<times> history) list option" where
  "spawn_all ms n s = those (map (\<lambda>i. run_task s i (ms i)) [0..<n])"

section \<open>Map\<close>

definition map_items :: "V1Exec \<Rightarrow> string \<Rightarrow> string list" where
  "map_items X r =
    (if starts_with (trim r) ''['' then
       (case h_json (x_host X) r of
          Some (JArr vs) \<Rightarrow> map (\<lambda>v. case v of JStr t \<Rightarrow> t | _ \<Rightarrow> x_print X v) vs
        | _ \<Rightarrow> filter (\<lambda>l. trim l \<noteq> []) (str_lines r))
     else filter (\<lambda>l. trim l \<noteq> []) (str_lines r))"

definition execute_scope_steps :: "runner \<Rightarrow> V1Exec \<Rightarrow> ScopeDef \<Rightarrow> Context \<Rightarrow> StepOutput v1" where
  "execute_scope_steps d X sc c =
    vbind (scope_body d (sd_steps sc) c OEmpty) (\<lambda>(c', last_output, brk). scope_output X sc c' last_output)"

fun serial_execute :: "runner \<Rightarrow> V1Exec \<Rightarrow> ScopeDef \<Rightarrow> Context \<Rightarrow> nat \<Rightarrow> string list \<Rightarrow> (nat \<times> StepOutput) list v1" where
  "serial_execute d X sc c i [] = vret []"
| "serial_execute d X sc c i (item # items) =
    vbind (fresh (execute_scope_steps d X sc (scoped_context c (JStr item) i))) (\<lambda>out.
    vbind (serial_execute d X sc c (Suc i) items) (\<lambda>its. vret ((i, out) # its)))"

text \<open>The loop of \<open>join_next\<close>: it returns on the first error, and the rest is aborted.\<close>

fun first_error :: "(nat \<Rightarrow> 'a delivery) \<Rightarrow> nat list \<Rightarrow> nat list \<Rightarrow> (StepError \<times> nat list \<times> nat list) option" where
  "first_error f ended [] = None"
| "first_error f ended (i # is) =
    (case f i of
       Inl m \<Rightarrow> Some (StepFail (''Task panicked: '' @ m), ended @ [i], is)
     | Inr (Inl e) \<Rightarrow> Some (e, ended @ [i], is)
     | Inr (Inr v) \<Rightarrow> first_error f (ended @ [i]) is)"

definition parallel_execute :: "runner \<Rightarrow> V1Exec \<Rightarrow> ScopeDef \<Rightarrow> Context \<Rightarrow> string list \<Rightarrow> (nat \<times> StepOutput) list v1" where
  "parallel_execute d X sc c items s =
    (let n = length items; h = v_hist s in
     (case spawn_all (\<lambda>i. execute_scope_steps d X sc (scoped_context c (JStr (items ! i)) i)) n s of
        None \<Rightarrow> None
      | Some rs \<Rightarrow>
        (case first_error (deliver X h rs) [] (finish_order X h n) of
           Some (e, ended, aborted) \<Rightarrow>
             Some (Inl e, s\<lparr>v_hist := h @ task_calls X h rs ended aborted\<rparr>)
         | None \<Rightarrow>
             Some (Inr (map (\<lambda>i. (i, case fst (rs ! i) of Inr v \<Rightarrow> v | Inl e \<Rightarrow> OEmpty)) [0..<n]),
               s\<lparr>v_hist := h @ task_calls X h rs (finish_order X h n) []\<rparr>))))"

section \<open>Reduce and collect\<close>

text \<open>\<open>str::replace\<close> of a pattern that is not empty.\<close>

function replace_sub :: "string \<Rightarrow> string \<Rightarrow> string \<Rightarrow> string" where
  "replace_sub pat rep s =
    (case find_sub pat s of
       None \<Rightarrow> s
     | Some i \<Rightarrow> if pat = [] then s else take i s @ rep @ replace_sub pat rep (drop (i + length pat) s))"
  by pat_completeness auto

termination
proof (relation "measure (\<lambda>(pat, rep, s). length s)", goal_cases)
  case (2 pat rep s i)
  then show ?case using find_sub_SomeD [of pat s i] by (cases pat) auto
qed simp

declare replace_sub.simps [simp del]

definition f64_text :: "V1Exec \<Rightarrow> 64 word \<Rightarrow> string" where
  "f64_text X w = (if f64_integral w then show_int (f64_as_i64 w) else x_show_f64 X w)"

definition numbers_of :: "StepOutput list \<Rightarrow> 64 word list" where
  "numbers_of outs = List.map_filter (\<lambda>v. parse_f64 (trim (text_of v))) outs"

definition f64_sum :: "StepOutput list \<Rightarrow> 64 word" where
  "f64_sum outs = foldl (\<lambda>a v. f64_add a (or_else (parse_f64 (trim (text_of v))) 0)) 0 outs"

definition item_output_expr :: "string \<Rightarrow> string" where
  "item_output_expr t =
    replace_sub ''{{ item.output }}'' ''{{ item_output }}'' (replace_sub ''{{item.output}}'' ''{{ item_output }}'' t)"

definition keeps :: "string \<Rightarrow> bool" where
  "keeps r \<longleftrightarrow> trim r \<noteq> [] \<and> trim r \<noteq> ''false'' \<and> trim r \<noteq> ''0''"

fun filter_outputs :: "V1Exec \<Rightarrow> string \<Rightarrow> StepOutput list \<Rightarrow> string list v1" where
  "filter_outputs X t [] = vret []"
| "filter_outputs X t (v # vs) =
    vbind (vtry (fresh (vrender (x_host X) (new_context [] [(''item_output'', JStr (text_of v))]) (item_output_expr t)))) (\<lambda>r.
    vbind (filter_outputs X t vs) (\<lambda>rest.
      vret (if keeps (case r of Inr out \<Rightarrow> out | Inl e \<Rightarrow> []) then text_of v # rest else rest)))"

definition apply_reduce :: "V1Exec \<Rightarrow> (nat \<times> StepOutput) list \<Rightarrow> string \<Rightarrow> string option \<Rightarrow> StepOutput v1" where
  "apply_reduce X its how cond =
    (let outs = map snd its; done = (\<lambda>t. vret (cmd_text t)) in
     if how = ''concat'' then done (join [CHR 0x0A] (map text_of outs))
     else if how = ''sum'' then done (f64_text X (f64_sum outs))
     else if how = ''count'' then done (show_nat (length outs))
     else if how = ''min'' then done (f64_text X (foldl f64_min (f64_signed False f64_infinity) (numbers_of outs)))
     else if how = ''max'' then done (f64_text X (foldl f64_max (f64_signed True f64_infinity) (numbers_of outs)))
     else if how = ''filter'' then
       (case cond of
          None \<Rightarrow> vfail (StepFail (''reduce: '' @ quoted ''filter'' @ '' requires '' @ quoted ''reduce_condition'' @ '' to be set''))
        | Some t \<Rightarrow> vbind (filter_outputs X t outs) (\<lambda>kept. done (join [CHR 0x0A] kept)))
     else vfail (StepFail (''unknown reduce operation '' @ quoted how @
       ''; expected concat, sum, count, filter, min, max'')))"

definition apply_collect :: "V1Exec \<Rightarrow> (nat \<times> StepOutput) list \<Rightarrow> string \<Rightarrow> (StepError, StepOutput) result" where
  "apply_collect X its mode =
    (if mode = ''text'' then Inr (cmd_text (join [CHR 0x0A] (map (\<lambda>(i, v). text_of v) its)))
     else if mode = ''all'' \<or> mode = ''json''
     then Inr (cmd_text (x_print X (JArr (map (\<lambda>(i, v). JStr (text_of v)) its))))
     else Inl (StepFail (''unknown collect mode '' @ quoted mode @ ''; expected all, text, or json'')))"

definition map_execute :: "runner \<Rightarrow> V1Exec \<Rightarrow> StepDef \<Rightarrow> resolved \<Rightarrow> Context \<Rightarrow> StepOutput v1" where
  "map_execute d X s cfg c =
    vbind (vlift (required StMap ''items'' (field s f_items))) (\<lambda>t.
    vbind (vlift (named_scope X s)) (\<lambda>sc.
    vbind (vrender (x_host X) c t) (\<lambda>r.
    let items = map_items X r in
    vbind (if or_else (field s f_parallel) 0 = 0 then serial_execute d X sc c 0 items
           else parallel_execute d X sc c items) (\<lambda>its.
    case get_str cfg ''reduce'' of
      Some how \<Rightarrow> apply_reduce X its how (get_str cfg ''reduce_condition'')
    | None \<Rightarrow>
      (case get_str cfg ''collect'' of
         Some mode \<Rightarrow> vlift (apply_collect X its mode)
       | None \<Rightarrow> vret (scope_result its))))))"

section \<open>Parallel\<close>

text \<open>A branch runs on its inline configuration alone, whatever was resolved for it.\<close>

definition dispatch_branch :: "V1Exec \<Rightarrow> runner" where
  "dispatch_branch X s c =
    (let cfg = inline_config X s in
     (case field s f_type of
        StCmd \<Rightarrow> cmd_execute (x_host X) (x_boxed X) s cfg c
      | StAgent \<Rightarrow> agent_execute (x_host X) (x_boxed X) s cfg c
      | StGate \<Rightarrow> gate_execute (x_host X) s c
      | StChat \<Rightarrow> chat_execute (x_host X) s cfg c
      | t \<Rightarrow> vfail (StepFail (''Step type '' @ quoted (show_step_type t) @ '' not supported in parallel''))))"

text \<open>
  The loop that drains the tasks: the outputs by name, the error, and who ended or was aborted. After the
  first error a task still delivers when it had ended before the abort reached it, and its error replaces
  the one before; a task that was cancelled leaves the error as it is.
\<close>

record Drained =
  dr_outputs :: "(string \<times> StepOutput) list"
  dr_error :: "StepError option"
  dr_ended :: "nat list"
  dr_aborted :: "nat list"

definition drain_one :: "(nat \<Rightarrow> string) \<Rightarrow> (nat \<Rightarrow> bool) \<Rightarrow> (nat \<Rightarrow> StepOutput delivery) \<Rightarrow> Drained \<Rightarrow> nat \<Rightarrow> Drained" where
  "drain_one name late f D i =
    (if dr_error D \<noteq> None \<and> \<not> late i then D\<lparr>dr_aborted := dr_aborted D @ [i]\<rparr>
     else
       (let E = D\<lparr>dr_ended := dr_ended D @ [i]\<rparr> in
        (case f i of
           Inr (Inr v) \<Rightarrow> E\<lparr>dr_outputs := AList.update (name i) v (dr_outputs D)\<rparr>
         | Inr (Inl (Flow (Skip m))) \<Rightarrow> E\<lparr>dr_outputs := AList.update (name i) OEmpty (dr_outputs D)\<rparr>
         | Inr (Inl e) \<Rightarrow> E\<lparr>dr_error := Some e\<rparr>
         | Inl m \<Rightarrow>
             (if dr_error D = None then E\<lparr>dr_error := Some (StepFail (''Parallel task panicked: '' @ m))\<rparr> else E))))"

definition parallel_step :: "V1Exec \<Rightarrow> StepDef \<Rightarrow> Context \<Rightarrow> StepOutput v1" where
  "parallel_step X s c =
    vbind (vlift (required StParallel ''steps'' (sub_steps s))) (\<lambda>ss st.
      (let n = length ss; h = v_hist st in
       (case spawn_all (\<lambda>i. dispatch_branch X (ss ! i) (new_context (target_of c) [])) n st of
          None \<Rightarrow> None
        | Some rs \<Rightarrow>
          (let D = foldl (drain_one (\<lambda>i. field (ss ! i) f_name) (x_late X h) (deliver X h rs))
                 \<lparr>dr_outputs = [], dr_error = None, dr_ended = [], dr_aborted = []\<rparr> (finish_order X h n);
               st' = st\<lparr>v_hist := h @ task_calls X h rs (dr_ended D) (dr_aborted D)\<rparr> in
           (case dr_error D of
              Some e \<Rightarrow> Some (Inl e, st')
            | None \<Rightarrow>
              Some (Inr (if ss = [] then OEmpty else or_else (map_of (dr_outputs D) (field (last ss) f_name)) OEmpty), st'))))))"

end
