(* ===== verification/V1Laws.thy ===== *)
theory V1Laws
  imports V1Engine Validator
begin

text \<open>
  Rules for the runs of the version 1 engine: which computations return (\<open>returns\<close>) and which calls of
  the outside a computation may make (\<open>calls_only\<close>).
\<close>

named_theorems v1_returns
named_theorems v1_calls

section \<open>Computations that return\<close>

definition returns :: "('s, 'e, 'a) vm \<Rightarrow> bool" where
  "returns m \<longleftrightarrow> (\<forall>s. m s \<noteq> None)"

lemma returns_basic [v1_returns]:
  "returns (vret a)" "returns (vfail e)" "returns (vlift r)" "returns (vask c f)" "returns vshared"
  "returns (vset_shared sh)" "returns (zask g)" "returns (zget h)" "returns (zmod k)"
  by (simp_all add: returns_def vret_def vfail_def vlift_def vask_def vshared_def vset_shared_def
      zask_def zget_def zmod_def)

lemma returns_bind [v1_returns]: "returns m \<Longrightarrow> (\<And>a. returns (f a)) \<Longrightarrow> returns (vbind m f)"
  by (auto simp: returns_def vbind_def split: option.split sum.split)

lemma returns_try [v1_returns]: "returns m \<Longrightarrow> returns (vtry m)"
  by (auto simp: returns_def vtry_def split: option.split)

lemma returns_zrun [v1_returns]: "returns m \<Longrightarrow> returns (zrun m)"
  by (auto simp: returns_def zrun_def split: option.split)

lemma returns_zmap_err [v1_returns]: "returns m \<Longrightarrow> returns (zmap_err g m)"
  by (auto simp: returns_def zmap_err_def split: option.split)

lemma returns_fresh [v1_returns]: "returns m \<Longrightarrow> returns (fresh m)"
  by (auto simp: returns_def fresh_def split: option.split)

lemma returns_Let [v1_returns]: "(\<And>x. x = t \<Longrightarrow> returns (f x)) \<Longrightarrow> returns (Let t f)"
  by simp

lemma returns_render [v1_returns]: "returns (vrender H c t)"
  unfolding vrender_def by (intro v1_returns)

lemma returns_store_in [v1_returns]: "returns (store_in n v c)"
  unfolding store_in_def by (auto intro!: v1_returns split: prod.split)

section \<open>The single steps return\<close>

lemma returns_cmd [v1_returns]: "returns (cmd_execute H b s cfg c)"
  unfolding cmd_execute_def cmd_in_box_def cmd_on_host_def Let_def
  by (auto intro!: v1_returns split: BoxReply.split ProcReply.split)

lemma returns_agent [v1_returns]: "returns (agent_execute H b s cfg c)"
  unfolding agent_execute_def agent_in_box_def agent_on_host_def Let_def
  by (auto intro!: v1_returns split: BoxReply.split AgentReply.split)

lemma returns_gate [v1_returns]: "returns (gate_execute H s c)"
  unfolding gate_execute_def by (intro v1_returns)

lemma returns_template [v1_returns]: "returns (template_execute H d s c)"
  unfolding template_execute_def Let_def by (auto intro!: v1_returns split: option.split sum.split)

lemma returns_script [v1_returns]: "returns (script_execute H s c)"
  unfolding script_execute_def by (auto intro!: v1_returns split: sum.split)

text \<open>The truncation of a history does not panic.\<close>

lemma window_drops1_some: "used = sum_list ts \<Longrightarrow> \<exists>k. window_drops1 m used ts = Some k \<and> k \<le> length ts"
proof (induction ts arbitrary: used)
  case (Cons t ts)
  then obtain k where "window_drops1 m (used - t) ts = Some k" "k \<le> length ts" by fastforce
  then show ?case using Cons.prems by simp
qed simp

lemma truncate_messages_some: "truncate_messages h st \<noteq> None"
proof (cases st)
  case (KeepWindow m)
  obtain k where "window_drops1 m (sum_list (map (\<lambda>x. estimate_tokens (content1 x)) h))
      (map (\<lambda>x. estimate_tokens (content1 x)) h) = Some k" "k \<le> length h"
    using window_drops1_some [OF refl, of m "map (\<lambda>x. estimate_tokens (content1 x)) h"] by auto
  then show ?thesis using KeepWindow
    by (auto simp: truncate_messages_def Let_def slice_from_def split: option.split)
qed (auto simp: truncate_messages_def slice_from_def Let_def)

lemma returns_chat [v1_returns]: "returns (chat_execute H s cfg c)"
proof -
  have hist: "returns (chat_history cfg)"
    unfolding chat_history_def
    by (auto intro!: v1_returns simp: truncate_messages_some split: option.split)
  have key: "returns (chat_api_key H p cfg)" for p
    unfolding chat_api_key_def Let_def by (auto intro!: v1_returns split: option.split)
  have rig: "returns (call_via_rig H p model key url msgs prompt temp mx t)" for p model key url msgs prompt temp mx t
    unfolding call_via_rig_def Let_def by (auto intro!: v1_returns split: prod.split RigReply.split)
  have turn: "returns (remember_turn cfg p r)" for p r
    unfolding remember_turn_def by (auto intro!: v1_returns split: option.split)
  show ?thesis
    unfolding chat_execute_def Let_def by (intro v1_returns hist key rig turn)
qed

section \<open>The containers return when the steps of their scopes do\<close>

lemma returns_body: "(\<And>s c. s \<in> set ss \<Longrightarrow> returns (d s c)) \<Longrightarrow> returns (scope_body d ss c v)"
proof (induction ss arbitrary: c v)
  case (Cons s ss)
  then have "returns (scope_body d ss c' v')" for c' v' by simp
  then show ?case using Cons.prems
    by (auto intro!: v1_returns split: sum.split StepError.split ControlFlow.split)
qed (simp add: v1_returns)

lemma returns_scope_output [v1_returns]: "returns (scope_output X sc c v)"
  unfolding scope_output_def by (auto intro!: v1_returns split: option.split)

lemma named_scopeD: "named_scope X s = Inr sc \<Longrightarrow> \<exists>n. field s f_scope = Some n \<and> map_of (x_scopes X) n = Some sc"
  by (auto simp: named_scope_def required_def res_bind_Ok_iff ok_or_def split: option.splits)

lemma returns_named:
  assumes "\<And>sc. named_scope X s = Inr sc \<Longrightarrow> returns (f sc)"
  shows "returns (vbind (vlift (named_scope X s)) f)"
  using assms by (cases "named_scope X s") (auto simp: returns_def vbind_def vlift_def)

text \<open>The runner returns on the steps of the scope that a step names.\<close>

definition runs_well :: "runner \<Rightarrow> V1Exec \<Rightarrow> StepDef \<Rightarrow> bool" where
  "runs_well d X s \<longleftrightarrow> (\<forall>sc. named_scope X s = Inr sc \<longrightarrow> (\<forall>t \<in> set (sd_steps sc). \<forall>c. returns (d t c)))"

lemma returns_call: "runs_well d X s \<Longrightarrow> returns (call_execute d X s c)"
  unfolding call_execute_def runs_well_def
  by (auto intro!: returns_named v1_returns returns_body split: prod.split)

lemma returns_repeat_from: "(\<And>s c. s \<in> set (sd_steps sc) \<Longrightarrow> returns (d s c)) \<Longrightarrow> returns (repeat_from d X sc c k i v)"
proof (induction k arbitrary: i v)
  case (Suc k)
  then show ?case
    by (auto simp: repeat_iteration_def intro!: v1_returns returns_body split: prod.split)
qed (simp add: v1_returns)

lemma returns_repeat: "runs_well d X s \<Longrightarrow> returns (repeat_execute d X s c)"
  unfolding repeat_execute_def runs_well_def
  by (intro returns_named v1_returns returns_repeat_from) blast

lemma spawn_all_some: "(\<And>i. returns (ms i)) \<Longrightarrow> spawn_all ms n s \<noteq> None"
proof -
  assume "\<And>i. returns (ms i)"
  then have "run_task s i (ms i) \<noteq> None" for i
    by (auto simp: run_task_def returns_def split: option.split)
  then have "those (map (\<lambda>i. run_task s i (ms i)) is) \<noteq> None" for "is"
    by (induction "is") (auto split: option.split)
  then show ?thesis unfolding spawn_all_def .
qed

lemma returns_body_steps: "(\<And>s c. s \<in> set (sd_steps sc) \<Longrightarrow> returns (d s c)) \<Longrightarrow> returns (execute_scope_steps d X sc c)"
  unfolding execute_scope_steps_def by (auto intro!: v1_returns returns_body split: prod.split)

lemma returns_serial: "(\<And>s c. s \<in> set (sd_steps sc) \<Longrightarrow> returns (d s c)) \<Longrightarrow> returns (serial_execute d X sc c i items)"
  by (induction items arbitrary: i) (auto intro!: v1_returns returns_body_steps)

lemma returns_parallel_map:
  assumes "\<And>s c. s \<in> set (sd_steps sc) \<Longrightarrow> returns (d s c)"
  shows "returns (parallel_execute d X sc c items)"
proof -
  have "spawn_all (\<lambda>i. execute_scope_steps d X sc (scoped_context c (JStr (items ! i)) i)) n s \<noteq> None" for n s
    by (rule spawn_all_some, rule returns_body_steps, rule assms)
  then show ?thesis
    unfolding returns_def parallel_execute_def Let_def by (auto split: option.split prod.split)
qed

lemma returns_reduce [v1_returns]: "returns (apply_reduce X its how cond)"
proof -
  have "returns (filter_outputs X t vs)" for t vs
    by (induction vs) (auto intro!: v1_returns)
  then show ?thesis unfolding apply_reduce_def Let_def by (auto intro!: v1_returns split: option.split)
qed

lemma returns_map: "runs_well d X s \<Longrightarrow> returns (map_execute d X s cfg c)"
  unfolding map_execute_def Let_def runs_well_def
  by (intro returns_named v1_returns) (auto intro!: v1_returns returns_serial returns_parallel_map split: option.split)

lemma returns_branch [v1_returns]: "returns (dispatch_branch X s c)"
  unfolding dispatch_branch_def Let_def by (auto intro!: v1_returns split: StepType.split)

lemma returns_parallel [v1_returns]: "returns (parallel_step X s c)"
proof -
  have some: "spawn_all (\<lambda>i. dispatch_branch X (ss ! i) (new_context (target_of c) [])) n st \<noteq> None" for ss n st
    by (rule spawn_all_some) (rule v1_returns)
  show ?thesis unfolding parallel_step_def
    by (intro v1_returns) (auto simp: returns_def Let_def some split: option.split)
qed

section \<open>Without circular scopes the dispatch returns\<close>

text \<open>The scopes a scope can reach, itself included.\<close>

definition reach :: "(string \<times> ScopeDef) list \<Rightarrow> string \<Rightarrow> string set" where
  "reach scopes a = {b. (a, b) \<in> (refs scopes)\<^sup>*} \<inter> set (map fst scopes)"

definition acyclic_scopes :: "(string \<times> ScopeDef) list \<Rightarrow> bool" where
  "acyclic_scopes scopes \<longleftrightarrow> (\<forall>a. (a, a) \<notin> (refs scopes)\<^sup>+)"

definition rank :: "(string \<times> ScopeDef) list \<Rightarrow> StepDef \<Rightarrow> nat" where
  "rank scopes s = (case runs_scope s of None \<Rightarrow> 0 | Some a \<Rightarrow> card (reach scopes a))"

lemma scope_rank_bound: "rank scopes s \<le> length scopes"
proof -
  have "card (reach scopes a) \<le> card (set (map fst scopes))" for a
    by (rule card_mono) (auto simp: reach_def)
  then show ?thesis unfolding rank_def using card_length [of "map fst scopes"]
    by (auto split: option.split intro: order_trans)
qed

lemma rank_less:
  assumes ac: "acyclic_scopes scopes" and run: "runs_scope s = Some a" and sc: "map_of scopes a = Some sc"
    and t: "t \<in> set (sd_steps sc)"
  shows "rank scopes t < rank scopes s"
proof -
  have dom: "a \<in> set (map fst scopes)" using sc by (force dest: map_of_SomeD)
  have fin: "finite (reach scopes a)" by (simp add: reach_def)
  have self: "a \<in> reach scopes a" using dom by (simp add: reach_def)
  show ?thesis
  proof (cases "runs_scope t")
    case None
    then show ?thesis using run fin self by (auto simp: rank_def card_gt_0_iff)
  next
    case (Some b)
    then have e: "(a, b) \<in> refs scopes" using sc t by (auto simp: refs_def)
    have "a \<notin> reach scopes b"
      using ac e by (auto simp: reach_def acyclic_scopes_def dest: rtrancl_into_trancl2)
    moreover have "reach scopes b \<subseteq> reach scopes a"
      using e by (auto simp: reach_def intro: converse_rtrancl_into_rtrancl)
    ultimately have "reach scopes b \<subset> reach scopes a" using self by auto
    then show ?thesis using Some run fin by (simp add: rank_def psubset_card_mono)
  qed
qed

lemma returns_dispatch:
  assumes ac: "acyclic_scopes (x_scopes X)"
  shows "rank (x_scopes X) s < n \<Longrightarrow> returns (dispatch_scope_step n X s c)"
proof (induction n arbitrary: s c)
  case (Suc n)
  have well: "runs_well (dispatch_scope_step n X) X s" if ty: "field s f_type \<in> {StCall, StRepeat}"
    unfolding runs_well_def
  proof (intro allI impI ballI)
    fix sc t c' assume sc: "named_scope X s = Inr sc" and t: "t \<in> set (sd_steps sc)"
    from named_scopeD [OF sc] obtain a where a: "field s f_scope = Some a" "map_of (x_scopes X) a = Some sc"
      by blast
    have "runs_scope s = Some a" using a ty by (auto simp: runs_scope_def)
    from rank_less [OF ac this a(2) t] have "rank (x_scopes X) t < n" using Suc.prems by simp
    then show "returns (dispatch_scope_step n X t c')" by (rule Suc.IH)
  qed
  show ?case
    by (cases "field s f_type") (simp_all add: Let_def v1_returns returns_call returns_repeat well)
qed simp

section \<open>The engine returns\<close>

lemma returns_emit [v1_returns]: "returns (emit_event E f)"
  unfolding emit_event_def
  by (intro v1_returns) (auto simp: returns_def split: prod.split option.split sum.split)

lemma returns_push [v1_returns]: "returns (push_record r)"
  unfolding push_record_def by (intro v1_returns)

lemma returns_zstore [v1_returns]: "returns (zstore n v)"
  unfolding zstore_def by (intro v1_returns)

definition depth_ok :: "Engine1 \<Rightarrow> bool" where
  "depth_ok E \<longleftrightarrow> acyclic_scopes (x_scopes (n_exec E)) \<and> length (x_scopes (n_exec E)) < n_depth E"

lemma returns_run_step [v1_returns]:
  assumes "depth_ok E"
  shows "returns (run_step E s cfg boxed)"
proof -
  have "returns (dispatch_scope_step (n_depth E) ((n_exec E)\<lparr>x_boxed := b\<rparr>) t c)" for b t c
    using assms scope_rank_bound [of "x_scopes (n_exec E)" t]
    by (intro returns_dispatch) (auto simp: depth_ok_def)
  then have well: "runs_well (dispatch_scope_step (n_depth E) ((n_exec E)\<lparr>x_boxed := b\<rparr>)) X s" for b X
    by (simp add: runs_well_def)
  have "run_step E s cfg boxed w \<noteq> None" for w
  proof -
    have "returns (\<lambda>w'. zrun
        (let X = (n_exec E)\<lparr>x_boxed := z_boxed w\<rparr>; H = x_host X; c = z_ctx w; d = dispatch_scope_step (n_depth E) X;
             b = (boxed \<and> z_boxed w) in
         (case field s f_type of
            StCmd \<Rightarrow> cmd_execute H b s cfg c
          | StAgent \<Rightarrow> agent_execute H b s cfg c
          | StGate \<Rightarrow> gate_execute H s c
          | StRepeat \<Rightarrow> repeat_execute d X s c
          | StChat \<Rightarrow> chat_execute H s cfg c
          | StMap \<Rightarrow> map_execute d X s cfg c
          | StParallel \<Rightarrow> parallel_step X s c
          | StCall \<Rightarrow> call_execute d X s c
          | StTemplate \<Rightarrow> template_execute H (d_prompts_dir (n_def E)) s c
          | StScript \<Rightarrow> script_execute H s c)) w')"
      unfolding Let_def
      by (cases "field s f_type")
        (auto intro!: v1_returns returns_call returns_repeat returns_map well)
    then show ?thesis unfolding returns_def run_step_def by (auto simp: Let_def)
  qed
  then show ?thesis by (simp add: returns_def)
qed

lemma returns_execute [v1_returns]: "depth_ok E \<Longrightarrow> returns (execute_step E s)"
  unfolding execute_step_def Let_def note_result_def emit_result_def
  by (intro v1_returns) (auto intro!: v1_returns split: sum.split StepError.split option.split prod.split)

lemma returns_join [v1_returns]: "returns (join_task E t)"
proof -
  have "returns (async_execute H u)" for H u
    unfolding async_execute_def Let_def by (auto intro!: v1_returns split: StepType.split)
  then have "run_task s i (async_execute H u) \<noteq> None" for s i H u
    by (auto simp: run_task_def returns_def split: option.split)
  then show ?thesis by (auto simp: returns_def join_task_def split: option.split)
qed

lemma returns_await [v1_returns]: "returns (await_pending_deps E s)"
proof -
  have "returns (await_all E ns)" for ns
    by (induction ns) (auto intro!: v1_returns simp: await_pending_step_def split: option.split sum.split)
  then show ?thesis unfolding await_pending_deps_def by (intro v1_returns)
qed

lemma returns_drain [v1_returns]: "returns (drain_pending E)"
proof -
  have "returns (settle_tasks E ts)" for ts
    by (induction E ts rule: settle_tasks.induct) (auto intro!: v1_returns split: sum.split)
  then show ?thesis unfolding drain_pending_def by (intro v1_returns)
qed

lemma returns_box [v1_returns]: "returns (sandbox_up E)" "returns (sandbox_down E)"
  unfolding sandbox_up_def sandbox_down_def start_proxy_def fill_sandbox_def stop_proxy_def box_call_def
  by (auto intro!: v1_returns split: sum.split option.split prod.split)

lemma returns_skip_save [v1_returns]: "returns (skip_resumed ls s)" "returns (save_state E st)" "returns (spawn_async_step E s)"
  unfolding skip_resumed_def save_state_def spawn_async_step_def Let_def
  by (auto intro!: v1_returns split: option.split)

lemma returns_run_steps: "depth_ok E \<Longrightarrow> returns (run_steps E ls ss resuming v st)"
proof (induction ss arbitrary: resuming v st)
  case (Cons s ss)
  then have "returns (run_steps E ls ss r' v' st')" for r' v' st' by simp
  with Cons.prems show ?case
    by (auto simp: Let_def intro!: v1_returns split: sum.split StepError.split ControlFlow.split)
qed (simp add: v1_returns)

lemma returns_run_engine: "depth_ok E \<Longrightarrow> returns (run_engine E)"
  unfolding run_engine_def start_run_def loop_run_def end_run_def finish_session_def
  by (auto intro!: v1_returns returns_run_steps split: prod.split)

end
