(* ===== verification/V1Calls.thy ===== *)
theory V1Calls
  imports V1Laws
begin

text \<open>
  What a run of the version 1 engine may ask of the outside: a relation between the state before and
  after that is reflexive and transitive passes through every composition (the locale \<open>vm_relation\<close>).
\<close>

definition within :: "('s \<Rightarrow> 's \<Rightarrow> bool) \<Rightarrow> ('s, 'e, 'a) vm \<Rightarrow> bool" where
  "within R m \<longleftrightarrow> (\<forall>s r s'. m s = Some (r, s') \<longrightarrow> R s s')"

locale vm_relation =
  fixes R :: "'s \<Rightarrow> 's \<Rightarrow> bool"
  assumes refl: "R s s" and trans: "R s t \<Longrightarrow> R t u \<Longrightarrow> R s u"
begin

lemma pure: "within R (vret a)" "within R (vfail e)" "within R (vlift r)" "within R vpanic"
  by (simp_all add: within_def vret_def vfail_def vlift_def vpanic_def refl)

lemma bind: "within R m \<Longrightarrow> (\<And>a. within R (f a)) \<Longrightarrow> within R (vbind m f)"
  unfolding within_def vbind_def by (auto split: option.splits sum.splits) (blast intro: trans)

lemma catch: "within R m \<Longrightarrow> within R (vtry m)"
  by (auto simp: within_def vtry_def split: option.splits)

end

section \<open>Calls\<close>

definition calls_rel :: "(V1Call \<Rightarrow> bool) \<Rightarrow> V1State \<Rightarrow> V1State \<Rightarrow> bool" where
  "calls_rel P s s' \<longleftrightarrow> (\<exists>h. v_hist s' = v_hist s @ h \<and> list_all P h)"

interpretation calls: vm_relation "calls_rel P" for P
proof
  show "calls_rel P s s" for s by (simp add: calls_rel_def)
  show "calls_rel P s t \<Longrightarrow> calls_rel P t u \<Longrightarrow> calls_rel P s u" for s t u
    by (auto simp: calls_rel_def)
qed

abbreviation calls_only :: "(V1Call \<Rightarrow> bool) \<Rightarrow> 'a v1 \<Rightarrow> bool" where
  "calls_only P \<equiv> within (calls_rel P)"

lemmas [v1_calls] = calls.pure calls.bind calls.catch

lemma calls_ask [v1_calls]: "P c \<Longrightarrow> calls_only P (vask c f)"
  by (auto simp: within_def vask_def calls_rel_def)

lemma calls_shared [v1_calls]: "calls_only P vshared" "calls_only P (vset_shared sh)"
  by (auto simp: within_def vshared_def vset_shared_def calls_rel_def)

lemma calls_fresh [v1_calls]: "calls_only P m \<Longrightarrow> calls_only P (fresh m)"
  unfolding within_def fresh_def calls_rel_def by (fastforce split: option.splits)

text \<open>
  The calls every step may make, and those that depend on whether it was given the sandbox.
\<close>

definition neutral :: "(V1Call \<Rightarrow> bool) \<Rightarrow> bool" where
  "neutral P \<longleftrightarrow> (\<forall>t. P (Rendered t)) \<and> (\<forall>v. P (ReadEnv v)) \<and> (\<forall>rq. P (ChatRequest rq)) \<and>
    (\<forall>p. P (ReadTemplate p)) \<and> (\<forall>src. P (RunScript src)) \<and> (\<forall>i. P (Task i))"

definition commands :: "bool \<Rightarrow> (V1Call \<Rightarrow> bool) \<Rightarrow> bool" where
  "commands boxed P \<longleftrightarrow> (if boxed then (\<forall>c t. P (CmdInBox c t)) else (\<forall>sh d c p t. P (CmdOnHost sh d c p t)))"

definition agents :: "bool \<Rightarrow> (V1Call \<Rightarrow> bool) \<Rightarrow> bool" where
  "agents boxed P \<longleftrightarrow> (if boxed then (\<forall>c u t. P (AgentInBox c u t)) else (\<forall>c a p t. P (AgentOnHost c a p t)))"

definition allows :: "bool \<Rightarrow> (V1Call \<Rightarrow> bool) \<Rightarrow> bool" where
  "allows boxed P \<longleftrightarrow> neutral P \<and> commands boxed P \<and> agents boxed P"

lemma calls_render [v1_calls]: "neutral P \<Longrightarrow> calls_only P (vrender H c t)"
  unfolding vrender_def by (intro v1_calls) (simp add: neutral_def commands_def agents_def)

lemma calls_store_in [v1_calls]: "calls_only P (store_in n v c)"
  unfolding store_in_def by (auto intro!: v1_calls split: prod.split)

lemma calls_cmd [v1_calls]: "neutral P \<Longrightarrow> commands b P \<Longrightarrow> calls_only P (cmd_execute H b s cfg c)"
  unfolding cmd_execute_def Let_def cmd_in_box_def cmd_on_host_def
  by (cases b) (auto intro!: v1_calls simp: neutral_def commands_def agents_def split: BoxReply.split ProcReply.split)

lemma calls_agent [v1_calls]: "neutral P \<Longrightarrow> agents b P \<Longrightarrow> calls_only P (agent_execute H b s cfg c)"
  unfolding agent_execute_def Let_def agent_in_box_def agent_on_host_def
  by (cases b) (auto intro!: v1_calls simp: neutral_def commands_def agents_def split: BoxReply.split AgentReply.split)

lemma calls_gate [v1_calls]: "neutral P \<Longrightarrow> calls_only P (gate_execute H s c)"
  unfolding gate_execute_def by (intro v1_calls)

lemma calls_template [v1_calls]: "neutral P \<Longrightarrow> calls_only P (template_execute H d s c)"
  unfolding template_execute_def Let_def
  by (auto intro!: v1_calls simp: neutral_def commands_def agents_def split: option.split sum.split)

lemma calls_script [v1_calls]: "neutral P \<Longrightarrow> calls_only P (script_execute H s c)"
  unfolding script_execute_def by (auto intro!: v1_calls simp: neutral_def commands_def agents_def split: sum.split)

lemma calls_chat [v1_calls]: "neutral P \<Longrightarrow> calls_only P (chat_execute H s cfg c)"
  unfolding chat_execute_def Let_def chat_api_key_def chat_history_def call_via_rig_def remember_turn_def
  by (auto intro!: v1_calls simp: neutral_def commands_def agents_def split: option.split prod.split RigReply.split)

section \<open>Calls of the containers\<close>

lemma calls_body: "(\<And>s c. calls_only P (d s c)) \<Longrightarrow> calls_only P (scope_body d ss c v)"
  by (induction ss arbitrary: c v)
    (auto intro!: v1_calls split: sum.split StepError.split ControlFlow.split)

lemma calls_scope_output: "neutral P \<Longrightarrow> calls_only P (scope_output X sc c v)"
  unfolding scope_output_def by (auto intro!: v1_calls split: option.split)

lemma calls_call: "neutral P \<Longrightarrow> (\<And>s c. calls_only P (d s c)) \<Longrightarrow> calls_only P (call_execute d X s c)"
  unfolding call_execute_def by (auto intro!: v1_calls calls_body calls_scope_output split: prod.split)

lemma calls_repeat:
  assumes "neutral P" and "\<And>s c. calls_only P (d s c)"
  shows "calls_only P (repeat_execute d X s c)"
proof -
  have "calls_only P (repeat_from d X sc c k i v)" for sc k i v
    using assms by (induction k arbitrary: i v)
      (auto simp: repeat_iteration_def intro!: v1_calls calls_body calls_scope_output split: prod.split)
  then show ?thesis unfolding repeat_execute_def by (intro v1_calls)
qed

lemma calls_dispatch: "allows (x_boxed X) P \<Longrightarrow> calls_only P (dispatch_scope_step n X s c)"
proof (induction n arbitrary: s c)
  case (Suc n)
  then show ?case
    by (cases "field s f_type") (simp_all add: allows_def Let_def v1_calls calls_call calls_repeat)
qed (simp add: v1_calls)

text \<open>A task: its mark and its calls. The history of the parent grows by those of its tasks, some cut short.\<close>

lemma run_task_calls:
  assumes "run_task s i m = Some (r, h)" and "calls_only P m" and "P (Task i)"
  shows "list_all P h"
  using assms unfolding run_task_def within_def calls_rel_def
  by (fastforce split: option.splits prod.splits)

lemma spawn_all_calls:
  assumes "spawn_all ms n s = Some rs" and "\<And>i. calls_only P (ms i)" and "\<And>i. P (Task i)"
  shows "length rs = n \<and> (\<forall>i < n. list_all P (snd (rs ! i)))"
proof -
  have gen: "those (map (\<lambda>i. run_task s i (ms i)) is) = Some rs \<Longrightarrow>
      length rs = length is \<and> (\<forall>i < length is. list_all P (snd (rs ! i)))" for "is" rs
  proof (induction "is" arbitrary: rs)
    case (Cons j "is")
    then obtain r h rs' where s: "run_task s j (ms j) = Some (r, h)" "rs = (r, h) # rs'"
        "those (map (\<lambda>i. run_task s i (ms i)) is) = Some rs'"
      by (auto split: option.splits)
    then show ?case using Cons.IH [OF s(3)] run_task_calls [OF s(1) assms(2,3)]
      by (auto simp: nth_Cons split: nat.split)
  qed simp
  show ?thesis using gen [of "[0..<n]" rs] assms(1) by (simp add: spawn_all_def)
qed

lemma list_all_take: "list_all P xs \<Longrightarrow> list_all P (take k xs)"
  by (metis append_take_drop_id list_all_append)

lemma task_calls_all:
  assumes "\<forall>i \<in> set ended \<union> set aborted. list_all P (snd (rs ! i))"
  shows "list_all P (task_calls X h rs ended aborted)"
  using assms by (auto simp: task_calls_def list_all_iff dest: in_set_takeD)

lemma finish_order_set [simp]: "set (finish_order X h n) = {0..<n}"
  by (simp add: finish_order_def)

lemma first_error_sets: "first_error f ended is = Some (e, ended', aborted) \<Longrightarrow>
    set ended' \<union> set aborted = set ended \<union> set is"
  by (induction f ended "is" arbitrary: ended' rule: first_error.induct) (auto split: sum.splits)

lemma drain_sets: "set (dr_ended (foldl (drain_one nm l f) D is)) \<union> set (dr_aborted (foldl (drain_one nm l f) D is)) =
    set (dr_ended D) \<union> set (dr_aborted D) \<union> set is"
proof (induction "is" arbitrary: D)
  case (Cons i "is")
  have "set (dr_ended (drain_one nm l f D i)) \<union> set (dr_aborted (drain_one nm l f D i)) =
      insert i (set (dr_ended D) \<union> set (dr_aborted D))"
    by (auto simp: drain_one_def Let_def split: sum.split StepError.split ControlFlow.split)
  then show ?case using Cons by simp
qed simp

lemma calls_steps: "neutral P \<Longrightarrow> (\<And>s c. calls_only P (d s c)) \<Longrightarrow> calls_only P (execute_scope_steps d X sc c)"
  unfolding execute_scope_steps_def by (auto intro!: v1_calls calls_body calls_scope_output split: prod.split)

lemma calls_parallel_map:
  assumes b: "neutral P" and d: "\<And>s c. calls_only P (d s c)"
  shows "calls_only P (parallel_execute d X sc c items)"
proof -
  let ?ms = "\<lambda>i. execute_scope_steps d X sc (scoped_context c (JStr (items ! i)) i)"
  have t: "\<And>i. P (Task i)" using b by (simp add: neutral_def allows_def)
  have ms: "\<And>i. calls_only P (?ms i)" by (rule calls_steps [OF b d])
  have "list_all P (task_calls X h rs ended aborted)"
    if sp: "spawn_all ?ms (length items) st = Some rs" and sub: "set ended \<union> set aborted = {0..<length items}"
    for st rs h ended aborted
    using spawn_all_calls [where P = P, OF sp ms t] sub by (intro task_calls_all) auto
  then show ?thesis
    unfolding within_def parallel_execute_def Let_def calls_rel_def
    by (auto split: option.splits prod.splits dest!: first_error_sets)
qed

lemma calls_map:
  assumes "neutral P" and "\<And>s c. calls_only P (d s c)"
  shows "calls_only P (map_execute d X s cfg c)"
proof -
  have serial: "calls_only P (serial_execute d X sc c i items)" for sc i items
    using assms by (induction items arbitrary: i) (auto intro!: v1_calls calls_steps)
  have "calls_only P (filter_outputs X t vs)" for t vs
    using assms(1) by (induction vs) (auto intro!: v1_calls)
  then have reduce: "calls_only P (apply_reduce X its how cond)" for its how cond
    unfolding apply_reduce_def Let_def by (auto intro!: v1_calls split: option.split)
  show ?thesis unfolding map_execute_def Let_def using assms
    by (auto intro!: v1_calls serial reduce calls_parallel_map split: option.split)
qed

lemma calls_branch: "allows (x_boxed X) P \<Longrightarrow> calls_only P (dispatch_branch X s c)"
  unfolding dispatch_branch_def Let_def allows_def by (cases "field s f_type") (simp_all add: v1_calls)

lemma calls_parallel:
  assumes b: "allows (x_boxed X) P"
  shows "calls_only P (parallel_step X s c)"
proof -
  have t: "\<And>i. P (Task i)" using b by (simp add: neutral_def allows_def)
  have ms: "\<And>i. calls_only P (dispatch_branch X (ss ! i) c')" for ss c' by (rule calls_branch [OF b])
  have "list_all P (task_calls X h rs (dr_ended D) (dr_aborted D))"
    if sp: "spawn_all (\<lambda>i. dispatch_branch X (ss ! i) c') n st = Some rs"
      and D: "D = foldl (drain_one nm l f) \<lparr>dr_outputs = [], dr_error = None, dr_ended = [], dr_aborted = []\<rparr> (finish_order X h n)"
    for ss c' n st rs D nm l f h
    using spawn_all_calls [where P = P, OF sp ms t] drain_sets [of nm l f _ "finish_order X h n"] D
    by (intro task_calls_all) auto
  then have "calls_only P (\<lambda>st. let n = length ss; h = v_hist st in
       (case spawn_all (\<lambda>i. dispatch_branch X (ss ! i) (new_context (target_of c) [])) n st of
          None \<Rightarrow> None
        | Some rs \<Rightarrow>
          (let D = foldl (drain_one (\<lambda>i. field (ss ! i) f_name) (x_late X h) (deliver X h rs))
                 \<lparr>dr_outputs = [], dr_error = None, dr_ended = [], dr_aborted = []\<rparr> (finish_order X h n);
               st' = st\<lparr>v_hist := h @ task_calls X h rs (dr_ended D) (dr_aborted D)\<rparr> in
           (case dr_error D of
              Some e \<Rightarrow> Some (Inl e, st')
            | None \<Rightarrow>
              Some (Inr (if ss = [] then OEmpty else or_else (map_of (dr_outputs D) (field (last ss) f_name)) OEmpty), st')))))" for ss
    unfolding within_def Let_def calls_rel_def by (auto split: option.splits)
  then show ?thesis unfolding parallel_step_def by (intro v1_calls) auto
qed

lemma calls_async: "allows False P \<Longrightarrow> calls_only P (async_execute H t)"
  unfolding async_execute_def Let_def allows_def by (auto intro!: v1_calls split: StepType.split)

section \<open>Calls of the engine\<close>

text \<open>With no task running: the sandbox stays as it is, and so does that.\<close>

definition world_rel :: "bool \<Rightarrow> (V1Call \<Rightarrow> bool) \<Rightarrow> World1 \<Rightarrow> World1 \<Rightarrow> bool" where
  "world_rel b P w w' \<longleftrightarrow>
    (z_boxed w = b \<and> z_pending w = [] \<longrightarrow>
      z_boxed w' = b \<and> z_pending w' = [] \<and> calls_rel P (z_run w) (z_run w'))"

interpretation world: vm_relation "world_rel b P" for b P
proof
  show "world_rel b P s s" for s by (simp add: world_rel_def calls.refl)
  show "world_rel b P s t \<Longrightarrow> world_rel b P t u \<Longrightarrow> world_rel b P s u" for s t u
    unfolding world_rel_def using calls.trans by blast
qed

named_theorems v1_world

lemmas [v1_world] = world.pure world.bind world.catch

lemma world_basic [v1_world]:
  "within (world_rel b P) (zask f)" "within (world_rel b P) (zget g)"
  by (auto simp: within_def zask_def zget_def world_rel_def calls_rel_def)

lemma world_mod [v1_world]:
  "(\<And>w. z_boxed (f w) = z_boxed w) \<Longrightarrow> (\<And>w. z_pending (f w) = z_pending w) \<Longrightarrow>
    (\<And>w. v_hist (z_run (f w)) = v_hist (z_run w)) \<Longrightarrow> within (world_rel b P) (zmod f)"
  by (auto simp: within_def zmod_def world_rel_def calls_rel_def)

lemma world_zmap [v1_world]: "within (world_rel b P) m \<Longrightarrow> within (world_rel b P) (zmap_err g m)"
  by (auto simp: within_def zmap_err_def split: option.splits)

lemma world_emit [v1_world]: "within (world_rel b P) (emit_event E f)"
  unfolding emit_event_def
  by (intro v1_world)
    (auto simp: within_def world_rel_def calls_rel_def split: prod.splits option.splits sum.splits)

lemma world_push [v1_world]: "within (world_rel b P) (push_record r)"
  unfolding push_record_def by (intro v1_world) simp_all

lemma world_store [v1_world]: "within (world_rel b P) (zstore n v)"
  unfolding zstore_def by (intro v1_world) (simp_all add: Let_def split: prod.split)

text \<open>What a step of the top level needs: its own calls, and those of the scopes it runs.\<close>

definition step_allows :: "Engine1 \<Rightarrow> bool \<Rightarrow> (V1Call \<Rightarrow> bool) \<Rightarrow> StepDef \<Rightarrow> bool" where
  "step_allows E b P s \<longleftrightarrow> allows b P \<and>
    (let own = (should_sandbox_step (n_mode E) (field s f_type) \<and> b) in
     (field s f_type = StCmd \<longrightarrow> commands own P) \<and> (field s f_type = StAgent \<longrightarrow> agents own P))"

lemma world_run_step:
  assumes "step_allows E b P s"
  shows "within (world_rel b P) (run_step E s cfg (should_sandbox_step (n_mode E) (field s f_type)))"
proof -
  have "calls_rel P (z_run w) st \<and> z_boxed w' = z_boxed w \<and> z_pending w' = z_pending w \<and> z_run w' = st"
    if "zrun m w = Some (r, w')" "calls_only P m" "z_run w' = st" for m :: "'a v1" and w r w' st
    using that by (auto simp: zrun_def within_def split: option.splits)
  note run = this [OF _ _ refl]
  show ?thesis
    unfolding within_def world_rel_def
  proof (intro allI impI)
    fix w r w'
    let ?b = "should_sandbox_step (n_mode E) (field s f_type)"
    assume st: "run_step E s cfg ?b w = Some (r, w')" and w: "z_boxed w = b \<and> z_pending w = []"
    let ?X = "(n_exec E)\<lparr>x_boxed := b\<rparr>"
    have al: "allows b P" "neutral P" using assms by (simp_all add: step_allows_def allows_def)
    have d: "\<And>t c. calls_only P (dispatch_scope_step (n_depth E) ?X t c)"
      using al(1) by (intro calls_dispatch) simp
    have par: "calls_only P (parallel_step ?X s c)" for c using al(1) by (intro calls_parallel) simp
    have "\<exists>m. run_step E s cfg ?b w = zrun m w \<and> calls_only P m"
      using assms w al d par unfolding run_step_def Let_def step_allows_def
      by (cases "field s f_type")
        (auto intro!: exI v1_calls calls_call calls_repeat calls_map simp del: should_sandbox_step_def)
    then obtain m where m: "run_step E s cfg ?b w = zrun m w" "calls_only P m" by blast
    from run [OF st [unfolded m(1)] m(2)] w
    show "z_boxed w' = b \<and> z_pending w' = [] \<and> calls_rel P (z_run w) (z_run w')" by simp
  qed
qed

lemma world_note [v1_world]: "within (world_rel b P) (note_result E s boxed ms r)"
  unfolding note_result_def Let_def
  by (auto intro!: v1_world simp: store_parsed_def split: sum.split StepError.split option.split prod.split)

lemma world_emit_result [v1_world]: "within (world_rel b P) (emit_result E s boxed ms r)"
  unfolding emit_result_def Let_def by (auto intro!: v1_world split: sum.split StepError.split)

lemma world_execute: "step_allows E b P s \<Longrightarrow> within (world_rel b P) (execute_step E s)"
  unfolding execute_step_def Let_def by (intro v1_world world_run_step)

lemma world_await: "within (world_rel b P) (await_pending_deps E s)"
proof -
  have "pending_deps W [] s = []" for W
  proof -
    have "foldl (\<lambda>ds n. if map_of ([] :: (string \<times> AsyncTask) list) n \<noteq> None \<and> n \<notin> set ds then ds @ [n] else ds) [] ns = []" for ns
      by (induction ns) simp_all
    then show ?thesis by (simp add: pending_deps_def)
  qed
  then show ?thesis
    by (auto simp: within_def await_pending_deps_def vbind_def zget_def vret_def world_rel_def calls.refl)
qed

lemma world_run_steps:
  assumes "\<forall>s \<in> set ss. step_allows E b P s \<and> field s f_async_exec \<noteq> Some True"
  shows "within (world_rel b P) (run_steps E ls ss resuming v st)"
  using assms
proof (induction ss arbitrary: resuming v st)
  case (Cons s ss)
  then have rest: "\<And>r' v' st'. within (world_rel b P) (run_steps E ls ss r' v' st')"
    and s: "within (world_rel b P) (execute_step E s)" "field s f_async_exec \<noteq> Some True"
    by (auto intro: world_execute)
  have skip: "within (world_rel b P) (skip_resumed ls s :: (string, unit) en)"
    unfolding skip_resumed_def Let_def by (auto intro!: v1_world split: option.split)
  have save: "within (world_rel b P) (save_state E x :: (string, unit) en)" for x
    unfolding save_state_def by (auto intro!: v1_world)
  show ?case using s(2)
    by (auto simp: Let_def intro!: v1_world rest s(1) skip save world_await
        split: sum.split StepError.split ControlFlow.split)
qed (simp add: v1_world)

lemma world_drain: "within (world_rel b P) (drain_pending E)"
  by (auto simp: within_def drain_pending_def vbind_def zget_def zmod_def vret_def world_rel_def calls_rel_def)

lemma world_loop:
  assumes "\<forall>s \<in> set (d_steps (n_def E)). step_allows E b P s \<and> field s f_async_exec \<noteq> Some True"
  shows "within (world_rel b P) (loop_run E ls now)"
  unfolding loop_run_def by (intro v1_world world_run_steps [OF assms] world_drain)

text \<open>The sandbox goes up and down without a call of a step.\<close>

definition same_run :: "World1 \<Rightarrow> World1 \<Rightarrow> bool" where
  "same_run w w' \<longleftrightarrow> z_run w' = z_run w \<and> z_pending w' = z_pending w \<and> z_ctx w' = z_ctx w"

interpretation still: vm_relation same_run
  by unfold_locales (simp_all add: same_run_def)

lemma still_ops:
  "within same_run (zask f)" "within same_run (zget g)" "within same_run (emit_event E ev)" "within same_run (push_record rec)"
  "(\<And>w. same_run w (h w)) \<Longrightarrow> within same_run (zmod h)"
  by (auto simp: within_def zask_def zget_def zmod_def same_run_def emit_event_def push_record_def vbind_def
      split: prod.splits option.splits sum.splits)

lemmas still_rules = still.pure still.bind still.catch still_ops

lemma still_up: "within same_run (sandbox_up E)"
  unfolding sandbox_up_def start_proxy_def fill_sandbox_def box_call_def
  by (auto intro!: still_rules simp: same_run_def split: sum.split option.split prod.split)

lemma still_down: "within same_run (sandbox_down E)"
  unfolding sandbox_down_def stop_proxy_def box_call_def
  by (auto intro!: still_rules simp: same_run_def)

lemma still_start: "within same_run (start_run E)"
  unfolding start_run_def by (intro still_rules) (auto intro!: still_up still_rules)

lemma still_end: "within same_run (end_run E p)"
proof -
  have "within same_run (finish_session E ok)" for ok
    unfolding finish_session_def
    by (auto intro!: still_rules simp: same_run_def split: prod.split option.split)
  then show ?thesis unfolding end_run_def by (intro still_rules) (auto intro!: still_down still_rules)
qed

lemma up_boxed: "sandbox_up E w = Some (Inr u, w') \<Longrightarrow> z_boxed w'"
  by (auto simp: sandbox_up_def vbind_def vtry_def zmod_def split: option.splits prod.splits sum.splits)

lemma start_boxed:
  assumes "start_run E w = Some (Inr x, w')" and "\<not> z_boxed w"
  shows "z_boxed w' \<longleftrightarrow> n_mode E \<noteq> Disabled"
  using assms up_boxed
  by (cases "n_mode E = Disabled") (auto simp: start_run_def vbind_def vlift_def zask_def vret_def split: option.splits prod.splits sum.splits dest!: up_boxed)

text \<open>The calls of a run whose steps are all synchronous.\<close>

lemma run_calls:
  assumes "run_engine E w = Some (r, w')" and "\<not> z_boxed w" "z_pending w = []"
    and al: "\<forall>s \<in> set (d_steps (n_def E)). step_allows E (n_mode E \<noteq> Disabled) P s \<and> field s f_async_exec \<noteq> Some True"
  shows "calls_rel P (z_run w) (z_run w')"
proof -
  consider (failed) e where "start_run E w = Some (Inl e, w')"
    | (started) ls now w1 where "start_run E w = Some (Inr (ls, now), w1)" "vbind (loop_run E ls now) (end_run E) w1 = Some (r, w')"
    using assms(1) by (auto simp: run_engine_def vbind_def split: option.splits sum.splits prod.splits)
  then show ?thesis
  proof cases
    case failed
    then have "same_run w w'" using still_start by (auto simp: within_def)
    then show ?thesis by (simp add: same_run_def calls.refl)
  next
    case started
    have w1: "same_run w w1" using started(1) still_start by (auto simp: within_def)
    have "world_rel (n_mode E \<noteq> Disabled) P w1 w2" if "loop_run E ls now w1 = Some (x, w2)" for x w2
      using that world_loop [OF al] by (auto simp: within_def)
    moreover have "same_run w2 w'" if "end_run E p w2 = Some (r, w')" for p w2
      using that still_end by (auto simp: within_def)
    ultimately show ?thesis
      using started w1 start_boxed [OF started(1) assms(2)] assms(3)
      by (auto simp: vbind_def world_rel_def same_run_def split: option.splits sum.splits)
  qed
qed

end
