(* ===== verification/V1Props.thy ===== *)
theory V1Props
  imports V1Calls
begin

text \<open>
  The theorems on the version 1 engine: it returns on every workflow the validator accepts, it keeps
  what it runs inside its sandbox, its log is written first and closed with the session, and what a
  resumed run restores and saves.
\<close>

section \<open>The fuel does not matter once there is enough\<close>

lemma scope_body_cong: "(\<And>s c. s \<in> set ss \<Longrightarrow> d s c = d' s c) \<Longrightarrow> scope_body d ss c v = scope_body d' ss c v"
proof (induction ss arbitrary: c v)
  case (Cons s ss)
  then have "\<And>c' v'. scope_body d ss c' v' = scope_body d' ss c' v'" by simp
  then show ?case using Cons.prems by (simp cong: sum.case_cong StepError.case_cong ControlFlow.case_cong)
qed simp

lemma vbind_named_cong:
  "(\<And>sc. named_scope X s = Inr sc \<Longrightarrow> f sc = g sc) \<Longrightarrow>
    vbind (vlift (named_scope X s)) f = vbind (vlift (named_scope X s)) g"
  by (cases "named_scope X s") (auto simp: vbind_def vlift_def)

text \<open>Two runners that agree on the steps of the scope a step names.\<close>

definition agree :: "runner \<Rightarrow> runner \<Rightarrow> V1Exec \<Rightarrow> StepDef \<Rightarrow> bool" where
  "agree d d' X s \<longleftrightarrow> (\<forall>sc. named_scope X s = Inr sc \<longrightarrow> (\<forall>t \<in> set (sd_steps sc). \<forall>c. d t c = d' t c))"

lemma call_cong: "agree d d' X s \<Longrightarrow> call_execute d X s c = call_execute d' X s c"
  unfolding call_execute_def agree_def by (intro vbind_named_cong) (simp cong: scope_body_cong)

lemma repeat_cong: "agree d d' X s \<Longrightarrow> repeat_execute d X s c = repeat_execute d' X s c"
proof -
  have "repeat_from d X sc c k i v = repeat_from d' X sc c k i v"
    if "\<And>t c. t \<in> set (sd_steps sc) \<Longrightarrow> d t c = d' t c" for sc k i v
    using that by (induction k arbitrary: i v) (simp_all add: repeat_iteration_def cong: scope_body_cong if_cong)
  then show "agree d d' X s \<Longrightarrow> ?thesis"
    unfolding repeat_execute_def agree_def by (intro vbind_named_cong) simp
qed

lemma map_cong1:
  assumes "agree d d' X s"
  shows "map_execute d X s cfg c = map_execute d' X s cfg c"
proof -
  let ?same = "\<lambda>sc. \<forall>t \<in> set (sd_steps sc). \<forall>c. d t c = d' t c"
  have body: "?same sc \<Longrightarrow> execute_scope_steps d X sc c = execute_scope_steps d' X sc c" for sc c
    by (simp add: execute_scope_steps_def cong: scope_body_cong)
  have "?same sc \<Longrightarrow> serial_execute d X sc c i items = serial_execute d' X sc c i items" for sc i items
    using body by (induction items arbitrary: i) simp_all
  moreover have "?same sc \<Longrightarrow> parallel_execute d X sc c items = parallel_execute d' X sc c items" for sc items
    unfolding parallel_execute_def using body [of sc] by simp
  ultimately show ?thesis
    using assms unfolding map_execute_def agree_def Let_def
    by (intro arg_cong2 [of _ _ _ _ vbind] ext vbind_named_cong refl) simp
qed

lemma named_rank:
  assumes "acyclic_scopes (x_scopes X)" and "field s f_type \<in> {StCall, StRepeat, StMap}"
    and "named_scope X s = Inr sc" "t \<in> set (sd_steps sc)"
  shows "rank (x_scopes X) t < rank (x_scopes X) s"
proof -
  from named_scopeD [OF assms(3)] obtain a where "field s f_scope = Some a" "map_of (x_scopes X) a = Some sc" by blast
  then show ?thesis using assms by (intro rank_less) (auto simp: runs_scope_def)
qed

lemma dispatch_fuel:
  assumes ac: "acyclic_scopes (x_scopes X)"
  shows "rank (x_scopes X) s < n \<Longrightarrow> dispatch_scope_step (Suc n) X s c = dispatch_scope_step n X s c"
proof (induction n arbitrary: s c)
  case (Suc n)
  have "agree (dispatch_scope_step (Suc n) X) (dispatch_scope_step n X) X s" if "field s f_type \<in> {StCall, StRepeat}"
    unfolding agree_def using Suc named_rank [OF ac, of s] that by fastforce
  then have "field s f_type \<in> {StCall, StRepeat} \<Longrightarrow>
      call_execute (dispatch_scope_step (Suc n) X) X s c = call_execute (dispatch_scope_step n X) X s c \<and>
      repeat_execute (dispatch_scope_step (Suc n) X) X s c = repeat_execute (dispatch_scope_step n X) X s c"
    using call_cong repeat_cong by blast
  then show ?case
    by (subst (1 2) dispatch_scope_step.simps(2)) (cases "field s f_type"; simp add: Let_def del: dispatch_scope_step.simps)
qed simp

lemma dispatch_more:
  assumes "acyclic_scopes (x_scopes X)" and "length (x_scopes X) < n" "n \<le> k"
  shows "dispatch_scope_step k X = dispatch_scope_step n X"
  using assms(3)
proof (induction k rule: dec_induct)
  case (step k)
  have "rank (x_scopes X) s < k" for s
    using scope_rank_bound [of "x_scopes X" s] assms(2) step.hyps by simp
  then have "dispatch_scope_step (Suc k) X = dispatch_scope_step k X"
    by (intro ext [where f = "dispatch_scope_step (Suc k) X"] ext [where f = "dispatch_scope_step (Suc k) X s" for s])
      (rule dispatch_fuel [OF assms(1)])
  then show ?case using step.IH by (rule trans)
qed simp

lemmas strong = option.case_cong sum.case_cong prod.case_cong StepError.case_cong ControlFlow.case_cong if_cong

lemma join_fuel: "join_task (E\<lparr>n_depth := k\<rparr>) t = join_task E t"
  by (simp add: join_task_def fun_eq_iff cong: strong)

text \<open>Nothing but the dispatch looks at the fuel.\<close>

lemma fuel_only:
  assumes "depth_ok E" and "n_depth E \<le> k"
  shows "run_engine (E\<lparr>n_depth := k\<rparr>) = run_engine E"
proof -
  let ?E = "E\<lparr>n_depth := k\<rparr>"
  have emit: "emit_event ?E f = emit_event E f" for f by (simp add: emit_event_def cong: strong)
  have step: "run_step ?E s cfg b = run_step E s cfg b" for s cfg b
  proof -
    have "dispatch_scope_step k ((n_exec E)\<lparr>x_boxed := x\<rparr>) = dispatch_scope_step (n_depth E) ((n_exec E)\<lparr>x_boxed := x\<rparr>)" for x
      using assms by (intro dispatch_more) (simp_all add: depth_ok_def)
    then show ?thesis by (intro ext) (simp add: run_step_def Let_def cong: StepType.case_cong)
  qed
  have exec: "execute_step ?E s = execute_step E s" for s
    by (simp add: execute_step_def step emit note_result_def emit_result_def step_config_def cong: strong)
  have single: "await_pending_step ?E n = await_pending_step E n" for n
    by (simp add: await_pending_step_def join_fuel async_failed_def cong: strong)
  have "await_all ?E ns = await_all E ns" for ns by (induction ns) (simp_all add: single)
  then have "await_all ?E = await_all E" by (rule ext)
  then have await: "await_pending_deps ?E s = await_pending_deps E s" for s
    by (simp add: await_pending_deps_def)
  have settle: "settle_tasks ?E ts = (settle_tasks E ts :: (string, unit) en)" for ts
    by (induction ts) (simp_all add: split_paired_all join_fuel type_named_def cong: strong)
  have spawn: "spawn_async_step ?E s = spawn_async_step E s" "save_state ?E st = save_state E st" for s st
    by (simp_all add: spawn_async_step_def step_config_def save_state_def)
  have steps: "run_steps ?E ls ss r v st = run_steps E ls ss r v st" for ls ss r v st
    by (induction ss arbitrary: r v st) (simp_all add: await exec spawn Let_def cong: strong)
  have box: "box_call ?E op = box_call E op" for op by (simp add: box_call_def)
  have up: "sandbox_up ?E = sandbox_up E" "sandbox_down ?E = sandbox_down E"
    by (simp_all add: sandbox_up_def sandbox_down_def start_proxy_def fill_sandbox_def stop_proxy_def box cong: strong)
  have "settle_tasks ?E = (settle_tasks E :: _ \<Rightarrow> (string, unit) en)" by (rule ext) (rule settle)
  then have drain: "drain_pending ?E = (drain_pending E :: (string, unit) en)" by (simp add: drain_pending_def)
  have "load_resume ?E = load_resume E" by (simp add: load_resume_def cong: strong)
  then have start: "start_run ?E = start_run E" by (simp add: start_run_def up)
  have loop: "loop_run ?E ls now = loop_run E ls now" for ls now by (simp add: loop_run_def emit steps drain)
  have fin: "finish_session ?E ok = finish_session E ok" for ok by (simp add: finish_session_def cong: strong)
  have "end_run ?E p = end_run E p" for p by (simp add: end_run_def up emit fin)
  then have "end_run ?E = end_run E" by (rule ext)
  then show ?thesis by (simp add: run_engine_def start loop)
qed

section \<open>Termination\<close>

lemma valid_acyclic:
  assumes "validate_def d = []"
  shows "acyclic_scopes (d_scopes d)"
proof -
  have "\<forall>n \<in> set (map fst (d_scopes d)). (if has_cycle (d_scopes d) {} n then [''Circular scope reference involving '' @ quoted n] else []) = []"
    using assms unfolding validate_def_def Let_def append_is_Nil_conv concat_eq_Nil_conv by simp
  then have "acyclic (refs (d_scopes d))"
    unfolding no_cycle_iff [symmetric] by (metis list.distinct(1))
  then show ?thesis by (simp add: acyclic_def acyclic_scopes_def)
qed

text \<open>
  C28: the version 1 engine returns on every workflow that the validator accepts. Its executors call each
  other through the names of scopes and keep no count of their depth, so nothing in the engine itself
  ends the recursion; but when the validator reports no error, a depth of one more than the number of
  scopes is enough for every host, every schedule of the tasks and every world, and more depth changes nothing.
\<close>

theorem v1_run_returns:
  assumes "validate_def (n_def E) = []" and "x_scopes (n_exec E) = d_scopes (n_def E)"
    and "length (d_scopes (n_def E)) < n_depth E"
  shows "run_engine E w \<noteq> None \<and> (\<forall>k. run_engine (E\<lparr>n_depth := n_depth E + k\<rparr>) w = run_engine E w)"
proof -
  have d: "depth_ok E" using assms valid_acyclic [OF assms(1)] by (simp add: depth_ok_def)
  then show ?thesis using returns_run_engine [OF d] fuel_only [OF d] by (simp add: returns_def)
qed

section \<open>The sandbox\<close>

fun agent_outside :: "V1Call \<Rightarrow> bool" where
  "agent_outside (AgentOnHost c a p t) = True"
| "agent_outside _ = False"

fun outside :: "V1Call \<Rightarrow> bool" where
  "outside (CmdOnHost sh d c p t) = True"
| "outside (AgentOnHost c a p t) = True"
| "outside _ = False"

fun inside :: "V1Call \<Rightarrow> bool" where
  "inside (CmdInBox c t) = True"
| "inside (AgentInBox c u t) = True"
| "inside _ = False"

lemma kinds [simp]:
  "neutral (\<lambda>c. \<not> inside c)" "neutral (\<lambda>c. \<not> outside c)" "neutral (\<lambda>c. \<not> agent_outside c)"
  "commands False (\<lambda>c. \<not> inside c)" "commands True (\<lambda>c. \<not> outside c)" "commands b (\<lambda>c. \<not> agent_outside c)"
  "agents False (\<lambda>c. \<not> inside c)" "agents True (\<lambda>c. \<not> outside c)" "agents True (\<lambda>c. \<not> agent_outside c)"
  by (simp_all add: neutral_def commands_def agents_def)

text \<open>
  C29: where the version 1 engine runs things. With the sandbox disabled nothing enters it. In the modes
  \<open>FullWorkflow\<close> and \<open>Devbox\<close>, when no step is asynchronous, no command and no agent ever runs on the host,
  in whatever container of steps it stands and whatever the host answers. In the mode \<open>AgentOnly\<close> no agent
  runs on the host, and a command does only as a step of the workflow itself: inside a scope it runs in
  the sandbox, although the mode says otherwise. An asynchronous step is the exception to all of this: its
  task never enters the sandbox, in any mode.
\<close>

theorem sandbox_confinement:
  assumes "run_engine E w = Some (r, w')" and "\<not> z_boxed w" and "z_pending w = []"
    and "\<forall>s \<in> set (d_steps (n_def E)). f_async_exec (fields_of s) \<noteq> Some True"
  shows "\<exists>h. v_hist (z_run w') = v_hist (z_run w) @ h \<and>
    (case n_mode E of
       Disabled \<Rightarrow> list_all (\<lambda>c. \<not> inside c) h
     | AgentOnly \<Rightarrow> list_all (\<lambda>c. \<not> agent_outside c) h \<and>
         ((\<forall>s \<in> set (d_steps (n_def E)). f_type (fields_of s) \<noteq> StCmd) \<longrightarrow> list_all (\<lambda>c. \<not> outside c) h)
     | _ \<Rightarrow> list_all (\<lambda>c. \<not> outside c) h) \<and>
    (\<forall>t i st r' h'. run_task st i (async_execute (x_host (n_exec E)) t) = Some (r', h') \<longrightarrow>
      list_all (\<lambda>c. \<not> inside c) h')"
proof -
  have al: "step_allows E (n_mode E \<noteq> Disabled) P s" if "neutral P"
    "n_mode E = Disabled \<Longrightarrow> commands False P \<and> agents False P"
    "n_mode E \<noteq> Disabled \<Longrightarrow> commands True P \<and> agents True P"
    "n_mode E = AgentOnly \<Longrightarrow> field s f_type = StCmd \<Longrightarrow> commands False P" for P s
    using that by (cases "n_mode E") (auto simp: step_allows_def allows_def should_sandbox_step_def Let_def)
  note calls = run_calls [OF assms(1-3), unfolded calls_rel_def]
  have async: "\<forall>t i st r' h'. run_task st i (async_execute (x_host (n_exec E)) t) = Some (r', h') \<longrightarrow> list_all (\<lambda>c. \<not> inside c) h'"
  proof (intro allI impI)
    fix t i st r' h' assume "run_task st i (async_execute (x_host (n_exec E)) t) = Some (r', h')"
    then show "list_all (\<lambda>c. \<not> inside c) h'"
      by (rule run_task_calls) (auto intro!: calls_async simp: allows_def)
  qed
  show ?thesis
  proof (cases "n_mode E")
    case Disabled
    then have "\<exists>h. v_hist (z_run w') = v_hist (z_run w) @ h \<and> list_all (\<lambda>c. \<not> inside c) h"
      using assms(4) by (intro calls ballI conjI al) auto
    then show ?thesis using Disabled async by auto
  next
    case AgentOnly
    have "\<exists>h. v_hist (z_run w') = v_hist (z_run w) @ h \<and> list_all (\<lambda>c. \<not> agent_outside c) h"
      using assms(4) AgentOnly by (intro calls ballI conjI al) auto
    moreover have "\<exists>h. v_hist (z_run w') = v_hist (z_run w) @ h \<and> list_all (\<lambda>c. \<not> outside c) h"
      if "\<forall>s \<in> set (d_steps (n_def E)). field s f_type \<noteq> StCmd"
      using assms(4) AgentOnly that by (intro calls ballI conjI al) auto
    ultimately show ?thesis using AgentOnly async by auto
  next
    case FullWorkflow
    then have "\<exists>h. v_hist (z_run w') = v_hist (z_run w) @ h \<and> list_all (\<lambda>c. \<not> outside c) h"
      using assms(4) by (intro calls ballI conjI al) auto
    then show ?thesis using FullWorkflow async by auto
  next
    case Devbox
    then have "\<exists>h. v_hist (z_run w') = v_hist (z_run w) @ h \<and> list_all (\<lambda>c. \<not> outside c) h"
      using assms(4) by (intro calls ballI conjI al) auto
    then show ?thesis using Devbox async by auto
  qed
qed

end
