(* ===== verification/V1Log.thy ===== *)
theory V1Log
  imports V1Calls
begin

text \<open>
  What a run of the version 1 engine leaves in the log of its session and delivers on the event bus.
\<close>

section \<open>Operations that emit nothing\<close>

definition quiet_rel :: "World1 \<Rightarrow> World1 \<Rightarrow> bool" where
  "quiet_rel w w' \<longleftrightarrow> z_bus w' = z_bus w \<and> z_db w' = z_db w \<and> z_session w' = z_session w"

interpretation quiet: vm_relation quiet_rel
  by unfold_locales (simp_all add: quiet_rel_def)

named_theorems v1_quiet

abbreviation silent :: "('e, 'a) en \<Rightarrow> bool" where "silent \<equiv> within quiet_rel"

lemmas [v1_quiet] = quiet.pure quiet.bind quiet.catch

lemma quiet_basic [v1_quiet]:
  "silent (zask f)" "silent (zget g)" "(\<And>w. quiet_rel w (h w)) \<Longrightarrow> silent (zmod h)"
  by (auto simp: within_def zask_def zget_def zmod_def quiet_rel_def)

lemma quiet_run [v1_quiet]: "silent (zrun m)"
  by (auto simp: within_def zrun_def quiet_rel_def split: option.splits)

lemma quiet_push [v1_quiet]: "silent (push_record r)" "silent (zstore n v)"
  unfolding push_record_def zstore_def by (auto intro!: v1_quiet simp: quiet_rel_def Let_def split: prod.split)

lemma quiet_step [v1_quiet]: "silent (run_step E s cfg b)"
proof -
  have "\<exists>m. run_step E s cfg b w = zrun m w" for w unfolding run_step_def by blast
  then show ?thesis using quiet_run unfolding within_def by metis
qed

lemma quiet_note [v1_quiet]: "silent (note_result E s b ms r)"
  unfolding note_result_def Let_def
  by (auto intro!: v1_quiet simp: quiet_rel_def split: sum.split StepError.split option.split prod.split)

lemma quiet_join [v1_quiet]: "silent (join_task E t)"
  by (auto simp: within_def join_task_def quiet_rel_def split: option.splits)

lemma quiet_await [v1_quiet]: "silent (await_pending_deps E s)"
proof -
  have "silent (await_pending_step E n)" for n
    unfolding await_pending_step_def by (auto intro!: v1_quiet simp: quiet_rel_def split: option.split sum.split)
  then have "silent (await_all E ns)" for ns by (induction ns) (simp_all add: v1_quiet)
  then show ?thesis unfolding await_pending_deps_def by (intro v1_quiet)
qed

lemma quiet_drain [v1_quiet]: "silent (drain_pending E)"
proof -
  have "silent (settle_tasks E ts :: ('e, unit) en)" for ts
    by (induction ts) (auto simp: split_paired_all intro!: v1_quiet split: sum.split)
  then show ?thesis unfolding drain_pending_def by (intro v1_quiet) (simp_all add: quiet_rel_def)
qed

lemma quiet_others [v1_quiet]: "silent (skip_resumed ls s)" "silent (save_state E st)" "silent (spawn_async_step E s)"
  unfolding skip_resumed_def save_state_def spawn_async_step_def Let_def
  by (auto intro!: v1_quiet simp: quiet_rel_def split: option.split)

lemma quiet_box [v1_quiet]: "silent (sandbox_up E)" "silent (sandbox_down E)"
  unfolding sandbox_up_def start_proxy_def fill_sandbox_def sandbox_down_def stop_proxy_def box_call_def
  by (auto intro!: v1_quiet simp: quiet_rel_def split: sum.split option.split prod.split)

section \<open>One event\<close>

text \<open>On a session: the log takes the event, unless the append fails; it is delivered only after that.\<close>

definition in_session :: "uuid \<Rightarrow> World1 \<Rightarrow> bool" where
  "in_session i w \<longleftrightarrow> pg_ok (z_db w) \<and> map_option session_id (z_session w) = Some i"

definition stored_as :: "World1 \<Rightarrow> Event \<Rightarrow> json" where
  "stored_as w ev = column_value (z_db w) (event_json ev)"

definition grows :: "uuid \<Rightarrow> Event list \<Rightarrow> World1 \<Rightarrow> World1 \<Rightarrow> bool" where
  "grows i evs w w' \<longleftrightarrow>
    z_bus w' = z_bus w @ evs \<and> pg_stat (z_db w') = pg_stat (z_db w) \<and> in_session i w' \<and> stored_as w' = stored_as w \<and>
    (\<exists>L. pg_log (z_db w') = (pg_log (z_db w))(i := pg_log (z_db w) i @ L) \<and> subseq (map (stored_as w) evs) L)"

lemma grows_quiet: "quiet_rel w w' \<Longrightarrow> in_session i w \<Longrightarrow> grows i [] w w'"
  by (auto simp: quiet_rel_def grows_def in_session_def stored_as_def fun_eq_iff intro: exI [of _ "[]"])

lemma grows_trans: "grows i e1 w w1 \<Longrightarrow> grows i e2 w1 w2 \<Longrightarrow> grows i (e1 @ e2) w w2"
proof -
  assume a: "grows i e1 w w1" "grows i e2 w1 w2"
  then obtain L1 L2 where L: "pg_log (z_db w1) = (pg_log (z_db w))(i := pg_log (z_db w) i @ L1)" "subseq (map (stored_as w) e1) L1"
    "pg_log (z_db w2) = (pg_log (z_db w1))(i := pg_log (z_db w1) i @ L2)" "subseq (map (stored_as w) e2) L2"
    by (auto simp: grows_def)
  have "subseq (map (stored_as w) (e1 @ e2)) (L1 @ L2)"
    using L(2,4) by (simp add: list_emb_append_mono)
  then show ?thesis using a L by (auto simp: grows_def intro!: exI [of _ "L1 @ L2"])
qed

lemma grows_session: "grows i evs w w' \<Longrightarrow> in_session i w'"
  by (simp add: grows_def)

lemma emit_grows:
  assumes "emit_event E f w = Some (r, w')" and "in_session i w"
  shows "(\<exists>m. r = Inl m \<and> grows i [] w w') \<or> (\<exists>ts. r = Inr () \<and> grows i [f ts] w w')"
proof -
  obtain s where s: "z_session w = Some s" "session_id s = i" "pg_ok (z_db w)"
    using assms(2) by (auto simp: in_session_def)
  define ev where "ev = f (n_now E (z_tick w))"
  obtain k now reply where k: "n_append E (z_tick w) = (k, now, reply)" by (cases "n_append E (z_tick w)")
  obtain q db' where q: "pg_append (z_db w) i (event_json ev) k now reply = (q, db')" by fastforce
  note ok = pg_append_ok [OF s(3) q]
  have col: "column_value db' p = column_value (z_db w) p" for p using ok by (simp add: column_value_def)
  have w': "z_db w' = db' \<and> z_session w' = Some s \<and>
      (case q of Inl e \<Rightarrow> (\<exists>m. r = Inl m) \<and> z_bus w' = z_bus w | Inr x \<Rightarrow> r = Inr () \<and> z_bus w' = z_bus w @ [ev])"
    using assms(1) s k q by (auto simp: emit_event_def vbind_def zask_def ev_def split: sum.splits)
  show ?thesis
  proof (cases q)
    case (Inl e)
    then have "grows i [] w w'" using w' ok s
      by (auto simp: grows_def in_session_def stored_as_def col fun_eq_iff intro: exI [of _ "[]"])
    then show ?thesis using w' Inl by auto
  next
    case (Inr x)
    then have "grows i [ev] w w'"
      using w' ok s by (auto simp: grows_def in_session_def stored_as_def col fun_eq_iff
          intro!: exI [of _ "[stored_as w ev]"])
    then show ?thesis using w' Inr by (auto simp: ev_def)
  qed
qed

section \<open>One step\<close>

text \<open>What one step delivers: that it started, and at most one ending.\<close>

definition step_block :: "StepDef list \<Rightarrow> Event list \<Rightarrow> bool" where
  "step_block ss b \<longleftrightarrow> (\<exists>s \<in> set ss. \<exists>ts. let n = f_name (fields_of s); t = show_step_type (f_type (fields_of s)) in
     b = [StepStarted n t ts None] \<or>
     (\<exists>ms ts' i out x boxed. b = [StepStarted n t ts None, StepCompleted n t ms ts' i out x boxed None None None None]) \<or>
     (\<exists>e ms ts' boxed. b = [StepStarted n t ts None, StepFailed n t e ms ts' boxed]))"

text \<open>Blocks in a row.\<close>

definition blocks :: "StepDef list \<Rightarrow> Event list \<Rightarrow> bool" where
  "blocks ss evs \<longleftrightarrow> (\<exists>bs. evs = concat bs \<and> list_all (step_block ss) bs)"

lemma blocks_Nil [simp]: "blocks ss []"
  by (auto simp: blocks_def intro: exI [of _ "[]"])

lemma blocks_append: "blocks ss a \<Longrightarrow> blocks ss b \<Longrightarrow> blocks ss (a @ b)"
  unfolding blocks_def by (metis concat_append list_all_append)

lemma blocks_one: "step_block ss b \<Longrightarrow> blocks ss b"
  unfolding blocks_def by (rule exI [of _ "[b]"]) simp

definition steps_rel :: "uuid \<Rightarrow> StepDef list \<Rightarrow> World1 \<Rightarrow> World1 \<Rightarrow> bool" where
  "steps_rel i ss w w' \<longleftrightarrow> (in_session i w \<longrightarrow> (\<exists>evs. blocks ss evs \<and> grows i evs w w'))"

interpretation steps: vm_relation "steps_rel i ss" for i ss
proof
  show "steps_rel i ss w w" for w
    by (auto simp: steps_rel_def quiet_rel_def intro!: exI [of _ "[]"] grows_quiet)
  show "steps_rel i ss w w1 \<Longrightarrow> steps_rel i ss w1 w2 \<Longrightarrow> steps_rel i ss w w2" for w w1 w2
    unfolding steps_rel_def by (blast intro: blocks_append grows_trans dest: grows_session)
qed

lemma silent_steps: "silent m \<Longrightarrow> within (steps_rel i ss) m"
  unfolding within_def steps_rel_def by (meson blocks_Nil grows_quiet)

text \<open>The ending of a step: nothing, its completion or its failure.\<close>

definition ending :: "StepDef \<Rightarrow> Event list \<Rightarrow> bool" where
  "ending s evs \<longleftrightarrow> evs = [] \<or>
    (\<exists>ms ts i out x bx. evs = [StepCompleted (field s f_name) (show_step_type (field s f_type)) ms ts i out x bx None None None None]) \<or>
    (\<exists>e ms ts bx. evs = [StepFailed (field s f_name) (show_step_type (field s f_type)) e ms ts bx])"

definition ends :: "uuid \<Rightarrow> StepDef \<Rightarrow> World1 \<Rightarrow> World1 \<Rightarrow> bool" where
  "ends i s w w' \<longleftrightarrow> (in_session i w \<longrightarrow> (\<exists>evs. ending s evs \<and> grows i evs w w'))"

lemma quiet_ends:
  assumes "quiet_rel w w1" and "ends i s w1 w'"
  shows "ends i s w w'"
  unfolding ends_def
proof
  assume "in_session i w"
  then have g: "grows i [] w w1" by (rule grows_quiet [OF assms(1)])
  then obtain evs where "ending s evs" "grows i evs w1 w'"
    using assms(2) grows_session by (auto simp: ends_def)
  with grows_trans [OF g] show "\<exists>evs. ending s evs \<and> grows i evs w w'" by auto
qed

lemma ends_quiet: "quiet_rel w w' \<Longrightarrow> ends i s w w'"
  unfolding ends_def ending_def using grows_quiet by blast

lemma ends_silent: "silent m \<Longrightarrow> within (ends i s) m"
  by (simp add: within_def ends_quiet)

lemma ends_after: "silent m \<Longrightarrow> (\<And>a. within (ends i s) (f a)) \<Longrightarrow> within (ends i s) (vbind m f)"
  unfolding within_def vbind_def
  by (auto split: option.splits sum.splits) (blast intro: ends_quiet quiet_ends)+

lemma ends_before: "within (ends i s) m \<Longrightarrow> (\<And>a w. \<exists>r. f a w = Some (r, w)) \<Longrightarrow> within (ends i s) (vbind m f)"
  unfolding within_def vbind_def by (auto split: option.splits sum.splits) (metis option.inject prod.inject)

lemma emit_ends:
  assumes "\<And>ts. ending s [f ts]"
  shows "within (ends i s) (emit_event E f)"
  unfolding within_def ends_def
proof (intro allI impI)
  fix w r w' assume "emit_event E f w = Some (r, w')" "in_session i w"
  from emit_grows [OF this] show "\<exists>evs. ending s evs \<and> grows i evs w w'"
  proof (elim disjE exE conjE)
    assume "grows i [] w w'"
    then show ?thesis by (auto simp: ending_def)
  next
    fix ts assume "grows i [f ts] w w'"
    then show ?thesis using assms by blast
  qed
qed

lemma ends_map: "within (ends i s) m \<Longrightarrow> within (ends i s) (zmap_err g m)"
  by (auto simp: within_def zmap_err_def split: option.splits)

lemma ends_try: "within (ends i s) m \<Longrightarrow> within (ends i s) (vtry m)"
  by (auto simp: within_def vtry_def split: option.splits)

lemma emit_result_ends: "within (ends i s) (emit_result E s boxed ms r)"
proof -
  have "within (ends i s) (vbind (vtry (emit_event E (\<lambda>ts. StepFailed (field s f_name)
      (show_step_type (field s f_type)) e ms ts boxed))) (\<lambda>_. vret () :: (StepError, unit) en))" for e
    by (intro ends_before ends_try emit_ends) (auto simp: ending_def vret_def)
  moreover have "within (ends i s) (vret () :: (StepError, unit) en)"
    by (intro ends_silent quiet.pure)
  ultimately show ?thesis unfolding emit_result_def Let_def
    by (auto intro!: ends_after quiet_basic(2) ends_map emit_ends simp: ending_def split: sum.split StepError.split)
qed

lemma execute_steps:
  assumes "s \<in> set ss"
  shows "within (steps_rel i ss) (execute_step E s)"
proof -
  let ?n = "field s f_name" and ?t = "show_step_type (field s f_type)"
  let ?b = "should_sandbox_step (n_mode E) (field s f_type)"
  let ?rest = "vbind (vtry (run_step E s (step_config E s) ?b)) (\<lambda>r0.
     vbind (zask (n_ms E)) (\<lambda>ms.
     let r = res_bind r0 (parse_step_output (h_json (x_host (n_exec E))) (n_json_error E) s) in
     vbind (note_result E s ?b ms r) (\<lambda>_.
     vbind (emit_result E s ?b ms r) (\<lambda>_. vlift r))))"
  have rest: "within (ends i s) ?rest" unfolding Let_def
    by (intro ends_after quiet.catch quiet_step quiet_basic(1) quiet_note ends_before emit_result_ends)
      (simp add: vlift_def)
  show ?thesis unfolding within_def steps_rel_def
  proof (intro allI impI)
    fix w r w' assume run: "execute_step E s w = Some (r, w')" and ses: "in_session i w"
    obtain q w1 where q: "emit_event E (\<lambda>ts. StepStarted ?n ?t ts None) w = Some (q, w1)"
      using run by (auto simp: execute_step_def Let_def vbind_def zmap_err_def split: option.splits)
    consider (refused) m where "q = Inl m" "grows i [] w w1"
      | (started) ts where "q = Inr ()" "grows i [StepStarted ?n ?t ts None] w w1"
      using emit_grows [OF q ses] by blast
    then show "\<exists>evs. blocks ss evs \<and> grows i evs w w'"
    proof cases
      case refused
      then have "w' = w1" using run q by (auto simp: execute_step_def Let_def vbind_def zmap_err_def)
      then show ?thesis using refused blocks_Nil by blast
    next
      case started
      have "?rest w1 = Some (r, w')"
        using run q started(1) unfolding execute_step_def Let_def by (simp add: vbind_def [of "zmap_err _ _"] zmap_err_def)
      then obtain evs where "ending s evs" "grows i evs w1 w'"
        using rest grows_session [OF started(2)] unfolding within_def ends_def by blast
      then have "grows i (StepStarted ?n ?t ts None # evs) w w'" "step_block ss (StepStarted ?n ?t ts None # evs)"
        using grows_trans [OF started(2)] assms by (auto simp: step_block_def ending_def Let_def)
      then show ?thesis using blocks_one by blast
    qed
  qed
qed

lemma run_steps_log: "set ss \<subseteq> set all \<Longrightarrow> within (steps_rel i all) (run_steps E ls ss resuming v st)"
proof (induction ss arbitrary: resuming v st)
  case (Cons s ss)
  then have "within (steps_rel i all) (run_steps E ls ss r' v' st')" for r' v' st' by simp
  moreover have "within (steps_rel i all) (execute_step E s)" using Cons.prems by (intro execute_steps) simp
  ultimately show ?case
    by (auto simp: Let_def intro!: steps.bind steps.catch steps.pure silent_steps [OF quiet_await]
        silent_steps [OF quiet_others(1)] silent_steps [OF quiet_others(2)] silent_steps [OF quiet_others(3)]
        silent_steps [OF quiet_push(1)] silent_steps [OF quiet_push(2)]
        split: sum.split StepError.split ControlFlow.split)
qed (simp add: steps.pure)

section \<open>The run\<close>

definition closed_run :: "StepDef list \<Rightarrow> Event list \<Rightarrow> bool" where
  "closed_run ss evs \<longleftrightarrow> (\<exists>t mid ms t'. evs = WorkflowStarted t # mid @ [WorkflowCompleted ms t'] \<and> blocks ss mid)"

lemma finish_closes:
  assumes "finish_session E ok w = Some (q, w')" and "in_session i w"
  shows "q = Inr () \<and> z_bus w' = z_bus w \<and> pg_log (z_db w') = pg_log (z_db w) \<and>
    (pg_stat (z_db w') = pg_stat (z_db w) \<or>
     pg_stat (z_db w) i = Some Running \<and>
     pg_stat (z_db w') = (pg_stat (z_db w))(i \<mapsto> (if ok then Completed else Failed)))"
proof -
  obtain s where s: "z_session w = Some s" "session_id s = i" "pg_ok (z_db w)"
    using assms(2) by (auto simp: in_session_def)
  obtain now reply where k: "n_finish E (z_tick w) = (now, reply)" by (cases "n_finish E (z_tick w)")
  let ?st = "if ok then Completed else Failed"
  obtain f db' where f: "pg_finish_session (z_db w) i ?st now reply = (f, db')" by fastforce
  have "z_db w' = db' \<and> z_bus w' = z_bus w \<and> q = Inr ()"
    using assms(1) s k f
    by (auto simp: finish_session_def vbind_def zask_def zmod_def session_finish_def split: sum.splits option.splits)
  then show ?thesis using pg_finish_ok(2,3) [OF s(3) f] by auto
qed

text \<open>Computations that do not fail.\<close>

definition sure :: "('s, 'e, 'a) vm \<Rightarrow> bool" where
  "sure m \<longleftrightarrow> (\<forall>s e s'. m s \<noteq> Some (Inl e, s'))"

named_theorems v1_sure

lemma sure_basic [v1_sure]:
  "sure (vret a)" "sure (vtry m)" "sure (zask f)" "sure (zget g)" "sure (zmod h)"
  by (auto simp: sure_def vret_def vtry_def zask_def zget_def zmod_def split: option.splits)

lemma sure_bind [v1_sure]: "sure m \<Longrightarrow> (\<And>a. sure (f a)) \<Longrightarrow> sure (vbind m f)"
  by (auto simp: sure_def vbind_def split: option.splits sum.splits)

lemma sure_parts [v1_sure]:
  "sure (push_record r)" "sure (zstore n v)" "sure (skip_resumed ls s)" "sure (save_state E st)" "sure (spawn_async_step E s)"
  unfolding push_record_def zstore_def skip_resumed_def save_state_def spawn_async_step_def Let_def
  by (auto intro!: sure_basic sure_bind split: option.split)

lemma sure_run_steps: "sure (run_steps E ls ss resuming v st)"
  by (induction ss arbitrary: resuming v st)
    (auto simp: Let_def intro!: v1_sure split: sum.split StepError.split ControlFlow.split)

lemma sure_drain: "sure (drain_pending E)"
proof -
  have join: "sure (join_task E t :: ('e, StepOutput delivery) en)" for t
    by (auto simp: sure_def join_task_def split: option.splits)
  have "sure (settle_tasks E ts :: ('e, unit) en)" for ts
    by (induction ts) (auto simp: split_paired_all intro!: v1_sure join split: sum.split)
  then show ?thesis unfolding drain_pending_def by (intro v1_sure)
qed

lemma loop_log:
  assumes "loop_run E ls now w = Some (x, w')" and "in_session i w"
  shows "\<exists>evs. grows i evs w w' \<and>
    (case x of Inl e \<Rightarrow> evs = [] | Inr p \<Rightarrow> \<exists>t mid. evs = WorkflowStarted t # mid \<and> blocks (d_steps (n_def E)) mid)"
proof -
  let ?rest = "vbind (run_steps E ls (d_steps (n_def E)) (n_resume E \<noteq> None) OEmpty (new_state (d_name (n_def E)) now)) (\<lambda>p.
    vbind (drain_pending E) (\<lambda>_. vret p))"
  have rest: "within (steps_rel i (d_steps (n_def E))) ?rest"
    by (intro steps.bind run_steps_log subset_refl silent_steps quiet_drain quiet.pure)
  have ok: "sure ?rest" by (intro v1_sure sure_run_steps sure_drain)
  obtain q w1 where q: "emit_event E WorkflowStarted w = Some (q, w1)"
    using assms(1) by (auto simp: loop_run_def vbind_def split: option.splits)
  consider (refused) m where "q = Inl m" "grows i [] w w1" | (started) t where "q = Inr ()" "grows i [WorkflowStarted t] w w1"
    using emit_grows [OF q assms(2)] by blast
  then show ?thesis
  proof cases
    case refused
    then show ?thesis using assms(1) q by (auto simp: loop_run_def vbind_def)
  next
    case started
    then have r: "?rest w1 = Some (x, w')" using assms(1) q by (simp add: loop_run_def vbind_def [of "emit_event _ _"])
    then obtain mid where "blocks (d_steps (n_def E)) mid" "grows i mid w1 w'"
      using rest grows_session [OF started(2)] unfolding within_def steps_rel_def by blast
    moreover obtain p where "x = Inr p" using ok r by (cases x) (auto simp: sure_def)
    ultimately show ?thesis using grows_trans [OF started(2)] by fastforce
  qed
qed

text \<open>
  What is left after the loop: the sandbox goes down, the end is announced, the session is closed.
\<close>

lemma end_log:
  assumes "end_run E p w = Some (r, w')" and "in_session i w"
  shows "(\<exists>m. r = Inl m \<and> grows i [] w w') \<or>
    (\<exists>ms t w1. grows i [WorkflowCompleted ms t] w w1 \<and> z_bus w' = z_bus w1 \<and> pg_log (z_db w') = pg_log (z_db w1) \<and>
      (pg_stat (z_db w') = pg_stat (z_db w) \<or> pg_stat (z_db w) i = Some Running \<and>
       pg_stat (z_db w') = (pg_stat (z_db w))(i \<mapsto> (case r of Inr v \<Rightarrow> Completed | Inl e \<Rightarrow> Failed))))"
proof -
  let ?down = "vtry (if n_mode E \<noteq> Disabled then sandbox_down E else vret ()) :: (string, (string, unit) result) en"
  let ?ok = "case pg_result p of Inr u \<Rightarrow> True | Inl e \<Rightarrow> False"
  obtain d w1 where d: "?down w = Some (Inr d, w1)"
    using assms(1) by (auto simp: end_run_def vbind_def vtry_def split: option.splits)
  have "silent ?down" by (auto intro!: quiet.catch quiet_box quiet.pure)
  then have q1: "quiet_rel w w1" using d unfolding within_def by blast
  define w2 where "w2 = w1\<lparr>z_tick := z_tick w1 + 1\<rparr>"
  define ms where "ms = n_ms E (z_tick w1)"
  have g2: "grows i [] w w2" using q1 assms(2) by (intro grows_quiet) (auto simp: quiet_rel_def w2_def)
  have tail: "vbind (emit_event E (WorkflowCompleted ms)) (\<lambda>_. vbind (finish_session E ?ok)
      (\<lambda>_. vbind (vlift (pg_result p)) (\<lambda>_. vret (pg_last p)))) w2 = Some (r, w')"
    using assms(1) d unfolding end_run_def by (simp add: vbind_def [of ?down] vbind_def [of "zask _"] zask_def w2_def ms_def)
  obtain q w3 where q: "emit_event E (WorkflowCompleted ms) w2 = Some (q, w3)"
    using tail by (auto simp: vbind_def split: option.splits)
  consider (refused) m where "q = Inl m" "grows i [] w2 w3" | (ended) t where "q = Inr ()" "grows i [WorkflowCompleted ms t] w2 w3"
    using emit_grows [OF q grows_session [OF g2]] by blast
  then show ?thesis
  proof cases
    case refused
    then show ?thesis using tail q grows_trans [OF g2] by (auto simp: vbind_def)
  next
    case ended
    obtain f w4 where f: "finish_session E ?ok w3 = Some (f, w4)"
      using tail q ended(1) by (auto simp: vbind_def split: option.splits)
    note fin = finish_closes [OF f grows_session [OF ended(2)]]
    have "w4 = w'" "?ok \<longleftrightarrow> (\<exists>v. r = Inr v)"
      using tail q ended(1) f fin by (auto simp: vbind_def vlift_def vret_def split: sum.splits)
    have g: "grows i [WorkflowCompleted ms t] w w3" using grows_trans [OF g2 ended(2)] by simp
    then have st: "pg_stat (z_db w3) = pg_stat (z_db w)" by (simp add: grows_def)
    have "pg_stat (z_db w') = pg_stat (z_db w) \<or> pg_stat (z_db w) i = Some Running \<and>
       pg_stat (z_db w') = (pg_stat (z_db w))(i \<mapsto> (case r of Inr v \<Rightarrow> Completed | Inl e \<Rightarrow> Failed))"
      using fin \<open>w4 = w'\<close> \<open>?ok \<longleftrightarrow> (\<exists>v. r = Inr v)\<close> unfolding st by (cases r) auto
    then show ?thesis using g fin \<open>w4 = w'\<close> by blast
  qed
qed

text \<open>
  C30: the log of a version 1 run. On a session, whatever append fails before or after its commit: the log of the
  session grows and no other does; every event that reaches the bus is in the log, as its column keeps it,
  in the same order;
  and the status of the session changes only after the whole run was announced: the start, for every
  step that ran at most one block of its start with its completion or its failure, and the end. The end is announced as
  \<open>workflow_completed\<close> for a run that failed, too; what tells the two apart is the status, completed exactly
  when the run returns an output.
\<close>

theorem v1_session_log:
  assumes "run_engine E w = Some (r, w')" and "in_session i w"
  shows "\<exists>evs L. z_bus w' = z_bus w @ evs \<and> pg_log (z_db w') = (pg_log (z_db w))(i := pg_log (z_db w) i @ L) \<and>
    subseq (map (stored_as w) evs) L \<and>
    (case r of Inr v \<Rightarrow> closed_run (d_steps (n_def E)) evs | Inl e \<Rightarrow> True) \<and>
    (if pg_stat (z_db w') = pg_stat (z_db w) then True
     else closed_run (d_steps (n_def E)) evs \<and> pg_stat (z_db w) i = Some Running \<and>
       pg_stat (z_db w') = (pg_stat (z_db w))(i \<mapsto> (case r of Inr v \<Rightarrow> Completed | Inl e \<Rightarrow> Failed)))"
proof -
  have up: "within quiet_rel (start_run E)"
    unfolding start_run_def by (auto intro!: v1_quiet)
  consider (failed) e where "start_run E w = Some (Inl e, w')" "r = Inl e"
    | (started) ls now w1 where "start_run E w = Some (Inr (ls, now), w1)" "vbind (loop_run E ls now) (end_run E) w1 = Some (r, w')"
    using assms(1) by (auto simp: run_engine_def vbind_def split: option.splits sum.splits prod.splits)
  then show ?thesis
  proof cases
    case failed
    then have "grows i [] w w'" using up assms(2) by (intro grows_quiet) (auto simp: within_def)
    then show ?thesis using failed(2) by (auto simp: grows_def intro!: exI [of _ "[]"])
  next
    case started
    have g1: "grows i [] w w1" using started(1) up assms(2) by (intro grows_quiet) (auto simp: within_def)
    obtain x w2 where x: "loop_run E ls now w1 = Some (x, w2)"
      using started(2) by (auto simp: vbind_def split: option.splits)
    from loop_log [OF x grows_session [OF g1]] obtain evs where evs: "grows i evs w1 w2"
      "case x of Inl e \<Rightarrow> evs = [] | Inr p \<Rightarrow> \<exists>t mid. evs = WorkflowStarted t # mid \<and> blocks (d_steps (n_def E)) mid" by blast
    have g2: "grows i evs w w2" using grows_trans [OF g1 evs(1)] by simp
    show ?thesis
    proof (cases x)
      case (Inl e)
      then have "r = Inl e" "w2 = w'" using started(2) x by (auto simp: vbind_def)
      then show ?thesis using g2 by (auto simp: grows_def)
    next
      case (Inr p)
      then have fin: "end_run E p w2 = Some (r, w')" using started(2) x by (simp add: vbind_def)
      consider (lost) m where "r = Inl m" "grows i [] w2 w'"
        | (closed) ms t w3 where "grows i [WorkflowCompleted ms t] w2 w3" "z_bus w' = z_bus w3" "pg_log (z_db w') = pg_log (z_db w3)"
          "pg_stat (z_db w') = pg_stat (z_db w2) \<or> pg_stat (z_db w2) i = Some Running \<and>
             pg_stat (z_db w') = (pg_stat (z_db w2))(i \<mapsto> (case r of Inr v \<Rightarrow> Completed | Inl e \<Rightarrow> Failed))"
        using end_log [OF fin grows_session [OF g2]] by blast
      then show ?thesis
      proof cases
        case lost
        have "grows i evs w w'" using grows_trans [OF g2 lost(2)] by simp
        then show ?thesis using lost(1) by (auto simp: grows_def)
      next
        case closed
        let ?evs = "evs @ [WorkflowCompleted ms t]"
        have run: "closed_run (d_steps (n_def E)) ?evs"
          using evs(2) Inr by (auto simp: closed_run_def)
        obtain L where L: "z_bus w3 = z_bus w @ ?evs" "pg_stat (z_db w3) = pg_stat (z_db w)"
          "pg_log (z_db w3) = (pg_log (z_db w))(i := pg_log (z_db w) i @ L)" "subseq (map (stored_as w) ?evs) L"
          using grows_trans [OF g2 closed(1)] by (auto simp: grows_def)
        have "pg_stat (z_db w2) = pg_stat (z_db w)" using g2 by (simp add: grows_def)
        then have "if pg_stat (z_db w') = pg_stat (z_db w) then True
           else closed_run (d_steps (n_def E)) ?evs \<and> pg_stat (z_db w) i = Some Running \<and>
             pg_stat (z_db w') = (pg_stat (z_db w))(i \<mapsto> (case r of Inr v \<Rightarrow> Completed | Inl e \<Rightarrow> Failed))"
          using closed(4) run by auto
        moreover have "case r of Inr v \<Rightarrow> closed_run (d_steps (n_def E)) ?evs | Inl e \<Rightarrow> True"
          using run by (simp split: sum.split)
        ultimately show ?thesis using L(1,3,4) closed(2,3) by metis
      qed
    qed
  qed
qed

end
