(* ===== verification/V1Resume.thy ===== *)
theory V1Resume
  imports V1Calls
begin

text \<open>
  What a resumed run of the version 1 engine restores from the state file, and what it saves.
\<close>

section \<open>What is restored\<close>

lemma get_step_store: "get_step (fst (store_output n v c sh)) m = (if m = n then Some v else get_step c m)"
  by (cases c; cases "outer c") (auto simp: store_output_def on_frame_def update_conv')

lemma get_parsed_store: "get_parsed (fst (store_output n v c sh)) m = get_parsed c m"
  by (cases c; cases "outer c") (auto simp: store_output_def on_frame_def)

text \<open>
  Of the steps that were passed over, those the state knows have their output in the context again; no
  parsed value is back, and nothing else moved but the records.
\<close>

definition restored :: "WorkflowState \<Rightarrow> StepDef list \<Rightarrow> World1 \<Rightarrow> World1 \<Rightarrow> bool" where
  "restored ls pre w w1 \<longleftrightarrow>
    w1 = w\<lparr>z_run := z_run w1, z_ctx := z_ctx w1, z_records := z_records w1\<rparr> \<and> v_hist (z_run w1) = v_hist (z_run w) \<and>
    (\<forall>n. get_step (z_ctx w1) n =
       (if n \<in> (\<lambda>t. field t f_name) ` set pre \<and> map_of (ws_steps ls) n \<noteq> None then map_of (ws_steps ls) n
        else get_step (z_ctx w) n)) \<and>
    (\<forall>n. get_parsed (z_ctx w1) n = get_parsed (z_ctx w) n)"

lemma restored_Nil: "restored ls [] w w"
  by (simp add: restored_def)

lemma skip_restores: "\<exists>w1. skip_resumed (Some ls) s w = Some (Inr (), w1) \<and> restored ls [s] w w1"
proof (cases "map_of (ws_steps ls) (field s f_name)")
  case None
  then show ?thesis by (auto simp: skip_resumed_def Let_def vret_def restored_def)
next
  case (Some v)
  obtain c sh where cs: "store_output (field s f_name) v (z_ctx w) (v_shared (z_run w)) = (c, sh)" by fastforce
  have c: "c = fst (store_output (field s f_name) v (z_ctx w) (v_shared (z_run w)))" by (simp add: cs)
  show ?thesis
    using Some unfolding skip_resumed_def restored_def
    by (simp add: Let_def cs vbind_def zstore_def zmod_def push_record_def)
      (auto simp: c get_step_store get_parsed_store)
qed

lemma restored_Cons:
  assumes "restored ls [s] w w1" and "restored ls pre w1 w2"
  shows "restored ls (s # pre) w w2"
proof -
  have "w1 = w\<lparr>z_run := z_run w1, z_ctx := z_ctx w1, z_records := z_records w1\<rparr>"
    "w2 = w1\<lparr>z_run := z_run w2, z_ctx := z_ctx w2, z_records := z_records w2\<rparr>"
    using assms unfolding restored_def by blast+
  then have "w2 = w\<lparr>z_run := z_run w2, z_ctx := z_ctx w2, z_records := z_records w2\<rparr>"
    by (metis (no_types, lifting) World1.surjective World1.update_convs(1,2,3))
  then show ?thesis using assms unfolding restored_def by auto
qed

lemma run_steps_skips:
  assumes "\<forall>t \<in> set pre. n_resume E \<noteq> Some (field t f_name)"
  shows "\<exists>w1. run_steps E (Some ls) (pre @ ss) True v st w = run_steps E (Some ls) ss True v st w1 \<and> restored ls pre w w1"
  using assms
proof (induction pre arbitrary: w)
  case Nil
  then show ?case using restored_Nil by auto
next
  case (Cons t pre)
  obtain w1 where w1: "(skip_resumed (Some ls) t :: (string, unit) en) w = Some (Inr (), w1)" "restored ls [t] w w1"
    using skip_restores by blast
  obtain w2 where w2: "run_steps E (Some ls) (pre @ ss) True v st w1 = run_steps E (Some ls) ss True v st w2"
    "restored ls pre w1 w2"
    using Cons by auto
  have "run_steps E (Some ls) ((t # pre) @ ss) True v st w = run_steps E (Some ls) (pre @ ss) True v st w1"
    using Cons.prems w1(1) by (simp add: Let_def vbind_def)
  then show ?case using w2(1) restored_Cons [OF w1(2) w2(2)] by auto
qed

section \<open>What is saved\<close>

definition saves :: "string set \<Rightarrow> World1 \<Rightarrow> World1 \<Rightarrow> bool" where
  "saves K w w' \<longleftrightarrow> z_saved w' = z_saved w \<or> (\<exists>st. z_saved w' = Some st \<and> fst ` set (ws_steps st) \<subseteq> K)"

interpretation saves: vm_relation "saves K" for K
  by unfold_locales (auto simp: saves_def)

named_theorems v1_saves

lemmas [v1_saves] = saves.pure saves.bind saves.catch

lemma saves_basic [v1_saves]:
  "within (saves K) (zask f)" "within (saves K) (zget g)"
  "(\<And>w. z_saved (h w) = z_saved w) \<Longrightarrow> within (saves K) (zmod h)"
  "within (saves K) (zrun m)" "within (saves K) (join_task E t)" "within (saves K) (emit_event E ev)"
  by (auto simp: within_def zask_def zget_def zmod_def zrun_def join_task_def emit_event_def vbind_def saves_def
      split: option.splits prod.splits sum.splits)

lemma saves_map [v1_saves]: "within (saves K) m \<Longrightarrow> within (saves K) (zmap_err g m)"
  by (auto simp: within_def zmap_err_def split: option.splits)

lemma saves_push [v1_saves]: "within (saves K) (push_record r)" "within (saves K) (zstore n v)"
  unfolding push_record_def zstore_def by (auto intro!: v1_saves simp: Let_def split: prod.split)

lemma saves_step [v1_saves]: "within (saves K) (run_step E s cfg b)"
proof -
  have "\<exists>m. run_step E s cfg b w = zrun m w" for w unfolding run_step_def by blast
  then show ?thesis using saves_basic(4) [of K] unfolding within_def by metis
qed

lemma saves_execute [v1_saves]: "within (saves K) (execute_step E s)"
  unfolding execute_step_def note_result_def emit_result_def Let_def
  by (auto intro!: v1_saves split: sum.split StepError.split option.split prod.split)

lemma saves_await [v1_saves]: "within (saves K) (await_pending_deps E s)"
proof -
  have "within (saves K) (await_pending_step E n)" for n
    unfolding await_pending_step_def by (auto intro!: v1_saves split: option.split sum.split)
  then have "within (saves K) (await_all E ns)" for ns by (induction ns) (simp_all add: v1_saves)
  then show ?thesis unfolding await_pending_deps_def by (intro v1_saves)
qed

lemma saves_drain [v1_saves]: "within (saves K) (drain_pending E)"
proof -
  have "within (saves K) (settle_tasks E ts :: ('e, unit) en)" for ts
    by (induction ts) (auto simp: split_paired_all intro!: v1_saves split: sum.split)
  then show ?thesis unfolding drain_pending_def by (intro v1_saves) simp_all
qed

lemma saves_others [v1_saves]: "within (saves K) (skip_resumed ls s)" "within (saves K) (spawn_async_step E s)"
  unfolding skip_resumed_def spawn_async_step_def Let_def by (auto intro!: v1_saves split: option.split)

lemma saves_box [v1_saves]: "within (saves K) (sandbox_up E)" "within (saves K) (sandbox_down E)"
  unfolding sandbox_up_def start_proxy_def fill_sandbox_def sandbox_down_def stop_proxy_def box_call_def
  by (auto intro!: v1_saves split: sum.split option.split prod.split)

lemma saves_state: "fst ` set (ws_steps st) \<subseteq> K \<Longrightarrow> within (saves K) (save_state E st)"
  by (auto simp: within_def save_state_def vbind_def zask_def zmod_def vret_def saves_def)

lemma saves_steps:
  assumes "fst ` set (ws_steps st) \<subseteq> K" and "(\<lambda>t. field t f_name) ` set ss \<subseteq> K"
  shows "within (saves K) (run_steps E ls ss resuming v st)"
  using assms
proof (induction ss arbitrary: resuming v st)
  case (Cons s ss)
  have rest: "within (saves K) (run_steps E ls ss r' v' st')" if "fst ` set (ws_steps st') \<subseteq> K" for r' v' st'
    using Cons that by simp
  have up: "fst ` set (ws_steps (st\<lparr>ws_steps := AList.update (field s f_name) out (ws_steps st)\<rparr>)) \<subseteq> K" for out
    using Cons.prems by (simp add: dom_update)
  note step = saves_state [OF up] rest [OF up] rest [OF Cons.prems(1)]
  show ?case
    by (auto simp: Let_def intro!: v1_saves step split: sum.split StepError.split ControlFlow.split)
qed (simp add: v1_saves)

lemma saves_resumed:
  assumes "\<forall>t \<in> set pre. n_resume E \<noteq> Some (field t f_name)"
    and "fst ` set (ws_steps st) \<subseteq> K" and "(\<lambda>t. field t f_name) ` set ss \<subseteq> K"
  shows "within (saves K) (run_steps E ls (pre @ ss) True v st)"
  using assms(1) by (induction pre) (auto simp: Let_def intro!: v1_saves saves_steps [OF assms(2,3)])

lemma saves_ends: "within (saves K) (start_run E)" "within (saves K) (end_run E p)"
  unfolding start_run_def end_run_def finish_session_def
  by (auto intro!: v1_saves split: prod.split option.split)

text \<open>
  C31: a resumed run of the version 1 engine. Before the step it resumes at, nothing is executed, asked or logged:
  of the steps passed over, those in the state file have their output back in the context and the loop goes on
  with the first step that is not passed over. Two things are lost. The parsed value of a restored output is
  not restored, so a step of type \<open>json\<close> is back as a text. And the state the run saves holds only steps from the
  resume point on, so that a second resume has nothing to restore for the steps before.
\<close>

theorem v1_resume:
  assumes "n_resume E = Some (field s f_name)" and "d_steps (n_def E) = pre @ s # post"
    and "\<forall>t \<in> set pre. field t f_name \<noteq> field s f_name"
  shows "(\<exists>w1. run_steps E (Some ls) (d_steps (n_def E)) True v st w = run_steps E (Some ls) (s # post) False v st w1 \<and>
      restored ls pre w w1) \<and>
    (\<forall>r w'. run_engine E w = Some (r, w') \<longrightarrow> saves ((\<lambda>t. field t f_name) ` set (s # post)) w w')"
proof -
  let ?K = "(\<lambda>t. field t f_name) ` set (s # post)"
  have pre: "\<forall>t \<in> set pre. n_resume E \<noteq> Some (field t f_name)" using assms(1,3) by auto
  obtain w1 where w1: "run_steps E (Some ls) (pre @ s # post) True v st w = run_steps E (Some ls) (s # post) True v st w1"
    "restored ls pre w w1"
    using run_steps_skips [OF pre] by blast
  have "run_steps E (Some ls) (s # post) True v st w1 = run_steps E (Some ls) (s # post) False v st w1"
    using assms(1) by (simp add: Let_def)
  moreover have "within (saves ?K) (run_engine E)"
    unfolding run_engine_def loop_run_def using assms(1,2)
    by (auto intro!: v1_saves saves_ends saves_resumed [OF pre] simp: new_state_def split: prod.split)
  ultimately show ?thesis using w1 assms(2) unfolding within_def by auto
qed

end
