(* ===== verification/V1Demo.thy ===== *)
theory V1Demo
  imports V1Props V1Log V1Resume
begin

text \<open>
  A concrete run of the version 1 engine: an agent, and a scope with a command, in the sandbox mode
  \<open>FullWorkflow\<close> and on a session. It witnesses the theorems on the engine.
\<close>

definition demo1_host :: V1Host where
  "demo1_host = \<lparr>h_tpl = (\<lambda>h. \<lparr>te_alnum = (\<lambda>c. False), te_exists = (\<lambda>p. False), te_read = (\<lambda>p. Inl []),
       te_tera = (\<lambda>n t v. Inr t)\<rparr>),
     h_env = (\<lambda>h v. None), h_proc = (\<lambda>h c. ProcRan [] [] (Some 0) 1), h_box = (\<lambda>h c. BoxRan ''out'' [] 0 1),
     h_agent = (\<lambda>h c. AgentTimeout), h_rig = (\<lambda>h r. RigTimeout), h_json = (\<lambda>s. None), h_rhai = (\<lambda>m s. Inl [])\<rparr>"

definition demo1_step :: StepDef where
  "demo1_step = StepDef ((empty_fields ''call'' StCall)\<lparr>f_scope := Some ''s''\<rparr>) None"

definition demo1_agent :: StepDef where
  "demo1_agent = StepDef ((empty_fields ''ask'' StAgent)\<lparr>f_prompt := Some ''why''\<rparr>) None"

definition demo1_def :: WorkflowDef where
  "demo1_def = (empty_def ''w'')\<lparr>
     d_scopes := [(''s'', \<lparr>sd_steps = [StepDef ((empty_fields ''a'' StCmd)\<lparr>f_run := Some ''make''\<rparr>) None], sd_outputs = None\<rparr>)],
     d_steps := [demo1_agent, demo1_step]\<rparr>"

definition demo1_exec :: V1Exec where
  "demo1_exec = \<lparr>x_host = demo1_host, x_yaml = \<lparr>yaml_eq = (=), yaml_to_value = (\<lambda>v. Inr JNull)\<rparr>, x_re = (\<lambda>p. None),
     x_scopes = d_scopes demo1_def, x_config = None, x_boxed = False, x_print = (\<lambda>j. []), x_show_f64 = (\<lambda>x. []),
     x_rank = (\<lambda>h i. i), x_panic = (\<lambda>h i. None), x_late = (\<lambda>h i. False), x_cut = (\<lambda>h i. 0)\<rparr>"

definition demo1_engine :: "string option \<Rightarrow> Engine1" where
  "demo1_engine resume = \<lparr>n_def = demo1_def, n_resume = resume, n_mode = FullWorkflow, n_repo = None, n_exec = demo1_exec,
     n_depth = 2, n_word = (\<lambda>c. False), n_debug = (\<lambda>f. []), n_json_error = (\<lambda>t. []), n_show_db = (\<lambda>e. []),
     n_now = (\<lambda>k. []), n_ms = (\<lambda>k. 0), n_append = (\<lambda>k. (''e'', [], Commits)), n_finish = (\<lambda>k. ([], Commits)),
     n_api_key = False, n_box = (\<lambda>k op. Inr ()), n_clone = (\<lambda>k. Inr (True, [])),
     n_entries = Some [(''stepyard-w-1.state.json'', Some 1)],
     n_load = (\<lambda>p. Inr (new_state ''w'' [])), n_save = (\<lambda>k. True), n_task_panic = (\<lambda>k. None), n_drain = (\<lambda>n. 0)\<rparr>"

definition demo1_world :: World1 where
  "demo1_world = \<lparr>z_run = \<lparr>v_hist = [], v_shared = shared0\<rparr>, z_ctx = new_context ''t'' [], z_records = [], z_pending = [],
     z_spawned = 0, z_boxed = False, z_proxy = False, z_ops = [],
     z_db = tables [\<lparr>row_id = ''s1'', row_workflow_id = [], row_tenant_id = [],
       row_status = ''running'', row_started_at = [], row_ended_at = None\<rparr>] [],
     z_session = Some \<lparr>session_id = ''s1'', session_workflow_id = [], session_tenant_id = [],
       status = Running, session_started_at = [], ended_at = None\<rparr>,
     z_bus = [], z_saved = None, z_tick = 0\<rparr>"

lemmas demo1_simps = demo1_engine_def demo1_world_def demo1_exec_def demo1_def_def demo1_step_def demo1_agent_def
  empty_def_def empty_fields_def

lemma demo1_valid: "validate_def demo1_def = []"
proof -
  have "refs (d_scopes demo1_def) = {}"
    by (auto simp: refs_def runs_scope_def demo1_simps split: if_splits)
  then have "\<forall>n \<in> set (map fst (d_scopes demo1_def)). \<not> has_cycle (d_scopes demo1_def) {} n"
    unfolding no_cycle_iff by (simp add: acyclic_def)
  moreover have "trim ''make'' = ''make''" "trim ''why'' = ''why''" by code_simp+
  ultimately show ?thesis
    by (auto simp: validate_def_def Let_def duplicates_empty_iff validate_steps_Nil_iff scope_errors_def
        complete_step_def blank_def demo1_simps)
qed

lemma demo1_runs: "\<exists>r w'. run_engine (demo1_engine resume) demo1_world = Some (r, w')"
proof -
  have "depth_ok (demo1_engine resume)"
    using valid_acyclic [OF demo1_valid] by (simp add: depth_ok_def demo1_simps)
  then show ?thesis using returns_run_engine unfolding returns_def by fastforce
qed

theorem v1_run_returns_witness:
  "run_engine (demo1_engine None) demo1_world \<noteq> None \<and>
   (\<forall>k. run_engine ((demo1_engine None)\<lparr>n_depth := n_depth (demo1_engine None) + k\<rparr>) demo1_world =
     run_engine (demo1_engine None) demo1_world)"
proof (rule v1_run_returns)
  show "validate_def (n_def (demo1_engine None)) = []" using demo1_valid by (simp add: demo1_engine_def)
qed (simp_all add: demo1_simps)

theorem sandbox_confinement_witness:
  "\<exists>r w'. run_engine (demo1_engine None) demo1_world = Some (r, w') \<and>
     (\<exists>h. v_hist (z_run w') = h \<and> list_all (\<lambda>c. \<not> outside c) h)"
proof -
  obtain r w' where run: "run_engine (demo1_engine None) demo1_world = Some (r, w')"
    using demo1_runs by blast
  have "\<not> z_boxed demo1_world" "z_pending demo1_world = []"
    "\<forall>s \<in> set (d_steps (n_def (demo1_engine None))). f_async_exec (fields_of s) \<noteq> Some True"
    by (simp_all add: demo1_simps)
  with sandbox_confinement [OF run] run show ?thesis
    by (auto simp: demo1_engine_def demo1_world_def)
qed

lemma demo1_session: "in_session ''s1'' demo1_world"
  by (simp add: in_session_def demo1_world_def pg_ok_def events_of_def find_session_def row_stat_def status_from_db_def)

theorem v1_session_log_witness:
  "\<exists>r w' evs L. run_engine (demo1_engine None) demo1_world = Some (r, w') \<and> z_bus w' = evs \<and>
     pg_log (z_db w') ''s1'' = L \<and> subseq (map (stored_as demo1_world) evs) L"
proof -
  obtain r w' where run: "run_engine (demo1_engine None) demo1_world = Some (r, w')"
    using demo1_runs by blast
  have "pg_log (z_db demo1_world) ''s1'' = []" "z_bus demo1_world = []"
    by (simp_all add: demo1_world_def pg_log_def events_of_def)
  with v1_session_log [OF run demo1_session] run show ?thesis by auto
qed

theorem v1_resume_witness:
  "let E = demo1_engine (Some ''call''); ls = \<lparr>ws_workflow = ''w'', ws_session_id = None, ws_timestamp = [],
       ws_steps = [(''ask'', cmd_text ''because'')]\<rparr> in
   (\<exists>w1. run_steps E (Some ls) [demo1_agent, demo1_step] True OEmpty (new_state ''w'' []) demo1_world =
      run_steps E (Some ls) [demo1_step] False OEmpty (new_state ''w'' []) w1 \<and>
      get_step (z_ctx w1) ''ask'' = Some (cmd_text ''because'')) \<and>
   (\<exists>r w'. run_engine E demo1_world = Some (r, w') \<and> saves {''call''} demo1_world w')"
proof -
  let ?E = "demo1_engine (Some ''call'')"
  have s: "d_steps (n_def ?E) = [demo1_agent] @ demo1_step # []" "n_resume ?E = Some (field demo1_step f_name)"
    "\<forall>t \<in> set [demo1_agent]. field t f_name \<noteq> field demo1_step f_name"
    "(\<lambda>t. field t f_name) ` set (demo1_step # []) = {''call''}" "field demo1_agent f_name = ''ask''"
    by (simp_all add: demo1_simps)
  show ?thesis
    using v1_resume [OF s(2,1,3), where ls = "\<lparr>ws_workflow = ''w'', ws_session_id = None, ws_timestamp = [],
         ws_steps = [(''ask'', cmd_text ''because'')]\<rparr>" and v = OEmpty and st = "new_state ''w'' []" and w = demo1_world]
      demo1_runs [of "Some ''call''"] s(4,5)
    unfolding Let_def restored_def s(1) by fastforce
qed

end
