(* ===== verification/V1Access.thy ===== *)
theory V1Access
  imports V1Calls
begin

text \<open>
  What the preprocessing of version 1 makes of the accessors of a template.
\<close>

section \<open>Templates that stay as they are\<close>

lemma str_contains_sublist: "str_contains s p \<longleftrightarrow> sublist p s"
proof
  assume "str_contains s p"
  then obtain j where "prefix p (drop j s)"
    unfolding str_contains_def find_sub_None_iff starts_with_prefix by blast
  then show "sublist p s" by (meson prefix_imp_sublist sublist_drop sublist_order.order.trans)
next
  assume "sublist p s"
  then obtain u v where "s = u @ p @ v" by (auto simp: sublist_def)
  then have "starts_with (drop (length u) s) p" "length u \<le> length s" by simp_all
  then show "str_contains s p" unfolding str_contains_def find_sub_None_iff by blast
qed

text \<open>What is cut off at the ends is not needed for the rest.\<close>

lemma trim_start_suffix: "suffix (trim_start s) s"
  by (induction s rule: trim_start.induct) (auto intro: suffix_ConsI)

lemma trim_rev_suffix: "suffix (trim_rev s) s"
  by (induction s rule: trim_rev.induct) (auto intro: suffix_ConsI)

lemma trim_sublist: "sublist (trim s) s"
proof -
  have "prefix (trim s) (trim_start s)"
    using trim_rev_suffix [of "rev (trim_start s)"] by (simp add: trim_def suffix_to_prefix)
  then show ?thesis
    by (meson prefix_imp_sublist suffix_imp_sublist sublist_order.order.trans trim_start_suffix)
qed

text \<open>A template with none of the four constructs.\<close>

definition plain_text :: "string \<Rightarrow> bool" where
  "plain_text s \<longleftrightarrow> CHR ''?'' \<notin> set s \<and> CHR ''!'' \<notin> set s \<and> \<not> str_contains s from_open \<and> \<not> str_contains s ''prompts.''"

lemma plain_sublist: "plain_text s \<Longrightarrow> sublist t s \<Longrightarrow> plain_text t"
  unfolding plain_text_def str_contains_sublist by (meson set_mono_sublist subsetD sublist_order.order.trans)

lemmas plain_drop = plain_sublist [OF _ sublist_drop] and plain_take = plain_sublist [OF _ sublist_take]

lemma starts_with_contains: "starts_with s p \<Longrightarrow> str_contains s p"
  by (simp add: starts_with_prefix str_contains_sublist prefix_imp_sublist)

lemma plain_expr:
  assumes "plain_text e"
  shows "process_expr T sh c e ij = Inr (''{{'' @ e @ ''}}'', ij)"
proof -
  have t: "plain_text (trim e)"
    using assms trim_sublist by (rule plain_sublist)
  have "strip_last ch (trim e) = None" if "ch \<notin> set (trim e)" for ch
    using that by (auto simp: strip_last_def)
  then have "strip_last (CHR ''?'') (trim e) = None" "strip_last (CHR ''!'') (trim e) = None"
    "\<not> starts_with (trim e) ''prompts.''"
    using t starts_with_contains unfolding plain_text_def by blast+
  moreover have "transform_from_calls U c b (trim e) ij = Inr (trim e, ij)" for U b
    using t by (simp add: transform_from_calls_def plain_text_def)
  ultimately show ?thesis by (simp add: process_expr_def process_plain_def)
qed

lemma find_sub_parts: "find_sub p s = Some i \<Longrightarrow> s = take i s @ p @ drop (i + length p) s"
  by (metis append_take_drop_id drop_drop find_sub_SomeD starts_withD add.commute)

lemma plain_preprocess: "plain_text s \<Longrightarrow> preprocess T sh c out ij s = Inr (out @ s, ij)"
proof (induction "length s" arbitrary: s out rule: less_induct)
  case less
  note IH = less(1) [OF _ plain_drop [OF less(2)]]
  show ?case
  proof (cases "s = []")
    case False
    then have len: "0 < length s" by simp
    show ?thesis
    proof (cases "next_opening s")
      case NoOpening
      then show ?thesis using False by (simp add: preprocess.simps [of T sh c out ij s])
    next
      case (TagAt t)
      then have tag: "find_sub ''{%'' s = Some t" by (auto simp: next_opening_def split: option.splits if_splits)
      show ?thesis
      proof (cases "find_sub ''%}'' (drop t s)")
        case None
        then show ?thesis using False TagAt by (simp add: preprocess.simps [of T sh c out ij s])
      next
        case (Some e)
        have "take t s @ take (e + 2) (drop t s) @ drop (e + 2) (drop t s) = s" by (metis append_take_drop_id)
        moreover have "length (drop (t + (e + 2)) s) < length s" using len by simp
        ultimately show ?thesis using False TagAt Some IH [of "t + (e + 2)"]
          by (simp add: preprocess.simps [of T sh c out ij s] add.commute add.left_commute)
      qed
    next
      case (ExprAt d)
      then have d: "find_sub ''{{'' s = Some d" by (auto simp: next_opening_def split: option.splits if_splits)
      have s: "s = take d s @ ''{{'' @ drop (d + 2) s" using find_sub_parts [OF d] by simp
      show ?thesis
      proof (cases "find_sub ''}}'' (drop (d + 2) s)")
        case None
        then show ?thesis using False ExprAt IH [of "d + 2"] len s
          by (simp add: preprocess.simps [of T sh c out ij s])
      next
        case (Some e)
        have r: "drop (d + 2) s = take e (drop (d + 2) s) @ ''}}'' @ drop (e + 2) (drop (d + 2) s)"
          using find_sub_parts [OF Some] by simp
        have "process_expr T sh c (take e (drop (d + 2) s)) ij = Inr (''{{'' @ take e (drop (d + 2) s) @ ''}}'', ij)"
          by (intro plain_expr plain_take plain_drop less(2))
        moreover have "length (drop (d + 2 + (e + 2)) s) < length s" using len by simp
        moreover have "take d s @ ''{{'' @ take e (drop (d + 2) s) @ ''}}'' @ drop (e + 2) (drop (d + 2) s) = s"
          using s r by metis
        ultimately show ?thesis using False ExprAt Some IH [of "d + 2 + (e + 2)"]
          by (simp add: preprocess.simps [of T sh c out ij s] add.commute add.left_commute)
      qed
    qed
  qed (simp add: preprocess.simps)
qed

section \<open>The strict accessor\<close>

lemma from_loop_prefix: "from_loop U c safe before rest ij = Inr (t, ij') \<Longrightarrow> prefix before t"
proof (induction U c safe before rest ij rule: from_loop.induct)
  case (1 U c safe before rest ij)
  note IH = 1(1) and run = 1(2) [unfolded from_loop.simps [of U c safe before rest ij]]
  show ?case
  proof (cases "find_sub from_open rest")
    case (Some i)
    show ?thesis
    proof (cases "from_call (drop (i + 6) rest)")
      case (Some p)
      obtain n r where p: "p = (n, r)" by (cases p)
      obtain ij2 where "from_binding c safe n (sanitize_step_name U n) ij = Inr ij2"
        "from_loop U c safe (before @ take i rest @ sanitize_step_name U n) r ij2 = Inr (t, ij')"
        using run \<open>find_sub from_open rest = Some i\<close> Some p by (auto split: sum.splits)
      then show ?thesis using IH [OF \<open>find_sub from_open rest = Some i\<close> Some p [symmetric]] append_prefixD by blast
    qed (use run Some in auto)
  qed (use run in auto)
qed

lemma from_binding_fails: "from_binding c safe n v ij = Inl x \<Longrightarrow> \<exists>m. x = StepFail m"
  by (auto simp: from_binding_def split: option.splits if_splits)

lemma from_loop_fails: "from_loop U c safe before rest ij = Inl x \<Longrightarrow> \<exists>m. x = StepFail m"
proof (induction U c safe before rest ij rule: from_loop.induct)
  case (1 U c safe before rest ij)
  then show ?case
    unfolding from_loop.simps [of U c safe before rest ij]
    by (simp split: option.splits prod.splits sum.splits) (metis from_binding_fails)+
qed

lemma split_dot_hd: "\<exists>w ws. split_dot s = w # ws \<and> w = takeWhile (\<lambda>c. c \<noteq> CHR ''.'') s"
  by (induction s) auto

text \<open>No step and no variable, here or in an outer context, has a name of the injected variables.\<close>

definition no_injected_name :: "Context \<Rightarrow> bool" where
  "no_injected_name c \<longleftrightarrow> (\<forall>n. prefix ''__from_'' n \<longrightarrow> get_step c n = None \<and> get_var c n = None)"

lemma injected_missing:
  assumes "no_injected_name c" and "prefix ''__from_'' t"
  shows "\<not> var_exists c t"
proof -
  obtain r where t: "t = ''__from_'' @ r" using assms(2) by (auto simp: prefix_def)
  obtain w ws where w: "split_dot t = w # ws" "w = takeWhile (\<lambda>c. c \<noteq> CHR ''.'') t" using split_dot_hd by blast
  have "prefix ''__from_'' w" unfolding w(2) t by simp
  then show ?thesis using assms(1) w(1) by (simp add: var_exists_def no_injected_name_def)
qed

lemma from_first:
  assumes "CHR 0x22 \<notin> set n"
  shows "from_call (n @ CHR 0x22 # s) = Some (n, if starts_with s '')'' then drop 1 s else s)"
proof -
  have "find_sub [CHR 0x22] (n @ CHR 0x22 # s) = Some (length n)"
    using assms by (induction n) (auto simp: starts_with_def)
  then show ?thesis by (simp add: from_call_def Let_def quote_char_def)
qed

text \<open>
  Two facts about the accessors of version 1. A template in which no question mark, no exclamation
  mark, no \<open>from("\<close> and no \<open>prompts.\<close> occurs reaches Tera as it is, with nothing injected, its unclosed braces
  and its tags included. The strict accessor can never be used on \<open>from\<close>: whatever step is named, present or
  not, and whatever path follows, \<open>{{ from("step").path! }}\<close> is an error, because the existence of the
  rewritten variable is asked of the context and the variable is injected only afterwards.
\<close>

theorem v1_accessors:
  shows "(plain_text t \<longrightarrow> preprocess_template T sh c t = Inr (t, [])) \<and>
    (no_injected_name c \<and> CHR 0x22 \<notin> set n \<and> trim e = from_open @ n @ CHR 0x22 # s \<longrightarrow>
      (\<exists>m. process_strict T c e ij = Inl (StepFail m)))"
proof (intro conjI impI)
  show "plain_text t \<Longrightarrow> preprocess_template T sh c t = Inr (t, [])"
    by (simp add: preprocess_template_def plain_preprocess)
next
  assume a: "no_injected_name c \<and> CHR 0x22 \<notin> set n \<and> trim e = from_open @ n @ CHR 0x22 # s"
  let ?v = "sanitize_step_name (te_alnum T) n" and ?r = "if starts_with s '')'' then drop 1 s else s"
  have o: "find_sub from_open (trim e) = Some 0" using a by (cases "trim e") (auto simp: from_open_def starts_with_def)
  have f: "from_call (drop 6 (trim e)) = Some (n, ?r)"
    using a from_first by (simp add: from_open_def)
  have t: "transform_from_calls (te_alnum T) c False (trim e) ij =
      (case from_binding c False n ?v ij of Inl m \<Rightarrow> Inl m | Inr ij' \<Rightarrow> from_loop (te_alnum T) c False ?v ?r ij')"
    unfolding transform_from_calls_def str_contains_def from_loop.simps [of _ _ _ _ "trim e"] using o f by (simp cong: sum.case_cong)
  have missing: "\<not> var_exists c t'" if "from_loop (te_alnum T) c False ?v ?r ij' = Inr (t', ij'')" for t' ij' ij''
  proof -
    have "prefix ''__from_'' ?v" by (simp add: sanitize_step_name_def)
    with from_loop_prefix [OF that] have "prefix ''__from_'' t'" by (metis prefix_order.trans)
    with a show ?thesis by (intro injected_missing) simp_all
  qed
  have "(\<exists>m. transform_from_calls (te_alnum T) c False (trim e) ij = Inl (StepFail m)) \<or>
      (\<exists>t' ij'. transform_from_calls (te_alnum T) c False (trim e) ij = Inr (t', ij') \<and> \<not> var_exists c t')"
  proof (cases "from_binding c False n ?v ij")
    case (Inl x)
    then show ?thesis using t from_binding_fails [OF Inl] by auto
  next
    case (Inr ij')
    then show ?thesis using t missing [of ij'] from_loop_fails [of "te_alnum T" c False ?v ?r ij']
      by (cases "from_loop (te_alnum T) c False ?v ?r ij'") auto
  qed
  then show "\<exists>m. process_strict T c e ij = Inl (StepFail m)"
    by (auto simp: process_strict_def)
qed

theorem v1_accessors_witness:
  "\<forall>te sh ij. \<exists>m. preprocess_template (te::TplEnv) sh (new_context ''t'' []) ''{{ target }} {% if a %} {{'' =
      Inr (''{{ target }} {% if a %} {{'', []) \<and>
    process_strict te (new_context ''t'' []) (from_open @ ''ask'' @ CHR 0x22 # '').output'') ij = Inl (StepFail m)"
proof (intro allI)
  fix te :: TplEnv and sh ij
  have p: "plain_text ''{{ target }} {% if a %} {{''" by (simp add: plain_text_def) code_simp
  have "no_injected_name (new_context ''t'' [])"
    by (auto simp: no_injected_name_def new_context_def)
  moreover have "trim (from_open @ ''ask'' @ CHR 0x22 # '').output'') = from_open @ ''ask'' @ CHR 0x22 # '').output''"
    by code_simp
  ultimately show "\<exists>m. preprocess_template te sh (new_context ''t'' []) ''{{ target }} {% if a %} {{'' =
      Inr (''{{ target }} {% if a %} {{'', []) \<and>
    process_strict te (new_context ''t'' []) (from_open @ ''ask'' @ CHR 0x22 # '').output'') ij = Inl (StepFail m)"
    using v1_accessors [of "''{{ target }} {% if a %} {{''" te sh "new_context ''t'' []" "''ask''"
      "from_open @ ''ask'' @ CHR 0x22 # '').output''" "'').output''" ij] p by auto
qed

end
