(* ===== verification/ApiProxy.thy ===== *)
theory ApiProxy
  imports Outputs Replay
begin

text \<open>
  The proxy that keeps the API key on the host, \<open>src/sandbox/proxy.rs\<close>: how a request is read from a
  connection, what of it is forwarded, and what is answered. The upstream server and
  \<open>String::from_utf8_lossy\<close> are parameters; bytes and texts are both lists of characters.
\<close>

section \<open>Reading a request\<close>

definition crlf :: string where "crlf = [CHR 0x0D, CHR 0x0A]"

text \<open>The position behind the first empty line.\<close>

definition find_header_end :: "string \<Rightarrow> nat option" where
  "find_header_end buf = map_option (\<lambda>i. i + 4) (find_sub (crlf @ crlf) buf)"

definition split_once :: "char \<Rightarrow> string \<Rightarrow> (string \<times> string) option" where
  "split_once ch s =
    (if ch \<in> set s then Some (takeWhile (\<lambda>c. c \<noteq> ch) s, tl (dropWhile (\<lambda>c. c \<noteq> ch) s)) else None)"

definition same_name :: "string \<Rightarrow> string \<Rightarrow> bool" where
  "same_name a b \<longleftrightarrow> to_ascii_lowercase a = to_ascii_lowercase b"

fun header_in :: "string \<Rightarrow> string list \<Rightarrow> string option" where
  "header_in name [] = None"
| "header_in name (l # ls) =
    (if l = [] then None
     else (case split_once (CHR '':'') l of
        Some (k, v) \<Rightarrow> if same_name (trim k) name then Some (trim v) else header_in name ls
      | None \<Rightarrow> header_in name ls))"

definition parse_header_value :: "string \<Rightarrow> string \<Rightarrow> string option" where
  "parse_header_value headers name = header_in name (drop 1 (str_lines headers))"

fun length_in :: "string list \<Rightarrow> nat" where
  "length_in [] = 0"
| "length_in (l # ls) =
    (case split_once (CHR '':'') l of
       Some (k, v) \<Rightarrow>
         if same_name (trim k) ''content-length'' then (case parse_u64 (trim v) of Some n \<Rightarrow> n | None \<Rightarrow> 0) else length_in ls
     | None \<Rightarrow> length_in ls)"

definition parse_content_length :: "string \<Rightarrow> nat" where
  "parse_content_length headers = length_in (str_lines headers)"

text \<open>A read gives bytes, or the connection is closed or broken, which end the task alike.\<close>

definition MAX_REQUEST :: nat where "MAX_REQUEST = 10 * 1024 * 1024"

datatype ReadResult = Complete string | TooLarge | Closed

definition request_complete :: "(string \<Rightarrow> string) \<Rightarrow> string \<Rightarrow> bool" where
  "request_complete lossy buf =
    (case find_header_end buf of
       None \<Rightarrow> False
     | Some i \<Rightarrow> parse_content_length (lossy (take i buf)) \<le> length buf - i)"

fun read_request :: "(string \<Rightarrow> string) \<Rightarrow> string \<Rightarrow> string list \<Rightarrow> ReadResult" where
  "read_request lossy buf [] = Closed"
| "read_request lossy buf (chunk # chunks) =
    (if chunk = [] then Closed
     else
       (let b = buf @ chunk in
        if request_complete lossy b then Complete b
        else if MAX_REQUEST < length b then TooLarge
        else read_request lossy b chunks))"

section \<open>Answering it\<close>

text \<open>The words of a line, split at Unicode's white space.\<close>

fun first_word :: "string \<Rightarrow> string \<times> string" where
  "first_word (a # b # c # s) =
    (if ws1 a \<or> ws2 a b \<or> ws3 a b c then ([], a # b # c # s)
     else (case first_word (b # c # s) of (w, r) \<Rightarrow> (a # w, r)))"
| "first_word [a, b] = (if ws1 a \<or> ws2 a b then ([], [a, b]) else if ws1 b then ([a], [b]) else ([a, b], []))"
| "first_word [a] = (if ws1 a then ([], [a]) else ([a], []))"
| "first_word [] = ([], [])"

lemma first_word_split: "first_word s = (w, r) \<Longrightarrow> s = w @ r"
  by (induction s arbitrary: w r rule: first_word.induct) (auto split: if_splits prod.splits)

lemma trim_start_shorter: "length (trim_start s) \<le> length s"
  by (induction s rule: trim_start.induct) auto

lemma trim_start_first: "trim_start s = a # t \<Longrightarrow> fst (first_word (a # t)) \<noteq> []"
  by (induction s arbitrary: a t rule: trim_start.induct) (auto split: if_splits prod.splits)

function split_whitespace :: "string \<Rightarrow> string list" where
  "split_whitespace s =
    (if trim_start s = [] then [] else fst (first_word (trim_start s)) # split_whitespace (snd (first_word (trim_start s))))"
  by pat_completeness auto

termination
proof (relation "measure length", goal_cases)
  case (2 s)
  obtain w r where w: "first_word (trim_start s) = (w, r)" by fastforce
  moreover have "w \<noteq> []" using 2 w trim_start_first [of s] by (cases "trim_start s") auto
  ultimately show ?case using first_word_split [OF w] trim_start_shorter [of s] by (cases w) auto
qed simp

declare split_whitespace.simps [simp del]

record ProxySecrets =
  px_api_key :: string
  px_auth_token :: string

record Upstream =
  up_method :: string
  up_url :: string
  up_headers :: "(string \<times> string) list"
  up_body :: "string option"

datatype ProxyAnswer =
    Nothing
  | Status string
  | Forward Upstream

definition known_methods :: "string set" where
  "known_methods = {''GET'', ''POST'', ''PUT'', ''DELETE'', ''PATCH'', ''OPTIONS'', ''HEAD''}"

definition withheld :: "string \<Rightarrow> bool" where
  "withheld k \<longleftrightarrow> lower_text (trim k) \<in> {''host'', ''connection'', ''x-api-key'', ''authorization''}"

fun forward_headers :: "string list \<Rightarrow> (string \<times> string) list" where
  "forward_headers [] = []"
| "forward_headers (l # ls) =
    (if l = [] then []
     else (case split_once (CHR '':'') l of
        Some (k, v) \<Rightarrow> if withheld k then forward_headers ls else (trim k, trim v) # forward_headers ls
      | None \<Rightarrow> forward_headers ls))"

text \<open>The checks in their order: the shape of the first line, the path, the token, the method.\<close>

definition answer_request :: "(string \<Rightarrow> string) \<Rightarrow> ProxySecrets \<Rightarrow> string \<Rightarrow> ProxyAnswer" where
  "answer_request lossy S buf =
    (case find_header_end buf of
       None \<Rightarrow> Nothing
     | Some i \<Rightarrow>
       (let headers = lossy (take i buf); body = drop i buf; ls = str_lines headers;
            parts = split_whitespace (if ls = [] then [] else hd ls) in
        if length parts < 3 then Status ''400 Bad Request''
        else if \<not> starts_with (parts ! 1) ''/v1/'' then Status ''403 Forbidden''
        else if parse_header_value headers ''x-api-key'' \<noteq> Some (px_auth_token S) then Status ''401 Unauthorized''
        else if parts ! 0 \<notin> known_methods then Status ''405 Method Not Allowed''
        else Forward \<lparr>up_method = parts ! 0, up_url = ''https://api.anthropic.com'' @ parts ! 1,
          up_headers = forward_headers (drop 1 ls) @ [(''x-api-key'', px_api_key S)],
          up_body = (if body = [] then None else Some body)\<rparr>))"

definition empty_response :: "string \<Rightarrow> string" where
  "empty_response st = ''HTTP/1.1 '' @ st @ crlf @ ''Content-Length: 0'' @ crlf @ crlf"

text \<open>What the server upstream does: it fails, its body breaks, or it answers; a header whose value is no text is dropped.\<close>

datatype UpstreamReply =
    SendError string
  | BodyError
  | Reply string "(string \<times> string option) list" string

definition reply_headers :: "(string \<times> string option) list \<Rightarrow> string" where
  "reply_headers hs = concat (map (\<lambda>(k, v).
     if to_ascii_lowercase k \<in> {''connection'', ''transfer-encoding''} then []
     else (case v of None \<Rightarrow> [] | Some t \<Rightarrow> k @ '': '' @ t @ crlf)) hs)"

definition upstream_response :: "UpstreamReply \<Rightarrow> string" where
  "upstream_response r =
    (case r of
       SendError e \<Rightarrow> ''HTTP/1.1 502 Bad Gateway'' @ crlf @ ''Content-Length: '' @ show_nat (length (''Proxy error: '' @ e)) @
         crlf @ crlf @ ''Proxy error: '' @ e
     | BodyError \<Rightarrow> empty_response ''502 Bad Gateway''
     | Reply st hs body \<Rightarrow> ''HTTP/1.1 '' @ st @ crlf @ reply_headers hs @ ''Content-Length: '' @ show_nat (length body) @
         crlf @ ''Connection: close'' @ crlf @ crlf @ body)"

text \<open>A connection: what is sent upstream, and what is written back.\<close>

definition handle_connection ::
  "(string \<Rightarrow> string) \<Rightarrow> ProxySecrets \<Rightarrow> (Upstream \<Rightarrow> UpstreamReply) \<Rightarrow> string list \<Rightarrow> Upstream list \<times> string" where
  "handle_connection lossy S server chunks =
    (case read_request lossy [] chunks of
       Closed \<Rightarrow> ([], [])
     | TooLarge \<Rightarrow> ([], empty_response ''413 Payload Too Large'')
     | Complete buf \<Rightarrow>
       (case answer_request lossy S buf of
          Nothing \<Rightarrow> ([], [])
        | Status st \<Rightarrow> ([], empty_response st)
        | Forward u \<Rightarrow> ([u], upstream_response (server u))))"

section \<open>The key stays on the host\<close>

lemma forwarded_names: "(k, v) \<in> set (forward_headers ls) \<Longrightarrow>
    lower_text k \<notin> {''host'', ''connection'', ''x-api-key'', ''authorization''}"
  by (induction ls) (auto simp: withheld_def split: if_splits option.splits)

lemma read_complete: "read_request lossy buf chunks = Complete b \<Longrightarrow>
    \<exists>k. b = buf @ concat (take k chunks) \<and> request_complete lossy b"
proof (induction lossy buf chunks rule: read_request.induct)
  case (2 lossy buf chunk chunks)
  show ?case
  proof (cases "request_complete lossy (buf @ chunk)")
    case True
    then show ?thesis using 2(2) by (auto simp: Let_def split: if_splits intro!: exI [of _ 1])
  next
    case False
    then obtain k where "b = (buf @ chunk) @ concat (take k chunks)" "request_complete lossy b"
      using 2 by (auto simp: Let_def split: if_splits)
    then show ?thesis by (intro exI [of _ "Suc k"]) simp
  qed
qed simp

text \<open>
  C32: the proxy of the sandbox. Whatever a client in the container sends, at most one request leaves the
  host, and it goes to \<open>api.anthropic.com\<close> below \<open>/v1/\<close>; it is sent only when the client presented the token
  of the session; the API key is in it exactly once, as the last header, and no header of the client that
  could carry a key, a host or a connection of its own goes along. What is written back depends on the key only through
  the answer of the server: an answer that refuses is the same for every key.
\<close>

theorem proxy_guards_key:
  "case handle_connection lossy S server chunks of (sent, out) \<Rightarrow>
    length sent \<le> 1 \<and>
    list_all (\<lambda>u. \<exists>path hs. up_url u = ''https://api.anthropic.com/v1/'' @ path \<and>
      up_headers u = hs @ [(''x-api-key'', px_api_key S)] \<and>
      list_all (\<lambda>(k, v). lower_text k \<notin> {''host'', ''connection'', ''x-api-key'', ''authorization''}) hs \<and>
      (\<exists>k i. let headers = lossy (take i (concat (take k chunks))) in
         parse_header_value headers ''x-api-key'' = Some (px_auth_token S)) \<and>
      up_method u \<in> known_methods) sent \<and>
    (if sent = [] then \<forall>key. handle_connection lossy (S\<lparr>px_api_key := key\<rparr>) server chunks = ([], out)
     else out = upstream_response (server (hd sent)))"
proof (cases "read_request lossy [] chunks")
  case (Complete buf)
  obtain k where k: "buf = concat (take k chunks)" using read_complete [OF Complete] by auto
  show ?thesis
  proof (cases "answer_request lossy S buf")
    case (Forward u)
    obtain i where i: "find_header_end buf = Some i"
      using Forward by (auto simp: answer_request_def split: option.splits)
    define headers where "headers = lossy (take i buf)"
    define ls where "ls = str_lines headers"
    define parts where "parts = split_whitespace (if ls = [] then [] else hd ls)"
    have u: "up_url u = ''https://api.anthropic.com'' @ parts ! 1" "starts_with (parts ! 1) ''/v1/''"
      "up_headers u = forward_headers (drop 1 ls) @ [(''x-api-key'', px_api_key S)]"
      "parse_header_value headers ''x-api-key'' = Some (px_auth_token S)" "up_method u \<in> known_methods"
      using Forward i by (auto simp: answer_request_def Let_def headers_def ls_def parts_def split: if_splits)
    have "up_url u = ''https://api.anthropic.com/v1/'' @ drop 4 (parts ! 1)"
      using u(1) starts_withD [OF u(2)] by (simp add: eval_nat_numeral)
    moreover have "list_all (\<lambda>(k, v). lower_text k \<notin> {''host'', ''connection'', ''x-api-key'', ''authorization''})
        (forward_headers (drop 1 ls))"
      unfolding list_all_iff using forwarded_names by blast
    moreover have "let headers = lossy (take i (concat (take k chunks))) in
        parse_header_value headers ''x-api-key'' = Some (px_auth_token S)"
      using u(4) k by (simp add: headers_def)
    ultimately show ?thesis using Complete Forward u(3,5) by (auto simp: handle_connection_def)
  next
    case Nothing
    then have "answer_request lossy (S\<lparr>px_api_key := key\<rparr>) buf = Nothing" for key
      by (auto simp: answer_request_def Let_def split: option.splits if_splits)
    then show ?thesis using Complete Nothing by (simp add: handle_connection_def)
  next
    case (Status st)
    then have "answer_request lossy (S\<lparr>px_api_key := key\<rparr>) buf = Status st" for key
      by (auto simp: answer_request_def Let_def split: option.splits if_splits)
    then show ?thesis using Complete Status by (simp add: handle_connection_def)
  qed
qed (simp_all add: handle_connection_def)

end
