(* ===== verification/DockerBox.thy ===== *)
theory DockerBox
  imports V1Engine
begin

text \<open>
  The Docker sandbox of version 1, \<open>src/sandbox/{config,mod,runtime,docker}.rs\<close>: how its configuration is
  read, which runtime and mode are chosen, and which commands the container is made, filled, used, emptied
  and removed with. The commands' replies, the file system and the printing of a double are parameters.
\<close>

section \<open>Configuration\<close>

fun yaml_bool :: "yaml \<Rightarrow> bool option" where
  "yaml_bool (YBool b) = Some b"
| "yaml_bool (YTagged t v) = yaml_bool v"
| "yaml_bool _ = None"

fun yaml_f64 :: "yaml \<Rightarrow> 64 word option" where
  "yaml_f64 (YInt i) = Some (f64_of_ratio i 1)"
| "yaml_f64 (YFloat w) = Some w"
| "yaml_f64 (YTagged t v) = yaml_f64 v"
| "yaml_f64 _ = None"

fun yaml_seq :: "yaml \<Rightarrow> yaml list option" where
  "yaml_seq (YSeq vs) = Some vs"
| "yaml_seq (YTagged t v) = yaml_seq v"
| "yaml_seq _ = None"

definition yget :: "(yaml \<times> yaml) list \<Rightarrow> string \<Rightarrow> yaml option" where
  "yget m k = map_of m (YStr k)"

record NetworkConfig =
  nw_allow :: "string list"
  nw_deny :: "string list"

record ResourceConfig =
  rs_cpus :: "64 word option"
  rs_memory :: "string option"

record SandboxConfig =
  bc_enabled :: bool
  bc_image :: "string option"
  bc_workspace :: "string option"
  bc_network :: NetworkConfig
  bc_resources :: ResourceConfig
  bc_env :: "string list"
  bc_volumes :: "string list"
  bc_exclude :: "string list"
  bc_dns :: "string list"

definition default_sandbox :: SandboxConfig where
  "default_sandbox = \<lparr>bc_enabled = False, bc_image = None, bc_workspace = None, bc_network = \<lparr>nw_allow = [], nw_deny = []\<rparr>,
     bc_resources = \<lparr>rs_cpus = None, rs_memory = None\<rparr>, bc_env = [], bc_volumes = [], bc_exclude = [], bc_dns = []\<rparr>"

definition parse_string_list :: "(yaml \<times> yaml) list \<Rightarrow> string \<Rightarrow> string list" where
  "parse_string_list m k =
    (case Option.bind (yget m k) yaml_seq of None \<Rightarrow> [] | Some vs \<Rightarrow> List.map_filter yaml_str vs)"

text \<open>A section that is not a mapping counts as absent, and a tagged one is not a mapping here.\<close>

definition from_global_config :: "bag \<Rightarrow> SandboxConfig" where
  "from_global_config config =
    (case map_of config ''sandbox'' of
       Some (YMapping m) \<Rightarrow>
         \<lparr>bc_enabled = or_else (Option.bind (yget m ''enabled'') yaml_bool) False,
          bc_image = Option.bind (yget m ''image'') yaml_str, bc_workspace = Option.bind (yget m ''workspace'') yaml_str,
          bc_network = (case yget m ''network'' of
            Some (YMapping n) \<Rightarrow> \<lparr>nw_allow = parse_string_list n ''allow'', nw_deny = parse_string_list n ''deny''\<rparr>
          | _ \<Rightarrow> \<lparr>nw_allow = [], nw_deny = []\<rparr>),
          bc_resources = (case yget m ''resources'' of
            Some (YMapping r) \<Rightarrow> \<lparr>rs_cpus = Option.bind (yget r ''cpus'') yaml_f64,
              rs_memory = Option.bind (yget r ''memory'') yaml_str\<rparr>
          | _ \<Rightarrow> \<lparr>rs_cpus = None, rs_memory = None\<rparr>),
          bc_env = parse_string_list m ''env'', bc_volumes = parse_string_list m ''volumes'',
          bc_exclude = parse_string_list m ''exclude'', bc_dns = parse_string_list m ''dns''\<rparr>
     | _ \<Rightarrow> default_sandbox)"

definition resolve_mode :: "bool \<Rightarrow> bag \<Rightarrow> bag \<Rightarrow> SandboxMode" where
  "resolve_mode flag global agent =
    (if flag then FullWorkflow
     else if (case map_of global ''sandbox'' of
         Some (YMapping m) \<Rightarrow> or_else (Option.bind (yget m ''enabled'') yaml_bool) False | _ \<Rightarrow> False) then Devbox
     else if or_else (Option.bind (map_of agent ''sandbox'') yaml_bool) False then AgentOnly
     else Disabled)"

datatype SandboxRuntime = DockerRuntime | LocalRuntime | PodmanRuntime

text \<open>The default of the build: local with the feature \<open>sqlite\<close>. The error is the value that was refused.\<close>

definition profile_default :: "bool \<Rightarrow> SandboxRuntime" where
  "profile_default sqlite = (if sqlite then LocalRuntime else DockerRuntime)"

definition resolve_runtime :: "bool \<Rightarrow> SandboxRuntime option \<Rightarrow> string option \<Rightarrow> bool \<Rightarrow> (string, SandboxRuntime) result" where
  "resolve_runtime sqlite flag env legacy =
    (case flag of
       Some r \<Rightarrow> Inr r
     | None \<Rightarrow>
       (case env of
          Some raw \<Rightarrow>
            (if raw = ''docker'' then Inr DockerRuntime
             else if raw = ''local'' then Inr LocalRuntime
             else if raw = ''podman'' then Inr PodmanRuntime
             else Inl raw)
        | None \<Rightarrow> if legacy then Inr LocalRuntime else Inr (profile_default sqlite)))"

section \<open>What the container gets\<close>

definition AUTO_ENV :: "string list" where
  "AUTO_ENV = [''ANTHROPIC_API_KEY'', ''OPENAI_API_KEY'', ''GH_TOKEN'', ''GITHUB_TOKEN'']"

definition PROXIED_SECRETS :: "string list" where
  "PROXIED_SECRETS = [''ANTHROPIC_API_KEY'']"

definition AUTO_EXCLUDE :: "string list" where
  "AUTO_EXCLUDE = [''target'', ''node_modules'', ''dist'', ''build'', ''__pycache__'', ''.next'', ''.nuxt'', ''vendor'',
     ''.tox'', ''.venv'', ''venv'']"

definition AUTO_VOLUMES :: "string list" where
  "AUTO_VOLUMES = [''~/.config/gh:/root/.config/gh:ro'', ''~/.claude:/root/.claude:rw'', ''~/.ssh:/root/.ssh:ro'',
     ''~/.config/gh:/home/stepyard/.config/gh:ro'', ''~/.claude:/home/stepyard/.claude:rw'',
     ''~/.claude.json:/home/stepyard/.claude.json:ro'']"

definition unless_empty :: "'a list \<Rightarrow> 'a list \<Rightarrow> 'a list" where
  "unless_empty own auto = (if own = [] then auto else own)"

definition effective_env :: "SandboxConfig \<Rightarrow> string list" where
  "effective_env cfg = unless_empty (bc_env cfg) AUTO_ENV"

definition effective_env_with_proxy :: "SandboxConfig \<Rightarrow> string list" where
  "effective_env_with_proxy cfg = filter (\<lambda>k. k \<notin> set PROXIED_SECRETS) (effective_env cfg)"

definition effective_exclude :: "SandboxConfig \<Rightarrow> string list" where
  "effective_exclude cfg = unless_empty (bc_exclude cfg) AUTO_EXCLUDE"

text \<open>Every tilde is the home directory, and a volume whose host path does not exist is left out.\<close>

definition effective_volumes :: "(string \<Rightarrow> bool) \<Rightarrow> string option \<Rightarrow> SandboxConfig \<Rightarrow> string list" where
  "effective_volumes ex home cfg =
    filter (\<lambda>v. ex (takeWhile (\<lambda>c. c \<noteq> CHR '':'') v))
      (map (\<lambda>v. concat (map (\<lambda>c. if c = CHR ''~'' then or_else home ''/root'' else [c]) v))
        (unless_empty (bc_volumes cfg) AUTO_VOLUMES))"

definition env_flags :: "(string \<Rightarrow> string option) \<Rightarrow> string list \<Rightarrow> string list" where
  "env_flags env ks =
    concat (map (\<lambda>k. case env k of Some v \<Rightarrow> [''-e'', k @ ''='' @ v] | None \<Rightarrow> []) ks)"

definition default_image :: string where "default_image = ''stepyard-sandbox:latest''"

definition each_with :: "string \<Rightarrow> string list \<Rightarrow> string list" where
  "each_with flag vs = concat (map (\<lambda>v. [flag, v]) vs)"

text \<open>The proxy is its port and the token of the session.\<close>

definition credential_flags :: "SandboxConfig \<Rightarrow> (nat \<times> string) option \<Rightarrow> (string \<Rightarrow> string option) \<Rightarrow> string list" where
  "credential_flags cfg proxy env =
    (case proxy of
       Some (p, token) \<Rightarrow>
         env_flags env (effective_env_with_proxy cfg) @
         [''-e'', ''ANTHROPIC_BASE_URL=http://host.docker.internal:'' @ show_nat p,
          ''-e'', ''ANTHROPIC_API_KEY='' @ token, ''--add-host'', ''host.docker.internal:host-gateway'']
     | None \<Rightarrow> env_flags env (effective_env cfg))"

definition create_args ::
  "(string \<Rightarrow> bool) \<Rightarrow> (64 word \<Rightarrow> string) \<Rightarrow> SandboxConfig \<Rightarrow> string \<Rightarrow> (nat \<times> string) option \<Rightarrow> (string \<Rightarrow> string option) \<Rightarrow>
    string list" where
  "create_args ex D cfg workspace proxy env =
    [''create'', ''--rm'', ''-v'', workspace @ '':/workspace'', ''-w'', ''/workspace''] @
    credential_flags cfg proxy env @ [''-e'', ''HOME=/root''] @
    each_with ''-v'' (effective_volumes ex (env ''HOME'') cfg) @
    (case rs_cpus (bc_resources cfg) of Some x \<Rightarrow> [''--cpus'', D x] | None \<Rightarrow> []) @
    (case rs_memory (bc_resources cfg) of Some m \<Rightarrow> [''--memory'', m] | None \<Rightarrow> []) @
    each_with ''--dns'' (bc_dns cfg) @
    (if nw_deny (bc_network cfg) \<noteq> [] \<or> nw_allow (bc_network cfg) \<noteq> [] then [''--network'', ''bridge''] else []) @
    [or_else (bc_image cfg) default_image, ''sleep'', ''infinity'']"

section \<open>The container\<close>

record ProcOut =
  po_success :: bool
  po_stdout :: string
  po_stderr :: string
  po_code :: "32 word option"

record DockerHost =
  dk_run :: "string list list \<Rightarrow> string list \<Rightarrow> (string, ProcOut) result"
  dk_exists :: "string \<Rightarrow> bool"
  dk_show_f64 :: "64 word \<Rightarrow> string"

record Box1 =
  bx_calls :: "string list list"
  bx_id :: "string option"
  bx_env :: "string \<Rightarrow> string option"

type_synonym 'a bx = "(Box1, string, 'a) vm"

text \<open>A command that could not be started fails with the text of its context; its exit status is for the caller.\<close>

definition bx_run :: "DockerHost \<Rightarrow> string list \<Rightarrow> (string, ProcOut) result bx" where
  "bx_run H argv s = Some (Inr (dk_run H (bx_calls s) argv), s\<lparr>bx_calls := bx_calls s @ [argv]\<rparr>)"

definition bx_must :: "DockerHost \<Rightarrow> string \<Rightarrow> string list \<Rightarrow> ProcOut bx" where
  "bx_must H what argv = vbind (bx_run H argv) (\<lambda>r. case r of Inl e \<Rightarrow> vfail what | Inr out \<Rightarrow> vret out)"

definition bx_get :: "(Box1 \<Rightarrow> 'a) \<Rightarrow> 'a bx" where
  "bx_get f s = Some (Inr (f s), s)"

definition bx_mod :: "(Box1 \<Rightarrow> Box1) \<Rightarrow> unit bx" where
  "bx_mod f s = Some (Inr (), f s)"

definition container :: "string bx" where
  "container = vbind (bx_get bx_id) (\<lambda>i. case i of None \<Rightarrow> vfail ''Container not created'' | Some i \<Rightarrow> vret i)"

definition is_sandbox_available :: "DockerHost \<Rightarrow> bool bx" where
  "is_sandbox_available H =
    vbind (bx_run H [''docker'', ''version'', ''--format'', ''{{.Client.Version}}'']) (\<lambda>r.
      vret (case r of Inr out \<Rightarrow> po_success out \<and> trim (po_stdout out) \<noteq> [] | Inl e \<Rightarrow> False))"

definition auto_detect_gh_token :: "DockerHost \<Rightarrow> unit bx" where
  "auto_detect_gh_token H =
    vbind (bx_get bx_env) (\<lambda>env.
    if env ''GH_TOKEN'' \<noteq> None \<or> env ''GITHUB_TOKEN'' \<noteq> None then vret ()
    else vbind (bx_run H [''gh'', ''auth'', ''token'']) (\<lambda>r. case r of
        Inl e \<Rightarrow> vret ()
      | Inr out \<Rightarrow>
          if po_success out \<and> trim (po_stdout out) \<noteq> []
          then bx_mod (\<lambda>s. s\<lparr>bx_env := (bx_env s)(''GH_TOKEN'' \<mapsto> trim (po_stdout out))\<rparr>) else vret ()))"

definition docker_missing :: string where
  "docker_missing = ''Docker Sandbox is not available. Please install Docker Desktop 4.40+ (https://www.docker.com/products/docker-desktop/). '' @
     ''Ensure the Docker daemon is running before retrying.''"

definition create_box :: "DockerHost \<Rightarrow> SandboxConfig \<Rightarrow> string \<Rightarrow> (nat \<times> string) option \<Rightarrow> unit bx" where
  "create_box H cfg workspace proxy =
    vbind (is_sandbox_available H) (\<lambda>ok.
    if \<not> ok then vfail docker_missing
    else
      vbind (auto_detect_gh_token H) (\<lambda>_.
      vbind (bx_get bx_env) (\<lambda>env.
      vbind (bx_must H ''Failed to run docker create''
          (''docker'' # create_args (dk_exists H) (dk_show_f64 H) cfg workspace proxy env)) (\<lambda>out.
      if \<not> po_success out then vfail (''docker create failed: '' @ po_stderr out)
      else
        vbind (bx_mod (\<lambda>s. s\<lparr>bx_id := Some (trim (po_stdout out))\<rparr>)) (\<lambda>_.
        vbind (bx_must H ''Failed to start container'' [''docker'', ''start'', trim (po_stdout out)]) (\<lambda>out2.
        if \<not> po_success out2 then vfail (''docker start failed: '' @ po_stderr out2) else vret ()))))))"

definition tar_command :: "string list \<Rightarrow> string \<Rightarrow> string \<Rightarrow> string" where
  "tar_command excludes src i =
    ''tar -cf - --no-xattrs --no-mac-metadata'' @
    concat (map (\<lambda>p. '' --exclude='' @ [CHR 0x27] @ p @ [CHR 0x27]) excludes) @ '' -C '' @ [CHR 0x27] @ src @ [CHR 0x27] @
    '' . 2>/dev/null | docker exec -i '' @ i @ '' tar -xf - -C /workspace 2>/dev/null; exit 0''"

definition copy_workspace :: "DockerHost \<Rightarrow> SandboxConfig \<Rightarrow> string \<Rightarrow> unit bx" where
  "copy_workspace H cfg src =
    vbind container (\<lambda>i.
    if effective_exclude cfg = [] then
      vbind (bx_must H ''docker cp failed'' [''docker'', ''cp'', src @ ''/.'', i @ '':/workspace'']) (\<lambda>out.
      if po_success out then vret () else vfail (''docker cp workspace failed: '' @ po_stderr out))
    else
      vbind (bx_must H ''tar | docker exec pipe failed'' [''/bin/sh'', ''-c'', tar_command (effective_exclude cfg) src i]) (\<lambda>out.
      vbind (bx_must H ''workspace verification failed'' [''docker'', ''exec'', i, ''test'', ''-d'', ''/workspace/.git'']) (\<lambda>v.
      if po_success v then vret ()
      else vfail (''docker cp workspace failed '' @ em_dash @ '' .git directory not found in container: '' @ po_stderr out))))"

record SandboxOutput =
  so_stdout :: string
  so_stderr :: string
  so_exit_code :: "32 word"

definition box_output :: "ProcOut \<Rightarrow> SandboxOutput" where
  "box_output out = \<lparr>so_stdout = po_stdout out, so_stderr = po_stderr out, so_exit_code = or_else (po_code out) (- 1)\<rparr>"

definition run_command :: "DockerHost \<Rightarrow> string \<Rightarrow> SandboxOutput bx" where
  "run_command H cmd =
    vbind container (\<lambda>i.
    vbind (bx_must H ''docker exec failed'' [''docker'', ''exec'', i, ''/bin/sh'', ''-c'', cmd]) (\<lambda>out. vret (box_output out)))"

definition run_command_as_user :: "DockerHost \<Rightarrow> string \<Rightarrow> string \<Rightarrow> SandboxOutput bx" where
  "run_command_as_user H cmd user =
    vbind container (\<lambda>i.
    vbind (bx_must H ''docker exec failed'' [''docker'', ''exec'', ''--user'', user, i, ''/bin/sh'', ''-c'', cmd])
      (\<lambda>out. vret (box_output out)))"

definition status_call :: "string \<Rightarrow> string list" where
  "status_call i = [''docker'', ''exec'', i, ''git'', ''-C'', ''/workspace'', ''status'', ''--porcelain'']"

definition copy_back_command :: "string \<Rightarrow> string \<Rightarrow> string" where
  "copy_back_command i dest =
    ''docker exec '' @ i @ '' sh -c '' @ [CHR 0x27] @
    ''cd /workspace && git diff --name-only HEAD 2>/dev/null; git ls-files --others --exclude-standard 2>/dev/null'' @
    [CHR 0x27] @ '' | while read f; do docker cp '' @ [CHR 0x22] @ i @ '':/workspace/$f'' @ [CHR 0x22, CHR 0x20, CHR 0x22] @
    dest @ ''/$f'' @ [CHR 0x22] @ '' 2>/dev/null; done; exit 0''"

definition copy_results :: "DockerHost \<Rightarrow> string \<Rightarrow> unit bx" where
  "copy_results H dest =
    vbind container (\<lambda>i.
    vbind (bx_run H (status_call i)) (\<lambda>check.
    if (case check of Inr out \<Rightarrow> trim (po_stdout out) = [] | Inl e \<Rightarrow> False) then vret ()
    else vbind (bx_must H ''copy results from container failed'' [''/bin/sh'', ''-c'', copy_back_command i dest])
      (\<lambda>out. vret ())))"

definition destroy_box :: "DockerHost \<Rightarrow> unit bx" where
  "destroy_box H =
    vbind (bx_get bx_id) (\<lambda>i. case i of
      None \<Rightarrow> vret ()
    | Some i \<Rightarrow>
      vbind (bx_mod (\<lambda>s. s\<lparr>bx_id := None\<rparr>)) (\<lambda>_.
      vbind (bx_must H ''docker rm failed'' [''docker'', ''rm'', ''-f'', i]) (\<lambda>out. vret ())))"

text \<open>Dropping the handle removes a container that is still there.\<close>

definition drop_box :: "DockerHost \<Rightarrow> unit bx" where
  "drop_box H =
    vbind (bx_get bx_id) (\<lambda>i. case i of None \<Rightarrow> vret () | Some i \<Rightarrow> vbind (bx_run H [''docker'', ''rm'', ''-f'', i]) (\<lambda>r. vret ()))"

section \<open>The key stays out of the container\<close>

definition rekey :: "string option \<Rightarrow> Box1 \<Rightarrow> Box1" where
  "rekey x s = s\<lparr>bx_env := (bx_env s)(''ANTHROPIC_API_KEY'' := x)\<rparr>"

text \<open>A computation that does the same whatever the key is.\<close>

definition blind :: "'a bx \<Rightarrow> bool" where
  "blind m \<longleftrightarrow> (\<forall>x s. m (rekey x s) = map_option (map_prod id (rekey x)) (m s))"

named_theorems blind_rules

lemma blind_basic [blind_rules]:
  "blind (vret a)" "blind (vfail e)" "blind (bx_run H argv)"
  "(\<And>x s. f (rekey x s) = rekey x (f s)) \<Longrightarrow> blind (bx_mod f)"
  by (simp_all add: blind_def vret_def vfail_def bx_run_def bx_mod_def rekey_def)

lemma blind_bind [blind_rules]: "blind m \<Longrightarrow> (\<And>a. blind (f a)) \<Longrightarrow> blind (vbind m f)"
  by (auto simp: blind_def vbind_def split: option.split sum.split)

lemma blind_must [blind_rules]: "blind (bx_must H what argv)"
  unfolding bx_must_def by (auto intro!: blind_rules split: sum.split)

lemma blind_get:
  assumes "\<And>x s. f (g (rekey x s)) = f (g s)" and "\<And>a. blind (f a)"
  shows "blind (vbind (bx_get g) f)"
  using assms by (auto simp: blind_def vbind_def bx_get_def)

lemma proxy_args_blind:
  "create_args ex D cfg ws (Some p) (env(''ANTHROPIC_API_KEY'' := x)) = create_args ex D cfg ws (Some p) env"
proof -
  have "k \<noteq> ''ANTHROPIC_API_KEY''" if "k \<in> set (effective_env_with_proxy cfg)" for k
    using that by (auto simp: effective_env_with_proxy_def PROXIED_SECRETS_def)
  then have "env_flags (env(''ANTHROPIC_API_KEY'' := x)) (effective_env_with_proxy cfg) = env_flags env (effective_env_with_proxy cfg)"
    unfolding env_flags_def by (intro arg_cong [of _ _ concat] map_cong) auto
  then show ?thesis by (simp add: create_args_def credential_flags_def split: prod.split)
qed

lemma blind_detect [blind_rules]: "blind (auto_detect_gh_token H)"
  unfolding auto_detect_gh_token_def
  by (rule blind_get) (auto intro!: blind_rules simp: rekey_def fun_upd_twist split: sum.split)

lemma blind_create: "blind (create_box H cfg ws (Some p))"
proof -
  let ?start = "\<lambda>out. if \<not> po_success out then vfail (''docker create failed: '' @ po_stderr out)
      else vbind (bx_mod (\<lambda>s. s\<lparr>bx_id := Some (trim (po_stdout out))\<rparr>)) (\<lambda>_.
        vbind (bx_must H ''Failed to start container'' [''docker'', ''start'', trim (po_stdout out)]) (\<lambda>out2.
        if \<not> po_success out2 then vfail (''docker start failed: '' @ po_stderr out2) else vret ()))"
  have start: "blind (?start out)" for out
    by (auto intro!: blind_rules simp: rekey_def)
  have "blind (vbind (bx_get bx_env) (\<lambda>env. vbind (bx_must H ''Failed to run docker create''
      (''docker'' # create_args (dk_exists H) (dk_show_f64 H) cfg ws (Some p) env)) ?start))"
    by (rule blind_get) (auto intro!: blind_rules start simp: rekey_def proxy_args_blind)
  then show ?thesis
    unfolding create_box_def is_sandbox_available_def by (auto intro!: blind_rules)
qed

lemma network_unused:
  "effective_env (cfg\<lparr>bc_network := n\<rparr>) = effective_env cfg"
  "effective_env_with_proxy (cfg\<lparr>bc_network := n\<rparr>) = effective_env_with_proxy cfg"
  "effective_volumes ex home (cfg\<lparr>bc_network := n\<rparr>) = effective_volumes ex home cfg"
  "credential_flags (cfg\<lparr>bc_network := n\<rparr>) proxy env = credential_flags cfg proxy env"
  by (simp_all add: effective_env_def effective_env_with_proxy_def effective_volumes_def credential_flags_def split: option.split)

text \<open>
  C33: what the container of the sandbox is made with. When the proxy runs, the commands that create and
  start the container, and whether they succeed, do not depend on the API key of the host: a host with another
  key, or with none, runs the same commands, whatever the configuration lists and whatever Docker answers. Of the
  lists of domains in the configuration only that there is one matters: with any two of them the same commands run,
  so that no domain is ever allowed or denied.
\<close>

theorem container_creation:
  "create_box H cfg ws (Some p) (rekey x s) = map_option (map_prod id (rekey x)) (create_box H cfg ws (Some p) s) \<and>
   (nw_deny n @ nw_allow n \<noteq> [] \<and> nw_deny m @ nw_allow m \<noteq> [] \<longrightarrow>
     create_box H (cfg\<lparr>bc_network := n\<rparr>) ws proxy = create_box H (cfg\<lparr>bc_network := m\<rparr>) ws proxy)"
proof (intro conjI impI)
  show "create_box H cfg ws (Some p) (rekey x s) = map_option (map_prod id (rekey x)) (create_box H cfg ws (Some p) s)"
    using blind_create by (simp add: blind_def)
next
  assume "nw_deny n @ nw_allow n \<noteq> [] \<and> nw_deny m @ nw_allow m \<noteq> []"
  then have args: "create_args ex D (cfg\<lparr>bc_network := n\<rparr>) ws proxy env = create_args ex D (cfg\<lparr>bc_network := m\<rparr>) ws proxy env" for ex D env
    by (auto simp: create_args_def network_unused)
  show "create_box H (cfg\<lparr>bc_network := n\<rparr>) ws proxy = create_box H (cfg\<lparr>bc_network := m\<rparr>) ws proxy"
    unfolding create_box_def args ..
qed

theorem container_creation_witness:
  "\<forall>H. create_box H (default_sandbox\<lparr>bc_network := \<lparr>nw_allow = [''github.com''], nw_deny = []\<rparr>\<rparr>) ''/w'' None =
   create_box H (default_sandbox\<lparr>bc_network := \<lparr>nw_allow = [], nw_deny = [''github.com'']\<rparr>\<rparr>) ''/w'' None"
  using container_creation [where n = "\<lparr>nw_allow = [''github.com''], nw_deny = []\<rparr>"
    and m = "\<lparr>nw_allow = [], nw_deny = [''github.com'']\<rparr>"] by simp

section \<open>The way back\<close>

text \<open>
  When the results of the sandbox are copied back. They are not exactly when \<open>git status\<close> could be started
  and printed nothing; its exit status is not looked at. So when it fails without output, as in a workspace
  that is no repository or that git does not trust, the teardown removes the container with everything the run changed,
  and reports success.
\<close>

theorem copy_back:
  assumes "bx_id s = Some i"
  shows "(copy_results H dest s = Some (Inr (), s\<lparr>bx_calls := bx_calls s @ [status_call i]\<rparr>) \<longleftrightarrow>
      (\<exists>out. dk_run H (bx_calls s) (status_call i) = Inr out \<and> trim (po_stdout out) = [])) \<and>
    (\<forall>out removed. dk_run H (bx_calls s) (status_call i) = Inr out \<and> \<not> po_success out \<and> po_stdout out = [] \<and>
        dk_run H (bx_calls s @ [status_call i]) [''docker'', ''rm'', ''-f'', i] = Inr removed \<longrightarrow>
      vbind (copy_results H dest) (\<lambda>_. destroy_box H) s =
        Some (Inr (), s\<lparr>bx_calls := bx_calls s @ [status_call i, [''docker'', ''rm'', ''-f'', i]], bx_id := None\<rparr>))"
proof (intro conjI allI impI)
  let ?r = "dk_run H (bx_calls s) (status_call i)"
  show "copy_results H dest s = Some (Inr (), s\<lparr>bx_calls := bx_calls s @ [status_call i]\<rparr>) \<longleftrightarrow>
      (\<exists>out. ?r = Inr out \<and> trim (po_stdout out) = [])"
  proof -
    let ?copy = "[''/bin/sh'', ''-c'', copy_back_command i dest]"
    have "Box1.bx_calls t \<noteq> bx_calls s @ [status_call i]"
      if "bx_must H what ?copy (s\<lparr>bx_calls := bx_calls s @ [status_call i]\<rparr>) = Some (q, t)" for what q t
      using that by (auto simp: bx_must_def vbind_def bx_run_def vret_def vfail_def split: sum.splits)
    then show ?thesis using assms
      by (cases ?r)
        (auto simp: copy_results_def container_def vbind_def bx_get_def vret_def bx_run_def bx_must_def vfail_def split: sum.split)
  qed
next
  fix out removed
  assume "dk_run H (bx_calls s) (status_call i) = Inr out \<and> \<not> po_success out \<and> po_stdout out = [] \<and>
      dk_run H (bx_calls s @ [status_call i]) [''docker'', ''rm'', ''-f'', i] = Inr removed"
  then show "vbind (copy_results H dest) (\<lambda>_. destroy_box H) s =
      Some (Inr (), s\<lparr>bx_calls := bx_calls s @ [status_call i, [''docker'', ''rm'', ''-f'', i]], bx_id := None\<rparr>)"
    using assms by (simp add: copy_results_def destroy_box_def container_def vbind_def bx_get_def bx_mod_def vret_def bx_run_def bx_must_def trim_def)
qed

theorem copy_back_witness:
  "let H = \<lparr>dk_run = (\<lambda>h argv. Inr \<lparr>po_success = False, po_stdout = [], po_stderr = ''fatal: not a git repository'', po_code = Some 128\<rparr>),
         dk_exists = (\<lambda>p. False), dk_show_f64 = (\<lambda>x. [])\<rparr>;
       s = \<lparr>bx_calls = [], bx_id = Some ''c1'', bx_env = Map.empty\<rparr> in
   vbind (copy_results H ''/work'') (\<lambda>_. destroy_box H) s =
     Some (Inr (), \<lparr>bx_calls = [status_call ''c1'', [''docker'', ''rm'', ''-f'', ''c1'']], bx_id = None, bx_env = Map.empty\<rparr>)"
  using copy_back [of "\<lparr>bx_calls = [], bx_id = Some ''c1'', bx_env = Map.empty\<rparr>" "''c1''"
    "\<lparr>dk_run = (\<lambda>h argv. Inr \<lparr>po_success = False, po_stdout = [], po_stderr = ''fatal: not a git repository'', po_code = Some 128\<rparr>),
       dk_exists = (\<lambda>p. False), dk_show_f64 = (\<lambda>x. [])\<rparr>" "''/work''"]
  by (simp add: Let_def)

end
