(* ===== verification/Cli.thy ===== *)
theory Cli
  imports ApiProxy DockerBox Prompts Template Validator
begin

text \<open>
  The command line up to the engine, \<open>src/cli/commands.rs\<close> and \<open>src/cli/branch_strategy.rs\<close>: the
  variables, the file of the workflow, the checks before a run, and the choice of sandbox, runtime and
  engine. The file system, the environment, the YAML parsers and the tools asked for are one record of
  answers; what is printed is not modelled but for the document of \<open>--json\<close>.
\<close>

section \<open>Variables\<close>

definition upper_key_start :: "char \<Rightarrow> bool" where
  "upper_key_start c \<longleftrightarrow> (65 \<le> (of_char c :: nat) \<and> (of_char c :: nat) \<le> 90) \<or> c = CHR ''_''"

definition upper_key_char :: "char \<Rightarrow> bool" where
  "upper_key_char c \<longleftrightarrow> upper_key_start c \<or> (48 \<le> (of_char c :: nat) \<and> (of_char c :: nat) \<le> 57)"

fun is_valid_template_var_key :: "string \<Rightarrow> bool" where
  "is_valid_template_var_key [] = False"
| "is_valid_template_var_key (c # cs) \<longleftrightarrow> upper_key_start c \<and> list_all upper_key_char cs"

text \<open>\<open>CliVar\<close> is a pair of key and value.\<close>

definition parse_cli_var :: "string \<Rightarrow> (string, string \<times> string) result" where
  "parse_cli_var raw =
    (case split_once (CHR ''='') raw of
       None \<Rightarrow> Inl (''--var expects KEY=VALUE, got `'' @ raw @ ''`'')
     | Some (k, v) \<Rightarrow>
       if \<not> is_valid_template_var_key k then Inl (''--var key `'' @ k @ ''` must match [A-Z_][A-Z0-9_]*'')
       else Inr (k, v))"

definition resolve_template_vars :: "env \<Rightarrow> (string \<times> string) list \<Rightarrow> env" where
  "resolve_template_vars defaults cli_vars = foldl (\<lambda>m (k, v). AList.update k v m) defaults cli_vars"

definition validate_template_var_map :: "string \<Rightarrow> env \<Rightarrow> (CoreError, unit) result" where
  "validate_template_var_map path_prefix vs =
    (case find (\<lambda>k. \<not> is_valid_template_var_key k) (sort (map fst vs)) of
       None \<Rightarrow> Inr ()
     | Some k \<Rightarrow> Inl (InvalidWorkflowField (path_prefix @ ''.'' @ k) (''`'' @ k @ ''`'')
         ''template var key matching [A-Z_][A-Z0-9_]*''))"

definition workflow_vars_as_json :: "env \<Rightarrow> (string \<times> json) list" where
  "workflow_vars_as_json vs = map (\<lambda>(k, v). (k, JStr v)) vs"

section \<open>The branch strategy of the command line\<close>

definition parse_cli_branch_strategy :: "string \<Rightarrow> (string, BranchStrategy) result" where
  "parse_cli_branch_strategy input =
    (if input = ''head'' then Inr BHead
     else if input = ''merge-to-head'' then Inr (BMergeToHead ''main'')
     else if \<not> starts_with input ''named-branch:'' then Inl ''expected head, merge-to-head, or named-branch:<name>''
     else if drop 13 input = [] then Inl ''named-branch requires a non-empty branch name''
     else Inr (BNamedBranch (drop 13 input)))"

fun show_cli_branch_strategy :: "BranchStrategy \<Rightarrow> string" where
  "show_cli_branch_strategy BHead = ''head''"
| "show_cli_branch_strategy (BMergeToHead target) = ''merge-to-head''"
| "show_cli_branch_strategy (BNamedBranch n) = ''named-branch:'' @ n"

definition apply_cli_override :: "Workflow \<Rightarrow> BranchStrategy option \<Rightarrow> Workflow" where
  "apply_cli_override w strategy = (case strategy of None \<Rightarrow> w | Some st \<Rightarrow> set_branch_strategy w st)"

section \<open>What the command line asks of the machine\<close>

record CliHost =
  cl_config :: ConfigHost
  cl_env :: "string \<Rightarrow> string option"
  cl_exists :: "string \<Rightarrow> bool"
  cl_read :: "string \<Rightarrow> (string, string) result"
  cl_yaml :: YamlLib
  cl_encode :: yaml_encoder
  cl_parse :: "string \<Rightarrow> (string, WorkflowDef) result"
  cl_defaults_file :: "string \<Rightarrow> FileState"
  cl_defaults_yaml :: "string \<Rightarrow> Defaults option"
  cl_registry_file :: "string \<Rightarrow> RegistryFile"
  cl_registry_yaml :: "string \<Rightarrow> (string, Registry) result"
  cl_files :: Files
  cl_sqlite :: bool
  cl_docker :: bool
  cl_podman :: bool
  cl_gh_token :: bool
  cl_image_exists :: "string \<Rightarrow> bool"
  cl_build_image :: "string \<Rightarrow> (string, unit) result"

text \<open>The last component of a path, if it is a name: empty components and \<open>.\<close> do not count.\<close>

definition path_file_name :: "string \<Rightarrow> string option" where
  "path_file_name p =
    (let cs = components p in
     if cs = [] \<or> last cs = ''..'' then None else Some (last cs))"

definition resolve_workflow_path :: "CliHost \<Rightarrow> string \<Rightarrow> string option" where
  "resolve_workflow_path H p =
    (if cl_exists H p then Some p
     else
       (case (path_file_name p, ch_home (cl_config H)) of
          (Some f, Some home) \<Rightarrow>
            (let q = join_path (join_path (join_path home ''.stepyard'') ''workflows'') f in
             if cl_exists H q then Some q else None)
        | _ \<Rightarrow> None))"

text \<open>Every way a run is refused before its engine exists.\<close>

datatype Problem =
    MissingApiKey
  | MissingGithubLogin
  | ImageBuildFailed string string
  | ImageMissing string
  | PromptsWithoutRegistry
  | RegistryBroken StepError
  | PromptMissing StepError

datatype CliError =
    WorkflowNotFound string
  | DefaultsFailed DefaultsError
  | BadDefaults CoreError
  | FileUnread string string
  | BadTemplate CoreError
  | BadYaml string
  | ValidationFailed "string list"
  | BadSandboxEnv string
  | PodmanNeedsV2
  | RuntimeUnavailable SandboxRuntime
  | PreflightFailed "Problem list"
  | DryRunUnsupported
  | UnknownEngine string
  | CannotAdapt AdapterError
  | BadWorkflow CoreError
  | NoCurrentDir string
  | StoreFailed string
  | ProxyFailed string

definition parse_workflow_file_with_vars :: "CliHost \<Rightarrow> string \<Rightarrow> env \<Rightarrow> (CliError, WorkflowDef) result" where
  "parse_workflow_file_with_vars H p vs =
    res_bind (map_err (FileUnread p) (cl_read H p)) (\<lambda>content.
    res_bind (map_err (BadTemplate \<circ> core_error_from_template) (substitute_workflow_vars (cl_encode H) content vs p)) (\<lambda>text.
    map_err BadYaml (cl_parse H text)))"

section \<open>The checks before a run\<close>

text \<open>The steps a check looks at: those of the workflow, then those of its scopes, but none inside a \<open>parallel\<close>.\<close>

definition listed_steps :: "WorkflowDef \<Rightarrow> StepFields list" where
  "listed_steps wd = map fields_of (d_steps wd) @ concat (map (\<lambda>(n, sc). map fields_of (sd_steps sc)) (d_scopes wd))"

definition mentions :: "string \<Rightarrow> StepFields \<Rightarrow> bool" where
  "mentions what f \<longleftrightarrow>
    (\<exists>t \<in> set (List.map_filter id [f_run f, f_prompt f, f_condition f]).
      str_contains t (''{{ '' @ what) \<or> str_contains t (''{{'' @ what))"

definition workflow_references_stack_vars :: "WorkflowDef \<Rightarrow> bool" where
  "workflow_references_stack_vars wd \<longleftrightarrow> list_ex (mentions ''stack.'') (listed_steps wd)"

definition workflow_references_prompt_vars :: "WorkflowDef \<Rightarrow> bool" where
  "workflow_references_prompt_vars wd \<longleftrightarrow> list_ex (mentions ''prompts.'') (listed_steps wd)"

text \<open>A name ends at white space or at one of four characters.\<close>

definition name_at :: "string \<Rightarrow> string" where
  "name_at s = takeWhile (\<lambda>c. c \<notin> {CHR ''}'', CHR ''|'', CHR ''?'', CHR ''!''}) (fst (first_word s))"

function extract_prompt_names :: "string \<Rightarrow> string list \<Rightarrow> string list \<times> string list" where
  "extract_prompt_names s checked =
    (case find_sub ''prompts.'' s of
       None \<Rightarrow> ([], checked)
     | Some p \<Rightarrow>
       (let after = drop (p + 8) s; raw = name_at after; n = trim raw; rest = drop (length raw) after in
        if n \<noteq> [] \<and> n \<notin> set checked
        then (case extract_prompt_names rest (n # checked) of (ns, ch) \<Rightarrow> (n # ns, ch))
        else extract_prompt_names rest checked))"
  by pat_completeness auto

termination
  by (relation "measure (length \<circ> fst)") (auto simp: dest!: find_sub_SomeD starts_withD)

declare extract_prompt_names.simps [simp del]

fun prompt_names :: "string list \<Rightarrow> string list \<Rightarrow> string list" where
  "prompt_names [] checked = []"
| "prompt_names (t # ts) checked =
    (case extract_prompt_names t checked of (ns, ch) \<Rightarrow> ns @ prompt_names ts ch)"

definition collect_missing_prompts :: "(string \<Rightarrow> bool) \<Rightarrow> WorkflowDef \<Rightarrow> StackInfo \<Rightarrow> string \<Rightarrow> StepError list" where
  "collect_missing_prompts there wd info dir =
    List.map_filter (\<lambda>n. case resolve_prompt there n info dir of Inl e \<Rightarrow> Some e | Inr p \<Rightarrow> None)
      (prompt_names (concat (map (\<lambda>f. List.map_filter id [f_run f, f_prompt f]) (listed_steps wd))) [])"

definition image_problems :: "CliHost \<Rightarrow> WorkflowDef \<Rightarrow> Problem list" where
  "image_problems H wd =
    (let image = or_else (bc_image (from_global_config (c_global (d_config wd)))) default_image in
     if cl_image_exists H image then []
     else if image = default_image
     then (case cl_build_image H image of Inl e \<Rightarrow> [ImageBuildFailed image e] | Inr _ \<Rightarrow> [])
     else [ImageMissing image])"

text \<open>The detection of the stack may fail to return; when it fails, that is a warning only.\<close>

definition prompt_problems :: "CliHost \<Rightarrow> WorkflowDef \<Rightarrow> Problem list option" where
  "prompt_problems H wd =
    (let stack = workflow_references_stack_vars wd; prompts = workflow_references_prompt_vars wd in
     if \<not> (stack \<or> prompts) then Some []
     else if \<not> cl_exists H ''prompts/registry.yaml'' then Some (if prompts then [PromptsWithoutRegistry] else [])
     else
       (case registry_from_file (cl_registry_file H) (cl_registry_yaml H) ''prompts/registry.yaml'' of
          Inl e \<Rightarrow> Some [RegistryBroken e]
        | Inr reg \<Rightarrow>
          if \<not> prompts then Some []
          else map_option (\<lambda>r. case r of
              Inl e \<Rightarrow> []
            | Inr info \<Rightarrow> map PromptMissing
                (collect_missing_prompts (cl_exists H) wd info (or_else (d_prompts_dir wd) ''prompts'')))
            (detect reg (cl_files H) ''.'')))"

definition validate_environment :: "CliHost \<Rightarrow> WorkflowDef \<Rightarrow> bool \<Rightarrow> SandboxRuntime \<Rightarrow> Problem list option" where
  "validate_environment H wd sandboxed runtime =
    map_option (\<lambda>ps.
      (if list_ex (\<lambda>s. f_type (fields_of s) \<in> {StChat, StMap}) (d_steps wd) \<and> cl_env H ''ANTHROPIC_API_KEY'' = None
       then [MissingApiKey] else []) @
      (if list_ex (\<lambda>s. case f_run (fields_of s) of None \<Rightarrow> False | Some r \<Rightarrow> str_contains r ''gh '') (d_steps wd) \<and>
          cl_env H ''GH_TOKEN'' = None \<and> cl_env H ''GITHUB_TOKEN'' = None \<and> \<not> cl_gh_token H
       then [MissingGithubLogin] else []) @
      (if sandboxed \<and> runtime = DockerRuntime then image_problems H wd else []) @ ps) (prompt_problems H wd)"

definition require_runtime :: "CliHost \<Rightarrow> SandboxRuntime \<Rightarrow> bool" where
  "require_runtime H r = (case r of LocalRuntime \<Rightarrow> True | DockerRuntime \<Rightarrow> cl_docker H | PodmanRuntime \<Rightarrow> cl_podman H)"

section \<open>Other commands\<close>

definition parse_file :: "CliHost \<Rightarrow> string \<Rightarrow> (CliError, WorkflowDef) result" where
  "parse_file H p = res_bind (map_err (FileUnread p) (cl_read H p)) (\<lambda>content. map_err BadYaml (cl_parse H content))"

text \<open>\<open>validate\<close> looks at the file as it is: no variable is substituted and no default is laid under it.\<close>

definition validate_command :: "CliHost \<Rightarrow> string \<Rightarrow> (CliError, string) result" where
  "validate_command H path =
    res_bind (ok_or (WorkflowNotFound path) (resolve_workflow_path H path)) (\<lambda>p.
    res_bind (parse_file H p) (\<lambda>wd.
    if validate_def wd = [] then Inr (d_name wd) else Inl (ValidationFailed (validate_def wd))))"

definition init_file_name :: "string \<Rightarrow> string" where
  "init_file_name n = (if ends_with n ''.yaml'' \<or> ends_with n ''.yml'' then n else n @ ''.yaml'')"

text \<open>\<open>config set\<close>: the document that is written back. The value is always a string.\<close>

datatype ConfigSetError = BadKey string | UnknownSection string | NotAMapping | SectionNotAMapping string

fun update_mapping :: "((yaml \<times> yaml) list \<Rightarrow> ('e, (yaml \<times> yaml) list) result) \<Rightarrow> 'e \<Rightarrow> yaml \<Rightarrow> ('e, yaml) result" where
  "update_mapping f e (YMapping m) = res_bind (f m) (\<lambda>m'. Inr (YMapping m'))"
| "update_mapping f e (YTagged t v) = res_bind (update_mapping f e v) (\<lambda>v'. Inr (YTagged t v'))"
| "update_mapping f e v = Inl e"

definition config_set_value :: "string \<Rightarrow> string \<Rightarrow> yaml option \<Rightarrow> (ConfigSetError, yaml) result" where
  "config_set_value key v existing =
    (case split_once (CHR ''.'') key of
       None \<Rightarrow> Inl (BadKey key)
     | Some (sec, fld) \<Rightarrow>
       if sec \<notin> {''global'', ''agent'', ''chat'', ''cmd'', ''gate''} then Inl (UnknownSection sec)
       else update_mapping (\<lambda>m.
           res_bind (update_mapping (\<lambda>s. Inr (AList.update (YStr fld) (YStr v) s)) (SectionNotAMapping sec)
             (or_else (map_of m (YStr sec)) (YMapping []))) (\<lambda>s.
           Inr (AList.update (YStr sec) s m))) NotAMapping (or_else existing (YMapping [])))"

end
