(* ===== verification/CliRun.thy ===== *)
theory CliRun
  imports Cli AdapterProps Lifecycle Worktree
begin

text \<open>
  The command \<open>execute\<close> of \<open>src/cli/commands.rs\<close>, from its arguments to the exit status: what is checked
  and decided before a run, how the engine of the harness is put together (\<open>execute_v2\<close>), and the loop that
  drives it. Opening the session, starting the proxy and the machine behind a lifecycle are answers of the host.
\<close>

section \<open>Deciding\<close>

record ExecuteArgs =
  ea_workflow :: string
  ea_target :: "string list"
  ea_verbose :: bool
  ea_quiet :: bool
  ea_json :: bool
  ea_dry_run :: bool
  ea_resume :: "string option"
  ea_sandbox :: bool
  ea_no_sandbox :: bool
  ea_runtime :: "SandboxRuntime option"
  ea_no_file_logs :: bool
  ea_vars :: "(string \<times> string) list"
  ea_timeout :: "nat option"
  ea_branch_strategy :: "BranchStrategy option"
  ea_repo :: "string option"
  ea_engine :: string

text \<open>With \<open>--json\<close> some refusals are printed as a document before the process exits with 1.\<close>

datatype CliStop = Refused CliError | JsonExit CliError

definition refuse :: "bool \<Rightarrow> CliError \<Rightarrow> CliStop" where
  "refuse json e = (if json then JsonExit e else Refused e)"

definition effective_mode :: "ExecuteArgs \<Rightarrow> SandboxRuntime \<Rightarrow> SandboxMode \<Rightarrow> SandboxMode" where
  "effective_mode a runtime mode =
    (if runtime = LocalRuntime then Disabled
     else if ea_no_sandbox a \<and> ea_runtime a \<noteq> None then FullWorkflow
     else mode)"

record Plan =
  xp_workflow :: WorkflowDef
  xp_defaults :: Defaults
  xp_vars :: env
  xp_mode :: SandboxMode
  xp_runtime :: SandboxRuntime

definition load_workflow :: "CliHost \<Rightarrow> ExecuteArgs \<Rightarrow> (CliStop, WorkflowDef \<times> Defaults \<times> env) result" where
  "load_workflow H a =
    res_bind (map_err Refused (ok_or (WorkflowNotFound (ea_workflow a)) (resolve_workflow_path H (ea_workflow a)))) (\<lambda>p.
    res_bind (map_err (Refused \<circ> DefaultsFailed)
      (load_env_defaults (cl_defaults_file H) (cl_defaults_yaml H) ''.stepyard/defaults.yaml'')) (\<lambda>ds.
    res_bind (map_err (Refused \<circ> BadDefaults) (validate_template_var_map ''.stepyard/defaults.yaml:vars'' (def_vars ds))) (\<lambda>_.
    let vs = resolve_template_vars (def_vars ds) (ea_vars a) in
    res_bind (map_err Refused (parse_workflow_file_with_vars H p vs)) (\<lambda>wd0.
    let wd = wd0\<lparr>d_config := apply_defaults (cl_config H) (d_config wd0)\<rparr> in
    if validate_def wd \<noteq> [] then Inl (refuse (ea_json a) (ValidationFailed (validate_def wd)))
    else Inr (wd, ds, vs)))))"

definition choose_sandbox :: "CliHost \<Rightarrow> ExecuteArgs \<Rightarrow> WorkflowConfig \<Rightarrow> (CliStop, SandboxRuntime \<times> SandboxMode) result" where
  "choose_sandbox H a c =
    (let mode = resolve_mode (ea_sandbox a \<and> \<not> ea_no_sandbox a) (c_global c) (c_agent c) in
     res_bind (map_err (Refused \<circ> BadSandboxEnv)
       (resolve_runtime (cl_sqlite H) (ea_runtime a) (cl_env H ''STEPYARD_SANDBOX'') (ea_no_sandbox a))) (\<lambda>r.
     if ea_engine a = ''v1'' \<and> r = PodmanRuntime then Inl (Refused PodmanNeedsV2)
     else Inr (r, effective_mode a r mode)))"

text \<open>The checks of \<open>execute\<close>; \<open>None\<close> when the detection of the stack never returns.\<close>

definition prepare_execute :: "CliHost \<Rightarrow> ExecuteArgs \<Rightarrow> (CliStop, Plan) result option" where
  "prepare_execute H a =
    (case load_workflow H a of
       Inl e \<Rightarrow> Some (Inl e)
     | Inr (wd, ds, vs) \<Rightarrow>
       (case choose_sandbox H a (d_config wd) of
          Inl e \<Rightarrow> Some (Inl e)
        | Inr (r, mode) \<Rightarrow>
          if mode \<noteq> Disabled \<and> \<not> require_runtime H r then Some (Inl (refuse (ea_json a) (RuntimeUnavailable r)))
          else map_option (\<lambda>ps.
              if ps \<noteq> [] then Inl (refuse (ea_json a) (PreflightFailed ps))
              else Inr \<lparr>xp_workflow = wd, xp_defaults = ds, xp_vars = vs, xp_mode = mode, xp_runtime = r\<rparr>)
            (validate_environment H wd (mode \<noteq> Disabled) r)))"

datatype Dispatch = DryRun1 Plan | Run1 Plan | Run2 Plan

definition select_engine :: "ExecuteArgs \<Rightarrow> Plan \<Rightarrow> (CliStop, Dispatch) result" where
  "select_engine a p =
    (if ea_engine a = ''v1'' then Inr (if ea_dry_run a then DryRun1 p else Run1 p)
     else if ea_engine a = ''v2'' then (if ea_dry_run a then Inl (Refused DryRunUnsupported) else Inr (Run2 p))
     else Inl (Refused (UnknownEngine (ea_engine a))))"

section \<open>The engine of the harness\<close>

datatype LifecycleKind = LocalShell | DockerLifecycle | PodmanLifecycle

definition choose_lifecycle :: "SandboxRuntime \<Rightarrow> SandboxMode \<Rightarrow> LifecycleKind" where
  "choose_lifecycle r mode =
    (case r of
       LocalRuntime \<Rightarrow> LocalShell
     | DockerRuntime \<Rightarrow> if mode = Disabled then LocalShell else DockerLifecycle
     | PodmanRuntime \<Rightarrow> if mode = Disabled then LocalShell else PodmanLifecycle)"

record CreateOptions =
  co_image :: "string option"
  co_volumes :: "string list"
  co_cpus :: "64 word option"
  co_memory :: "string option"
  co_dns :: "string list"
  co_network :: NetworkConfig
  co_extra_hosts :: "string list"
  co_workdir :: "string option"

definition create_options_from_global_config :: "bag \<Rightarrow> CreateOptions" where
  "create_options_from_global_config g =
    (let cfg = from_global_config g in
     \<lparr>co_image = bc_image cfg, co_volumes = bc_volumes cfg, co_cpus = rs_cpus (bc_resources cfg),
      co_memory = rs_memory (bc_resources cfg), co_dns = bc_dns cfg, co_network = bc_network cfg,
      co_extra_hosts = [], co_workdir = None\<rparr>)"

definition container_workspace_of :: "string \<Rightarrow> ContainerWorkspace" where
  "container_workspace_of dir = \<lparr>cw_host_dir = dir, cw_container_dir = ''/workspace'', cw_agent_user = Some ''stepyard'',
     cw_exclude = [''target'', ''node_modules'', ''.stepyard'', ''.venv'', ''__pycache__'']\<rparr>"

text \<open>Opening a session stands for the connection, the recovery at startup, the store and the new row.\<close>

record RunHost =
  rh_cwd :: "(string, string) result"
  rh_open :: "string \<Rightarrow> (string, uuid) result"
  rh_proxy :: "string \<Rightarrow> (string, AnthropicProxyEnv) result"
  rh_machine :: "LifecycleKind \<Rightarrow> CreateOptions \<Rightarrow> Host"

record Setup =
  su_engine :: Engine
  su_lifecycle :: LifecycleKind
  su_options :: CreateOptions

definition sandbox_options :: "bool \<Rightarrow> AnthropicProxyEnv option \<Rightarrow> bag \<Rightarrow> CreateOptions" where
  "sandbox_options boxed proxy g =
    (let o1 = create_options_from_global_config g;
         o2 = (if boxed then o1\<lparr>co_image := Some (or_else (co_image o1) default_image), co_workdir := Some ''/workspace''\<rparr> else o1) in
     if proxy = None then o2 else o2\<lparr>co_extra_hosts := co_extra_hosts o2 @ [''host.docker.internal:host-gateway'']\<rparr>)"

definition start_api_proxy :: "CliHost \<Rightarrow> RunHost \<Rightarrow> bool \<Rightarrow> (CliStop, AnthropicProxyEnv option) result" where
  "start_api_proxy H R boxed =
    (case (if boxed then cl_env H ''ANTHROPIC_API_KEY'' else None) of
       None \<Rightarrow> Inr None
     | Some key \<Rightarrow> map_err (Refused \<circ> ProxyFailed) (res_bind (rh_proxy R key) (\<lambda>x. Inr (Some x))))"

definition setup_v2 :: "CliHost \<Rightarrow> RunHost \<Rightarrow> ExecuteArgs \<Rightarrow> Plan \<Rightarrow> (CliStop, Setup) result" where
  "setup_v2 H R a p =
    (let wd = xp_workflow p; boxed = (xp_mode p \<noteq> Disabled \<and> xp_runtime p \<in> {DockerRuntime, PodmanRuntime}) in
     res_bind (map_err (Refused \<circ> CannotAdapt) (adapt (cl_yaml H) wd)) (\<lambda>w0.
     let w = apply_cli_override w0 (ea_branch_strategy a) in
     res_bind (map_err (Refused \<circ> BadWorkflow) (validate w)) (\<lambda>_.
     res_bind (map_err (Refused \<circ> BadWorkflow) (resolve_branch_strategy w)) (\<lambda>strategy.
     res_bind (map_err (Refused \<circ> NoCurrentDir) (rh_cwd R)) (\<lambda>root.
     res_bind (map_err (Refused \<circ> StoreFailed) (rh_open R (d_name wd))) (\<lambda>sid.
     res_bind (start_api_proxy H R boxed) (\<lambda>proxy.
     res_bind (map_err (Refused \<circ> BadDefaults) (validate_env_map ''.stepyard/defaults.yaml:env'' (def_env (xp_defaults p)))) (\<lambda>_.
     let kind = choose_lifecycle (xp_runtime p) (xp_mode p); opts = sandbox_options boxed proxy (c_global (d_config wd));
         M = \<lparr>repo_root = root, workspaces_dir = join_path (join_path root ''.stepyard'') ''workspaces'', retention_hours = 24\<rparr> in
     Inr \<lparr>su_engine = \<lparr>e_host = rh_machine R kind opts, e_session = sid, e_workflow = w,
            e_defaults = def_env (xp_defaults p), e_target = (case ea_target a of [] \<Rightarrow> [] | t # ts \<Rightarrow> t),
            e_vars = xp_vars p, e_proxy = proxy,
            e_container_workspace = (if boxed then Some (container_workspace_of root) else None),
            e_chat_client = True, e_manager = True, e_strategy = strategy,
            e_workspace_path = Some (workspace_path M sid)\<rparr>,
          su_lifecycle = kind, su_options = opts\<rparr>))))))))"

section \<open>Driving it\<close>

text \<open>A parked run waits for the signal handler, which decides the exit status.\<close>

datatype CliEnd = Finished | ExitWith nat | ParkedOn Signal | EngineBroke EngineError

fun end_of :: "(EngineError, StepOutcome) result \<Rightarrow> CliEnd option" where
  "end_of (Inr (StepCompletedO n)) = None"
| "end_of (Inr (StepFailedO n e)) = Some (ExitWith 1)"
| "end_of (Inr WorkflowCompletedO) = Some Finished"
| "end_of (Inr CancelledO) = Some (ExitWith 130)"
| "end_of (Inl (StepFailedErr i (ReasonSignal sg))) = Some (ParkedOn sg)"
| "end_of (Inl e) = Some (EngineBroke e)"

fun drive :: "nat \<Rightarrow> Engine \<Rightarrow> World \<Rightarrow> (CliEnd \<times> World) option" where
  "drive 0 E w = None"
| "drive (Suc fuel) E w =
    (case step E w of (r, w') \<Rightarrow> (case end_of r of None \<Rightarrow> drive fuel E w' | Some e \<Rightarrow> Some (e, w')))"

text \<open>\<open>main\<close>: an error is printed and the status is 1; a panic unwinds through it, which gives 101.\<close>

fun exit_status :: "CliEnd \<Rightarrow> nat option" where
  "exit_status Finished = Some 0"
| "exit_status (ExitWith n) = Some n"
| "exit_status (ParkedOn sg) = None"
| "exit_status (EngineBroke (Panic m)) = Some 101"
| "exit_status (EngineBroke e) = Some 1"

fun stop_status :: "CliStop \<Rightarrow> nat" where
  "stop_status (Refused e) = 1"
| "stop_status (JsonExit e) = 1"

text \<open>
  The command. The legacy engine is the model of \<open>V1Engine\<close>. One call more than there are steps is enough
  fuel for the loop, whatever the host answers: only a stack detection that never returns gives \<open>None\<close>.
\<close>

datatype CliOutcome = Stopped CliStop | Legacy Dispatch | Ran Plan Setup CliEnd World

definition execute :: "CliHost \<Rightarrow> RunHost \<Rightarrow> ExecuteArgs \<Rightarrow> CliOutcome option" where
  "execute H R a =
    (case prepare_execute H a of
       None \<Rightarrow> None
     | Some (Inl s) \<Rightarrow> Some (Stopped s)
     | Some (Inr p) \<Rightarrow>
       (case select_engine a p of
          Inl s \<Rightarrow> Some (Stopped s)
        | Inr (Run2 q) \<Rightarrow>
          (case setup_v2 H R a q of
             Inl s \<Rightarrow> Some (Stopped s)
           | Inr su \<Rightarrow> map_option (\<lambda>(e, w). Ran q su e w)
               (drive (Suc (length (d_steps (xp_workflow q)))) (su_engine su) new_session))
        | Inr d \<Rightarrow> Some (Legacy d)))"

section \<open>A command in a running sandbox\<close>

text \<open>\<open>exec\<close>: the arguments that are refused, and what is run in the container of a session otherwise.\<close>

datatype ExecError = OnlyInteractive | ExecBadEnv string | LocalHasNoExec | ExecRuntimeUnavailable SandboxRuntime
  | ExecCallFailed string | ExecStatus "32 word"

definition exec_interactive ::
  "CliHost \<Rightarrow> (LifecycleKind \<Rightarrow> uuid \<Rightarrow> string list \<Rightarrow> (string, 32 word) result) \<Rightarrow> bool \<Rightarrow> SandboxRuntime option \<Rightarrow> uuid \<Rightarrow>
    string list \<Rightarrow> (ExecError, unit) result" where
  "exec_interactive H run interactive flag sid command =
    (if \<not> interactive then Inl OnlyInteractive
     else
       res_bind (map_err ExecBadEnv (resolve_runtime (cl_sqlite H) flag (cl_env H ''STEPYARD_SANDBOX'') False)) (\<lambda>r.
       if r = LocalRuntime then Inl LocalHasNoExec
       else if \<not> require_runtime H r then Inl (ExecRuntimeUnavailable r)
       else
         res_bind (map_err ExecCallFailed (run (if r = DockerRuntime then DockerLifecycle else PodmanLifecycle) sid
           (if command = [] then [''sh''] else command))) (\<lambda>status.
         if status \<noteq> 0 then Inl (ExecStatus status) else Inr ())))"

end
