(* ===== verification/CliProps.thy ===== *)
theory CliProps
  imports CliRun "HOL-Library.Sublist"
begin

text \<open>
  What the command line promises: a run it starts is of a workflow that passed every check, and its exit
  status tells what the log says; which sandbox a run gets; the live view shows every event once.
\<close>

section \<open>A run and its exit status\<close>

lemma drive_resume:
  "drive fuel E w = (case resume fuel E w of None \<Rightarrow> None | Some (r, w') \<Rightarrow> map_option (\<lambda>e. (e, w')) (end_of r))"
proof (induction fuel arbitrary: w)
  case (Suc fuel)
  obtain r w1 where s: "step E w = (r, w1)" by fastforce
  show ?case
  proof (cases "end_of r")
    case None
    then obtain n where "r = Inr (StepCompletedO n)" by (cases r rule: end_of.cases) auto
    then show ?thesis using s Suc.IH by simp
  next
    case (Some e)
    then have "\<And>n. r \<noteq> Inr (StepCompletedO n)" by auto
    then have "resume (Suc fuel) E w = Some (r, w1)" using resume_Suc [OF s] by (auto split: sum.split StepOutcome.split)
    then show ?thesis using s Some by simp
  qed
qed simp

text \<open>The loop that \<open>resume\<close> makes leaves a world that is a life of the session.\<close>

lemma resume_live: "resume fuel E w = Some (r, w') \<Longrightarrow> live (steps_of E) w \<Longrightarrow> live (steps_of E) w'"
proof (induction fuel arbitrary: w)
  case (Suc fuel)
  obtain r1 w1 where s: "step E w = (r1, w1)" by fastforce
  have l: "live (steps_of E) w1" using live_step [OF Suc.prems(2) refl s] .
  show ?case using Suc.prems(1) resume_Suc [OF s, of fuel] Suc.IH [OF _ l] l
    by (auto split: sum.splits StepOutcome.splits)
qed simp

lemma all_steps_done:
  assumes "live (steps_of E) w" and "length (steps_of E) \<le> n_completed (wlog w)"
  shows "comp_names (wlog w) = map Some (map s_name (steps_of E))"
  using live_coherent [OF assms(1)] assms(2) by (simp add: coherent_def comp_def)

text \<open>
  What the status of a run tells: how the loop over \<open>step\<close> ended (every status but 1 names one end), and what the log and
  the row of the session then hold. An error that ends no step leaves the session as it is. \<open>names\<close> are those of the
  steps.
\<close>

fun tells :: "string list \<Rightarrow> (EngineError, StepOutcome) result \<Rightarrow> nat option \<Rightarrow> World \<Rightarrow> bool" where
  "tells names (Inr WorkflowCompletedO) code w \<longleftrightarrow> code = Some 0 \<and> wdb w = Completed \<and> \<not> any_failed (wlog w) \<and>
    (any_done (wlog w) \<or> comp_names (wlog w) = map Some names)"
| "tells names (Inr CancelledO) code w \<longleftrightarrow> code = Some 130 \<and> any_failed (wlog w) \<and> wdb w = Cancelled"
| "tells names (Inr (StepFailedO n err)) code w \<longleftrightarrow> code = Some 1 \<and> any_failed (wlog w) \<and> wdb w = Failed"
| "tells names (Inr (StepCompletedO n)) code w \<longleftrightarrow> False"
| "tells names (Inl (StepFailedErr i (ReasonSignal sg))) code w \<longleftrightarrow> code = None \<and> any_failed (wlog w) \<and> wdb w = Cancelled"
| "tells names (Inl (StepFailedErr i reason)) code w \<longleftrightarrow> code = Some 1 \<and> any_failed (wlog w) \<and> wdb w = Failed"
| "tells names (Inl (Panic m)) code w \<longleftrightarrow> code = Some 101 \<and> m = overflow_panic"
| "tells names (Inl e) code w \<longleftrightarrow> code = Some 1"

lemma drive_fresh:
  "\<exists>e w r. drive (Suc (length (steps_of E))) E new_session = Some (e, w) \<and>
    resume (Suc (length (steps_of E))) E new_session = Some (r, w) \<and> live (steps_of E) w \<and>
    tells (map s_name (steps_of E)) r (exit_status e) w"
proof -
  have n: "n_completed (wlog new_session) = 0" "stat new_session = (Running, Running)"
    by (simp_all add: new_session_def stat_def)
  obtain r w where r: "resume (Suc (length (steps_of E))) E new_session = Some (r, w)" "ended E (Running, Running) r w"
    using resume_ended [of E new_session "Suc (length (steps_of E))"] n by auto
  note live = resume_live [OF r(1) live_new] and complete = all_steps_done [of E w]
  have "\<exists>e. end_of r = Some e" using r(2) by (cases r rule: end_of.cases) auto
  then obtain e where e: "end_of r = Some e" by blast
  then have d: "drive (Suc (length (steps_of E))) E new_session = Some (e, w)"
    using r(1) by (simp add: drive_resume)
  have "tells (map s_name (steps_of E)) r (exit_status e) w"
    using e r(2) live complete
    by (cases "(map s_name (steps_of E), r, exit_status e, w)" rule: tells.cases) (auto simp: closed_def stat_def)
  then show ?thesis using d r(1) live by blast
qed

section \<open>What was checked before it\<close>

lemma prepared:
  assumes "prepare_execute H a = Some (Inr p)"
  shows "validate_def (xp_workflow p) = []"
    and "choose_sandbox H a (d_config (xp_workflow p)) = Inr (xp_runtime p, xp_mode p)"
    and "xp_mode p \<noteq> Disabled \<Longrightarrow> require_runtime H (xp_runtime p)"
    and "validate_environment H (xp_workflow p) (xp_mode p \<noteq> Disabled) (xp_runtime p) = Some []"
proof -
  obtain wd ds vs where l: "load_workflow H a = Inr (wd, ds, vs)"
    using assms by (auto simp: prepare_execute_def split: sum.splits)
  obtain r mode where s: "choose_sandbox H a (d_config wd) = Inr (r, mode)"
    using assms l by (auto simp: prepare_execute_def split: sum.splits)
  have m: "mode \<noteq> Disabled \<Longrightarrow> require_runtime H r"
    and e: "validate_environment H wd (mode \<noteq> Disabled) r = Some []"
    and p: "p = \<lparr>xp_workflow = wd, xp_defaults = ds, xp_vars = vs, xp_mode = mode, xp_runtime = r\<rparr>"
    using assms l s by (auto simp: prepare_execute_def split: if_splits)
  have "validate_def wd = []"
    using l by (auto simp: load_workflow_def res_bind_Ok_iff Let_def split: if_splits)
  then show "validate_def (xp_workflow p) = []"
    "choose_sandbox H a (d_config (xp_workflow p)) = Inr (xp_runtime p, xp_mode p)"
    "xp_mode p \<noteq> Disabled \<Longrightarrow> require_runtime H (xp_runtime p)"
    "validate_environment H (xp_workflow p) (xp_mode p \<noteq> Disabled) (xp_runtime p) = Some []"
    using s m e by (simp_all add: p)
qed

text \<open>
  What the checks ask of the machine: the client of the container runtime, if there is to be a container; a key for a
  chat or a map; a login for a command that calls \<open>gh\<close>; the image, there or built; the registry and every prompt of the
  stack, if a step mentions them.
\<close>

definition runtime_there :: "CliHost \<Rightarrow> SandboxMode \<Rightarrow> SandboxRuntime \<Rightarrow> bool" where
  "runtime_there H mode r \<longleftrightarrow>
    mode = Disabled \<or> r = LocalRuntime \<or> r = DockerRuntime \<and> cl_docker H \<or> r = PodmanRuntime \<and> cl_podman H"

definition logins_there :: "CliHost \<Rightarrow> WorkflowDef \<Rightarrow> bool" where
  "logins_there H wd \<longleftrightarrow>
    (\<forall>s \<in> set (d_steps wd).
      (f_type (fields_of s) \<in> {StChat, StMap} \<longrightarrow> cl_env H ''ANTHROPIC_API_KEY'' \<noteq> None) \<and>
      (\<forall>r. f_run (fields_of s) = Some r \<and> str_contains r ''gh '' \<longrightarrow>
        cl_env H ''GH_TOKEN'' \<noteq> None \<or> cl_env H ''GITHUB_TOKEN'' \<noteq> None \<or> cl_gh_token H))"

definition image_there :: "CliHost \<Rightarrow> WorkflowDef \<Rightarrow> bool" where
  "image_there H wd \<longleftrightarrow>
    (\<exists>image. image = or_else (bc_image (from_global_config (c_global (d_config wd)))) default_image \<and>
      (cl_image_exists H image \<or> image = default_image \<and> cl_build_image H image = Inr ()))"

text \<open>The prompts that the commands and the prompts of the steps name.\<close>

definition asked_prompts :: "WorkflowDef \<Rightarrow> string list" where
  "asked_prompts wd = prompt_names (concat (map (\<lambda>f. List.map_filter id [f_run f, f_prompt f]) (listed_steps wd))) []"

definition prompts_there :: "CliHost \<Rightarrow> WorkflowDef \<Rightarrow> bool" where
  "prompts_there H wd \<longleftrightarrow>
    (let steps = set (listed_steps wd) in
     ((\<exists>f \<in> steps. mentions ''prompts.'' f) \<longrightarrow> cl_exists H ''prompts/registry.yaml'') \<and>
     ((\<exists>f \<in> steps. mentions ''prompts.'' f \<or> mentions ''stack.'' f) \<and> cl_exists H ''prompts/registry.yaml'' \<longrightarrow>
       (\<exists>reg. registry_from_file (cl_registry_file H) (cl_registry_yaml H) ''prompts/registry.yaml'' = Inr reg \<and>
         (\<forall>info. (\<exists>f \<in> steps. mentions ''prompts.'' f) \<and> detect reg (cl_files H) ''.'' = Some (Inr info) \<longrightarrow>
           (\<forall>n \<in> set (asked_prompts wd).
             \<exists>p. resolve_prompt (cl_exists H) n info (or_else (d_prompts_dir wd) ''prompts'') = Inr p)))))"

definition machine_ready :: "CliHost \<Rightarrow> WorkflowDef \<Rightarrow> SandboxMode \<Rightarrow> SandboxRuntime \<Rightarrow> bool" where
  "machine_ready H wd mode r \<longleftrightarrow>
    logins_there H wd \<and> (mode \<noteq> Disabled \<and> r = DockerRuntime \<longrightarrow> image_there H wd) \<and> prompts_there H wd"

lemma no_image_problem: "image_problems H wd = [] \<longleftrightarrow> image_there H wd"
  by (auto simp: image_problems_def image_there_def Let_def split: sum.splits)

lemma no_missing_prompt:
  "collect_missing_prompts there wd info dir = [] \<longleftrightarrow>
    (\<forall>n \<in> set (asked_prompts wd).
      \<exists>p. resolve_prompt there n info dir = Inr p)"
proof -
  have "List.map_filter (\<lambda>n. case g n of Inl e \<Rightarrow> Some e | Inr p \<Rightarrow> None) ns = [] \<longleftrightarrow> (\<forall>n \<in> set ns. \<exists>p. g n = Inr p)"
    for g :: "string \<Rightarrow> (StepError, string) result" and ns
    by (induction ns) (auto simp: List.map_filter_simps split: sum.splits)
  then show ?thesis by (simp add: collect_missing_prompts_def asked_prompts_def)
qed

lemma no_prompt_problem:
  assumes "prompt_problems H wd = Some ps"
  shows "ps = [] \<longleftrightarrow> prompts_there H wd"
proof -
  let ?prompts = "\<exists>f \<in> set (listed_steps wd). mentions ''prompts.'' f" and ?stack = "\<exists>f \<in> set (listed_steps wd). mentions ''stack.'' f"
  let ?there = "cl_exists H ''prompts/registry.yaml''"
  let ?file = "registry_from_file (cl_registry_file H) (cl_registry_yaml H) ''prompts/registry.yaml''"
  have refs: "workflow_references_prompt_vars wd \<longleftrightarrow> ?prompts" "workflow_references_stack_vars wd \<longleftrightarrow> ?stack"
    by (simp_all add: workflow_references_prompt_vars_def workflow_references_stack_vars_def list_ex_iff)
  have there: "prompts_there H wd \<longleftrightarrow> (?prompts \<longrightarrow> ?there) \<and> ((?prompts \<or> ?stack) \<and> ?there \<longrightarrow>
      (\<exists>reg. ?file = Inr reg \<and> (\<forall>info. ?prompts \<and> detect reg (cl_files H) ''.'' = Some (Inr info) \<longrightarrow>
        (\<forall>n \<in> set (asked_prompts wd). \<exists>p. resolve_prompt (cl_exists H) n info (or_else (d_prompts_dir wd) ''prompts'') = Inr p))))"
    unfolding prompts_there_def Let_def bex_disj_distrib ..
  show ?thesis
  proof (cases "(?prompts \<or> ?stack) \<and> ?there")
    case False
    then show ?thesis using assms unfolding prompt_problems_def refs there Let_def by (auto split: if_splits)
  next
    case True
    show ?thesis
    proof (cases ?file)
      case (Inl e)
      then show ?thesis using assms True unfolding prompt_problems_def refs there Let_def by (auto split: if_splits)
    next
      case (Inr reg)
      show ?thesis
      proof (cases "detect reg (cl_files H) ''.''")
        case None
        then show ?thesis using assms True Inr unfolding prompt_problems_def refs there Let_def by (auto split: if_splits)
      next
        case (Some d)
        then show ?thesis using assms True Inr no_missing_prompt [where there = "cl_exists H" and wd = wd]
          unfolding prompt_problems_def refs there Let_def by (cases d) (auto split: if_splits)
      qed
    qed
  qed
qed

lemma no_problem: "validate_environment H wd (mode \<noteq> Disabled) r = Some ps \<Longrightarrow> ps = [] \<longleftrightarrow> machine_ready H wd mode r"
  using no_prompt_problem [of H wd] no_image_problem [of H wd]
  by (auto simp: validate_environment_def machine_ready_def logins_there_def list_ex_iff split: if_splits option.splits)

lemma runtime_required: "mode \<noteq> Disabled \<and> \<not> require_runtime H r \<longleftrightarrow> \<not> runtime_there H mode r"
  by (auto simp: require_runtime_def runtime_there_def split: SandboxRuntime.splits)

definition passed :: "CliHost \<Rightarrow> Plan \<Rightarrow> bool" where
  "passed H p \<longleftrightarrow> validate_def (xp_workflow p) = [] \<and> runtime_there H (xp_mode p) (xp_runtime p) \<and>
    machine_ready H (xp_workflow p) (xp_mode p) (xp_runtime p)"

lemma prepared_passed: "prepare_execute H a = Some (Inr p) \<Longrightarrow> passed H p"
  using prepared [of H a p] no_problem [of H "xp_workflow p" "xp_mode p" "xp_runtime p" "[]"] runtime_required
  by (auto simp: passed_def)

text \<open>Why a run is refused, as the machine, the arguments and the file have it.\<close>

fun refusal :: "CliHost \<Rightarrow> RunHost \<Rightarrow> ExecuteArgs \<Rightarrow> CliError \<Rightarrow> bool" where
  "refusal H R a (WorkflowNotFound n) \<longleftrightarrow> n = ea_workflow a \<and> resolve_workflow_path H n = None"
| "refusal H R a (FileUnread n e) \<longleftrightarrow> resolve_workflow_path H (ea_workflow a) = Some n \<and> cl_read H n = Inl e"
| "refusal H R a (BadYaml e) \<longleftrightarrow> (\<exists>t. cl_parse H t = Inl e)"
| "refusal H R a (ValidationFailed es) \<longleftrightarrow> es \<noteq> [] \<and> (\<exists>t wd. cl_parse H t = Inr wd \<and>
    es = validate_def (wd\<lparr>d_config := apply_defaults (cl_config H) (d_config wd)\<rparr>))"
| "refusal H R a PodmanNeedsV2 \<longleftrightarrow> ea_engine a = ''v1''"
| "refusal H R a (RuntimeUnavailable r) \<longleftrightarrow> (r = DockerRuntime \<and> \<not> cl_docker H) \<or> (r = PodmanRuntime \<and> \<not> cl_podman H)"
| "refusal H R a (PreflightFailed ps) \<longleftrightarrow> ps \<noteq> [] \<and>
    (\<exists>wd mode r. validate_def wd = [] \<and> runtime_there H mode r \<and> \<not> machine_ready H wd mode r)"
| "refusal H R a DryRunUnsupported \<longleftrightarrow> ea_engine a = ''v2'' \<and> ea_dry_run a"
| "refusal H R a (UnknownEngine n) \<longleftrightarrow> n = ea_engine a \<and> n \<notin> {''v1'', ''v2''}"
| "refusal H R a (CannotAdapt e) \<longleftrightarrow> (\<exists>wd. adapt (cl_yaml H) wd = Inl e)"
| "refusal H R a (NoCurrentDir e) \<longleftrightarrow> rh_cwd R = Inl e"
| "refusal H R a (StoreFailed e) \<longleftrightarrow> (\<exists>n. rh_open R n = Inl e)"
| "refusal H R a (ProxyFailed e) \<longleftrightarrow> (\<exists>key. cl_env H ''ANTHROPIC_API_KEY'' = Some key \<and> rh_proxy R key = Inl e)"
| "refusal H R a (DefaultsFailed e) \<longleftrightarrow>
    load_env_defaults (cl_defaults_file H) (cl_defaults_yaml H) ''.stepyard/defaults.yaml'' = Inl e"
| "refusal H R a e \<longleftrightarrow> True"

fun error_of :: "CliStop \<Rightarrow> CliError" where
  "error_of (Refused e) = e"
| "error_of (JsonExit e) = e"

lemma error_of_refuse [simp]: "error_of (refuse json e) = e"
  by (simp add: refuse_def)

lemma ok_or_refused [simp]: "ok_or x m = Inl e \<longleftrightarrow> m = None \<and> e = x"
  by (auto split: option.splits simp: ok_or_def)

lemma map_err_refused [simp]: "map_err g m = Inl e \<longleftrightarrow> (\<exists>x. m = Inl x \<and> e = g x)"
  by (cases m) auto

lemma load_refused: "load_workflow H a = Inl s \<Longrightarrow> refusal H R a (error_of s)"
  by (auto simp: load_workflow_def parse_workflow_file_with_vars_def res_bind_Err_iff res_bind_Ok_iff Let_def split: if_splits) blast

lemma choose_refused: "choose_sandbox H a c = Inl s \<Longrightarrow> refusal H R a (error_of s)"
  by (auto simp: choose_sandbox_def res_bind_Err_iff Let_def split: if_splits)

lemma prepare_refused:
  assumes "prepare_execute H a = Some (Inl s)"
  shows "refusal H R a (error_of s)"
proof (cases "load_workflow H a")
  case (Inl s')
  then show ?thesis using assms load_refused [of H a s' R] by (simp add: prepare_execute_def)
next
  case (Inr l)
  then obtain wd ds vs where l: "load_workflow H a = Inr (wd, ds, vs)" by (cases l) auto
  then have v: "validate_def wd = []"
    by (auto simp: load_workflow_def res_bind_Ok_iff Let_def split: if_splits)
  show ?thesis
  proof (cases "choose_sandbox H a (d_config wd)")
    case (Inl s')
    then show ?thesis using assms l choose_refused [of H a "d_config wd" s' R] by (simp add: prepare_execute_def)
  next
    case (Inr q)
    then obtain r mode where c: "choose_sandbox H a (d_config wd) = Inr (r, mode)" by (cases q) auto
    show ?thesis
    proof (cases "mode \<noteq> Disabled \<and> \<not> require_runtime H r")
      case True
      then have "s = refuse (ea_json a) (RuntimeUnavailable r)" using assms l c by (simp add: prepare_execute_def)
      then show ?thesis using True by (auto simp: require_runtime_def split: SandboxRuntime.splits)
    next
      case False
      then have t: "runtime_there H mode r" using runtime_required by blast
      obtain ps where ps: "validate_environment H wd (mode \<noteq> Disabled) r = Some ps" "ps \<noteq> []"
          "s = refuse (ea_json a) (PreflightFailed ps)"
        using assms l c False by (auto simp: prepare_execute_def split: if_splits)
      then have "\<not> machine_ready H wd mode r" using no_problem by blast
      then show ?thesis using ps(2,3) v t by auto
    qed
  qed
qed

lemma select_refused: "select_engine a p = Inl s \<Longrightarrow> refusal H R a (error_of s)"
  by (auto simp: select_engine_def split: if_splits)

lemma proxy_refused: "start_api_proxy H R b = Inl s \<Longrightarrow> refusal H R a (error_of s)"
  by (auto simp: start_api_proxy_def  res_bind_Err_iff split: option.splits if_splits)

lemma set_up_refused: "setup_v2 H R a p = Inl s \<Longrightarrow> refusal H R a (error_of s)"
  using proxy_refused [of H R _ s a]
  by (auto simp: setup_v2_def res_bind_Err_iff  Let_def)

lemma never_prepared: "prepare_execute H a = None \<Longrightarrow> \<exists>reg. detect reg (cl_files H) ''.'' = None"
  by (auto simp: prepare_execute_def validate_environment_def prompt_problems_def Let_def split: sum.splits if_splits) blast+

definition boxed :: "Plan \<Rightarrow> bool" where
  "boxed p \<longleftrightarrow> xp_mode p \<noteq> Disabled \<and> xp_runtime p \<in> {DockerRuntime, PodmanRuntime}"

lemma set_up:
  assumes "setup_v2 H R a p = Inr su"
  obtains w0 root proxy where "adapt (cl_yaml H) (xp_workflow p) = Inr w0"
    and "e_workflow (su_engine su) = apply_cli_override w0 (ea_branch_strategy a)"
    and "validate (e_workflow (su_engine su)) = Inr ()"
    and "start_api_proxy H R (boxed p) = Inr proxy" and "e_proxy (su_engine su) = proxy"
    and "rh_cwd R = Inr root"
    and "e_container_workspace (su_engine su) = (if boxed p then Some (container_workspace_of root) else None)"
    and "su_lifecycle su = choose_lifecycle (xp_runtime p) (xp_mode p)"
    and "su_options su = sandbox_options (boxed p) proxy (c_global (d_config (xp_workflow p)))"
    and "list_all entry_ok (e_defaults (su_engine su))"
  using assms unfolding setup_v2_def boxed_def [symmetric]
  by (auto simp: Let_def res_bind_Ok_iff validate_env_map_Ok_iff)

lemma set_strategy_keeps:
  "w_steps (set_branch_strategy w st) = w_steps w" "w_scopes (set_branch_strategy w st) = w_scopes w"
  by (cases st; simp)+

lemma override_keeps:
  "w_steps (apply_cli_override w st) = w_steps w" "w_scopes (apply_cli_override w st) = w_scopes w"
  by (simp_all add: apply_cli_override_def set_strategy_keeps split: option.split)

lemma top_ready_workflow:
  assumes "w_scopes (e_workflow E) = w_scopes (e_workflow E')"
  shows "top_ready E = top_ready E'"
proof -
  have "container_scope E = container_scope E'"
    unfolding container_scope_def assms ..
  then show ?thesis by (intro ext) (simp only: top_ready_def)
qed

lemma override_ready:
  assumes "adapt Y d = Inr w0" and "e_workflow E = apply_cli_override w0 st"
  shows "list_all (top_ready E) (steps_of E) \<and> map s_name (steps_of E) = map (f_name \<circ> fields_of) (d_steps d)"
proof -
  define E0 where "E0 = E\<lparr>e_workflow := w0\<rparr>"
  have w0: "e_workflow E0 = w0" by (simp add: E0_def)
  have r: "list_all (top_ready E0) (w_steps w0) \<and> map s_name (w_steps w0) = map (f_name \<circ> fields_of) (d_steps d)"
    using adapted_ready [of Y d E0] assms(1) unfolding w0 by blast
  have s: "steps_of E = w_steps w0" by (simp add: steps_of_def assms(2) override_keeps)
  have t: "top_ready E = top_ready E0" by (rule top_ready_workflow) (simp add: assms(2) w0 override_keeps)
  show ?thesis unfolding s t by (rule r)
qed

lemma set_up_ready:
  assumes "setup_v2 H R a p = Inr su"
  shows "list_all (top_ready (su_engine su)) (steps_of (su_engine su)) \<and>
    map s_name (steps_of (su_engine su)) = map (f_name \<circ> fields_of) (d_steps (xp_workflow p))"
  using assms by (rule set_up) (rule override_ready)

lemma engine_selected: "select_engine a p = Inr d \<Longrightarrow>
    d = Run2 p \<and> ea_engine a = ''v2'' \<or> (d = Run1 p \<or> d = DryRun1 p) \<and> ea_engine a = ''v1''"
  by (auto simp: select_engine_def split: if_splits)

lemma run_told:
  assumes "setup_v2 H R a p = Inr su"
  obtains e w r where "drive (Suc (length (d_steps (xp_workflow p)))) (su_engine su) new_session = Some (e, w)"
    and "resume (Suc (length (d_steps (xp_workflow p)))) (su_engine su) new_session = Some (r, w)"
    and "prefix (comp_names (wlog w)) (map (Some \<circ> f_name \<circ> fields_of) (d_steps (xp_workflow p)))"
    and "tells (map (f_name \<circ> fields_of) (d_steps (xp_workflow p))) r (exit_status e) w"
proof -
  note ready = set_up_ready [OF assms, THEN conjunct2]
  have len: "length (steps_of (su_engine su)) = length (d_steps (xp_workflow p))" using ready by (metis length_map)
  obtain e w r where d: "drive (Suc (length (d_steps (xp_workflow p)))) (su_engine su) new_session = Some (e, w)"
      "resume (Suc (length (d_steps (xp_workflow p)))) (su_engine su) new_session = Some (r, w)"
      "live (steps_of (su_engine su)) w" "tells (map (f_name \<circ> fields_of) (d_steps (xp_workflow p))) r (exit_status e) w"
    using drive_fresh [of "su_engine su"] unfolding len ready by blast
  have "comp_names (wlog w) = map Some (take (n_completed (wlog w)) (map s_name (steps_of (su_engine su))))"
    using live_coherent [OF d(3)] by (simp add: coherent_def take_map)
  then have "prefix (comp_names (wlog w)) (map (Some \<circ> f_name \<circ> fields_of) (d_steps (xp_workflow p)))"
    unfolding ready by (metis map_map take_is_prefix take_map)
  then show thesis using that d by blast
qed

text \<open>
  C35: from the command line to the exit status. The command comes to an end, unless the detection of the
  stack does not. It is refused with the status 1, and then the refusal is true of the machine, the arguments and the file;
  or it is a run of the first engine; or a run of the second. Either run starts only if the validator finds no error in the workflow, the client of the
  container runtime is there if there is to be a container, and the machine has the keys, the image, the registry and the
  prompts that the workflow asks for. In a run of the second engine each step passes the engine's guards, with environments that
  are valid in the workflow and in the defaults of the project. Its status tells how the loop over the engine's \<open>step\<close> ended:
  0 that it completed, the session is closed as completed, nothing in its log failed, and
  every step of the file completed, in order, unless a signal of completion ended it; 130 that it was cancelled, and
  the session is closed as cancelled; 1 that a step failed, with a failure in the log and the session
  closed as failed, or that the engine stopped with an error that is no step's; 101 that the iteration counter overflowed. A run left
  to the signal handler is closed as cancelled. Whatever the status, the completed steps are the first ones of the
  file, in order.
\<close>

theorem cli_exit_status:
  "case execute H R a of
     None \<Rightarrow> \<exists>reg. detect reg (cl_files H) ''.'' = None
   | Some (Stopped s) \<Rightarrow> stop_status s = 1 \<and> refusal H R a (error_of s)
   | Some (Legacy d) \<Rightarrow> ea_engine a = ''v1'' \<and> (\<exists>p. d = (if ea_dry_run a then DryRun1 p else Run1 p) \<and> passed H p)
   | Some (Ran p su e w) \<Rightarrow> ea_engine a = ''v2'' \<and> \<not> ea_dry_run a \<and> passed H p \<and>
     validate (e_workflow (su_engine su)) = Inr () \<and>
     list_all (top_ready (su_engine su)) (steps_of (su_engine su)) \<and> list_all entry_ok (e_defaults (su_engine su)) \<and>
     prefix (comp_names (wlog w)) (map (Some \<circ> f_name \<circ> fields_of) (d_steps (xp_workflow p))) \<and>
     (\<exists>r. resume (Suc (length (d_steps (xp_workflow p)))) (su_engine su) new_session = Some (r, w) \<and>
       tells (map (f_name \<circ> fields_of) (d_steps (xp_workflow p))) r (exit_status e) w)"
proof (cases "prepare_execute H a")
  case None
  then show ?thesis using never_prepared by (simp add: execute_def)
next
  case (Some q)
  show ?thesis
  proof (cases q)
    case (Inl s)
    then show ?thesis using Some prepare_refused [of H a s R] by (cases s) (simp_all add: execute_def)
  next
    case (Inr p)
    note pass = prepared_passed [OF Some [unfolded Inr]]
    show ?thesis
    proof (cases "select_engine a p")
      case (Inl s)
      then show ?thesis using Some Inr select_refused [OF Inl] by (cases s) (simp_all add: execute_def)
    next
      case d: (Inr d)
      show ?thesis
      proof (cases "d = Run2 p")
        case False
        then show ?thesis using Some Inr d pass
          by (auto simp: execute_def select_engine_def split: if_splits)
      next
        case run: True
        then have v2: "ea_engine a = ''v2'' \<and> \<not> ea_dry_run a" using d by (auto simp: select_engine_def split: if_splits)
        show ?thesis
        proof (cases "setup_v2 H R a p")
          case (Inl s)
          then show ?thesis using Some Inr d run set_up_refused [OF Inl] by (cases s) (simp_all add: execute_def)
        next
          case su: (Inr su)
          from su have v: "validate (e_workflow (su_engine su)) = Inr () \<and> list_all entry_ok (e_defaults (su_engine su))"
            by (rule set_up) blast
          obtain e w r where e: "drive (Suc (length (d_steps (xp_workflow p)))) (su_engine su) new_session = Some (e, w)"
              "resume (Suc (length (d_steps (xp_workflow p)))) (su_engine su) new_session = Some (r, w)"
              "prefix (comp_names (wlog w)) (map (Some \<circ> f_name \<circ> fields_of) (d_steps (xp_workflow p)))"
              "tells (map (f_name \<circ> fields_of) (d_steps (xp_workflow p))) r (exit_status e) w"
            using run_told [OF su] by blast
          have "execute H R a = Some (Ran p su e w)" using Some Inr d run su e(1) by (simp add: execute_def del: drive.simps)
          then show ?thesis using pass v2 v set_up_ready [OF su] e(2-4) by auto
        qed
      qed
    qed
  qed
qed

section \<open>Which sandbox\<close>

lemma chosen:
  assumes "choose_sandbox H a c = Inr (r, mode)" and "ea_sandbox a"
  shows "r = LocalRuntime \<Longrightarrow> mode = Disabled"
    and "\<not> ea_no_sandbox a \<Longrightarrow> r \<noteq> LocalRuntime \<Longrightarrow> mode = FullWorkflow"
    and "ea_no_sandbox a \<Longrightarrow> ea_runtime a \<noteq> None \<Longrightarrow> r \<noteq> LocalRuntime \<Longrightarrow> mode = FullWorkflow"
    and "ea_no_sandbox a \<Longrightarrow> ea_runtime a = None \<Longrightarrow> cl_env H ''STEPYARD_SANDBOX'' = None \<Longrightarrow> r = LocalRuntime"
  using assms
  by (auto simp: choose_sandbox_def res_bind_Ok_iff effective_mode_def resolve_mode_def resolve_runtime_def Let_def
      split: if_splits option.splits)


section \<open>A run in a container\<close>

definition cli_demo :: CliHost where
  "cli_demo = \<lparr>cl_config = bare_host, cl_env = (\<lambda>k. if k = ''ANTHROPIC_API_KEY'' then Some ''k'' else None),
     cl_exists = (\<lambda>p. p = ''w.yaml''), cl_read = (\<lambda>p. Inr []),
     cl_yaml = \<lparr>yaml_eq = (=), yaml_to_value = (\<lambda>v. Inr JNull)\<rparr>, cl_encode = Inr,
     cl_parse = (\<lambda>t. Inr ((empty_def ''w'')\<lparr>d_steps := [StepDef ((empty_fields ''a'' StCmd)\<lparr>f_run := Some ''make''\<rparr>) None]\<rparr>)),
     cl_defaults_file = (\<lambda>p. FileMissing), cl_defaults_yaml = (\<lambda>t. None), cl_registry_file = (\<lambda>p. RegistryMissing),
     cl_registry_yaml = (\<lambda>t. Inl []), cl_files = \<lparr>fs_exists = (\<lambda>p. False), fs_text = (\<lambda>p. None)\<rparr>, cl_sqlite = False,
     cl_docker = True, cl_podman = False, cl_gh_token = False, cl_image_exists = (\<lambda>i. True), cl_build_image = (\<lambda>i. Inr ())\<rparr>"

definition run_demo :: RunHost where
  "run_demo = \<lparr>rh_cwd = Inr ''/r'', rh_open = (\<lambda>n. Inr ''s1''), rh_proxy = (\<lambda>k. Inr \<lparr>port = 8080, auth_token = ''t''\<rparr>),
     rh_machine = (\<lambda>k o'. demo_host)\<rparr>"

definition args_demo :: ExecuteArgs where
  "args_demo = \<lparr>ea_workflow = ''w.yaml'', ea_target = [], ea_verbose = False, ea_quiet = False, ea_json = False,
     ea_dry_run = False, ea_resume = None, ea_sandbox = True, ea_no_sandbox = False, ea_runtime = None,
     ea_no_file_logs = False, ea_vars = [], ea_timeout = None, ea_branch_strategy = None, ea_repo = None, ea_engine = ''v2''\<rparr>"

definition def_demo :: WorkflowDef where
  "def_demo = (empty_def ''w'')\<lparr>d_steps := [StepDef ((empty_fields ''a'' StCmd)\<lparr>f_run := Some ''make''\<rparr>) None],
     d_config := apply_defaults bare_host empty_config\<rparr>"

lemma def_demo_valid: "validate_def def_demo = []"
proof -
  have "trim ''make'' = ''make''" by code_simp
  then show ?thesis
    by (simp add: validate_def_def def_demo_def empty_def_def empty_fields_def validate_steps_def
        check_run_def blank_def Let_def)
qed

lemma demo_prepared: "prepare_execute cli_demo args_demo = Some (Inr
    \<lparr>xp_workflow = def_demo, xp_defaults = \<lparr>def_env = [], def_vars = []\<rparr>, xp_vars = [], xp_mode = FullWorkflow,
     xp_runtime = DockerRuntime\<rparr>)"
proof -
  have s: "substitute_workflow_vars Inr [] [] p = Inr []" for p
    by (simp add: substitute_workflow_vars_def workflow_loop.simps)
  have l: "load_workflow cli_demo args_demo = Inr (def_demo, \<lparr>def_env = [], def_vars = []\<rparr>, [])"
    using def_demo_valid
    by (simp add: load_workflow_def cli_demo_def args_demo_def resolve_workflow_path_def load_env_defaults_def
        validate_template_var_map_def resolve_template_vars_def parse_workflow_file_with_vars_def s def_demo_def Let_def
        empty_def_def)
  have c: "choose_sandbox cli_demo args_demo (d_config def_demo) = Inr (DockerRuntime, FullWorkflow)"
    by (simp add: choose_sandbox_def cli_demo_def args_demo_def resolve_mode_def resolve_runtime_def profile_default_def
        effective_mode_def)
  have m: "listed_steps def_demo = [(empty_fields ''a'' StCmd)\<lparr>f_run := Some ''make''\<rparr>]"
      "d_steps def_demo = [StepDef ((empty_fields ''a'' StCmd)\<lparr>f_run := Some ''make''\<rparr>) None]"
    by (simp_all add: listed_steps_def def_demo_def empty_def_def)
  have n: "\<not> str_contains ''make'' ''{{ stack.''" "\<not> str_contains ''make'' ''{{stack.''"
    "\<not> str_contains ''make'' ''{{ prompts.''" "\<not> str_contains ''make'' ''{{prompts.''" "\<not> str_contains ''make'' ''gh ''"
    by (simp_all add: str_contains_def starts_with_def)
  have "\<not> workflow_references_stack_vars def_demo" "\<not> workflow_references_prompt_vars def_demo"
    using n by (simp_all add: workflow_references_stack_vars_def workflow_references_prompt_vars_def m mentions_def
        empty_fields_def List.map_filter_simps)
  then have "prompt_problems cli_demo def_demo = Some []" by (simp add: prompt_problems_def)
  moreover have "image_problems cli_demo def_demo = []" by (simp add: image_problems_def cli_demo_def)
  ultimately have "validate_environment cli_demo def_demo True DockerRuntime = Some []"
    using n(5) by (simp add: validate_environment_def m empty_fields_def)
  then show ?thesis
    by (simp add: prepare_execute_def l c require_runtime_def) (simp add: cli_demo_def)
qed

lemma demo_set_up: "\<exists>su. setup_v2 cli_demo run_demo args_demo
    \<lparr>xp_workflow = def_demo, xp_defaults = \<lparr>def_env = [], def_vars = []\<rparr>, xp_vars = [], xp_mode = FullWorkflow,
     xp_runtime = DockerRuntime\<rparr> = Inr su"
proof -
  have "with_inherited_type_config Y def_demo = def_demo" for Y
    by (simp add: with_inherited_type_config_def def_demo_def inherit_fields_def empty_def_def empty_fields_def Let_def)
  then have "\<exists>w. adapt (cl_yaml cli_demo) def_demo = Inr w \<and> validate w = Inr () \<and> (\<exists>b. resolve_branch_strategy w = Inr b)"
    by (simp add: adapt_def adapt_step_def adapt_cmd_def def_demo_def empty_def_def empty_fields_def validate_def new_workflow_def step_cmd_def with_env_def empty_step_def
        resolve_branch_strategy_def validate_env_map_def)
  moreover have "cl_env cli_demo ''ANTHROPIC_API_KEY'' = Some ''k''" by (simp add: cli_demo_def)
  ultimately show ?thesis
    by (auto simp: setup_v2_def args_demo_def run_demo_def apply_cli_override_def start_api_proxy_def validate_env_map_def
        Let_def res_bind_Ok_iff)
qed


end
