(* ===== verification/CliView.thy ===== *)
theory CliView
  imports SessionLog Events
begin

text \<open>
  The live view of a run, \<open>ScopeProgressView\<close> of \<open>src/cli/commands.rs\<close>: a background task and the main
  loop hand it snapshots of the session's log, and it prints what it has not printed yet. What it prints
  are the calls of \<open>src/cli/display.rs\<close>; how an event is read from its JSON is a parameter.
\<close>

datatype ViewLine =
    IterationHeader nat
  | ScopedGate string GateOutcome
  | ScopedStepOk string nat
  | ScopedOutput string string
  | CmdVerbose string string

record ScopeProgressView =
  vw_verbose :: bool
  vw_last_seq :: int
  vw_iteration :: "(string \<times> nat) option"
  vw_pending :: "StepOutputSnapshot option"
  vw_lines :: "ViewLine list"

definition new_view :: "bool \<Rightarrow> ScopeProgressView" where
  "new_view verbose = \<lparr>vw_verbose = verbose, vw_last_seq = 0, vw_iteration = None, vw_pending = None, vw_lines = []\<rparr>"

definition say :: "ViewLine \<Rightarrow> ScopeProgressView \<Rightarrow> ScopeProgressView" where
  "say l V = V\<lparr>vw_lines := vw_lines V @ [l]\<rparr>"

definition iteration_header :: "ScopeContext \<Rightarrow> ScopeProgressView \<Rightarrow> ScopeProgressView" where
  "iteration_header sc V =
    (if vw_iteration V = Some (container sc, iteration sc) then V
     else (say (IterationHeader (iteration sc)) V)\<lparr>vw_iteration := Some (container sc, iteration sc)\<rparr>)"

fun show_event :: "Event \<Rightarrow> ScopeProgressView \<Rightarrow> ScopeProgressView" where
  "show_event (StepCompleted n t d ts it ot c sb out (Some sc) gate sid) V =
    (let V1 = say (case gate of Some g \<Rightarrow> ScopedGate n g | None \<Rightarrow> ScopedStepOk n d) (iteration_header sc V) in
     case out of
       Some o' \<Rightarrow> if vw_verbose V then say (ScopedOutput (stdout o') (stderr o')) V1 else V1
     | None \<Rightarrow> V1)"
| "show_event (StepCompleted n t d ts it ot c sb out None gate sid) V =
    (let V1 = V\<lparr>vw_iteration := None\<rparr> in if vw_verbose V \<and> t = ''cmd'' then V1\<lparr>vw_pending := out\<rparr> else V1)"
| "show_event e V = V"

definition render_event :: "(json \<Rightarrow> Event option) \<Rightarrow> SessionEvent \<Rightarrow> ScopeProgressView \<Rightarrow> ScopeProgressView" where
  "render_event of_json ev V =
    (let V1 = V\<lparr>vw_last_seq := seq ev\<rparr> in
     case of_json (payload ev) of None \<Rightarrow> V1 | Some e \<Rightarrow> show_event e V1)"

definition render_new :: "(json \<Rightarrow> Event option) \<Rightarrow> SessionEvent list \<Rightarrow> ScopeProgressView \<Rightarrow> ScopeProgressView" where
  "render_new of_json evs V = fold (render_event of_json) (filter (\<lambda>ev. vw_last_seq V < seq ev) evs) V"

definition flush_top_level_output :: "ScopeProgressView \<Rightarrow> ScopeProgressView" where
  "flush_top_level_output V =
    (case vw_pending V of
       None \<Rightarrow> V
     | Some o' \<Rightarrow> (say (CmdVerbose (stdout o') (stderr o')) V)\<lparr>vw_pending := None\<rparr>)"

section \<open>Every event once\<close>

lemma show_event_seq [simp]: "vw_last_seq (show_event e V) = vw_last_seq V"
  by (cases "(e, V)" rule: show_event.cases) (auto simp: Let_def say_def iteration_header_def split: option.split)

lemma render_event_seq [simp]: "vw_last_seq (render_event f ev V) = seq ev"
  by (simp add: render_event_def Let_def split: option.split)

lemma fold_seq: "vw_last_seq (fold (render_event f) evs V) = (if evs = [] then vw_last_seq V else seq (last evs))"
  by (induction evs rule: rev_induct) simp_all

text \<open>The log a snapshot is taken from: sequence numbers from 1 upwards.\<close>

definition increasing :: "SessionEvent list \<Rightarrow> bool" where
  "increasing L \<longleftrightarrow> sorted_wrt (<) (map seq L) \<and> (\<forall>ev \<in> set L. 0 < seq ev)"

lemma seen_after:
  assumes "increasing L"
  shows "filter (\<lambda>ev. vw_last_seq (fold (render_event f) (take m L) (new_view b)) < seq ev) (take n L) = drop m (take n L)"
proof -
  let ?s = "vw_last_seq (fold (render_event f) (take m L) (new_view b))"
  have sorted: "sorted_wrt (\<lambda>x y. seq x < seq y) L" using assms by (simp add: increasing_def sorted_wrt_map)
  have le: "seq x \<le> ?s" if "x \<in> set (take m L)" for x
  proof -
    obtain i where i: "i < length (take m L)" "x = take m L ! i" using \<open>x \<in> _\<close> by (metis in_set_conv_nth)
    have l: "last (take m L) = take m L ! (length (take m L) - 1)" using i by (intro last_conv_nth) auto
    have "seq x \<le> seq (last (take m L))"
      using i sorted_wrt_nth_less [OF sorted, of i "length (take m L) - 1"] l
      by (cases "i = length (take m L) - 1") (auto intro: less_imp_le)
    then show ?thesis using i by (auto simp: fold_seq)
  qed
  have gt: "?s < seq x" if "x \<in> set (drop m L)" for x
  proof (cases "take m L = []")
    case True
    then show ?thesis using assms that by (auto simp: fold_seq new_view_def increasing_def dest: in_set_dropD)
  next
    case False
    have "sorted_wrt (\<lambda>x y. seq x < seq y) (take m L @ drop m L)" using sorted by simp
    then have "seq (last (take m L)) < seq x"
      using that last_in_set [OF False] unfolding sorted_wrt_append by blast
    then show ?thesis using False by (simp add: fold_seq)
  qed
  have "filter (\<lambda>ev. ?s < seq ev) (take n L) =
      filter (\<lambda>ev. ?s < seq ev) (take m (take n L)) @ filter (\<lambda>ev. ?s < seq ev) (drop m (take n L))"
    by (metis append_take_drop_id filter_append)
  moreover have "filter (\<lambda>ev. ?s < seq ev) (take m (take n L)) = []"
    using le set_take_subset_set_take [of "min m n" m L] unfolding filter_empty_conv take_take by force
  moreover have "filter (\<lambda>ev. ?s < seq ev) (drop m (take n L)) = drop m (take n L)"
    using gt by (auto simp: filter_id_conv drop_take dest: in_set_takeD)
  ultimately show ?thesis by simp
qed

text \<open>
  C37: the live view shows every event once. Whatever snapshots of the log it is handed, from whichever
  task, in whatever order, stale ones included, it ends as if it had been handed the longest of them alone:
  no line is printed twice, none is lost, and their order is that of the log.
\<close>

theorem view_shows_once:
  assumes "increasing L"
  shows "fold (\<lambda>n. render_new f (take n L)) ns (new_view b) = render_new f (take (fold max ns 0) L) (new_view b)"
proof -
  have start: "render_new f (take m L) (new_view b) = fold (render_event f) (take m L) (new_view b)" for m
    using seen_after [OF assms, where m = 0 and n = m] by (simp add: render_new_def)
  have step: "render_new f (take n L) (fold (render_event f) (take m L) (new_view b)) =
      fold (render_event f) (take (max n m) L) (new_view b)" for n m
  proof -
    have "take m L @ drop m (take n L) = take (max n m) L"
      by (cases "n \<le> m") (simp_all add: max_def drop_take flip: take_add)
    then show ?thesis unfolding render_new_def seen_after [OF assms] by (metis fold_append comp_apply)
  qed
  have "fold (\<lambda>n. render_new f (take n L)) ns (fold (render_event f) (take m L) (new_view b)) =
      fold (render_event f) (take (fold max ns m) L) (new_view b)" for m
    by (induction ns arbitrary: m) (simp_all add: step)
  from this [of 0] show ?thesis by (simp add: start)
qed

theorem view_shows_once_witness:
  "\<exists>L V. length L = 2 \<and> fold (\<lambda>n. render_new (\<lambda>j. Some (WorkflowStarted [])) (take n L)) [2, 1] (new_view True) = V \<and> vw_last_seq V = 2"
proof -
  let ?e = "\<lambda>i. \<lparr>se_id = [], se_session = [], seq = i, created_at = [], payload = JNull\<rparr>"
  let ?L = "[?e 1, ?e 2]"
  have "increasing ?L" by (simp add: increasing_def)
  from view_shows_once [OF this, of "\<lambda>j. Some (WorkflowStarted [])" "[2, 1]" True]
  have "vw_last_seq (fold (\<lambda>n. render_new (\<lambda>j. Some (WorkflowStarted [])) (take n ?L)) [2, 1] (new_view True)) = 2"
    by (simp add: render_new_def new_view_def)
  then show ?thesis by (intro exI [of _ ?L] exI) simp
qed

end
