(* ===== verification/Utf8.thy ===== *)
theory Utf8
  imports Prelude
begin

text \<open>
  UTF-8 as \<open>std\<close> reads it: the cut of a byte string into characters and faults, \<open>str::chars\<close>,
  \<open>String::from_utf8_lossy\<close>, and the bytes a text may be cut at.
\<close>

section \<open>Bytes\<close>

definition continuation :: "char \<Rightarrow> bool" where
  "continuation c \<longleftrightarrow> 128 \<le> byte_of c \<and> byte_of c < 192"

definition is_char_boundary :: "string \<Rightarrow> nat \<Rightarrow> bool" where
  "is_char_boundary s i \<longleftrightarrow> i = length s \<or> i < length s \<and> \<not> continuation (s ! i)"

text \<open>The loop that steps back from a byte to the start of its character.\<close>

fun snap :: "string \<Rightarrow> nat \<Rightarrow> nat" where
  "snap s 0 = 0"
| "snap s (Suc n) = (if is_char_boundary s (Suc n) then Suc n else snap s n)"

lemma snap_le: "snap s n \<le> n"
  by (induction n) auto

lemma snap_longest: "is_char_boundary s k \<Longrightarrow> k \<le> n \<Longrightarrow> k \<le> snap s n"
  by (induction n) (auto simp: le_Suc_eq)

lemma snap_boundary: "snap s n = 0 \<or> is_char_boundary s (snap s n)"
  by (induction n) auto

section \<open>Characters and faults\<close>

text \<open>How many bytes follow a first byte, and the range of the second: no overlong form, no surrogate, nothing above \<open>10FFFF\<close>.\<close>

definition sequel :: "nat \<Rightarrow> (nat \<times> nat \<times> nat) option" where
  "sequel b =
    (if b < 128 then Some (0, 128, 191)
     else if 0xC2 \<le> b \<and> b \<le> 0xDF then Some (1, 128, 191)
     else if b = 0xE0 then Some (2, 0xA0, 191)
     else if b = 0xED then Some (2, 128, 0x9F)
     else if 0xE1 \<le> b \<and> b \<le> 0xEF then Some (2, 128, 191)
     else if b = 0xF0 then Some (3, 0x90, 191)
     else if 0xF1 \<le> b \<and> b \<le> 0xF3 then Some (3, 128, 191)
     else if b = 0xF4 then Some (3, 128, 0x8F)
     else None)"

fun taken :: "nat \<Rightarrow> nat \<Rightarrow> nat \<Rightarrow> string \<Rightarrow> nat" where
  "taken 0 lo hi s = 0"
| "taken (Suc n) lo hi [] = 0"
| "taken (Suc n) lo hi (c # s) = (if lo \<le> byte_of c \<and> byte_of c \<le> hi then Suc (taken n 128 191 s) else 0)"

text \<open>The bytes behind a first byte that belong to it, and whether they make it a character.\<close>

definition sequence :: "char \<Rightarrow> string \<Rightarrow> bool \<times> nat" where
  "sequence c s =
    (case sequel (byte_of c) of
       None \<Rightarrow> (False, 0)
     | Some (n, lo, hi) \<Rightarrow> (taken n lo hi s = n, taken n lo hi s))"

function chunks :: "string \<Rightarrow> (bool \<times> string) list" where
  "chunks [] = []"
| "chunks (c # s) = (case sequence c s of (ok, n) \<Rightarrow> (ok, c # take n s) # chunks (drop n s))"
  by pat_completeness auto

termination by (relation "measure length") auto

definition utf8 :: "string \<Rightarrow> bool" where
  "utf8 s \<longleftrightarrow> list_all fst (chunks s)"

definition chars :: "string \<Rightarrow> string list" where
  "chars s = map snd (chunks s)"

definition from_utf8_lossy :: "string \<Rightarrow> string" where
  "from_utf8_lossy s = concat (map (\<lambda>(ok, p). if ok then p else [CHR 0xEF, CHR 0xBF, CHR 0xBD]) (chunks s))"

section \<open>Their laws\<close>

text \<open>One character.\<close>

definition one_char :: "string \<Rightarrow> bool" where
  "one_char p \<longleftrightarrow> (case p of [] \<Rightarrow> False | c # t \<Rightarrow> sequence c t = (True, length t))"

lemma taken_le: "taken n lo hi s \<le> n" "taken n lo hi s \<le> length s"
  by (induction n lo hi s rule: taken.induct) auto

lemma taken_append: "taken n lo hi t = n \<Longrightarrow> taken n lo hi (t @ s) = n"
  by (induction n lo hi t rule: taken.induct) (auto split: if_splits)

lemma taken_take: "taken n lo hi s = n \<Longrightarrow> taken n lo hi (take n s) = n"
  by (induction n lo hi s rule: taken.induct) (auto split: if_splits)

lemma taken_continuation:
  "128 \<le> lo \<Longrightarrow> hi \<le> 191 \<Longrightarrow> list_all continuation (take (taken n lo hi s) s)"
  by (induction n lo hi s rule: taken.induct) (auto simp: continuation_def)

lemma sequel_range: "sequel b = Some (n, lo, hi) \<Longrightarrow> 128 \<le> lo \<and> hi \<le> 191"
  by (auto simp: sequel_def split: if_splits)

lemma sequence_one: "sequence c s = (True, n) \<Longrightarrow> one_char (c # take n s)"
proof -
  assume "sequence c s = (True, n)"
  then obtain lo hi where n: "sequel (byte_of c) = Some (n, lo, hi)" "taken n lo hi s = n"
    by (auto simp: sequence_def split: option.splits)
  moreover have "n \<le> length s" using taken_le(2) [of n lo hi s] n(2) by simp
  ultimately show ?thesis by (simp add: sequence_def one_char_def taken_take)
qed

lemma one_char_sequence: "one_char (c # t) \<Longrightarrow> sequence c (t @ s) = (True, length t)"
  by (auto simp: sequence_def one_char_def split: option.splits dest: taken_append [of _ _ _ t s])

lemma one_char_parts:
  assumes "one_char p"
  obtains c t where "p = c # t" "\<not> continuation c" "list_all continuation t"
proof (cases p)
  case (Cons c t)
  then obtain n lo hi where n: "sequel (byte_of c) = Some (n, lo, hi)" "taken n lo hi t = n" "n = length t"
    using assms by (auto simp: one_char_def sequence_def split: option.splits)
  have "list_all continuation t" using taken_continuation [of lo hi n t] sequel_range [OF n(1)] n by simp
  moreover have "\<not> continuation c" using n(1) by (auto simp: sequel_def continuation_def split: if_splits)
  ultimately show thesis using that Cons by blast
qed (use assms in \<open>simp add: one_char_def\<close>)

lemma chunks_char: "one_char p \<Longrightarrow> chunks (p @ s) = (True, p) # chunks s"
  by (cases p) (auto simp: one_char_sequence one_char_def)

lemma chunks_chars: "list_all one_char ps \<Longrightarrow> chunks (concat ps) = map (Pair True) ps"
  by (induction ps) (auto simp: chunks_char)

lemma chunks_concat: "concat (map snd (chunks s)) = s"
  by (induction s rule: chunks.induct) (auto split: prod.splits)

lemma chunks_ok: "(True, p) \<in> set (chunks s) \<Longrightarrow> one_char p"
proof (induction s rule: chunks.induct)
  case (2 c s)
  obtain ok n where n: "sequence c s = (ok, n)" by fastforce
  then show ?case using 2 sequence_one [of c s n] by auto
qed simp

lemma utf8_chars: "utf8 s \<Longrightarrow> list_all one_char (chars s)"
  using chunks_ok by (fastforce simp: utf8_def chars_def list_all_iff)

lemma chars_concat: "concat (chars s) = s"
  by (simp add: chars_def chunks_concat)

lemma utf8_iff: "utf8 s \<longleftrightarrow> (\<exists>ps. list_all one_char ps \<and> s = concat ps)"
proof
  assume "utf8 s"
  then show "\<exists>ps. list_all one_char ps \<and> s = concat ps" using utf8_chars chars_concat by metis
next
  assume "\<exists>ps. list_all one_char ps \<and> s = concat ps"
  then show "utf8 s" by (auto simp: utf8_def chunks_chars list_all_iff)
qed

lemma chars_of_chars: "list_all one_char ps \<Longrightarrow> chars (concat ps) = ps"
  by (simp add: chars_def chunks_chars comp_def)

text \<open>The replacement character stands for a fault, so what comes out is UTF-8, and UTF-8 comes out as it is.\<close>

lemma one_char_replacement: "one_char [CHR 0xEF, CHR 0xBF, CHR 0xBD]"
  by (simp add: one_char_def sequence_def sequel_def numeral_2_eq_2)

lemma from_utf8_lossy_utf8: "utf8 (from_utf8_lossy s)"
proof -
  let ?out = "\<lambda>(ok, p). if ok then p else [CHR 0xEF, CHR 0xBF, CHR 0xBD]"
  have "one_char (?out x)" if "x \<in> set (chunks s)" for x
  proof -
    obtain ok p where "x = (ok, p)" by fastforce
    then show ?thesis using that chunks_ok [of p s] one_char_replacement by auto
  qed
  then have "list_all one_char (map ?out (chunks s))" by (simp add: list_all_iff)
  then show ?thesis unfolding utf8_iff from_utf8_lossy_def by blast
qed

lemma from_utf8_lossy_id: "utf8 s \<Longrightarrow> from_utf8_lossy s = s"
proof -
  assume "utf8 s"
  then have "map (\<lambda>(ok, p). if ok then p else [CHR 0xEF, CHR 0xBF, CHR 0xBD]) (chunks s) = map snd (chunks s)"
    by (intro map_cong) (auto simp: utf8_def list_all_iff)
  then show ?thesis unfolding from_utf8_lossy_def by (simp only: chunks_concat)
qed

text \<open>A text that is cut where a character starts is cut between two characters.\<close>

lemma boundary_prefix:
  assumes "list_all one_char ps" and "is_char_boundary (concat ps) k"
  shows "\<exists>j. take k (concat ps) = concat (take j ps) \<and> drop k (concat ps) = concat (drop j ps)"
  using assms
proof (induction ps arbitrary: k)
  case (Cons p ps)
  obtain c t where p: "p = c # t" "list_all continuation t" using Cons.prems(1) by (auto elim: one_char_parts)
  consider "k = 0" | "0 < k" "k < length p" | "length p \<le> k" by linarith
  then show ?case
  proof cases
    case 1
    then show ?thesis by (intro exI [of _ 0]) simp
  next
    case 2
    then have "continuation (concat (p # ps) ! k)"
      using p by (cases k) (auto simp: nth_append list_all_length)
    then show ?thesis using Cons.prems(2) 2 by (auto simp: is_char_boundary_def)
  next
    case 3
    then have "is_char_boundary (concat ps) (k - length p)"
      using Cons.prems(2) by (auto simp: is_char_boundary_def nth_append)
    from Cons.IH [OF _ this] obtain j where
      "take (k - length p) (concat ps) = concat (take j ps)" "drop (k - length p) (concat ps) = concat (drop j ps)"
      using Cons.prems(1) by auto
    then show ?thesis using 3 by (intro exI [of _ "Suc j"]) simp
  qed
qed simp

lemma boundary_between: "list_all one_char ps \<Longrightarrow> is_char_boundary (concat ps) (length (concat (take j ps)))"
proof (cases "j < length ps")
  case True
  assume ps: "list_all one_char ps"
  have "one_char (ps ! j)" using ps True by (simp add: list_all_length)
  then obtain c t where "ps ! j = c # t" "\<not> continuation c" by (rule one_char_parts)
  moreover have "concat ps = concat (take j ps) @ ps ! j @ concat (drop (Suc j) ps)"
    using True by (metis concat.simps(2) concat_append id_take_nth_drop)
  ultimately show ?thesis by (simp add: is_char_boundary_def nth_append)
qed (simp add: is_char_boundary_def)

lemma utf8_take: "utf8 s \<Longrightarrow> is_char_boundary s k \<Longrightarrow> \<exists>j. chars (take k s) = take j (chars s)"
  and utf8_cut: "utf8 s \<Longrightarrow> is_char_boundary s k \<Longrightarrow> utf8 (take k s) \<and> utf8 (drop k s)"
proof -
  assume "utf8 s" "is_char_boundary s k"
  then obtain j where j: "take k s = concat (take j (chars s))" "drop k s = concat (drop j (chars s))"
      "list_all one_char (chars s)"
    using boundary_prefix [of "chars s" k] utf8_chars by (auto simp: chars_concat)
  have parts: "list_all one_char (take j (chars s))" "list_all one_char (drop j (chars s))"
    using j(3) by (metis append_take_drop_id list_all_append)+
  show "\<exists>j. chars (take k s) = take j (chars s)" using chars_of_chars [OF parts(1)] j(1) by metis
  show "utf8 (take k s) \<and> utf8 (drop k s)" using parts j by (auto simp: utf8_iff)
qed

end
