(* ===== verification/Backends.thy ===== *)
theory Backends
  imports CliRun Utf8
begin

text \<open>
  The container backends of the harness, \<open>stepyard-sandbox-orchestrator/src/{docker,podman,docker_errors,container}.rs\<close>:
  the commands they run, how they read the answers, and how the project is copied into a container and its changes
  back out. The two backends are the same code but for the binary, which is an argument here. The answer of a
  process carries its output as the text that \<open>from_utf8_lossy\<close> makes of it.
\<close>

section \<open>Errors\<close>

definition MAX_STORED_BYTES :: nat where "MAX_STORED_BYTES = 8 * 1024"

definition lossy_truncated :: "string \<Rightarrow> string" where
  "lossy_truncated raw0 =
    (let t = trim raw0 in if length t \<le> MAX_STORED_BYTES then t else take (snap t MAX_STORED_BYTES) t)"

definition is_daemon_unreachable :: "string \<Rightarrow> bool" where
  "is_daemon_unreachable s \<longleftrightarrow>
    str_contains s ''Cannot connect to the Docker daemon'' \<or> str_contains s ''Is the docker daemon running''"

definition is_image_missing :: "string \<Rightarrow> bool" where
  "is_image_missing s \<longleftrightarrow> str_contains s ''Unable to find image'' \<or> str_contains s ''pull access denied''"

definition classify_create_stderr :: "string \<Rightarrow> SandboxError" where
  "classify_create_stderr raw0 =
    (let raw = lossy_truncated raw0 in
     if is_daemon_unreachable raw then BackendUnavailable raw
     else if is_image_missing raw then CreateFailed raw
     else SandboxOther raw)"

definition classify_destroy_stderr :: "string \<Rightarrow> SandboxError option" where
  "classify_destroy_stderr raw0 =
    (let raw = lossy_truncated raw0 in
     if str_contains raw ''No such container'' \<or> str_contains raw ''no container with name or ID'' then None
     else if is_daemon_unreachable raw then Some (BackendUnavailable raw)
     else Some (SandboxOther raw))"

section \<open>What a backend does to the host\<close>

text \<open>A path the host is asked to change is its components, since \<open>//\<close> and \<open>/./\<close> name the same file.\<close>

datatype HostOp = Proc "string list" | LocalProc "string list" env | RemoveFile "string list" | MakeDirs "string list"

datatype Removal = Removed | NotThere | RemoveError string

datatype StreamRead = Chunk string | StreamEnd | StreamError string | Silence

text \<open>
  The host answers from the operations so far. A process with piped output gives, if it starts, what the reads of its
  output give in turn (\<open>Silence\<close> is a read that took longer than the limit), and what waiting for it and for its
  error output gives.
\<close>

record BackendHost =
  bk_proc :: "HostOp list \<Rightarrow> string list \<Rightarrow> (string, ProcOut) result"
  bk_local :: "HostOp list \<Rightarrow> string list \<Rightarrow> env \<Rightarrow> (string, ProcOut) result"
  bk_stream :: "HostOp list \<Rightarrow> string list \<Rightarrow> (string, StreamRead list \<times> (string, 32 word option) result \<times> (string, string) result) result"
  bk_pipe :: "HostOp list \<Rightarrow> string list \<Rightarrow> string list \<Rightarrow> (string, (string, ProcOut) result \<times> (string, ProcOut) result) result"
  bk_remove :: "HostOp list \<Rightarrow> string list \<Rightarrow> Removal"
  bk_mkdirs :: "HostOp list \<Rightarrow> string list \<Rightarrow> string option"
  bk_show_f64 :: "64 word \<Rightarrow> string"

definition map_ok :: "('a \<Rightarrow> 'b) \<Rightarrow> ('e, 'a) result \<Rightarrow> ('e, 'b) result" where
  "map_ok f r = (case r of Inl e \<Rightarrow> Inl e | Inr a \<Rightarrow> Inr (f a))"

type_synonym 'a bk = "HostOp list \<Rightarrow> (SandboxError, 'a) result \<times> HostOp list"

definition kret :: "'a \<Rightarrow> 'a bk" where "kret a ops = (Inr a, ops)"

definition kfail :: "SandboxError \<Rightarrow> 'a bk" where "kfail e ops = (Inl e, ops)"

definition kbind :: "'a bk \<Rightarrow> ('a \<Rightarrow> 'b bk) \<Rightarrow> 'b bk" where
  "kbind m f ops = (case m ops of (Inl e, ops') \<Rightarrow> (Inl e, ops') | (Inr a, ops') \<Rightarrow> f a ops')"

definition run_proc :: "BackendHost \<Rightarrow> (string \<Rightarrow> SandboxError) \<Rightarrow> string list \<Rightarrow> ProcOut bk" where
  "run_proc B err argv ops = (map_err err (bk_proc B ops argv), ops @ [Proc argv])"

definition exec_output :: "ProcOut \<Rightarrow> ExecOutput" where
  "exec_output out = \<lparr>xo_stdout = po_stdout out, xo_stderr = po_stderr out, xo_exit = or_else (po_code out) (- 1)\<rparr>"

section \<open>The life of a container\<close>

definition container_name :: "uuid \<Rightarrow> string" where
  "container_name sid = ''stepyard-session-'' @ sid"

definition run_args :: "BackendHost \<Rightarrow> string \<Rightarrow> string \<Rightarrow> string \<Rightarrow> uuid \<Rightarrow> CreateOptions \<Rightarrow> string list" where
  "run_args B bin img shell sid opts =
    [bin, ''run'', ''-d'', ''--name'', container_name sid, ''--label'', ''session_id='' @ sid] @
    each_with ''-v'' (co_volumes opts) @
    (case co_cpus opts of Some x \<Rightarrow> [''--cpus'', bk_show_f64 B x] | None \<Rightarrow> []) @
    (case co_memory opts of Some m \<Rightarrow> [''--memory'', m] | None \<Rightarrow> []) @
    each_with ''--dns'' (co_dns opts) @ each_with ''--add-host'' (co_extra_hosts opts) @
    (case co_workdir opts of Some d \<Rightarrow> [''-w'', d] | None \<Rightarrow> []) @
    (if nw_allow (co_network opts) \<noteq> [] \<or> nw_deny (co_network opts) \<noteq> [] then [''--network'', ''bridge''] else []) @
    [or_else (co_image opts) img, shell, ''-c'', ''trap : TERM INT; sleep infinity & wait'']"

text \<open>A sandbox is the name of its container.\<close>

definition create_with_options :: "BackendHost \<Rightarrow> string \<Rightarrow> string \<Rightarrow> string \<Rightarrow> uuid \<Rightarrow> CreateOptions \<Rightarrow> string bk" where
  "create_with_options B bin img shell sid opts =
    kbind (run_proc B BackendUnavailable (run_args B bin img shell sid opts)) (\<lambda>out.
    if \<not> po_success out then kfail (classify_create_stderr (po_stderr out)) else kret (container_name sid))"

definition find_container :: "BackendHost \<Rightarrow> string \<Rightarrow> string \<Rightarrow> string option bk" where
  "find_container B bin name =
    kbind (run_proc B BackendUnavailable [bin, ''ps'', ''-q'', ''--filter'', ''name=^/'' @ name @ ''$'']) (\<lambda>out.
    kret (if trim (po_stdout out) = [] then None else Some (trim (po_stdout out))))"

definition reuse_or_create_with_options :: "BackendHost \<Rightarrow> string \<Rightarrow> string \<Rightarrow> string \<Rightarrow> uuid \<Rightarrow> CreateOptions \<Rightarrow> string bk" where
  "reuse_or_create_with_options B bin img shell sid opts =
    kbind (find_container B bin (container_name sid)) (\<lambda>found.
    if found \<noteq> None then kret (container_name sid) else create_with_options B bin img shell sid opts)"

definition container_handle :: "string \<Rightarrow> uuid \<Rightarrow> ContainerHandle" where
  "container_handle bin sid = \<lparr>ch_binary = bin, ch_name = container_name sid\<rparr>"

definition destroy_by_session :: "BackendHost \<Rightarrow> string \<Rightarrow> uuid \<Rightarrow> unit bk" where
  "destroy_by_session B bin sid =
    kbind (run_proc B BackendUnavailable [bin, ''rm'', ''-f'', container_name sid]) (\<lambda>out.
    if po_success out then kret ()
    else (case classify_destroy_stderr (po_stderr out) of Some e \<Rightarrow> kfail e | None \<Rightarrow> kret ()))"

section \<open>Running in it\<close>

definition exec :: "BackendHost \<Rightarrow> string \<Rightarrow> uuid \<Rightarrow> string list \<Rightarrow> ExecOutput bk" where
  "exec B bin sid cmd =
    kbind (run_proc B ExecFailed ([bin, ''exec'', container_name sid] @ cmd)) (\<lambda>out. kret (exec_output out))"

definition env_args :: "env \<Rightarrow> string list" where
  "env_args env = concat (map (\<lambda>(k, v). [''--env'', k @ ''='' @ v]) (sort_key fst env))"

definition exec_with_env :: "BackendHost \<Rightarrow> string \<Rightarrow> uuid \<Rightarrow> string list \<Rightarrow> env \<Rightarrow> ExecOutput bk" where
  "exec_with_env B bin sid cmd env =
    kbind (run_proc B ExecFailed ([bin, ''exec''] @ env_args env @ [container_name sid] @ cmd)) (\<lambda>out. kret (exec_output out))"

text \<open>The loop over the lines of the output: it ends with the stream, with an error, or with a silence.\<close>

fun idle_read :: "nat \<Rightarrow> string \<Rightarrow> StreamRead list \<Rightarrow> (SandboxError, string) result" where
  "idle_read idle buf [] = Inr buf"
| "idle_read idle buf (StreamEnd # rs) = Inr buf"
| "idle_read idle buf (Chunk s # rs) = idle_read idle (buf @ s) rs"
| "idle_read idle buf (StreamError e # rs) = Inl (ExecFailed e)"
| "idle_read idle buf (Silence # rs) = Inl (SandboxIdleTimeout idle)"

definition exec_with_options :: "BackendHost \<Rightarrow> string \<Rightarrow> uuid \<Rightarrow> string list \<Rightarrow> env \<Rightarrow> nat option \<Rightarrow> ExecOutput bk" where
  "exec_with_options B bin sid cmd env idle_timeout =
    (case idle_timeout of
       None \<Rightarrow> exec_with_env B bin sid cmd env
     | Some idle \<Rightarrow> (\<lambda>ops.
         let argv = [bin, ''exec''] @ env_args env @ [container_name sid] @ cmd in
         (res_bind (map_err ExecFailed (bk_stream B ops argv)) (\<lambda>(reads, status, errs).
          res_bind (idle_read idle [] reads) (\<lambda>out.
          res_bind (map_err ExecFailed status) (\<lambda>code.
          res_bind (map_err ExecFailed errs) (\<lambda>err.
          Inr \<lparr>xo_stdout = out, xo_stderr = err, xo_exit = or_else code (- 1)\<rparr>)))),
          ops @ [Proc argv])))"

definition run_interactive :: "BackendHost \<Rightarrow> string \<Rightarrow> uuid \<Rightarrow> string list \<Rightarrow> 32 word bk" where
  "run_interactive B bin sid cmd =
    kbind (run_proc B ExecFailed ([bin, ''exec'', ''-it'', container_name sid] @ cmd)) (\<lambda>out. kret (or_else (po_code out) (- 1)))"

section \<open>The trait\<close>

text \<open>
  The local backend runs a command as a process group of its own with the environment over the host's, and inherits the
  rest from the trait: no container, no terminal, and no limit on silence. A backend is the kind the command line chose.
\<close>

definition run_local_command :: "BackendHost \<Rightarrow> string list \<Rightarrow> env \<Rightarrow> ExecOutput bk" where
  "run_local_command B argv env ops =
    (map_err ExecFailed (map_ok exec_output (bk_local B ops argv env)), ops @ [LocalProc argv env])"

definition local_exec :: "BackendHost \<Rightarrow> string list \<Rightarrow> env \<Rightarrow> ExecOutput bk" where
  "local_exec B cmd env = (if cmd = [] then kfail (ExecFailed ''empty argv'') else run_local_command B cmd env)"

fun binary_of :: "LifecycleKind \<Rightarrow> string option" where
  "binary_of LocalShell = None"
| "binary_of DockerLifecycle = Some ''docker''"
| "binary_of PodmanLifecycle = Some ''podman''"

definition trait_exec_with_env :: "BackendHost \<Rightarrow> LifecycleKind \<Rightarrow> uuid \<Rightarrow> string list \<Rightarrow> env \<Rightarrow> ExecOutput bk" where
  "trait_exec_with_env B k sid cmd env =
    (case binary_of k of None \<Rightarrow> local_exec B cmd env | Some bin \<Rightarrow> exec_with_env B bin sid cmd env)"

definition trait_exec_with_options ::
  "BackendHost \<Rightarrow> LifecycleKind \<Rightarrow> uuid \<Rightarrow> string list \<Rightarrow> env \<Rightarrow> nat option \<Rightarrow> ExecOutput bk" where
  "trait_exec_with_options B k sid cmd env idle =
    (case binary_of k of
       None \<Rightarrow> trait_exec_with_env B k sid cmd env
     | Some bin \<Rightarrow> exec_with_options B bin sid cmd env idle)"

definition trait_exec_interactive :: "BackendHost \<Rightarrow> LifecycleKind \<Rightarrow> uuid \<Rightarrow> string list \<Rightarrow> 32 word bk" where
  "trait_exec_interactive B k sid cmd =
    (case binary_of k of None \<Rightarrow> kfail InteractiveNotSupported | Some bin \<Rightarrow> run_interactive B bin sid cmd)"

definition trait_destroy_by_session :: "BackendHost \<Rightarrow> LifecycleKind \<Rightarrow> uuid \<Rightarrow> unit bk" where
  "trait_destroy_by_session B k sid =
    (case binary_of k of None \<Rightarrow> kret () | Some bin \<Rightarrow> destroy_by_session B bin sid)"

definition trait_reuse_or_create ::
  "BackendHost \<Rightarrow> LifecycleKind \<Rightarrow> string \<Rightarrow> string \<Rightarrow> uuid \<Rightarrow> CreateOptions \<Rightarrow> string option bk" where
  "trait_reuse_or_create B k img shell sid opts =
    (case binary_of k of
       None \<Rightarrow> kret None
     | Some bin \<Rightarrow> kbind (reuse_or_create_with_options B bin img shell sid opts) (\<lambda>name. kret (Some name)))"

definition trait_container_handle :: "LifecycleKind \<Rightarrow> uuid \<Rightarrow> ContainerHandle option" where
  "trait_container_handle k sid = map_option (\<lambda>bin. container_handle bin sid) (binary_of k)"

text \<open>
  The executor of the engine: the container is there before the command, which reaches the shell as one argument. A step
  without an environment runs through the handle of the sandbox.
\<close>

definition handle_exec :: "BackendHost \<Rightarrow> LifecycleKind \<Rightarrow> string option \<Rightarrow> string \<Rightarrow> ExecOutput bk" where
  "handle_exec B k name cmd =
    (case (binary_of k, name) of
       (Some bin, Some n) \<Rightarrow> kbind (run_proc B ExecFailed [bin, ''exec'', n, ''sh'', ''-c'', cmd]) (\<lambda>out. kret (exec_output out))
     | _ \<Rightarrow> run_local_command B [''sh'', ''-c'', cmd] [])"

definition executor_execute ::
  "BackendHost \<Rightarrow> LifecycleKind \<Rightarrow> string \<Rightarrow> string \<Rightarrow> CreateOptions \<Rightarrow> uuid \<Rightarrow> string \<Rightarrow> ExecOutput bk" where
  "executor_execute B k img shell opts sid cmd =
    kbind (trait_reuse_or_create B k img shell sid opts) (\<lambda>name. handle_exec B k name cmd)"

definition executor_execute_with_env ::
  "BackendHost \<Rightarrow> LifecycleKind \<Rightarrow> string \<Rightarrow> string \<Rightarrow> CreateOptions \<Rightarrow> uuid \<Rightarrow> string \<Rightarrow> env \<Rightarrow> nat option \<Rightarrow> ExecOutput bk" where
  "executor_execute_with_env B k img shell opts sid cmd env idle =
    kbind (trait_reuse_or_create B k img shell sid opts) (\<lambda>_.
    trait_exec_with_options B k sid [''sh'', ''-c'', cmd] env idle)"

section \<open>The project in and out\<close>

definition sh :: "BackendHost \<Rightarrow> ContainerHandle \<Rightarrow> string \<Rightarrow> ProcOut bk" where
  "sh B h script =
    run_proc B (\<lambda>e. ExecFailed (ch_binary h @ '' exec: '' @ e)) [ch_binary h, ''exec'', ch_name h, ''sh'', ''-c'', script]"

text \<open>The archive is piped from one process to the other; the answer is that of both, the receiver's second.\<close>

definition tar_args :: "bool \<Rightarrow> string list \<Rightarrow> string \<Rightarrow> string list" where
  "tar_args macos exclude host_dir =
    [''tar'', ''-cf'', ''-''] @ (if macos then [''--no-mac-metadata'', ''--no-xattrs''] else []) @
    map (\<lambda>p. ''--exclude='' @ p) exclude @ [''-C'', host_dir, ''.'']"

definition extract_script :: "string \<Rightarrow> string" where
  "extract_script dir = ''mkdir -p '' @ shell_quote dir @ '' && tar -xf - --no-same-owner -C '' @ shell_quote dir"

definition copy_in :: "BackendHost \<Rightarrow> bool \<Rightarrow> ContainerHandle \<Rightarrow> string \<Rightarrow> string \<Rightarrow> string list \<Rightarrow> unit bk" where
  "copy_in B macos h host_dir container_dir exclude ops =
    (let tar = tar_args macos exclude host_dir;
         extract = [ch_binary h, ''exec'', ''-i'', ch_name h, ''sh'', ''-c'', extract_script container_dir] in
     (res_bind (map_err (\<lambda>e. ExecFailed (''tar: '' @ e)) (bk_pipe B ops tar extract)) (\<lambda>(tar_out, extract_out).
      res_bind (map_err (\<lambda>e. ExecFailed (ch_binary h @ '' exec tar: '' @ e)) extract_out) (\<lambda>out.
      if \<not> po_success out then Inl (ExecFailed (''copying the project into the container failed: '' @ trim (po_stderr out)))
      else (case tar_out of Inl e \<Rightarrow> Inl (ExecFailed (''tar: '' @ e)) | Inr _ \<Rightarrow> Inr ()))),
      ops @ [Proc tar, Proc extract]))"

text \<open>
  An entry of \<open>git status -z\<close> is three bytes of status and a path. Splitting at byte 3 panics within a
  character; of the status the first two characters count, which in UTF-8 are the bytes that continue none.
\<close>

fun split_nul :: "string \<Rightarrow> string list" where
  "split_nul [] = [[]]"
| "split_nul (c # s) =
    (if c = CHR 0x00 then [] # split_nul s
     else (case split_nul s of [] \<Rightarrow> [[c]] | w # ws \<Rightarrow> (c # w) # ws))"

definition porcelain_entry :: "string \<Rightarrow> ChangedPath option" where
  "porcelain_entry entry =
    (case filter (\<lambda>c. \<not> continuation c) (take 3 entry) of
       x # y # rest \<Rightarrow>
         Some (if x = CHR ''D'' \<or> y = CHR ''D'' then ChangedPath.Deleted (drop 3 entry) else Modified (drop 3 entry))
     | _ \<Rightarrow> None)"

definition parse_porcelain_z :: "string \<Rightarrow> ChangedPath list option" where
  "parse_porcelain_z out =
    (let es = filter (\<lambda>e. 3 < length e) (split_nul out) in
     if list_all (\<lambda>e. is_char_boundary e 3) es then Some (List.map_filter porcelain_entry es) else None)"

definition status_script :: "string \<Rightarrow> string" where
  "status_script dir = ''git -C '' @ shell_quote dir @ '' status --porcelain=v1 -z --untracked-files=all --no-renames''"

text \<open>The outer \<open>None\<close> is the panic.\<close>

definition changed_paths :: "BackendHost \<Rightarrow> ContainerHandle \<Rightarrow> string \<Rightarrow> ChangedPath list option bk" where
  "changed_paths B h container_dir =
    kbind (sh B h (status_script container_dir)) (\<lambda>out.
    if \<not> po_success out then kfail (ExecFailed (''git status in the container failed: '' @ trim (po_stderr out)))
    else kret (parse_porcelain_z (po_stdout out)))"

definition safe_join :: "string \<Rightarrow> string \<Rightarrow> string option" where
  "safe_join host_dir rel =
    (if rel = [] \<or> is_absolute rel \<or> ''..'' \<in> set (components rel) then None else Some (path_join host_dir rel))"

fun path_of :: "ChangedPath \<Rightarrow> string" where
  "path_of (Modified p) = p"
| "path_of (ChangedPath.Deleted p) = p"

definition trim_end_slashes :: "string \<Rightarrow> string" where
  "trim_end_slashes s = rev (dropWhile (\<lambda>c. c = CHR ''/'') (rev s))"

definition remove_deleted :: "BackendHost \<Rightarrow> string \<Rightarrow> string \<Rightarrow> CopyOutReport \<Rightarrow> CopyOutReport bk" where
  "remove_deleted B dest rel rep ops =
    (case bk_remove B ops (components dest) of
       Removed \<Rightarrow> (Inr (rep\<lparr>co_deleted := co_deleted rep @ [rel]\<rparr>), ops @ [RemoveFile (components dest)])
     | NotThere \<Rightarrow> (Inr rep, ops @ [RemoveFile (components dest)])
     | RemoveError e \<Rightarrow> (Inl (ExecFailed (''removing '' @ dest @ '' on the host: '' @ e)), ops @ [RemoveFile (components dest)]))"

definition make_parent :: "BackendHost \<Rightarrow> string \<Rightarrow> unit bk" where
  "make_parent B dest ops =
    (if components dest = [] then (Inr (), ops)
     else
       (let parent = butlast (components dest) in
        (case bk_mkdirs B ops parent of
           None \<Rightarrow> Inr ()
         | Some e \<Rightarrow> Inl (ExecFailed (''creating '' @ display_path parent @ '' on the host: '' @ e)), ops @ [MakeDirs parent])))"

definition copy_modified ::
  "BackendHost \<Rightarrow> ContainerHandle \<Rightarrow> string \<Rightarrow> string \<Rightarrow> string \<Rightarrow> CopyOutReport \<Rightarrow> CopyOutReport bk" where
  "copy_modified B h container_dir dest rel rep =
    kbind (make_parent B dest) (\<lambda>_.
    kbind (run_proc B (\<lambda>e. ExecFailed (ch_binary h @ '' cp: '' @ e))
      [ch_binary h, ''cp'', ch_name h @ '':'' @ trim_end_slashes container_dir @ ''/'' @ rel, dest]) (\<lambda>out.
    if \<not> po_success out then kfail (ExecFailed (''copying '' @ rel @ '' out of the container failed: '' @ trim (po_stderr out)))
    else kret (rep\<lparr>co_copied := co_copied rep @ [rel]\<rparr>)))"

definition copy_change ::
  "BackendHost \<Rightarrow> ContainerHandle \<Rightarrow> string \<Rightarrow> string \<Rightarrow> ChangedPath \<Rightarrow> CopyOutReport \<Rightarrow> CopyOutReport bk" where
  "copy_change B h container_dir host_dir c rep =
    (case safe_join host_dir (path_of c) of
       None \<Rightarrow> kret (rep\<lparr>co_skipped := co_skipped rep @ [path_of c]\<rparr>)
     | Some dest \<Rightarrow>
       (case c of
          ChangedPath.Deleted rel \<Rightarrow> remove_deleted B dest rel rep
        | Modified rel \<Rightarrow> copy_modified B h container_dir dest rel rep))"

fun copy_changes ::
  "BackendHost \<Rightarrow> ContainerHandle \<Rightarrow> string \<Rightarrow> string \<Rightarrow> ChangedPath list \<Rightarrow> CopyOutReport \<Rightarrow> CopyOutReport bk" where
  "copy_changes B h container_dir host_dir [] rep = kret rep"
| "copy_changes B h container_dir host_dir (c # cs) rep =
    kbind (copy_change B h container_dir host_dir c rep) (copy_changes B h container_dir host_dir cs)"

definition copy_out ::
  "BackendHost \<Rightarrow> ContainerHandle \<Rightarrow> string \<Rightarrow> ChangedPath list \<Rightarrow> string \<Rightarrow> CopyOutReport bk" where
  "copy_out B h container_dir changes host_dir =
    copy_changes B h container_dir host_dir changes \<lparr>co_copied = [], co_deleted = [], co_skipped = []\<rparr>"

end
