(* ===== verification/BackendProps.thy ===== *)
theory BackendProps
  imports Backends "HOL-Library.Sublist"
begin

text \<open>
  What the container backends promise: the list of changes is read as git wrote it, the copy back touches the host
  below the project only, a word that is quoted for the shell is that word, and what is stored of an error is bounded.
\<close>

section \<open>Errors\<close>

text \<open>What is stored of an error is a prefix of it, within the bound, and cut at the last character that fits.\<close>

lemma stored_error:
  "length (lossy_truncated s) \<le> MAX_STORED_BYTES \<and> prefix (lossy_truncated s) (trim s)"
  using snap_le [of "trim s" MAX_STORED_BYTES] by (auto simp: lossy_truncated_def Let_def take_is_prefix)

lemma stored_error_cut:
  "is_char_boundary (trim s) k \<Longrightarrow> k \<le> MAX_STORED_BYTES \<Longrightarrow> k \<le> length (lossy_truncated s)"
  using snap_longest [of "trim s" k MAX_STORED_BYTES] by (auto simp: lossy_truncated_def Let_def is_char_boundary_def)

section \<open>One command\<close>

text \<open>Every backend starts one process for a command, and a container backend only its own client on its own container.\<close>

lemma trait_exec_one_process:
  "trait_exec_with_options B k sid cmd env idle ops = (r, ops') \<Longrightarrow>
    (ops' = ops \<and> cmd = [] \<or>
     (case binary_of k of
        None \<Rightarrow> ops' = ops @ [LocalProc cmd env]
      | Some bin \<Rightarrow> ops' = ops @ [Proc (bin # ''exec'' # env_args env @ container_name sid # cmd)]))"
  by (auto simp: trait_exec_with_options_def trait_exec_with_env_def local_exec_def run_local_command_def exec_with_options_def
      exec_with_env_def kbind_def run_proc_def kfail_def kret_def Let_def split: option.splits if_splits sum.splits prod.splits)

text \<open>
  What a step of a workflow makes a container backend do: look for the container of its session, make it if there is none, and run
  the command in it, which no environment and no command can turn into another command of the client.
\<close>

lemma executor_ops:
  assumes "binary_of k = Some bin" and "executor_execute_with_env B k img shell opts sid cmd env idle ops = (r, ops')"
  shows "\<exists>made ran. ops' = ops @ Proc [bin, ''ps'', ''-q'', ''--filter'', ''name=^/'' @ container_name sid @ ''$''] # made @ ran \<and>
    set made \<subseteq> {Proc (run_args B bin img shell sid opts)} \<and>
    set ran \<subseteq> {Proc ([bin, ''exec''] @ env_args env @ [container_name sid, ''sh'', ''-c'', cmd])}"
proof -
  let ?ps = "Proc [bin, ''ps'', ''-q'', ''--filter'', ''name=^/'' @ container_name sid @ ''$'']"
  obtain q ops1 where q: "reuse_or_create_with_options B bin img shell sid opts ops = (q, ops1)" by fastforce
  then have made: "\<exists>made. ops1 = ops @ ?ps # made \<and> set made \<subseteq> {Proc (run_args B bin img shell sid opts)}"
    by (auto simp: reuse_or_create_with_options_def find_container_def create_with_options_def kbind_def run_proc_def kret_def kfail_def
        split: sum.splits if_splits prod.splits)
  show ?thesis
  proof (cases q)
    case (Inl e)
    then show ?thesis using assms q made by (force simp: executor_execute_with_env_def trait_reuse_or_create_def kbind_def)
  next
    case (Inr n)
    then have "trait_exec_with_options B k sid [''sh'', ''-c'', cmd] env idle ops1 = (r, ops')"
      using assms q by (simp add: executor_execute_with_env_def trait_reuse_or_create_def kbind_def kret_def)
    from trait_exec_one_process [OF this] have "ops' = ops1 @ [Proc ([bin, ''exec''] @ env_args env @ [container_name sid, ''sh'', ''-c'', cmd])]"
      using assms(1) by simp
    then show ?thesis using made by (metis append.assoc append_Cons empty_subsetI insert_subset list.set(1) list.set(2) order_refl)
  qed
qed

text \<open>A silence ends a command in a container and never one on the host.\<close>

lemma local_ignores_silence:
  "trait_exec_with_options B LocalShell sid cmd env idle = trait_exec_with_options B LocalShell sid cmd env None"
  by (simp add: trait_exec_with_options_def)

section \<open>Paths\<close>

lemma split_slash_nonempty [simp]: "split_slash s \<noteq> []"
  by (cases s) (auto split: list.split)

lemma split_slash_append: "split_slash (a @ CHR ''/'' # b) = split_slash a @ split_slash b"
  by (induction a) (auto split: list.split)

lemma components_join: "components (path_join h r) = components h @ components r"
proof (cases "h \<noteq> [] \<and> last h = CHR ''/''")
  case True
  then obtain g where g: "h = g @ [CHR ''/'']" by (metis append_butlast_last_id)
  then show ?thesis
    using split_slash_append [of g "[]"] split_slash_append [of g r] by (simp add: path_join_def components_def)
next
  case False
  then show ?thesis using split_slash_append [of h r] by (auto simp: path_join_def components_def)
qed

definition below :: "string \<Rightarrow> string list \<Rightarrow> bool" where
  "below host p \<longleftrightarrow> (\<exists>cs. p = components host @ cs \<and> ''..'' \<notin> set cs)"

lemma safe_join_below: "safe_join host rel = Some dest \<Longrightarrow> below host (components dest)"
  by (auto simp: safe_join_def below_def components_join split: if_splits)

section \<open>The copy back\<close>

fun is_modified :: "ChangedPath \<Rightarrow> bool" where
  "is_modified (Modified p) = True"
| "is_modified (ChangedPath.Deleted p) = False"

definition safe :: "ChangedPath \<Rightarrow> bool" where
  "safe c \<longleftrightarrow> path_of c \<noteq> [] \<and> \<not> is_absolute (path_of c) \<and> ''..'' \<notin> set (components (path_of c))"

lemma safe_join_safe: "safe_join host (path_of c) = (if safe c then Some (path_join host (path_of c)) else None)"
  by (auto simp: safe_join_def safe_def)

text \<open>
  What brings a change back: a file that was deleted is removed from the project, any other is copied out of the
  directory of the container, after the directory that is to hold it was made. \<open>t\<close> is the directory of the
  container without the slashes at its end.
\<close>

definition without_slashes :: "string \<Rightarrow> string \<Rightarrow> bool" where
  "without_slashes dir t \<longleftrightarrow> (\<exists>k. dir = t @ replicate k (CHR ''/'')) \<and> (t = [] \<or> last t \<noteq> CHR ''/'')"

definition brings :: "ContainerHandle \<Rightarrow> string \<Rightarrow> string \<Rightarrow> ChangedPath \<Rightarrow> HostOp list" where
  "brings h t host c =
    (let dest = components host @ components (path_of c) in
     if \<not> safe c then []
     else if is_modified c then
       (if dest = [] then [] else [MakeDirs (butlast dest)]) @
       [Proc [ch_binary h, ''cp'', ch_name h @ '':'' @ t @ ''/'' @ path_of c, path_join host (path_of c)]]
     else [RemoveFile dest])"

definition all_back :: "ContainerHandle \<Rightarrow> string \<Rightarrow> string \<Rightarrow> ChangedPath list \<Rightarrow> HostOp list" where
  "all_back h t host cs = concat (map (brings h t host) cs)"

text \<open>What an operation may touch: a file of the project, the directory of one, or a copy into one.\<close>

fun confined :: "ContainerHandle \<Rightarrow> string \<Rightarrow> HostOp \<Rightarrow> bool" where
  "confined h host (RemoveFile p) \<longleftrightarrow> below host p"
| "confined h host (LocalProc argv env) \<longleftrightarrow> False"
| "confined h host (MakeDirs p) \<longleftrightarrow> (\<exists>q. below host q \<and> p = butlast q)"
| "confined h host (Proc argv) \<longleftrightarrow> (\<exists>src dest. argv = [ch_binary h, ''cp'', ch_name h @ '':'' @ src, dest] \<and> below host (components dest))"

lemma brings_confined: "list_all (confined h host) (all_back h t host cs)"
proof -
  have "below host (components host @ components (path_of c))" if "safe c" for c
    using that by (auto simp: below_def safe_def)
  then have "list_all (confined h host) (brings h t host c)" for c
    by (auto simp: brings_def Let_def components_join)
  then show ?thesis by (auto simp: all_back_def list_all_iff)
qed

text \<open>Whether the host did what it was asked, for one operation and for a sequence of them.\<close>

fun went_well :: "BackendHost \<Rightarrow> HostOp list \<Rightarrow> HostOp \<Rightarrow> bool" where
  "went_well B ops (RemoveFile p) \<longleftrightarrow> bk_remove B ops p = Removed \<or> bk_remove B ops p = NotThere"
| "went_well B ops (MakeDirs p) \<longleftrightarrow> bk_mkdirs B ops p = None"
| "went_well B ops (Proc argv) \<longleftrightarrow> (case bk_proc B ops argv of Inr out \<Rightarrow> po_success out | Inl e \<Rightarrow> False)"
| "went_well B ops (LocalProc argv env) \<longleftrightarrow> (case bk_local B ops argv env of Inr out \<Rightarrow> po_success out | Inl e \<Rightarrow> False)"

fun all_well :: "BackendHost \<Rightarrow> HostOp list \<Rightarrow> HostOp list \<Rightarrow> bool" where
  "all_well B ops [] \<longleftrightarrow> True"
| "all_well B ops (x # xs) \<longleftrightarrow> went_well B ops x \<and> all_well B (ops @ [x]) xs"

lemma all_well_append [simp]: "all_well B ops (xs @ ys) \<longleftrightarrow> all_well B ops xs \<and> all_well B (ops @ xs) ys"
  by (induction xs arbitrary: ops) auto

text \<open>A plan is carried out to its end, or up to the first operation that the host refuses.\<close>

definition carried_out :: "BackendHost \<Rightarrow> HostOp list \<Rightarrow> HostOp list \<Rightarrow> bool \<Rightarrow> HostOp list \<Rightarrow> bool" where
  "carried_out B ops plan success new \<longleftrightarrow>
    (if success then new = plan \<and> all_well B ops plan
     else (\<exists>before x rest. plan = before @ x # rest \<and> new = before @ [x] \<and> all_well B ops before \<and> \<not> went_well B (ops @ before) x))"

lemma carried_then:
  assumes "carried_out B ops p True new1" and "carried_out B (ops @ new1) q ok new2"
  shows "carried_out B ops (p @ q) ok (new1 @ new2)"
proof (cases ok)
  case True
  then show ?thesis using assms by (auto simp: carried_out_def)
next
  case False
  then obtain before x rest where "q = before @ x # rest" "new2 = before @ [x]"
      "all_well B (ops @ new1) before" "\<not> went_well B (ops @ new1 @ before) x"
    using assms(2) by (auto simp: carried_out_def)
  then have "p @ q = (new1 @ before) @ x # rest \<and> new1 @ new2 = (new1 @ before) @ [x] \<and>
      all_well B ops (new1 @ before) \<and> \<not> went_well B (ops @ (new1 @ before)) x"
    using assms(1) by (auto simp: carried_out_def)
  then show ?thesis using False unfolding carried_out_def by (metis (no_types, lifting))
qed

lemma carried_stops: "carried_out B ops p False new \<Longrightarrow> carried_out B ops (p @ q) False new"
  unfolding carried_out_def by (auto simp: append_assoc)

text \<open>The files that were there to remove, when the host was asked to remove them.\<close>

fun gone :: "BackendHost \<Rightarrow> ContainerHandle \<Rightarrow> string \<Rightarrow> string \<Rightarrow> HostOp list \<Rightarrow> ChangedPath list \<Rightarrow> string list" where
  "gone B h t host ops [] = []"
| "gone B h t host ops (c # cs) =
    (if safe c \<and> \<not> is_modified c \<and> bk_remove B ops (components host @ components (path_of c)) = Removed then [path_of c] else []) @
    gone B h t host (ops @ brings h t host c) cs"

definition reported ::
  "BackendHost \<Rightarrow> ContainerHandle \<Rightarrow> string \<Rightarrow> string \<Rightarrow> HostOp list \<Rightarrow> ChangedPath list \<Rightarrow> CopyOutReport \<Rightarrow> CopyOutReport \<Rightarrow> bool" where
  "reported B h t host ops cs rep rep' \<longleftrightarrow>
    co_copied rep' = co_copied rep @ map path_of (filter (\<lambda>c. safe c \<and> is_modified c) cs) \<and>
    co_skipped rep' = co_skipped rep @ map path_of (filter (\<lambda>c. \<not> safe c) cs) \<and>
    co_deleted rep' = co_deleted rep @ gone B h t host ops cs"

lemma trimmed_slashes: "without_slashes dir (trim_end_slashes dir)"
proof -
  let ?q = "\<lambda>c. c = CHR ''/''" and ?n = "length (takeWhile (\<lambda>c. c = CHR ''/'') (rev dir))"
  have "takeWhile ?q (rev dir) = replicate ?n (CHR ''/'')"
    by (rule replicate_eqI) (auto dest: set_takeWhileD)
  then have "rev dir = replicate ?n (CHR ''/'') @ dropWhile ?q (rev dir)" by (metis takeWhile_dropWhile_id)
  then have "dir = rev (replicate ?n (CHR ''/'') @ dropWhile ?q (rev dir))" by (metis rev_rev_ident)
  then have "dir = trim_end_slashes dir @ replicate ?n (CHR ''/'')" by (simp add: trim_end_slashes_def)
  moreover have "trim_end_slashes dir = [] \<or> last (trim_end_slashes dir) \<noteq> CHR ''/''"
    using hd_dropWhile [of ?q "rev dir"] by (auto simp: trim_end_slashes_def last_rev)
  ultimately show ?thesis unfolding without_slashes_def by blast
qed

lemma trim_to: "t = [] \<or> last t \<noteq> CHR ''/'' \<Longrightarrow> trim_end_slashes (t @ replicate k (CHR ''/'')) = t"
proof -
  have slashes: "dropWhile (\<lambda>c. c = CHR ''/'') (replicate k (CHR ''/'') @ s) = dropWhile (\<lambda>c. c = CHR ''/'') s" for s
    by (induction k) simp_all
  show "t = [] \<or> last t \<noteq> CHR ''/'' \<Longrightarrow> trim_end_slashes (t @ replicate k (CHR ''/'')) = t"
    using slashes [of "[]"] by (cases t rule: rev_cases) (auto simp: trim_end_slashes_def slashes)
qed

lemma slashes_unique: "without_slashes dir t \<Longrightarrow> trim_end_slashes dir = t"
  unfolding without_slashes_def using trim_to by blast

lemma copy_change_spec:
  assumes "copy_change B h dir host c rep ops = (r, ops')" and "without_slashes dir t"
  shows "(\<exists>new. ops' = ops @ new \<and> carried_out B ops (brings h t host c) (\<exists>rep'. r = Inr rep') new) \<and>
    (\<forall>rep'. r = Inr rep' \<longrightarrow> reported B h t host ops [c] rep rep')"
proof (cases "safe c")
  case False
  then show ?thesis using assms(1)
    by (auto simp: copy_change_def safe_join_safe kret_def reported_def brings_def carried_out_def)
next
  case True
  have t: "trim_end_slashes dir = t" by (rule slashes_unique [OF assms(2)])
  have j: "safe_join host (path_of c) = Some (path_join host (path_of c))" using True by (simp add: safe_join_safe)
  show ?thesis
  proof (cases c)
    case (Modified rel)
    have cut: "carried_out B ops [x] False [x] = (\<not> went_well B ops x)"
      "carried_out B ops [x, y] False [x] = (\<not> went_well B ops x)"
      "carried_out B ops [x, y] False [x, y] = (went_well B ops x \<and> \<not> went_well B (ops @ [x]) y)" for x y
      unfolding carried_out_def by (auto simp: Cons_eq_append_conv)
    have ok: "carried_out B ops p True p = all_well B ops p" for p by (simp add: carried_out_def)
    show ?thesis using assms(1) True j Modified
      by (auto simp: copy_change_def copy_modified_def make_parent_def kbind_def run_proc_def kret_def kfail_def reported_def Let_def
          brings_def components_join cut ok t split: option.splits sum.splits if_splits prod.splits)
  next
    case (Deleted rel)
    have cut: "carried_out B ops [x] False [x] = (\<not> went_well B ops x)" for x
      unfolding carried_out_def by (auto simp: Cons_eq_append_conv)
    have ok: "carried_out B ops p True p = all_well B ops p" for p by (simp add: carried_out_def)
    show ?thesis using assms(1) True j Deleted
      by (auto simp: copy_change_def remove_deleted_def reported_def brings_def components_join cut ok split: Removal.splits)
  qed
qed

lemma reported_Nil: "reported B h t host ops [] rep rep"
  by (simp add: reported_def)

lemma reported_Cons:
  assumes "reported B h t host ops [c] a b" and "reported B h t host (ops @ brings h t host c) cs b d"
  shows "reported B h t host ops (c # cs) a d"
  using assms by (auto simp: reported_def)

lemma copy_changes_spec:
  assumes "copy_changes B h dir host cs rep ops = (r, ops')" and "without_slashes dir t"
  shows "(\<exists>new. ops' = ops @ new \<and> carried_out B ops (all_back h t host cs) (\<exists>rep'. r = Inr rep') new) \<and>
    (\<forall>rep'. r = Inr rep' \<longrightarrow> reported B h t host ops cs rep rep')"
  using assms(1)
proof (induction cs arbitrary: rep ops)
  case Nil
  then show ?case by (auto simp: kret_def reported_Nil all_back_def carried_out_def)
next
  case (Cons c cs)
  have plan: "all_back h t host (c # cs) = brings h t host c @ all_back h t host cs" by (simp add: all_back_def)
  obtain r1 ops1 where s: "copy_change B h dir host c rep ops = (r1, ops1)" by fastforce
  note c = copy_change_spec [OF s assms(2)]
  show ?case
  proof (cases r1)
    case (Inl e)
    then show ?thesis using Cons.prems s c carried_stops [of B ops "brings h t host c" _ "all_back h t host cs"]
      by (auto simp: kbind_def plan)
  next
    case (Inr rep1)
    then have "copy_changes B h dir host cs rep1 ops1 = (r, ops')" using Cons.prems s by (simp add: kbind_def)
    note rest = Cons.IH [OF this]
    have one: "reported B h t host ops [c] rep rep1" "ops1 = ops @ brings h t host c"
        "carried_out B ops (brings h t host c) True (brings h t host c)"
      using c Inr by (auto simp: carried_out_def)
    then have "\<forall>rep'. r = Inr rep' \<longrightarrow> reported B h t host ops (c # cs) rep rep'" using rest reported_Cons by blast
    moreover obtain new where "ops' = ops1 @ new"
        "carried_out B ops1 (all_back h t host cs) (\<exists>rep'. r = Inr rep') new"
      using rest by auto
    ultimately show ?thesis using one carried_then plan by (metis append_assoc)
  qed
qed

section \<open>The list of changes\<close>

text \<open>An entry as git prints it: the two letters of the status, a blank, the path, and NUL.\<close>

definition status_line :: "char \<times> char \<times> string \<Rightarrow> string" where
  "status_line = (\<lambda>(x, y, p). x # y # CHR '' '' # p @ [CHR 0x00])"

definition change_of :: "char \<times> char \<times> string \<Rightarrow> ChangedPath" where
  "change_of = (\<lambda>(x, y, p). if x = CHR ''D'' \<or> y = CHR ''D'' then ChangedPath.Deleted p else Modified p)"

definition git_entry :: "char \<times> char \<times> string \<Rightarrow> bool" where
  "git_entry = (\<lambda>(x, y, p). (of_char x :: nat) < 128 \<and> (of_char y :: nat) < 128 \<and> x \<noteq> CHR 0x00 \<and> y \<noteq> CHR 0x00 \<and>
     p \<noteq> [] \<and> CHR 0x00 \<notin> set p \<and> \<not> continuation (hd p))"

lemma split_nul_end: "CHR 0x00 \<notin> set a \<Longrightarrow> split_nul (a @ CHR 0x00 # s) = a # split_nul s"
  by (induction a) auto

lemma split_status: "list_all git_entry es \<Longrightarrow>
    split_nul (concat (map status_line es)) = map (\<lambda>(x, y, p). x # y # CHR '' '' # p) es @ [[]]"
  by (induction es)
    (auto simp: status_line_def git_entry_def split_nul_end)

lemma entry_read:
  assumes "git_entry (x, y, p)"
  shows "porcelain_entry (x # y # CHR '' '' # p) = Some (change_of (x, y, p))"
    and "is_char_boundary (x # y # CHR '' '' # p) 3" and "3 < length (x # y # CHR '' '' # p)"
  using assms
  by (auto simp: git_entry_def porcelain_entry_def change_of_def is_char_boundary_def continuation_def numeral_3_eq_3 neq_Nil_conv)

lemma parse_status:
  assumes "list_all git_entry es"
  shows "parse_porcelain_z (concat (map status_line es)) = Some (map change_of es)"
proof -
  let ?es = "map (\<lambda>(x, y, p). x # y # CHR '' '' # p) es"
  have "filter (\<lambda>e. 3 < length e) (split_nul (concat (map status_line es))) = ?es"
    using assms entry_read(3) unfolding split_status [OF assms] by (auto simp: filter_id_conv list_all_iff)
  moreover have "list_all (\<lambda>e. is_char_boundary e 3) ?es" using assms entry_read(2) by (auto simp: list_all_iff)
  moreover have "List.map_filter porcelain_entry ?es = map change_of es"
    using assms by (induction es) (auto simp: List.map_filter_simps entry_read(1))
  ultimately show ?thesis by (simp add: parse_porcelain_z_def)
qed

section \<open>A word for the shell\<close>

text \<open>
  How a POSIX shell reads a word: within quotes up to the next quote, outside up to a blank or an operator, with a
  backslash for the character behind it. The other result is what is left, and \<open>None\<close> is a quote that is not closed.
\<close>

datatype ShMode = Plain | Within | Escaped

fun sh_word :: "ShMode \<Rightarrow> string \<Rightarrow> (string \<times> string) option" where
  "sh_word m [] = (if m = Plain then Some ([], []) else None)"
| "sh_word Plain (c # s) =
    (if c = quote_char then sh_word Within s
     else if c = CHR 0x5C then sh_word Escaped s
     else if c \<in> set '' ;&|()<>$`'' \<or> c = CHR 0x0A \<or> c = CHR 0x22 then Some ([], c # s)
     else map_option (\<lambda>(w, r). (c # w, r)) (sh_word Plain s))"
| "sh_word Within (c # s) =
    (if c = quote_char then sh_word Plain s else map_option (\<lambda>(w, r). (c # w, r)) (sh_word Within s))"
| "sh_word Escaped (c # s) = map_option (\<lambda>(w, r). (c # w, r)) (sh_word Plain s)"

lemma sh_word_inside:
  "sh_word Within (concat (map (\<lambda>c. if c = quote_char then [quote_char, CHR 0x5C, quote_char, quote_char] else [c]) s) @
      quote_char # CHR '' '' # r) = Some (s, CHR '' '' # r)"
  by (induction s) (simp_all add: quote_char_def)

lemma sh_word_quoted: "sh_word Plain (shell_quote s @ CHR '' '' # r) = Some (s, CHR '' '' # r)"
  using sh_word_inside [of s r] by (simp add: shell_quote_def)


text \<open>A host that does what it is asked: a file is copied and one removed.\<close>

definition willing_host :: BackendHost where
  "willing_host =
    \<lparr>bk_proc = (\<lambda>ops argv. Inr \<lparr>po_success = True, po_stdout = ''D  a'' @ [CHR 0x00] @ ''?? b'' @ [CHR 0x00], po_stderr = [],
       po_code = Some 0\<rparr>),
     bk_local = (\<lambda>ops argv env. Inl []), bk_stream = (\<lambda>ops argv. Inl []), bk_pipe = (\<lambda>ops a b. Inl []),
     bk_remove = (\<lambda>ops p. Removed), bk_mkdirs = (\<lambda>ops p. None), bk_show_f64 = (\<lambda>x. [])\<rparr>"


end
