(* ===== verification/Notify.thy ===== *)
theory Notify
  imports Backends V1Engine
begin

text \<open>
  What the engine of version 1 tells the outside, \<open>src/events/subscribers.rs\<close> and the part of \<open>Engine::new\<close> that
  registers the subscribers: a request for every event, a line in a file, and the report of the whole run to the dashboard
  with the artifacts behind it.
\<close>

section \<open>Base 64\<close>

definition TABLE :: string where
  "TABLE = ''ABCDEFGHIJKLMNOPQRSTUVWXYZabcdefghijklmnopqrstuvwxyz0123456789+/''"

definition table_at :: "8 word \<Rightarrow> char" where
  "table_at w = TABLE ! unat w"

definition get_or_zero :: "8 word list \<Rightarrow> nat \<Rightarrow> 8 word" where
  "get_or_zero chunk i = (if i < length chunk then chunk ! i else 0)"

definition encode_chunk :: "8 word list \<Rightarrow> string" where
  "encode_chunk chunk =
    (let b0 = chunk ! 0; b1 = get_or_zero chunk 1; b2 = get_or_zero chunk 2 in
     [table_at (drop_bit 2 b0),
      table_at (or (push_bit 4 (and b0 3)) (drop_bit 4 b1)),
      (if 1 < length chunk then table_at (or (push_bit 2 (and b1 15)) (drop_bit 6 b2)) else CHR ''=''),
      (if 2 < length chunk then table_at (and b2 63) else CHR ''='')])"

fun base64_encode :: "8 word list \<Rightarrow> string" where
  "base64_encode [] = []"
| "base64_encode (b # bs) = encode_chunk (take 3 (b # bs)) @ base64_encode (drop 2 bs)"

section \<open>The dashboard\<close>

record TrackedStep =
  tk_name :: string
  tk_type :: string
  tk_status :: string
  tk_duration :: "nat option"
  tk_in :: "nat option"
  tk_out :: "nat option"
  tk_sandboxed :: bool
  tk_error :: "string option"

text \<open>The steps that were started and not ended are kept by name and never read.\<close>

record DashboardState =
  ds_steps :: "TrackedStep list"
  ds_started :: "timestamp option"
  ds_pending :: "(string \<times> string) list"

record DashboardSubscriber =
  sb_url :: string
  sb_secret :: "string option"
  sb_run_id :: string
  sb_workflow :: string
  sb_target :: string
  sb_repo :: "string option"
  sb_user :: string
  sb_log_path :: "string option"
  sb_artifacts :: "string list"

definition new_dashboard :: DashboardState where
  "new_dashboard = \<lparr>ds_steps = [], ds_started = None, ds_pending = []\<rparr>"

definition or_null :: "('a \<Rightarrow> json) \<Rightarrow> 'a option \<Rightarrow> json" where
  "or_null f x = (case x of None \<Rightarrow> JNull | Some a \<Rightarrow> f a)"

definition tracked_json :: "TrackedStep \<Rightarrow> json" where
  "tracked_json s = JObj
    [(''step_name'', JStr (tk_name s)), (''step_type'', JStr (tk_type s)), (''status'', JStr (tk_status s)),
     (''duration_ms'', or_null json_u (tk_duration s)), (''tokens_in'', or_null json_u (tk_in s)),
     (''tokens_out'', or_null json_u (tk_out s)), (''sandboxed'', JBool (tk_sandboxed s)),
     (''error'', or_null JStr (tk_error s))]"

definition total_tokens :: "TrackedStep list \<Rightarrow> nat" where
  "total_tokens ss = sum_list (map (\<lambda>s. or_else (tk_in s) 0 + or_else (tk_out s) 0) ss)"

text \<open>
  The instants are printed by \<open>to_rfc3339\<close>. The sum of the tokens is one of 64 bits: a build that checks arithmetic
  for overflow (\<open>checks\<close>, as the development profile does) panics, which is \<open>None\<close>; the release profile wraps.
\<close>

definition build_payload ::
  "bool \<Rightarrow> (timestamp \<Rightarrow> string) \<Rightarrow> DashboardSubscriber \<Rightarrow> DashboardState \<Rightarrow> nat \<Rightarrow> timestamp \<Rightarrow> json option" where
  "build_payload checks rfc D st ms finished =
    (if checks \<and> 2 ^ 64 \<le> total_tokens (ds_steps st) then None
     else
       (let has_failure = list_ex (\<lambda>s. tk_status s = ''failed'') (ds_steps st) in
        Some (JObj
          ([(''run_id'', JStr (sb_run_id D)), (''user_name'', JStr (sb_user D)), (''workflow'', JStr (sb_workflow D)),
            (''status'', JStr (if has_failure then ''failed'' else ''success'')), (''duration_ms'', json_u ms),
            (''total_tokens'', json_u (total_tokens (ds_steps st) mod 2 ^ 64)),
            (''started_at'', or_null (\<lambda>t. JStr (rfc t)) (ds_started st)), (''finished_at'', JStr (rfc finished)),
            (''event_version'', JInt 1), (''steps'', JArr (map tracked_json (ds_steps st)))] @
           (if sb_target D \<noteq> [] then [(''target'', JStr (sb_target D))] else []) @
           opt_field ''repo'' JStr (sb_repo D) @ opt_field ''dispatch_log_path'' JStr (sb_log_path D)))))"

datatype HttpPost = HttpPost string "(string \<times> string) list" json

definition post_headers :: "string option \<Rightarrow> (string \<times> string) list" where
  "post_headers secret =
    (''Content-Type'', ''application/json'') #
    (case secret of Some t \<Rightarrow> [(''Authorization'', ''Bearer '' @ t)] | None \<Rightarrow> [])"

definition dashboard_artifacts_url :: "string \<Rightarrow> string \<Rightarrow> string" where
  "dashboard_artifacts_url url run_id =
    (let trimmed = trim_end_slashes url;
         base = (if ends_with trimmed ''/events'' then take (length trimmed - 7) trimmed else trimmed) in
     base @ ''/workflows/'' @ run_id @ ''/artifacts'')"

text \<open>An artifact without a name or that cannot be read is left out.\<close>

definition artifact_post :: "(string \<Rightarrow> 8 word list option) \<Rightarrow> DashboardSubscriber \<Rightarrow> string \<Rightarrow> HttpPost option" where
  "artifact_post read D path =
    (case path_file_name path of
       None \<Rightarrow> None
     | Some name \<Rightarrow>
       (case read path of
          None \<Rightarrow> None
        | Some bytes \<Rightarrow> Some (HttpPost (dashboard_artifacts_url (sb_url D) (sb_run_id D)) (post_headers (sb_secret D))
            (JObj [(''name'', JStr name), (''content_base64'', JStr (base64_encode bytes)),
              (''content_type'', JStr ''application/octet-stream'')]))))"

text \<open>An event: the new state and, at the end of the run, the requests of the task it spawns. \<open>None\<close> is a panic.\<close>

fun on_event ::
  "bool \<Rightarrow> (timestamp \<Rightarrow> string) \<Rightarrow> (string \<Rightarrow> 8 word list option) \<Rightarrow> DashboardSubscriber \<Rightarrow> Event \<Rightarrow> DashboardState \<Rightarrow>
    (DashboardState \<times> HttpPost list) option" where
  "on_event checks rfc read D (WorkflowStarted ts) st = Some (st\<lparr>ds_started := Some ts\<rparr>, [])"
| "on_event checks rfc read D (StepStarted n t ts sc) st = Some (st\<lparr>ds_pending := AList.update n t (ds_pending st)\<rparr>, [])"
| "on_event checks rfc read D (StepCompleted n t ms ts ti to c sb out sc g sid) st =
    Some (st\<lparr>ds_pending := AList.delete n (ds_pending st),
      ds_steps := ds_steps st @ [\<lparr>tk_name = n, tk_type = t, tk_status = ''success'', tk_duration = Some ms, tk_in = ti, tk_out = to,
        tk_sandboxed = sb, tk_error = None\<rparr>]\<rparr>, [])"
| "on_event checks rfc read D (StepFailed n t e ms ts sb) st =
    Some (st\<lparr>ds_pending := AList.delete n (ds_pending st),
      ds_steps := ds_steps st @ [\<lparr>tk_name = n, tk_type = t, tk_status = ''failed'', tk_duration = Some ms, tk_in = None, tk_out = None,
        tk_sandboxed = sb, tk_error = Some e\<rparr>]\<rparr>, [])"
| "on_event checks rfc read D (WorkflowCompleted ms ts) st =
    map_option (\<lambda>p. (st, HttpPost (sb_url D) (post_headers (sb_secret D)) p #
      List.map_filter (artifact_post read D) (sb_artifacts D))) (build_payload checks rfc D st ms ts)"
| "on_event checks rfc read D ev st = Some (st, [])"

text \<open>The events of a run in turn.\<close>

fun on_events ::
  "bool \<Rightarrow> (timestamp \<Rightarrow> string) \<Rightarrow> (string \<Rightarrow> 8 word list option) \<Rightarrow> DashboardSubscriber \<Rightarrow> Event list \<Rightarrow> DashboardState \<Rightarrow>
    (DashboardState \<times> HttpPost list) option" where
  "on_events checks rfc read D [] st = Some (st, [])"
| "on_events checks rfc read D (ev # evs) st =
    (case on_event checks rfc read D ev st of
       None \<Rightarrow> None
     | Some (st', ps) \<Rightarrow> map_option (\<lambda>(st'', qs). (st'', ps @ qs)) (on_events checks rfc read D evs st'))"

section \<open>The subscribers of a run\<close>

text \<open>What \<open>Engine::new\<close> asks the host for: the environment and what \<open>git\<close> prints, as text if it is one.\<close>

record SubscriberHost =
  sh_env :: "string \<Rightarrow> string option"
  sh_git :: "string list \<Rightarrow> string option"
  sh_uuid :: uuid

definition nonblank :: "string option \<Rightarrow> string option" where
  "nonblank x = (case x of Some s \<Rightarrow> if s = [] then None else Some s | None \<Rightarrow> None)"

definition user_name :: "SubscriberHost \<Rightarrow> string" where
  "user_name H =
    (case sh_env H ''STEPYARD_USER'' of
       Some u \<Rightarrow> u
     | None \<Rightarrow> or_else (nonblank (map_option trim (sh_git H [''config'', ''user.name'']))) ''unknown'')"

function trim_git :: "string \<Rightarrow> string" where
  "trim_git s = (if ends_with s ''.git'' then trim_git (take (length s - 4) s) else s)"
  by pat_completeness auto

termination
proof (relation "measure length")
  fix s
  assume "ends_with s ''.git''"
  then have "s \<noteq> []" by (auto simp: ends_with_def starts_with_def)
  then show "(take (length s - 4) s, s) \<in> measure length" by (cases s) auto
qed simp

declare trim_git.simps [simp del]

definition last_two :: "string list \<Rightarrow> string list" where
  "last_two ws = drop (length ws - 2) ws"

definition repo_of_url :: "string \<Rightarrow> string" where
  "repo_of_url s = join ''/'' (last_two (split_slash (trim_git (trim s))))"

definition repo_name :: "SubscriberHost \<Rightarrow> string option \<Rightarrow> string option" where
  "repo_name H repo =
    (case repo of
       Some r \<Rightarrow> Some r
     | None \<Rightarrow> nonblank (map_option repo_of_url (sh_git H [''remote'', ''get-url'', ''origin''])))"

definition dashboard_of :: "SubscriberHost \<Rightarrow> DashboardConfig \<Rightarrow> string \<Rightarrow> string \<Rightarrow> string option \<Rightarrow> DashboardSubscriber" where
  "dashboard_of H cfg workflow target repo =
    \<lparr>sb_url = db_url cfg,
     sb_secret = (case db_secret cfg of Some s \<Rightarrow> Some s | None \<Rightarrow> sh_env H ''DASHBOARD_API_SECRET''),
     sb_run_id = or_else (sh_env H ''STEPYARD_DASHBOARD_RUN_ID'') (sh_uuid H), sb_workflow = workflow, sb_target = target,
     sb_repo = repo_name H repo, sb_user = user_name H, sb_log_path = sh_env H ''STEPYARD_DISPATCH_LOG_PATH'',
     sb_artifacts = db_artifacts cfg\<rparr>"

text \<open>
  The bus hands an event to the subscribers in the order they were registered: the request, the line (if the file can be
  opened and written), the dashboard.
\<close>

datatype Told = Sent HttpPost | FileLine string json

definition webhook_told :: "string option \<Rightarrow> Event \<Rightarrow> Told list" where
  "webhook_told url ev =
    (case url of Some u \<Rightarrow> [Sent (HttpPost u [(''Content-Type'', ''application/json'')] (event_json ev))] | None \<Rightarrow> [])"

definition file_told :: "(string \<Rightarrow> json \<Rightarrow> bool) \<Rightarrow> string option \<Rightarrow> Event \<Rightarrow> Told list" where
  "file_told writes path ev =
    (case path of Some p \<Rightarrow> if writes p (event_json ev) then [FileLine p (event_json ev)] else [] | None \<Rightarrow> [])"

definition bus_emit ::
  "bool \<Rightarrow> (timestamp \<Rightarrow> string) \<Rightarrow> (string \<Rightarrow> 8 word list option) \<Rightarrow> (string \<Rightarrow> json \<Rightarrow> bool) \<Rightarrow> EventsConfig \<Rightarrow>
    DashboardSubscriber option \<Rightarrow> Event \<Rightarrow> DashboardState \<Rightarrow> (DashboardState \<times> Told list) option" where
  "bus_emit checks rfc read writes cfg D ev st =
    (let first = webhook_told (ec_webhook cfg) ev @ file_told writes (ec_file cfg) ev in
     (case D of
        None \<Rightarrow> Some (st, first)
      | Some d \<Rightarrow> map_option (\<lambda>(st', ps). (st', first @ map Sent ps)) (on_event checks rfc read d ev st)))"

text \<open>A remote over SSH is not cut at its colon.\<close>

lemma repo_over_https: "repo_of_url ''https://h/o/r.git'' = ''o/r''"
  by code_simp

lemma repo_over_ssh: "repo_of_url ''git@h:o/r.git'' = ''git@h:o/r''"
  by code_simp

end
