(* ===== verification/NotifyProps.thy ===== *)
theory NotifyProps
  imports V1Demo V1Access BackendProps Notify
begin

text \<open>
  What reaches the dashboard: the artifacts are readable again, and the report is the fold of the events of the run, which
  do not tell every failure.
\<close>

section \<open>Base 64 is read back\<close>

text \<open>The reader of RFC 4648, with the padding.\<close>

definition table_index :: "char \<Rightarrow> 8 word" where
  "table_index c = of_nat (length (takeWhile (\<lambda>d. d \<noteq> c) TABLE))"

fun base64_decode :: "string \<Rightarrow> 8 word list option" where
  "base64_decode [] = Some []"
| "base64_decode (a # b # c # d # s) =
    (let w0 = table_index a; w1 = table_index b; w2 = table_index c; w3 = table_index d;
         b0 = or (push_bit 2 w0) (drop_bit 4 w1); b1 = or (push_bit 4 w1) (drop_bit 2 w2); b2 = or (push_bit 6 w2) w3 in
     if d = CHR ''='' then (if s \<noteq> [] then None else if c = CHR ''='' then Some [b0] else Some [b0, b1])
     else map_option (\<lambda>bs. b0 # b1 # b2 # bs) (base64_decode s))"
| "base64_decode _ = None"

lemma table_index_at: "unat w < 64 \<Longrightarrow> table_index (table_at w) = w \<and> table_at w \<noteq> CHR ''=''"
proof -
  have "list_all (\<lambda>n. length (takeWhile (\<lambda>d. d \<noteq> TABLE ! n) TABLE) = n \<and> TABLE ! n \<noteq> CHR ''='') [0..<64]"
    unfolding TABLE_def by code_simp
  then have "length (takeWhile (\<lambda>d. d \<noteq> TABLE ! n) TABLE) = n \<and> TABLE ! n \<noteq> CHR ''=''" if "n < 64" for n
    using that by (simp add: list_all_iff)
  moreover assume "unat w < 64"
  ultimately show ?thesis by (simp add: table_index_def table_at_def)
qed

text \<open>The four pieces of three bytes.\<close>

lemma masks: "(3 :: 8 word) = mask 2" "(15 :: 8 word) = mask 4" "(63 :: 8 word) = mask 6"
  by (simp_all add: mask_eq_exp_minus_1)

lemma bits8: "(\<And>n. n \<in> {0, 1, 2, 3, 4, 5, 6, 7} \<Longrightarrow> bit a n = bit b n) \<Longrightarrow> a = b" for a b :: "8 word"
proof (rule bit_word_eqI)
  fix n
  assume same: "\<And>n. n \<in> {0, 1, 2, 3, 4, 5, 6, 7} \<Longrightarrow> bit a n = bit b n"
  assume "n < LENGTH(8)"
  then have "n \<in> {0, 1, 2, 3, 4, 5, 6, 7}" by auto
  then show "bit a n = bit b n" by (rule same)
qed

lemma no_bit: "8 \<le> n \<Longrightarrow> \<not> bit x n" for x :: "8 word"
  using bit_imp_le_length [of x n] by auto

definition sextet :: "nat \<Rightarrow> 8 word \<Rightarrow> 8 word \<Rightarrow> 8 word" where
  "sextet k x y =
    (if k = 0 then drop_bit 2 y
     else if k = 1 then or (push_bit 4 (and x 3)) (drop_bit 4 y)
     else if k = 2 then or (push_bit 2 (and x 15)) (drop_bit 6 y)
     else and x 63)"

lemma sextet_small: "unat (sextet k x y) < 64"
proof -
  have small: "unat z < 64" if "\<not> bit z 6" "\<not> bit z 7" for z :: "8 word"
  proof -
    have "take_bit 6 z = z" by (rule bits8) (use that in \<open>auto simp: bit_simps\<close>)
    then have "take_bit 6 (unat z) = unat z" by (metis unsigned_take_bit_eq)
    then show ?thesis using take_bit_nat_less_exp [of 6 "unat z"] by simp
  qed
  show ?thesis by (rule small) (simp_all add: sextet_def bit_simps masks no_bit)
qed

lemma table_index_sextet [simp]: "table_index (table_at (sextet k x y)) = sextet k x y" "table_at (sextet k x y) \<noteq> CHR ''=''"
  using table_index_at [OF sextet_small] by simp_all

lemma sextets_join:
  "or (push_bit 2 (sextet 0 x b0)) (drop_bit 4 (sextet 1 b0 b1)) = b0"
  "or (push_bit 4 (sextet 1 b0 b1)) (drop_bit 2 (sextet 2 b1 b2)) = b1"
  "or (push_bit 6 (sextet 2 b1 b2)) (sextet 3 b2 y) = b2"
  by (rule bits8; auto simp: sextet_def bit_simps masks numeral_2_eq_2 [symmetric] numeral_3_eq_3 [symmetric])+

lemma encode_chunk_sextets:
  "encode_chunk [b0, b1, b2] = map table_at [sextet 0 0 b0, sextet 1 b0 b1, sextet 2 b1 b2, sextet 3 b2 0]"
  "encode_chunk [b0, b1] = map table_at [sextet 0 0 b0, sextet 1 b0 b1, sextet 2 b1 0] @ ''=''"
  "encode_chunk [b0] = map table_at [sextet 0 0 b0, sextet 1 b0 0] @ ''==''"
  by (simp_all add: encode_chunk_def get_or_zero_def Let_def sextet_def)

lemma decode_chunk:
  "base64_decode (encode_chunk [b0, b1, b2] @ s) = map_option (\<lambda>bs. b0 # b1 # b2 # bs) (base64_decode s)"
  "base64_decode (encode_chunk [b0, b1]) = Some [b0, b1]"
  "base64_decode (encode_chunk [b0]) = Some [b0]"
  by (simp_all add: encode_chunk_sextets Let_def sextets_join [unfolded One_nat_def])

lemma base64_roundtrip: "base64_decode (base64_encode bs) = Some bs"
proof (induction bs rule: base64_encode.induct)
  case (2 b bs)
  show ?case
  proof (cases bs)
    case Nil
    then show ?thesis by (simp add: decode_chunk)
  next
    case (Cons c cs)
    then show ?thesis using 2 by (cases cs) (simp_all add: decode_chunk numeral_3_eq_3)
  qed
qed simp

section \<open>The report of a run\<close>

text \<open>The steps an event ends, as the report lists them.\<close>

fun tracked :: "Event \<Rightarrow> TrackedStep list" where
  "tracked (StepCompleted n t ms ts ti to c sb out sc g sid) =
    [\<lparr>tk_name = n, tk_type = t, tk_status = ''success'', tk_duration = Some ms, tk_in = ti, tk_out = to, tk_sandboxed = sb, tk_error = None\<rparr>]"
| "tracked (StepFailed n t e ms ts sb) =
    [\<lparr>tk_name = n, tk_type = t, tk_status = ''failed'', tk_duration = Some ms, tk_in = None, tk_out = None, tk_sandboxed = sb,
      tk_error = Some e\<rparr>]"
| "tracked _ = []"

fun is_step_failed :: "Event \<Rightarrow> bool" where
  "is_step_failed (StepFailed n t e ms ts sb) = True"
| "is_step_failed _ = False"

fun ends_run :: "Event \<Rightarrow> bool" where
  "ends_run (WorkflowCompleted ms ts) = True"
| "ends_run _ = False"

lemma failed_tracked: "list_ex (\<lambda>s. tk_status s = ''failed'') (concat (map tracked evs)) = list_ex is_step_failed evs"
proof (induction evs)
  case (Cons ev evs)
  then show ?case by (cases ev) auto
qed simp

lemma on_events_append: "on_events checks rfc read D (xs @ ys) st =
    (case on_events checks rfc read D xs st of
       None \<Rightarrow> None
     | Some (st', ps) \<Rightarrow> map_option (\<lambda>(st'', qs). (st'', ps @ qs)) (on_events checks rfc read D ys st'))"
  by (induction xs arbitrary: st) (auto simp: map_option_case split: option.splits)

lemma on_events_before: "list_all (\<lambda>ev. \<not> ends_run ev) evs \<Longrightarrow>
    \<exists>st'. on_events checks rfc read D evs st = Some (st', []) \<and> ds_steps st' = ds_steps st @ concat (map tracked evs)"
proof (induction evs arbitrary: st)
  case (Cons ev evs)
  then have "\<exists>st1. on_event checks rfc read D ev st = Some (st1, []) \<and> ds_steps st1 = ds_steps st @ tracked ev" by (cases ev) auto
  then obtain st1 where st1: "on_event checks rfc read D ev st = Some (st1, [])" "ds_steps st1 = ds_steps st @ tracked ev" by blast
  from Cons obtain st' where "on_events checks rfc read D evs st1 = Some (st', [])" "ds_steps st' = ds_steps st1 @ concat (map tracked evs)"
    by fastforce
  then show ?case using st1 by simp
qed simp

lemma blocks_before: "blocks ss evs \<Longrightarrow> list_all (\<lambda>ev. \<not> ends_run ev) evs"
  by (fastforce simp: blocks_def step_block_def Let_def list_all_iff)

lemma completed_event: "on_event checks rfc read D (WorkflowCompleted ms ts) st =
    (if checks \<and> 2 ^ 64 \<le> total_tokens (ds_steps st) then None
     else map_option (\<lambda>p. (st, HttpPost (sb_url D) (post_headers (sb_secret D)) p #
       List.map_filter (artifact_post read D) (sb_artifacts D))) (build_payload checks rfc D st ms ts))"
  by (simp add: build_payload_def)

lemma started_kept: "list_all (\<lambda>ev. \<forall>t. ev \<noteq> WorkflowStarted t) evs \<Longrightarrow> on_events checks rfc read D evs st = Some (st', ps) \<Longrightarrow>
    ds_started st' = ds_started st"
proof (induction evs arbitrary: st ps)
  case (Cons ev evs)
  then obtain st1 qs where e: "on_event checks rfc read D ev st = Some (st1, qs)"
      "\<exists>rs. on_events checks rfc read D evs st1 = Some (st', rs)"
    by (auto split: option.splits)
  then have "ds_started st1 = ds_started st" using Cons.prems(1) by (cases ev) auto
  then show ?case using Cons e by auto
qed simp

lemma blocks_middle: "blocks ss evs \<Longrightarrow> list_all (\<lambda>ev. \<forall>t. ev \<noteq> WorkflowStarted t) evs"
  by (fastforce simp: blocks_def step_block_def Let_def list_all_iff)

lemma payload_fields:
  assumes "build_payload checks rfc D st ms ts = Some p"
  shows "jget p ''steps'' = Some (JArr (map tracked_json (ds_steps st)))"
    "jget p ''status'' = Some (JStr (if list_ex (\<lambda>s. tk_status s = ''failed'') (ds_steps st) then ''failed'' else ''success''))"
    "jget p ''total_tokens'' = Some (json_u (total_tokens (ds_steps st) mod 2 ^ 64))"
    "jget p ''run_id'' = Some (JStr (sb_run_id D))" "jget p ''workflow'' = Some (JStr (sb_workflow D))"
    "jget p ''user_name'' = Some (JStr (sb_user D))" "jget p ''duration_ms'' = Some (json_u ms)"
    "jget p ''started_at'' = Some (or_null (\<lambda>t. JStr (rfc t)) (ds_started st))" "jget p ''finished_at'' = Some (JStr (rfc ts))"
  using assms by (auto simp: build_payload_def Let_def split: if_splits)

definition reports :: "(timestamp \<Rightarrow> string) \<Rightarrow> DashboardSubscriber \<Rightarrow> Event list \<Rightarrow> json \<Rightarrow> bool" where
  "reports rfc D evs p \<longleftrightarrow>
    jget p ''run_id'' = Some (JStr (sb_run_id D)) \<and> jget p ''workflow'' = Some (JStr (sb_workflow D)) \<and>
    jget p ''user_name'' = Some (JStr (sb_user D)) \<and>
    jget p ''steps'' = Some (JArr (map tracked_json (concat (map tracked evs)))) \<and>
    jget p ''status'' = Some (JStr (if list_ex is_step_failed evs then ''failed'' else ''success'')) \<and>
    jget p ''total_tokens'' = Some (json_u (total_tokens (concat (map tracked evs)) mod 2 ^ 64)) \<and>
    (\<exists>t mid ms t'. evs = WorkflowStarted t # mid @ [WorkflowCompleted ms t'] \<and> jget p ''duration_ms'' = Some (json_u ms) \<and>
      jget p ''started_at'' = Some (JStr (rfc t)) \<and> jget p ''finished_at'' = Some (JStr (rfc t')))"

lemma closed_before:
  assumes "blocks ss mid"
  obtains st where "on_events checks rfc read D (WorkflowStarted t # mid) new_dashboard = Some (st, [])"
    and "ds_steps st = concat (map tracked mid)" and "ds_started st = Some t"
proof -
  have "list_all (\<lambda>ev. \<not> ends_run ev) (WorkflowStarted t # mid)" using blocks_before [OF assms] by simp
  then obtain st where st: "on_events checks rfc read D (WorkflowStarted t # mid) new_dashboard = Some (st, [])"
      "ds_steps st = ds_steps new_dashboard @ concat (map tracked (WorkflowStarted t # mid))"
    using on_events_before by blast
  have "on_events checks rfc read D mid (new_dashboard\<lparr>ds_started := Some t\<rparr>) = Some (st, [])"
    using st(1) by (auto split: option.splits)
  from started_kept [OF blocks_middle [OF assms] this] show thesis using that [OF st(1)] st(2) by (simp add: new_dashboard_def)
qed

lemma closed_report:
  assumes "closed_run ss evs" and "\<not> (checks \<and> 2 ^ 64 \<le> total_tokens (concat (map tracked evs)))"
  shows "\<exists>st p. on_events checks rfc read D evs new_dashboard =
      Some (st, HttpPost (sb_url D) (post_headers (sb_secret D)) p # List.map_filter (artifact_post read D) (sb_artifacts D)) \<and>
    reports rfc D evs p"
proof -
  obtain t mid ms t' where evs: "evs = (WorkflowStarted t # mid) @ [WorkflowCompleted ms t']" and b: "blocks ss mid"
    using assms(1) by (auto simp: closed_run_def)
  obtain st where st: "on_events checks rfc read D (WorkflowStarted t # mid) new_dashboard = Some (st, [])"
      "ds_steps st = concat (map tracked mid)" "ds_started st = Some t"
    by (rule closed_before [OF b])
  then have steps: "ds_steps st = concat (map tracked evs)" by (simp add: evs)
  then obtain p where p: "build_payload checks rfc D st ms t' = Some p" using assms(2) by (auto simp: build_payload_def Let_def)
  have "on_events checks rfc read D evs new_dashboard =
      Some (st, HttpPost (sb_url D) (post_headers (sb_secret D)) p # List.map_filter (artifact_post read D) (sb_artifacts D))"
    unfolding evs on_events_append st(1) by (simp add: p)
  moreover have "reports rfc D evs p"
    using payload_fields [OF p] unfolding reports_def steps failed_tracked st(3) by (auto simp: evs or_null_def)
  ultimately show ?thesis by blast
qed

lemma overflowing_report:
  assumes "closed_run ss evs" and "checks" and "2 ^ 64 \<le> total_tokens (concat (map tracked evs))"
  shows "on_events checks rfc read D evs new_dashboard = None"
proof -
  obtain t mid ms t' where evs: "evs = (WorkflowStarted t # mid) @ [WorkflowCompleted ms t']" and b: "blocks ss mid"
    using assms(1) by (auto simp: closed_run_def)
  obtain st where st: "on_events checks rfc read D (WorkflowStarted t # mid) new_dashboard = Some (st, [])"
      "ds_steps st = concat (map tracked mid)"
    by (rule closed_before [OF b])
  then have "build_payload checks rfc D st ms t' = None" using assms(2,3) by (simp add: build_payload_def evs)
  then show ?thesis unfolding evs on_events_append st(1) by simp
qed

text \<open>
  The address of the artifacts: that of the events without the slashes at its end, and without \<open>/events\<close> if
  it then ends with that, and below it the artifacts of the run.
\<close>

definition base_of :: "string \<Rightarrow> string \<Rightarrow> bool" where
  "base_of url base \<longleftrightarrow>
    (\<exists>t. without_slashes url t \<and> (t = base @ ''/events'' \<or> t = base \<and> (\<nexists>b. t = b @ ''/events'')))"

lemma ends_with_iff: "ends_with s p \<longleftrightarrow> (\<exists>x. s = x @ p)"
  by (metis append_take_drop_id ends_with_def rev_append rev_rev_ident starts_with_append starts_withD)

lemma artifacts_base: "\<exists>base. base_of url base \<and> dashboard_artifacts_url url run = base @ ''/workflows/'' @ run @ ''/artifacts''"
proof (cases "ends_with (trim_end_slashes url) ''/events''")
  case True
  then obtain b where b: "trim_end_slashes url = b @ ''/events''" by (auto simp: ends_with_iff)
  then show ?thesis using True trimmed_slashes [of url] unfolding base_of_def dashboard_artifacts_url_def Let_def by auto
next
  case False
  then have "\<nexists>b. trim_end_slashes url = b @ ''/events''" by (auto simp: ends_with_iff)
  then show ?thesis using False trimmed_slashes [of url] unfolding base_of_def dashboard_artifacts_url_def Let_def by auto
qed

text \<open>
  The request of an artifact: its name, and a text from which the bytes of its file are read back. One is due for
  each path of the list that has a name and can be read.
\<close>

definition due :: "(string \<Rightarrow> 8 word list option) \<Rightarrow> string \<Rightarrow> bool" where
  "due read path \<longleftrightarrow> path_file_name path \<noteq> None \<and> read path \<noteq> None"

definition carries :: "DashboardSubscriber \<Rightarrow> (string \<Rightarrow> 8 word list option) \<Rightarrow> string \<Rightarrow> HttpPost \<Rightarrow> bool" where
  "carries D read path q \<longleftrightarrow> (\<exists>base name bytes text. base_of (sb_url D) base \<and>
    path_file_name path = Some name \<and> read path = Some bytes \<and> base64_decode text = Some bytes \<and>
    q = HttpPost (base @ ''/workflows/'' @ sb_run_id D @ ''/artifacts'')
      ((''Content-Type'', ''application/json'') #
        (case sb_secret D of Some t \<Rightarrow> [(''Authorization'', ''Bearer '' @ t)] | None \<Rightarrow> []))
      (JObj [(''name'', JStr name), (''content_base64'', JStr text), (''content_type'', JStr ''application/octet-stream'')]))"

lemma artifact_carried:
  "if due read path then \<exists>q. artifact_post read D path = Some q \<and> carries D read path q else artifact_post read D path = None"
proof -
  obtain base where base: "base_of (sb_url D) base"
      "dashboard_artifacts_url (sb_url D) (sb_run_id D) = base @ ''/workflows/'' @ sb_run_id D @ ''/artifacts''"
    using artifacts_base by blast
  show ?thesis
  proof (cases "path_file_name path")
    case None
    then show ?thesis by (simp add: due_def artifact_post_def)
  next
    case name: (Some name)
    show ?thesis
    proof (cases "read path")
      case None
      then show ?thesis using name by (simp add: due_def artifact_post_def)
    next
      case (Some bytes)
      then show ?thesis using name base base64_roundtrip [of bytes]
        by (auto simp: due_def artifact_post_def carries_def post_headers_def)
    qed
  qed
qed

lemma artifacts_carried: "list_all2 (carries D read) (filter (due read) paths) (List.map_filter (artifact_post read D) paths)"
proof (induction paths)
  case (Cons path paths)
  then show ?case using artifact_carried [of read path D] by (auto simp: List.map_filter_simps split: if_splits)
qed (simp add: List.map_filter_simps)

section \<open>A run that fails at a gate\<close>

text \<open>A workflow of one gate that is shut, on the host of \<open>V1Demo\<close>, without a sandbox and without a session.\<close>

definition gate_demo :: StepDef where
  "gate_demo = StepDef ((empty_fields ''check'' StGate)\<lparr>f_condition := Some ''false'', f_on_fail := Some ''fail''\<rparr>) None"

definition gate_engine :: Engine1 where
  "gate_engine = (demo1_engine None)\<lparr>n_def := (empty_def ''w'')\<lparr>d_steps := [gate_demo]\<rparr>, n_mode := Disabled\<rparr>"

definition gate_world :: World1 where "gate_world = demo1_world\<lparr>z_session := None\<rparr>"

text \<open>Its step delivers that it started and nothing else, and the run ends with an error.\<close>

lemma not_truthy: "\<not> truthy ''false''" by code_simp

lemma plain_false: "plain_text ''false''" by (simp add: plain_text_def) code_simp

lemma gate_shut: "\<exists>r'. gate_execute demo1_host gate_demo c r = Some (Inl (Flow (FlowFail ''gate failed'')), r')"
  using plain_preprocess [OF plain_false] not_truthy
  by (simp add: gate_execute_def vbind_def vlift_def required_def ok_or_def gate_demo_def empty_fields_def vrender_def vshared_def vask_def
    demo1_host_def render_in_def preprocess_template_def gate_action_def or_else_def)

lemma gate_fields: "field gate_demo f_type = StGate" "field gate_demo f_name = ''check''" "field gate_demo f_async_exec = None"
  "x_host (n_exec gate_engine) = demo1_host" "n_mode gate_engine = Disabled" "n_resume gate_engine = None"
  "d_steps (n_def gate_engine) = [gate_demo]"
  by (simp_all add: gate_demo_def gate_engine_def demo1_engine_def demo1_exec_def empty_fields_def empty_def_def)

lemma step_shut: "\<exists>r'. run_step gate_engine gate_demo cfg b w = Some (Inl (Flow (FlowFail ''gate failed'')), w\<lparr>z_run := r'\<rparr>)"
proof -
  obtain r' where "gate_execute demo1_host gate_demo (z_ctx w) (z_run w) = Some (Inl (Flow (FlowFail ''gate failed'')), r')"
    using gate_shut by blast
  then show ?thesis by (intro exI [of _ r']) (simp add: run_step_def Let_def gate_fields zrun_def)
qed

lemma emit_alone: "z_session w = None \<Longrightarrow>
    emit_event E f w = Some (Inr (), w\<lparr>z_tick := z_tick w + 1, z_bus := z_bus w @ [f (n_now E (z_tick w))]\<rparr>)"
  by (simp add: emit_event_def vbind_def zask_def split: prod.split)

lemma execute_shut:
  assumes "z_session w = None"
  shows "\<exists>w' t. execute_step gate_engine gate_demo w = Some (Inl (Flow (FlowFail ''gate failed'')), w') \<and>
    z_bus w' = z_bus w @ [StepStarted ''check'' ''gate'' t None] \<and> z_session w' = None \<and> z_pending w' = z_pending w"
proof -
  let ?w1 = "w\<lparr>z_tick := z_tick w + 1, z_bus := z_bus w @ [StepStarted ''check'' ''gate'' (n_now gate_engine (z_tick w)) None]\<rparr>"
  have e: "emit_event gate_engine (\<lambda>ts. StepStarted ''check'' ''gate'' ts None) w = Some (Inr (), ?w1)"
    using emit_alone [OF assms] by blast
  obtain r' where r: "run_step gate_engine gate_demo (step_config gate_engine gate_demo) False ?w1 =
      Some (Inl (Flow (FlowFail ''gate failed'')), ?w1\<lparr>z_run := r'\<rparr>)" using step_shut by blast
  show ?thesis
    unfolding execute_step_def Let_def gate_fields
    using e r assms
    by (simp add: vbind_def zmap_err_def vtry_def zask_def should_sandbox_step_def note_result_def emit_result_def res_bind_def vret_def vlift_def gate_fields)
qed

lemma no_deps: "z_pending w = [] \<Longrightarrow> await_pending_deps E s w = Some (Inr (), w)"
proof -
  assume "z_pending w = []"
  moreover have "pending_deps W [] s = []" for W
  proof -
    have "foldl (\<lambda>ds n. if map_of ([] :: (string \<times> AsyncTask) list) n \<noteq> None \<and> n \<notin> set ds then ds @ [n] else ds) [] xs = []" for xs :: "string list"
      by (induction xs) auto
    then show ?thesis unfolding pending_deps_def Let_def by blast
  qed
  ultimately show ?thesis by (simp add: await_pending_deps_def vbind_def zget_def vret_def)
qed

lemma drain_none: "z_pending w = [] \<Longrightarrow> drain_pending E w = Some (Inr (), w\<lparr>z_pending := []\<rparr>)"
  by (simp add: drain_pending_def vbind_def zget_def zmod_def vret_def)

lemma gate_run: "\<exists>w' t1 t2 t3 ms. run_engine gate_engine gate_world = Some (Inl (''Step '' @ Prompts.quoted ''check'' @ '' failed: gate failed''), w') \<and>
    z_bus w' = [WorkflowStarted t1, StepStarted ''check'' ''gate'' t2 None, WorkflowCompleted ms t3]"
proof -
  let ?E = gate_engine
  have w: "z_session gate_world = None" "z_pending gate_world = []" "z_bus gate_world = []" by (simp_all add: gate_world_def demo1_world_def)
  let ?w1 = "gate_world\<lparr>z_tick := z_tick gate_world + 1\<rparr>" and ?now = "n_now ?E (z_tick gate_world)"
  have st: "start_run ?E gate_world = Some (Inr (None, ?now), ?w1)"
    by (simp add: start_run_def vbind_def vlift_def load_resume_def gate_fields zask_def vret_def)
  obtain w2 t1 where em: "emit_event ?E WorkflowStarted ?w1 = Some (Inr (), w2)" "z_bus w2 = [WorkflowStarted t1]"
      "z_session w2 = None" "z_pending w2 = []"
    using emit_alone [of ?w1 ?E WorkflowStarted] w by auto
  obtain w3 t2 where ex: "execute_step ?E gate_demo w2 = Some (Inl (Flow (FlowFail ''gate failed'')), w3)"
      "z_bus w3 = [WorkflowStarted t1, StepStarted ''check'' ''gate'' t2 None]" "z_session w3 = None" "z_pending w3 = []"
    using execute_shut [OF em(3)] em by auto
  let ?m = "''Step '' @ Prompts.quoted ''check'' @ '' failed: gate failed''"
  have rs: "run_steps ?E None [gate_demo] False OEmpty x w2 = Some (Inr \<lparr>pg_result = Inl ?m, pg_last = OEmpty, pg_state = x\<rparr>, w3)" for x
    using no_deps [OF em(4)] ex(1) by (simp add: Let_def gate_fields vbind_def vtry_def vret_def)
  let ?p = "\<lparr>pg_result = Inl ?m, pg_last = OEmpty, pg_state = new_state (d_name (n_def ?E)) ?now\<rparr>"
  have lp: "loop_run ?E None ?now ?w1 = Some (Inr ?p, w3\<lparr>z_pending := []\<rparr>)"
    using em(1) rs by (simp add: drain_none [OF ex(4)] loop_run_def vbind_def gate_fields vret_def del: run_steps.simps)
  let ?w4 = "w3\<lparr>z_pending := [], z_tick := z_tick w3 + 1\<rparr>"
  obtain w5 t3 where en: "emit_event ?E (WorkflowCompleted 0) ?w4 = Some (Inr (), w5)"
      "z_bus w5 = z_bus w3 @ [WorkflowCompleted 0 t3]" "z_session w5 = None"
    using emit_alone [of ?w4 ?E "WorkflowCompleted 0"] ex by auto
  have ms: "n_ms ?E k = 0" for k by (simp add: gate_engine_def demo1_engine_def)
  have "\<exists>w6. end_run ?E ?p (w3\<lparr>z_pending := []\<rparr>) = Some (Inl ?m, w6) \<and> z_bus w6 = z_bus w5"
    using en by (simp add: end_run_def vbind_def gate_fields vtry_def vret_def zask_def ms V1Engine.finish_session_def zmod_def vlift_def split: prod.split)
  then show ?thesis unfolding run_engine_def using st lp en(2) ex(2) by (auto simp: vbind_def)
qed


lemma gate_run_closed:
  assumes "z_bus w' = [WorkflowStarted t1, StepStarted ''check'' ''gate'' t2 None, WorkflowCompleted ms t3]"
  shows "closed_run [gate_demo] (z_bus w')"
proof -
  have "step_block [gate_demo] [StepStarted ''check'' ''gate'' t2 None]"
    by (auto simp: step_block_def Let_def gate_fields)
  then have "blocks [gate_demo] [StepStarted ''check'' ''gate'' t2 None]"
    unfolding blocks_def by (intro exI [of _ "[[StepStarted ''check'' ''gate'' t2 None]]"]) simp
  then show ?thesis unfolding closed_run_def assms by (intro exI [of _ t1] exI [of _ "[StepStarted ''check'' ''gate'' t2 None]"]) auto
qed

section \<open>The property\<close>

text \<open>
  C38: what the dashboard is told of a run. A run that was announced to its end is reported in one request,
  with its names and instants, the steps that completed or failed, in the order they were delivered, their
  tokens, modulo the 64 bits of the counter (a build that checks for overflow panics instead), and as its status a failure exactly when
  a failure of a step was delivered. Behind it comes one request for every artifact of the list that has a name and can
  be read, in order: to the address of the run's artifacts, with the secret, the name, and a text from which the bytes of the file are read
  back. The status told is not the one of the run: a workflow of one gate that is shut ends with the error of that gate
  and is reported as a success, to whatever dashboard.
\<close>

theorem dashboard_report:
  assumes "closed_run ss evs"
  shows "(if checks \<and> 2 ^ 64 \<le> total_tokens (concat (map tracked evs)) then on_events checks rfc read D evs new_dashboard = None
      else \<exists>st p arts. on_events checks rfc read D evs new_dashboard =
          Some (st, HttpPost (sb_url D)
            ((''Content-Type'', ''application/json'') #
              (case sb_secret D of Some t \<Rightarrow> [(''Authorization'', ''Bearer '' @ t)] | None \<Rightarrow> [])) p # arts) \<and>
        reports rfc D evs p \<and> list_all2 (carries D read) (filter (due read) (sb_artifacts D)) arts) \<and>
    (\<exists>E g w w' st p arts. d_steps (n_def E) = [g] \<and> field g f_type = StGate \<and> z_bus w = [] \<and>
      run_engine E w = Some (Inl (''Step '' @ Prompts.quoted (field g f_name) @ '' failed: gate failed''), w') \<and>
      closed_run [g] (z_bus w') \<and>
      on_events checks rfc read D (z_bus w') new_dashboard = Some (st, HttpPost (sb_url D) (post_headers (sb_secret D)) p # arts) \<and>
      jget p ''status'' = Some (JStr ''success''))"
proof
  show "if checks \<and> 2 ^ 64 \<le> total_tokens (concat (map tracked evs)) then on_events checks rfc read D evs new_dashboard = None
      else \<exists>st p arts. on_events checks rfc read D evs new_dashboard =
          Some (st, HttpPost (sb_url D)
            ((''Content-Type'', ''application/json'') #
              (case sb_secret D of Some t \<Rightarrow> [(''Authorization'', ''Bearer '' @ t)] | None \<Rightarrow> [])) p # arts) \<and>
        reports rfc D evs p \<and> list_all2 (carries D read) (filter (due read) (sb_artifacts D)) arts"
    using closed_report [OF assms, of checks rfc read D] overflowing_report [OF assms, of checks rfc read D]
      artifacts_carried [of D read "sb_artifacts D"] unfolding post_headers_def by auto
  obtain w' t1 t2 t3 ms where run: "run_engine gate_engine gate_world =
        Some (Inl (''Step '' @ Prompts.quoted ''check'' @ '' failed: gate failed''), w')"
      and bus: "z_bus w' = [WorkflowStarted t1, StepStarted ''check'' ''gate'' t2 None, WorkflowCompleted ms t3]"
    using gate_run by blast
  note c = gate_run_closed [OF bus]
  have few: "\<not> (checks \<and> 2 ^ 64 \<le> total_tokens (concat (map tracked (z_bus w'))))" by (simp add: bus total_tokens_def)
  obtain st p where "on_events checks rfc read D (z_bus w') new_dashboard =
      Some (st, HttpPost (sb_url D) (post_headers (sb_secret D)) p # List.map_filter (artifact_post read D) (sb_artifacts D))"
      "jget p ''status'' = Some (JStr ''success'')"
    using closed_report [OF c few, of rfc read D] by (auto simp: reports_def bus simp del: on_events.simps)
  moreover have "z_bus gate_world = []" by (simp add: gate_world_def demo1_world_def)
  moreover have "run_engine gate_engine gate_world =
      Some (Inl (''Step '' @ Prompts.quoted (field gate_demo f_name) @ '' failed: gate failed''), w')"
    unfolding gate_fields by (rule run)
  ultimately show "\<exists>E g w w' st p arts. d_steps (n_def E) = [g] \<and> field g f_type = StGate \<and> z_bus w = [] \<and>
      run_engine E w = Some (Inl (''Step '' @ Prompts.quoted (field g f_name) @ '' failed: gate failed''), w') \<and>
      closed_run [g] (z_bus w') \<and>
      on_events checks rfc read D (z_bus w') new_dashboard = Some (st, HttpPost (sb_url D) (post_headers (sb_secret D)) p # arts) \<and>
      jget p ''status'' = Some (JStr ''success'')"
    using c gate_fields(1,7) by blast
qed

text \<open>A run with a failure, by a dashboard with an artifact that can be read.\<close>

definition dashboard_demo :: DashboardSubscriber where
  "dashboard_demo = \<lparr>sb_url = ''http://d/api/events'', sb_secret = None, sb_run_id = ''r'', sb_workflow = ''w'',
      sb_target = [], sb_repo = None, sb_user = ''u'', sb_log_path = None, sb_artifacts = [''a'']\<rparr>"

theorem dashboard_report_witness:
  "\<exists>st p q. on_events True id (\<lambda>p. Some [1, 2]) dashboard_demo
     [WorkflowStarted ''t'', StepStarted ''check'' ''gate'' ''t'' None, StepFailed ''check'' ''gate'' ''e'' 1 ''t'' False, WorkflowCompleted 2 ''t'']
     new_dashboard = Some (st, [HttpPost ''http://d/api/events'' [(''Content-Type'', ''application/json'')] p, q]) \<and>
     jget p ''status'' = Some (JStr ''failed'') \<and> carries dashboard_demo (\<lambda>p. Some [1, 2]) ''a'' q"
proof -
  let ?b = "[StepStarted ''check'' ''gate'' ''t'' None, StepFailed ''check'' ''gate'' ''e'' 1 ''t'' False]"
  let ?evs = "WorkflowStarted ''t'' # ?b @ [WorkflowCompleted 2 ''t'']" and ?read = "\<lambda>p. Some [1, 2] :: 8 word list option"
  have "step_block [gate_demo] ?b" by (auto simp: step_block_def Let_def gate_fields)
  then have "blocks [gate_demo] ?b" unfolding blocks_def by (intro exI [of _ "[?b]"]) simp
  then have c: "closed_run [gate_demo] ?evs" unfolding closed_run_def by blast
  have few: "\<not> 2 ^ 64 \<le> total_tokens (concat (map tracked ?evs))" by (simp add: total_tokens_def or_else_def)
  have "path_file_name ''a'' = Some ''a''" by (simp add: path_file_name_def components_def)
  then have due: "filter (due ?read) (sb_artifacts dashboard_demo) = [''a'']" by (simp add: due_def dashboard_demo_def)
  obtain st p arts where r: "on_events True id ?read dashboard_demo ?evs new_dashboard =
        Some (st, HttpPost ''http://d/api/events'' [(''Content-Type'', ''application/json'')] p # arts)"
      "reports id dashboard_demo ?evs p" "list_all2 (carries dashboard_demo ?read) [''a''] arts"
    using dashboard_report [OF c, of True id ?read dashboard_demo, THEN conjunct1] few unfolding due
    by (auto simp: dashboard_demo_def simp del: on_events.simps)
  then obtain q where "arts = [q]" "carries dashboard_demo ?read ''a'' q" by (auto simp: list_all2_Cons1)
  moreover have "jget p ''status'' = Some (JStr ''failed'')" using r(2) by (simp add: reports_def)
  ultimately show ?thesis using r(1) by auto
qed

end
