(* ===== verification/Slack.thy ===== *)
theory Slack
  imports DockerBox Render Numbers Utf8
begin

text \<open>
  The Slack bot, \<open>src/slack/mod.rs\<close>: its configuration, the signature of a request, the command a message asks for, and
  the process that is started for it with the messages around it. The regular expressions, the lower case of Unicode, the
  keyed hash, the JSON and TOML readers and the world are answers of a host.
\<close>

section \<open>Messages and matches\<close>

record SlackMessage =
  sm_channel :: string
  sm_text :: string
  sm_thread :: "string option"

record SlackEvent =
  se_type :: string
  se_text :: "string option"
  se_channel :: "string option"
  se_ts :: "string option"
  se_user :: "string option"
  se_bot :: "string option"

datatype SlackRequest = UrlVerification string | EventCallback SlackEvent

record WorkflowMatch =
  wm_workflow :: string
  wm_target :: string
  wm_description :: string
  wm_repo :: "string option"

record GitHubRef =
  gh_repo :: "string option"
  gh_number :: string

text \<open>
  The expressions of the source, in its order: \<open>PrUrl\<close> is \<open>https?://github\.com/([^/]+/[^/]+)/(?:pull|issues)/(\d+)\<close>,
  \<open>RepoUrl\<close> is \<open>https?://github\.com/([^/]+/[^/\s]+)\<close>, \<open>BotMention\<close> is \<open><@[A-Z0-9]+>\<close>,
  \<open>SlackUrl\<close> is \<open><(https?://[^>|]+)(?:\|[^>]*)?>\<close>, and the commands are \<open>fix\s+issue\s+[#]?(\S+)\<close>,
  \<open>review\s+(?:pr|pull\s*request)\s+[#]?(\S+)\<close>, \<open>security\s+audit\s+(\S+)\<close>, \<open>generate\s+docs?\s+(\S+)\<close> and
  \<open>fix\s+ci\s+(\S+)\<close>. A match is the list of its groups.
\<close>

datatype Pattern = PrUrl | RepoUrl | BotMention | SlackUrl | FixIssue | ReviewPr | SecurityAudit | GenerateDocs | FixCi

record SlackHost =
  sk_captures :: "Pattern \<Rightarrow> string \<Rightarrow> string list option"
  sk_replace_all :: "Pattern \<Rightarrow> string \<Rightarrow> string \<Rightarrow> string"
  sk_lowercase :: "string \<Rightarrow> string"
  sk_hex_hmac :: "string \<Rightarrow> string \<Rightarrow> string"
  sk_json :: "string \<Rightarrow> json option"
  sk_toml :: "string \<Rightarrow> json option"
  sk_env :: "string \<Rightarrow> string option"
  sk_home :: "string option"
  sk_exists :: "string \<Rightarrow> bool"
  sk_is_dir :: "string \<Rightarrow> bool"
  sk_read :: "string \<Rightarrow> string option"
  sk_mkdirs :: "string \<Rightarrow> bool"
  sk_write :: "string \<Rightarrow> bool"
  sk_embedded :: "string \<Rightarrow> string"
  sk_run :: "string list \<Rightarrow> string \<Rightarrow> (string, ProcOut) result"

section \<open>Routing\<close>

definition extract_github_info :: "SlackHost \<Rightarrow> string \<Rightarrow> GitHubRef option" where
  "extract_github_info H input =
    (case sk_captures H PrUrl input of
       Some gs \<Rightarrow> (case gs of a # b # _ \<Rightarrow> Some \<lparr>gh_repo = Some a, gh_number = b\<rparr> | _ \<Rightarrow> None)
     | None \<Rightarrow>
       (case sk_captures H RepoUrl input of
          Some gs \<Rightarrow> (case gs of a # _ \<Rightarrow> Some \<lparr>gh_repo = Some a, gh_number = []\<rparr> | [] \<Rightarrow> None)
        | None \<Rightarrow> Some \<lparr>gh_repo = None, gh_number = input\<rparr>))"

text \<open>The commands in the order they are tried, and whether an empty target is the current directory.\<close>

definition commands :: "(Pattern \<times> string \<times> string \<times> bool) list" where
  "commands =
    [(FixIssue, ''fix-issue.yaml'', ''Fix GitHub issue'', False),
     (ReviewPr, ''code-review.yaml'', ''Code review'', False),
     (SecurityAudit, ''security-audit.yaml'', ''Security audit'', True),
     (GenerateDocs, ''generate-docs.yaml'', ''Generate documentation'', True),
     (FixCi, ''fix-ci.yaml'', ''Fix CI failures'', False)]"

definition match_of :: "string \<Rightarrow> string \<Rightarrow> bool \<Rightarrow> GitHubRef \<Rightarrow> WorkflowMatch" where
  "match_of file desc here info =
    \<lparr>wm_workflow = file, wm_target = (if here \<and> gh_number info = [] then ''.'' else gh_number info),
     wm_description = desc, wm_repo = gh_repo info\<rparr>"

text \<open>The outer \<open>None\<close> is a group that a match does not have, which panics.\<close>

fun try_commands :: "SlackHost \<Rightarrow> string \<Rightarrow> (Pattern \<times> string \<times> string \<times> bool) list \<Rightarrow> WorkflowMatch option option" where
  "try_commands H clean [] = Some None"
| "try_commands H clean ((p, file, desc, here) # cs) =
    (case sk_captures H p clean of
       None \<Rightarrow> try_commands H clean cs
     | Some [] \<Rightarrow> None
     | Some (g # _) \<Rightarrow> map_option (\<lambda>info. Some (match_of file desc here info)) (extract_github_info H g))"

definition clean_message :: "SlackHost \<Rightarrow> string \<Rightarrow> string" where
  "clean_message H text0 =
    sk_replace_all H SlackUrl ''$1'' (trim (sk_replace_all H BotMention [] (sk_lowercase H text0)))"

definition route_message :: "SlackHost \<Rightarrow> string \<Rightarrow> WorkflowMatch option option" where
  "route_message H text0 = try_commands H (clean_message H text0) commands"

section \<open>The signature\<close>

text \<open>The headers of a request, by lower-case name; \<open>to_str\<close> takes visible ASCII, blanks and tabs.\<close>

type_synonym headers = "string \<Rightarrow> string option"

definition header_str :: "string \<Rightarrow> string" where
  "header_str v = (if list_all (\<lambda>c. 32 \<le> byte_of c \<and> byte_of c < 127 \<or> byte_of c = 9) v then v else [])"

definition abs_diff :: "nat \<Rightarrow> nat \<Rightarrow> nat" where
  "abs_diff a b = (if a < b then b - a else a - b)"

definition verify_slack_signature :: "SlackHost \<Rightarrow> nat \<Rightarrow> string \<Rightarrow> headers \<Rightarrow> string \<Rightarrow> bool" where
  "verify_slack_signature H now secret hs body =
    (case hs ''x-slack-request-timestamp'' of
       None \<Rightarrow> False
     | Some t \<Rightarrow>
       (case hs ''x-slack-signature'' of
          None \<Rightarrow> False
        | Some s \<Rightarrow>
          (let timestamp = header_str t; signature = header_str s;
               stale = (case parse_u64 timestamp of Some ts \<Rightarrow> 300 < abs_diff now ts | None \<Rightarrow> False) in
           if stale then False
           else signature = ''v0='' @ sk_hex_hmac H secret (''v0:'' @ timestamp @ '':'' @ from_utf8_lossy body))))"

section \<open>Running a workflow\<close>

datatype SlackEffect = Posted SlackMessage | Launched "string list" string

record AppState =
  as_token :: string
  as_secret :: string
  as_dir :: string

definition which_stepyard :: "SlackHost \<Rightarrow> string" where
  "which_stepyard H =
    (case sk_env H ''HOME'' of
       Some home \<Rightarrow>
         if sk_exists H (home @ ''/.cargo/bin/stepyard'') then home @ ''/.cargo/bin/stepyard'' else ''stepyard''
     | None \<Rightarrow> ''stepyard'')"

definition workflow_path :: "AppState \<Rightarrow> WorkflowMatch \<Rightarrow> string" where
  "workflow_path st wm = as_dir st @ ''/'' @ wm_workflow wm"

definition cmd_args :: "AppState \<Rightarrow> WorkflowMatch \<Rightarrow> string list" where
  "cmd_args st wm =
    [''execute'', workflow_path st wm, ''--engine'', ''v1''] @
    (case wm_repo wm of Some r \<Rightarrow> [''--repo'', r] | None \<Rightarrow> []) @ [''--'', wm_target wm]"

definition enhanced_path :: "SlackHost \<Rightarrow> string" where
  "enhanced_path H =
    or_else (sk_env H ''HOME'') [] @ ''/.cargo/bin:/usr/local/bin:/opt/homebrew/bin:'' @ or_else (sk_env H ''PATH'') []"

definition newline :: string where "newline = [CHR 0x0A]"

definition fence :: string where "fence = ''```''"

definition start_text :: "AppState \<Rightarrow> WorkflowMatch \<Rightarrow> string" where
  "start_text st wm =
    [CHR 0xF0, CHR 0x9F, CHR 0x9A, CHR 0x80] @ '' Starting *'' @ wm_description wm @ ''* '' @ em_dash @ '' `'' @ wm_workflow wm @ ''`'' @
    newline @ ''Repo: `'' @ or_else (wm_repo wm) ''(local CWD)'' @ ''`'' @ newline @ ''Target: `'' @ wm_target wm @ ''`'' @ newline @
    ''Workflow: `'' @ workflow_path st wm @ ''`''"

text \<open>The end of an output; \<open>None\<close> is the panic of a cut within a character.\<close>

definition tail_of :: "nat \<Rightarrow> string \<Rightarrow> string option" where
  "tail_of n out =
    (if n < length out
     then (if is_char_boundary out (length out - n) then Some (''...'' @ drop (length out - n) out) else None)
     else Some out)"

definition summarise :: "(string, ProcOut) result \<Rightarrow> (string \<times> string) option" where
  "summarise r =
    (case r of
       Inl e \<Rightarrow> Some ([CHR 0xF0, CHR 0x9F, CHR 0x92, CHR 0xA5], ''Failed to spawn stepyard: '' @ e)
     | Inr out \<Rightarrow>
       (case tail_of 1500 (from_utf8_lossy (po_stdout out)) of
          None \<Rightarrow> None
        | Some combined \<Rightarrow>
          if po_success out then
            Some ([CHR 0xE2, CHR 0x9C, CHR 0x85],
              ''Workflow completed successfully!'' @ newline @ fence @ newline @ combined @ newline @ fence)
          else
            map_option (\<lambda>err.
              ([CHR 0xE2, CHR 0x9D, CHR 0x8C],
               ''Workflow failed (exit code '' @ show_int (sint (or_else (po_code out) (- 1))) @ '')'' @ newline @ fence @ newline @
               combined @ newline @ fence @ newline @ ''Stderr:'' @ newline @ fence @ newline @ err @ newline @ fence))
              (tail_of 1000 (from_utf8_lossy (po_stderr out)))))"

text \<open>The task of a run: its effects, and whether it came to its end.\<close>

definition run_workflow :: "SlackHost \<Rightarrow> AppState \<Rightarrow> string \<Rightarrow> string \<Rightarrow> WorkflowMatch \<Rightarrow> SlackEffect list \<times> bool" where
  "run_workflow H st channel ts wm =
    (let begun = Posted \<lparr>sm_channel = channel, sm_text = start_text st wm, sm_thread = Some ts\<rparr>;
         argv = which_stepyard H # cmd_args st wm;
         launch = Launched argv (enhanced_path H) in
     (case summarise (sk_run H argv (enhanced_path H)) of
        None \<Rightarrow> ([begun, launch], False)
      | Some (emoji, summary) \<Rightarrow>
        ([begun, launch,
          Posted \<lparr>sm_channel = channel, sm_text = emoji @ '' *'' @ wm_description wm @ ''* finished'' @ newline @ summary, sm_thread = Some ts\<rparr>],
         True)))"

section \<open>A request\<close>

text \<open>
  The derived reader: a field that is missing or \<open>null\<close> is \<open>None\<close> where it is optional. A body that names a field twice is
  one the JSON reader of the host refuses.
\<close>

definition opt_str :: "json \<Rightarrow> string \<Rightarrow> string option option" where
  "opt_str v k =
    (case jget v k of None \<Rightarrow> Some None | Some JNull \<Rightarrow> Some None | Some (JStr s) \<Rightarrow> Some (Some s) | Some _ \<Rightarrow> None)"

definition slack_event :: "json \<Rightarrow> SlackEvent option" where
  "slack_event v =
    (case (jget_str v ''type'', opt_str v ''text'', opt_str v ''channel'', opt_str v ''ts'', opt_str v ''user'', opt_str v ''bot_id'') of
       (Some ty, Some tx, Some ch, Some ts, Some us, Some bt) \<Rightarrow>
         Some \<lparr>se_type = ty, se_text = tx, se_channel = ch, se_ts = ts, se_user = us, se_bot = bt\<rparr>
     | _ \<Rightarrow> None)"

definition slack_request :: "json \<Rightarrow> SlackRequest option" where
  "slack_request v =
    (case jget_str v ''type'' of
       None \<Rightarrow> None
     | Some ty \<Rightarrow>
       if ty = ''url_verification'' then map_option UrlVerification (jget_str v ''challenge'')
       else if ty = ''event_callback'' then
         (case jget v ''event'' of None \<Rightarrow> None | Some e \<Rightarrow> map_option EventCallback (slack_event e))
       else None)"

datatype SlackReply = Unauthorized | BadRequest | Reply json

definition fine :: SlackReply where "fine = Reply (JObj [(''ok'', JBool True)])"

definition bullet :: "string \<Rightarrow> string" where
  "bullet cmd = [CHR 0xE2, CHR 0x80, CHR 0xA2] @ '' `@stepyard '' @ cmd @ ''`'' @ newline"

definition help_text :: string where
  "help_text =
    [CHR 0xF0, CHR 0x9F, CHR 0xA4, CHR 0x94] @ '' I didn'' @ [CHR 0x27] @ ''t understand that command. Try:'' @ newline @
    bullet ''fix issue https://github.com/owner/repo/issues/10'' @
    bullet ''review pr https://github.com/owner/repo/pull/42'' @
    bullet ''security audit https://github.com/owner/repo'' @
    bullet ''generate docs https://github.com/owner/repo'' @
    bullet ''fix ci https://github.com/owner/repo/pull/8'' @ newline @
    ''You can also use just numbers (e.g. `fix issue #10`) if the bot is running inside the repo.''"

text \<open>The answer, what was posted before it, and the run that is spawned; \<open>None\<close> is a panic of the handler.\<close>

definition handle_event :: "SlackHost \<Rightarrow> SlackEvent \<Rightarrow> (SlackReply \<times> SlackEffect list \<times> (string \<times> string \<times> WorkflowMatch) option) option" where
  "handle_event H ev =
    (if se_bot ev \<noteq> None then Some (fine, [], None)
     else if se_type ev = ''app_mention'' then
       (case (se_text ev, se_channel ev, se_ts ev) of
          (Some tx, Some ch, Some ts) \<Rightarrow>
            (case route_message H tx of
               None \<Rightarrow> None
             | Some (Some wm) \<Rightarrow> Some (fine, [], Some (ch, ts, wm))
             | Some None \<Rightarrow> Some (fine, [Posted \<lparr>sm_channel = ch, sm_text = help_text, sm_thread = Some ts\<rparr>], None))
        | _ \<Rightarrow> Some (fine, [], None))
     else Some (fine, [], None))"

definition slack_events ::
  "SlackHost \<Rightarrow> AppState \<Rightarrow> nat \<Rightarrow> headers \<Rightarrow> string \<Rightarrow>
    (SlackReply \<times> SlackEffect list \<times> (string \<times> string \<times> WorkflowMatch) option) option" where
  "slack_events H st now hs body =
    (if \<not> verify_slack_signature H now (as_secret st) hs body then Some (Unauthorized, [], None)
     else
       (case sk_json H body of
          None \<Rightarrow> Some (BadRequest, [], None)
        | Some v \<Rightarrow>
          (case slack_request v of
             None \<Rightarrow> Some (BadRequest, [], None)
           | Some (UrlVerification c) \<Rightarrow> Some (Reply (JObj [(''challenge'', JStr c)]), [], None)
           | Some (EventCallback ev) \<Rightarrow> handle_event H ev)))"

text \<open>A request with the run it spawns.\<close>

definition slack_serve :: "SlackHost \<Rightarrow> AppState \<Rightarrow> nat \<Rightarrow> headers \<Rightarrow> string \<Rightarrow> SlackReply option \<times> SlackEffect list" where
  "slack_serve H st now hs body =
    (case slack_events H st now hs body of
       None \<Rightarrow> (None, [])
     | Some (r, effs, None) \<Rightarrow> (Some r, effs)
     | Some (r, effs, Some (ch, ts, wm)) \<Rightarrow> (Some r, effs @ fst (run_workflow H st ch ts wm)))"

section \<open>Configuration\<close>

text \<open>\<open>None\<close> is a panic; the effects are the directory and the files made.\<close>

definition EMBEDDED_WORKFLOWS :: "string list" where
  "EMBEDDED_WORKFLOWS =
    [''code-review.yaml'', ''fix-ci.yaml'', ''fix-issue.yaml'', ''fix-test.yaml'', ''flaky-test-fix.yaml'',
     ''generate-docs.yaml'', ''refactor.yaml'', ''security-audit.yaml'', ''weekly-report.yaml'']"

datatype SlackFs = MadeDir string | Wrote string string

fun write_all :: "SlackHost \<Rightarrow> string \<Rightarrow> string list \<Rightarrow> bool \<times> SlackFs list" where
  "write_all H dir [] = (True, [])"
| "write_all H dir (n # ns) =
    (if sk_write H (dir @ ''/'' @ n)
     then (case write_all H dir ns of (ok, fs) \<Rightarrow> (ok, Wrote (dir @ ''/'' @ n) (sk_embedded H n) # fs))
     else (False, []))"

definition resolve_workflows_dir :: "SlackHost \<Rightarrow> string option \<times> SlackFs list" where
  "resolve_workflows_dir H =
    (if sk_is_dir H ''./workflows'' then (Some ''./workflows'', [])
     else
       (case sk_home H of
          None \<Rightarrow> (None, [])
        | Some home \<Rightarrow>
          (let dir = path_join home ''.stepyard/workflows'' in
           if sk_exists H dir then (Some dir, [])
           else if \<not> sk_mkdirs H dir then (None, [])
           else (case write_all H dir EMBEDDED_WORKFLOWS of
                   (ok, fs) \<Rightarrow> (if ok then Some dir else None, MadeDir dir # fs)))))"

definition config_value :: "json \<Rightarrow> string \<Rightarrow> string \<Rightarrow> string option" where
  "config_value v section key = (case jget v section of None \<Rightarrow> None | Some t \<Rightarrow> jget_str t key)"

definition first_some :: "'a option \<Rightarrow> 'a option \<Rightarrow> 'a option" where
  "first_some a b = (case a of None \<Rightarrow> b | Some x \<Rightarrow> Some x)"

definition load_slack_config :: "SlackHost \<Rightarrow> AppState option \<times> SlackFs list" where
  "load_slack_config H =
    (let path = path_join (or_else (sk_home H) []) ''.stepyard/config.toml'';
         parsed = (if sk_exists H path then or_else (sk_toml H (or_else (sk_read H path) [])) (JObj []) else JObj []) in
     (case first_some (sk_env H ''SLACK_BOT_TOKEN'') (config_value parsed ''slack'' ''bot_token'') of
        None \<Rightarrow> (None, [])
      | Some token \<Rightarrow>
        (case first_some (sk_env H ''SLACK_SIGNING_SECRET'') (config_value parsed ''slack'' ''signing_secret'') of
           None \<Rightarrow> (None, [])
         | Some secret \<Rightarrow>
           (case first_some (sk_env H ''STEPYARD_WORKFLOWS_DIR'') (config_value parsed ''core'' ''workflows_dir'') of
              Some dir \<Rightarrow> (Some \<lparr>as_token = token, as_secret = secret, as_dir = dir\<rparr>, [])
            | None \<Rightarrow>
              (case resolve_workflows_dir H of
                 (dir, fs) \<Rightarrow> (map_option (\<lambda>d. \<lparr>as_token = token, as_secret = secret, as_dir = d\<rparr>) dir, fs))))))"

section \<open>What a request can do\<close>

definition authentic :: "SlackHost \<Rightarrow> nat \<Rightarrow> string \<Rightarrow> headers \<Rightarrow> string \<Rightarrow> bool" where
  "authentic H now secret hs body \<longleftrightarrow>
    (\<exists>t s. hs ''x-slack-request-timestamp'' = Some t \<and> hs ''x-slack-signature'' = Some s \<and>
      header_str s = ''v0='' @ sk_hex_hmac H secret (''v0:'' @ header_str t @ '':'' @ from_utf8_lossy body) \<and>
      (\<forall>n. parse_u64 (header_str t) = Some n \<longrightarrow> now \<le> n + 300 \<and> n \<le> now + 300))"

lemma verified_iff: "verify_slack_signature H now secret hs body \<longleftrightarrow> authentic H now secret hs body"
  by (auto simp: verify_slack_signature_def authentic_def abs_diff_def Let_def split: option.splits)

text \<open>A request to run a workflow: a mention by a person, in a thread, that names a command.\<close>

definition asks_for :: "SlackHost \<Rightarrow> string \<Rightarrow> string \<Rightarrow> string \<Rightarrow> WorkflowMatch \<Rightarrow> bool" where
  "asks_for H body ch ts wm \<longleftrightarrow>
    (\<exists>v ev tx. sk_json H body = Some v \<and> slack_request v = Some (EventCallback ev) \<and> se_bot ev = None \<and>
      se_type ev = ''app_mention'' \<and> se_text ev = Some tx \<and> se_channel ev = Some ch \<and> se_ts ev = Some ts \<and>
      route_message H tx = Some (Some wm))"

definition cuts_well :: "nat \<Rightarrow> string \<Rightarrow> bool" where
  "cuts_well n s \<longleftrightarrow> length s \<le> n \<or> is_char_boundary s (length s - n)"

text \<open>Whether the end of a run can be told.\<close>

definition reportable :: "(string, ProcOut) result \<Rightarrow> bool" where
  "reportable r \<longleftrightarrow>
    (case r of
       Inl e \<Rightarrow> True
     | Inr out \<Rightarrow> cuts_well 1500 (from_utf8_lossy (po_stdout out)) \<and>
         (po_success out \<or> cuts_well 1000 (from_utf8_lossy (po_stderr out))))"

lemma tail_of_None: "tail_of n s = None \<longleftrightarrow> \<not> cuts_well n s"
  by (auto simp: tail_of_def cuts_well_def)

lemma summarise_None: "summarise r = None \<longleftrightarrow> \<not> reportable r"
  by (auto simp: summarise_def reportable_def tail_of_None [symmetric] split: sum.splits option.splits)

text \<open>Such a cut: five hundred dashes and a letter.\<close>

lemma cut_in_a_dash: "\<not> cuts_well 1500 (concat (replicate 500 em_dash) @ ''a'')"
proof -
  have "concat (replicate 500 em_dash) @ ''a'' = em_dash @ concat (replicate 499 em_dash) @ ''a''"
    by (simp add: numeral_nat)
  moreover have "length (concat (replicate 500 em_dash) @ ''a'') = 1501"
    by (simp add: length_concat sum_list_replicate em_dash_def)
  ultimately show ?thesis by (simp add: cuts_well_def is_char_boundary_def em_dash_def continuation_def)
qed

lemma routed: "try_commands H s cs = Some (Some wm) \<Longrightarrow>
    \<exists>c \<in> set cs. \<exists>info. wm = match_of (fst (snd c)) (fst (snd (snd c))) (snd (snd (snd c))) info"
proof (induction cs)
  case (Cons c cs)
  obtain p yaml desc here where c: "c = (p, yaml, desc, here)" by (cases c)
  show ?case
  proof (cases "sk_captures H p s")
    case None
    then have "try_commands H s cs = Some (Some wm)" using Cons.prems c by simp
    from Cons.IH [OF this] show ?thesis by auto
  next
    case (Some gs)
    then show ?thesis using Cons.prems c by (cases gs) auto
  qed
qed simp

lemma routed_embedded: "route_message H s = Some (Some wm) \<Longrightarrow> wm_workflow wm \<in> set EMBEDDED_WORKFLOWS"
proof -
  assume "route_message H s = Some (Some wm)"
  then have "\<exists>c \<in> set commands. \<exists>info. wm = match_of (fst (snd c)) (fst (snd (snd c))) (snd (snd (snd c))) info"
    by (intro routed) (simp add: route_message_def)
  then show ?thesis by (auto simp: commands_def match_of_def EMBEDDED_WORKFLOWS_def)
qed

fun launches :: "SlackEffect list \<Rightarrow> string list list" where
  "launches [] = []"
| "launches (Posted m # es) = launches es"
| "launches (Launched argv p # es) = argv # launches es"

fun posted_in :: "string \<Rightarrow> string \<Rightarrow> SlackEffect \<Rightarrow> bool" where
  "posted_in ch ts (Posted m) \<longleftrightarrow> sm_channel m = ch \<and> sm_thread m = Some ts"
| "posted_in ch ts (Launched argv p) \<longleftrightarrow> True"

lemma run_workflow_effects:
  "launches (fst (run_workflow H st ch ts wm)) = [which_stepyard H # cmd_args st wm]"
  "list_all (posted_in ch ts) (fst (run_workflow H st ch ts wm))"
  "length (fst (run_workflow H st ch ts wm)) = (if reportable (sk_run H (which_stepyard H # cmd_args st wm) (enhanced_path H)) then 3 else 2)"
  by (auto simp: run_workflow_def Let_def summarise_None [symmetric] split: option.splits prod.splits)

lemma served:
  assumes "slack_serve H st now hs body = (r, effs)"
  shows "\<not> authentic H now (as_secret st) hs body \<and> r = Some Unauthorized \<and> effs = [] \<or>
    authentic H now (as_secret st) hs body \<and>
      (effs = [] \<or> (\<exists>m. effs = [Posted m]) \<or> (\<exists>ch ts wm. asks_for H body ch ts wm \<and> r = Some fine \<and> effs = fst (run_workflow H st ch ts wm)))"
proof (cases "authentic H now (as_secret st) hs body")
  case False
  then show ?thesis using assms by (auto simp: slack_serve_def slack_events_def verified_iff)
next
  case auth: True
  show ?thesis
  proof (cases "\<exists>v ev. sk_json H body = Some v \<and> slack_request v = Some (EventCallback ev)")
    case True
    then obtain v ev where v: "sk_json H body = Some v" "slack_request v = Some (EventCallback ev)" by blast
    then have "slack_events H st now hs body = handle_event H ev" using auth by (simp add: slack_events_def verified_iff)
    then show ?thesis using assms auth v
      by (auto simp: slack_serve_def handle_event_def asks_for_def split: option.splits if_splits)
  next
    case False
    then show ?thesis using assms auth
      by (auto simp: slack_serve_def slack_events_def verified_iff split: option.splits SlackRequest.splits)
  qed
qed


end
