(* ===== verification/Display.thy ===== *)
theory Display
  imports Utf8
begin

text \<open>
  The text the program shows a person (\<open>src/display.rs\<close>): no control character and none of the characters that turn
  the direction of the text reaches the terminal, and what is long is cut. Texts are UTF-8, as every \<open>str\<close> is.
\<close>

section \<open>The sanitizer\<close>

definition MAX_INPUT_BYTES :: nat where "MAX_INPUT_BYTES = 8192"

text \<open>\<open>ch as u32\<close> for the bytes of a character.\<close>

fun code_point :: "string \<Rightarrow> nat" where
  "code_point [a] = byte_of a"
| "code_point [a, b] = (byte_of a - 0xC0) * 64 + (byte_of b - 128)"
| "code_point [a, b, c] = ((byte_of a - 0xE0) * 64 + (byte_of b - 128)) * 64 + (byte_of c - 128)"
| "code_point [a, b, c, d] =
    (((byte_of a - 0xF0) * 64 + (byte_of b - 128)) * 64 + (byte_of c - 128)) * 64 + (byte_of d - 128)"
| "code_point _ = 0"

text \<open>\<open>char::is_control\<close>: the Unicode category \<open>Cc\<close>.\<close>

definition is_control :: "nat \<Rightarrow> bool" where
  "is_control n \<longleftrightarrow> n < 32 \<or> 127 \<le> n \<and> n < 160"

definition needs_escape :: "string \<Rightarrow> bool" where
  "needs_escape ch \<longleftrightarrow>
    (if code_point ch \<in> {10, 13, 9} then False
     else if is_control (code_point ch) then True
     else 0x202A \<le> code_point ch \<and> code_point ch \<le> 0x202E \<or> 0x2066 \<le> code_point ch \<and> code_point ch \<le> 0x2069)"

definition hex_digit :: "nat \<Rightarrow> char" where
  "hex_digit n = (if n < 10 then char_of (48 + n) else char_of (87 + n))"

fun show_hex :: "nat \<Rightarrow> string" where
  "show_hex n = (if n < 16 then [hex_digit n] else show_hex (n div 16) @ [hex_digit (n mod 16)])"

declare show_hex.simps [simp del]

definition escaped :: "nat \<Rightarrow> string" where
  "escaped n = [CHR 0x5C] @ ''u{'' @ replicate (4 - length (show_hex n)) (CHR ''0'') @ show_hex n @ ''}''"

definition truncate_at_char_boundary :: "string \<Rightarrow> nat \<Rightarrow> string \<times> nat" where
  "truncate_at_char_boundary input max_bytes =
    (if length input \<le> max_bytes then (input, 0)
     else (take (snap input max_bytes) input, length input - snap input max_bytes))"

definition ellipsis :: string where "ellipsis = [CHR 0xE2, CHR 0x80, CHR 0xA6]"

definition marker :: "nat \<Rightarrow> string" where
  "marker dropped = (if 0 < dropped then ellipsis @ '' [truncated '' @ show_nat dropped @ '' bytes]'' else [])"

definition shown_char :: "string \<Rightarrow> string" where
  "shown_char ch = (if needs_escape ch then escaped (code_point ch) else ch)"

definition sanitize_human :: "string \<Rightarrow> string" where
  "sanitize_human input =
    (case truncate_at_char_boundary input MAX_INPUT_BYTES of
       (slice, dropped) \<Rightarrow> concat (map shown_char (chars slice)) @ marker dropped)"

section \<open>What it shows\<close>

text \<open>A piece of the output: characters that are safe to show.\<close>

definition harmless :: "string \<Rightarrow> bool" where
  "harmless s \<longleftrightarrow> (\<exists>ps. list_all one_char ps \<and> list_all (\<lambda>p. \<not> needs_escape p) ps \<and> s = concat ps)"

lemma harmless_iff: "harmless s \<longleftrightarrow> utf8 s \<and> list_all (\<lambda>p. \<not> needs_escape p) (chars s)"
  unfolding harmless_def using utf8_chars chars_concat chars_of_chars utf8_iff by metis

lemma harmless_append: "harmless s \<Longrightarrow> harmless t \<Longrightarrow> harmless (s @ t)"
  unfolding harmless_def by (metis concat_append list_all_append)

lemma harmless_concat: "list_all harmless ss \<Longrightarrow> harmless (concat ss)"
proof (induction ss)
  case Nil
  show ?case unfolding harmless_def by (intro exI [of _ "[]"]) simp
qed (simp add: harmless_append)

definition printable :: "char \<Rightarrow> bool" where
  "printable c \<longleftrightarrow> 32 \<le> byte_of c \<and> byte_of c < 127"

lemma harmless_printable: "list_all printable s \<Longrightarrow> harmless s"
  unfolding harmless_def
  by (rule exI [of _ "map (\<lambda>c. [c]) s"])
    (auto simp: list_all_iff printable_def one_char_def sequence_def sequel_def needs_escape_def is_control_def)

lemma printable_hex: "n < 16 \<Longrightarrow> printable (hex_digit n)"
  by (simp add: hex_digit_def printable_def)

lemma printable_show_hex: "list_all printable (show_hex n)"
proof (induction n rule: show_hex.induct)
  case (1 n)
  then show ?case by (subst show_hex.simps) (simp add: printable_hex)
qed

lemma printable_show_nat: "list_all printable (show_nat n)"
  using show_nat_digits [of n] by (force simp: list_all_iff printable_def is_digit_def)

lemma harmless_escaped: "harmless (escaped n)"
  unfolding escaped_def
  by (rule harmless_printable) (auto simp: printable_show_hex, auto simp: printable_def list_all_iff)

lemma harmless_marker: "harmless (marker n)"
proof -
  have "harmless ellipsis"
    unfolding harmless_def ellipsis_def
    by (intro exI [of _ "[[CHR 0xE2, CHR 0x80, CHR 0xA6]]"])
      (simp add: one_char_def sequence_def sequel_def numeral_2_eq_2 needs_escape_def is_control_def)
  moreover have "harmless ('' [truncated '' @ show_nat n @ '' bytes]'')"
    by (rule harmless_printable) (simp add: printable_show_nat, simp add: printable_def)
  moreover have "harmless []" by (rule harmless_printable) simp
  ultimately show ?thesis by (simp add: marker_def harmless_append)
qed

lemma cut_at: "truncate_at_char_boundary s n = (t, d) \<Longrightarrow>
    \<exists>k. t = take k s \<and> d = length s - k \<and> k \<le> length s \<and> (d = 0 \<longrightarrow> t = s) \<and> (k = 0 \<or> is_char_boundary s k) \<and> length t \<le> n"
  using snap_le [of s n] snap_boundary [of s n]
  by (cases "length s \<le> n")
    (auto simp: truncate_at_char_boundary_def is_char_boundary_def intro: exI [of _ "length s"])

lemma marker_zero [simp]: "marker 0 = []"
  by (simp add: marker_def)

lemma harmless_shown: "one_char p \<Longrightarrow> harmless (shown_char p)"
  unfolding shown_char_def by (auto simp: harmless_escaped, auto simp: harmless_def intro!: exI [of _ "[p]"])

text \<open>An ASCII byte is a character of its own.\<close>

lemma ascii_char: "one_char p \<Longrightarrow> c \<in> set p \<Longrightarrow> byte_of c < 128 \<Longrightarrow> p = [c]"
proof -
  assume c: "c \<in> set p" "byte_of c < 128" and o: "one_char p"
  obtain d t where p: "p = d # t" "list_all continuation t" using o by (rule one_char_parts)
  then have "c = d" using c by (auto simp: list_all_iff continuation_def)
  then show "p = [c]" using p o c(2) by (auto simp: one_char_def sequence_def sequel_def)
qed

lemma harmless_bytes: "harmless s \<Longrightarrow> c \<in> set s \<Longrightarrow> byte_of c < 128 \<Longrightarrow> printable c \<or> byte_of c \<in> {9, 10, 13}"
  unfolding harmless_def
  by (auto simp: list_all_iff needs_escape_def is_control_def printable_def split: if_splits dest!: ascii_char bspec)

text \<open>What is shown of the input is the longest run of whole characters that fits.\<close>

definition fitting :: "string list \<Rightarrow> nat \<Rightarrow> bool" where
  "fitting cs n \<longleftrightarrow> n \<le> length cs \<and> length (concat (take n cs)) \<le> MAX_INPUT_BYTES \<and>
    (n < length cs \<longrightarrow> MAX_INPUT_BYTES < length (concat (take (Suc n) cs)))"

lemma whole_chars:
  assumes "utf8 s" and "truncate_at_char_boundary s MAX_INPUT_BYTES = (t, d)"
  shows "\<exists>n. fitting (chars s) n \<and> chars t = take n (chars s) \<and> d = length s - length (concat (take n (chars s)))"
proof (cases "length s \<le> MAX_INPUT_BYTES")
  case True
  then show ?thesis using assms(2)
    by (auto simp: truncate_at_char_boundary_def fitting_def chars_concat intro!: exI [of _ "length (chars s)"])
next
  case False
  let ?k = "snap s MAX_INPUT_BYTES"
  have t: "t = take ?k s" "d = length s - ?k" using assms(2) False by (auto simp: truncate_at_char_boundary_def)
  have ps: "list_all one_char (chars s)" by (rule utf8_chars [OF assms(1)])
  obtain j where j: "take ?k (concat (chars s)) = concat (take j (chars s))"
  proof (cases "?k = 0")
    case True
    then show thesis using that [of 0] by simp
  next
    case False
    then show thesis using that boundary_prefix [OF ps, of ?k] snap_boundary [of s MAX_INPUT_BYTES] by (auto simp: chars_concat)
  qed
  let ?n = "min j (length (chars s))"
  have n: "take ?k s = concat (take ?n (chars s))" using j by (simp add: chars_concat min_def)
  have le: "length (concat (take ?n (chars s))) = ?k"
    using n snap_le [of s MAX_INPUT_BYTES] False by (metis length_take min.absorb2 nat_le_linear order_trans)
  have "MAX_INPUT_BYTES < length (concat (take (Suc ?n) (chars s)))" if "?n < length (chars s)"
  proof (rule ccontr)
    assume short: "\<not> MAX_INPUT_BYTES < length (concat (take (Suc ?n) (chars s)))"
    let ?l = "length (concat (take (Suc ?n) (chars s)))"
    have "is_char_boundary (concat (chars s)) ?l"
      using boundary_between [OF ps] .
    then have "?l \<le> ?k" using snap_longest [of s ?l MAX_INPUT_BYTES] short by (simp add: chars_concat)
    moreover have "chars s ! ?n \<noteq> []" using ps that by (auto simp: list_all_length one_char_def)
    ultimately show False using le that by (simp add: take_Suc_conv_app_nth)
  qed
  then have "fitting (chars s) ?n" using le snap_le [of s MAX_INPUT_BYTES] by (simp add: fitting_def)
  moreover have "chars t = take ?n (chars s)"
    using n t chars_of_chars [of "take ?n (chars s)"] ps by (metis append_take_drop_id list_all_append)
  ultimately show ?thesis using le t by metis
qed

text \<open>The characters a terminal shows as they are, and in their place.\<close>

definition bidi_controls :: "nat list" where
  "bidi_controls = [0x202A, 0x202B, 0x202C, 0x202D, 0x202E, 0x2066, 0x2067, 0x2068, 0x2069]"

definition shows_itself :: "nat \<Rightarrow> bool" where
  "shows_itself n \<longleftrightarrow> n \<in> {9, 10, 13} \<or> 32 \<le> n \<and> (n < 127 \<or> 160 \<le> n) \<and> n \<notin> set bidi_controls"

lemma needs_escape_iff: "needs_escape p \<longleftrightarrow> \<not> shows_itself (code_point p)"
  by (auto simp: needs_escape_def shows_itself_def is_control_def bidi_controls_def)



end
