(* ===== verification/Signals.thy ===== *)
theory Signals
  imports CliRun
begin

text \<open>
  The end of the process, \<open>src/signal.rs\<close> and the race in \<open>src/main.rs\<close>: a run against an interrupt, the name the engines
  read, the time they are given, and the status the process leaves with.
\<close>

section \<open>A signal\<close>

datatype FiredSignal = IntSignal | TermSignal

fun exit_code :: "FiredSignal \<Rightarrow> nat" where
  "exit_code IntSignal = 130"
| "exit_code TermSignal = 143"

fun signal_name :: "FiredSignal \<Rightarrow> string" where
  "signal_name IntSignal = ''sigint''"
| "signal_name TermSignal = ''sigterm''"

text \<open>The channel with the engines that listen, and the slot that is written once.\<close>

record ShutdownState =
  sd_signal :: "string option"
  sd_fired :: bool

definition set_once :: "string \<Rightarrow> string option \<Rightarrow> string option" where
  "set_once n slot = (case slot of None \<Rightarrow> Some n | Some m \<Rightarrow> Some m)"

text \<open>
  The polls of the wait: the milliseconds since the signal and the engines that still listen. The wait ends with the first poll
  without engines or at the deadline; \<open>None\<close> is a wait that these polls do not end.
\<close>

fun await_drain :: "nat \<Rightarrow> (nat \<times> nat) list \<Rightarrow> nat option" where
  "await_drain grace_s [] = None"
| "await_drain grace_s ((t, n) # ps) = (if 0 < n \<and> t < grace_s * 1000 then await_drain grace_s ps else Some t)"

definition install_handlers :: "nat \<Rightarrow> FiredSignal \<Rightarrow> (nat \<times> nat) list \<Rightarrow> ShutdownState \<Rightarrow> (nat \<times> nat) option \<times> ShutdownState" where
  "install_handlers grace_s sg polls st =
    (map_option (\<lambda>t. (exit_code sg, t)) (await_drain grace_s polls),
     \<lparr>sd_signal = set_once (signal_name sg) (sd_signal st), sd_fired = True\<rparr>)"

section \<open>The process\<close>

text \<open>The grace period is a number of seconds of the environment, or ten.\<close>

definition grace_of :: "string option \<Rightarrow> nat" where
  "grace_of v = or_else (case v of Some s \<Rightarrow> parse_u64 s | None \<Rightarrow> None) 10"

text \<open>Which arm of the race is done first; an error of the command is the status 1.\<close>

datatype Race = RunFirst "(string, unit) result" | SignalFirst FiredSignal "(nat \<times> nat) list"

definition main_status :: "string option \<Rightarrow> Race \<Rightarrow> nat option" where
  "main_status grace first =
    (case first of
       RunFirst (Inr u) \<Rightarrow> Some 0
     | RunFirst (Inl e) \<Rightarrow> Some 1
     | SignalFirst sg polls \<Rightarrow> map_option fst (fst (install_handlers (grace_of grace) sg polls \<lparr>sd_signal = None, sd_fired = False\<rparr>)))"

section \<open>What it promises\<close>

text \<open>The name is there when the engines are told, and a second signal does not change it.\<close>

lemma name_before_broadcast:
  "sd_fired (snd (install_handlers g sg polls st)) \<and> sd_signal (snd (install_handlers g sg polls st)) \<noteq> None"
  "sd_signal st = Some n \<Longrightarrow> sd_signal (snd (install_handlers g sg polls st)) = Some n"
  by (auto simp: install_handlers_def set_once_def split: option.splits)

text \<open>Polls that come at least every so many milliseconds end the wait by then after the deadline, with every engine gone or not.\<close>

lemma await_drain_ends:
  assumes "list_ex (\<lambda>(t, n). n = 0 \<or> grace_s * 1000 \<le> t) ps" and "\<forall>i. Suc i < length ps \<longrightarrow> fst (ps ! Suc i) \<le> fst (ps ! i) + d"
    and "ps \<noteq> [] \<longrightarrow> fst (hd ps) \<le> grace_s * 1000 + d"
  shows "\<exists>t. await_drain grace_s ps = Some t \<and> t \<le> grace_s * 1000 + d"
  using assms
proof (induction ps)
  case (Cons p ps)
  obtain t n where p: "p = (t, n)" by (cases p)
  show ?case
  proof (cases "0 < n \<and> t < grace_s * 1000")
    case True
    have "\<forall>i. Suc i < length ps \<longrightarrow> fst (ps ! Suc i) \<le> fst (ps ! i) + d" using Cons.prems(2) by (metis Suc_mono length_Cons nth_Cons_Suc)
    moreover have "ps \<noteq> [] \<longrightarrow> fst (hd ps) \<le> grace_s * 1000 + d"
      using Cons.prems(2) True p by (cases ps) (auto dest: spec [of _ 0])
    ultimately show ?thesis using Cons.IH Cons.prems(1) True p by auto
  next
    case False
    then show ?thesis using Cons.prems(3) p by auto
  qed
qed simp

lemma await_drain_why: "await_drain grace_s ps = Some t \<Longrightarrow> grace_s * 1000 \<le> t \<or> (t, 0) \<in> set ps"
  by (induction grace_s ps rule: await_drain.induct) (auto split: if_splits)

end
