(* ===== verification/Factory.thy ===== *)
theory Factory
  imports FileLog Render
begin

text \<open>
  Which store a process opens, \<open>stepyard-session/src/factory.rs\<close>: the database the environment names, in each of the two builds,
  and the mirror around it. The driver, the migrations and the file system are answers of a host.
\<close>

datatype OpenedStore = PgPool string | SqliteFile string

record FactoryHost =
  fa_env :: "string \<Rightarrow> string option"
  fa_mkdirs :: "string list \<Rightarrow> string option"
  fa_connect :: "string \<Rightarrow> SessionError option"
  fa_migrate :: "string \<Rightarrow> SessionError option"

record FileLogConfig =
  fl_enabled :: bool
  fl_directory :: string

definition either_env :: "FactoryHost \<Rightarrow> string \<Rightarrow> string \<Rightarrow> string option" where
  "either_env H a b = (case fa_env H a of Some v \<Rightarrow> Some v | None \<Rightarrow> fa_env H b)"

definition open_at :: "FactoryHost \<Rightarrow> string \<Rightarrow> OpenedStore \<Rightarrow> (SessionError, OpenedStore) result" where
  "open_at H url st =
    (case fa_connect H url of
       Some e \<Rightarrow> Inl e
     | None \<Rightarrow> (case fa_migrate H url of Some e \<Rightarrow> Inl e | None \<Rightarrow> Inr st))"

definition build_raw_postgres :: "FactoryHost \<Rightarrow> (SessionError, OpenedStore) result" where
  "build_raw_postgres H =
    (case either_env H ''DATABASE_URL'' ''STEPYARD_HARNESS_DATABASE_URL'' of
       None \<Rightarrow> Inl (SessionInvalidState ''postgres backend requires DATABASE_URL or STEPYARD_HARNESS_DATABASE_URL'')
     | Some url \<Rightarrow> open_at H url (PgPool url))"

definition sqlite_path :: "FactoryHost \<Rightarrow> string" where
  "sqlite_path H =
    (case either_env H ''STEPYARD_SQLITE_PATH'' ''STEPYARD_HARNESS_DATABASE_URL'' of
       Some p \<Rightarrow> p | None \<Rightarrow> ''.stepyard/sessions.db'')"

definition build_raw_sqlite :: "(string list \<Rightarrow> string) \<Rightarrow> FactoryHost \<Rightarrow> (SessionError, OpenedStore) result" where
  "build_raw_sqlite show_path H =
    (let path = sqlite_path H; parent = butlast (components path); url = ''sqlite://'' @ path @ ''?mode=rwc'' in
     (case (if components path = [] then None else fa_mkdirs H parent) of
        Some e \<Rightarrow> Inl (SessionInvalidState (''failed to create sqlite session directory `'' @ show_path parent @ ''`: '' @ e))
      | None \<Rightarrow> open_at H url (SqliteFile path)))"

text \<open>The store, and the directory its mirror writes to.\<close>

definition build_store_with_file_logs ::
  "(SessionError, OpenedStore) result \<Rightarrow> FileLogConfig \<Rightarrow> (SessionError, OpenedStore \<times> string option) result" where
  "build_store_with_file_logs raw cfg =
    res_bind raw (\<lambda>st. Inr (st, if fl_enabled cfg then Some (fl_directory cfg) else None))"

text \<open>
  A store is handed out only when its database took the migrations, and it is the one the environment names first; the
  mirror has no part in whether it opens.
\<close>

lemma postgres_opened: "build_raw_postgres H = Inr st \<longleftrightarrow>
    (\<exists>url. either_env H ''DATABASE_URL'' ''STEPYARD_HARNESS_DATABASE_URL'' = Some url \<and> st = PgPool url \<and>
      fa_connect H url = None \<and> fa_migrate H url = None)"
  by (auto simp: build_raw_postgres_def open_at_def split: option.splits)

lemma sqlite_opened: "build_raw_sqlite show_path H = Inr st \<Longrightarrow>
    st = SqliteFile (sqlite_path H) \<and> fa_migrate H (''sqlite://'' @ sqlite_path H @ ''?mode=rwc'') = None"
  by (auto simp: build_raw_sqlite_def open_at_def Let_def split: option.splits if_splits)

lemma mirror_opens_alike:
  "(\<exists>p. build_store_with_file_logs raw cfg = Inr p) \<longleftrightarrow> (\<exists>st. raw = Inr st)"
  by (cases raw) (auto simp: build_store_with_file_logs_def)

end
