(* ===== verification/Spec2Isabelle.thy ===== *)
theory Spec2Isabelle
  imports Template Duration EnvKeys Workflow EngineStore FileLog ScopeProps AdapterErrors Validator Startup WorktreeProps ChatClient Prompts V1Demo V1Access CliProps CliView BackendProps NotifyProps Slack Display Signals Factory
begin

text \<open>
  Verification of stepyard: a durable workflow engine for coding agents.

  The program. A workflow file (YAML) names steps of ten kinds: shell commands, agents (a command line
  tool that streams JSON), chat calls to a model, gates, templates, scripts, and the containers
  \<open>repeat\<close>, \<open>map\<close>, \<open>parallel\<close> and \<open>call\<close>, whose bodies are named scopes. The command line parses
  the file (\<open>src/workflow\<close>), lays the configuration over it (\<open>src/config\<close>, \<open>src/prompts\<close>), and
  adapts it to the workflow of the harness (\<open>src/cli/harness_adapter.rs\<close>). The harness
  (\<open>crates/stepyard-harness\<close>) keeps no state of its own between two steps: every call of
  \<open>Engine::step\<close> replays the append-only event log of the session (\<open>crates/stepyard-session\<close>) to find the
  step whose turn it is, runs that step through a sandbox (\<open>crates/stepyard-sandbox-orchestrator\<close>) and
  appends what happened. A process may die between any two writes, and another one may continue the
  session from what the database holds. The vocabulary the crates share (events, signals, durations,
  environment maps, placeholders) is \<open>crates/stepyard-core\<close>.

  The theories, bottom up.

  \<^item> Prelude, Json, Numbers: byte strings with the functions of \<open>str\<close> the sources call, the
    locale \<open>codec\<close> of every encoding that is read back, \<open>serde_json::Value\<close>, and the number parsers.
  \<^item> Core, Events, Duration, EnvKeys, Template: \<open>stepyard-core\<close>. Every event with its wire form,
    the signals, the errors, the duration grammar, the validation of environment maps (and the cascade
    and the proxy rewriting of the engine), the two modes of placeholder substitution.
  \<^item> SessionLog, SqliteStore, FileLog: \<open>stepyard-session\<close>. The tables of the two stores, every
    operation, the session handle and the file mirror. A statement of the database fails before its commit,
    after it, or succeeds (\<open>Fate\<close>). The locales \<open>event_store\<close>, \<open>replayable_store\<close> and
    \<open>mirrorable_store\<close> state what the engine relies on; the Postgres store interprets all of them.
  \<^item> Workflow, Gate, Render, AgentExec, ChatExec, Progress, Replay: the parts of
    \<open>stepyard-harness\<close> that are functions of their inputs: the workflow and its validation, the gate, the
    template and script contexts, the command line, stream and exit rule of the agent, the request of a
    chat call, \<open>compute_progress\<close>, and what a container reads from the log.
  \<^item> Runtime, EngineBase, EngineSteps, Scope, Engine: \<open>engine.rs\<close> and \<open>scope.rs\<close>. The record
    \<open>World\<close> holds the log, the status of the session's row and of the handle, the fields of the Rust
    struct the methods change, and the effects done so far; \<open>Host\<close> answers everything outside:
    the clock, the database's fates, child processes, the chat client, the renderers, the sandbox and the
    race between an operation and its cancellation, all by a tick that every answer advances. An operation
    is a function from a world to a result and a world; an error is a value (\<open>?\<close> is the bind).
  \<^item> EngineLaws, EngineSpecs, ScopeSpecs, Frames: the rules the theorems rest on. \<open>wpv\<close> is the
    weakest precondition over every host; each operation has one rule for the four observations of a log
    (completions, failure, end, status) and one for its frame (which events and effects it may add).
  \<^item> EngineProps, Isolation, Lifecycle, EngineStore, ScopeProps: the theorems on one step, on
    what a step may touch, on sessions over many processes, on the engine over the tables of its
    store, and on the scope runner.
  \<^item> Startup: recovery after a crash (\<open>startup.rs\<close>). Worktree, WorktreeProps: the git worktree
    manager (\<open>workspace.rs\<close>) over a host that answers every call from the calls made so far, and the
    engine over the manager.
  \<^item> Schema, Validator, Adapter, AdapterProps, AdapterErrors: the workflow file, its validator,
    and its translation to the harness. Config: the chain of defaults and the four layers of a step.
    Prompts: the registry of stacks and prompts. ChatClient: truncation, retries, dispatch.
  \<^item> Outputs, V1Context, V1Template, V1Steps, V1Scopes, V1Engine, V1Calls: the engine of version 1
    (\<open>src/engine\<close>, \<open>src/steps\<close>, \<open>src/claude/session.rs\<close>). Step outputs and errors, the tree of contexts, the
    preprocessor of templates, one executor per type of step, the scopes, and the run with its events, state file,
    asynchronous steps and sandbox, over a record of answers (\<open>V1Host\<close>, \<open>V1Exec\<close>, \<open>Engine1\<close>). The executors call each
    other without a count, so they take the depth \<open>n_depth\<close>; \<open>None\<close> is a run that has not returned.
  \<^item> V1Laws, V1Props, V1Log, V1Resume, V1Access, V1Demo: that a run returns, where its commands run, what its log
    holds, what resuming skips, what the accessors do, and the runs that witness it.
  \<^item> DockerBox, ApiProxy: \<open>src/sandbox\<close>. The configuration, modes and runtimes, every command of the life of the container,
    and what the proxy forwards and answers.
  \<^item> Cli, CliRun, CliView, CliProps: \<open>src/cli/commands.rs\<close>. The variables and the checks before a run, the command
    \<open>execute\<close> from its arguments to its exit status over the engine of the harness, and the live view.
  \<^item> Backends, BackendProps: the backends of the harness and its executor (\<open>docker.rs\<close>, \<open>podman.rs\<close>, \<open>local.rs\<close>,
    \<open>docker_errors.rs\<close>, \<open>container.rs\<close>, \<open>executor.rs\<close>): the commands they run, what an error becomes, and the project on its way in and out.
  \<^item> Signals: the end of the process (\<open>src/signal.rs\<close>, \<open>src/main.rs\<close>). Factory: which store is opened.
  \<^item> Utf8, Display: UTF-8 as \<open>std\<close> reads it, and the text that is shown to a person (\<open>src/display.rs\<close>).
  \<^item> Notify, NotifyProps: the subscribers of the version 1 engine (\<open>src/events\<close>). Slack: the bot (\<open>src/slack/mod.rs\<close>).

  How the state corresponds to the code. A \<open>record\<close> is the struct of the same name, a \<open>datatype\<close>
  the enum. Strings are UTF-8 byte strings. A hash map is an association list or a map; where the code
  iterates one, the order is an argument. The counters \<open>u32\<close> of the engine are naturals with the
  overflow written out as the panic it is in a checked build; those of a prune report are 32-bit words.
  Async code is sequential between two awaits; a \<open>select!\<close> asks the host which arm won.

  Termination and fuel. Everything is a total function but for these. \<open>resume\<close> takes fuel, and
  \<open>resume_terminates\<close> shows that the number of steps the workflow has left and one more is enough for
  every host; the command line's own loop, \<open>drive\<close>, is given as much by \<open>execute\<close>. The engine of version 1 nests
  scopes, and \<open>v1_run_returns\<close> shows that a depth of one more than the number of scopes is enough for every workflow the
  validator accepts. Containers do not nest (the engine refuses it), so the loops of the scope runner recurse
  on the lists they run over. The
  parents of a prompt stack may form a cycle, on which the code does not return: that search is a
  partial function, and \<open>stack_detection\<close> says exactly when it is undefined.

  What the theorems show. The stores only append, and agree with each other (SessionLog,
  SqliteStore, FileLog). Replay is the fold of the meaning of typed events (Progress). Over every history
  of crashes and restarts the completions of a session are exactly the first steps of its workflow, once
  each (Lifecycle); a step reports what it did (EngineProps) and touches only what is its own
  (Isolation); \<open>resume\<close> ends, and completes on a host where nothing fails. The engine's view of its
  session is an abstraction of the tables (EngineStore), and the workspace it announces is the one the
  worktree manager prepares (WorktreeProps). What the adapter returns passes the guards of the engine, and
  its errors are about the definition it was given (AdapterProps, AdapterErrors). The engine of version 1 returns on
  every workflow that validates, runs in the sandbox what its mode says but for asynchronous steps, and closes its session
  last (V1Props, V1Log). The key of the host reaches neither the commands that make the container nor a client of the
  proxy (DockerBox, ApiProxy). What the command line reports as success is a session whose every step completed (CliProps). The dashboard is told of the
  steps that ended, which is not every failure (NotifyProps); a request to the bot starts one run at most, and
  only if it is signed (Slack).

  Not modelled. Code that only moves bytes between the program and something outside it: process groups, the listeners of
  the proxy and of the bot, plugins, the handlers of the operating system, terminal output, the migrations,
  the commands that only print or ask (list, inspect, setup, remote, session list), the dry run of version 1, the mock
  backend of the tests, the build helper. Libraries are parameters: the YAML parser, Tera, Rhai, regular
  expressions, the UUID parser, the clock, the database driver, the model providers. What a theorem needs of
  one of them is a named hypothesis, with a witness that instantiates it.
\<close>

end
